(* ===== verification/Prelude.thy ===== *)
theory Prelude
  imports Main "HOL-Library.Word" "HOL-Library.Monad_Syntax"
begin

text \<open>
  Shared vocabulary of the development.

  \<^item> The C integer types of \<^verbatim>\<open>os/types.h\<close> as words: \<open>u8\<close>, \<open>u16\<close>, \<open>u32\<close>, \<open>u64\<close>.
  \<^item> A kernel operation that can \<^verbatim>\<open>panic\<close> (print, shut the machine down, never return)
    has a result of type \<open>'a option\<close>: \<open>None\<close> is the panic. Operations are chained with
    the \<^verbatim>\<open>do\<close> notation of \<open>HOL-Library.Monad_Syntax\<close>. C error codes stay integers.
  \<^item> The loop "walk an array, stop at the first slot that satisfies a test", which the
    code has in \<^verbatim>\<open>alloctid\<close>, \<^verbatim>\<open>allocproc\<close>, \<^verbatim>\<open>filealloc\<close>, \<^verbatim>\<open>fdalloc\<close>, \<^verbatim>\<open>iget\<close>,
    \<^verbatim>\<open>tcp_pcb_alloc\<close>, \<^verbatim>\<open>arp_cache_select\<close> and many others, is \<open>first_idx\<close>.
  \<^item> \<open>reach\<close> and the locale \<open>safe_machine\<close>: reachable states of a step relation and
    the invariant rule every state machine of the development is an instance of.
  \<^item> \<open>fifo\<close>: the contract of a bounded first-in first-out queue, provided by the kernel's
    ring buffers and by the linked queues of the network stack.
\<close>

named_theorems wf_intros "introduction rules that show well-formedness is kept"
named_theorems frame_simps "fields that an operation leaves alone"

text \<open>Tasks are pairs; quantified pairs are kept whole.\<close>

declare split_paired_All [simp del]
declare split_paired_Ex [simp del]

type_synonym u8 = "8 word"
type_synonym u16 = "16 word"
type_synonym u32 = "32 word"
type_synonym u64 = "64 word"

section \<open>First matching slot of an array\<close>

fun first_idx :: "('a \<Rightarrow> bool) \<Rightarrow> 'a list \<Rightarrow> nat option" where
  "first_idx P [] = None"
| "first_idx P (x # xs) = (if P x then Some 0 else map_option Suc (first_idx P xs))"

lemma first_idx_None_iff [simp]: "first_idx P xs = None \<longleftrightarrow> (\<forall>x \<in> set xs. \<not> P x)"
  by (induction xs) auto

lemma first_idx_Some_iff:
  "first_idx P xs = Some i \<longleftrightarrow> i < length xs \<and> P (xs ! i) \<and> (\<forall>j < i. \<not> P (xs ! j))"
proof (induction xs arbitrary: i)
  case Nil
  then show ?case by simp
next
  case (Cons x xs)
  show ?case
  proof (cases i)
    case 0
    then show ?thesis by auto
  next
    case (Suc k)
    then show ?thesis using Cons.IH [of k] by (auto simp: nth_Cons split: nat.splits)
  qed
qed

lemma first_idx_SomeD:
  assumes "first_idx P xs = Some i"
  shows "i < length xs" "P (xs ! i)" "\<And>j. j < i \<Longrightarrow> \<not> P (xs ! j)"
  using assms by (auto simp: first_idx_Some_iff)

lemma first_idx_cong_update:
  "i < length xs \<Longrightarrow> P (xs ! i) = P y \<Longrightarrow> first_idx P (xs[i := y]) = first_idx P xs"
proof (induction xs arbitrary: i)
  case (Cons x xs)
  then show ?case by (cases i) auto
qed simp

section \<open>Indexed updates\<close>

definition upd_at :: "nat \<Rightarrow> ('a \<Rightarrow> 'a) \<Rightarrow> 'a list \<Rightarrow> 'a list" where
  "upd_at i f xs = xs[i := f (xs ! i)]"

lemma length_upd_at [simp]: "length (upd_at i f xs) = length xs"
  by (simp add: upd_at_def)

lemma nth_upd_at: "j < length xs \<Longrightarrow> upd_at i f xs ! j = (if i = j then f (xs ! j) else xs ! j)"
  by (auto simp: upd_at_def nth_list_update)

lemma nth_upd_at_same [simp]: "i < length xs \<Longrightarrow> upd_at i f xs ! i = f (xs ! i)"
  by (simp add: upd_at_def)

lemma nth_upd_at_other [simp]: "i \<noteq> j \<Longrightarrow> upd_at i f xs ! j = xs ! j"
  by (simp add: upd_at_def)

lemma map_upd_at: "(\<And>x. h (f x) = h x) \<Longrightarrow> map h (upd_at i f xs) = map h xs"
  by (metis (no_types, lifting) upd_at_def length_list_update list_update_id map_update
      list_update_beyond linorder_not_less nth_map)

lemma field_upd_at: "(\<And>x. h (f x) = h x) \<Longrightarrow> h (upd_at i f xs ! j) = h (xs ! j)"
  by (cases "i < length xs"; cases "i = j") (auto simp: upd_at_def list_update_beyond not_less)

lemma ball_upd_at:
  assumes "\<forall>x \<in> set xs. P x" "i < length xs \<Longrightarrow> P (xs ! i) \<Longrightarrow> P (f (xs ! i))"
  shows "\<forall>x \<in> set (upd_at i f xs). P x"
proof (cases "i < length xs")
  case True
  then have "P (f (xs ! i))" using assms by simp
  with assms(1) set_update_subset_insert [of xs i "f (xs ! i)"] show ?thesis by (auto simp: upd_at_def)
next
  case False
  with assms(1) show ?thesis by (simp add: upd_at_def list_update_beyond)
qed

lemma upd_at_Nil [simp]: "upd_at i f [] = []"
  by (simp add: upd_at_def)

lemma upd_at_Cons_0 [simp]: "upd_at 0 f (x # xs) = f x # xs"
  by (simp add: upd_at_def)

lemma upd_at_Cons_Suc [simp]: "upd_at (Suc i) f (x # xs) = x # upd_at i f xs"
  by (simp add: upd_at_def)

section \<open>Multiples of a block size\<close>

lemma mult_block_le:
  fixes a N n :: nat
  assumes "a mod n = 0" "N mod n = 0" "a < N"
  shows "a + n \<le> N"
proof -
  from assms obtain k m where "a = n * k" "N = n * m" by (auto simp: mod_eq_0_iff_dvd dvd_def)
  with assms(3) have "n * Suc k \<le> n * m" by (intro mult_le_mono2) simp
  with \<open>a = n * k\<close> \<open>N = n * m\<close> show ?thesis by simp
qed

lemma mult_block_unique:
  fixes a b n x :: nat
  assumes "a mod n = 0" "b mod n = 0" "a \<le> x" "x < a + n" "b \<le> x" "x < b + n"
  shows "a = b"
  using mult_block_le [OF assms(1,2)] mult_block_le [OF assms(2,1)] assms(3-)
  by (cases a b rule: linorder_cases) auto

lemma unat_less_len: "unat (w :: 'a::len word) < 2 ^ LENGTH('a)"
  by (rule unsigned_less)

section \<open>Reachable states and invariants\<close>

inductive reach :: "('s \<Rightarrow> bool) \<Rightarrow> ('s \<Rightarrow> 's \<Rightarrow> bool) \<Rightarrow> 's \<Rightarrow> bool"
  for init :: "'s \<Rightarrow> bool" and step :: "'s \<Rightarrow> 's \<Rightarrow> bool" where
  reach_init: "init s \<Longrightarrow> reach init step s"
| reach_step: "reach init step s \<Longrightarrow> step s t \<Longrightarrow> reach init step t"

locale safe_machine =
  fixes init :: "'s \<Rightarrow> bool"
    and step :: "'s \<Rightarrow> 's \<Rightarrow> bool"
    and inv :: "'s \<Rightarrow> bool"
  assumes inv_init: "init s \<Longrightarrow> inv s"
    and inv_step: "inv s \<Longrightarrow> step s t \<Longrightarrow> inv t"
begin

lemma reach_inv: "reach init step s \<Longrightarrow> inv s"
  by (induction rule: reach.induct) (auto intro: inv_init inv_step)

lemma inv_steps: "step\<^sup>*\<^sup>* s t \<Longrightarrow> inv s \<Longrightarrow> inv t"
  by (induction rule: rtranclp_induct) (auto intro: inv_step)

end

section \<open>The contract of a bounded queue\<close>

text \<open>
  \<open>push\<close> may refuse (\<open>None\<close>); \<open>pop\<close> returns the oldest element, or \<open>None\<close> on an empty
  queue, and the remaining queue. \<open>seq\<close> is the abstract content, oldest element first.
\<close>

locale fifo =
  fixes invar :: "'q \<Rightarrow> bool"
    and seq :: "'q \<Rightarrow> 'a list"
    and room :: "'q \<Rightarrow> bool"
    and push :: "'q \<Rightarrow> 'a \<Rightarrow> 'q option"
    and pop :: "'q \<Rightarrow> 'a option \<times> 'q"
  assumes push_ok: "invar q \<Longrightarrow> room q \<Longrightarrow>
      \<exists>q'. push q x = Some q' \<and> invar q' \<and> seq q' = seq q @ [x]"
    and pop_ok: "invar q \<Longrightarrow>
      (case seq q of [] \<Rightarrow> pop q = (None, q)
       | x # xs \<Rightarrow> \<exists>q'. pop q = (Some x, q') \<and> invar q' \<and> seq q' = xs)"
begin

fun pop_n :: "nat \<Rightarrow> 'q \<Rightarrow> 'a list \<times> 'q" where
  "pop_n 0 q = ([], q)"
| "pop_n (Suc n) q = (case pop q of (None, q') \<Rightarrow> ([], q')
     | (Some x, q') \<Rightarrow> (let (xs, q'') = pop_n n q' in (x # xs, q'')))"

lemma pop_n_seq: "invar q \<Longrightarrow> fst (pop_n n q) = take n (seq q) \<and> seq (snd (pop_n n q)) = drop n (seq q)"
proof (induction n arbitrary: q)
  case 0
  then show ?case by simp
next
  case (Suc n)
  show ?case
  proof (cases "seq q")
    case Nil
    with pop_ok [OF Suc.prems] show ?thesis by simp
  next
    case (Cons x xs)
    with pop_ok [OF Suc.prems] obtain q' where "pop q = (Some x, q')" "invar q'" "seq q' = xs"
      by auto
    with Suc.IH [of q'] Cons show ?thesis by (simp add: split_beta)
  qed
qed

lemma pop_n_all: "invar q \<Longrightarrow> fst (pop_n (length (seq q)) q) = seq q"
  by (simp add: pop_n_seq)

lemma push_pop_order:
  assumes "invar q" "room q" "push q x = Some q'"
  shows "fst (pop_n (Suc (length (seq q))) q') = seq q @ [x]"
  using push_ok [OF assms(1,2), of x] assms(3) pop_n_seq [of q' "Suc (length (seq q))"] by auto

end

end
