(* ===== verification/RingQueue.thy ===== *)
theory RingQueue
  imports Prelude
begin

text \<open>
  \<^verbatim>\<open>os/queue.c\<close>: the ring buffer behind the task queue and behind every wait queue of a
  mutex, semaphore or condition variable. The C \<^verbatim>\<open>data\<close> pointer is the list \<open>qdata\<close>; a
  C index is a \<open>nat\<close>, because every index the code computes is reduced modulo \<^verbatim>\<open>size\<close>.
\<close>

record queue =
  qdata :: "int list"
  qsize :: nat
  qfront :: nat
  qtail :: nat
  qempty :: bool

definition QUEUE_SIZE :: nat where
  "QUEUE_SIZE = 1024"

definition init_queue :: "nat \<Rightarrow> int list \<Rightarrow> queue" where
  "init_queue sz data =
     \<lparr>qdata = data, qsize = sz, qfront = 0, qtail = 0, qempty = True\<rparr>"

definition push_queue :: "queue \<Rightarrow> int \<Rightarrow> queue option" where
  "push_queue q value =
     (if \<not> qempty q \<and> qfront q = qtail q then None
      else Some (q\<lparr>qempty := False,
                   qdata := (qdata q)[qtail q := value],
                   qtail := (qtail q + 1) mod qsize q\<rparr>))"

definition pop_queue :: "queue \<Rightarrow> int \<times> queue" where
  "pop_queue q =
     (if qempty q then (- 1, q)
      else let value = qdata q ! qfront q;
               front = (qfront q + 1) mod qsize q
           in (value, q\<lparr>qfront := front, qempty := (front = qtail q)\<rparr>))"

section \<open>Valid rings and their content\<close>

definition queue_wf :: "queue \<Rightarrow> bool" where
  "queue_wf q \<longleftrightarrow> 0 < qsize q \<and> length (qdata q) = qsize q \<and> qfront q < qsize q \<and>
     qtail q < qsize q \<and> (qempty q \<longrightarrow> qfront q = qtail q)"

definition queue_len :: "queue \<Rightarrow> nat" where
  "queue_len q = (if qempty q then 0
     else if qfront q < qtail q then qtail q - qfront q
     else qsize q - qfront q + qtail q)"

definition queue_seq :: "queue \<Rightarrow> int list" where
  "queue_seq q = map (\<lambda>i. qdata q ! ((qfront q + i) mod qsize q)) [0..<queue_len q]"

lemma length_queue_seq [simp]: "length (queue_seq q) = queue_len q"
  by (simp add: queue_seq_def)

lemma queue_len_le: "queue_wf q \<Longrightarrow> queue_len q \<le> qsize q"
  by (auto simp: queue_wf_def queue_len_def)

lemma queue_len_0 [simp]: "queue_wf q \<Longrightarrow> queue_len q = 0 \<longleftrightarrow> qempty q"
  by (auto simp: queue_wf_def queue_len_def)

lemma queue_full_iff: "queue_wf q \<Longrightarrow> (\<not> qempty q \<and> qfront q = qtail q) \<longleftrightarrow> queue_len q = qsize q"
  by (auto simp: queue_wf_def queue_len_def)

lemma queue_tail_pos: "queue_wf q \<Longrightarrow> (qfront q + queue_len q) mod qsize q = qtail q"
  by (auto simp: queue_wf_def queue_len_def)

lemma ring_index_inj:
  fixes f n i j :: nat
  assumes eq: "(f + i) mod n = (f + j) mod n" and lt: "i < n" "j < n"
  shows "i = j"
proof -
  have "(f + a) mod n \<noteq> (f + b) mod n" if "a < b" "b < n" for a b
  proof
    assume "(f + a) mod n = (f + b) mod n"
    with that have "n dvd b - a"
      using mod_eq_dvd_iff_nat [of "f + a" "f + b" n] by simp
    with that show False by (auto dest: dvd_imp_le)
  qed
  with eq lt show ?thesis by (metis linorder_neqE_nat)
qed

lemma nth_queue_seq:
  "i < queue_len q \<Longrightarrow> queue_seq q ! i = qdata q ! ((qfront q + i) mod qsize q)"
  by (simp add: queue_seq_def)

section \<open>The operations on rings and on their content\<close>

lemma queue_wf_init [wf_intros]: "0 < sz \<Longrightarrow> length d = sz \<Longrightarrow> queue_wf (init_queue sz d)"
  by (simp add: queue_wf_def init_queue_def)

lemma queue_seq_init [simp]: "queue_seq (init_queue sz d) = []"
  by (simp add: queue_seq_def init_queue_def queue_len_def)

lemma push_queue_None_iff:
  "queue_wf q \<Longrightarrow> push_queue q x = None \<longleftrightarrow> queue_len q = qsize q"
  using queue_full_iff [of q] by (simp add: push_queue_def)

lemma push_queue_Some:
  assumes wf: "queue_wf q" and push: "push_queue q x = Some q'"
  shows "queue_wf q'" "queue_len q' = Suc (queue_len q)" "qsize q' = qsize q"
proof -
  from push have q': "q' = q\<lparr>qempty := False, qdata := (qdata q)[qtail q := x],
      qtail := (qtail q + 1) mod qsize q\<rparr>" and ne: "qempty q \<or> qfront q \<noteq> qtail q"
    by (auto simp: push_queue_def split: if_splits)
  show "queue_wf q'" using wf q' by (auto simp: queue_wf_def)
  show "qsize q' = qsize q" using q' by simp
  show "queue_len q' = Suc (queue_len q)"
    using wf ne unfolding q' queue_wf_def queue_len_def
    by (cases "Suc (qtail q) = qsize q") auto
qed

lemma push_queue_seq:
  assumes wf: "queue_wf q" and push: "push_queue q x = Some q'"
  shows "queue_seq q' = queue_seq q @ [x]"
proof (rule nth_equalityI)
  show "length (queue_seq q') = length (queue_seq q @ [x])"
    using push_queue_Some(2) [OF assms] by simp
  fix i
  assume "i < length (queue_seq q')"
  then have i: "i < Suc (queue_len q)" using push_queue_Some(2) [OF assms] by simp
  from push have q': "q' = q\<lparr>qempty := False, qdata := (qdata q)[qtail q := x],
      qtail := (qtail q + 1) mod qsize q\<rparr>"
    by (auto simp: push_queue_def split: if_splits)
  have room: "queue_len q < qsize q"
    using push push_queue_None_iff [OF wf, of x] queue_len_le [OF wf] by (cases "queue_len q = qsize q") auto
  have pos: "(qfront q + queue_len q) mod qsize q = qtail q" by (rule queue_tail_pos [OF wf])
  have "queue_seq q' ! i = (qdata q)[qtail q := x] ! ((qfront q + i) mod qsize q)"
    using i push_queue_Some(2) [OF assms] by (simp add: nth_queue_seq q')
  also have "\<dots> = (queue_seq q @ [x]) ! i"
  proof (cases "i = queue_len q")
    case True
    with pos wf show ?thesis by (simp add: nth_append queue_wf_def)
  next
    case False
    with i have lt: "i < queue_len q" by simp
    with room pos have "(qfront q + i) mod qsize q \<noteq> qtail q"
      using ring_index_inj [of "qfront q" i "qsize q" "queue_len q"] by auto
    with lt show ?thesis by (simp add: nth_append nth_queue_seq)
  qed
  finally show "queue_seq q' ! i = (queue_seq q @ [x]) ! i" .
qed

lemma pop_queue_empty [simp]: "qempty q \<Longrightarrow> pop_queue q = (- 1, q)"
  by (simp add: pop_queue_def)

lemma pop_queue_nonempty:
  assumes wf: "queue_wf q" and ne: "\<not> qempty q" and pop: "pop_queue q = (v, q')"
  shows "queue_wf q'" "queue_seq q = v # queue_seq q'" "qsize q' = qsize q"
proof -
  from ne pop have v: "v = qdata q ! qfront q" and q': "q' = q\<lparr>qfront := (qfront q + 1) mod qsize q,
      qempty := ((qfront q + 1) mod qsize q = qtail q)\<rparr>"
    by (auto simp: pop_queue_def Let_def)
  show "queue_wf q'" using wf q' by (auto simp: queue_wf_def)
  show "qsize q' = qsize q" using q' by simp
  have len: "queue_len q = Suc (queue_len q')"
    using wf ne unfolding q' queue_wf_def queue_len_def
    by (cases "Suc (qfront q) = qsize q") auto
  show "queue_seq q = v # queue_seq q'"
  proof (rule nth_equalityI)
    show "length (queue_seq q) = length (v # queue_seq q')" using len by simp
    fix i
    assume "i < length (queue_seq q)"
    then have i: "i < Suc (queue_len q')" using len by simp
    show "queue_seq q ! i = (v # queue_seq q') ! i"
    proof (cases i)
      case 0
      with len wf v show ?thesis by (simp add: nth_queue_seq queue_wf_def)
    next
      case (Suc k)
      have "(qfront q + Suc k) mod qsize q = ((qfront q + 1) mod qsize q + k) mod qsize q"
        by (simp add: mod_add_left_eq)
      with Suc i len show ?thesis by (simp add: nth_queue_seq q')
    qed
  qed
qed

section \<open>The ring is a first-in first-out queue\<close>

definition queue_take :: "queue \<Rightarrow> int option \<times> queue" where
  "queue_take q = (if qempty q then (None, q) else (let (v, q') = pop_queue q in (Some v, q')))"

definition queue_room :: "queue \<Rightarrow> bool" where
  "queue_room q \<longleftrightarrow> queue_len q < qsize q"

interpretation ring: fifo queue_wf queue_seq queue_room push_queue queue_take
proof unfold_locales
  fix q x
  assume "queue_wf q" "queue_room q"
  then obtain q' where "push_queue q x = Some q'"
    using push_queue_None_iff [of q x] by (cases "push_queue q x") (auto simp: queue_room_def)
  with \<open>queue_wf q\<close> show "\<exists>q'. push_queue q x = Some q' \<and> queue_wf q' \<and> queue_seq q' = queue_seq q @ [x]"
    by (auto intro: push_queue_Some push_queue_seq)
next
  fix q
  assume wf: "queue_wf q"
  show "case queue_seq q of [] \<Rightarrow> queue_take q = (None, q)
    | x # xs \<Rightarrow> \<exists>q'. queue_take q = (Some x, q') \<and> queue_wf q' \<and> queue_seq q' = xs"
  proof (cases "qempty q")
    case True
    then have "queue_seq q = []" by (simp add: queue_seq_def queue_len_def)
    with True show ?thesis by (simp add: queue_take_def)
  next
    case False
    obtain v q' where "pop_queue q = (v, q')" by fastforce
    with pop_queue_nonempty [OF wf False this] False show ?thesis
      by (auto simp: queue_take_def)
  qed
qed

end
