(* ===== verification/KString.thy ===== *)
theory KString
  imports Prelude
begin

text \<open>
  \<^verbatim>\<open>os/string.c\<close>: byte copies and C strings. Memory is a function from 64-bit addresses to
  bytes. A function that only reads takes its pointer as the bytes behind it
  (\<open>nat \<Rightarrow> u8\<close>, the offset to the byte); \<open>bytes_at\<close> makes one from an address.
  A length argument is a \<open>nat\<close> (the C \<^verbatim>\<open>uint\<close>, which the loops only count down).
  A loop that stops only at a NUL byte is a partial function: \<open>None\<close> is "runs on".
\<close>

type_synonym memory = "u64 \<Rightarrow> u8"

abbreviation bytes_at :: "memory \<Rightarrow> u64 \<Rightarrow> nat \<Rightarrow> u8" where
  "bytes_at m p \<equiv> (\<lambda>i. m (p + of_nat i))"

section \<open>memset, memmove, memcpy\<close>

primrec memset :: "memory \<Rightarrow> u64 \<Rightarrow> u8 \<Rightarrow> nat \<Rightarrow> memory" where
  "memset m dst c 0 = m"
| "memset m dst c (Suc n) = (memset m dst c n)(dst + of_nat n := c)"

text \<open>The two loops of \<^verbatim>\<open>memmove\<close>: from the end down when the source lies below an
  overlapping destination, from the start up otherwise.\<close>

primrec move_down :: "memory \<Rightarrow> u64 \<Rightarrow> u64 \<Rightarrow> nat \<Rightarrow> memory" where
  "move_down m d s 0 = m"
| "move_down m d s (Suc n) = move_down (m(d + of_nat n := m (s + of_nat n))) d s n"

primrec move_up :: "memory \<Rightarrow> u64 \<Rightarrow> u64 \<Rightarrow> nat \<Rightarrow> memory" where
  "move_up m d s 0 = m"
| "move_up m d s (Suc n) =
     (let m' = move_up m d s n in m'(d + of_nat n := m' (s + of_nat n)))"

definition memmove :: "memory \<Rightarrow> u64 \<Rightarrow> u64 \<Rightarrow> nat \<Rightarrow> memory" where
  "memmove m dst src n =
     (if src < dst \<and> src + of_nat n > dst then move_down m dst src n else move_up m dst src n)"

definition memcpy :: "memory \<Rightarrow> u64 \<Rightarrow> u64 \<Rightarrow> nat \<Rightarrow> memory" where
  "memcpy m dst src n = memmove m dst src n"

section \<open>Comparison and C strings\<close>

fun memcmp :: "(nat \<Rightarrow> u8) \<Rightarrow> (nat \<Rightarrow> u8) \<Rightarrow> nat \<Rightarrow> int" where
  "memcmp s1 s2 0 = 0"
| "memcmp s1 s2 (Suc n) =
     (if s1 0 \<noteq> s2 0 then uint (s1 0) - uint (s2 0)
      else memcmp (\<lambda>i. s1 (Suc i)) (\<lambda>i. s2 (Suc i)) n)"

fun strncmp :: "(nat \<Rightarrow> u8) \<Rightarrow> (nat \<Rightarrow> u8) \<Rightarrow> nat \<Rightarrow> int" where
  "strncmp p q 0 = 0"
| "strncmp p q (Suc n) =
     (if p 0 \<noteq> 0 \<and> p 0 = q 0 then strncmp (\<lambda>i. p (Suc i)) (\<lambda>i. q (Suc i)) n
      else uint (p 0) - uint (q 0))"

text \<open>The \<open>n\<close> bytes that \<^verbatim>\<open>strncpy\<close> writes: copied up to and with a NUL, then zeros.\<close>

fun strncpy :: "(nat \<Rightarrow> u8) \<Rightarrow> nat \<Rightarrow> u8 list" where
  "strncpy t 0 = []"
| "strncpy t (Suc n) = (if t 0 \<noteq> 0 then t 0 # strncpy (\<lambda>i. t (Suc i)) n
     else 0 # replicate n 0)"

text \<open>The bytes that \<^verbatim>\<open>safestrcpy\<close> writes (nothing for \<^verbatim>\<open>n <= 0\<close>).\<close>

fun safestrcpy :: "(nat \<Rightarrow> u8) \<Rightarrow> nat \<Rightarrow> u8 list" where
  "safestrcpy t 0 = []"
| "safestrcpy t (Suc 0) = [0]"
| "safestrcpy t (Suc (Suc n)) =
     (if t 0 \<noteq> 0 then t 0 # safestrcpy (\<lambda>i. t (Suc i)) (Suc n) else [0, 0])"

partial_function (option) strlen_from :: "(nat \<Rightarrow> u8) \<Rightarrow> nat \<Rightarrow> nat option" where
  "strlen_from s n = (if s n = 0 then Some n else strlen_from s (Suc n))"

definition strlen :: "(nat \<Rightarrow> u8) \<Rightarrow> nat option" where
  "strlen s = strlen_from s 0"

section \<open>What the copies do\<close>

lemma word_add_eq_iff: "d + of_nat i = (x :: 'a::len word) \<longleftrightarrow> of_nat i = x - d"
  by (auto simp: algebra_simps)

lemma of_nat_inj_lt:
  "i < 2 ^ LENGTH('a) \<Longrightarrow> of_nat i = (w :: 'a::len word) \<longleftrightarrow> unat w = i"
  by (auto simp: word_unat_eq_iff unat_of_nat)

lemma memset_apply:
  "n \<le> 2 ^ 64 \<Longrightarrow> memset m dst c n x = (if unat (x - dst) < n then c else m x)"
proof (induction n)
  case 0
  then show ?case by simp
next
  case (Suc n)
  then have "(x = dst + of_nat n) = (unat (x - dst) = n)"
    using word_add_eq_iff [of dst n x] of_nat_inj_lt [of n "x - dst"] by auto
  with Suc show ?case by auto
qed

definition mem_copied :: "memory \<Rightarrow> u64 \<Rightarrow> u64 \<Rightarrow> nat \<Rightarrow> memory" where
  "mem_copied m d s n = (\<lambda>x. if unat (x - d) < n then m (s + (x - d)) else m x)"

lemma mem_copied_0 [simp]: "mem_copied m d s 0 = m"
  by (simp add: mem_copied_def)

text \<open>Each loop computes the copy of the original bytes when its direction is safe.\<close>

lemma move_up_copied:
  assumes "n \<le> 2 ^ 64" and "\<And>i j. i < j \<Longrightarrow> j < n \<Longrightarrow> s + of_nat j \<noteq> d + (of_nat i :: u64)"
  shows "move_up m d s n = mem_copied m d s n"
  using assms
proof (induction n)
  case (Suc n)
  then have IH: "move_up m d s n = mem_copied m d s n" by simp
  have keep: "\<not> unat (s + of_nat n - d) < n"
  proof
    assume lt: "unat (s + of_nat n - d) < n"
    then have "s + of_nat n = d + (of_nat (unat (s + of_nat n - d)) :: u64)" by simp
    with Suc.prems(2) [OF lt] show False by simp
  qed
  show ?case
  proof
    fix x
    have "(x = d + of_nat n) = (unat (x - d) = n)"
      using word_add_eq_iff [of d n x] of_nat_inj_lt [of n "x - d"] Suc.prems(1) by auto
    then show "move_up m d s (Suc n) x = mem_copied m d s (Suc n) x"
      using keep Suc.prems(1) by (auto simp: Let_def IH mem_copied_def)
  qed
qed simp

lemma move_down_copied:
  assumes "n \<le> 2 ^ 64" and "\<And>i j. i < j \<Longrightarrow> j < n \<Longrightarrow> s + of_nat i \<noteq> d + (of_nat j :: u64)"
  shows "move_down m d s n = mem_copied m d s n"
  using assms
proof (induction n arbitrary: m)
  case (Suc n)
  define m1 where "m1 = m(d + of_nat n := m (s + of_nat n))"
  have IH: "move_down m1 d s n = mem_copied m1 d s n" using Suc by simp
  show ?case
  proof
    fix x
    have pos: "(x = d + of_nat n) = (unat (x - d) = n)"
      using word_add_eq_iff [of d n x] of_nat_inj_lt [of n "x - d"] Suc.prems(1) by auto
    have src: "m1 (s + (x - d)) = m (s + (x - d))" if lt: "unat (x - d) < n"
      using Suc.prems(2) [of "unat (x - d)" n] lt by (simp add: m1_def)
    have "move_down m d s (Suc n) x = mem_copied m1 d s n x" using IH by (simp add: m1_def)
    also have "\<dots> = mem_copied m d s (Suc n) x"
      using pos src by (auto simp: mem_copied_def m1_def less_Suc_eq)
    finally show "move_down m d s (Suc n) x = mem_copied m d s (Suc n) x" .
  qed
qed simp

lemma unat_add_no_wrap: "unat (a :: u64) + n \<le> 2 ^ 64 \<Longrightarrow> i < n \<Longrightarrow> unat (a + of_nat i) = unat a + i"
  by (simp add: unat_word_ariths unat_of_nat)

lemma unat_add_le_no_wrap: "unat (a :: u64) + n < 2 ^ 64 \<Longrightarrow> unat (a + of_nat n) = unat a + n"
  by (simp add: unat_word_ariths unat_of_nat)

text \<open>\<^verbatim>\<open>memmove\<close> copies the bytes the source had before the call, overlapping or not, as long
  as neither region runs to the very end of the address space.\<close>

lemma memmove_copied:
  assumes "unat dst + n < 2 ^ 64" "unat src + n < 2 ^ 64"
  shows "memmove m dst src n = mem_copied m dst src n"
proof -
  have lt: "src < dst \<longleftrightarrow> unat src < unat dst" by (simp add: word_less_nat_alt)
  have lt2: "dst < src + of_nat n \<longleftrightarrow> unat dst < unat src + n"
    using unat_add_le_no_wrap [OF assms(2)] by (simp add: word_less_nat_alt)
  have no: "unat (src + of_nat i) = unat src + i \<and> unat (dst + of_nat i) = unat dst + i" if "i < n" for i
    using that assms unat_add_no_wrap [of src n i] unat_add_no_wrap [of dst n i] by simp
  show ?thesis
  proof (cases "src < dst \<and> src + of_nat n > dst")
    case True
    have "src + of_nat i \<noteq> dst + (of_nat j :: u64)" if "i < j" "j < n" for i j
      using that no [of i] no [of j] True lt by (metis add_less_mono less_trans less_irrefl_nat)
    then show ?thesis using True assms by (simp add: memmove_def move_down_copied)
  next
    case False
    have "src + of_nat j \<noteq> dst + (of_nat i :: u64)" if "i < j" "j < n" for i j
    proof
      assume "src + of_nat j = dst + (of_nat i :: u64)"
      then have "unat src + j = unat dst + i" using that no [of i] no [of j] by auto
      with that False lt lt2 show False by auto
    qed
    then have "move_up m dst src n = mem_copied m dst src n"
      using assms by (intro move_up_copied) auto
    with False show ?thesis by (auto simp: memmove_def)
  qed
qed

section \<open>What the comparisons decide\<close>

lemma memcmp_0_iff: "memcmp s1 s2 n = 0 \<longleftrightarrow> (\<forall>i < n. s1 i = s2 i)"
proof (induction s1 s2 n rule: memcmp.induct)
  case (2 s1 s2 n)
  have "(\<forall>i < Suc n. s1 i = s2 i) \<longleftrightarrow> s1 0 = s2 0 \<and> (\<forall>i < n. s1 (Suc i) = s2 (Suc i))"
    using less_Suc_eq_0_disj by auto
  with 2 show ?case by (auto simp: word_uint_eq_iff)
qed simp

text \<open>The first \<open>n\<close> characters of a C string: up to, and without, a NUL.\<close>

fun cstr :: "(nat \<Rightarrow> u8) \<Rightarrow> nat \<Rightarrow> u8 list" where
  "cstr s 0 = []"
| "cstr s (Suc n) = (if s 0 = 0 then [] else s 0 # cstr (\<lambda>i. s (Suc i)) n)"

lemma strncmp_0_iff: "strncmp p q n = 0 \<longleftrightarrow> cstr p n = cstr q n"
proof (induction p q n rule: strncmp.induct)
  case (2 p q n)
  then show ?case by (cases "p 0 = q 0") (auto simp: word_uint_eq_iff)
qed simp

lemma length_strncpy [simp]: "length (strncpy t n) = n"
  by (induction t n rule: strncpy.induct) auto

text \<open>A byte list read as a C string buffer; outside the list the model reads NUL.\<close>

definition buf_at :: "u8 list \<Rightarrow> nat \<Rightarrow> u8" where
  "buf_at xs i = (if i < length xs then xs ! i else 0)"

lemma buf_at_Cons_0 [simp]: "buf_at (x # xs) 0 = x"
  by (simp add: buf_at_def)

lemma buf_at_Cons_Suc [simp]: "buf_at (x # xs) (Suc i) = buf_at xs i"
  by (simp add: buf_at_def)

lemma cstr_zeros: "cstr (buf_at (replicate k 0)) n = []"
  by (cases n) (auto simp: buf_at_def)

lemma cstr_strncpy: "cstr (buf_at (strncpy t n)) n = cstr t n"
  by (induction t n rule: strncpy.induct) auto

lemma strncmp_strncpy: "strncmp p (buf_at (strncpy t n)) n = 0 \<longleftrightarrow> cstr p n = cstr t n"
  by (simp add: strncmp_0_iff cstr_strncpy)

lemma strlen_from_Some_iff:
  "strlen_from s k = Some n \<longleftrightarrow> k \<le> n \<and> s n = 0 \<and> (\<forall>i. k \<le> i \<longrightarrow> i < n \<longrightarrow> s i \<noteq> 0)"
proof
  assume ret: "strlen_from s k = Some n"
  show "k \<le> n \<and> s n = 0 \<and> (\<forall>i. k \<le> i \<longrightarrow> i < n \<longrightarrow> s i \<noteq> 0)"
  proof (rule strlen_from.raw_induct
      [where P = "\<lambda>s k n. k \<le> n \<and> s n = 0 \<and> (\<forall>i. k \<le> i \<longrightarrow> i < n \<longrightarrow> s i \<noteq> 0)", OF _ ret])
    fix f s k n
    assume IH: "\<And>s k n. f s k = Some n \<Longrightarrow>
        k \<le> n \<and> s n = 0 \<and> (\<forall>i. k \<le> i \<longrightarrow> i < n \<longrightarrow> s i \<noteq> (0 :: u8))"
      and eq: "(if s k = 0 then Some k else f s (Suc k)) = Some n"
    show "k \<le> n \<and> s n = 0 \<and> (\<forall>i. k \<le> i \<longrightarrow> i < n \<longrightarrow> s i \<noteq> 0)"
    proof (cases "s k = 0")
      case True
      with eq show ?thesis by auto
    next
      case False
      with eq have "f s (Suc k) = Some n" by simp
      from IH [OF this] False show ?thesis by (metis Suc_leD Suc_leI le_neq_implies_less)
    qed
  qed
next
  assume "k \<le> n \<and> s n = 0 \<and> (\<forall>i. k \<le> i \<longrightarrow> i < n \<longrightarrow> s i \<noteq> 0)"
  then have a: "k \<le> n" "s n = 0" "\<And>i. k \<le> i \<Longrightarrow> i < n \<Longrightarrow> s i \<noteq> 0" by auto
  then show "strlen_from s k = Some n"
  proof (induction "n - k" arbitrary: k)
    case 0
    then show ?case by (simp add: strlen_from.simps)
  next
    case (Suc d)
    then have "s k \<noteq> 0" "strlen_from s (Suc k) = Some n" by auto
    then show ?case by (simp add: strlen_from.simps)
  qed
qed

lemma strlen_Some_iff: "strlen s = Some n \<longleftrightarrow> s n = 0 \<and> (\<forall>i < n. s i \<noteq> 0)"
  by (simp add: strlen_def strlen_from_Some_iff)

end
