(* ===== verification/KAlloc.thy ===== *)
theory KAlloc
  imports KString
begin

unbundle bit_operations_syntax

text \<open>
  \<^verbatim>\<open>os/kalloc.c\<close>: the physical page allocator. Free pages form a list linked through their
  own first eight bytes, so the state is the physical memory and the head of that list.
  \<open>ekernel\<close> and \<open>trampoline\<close> stand for the addresses the linker gives; no operation writes
  them. Words of eight bytes are little-endian (\<open>load64\<close>, \<open>store64\<close>), as on RISC-V.
  The file proves that the linked list is a stack of distinct whole pages, that
  \<^verbatim>\<open>kalloc\<close> and \<^verbatim>\<open>kfree\<close> pop and push it, and that neither touches any other memory.
\<close>

record phys =
  mem :: memory
  freelist :: u64
  ekernel :: u64
  trampoline :: u64

definition PGSIZE :: u64 where
  "PGSIZE = 4096"

definition PHYSTOP :: u64 where
  "PHYSTOP = 0x88000000"

definition PGROUNDUP :: "u64 \<Rightarrow> u64" where
  "PGROUNDUP sz = (sz + PGSIZE - 1) AND NOT (PGSIZE - 1)"

definition PGROUNDDOWN :: "u64 \<Rightarrow> u64" where
  "PGROUNDDOWN a = a AND NOT (PGSIZE - 1)"

definition PGALIGNED :: "u64 \<Rightarrow> bool" where
  "PGALIGNED a \<longleftrightarrow> a AND (PGSIZE - 1) = 0"

section \<open>Eight-byte words in memory\<close>

definition load64 :: "memory \<Rightarrow> u64 \<Rightarrow> u64" where
  "load64 m a = foldr (\<lambda>i w. push_bit (8 * i) (ucast (m (a + of_nat i))) OR w) [0..<8] 0"

definition store64 :: "memory \<Rightarrow> u64 \<Rightarrow> u64 \<Rightarrow> memory" where
  "store64 m a v = (\<lambda>x. if unat (x - a) < 8 then ucast (drop_bit (8 * unat (x - a)) v) else m x)"

lemma bit_le_bytes:
  "bit (foldr (\<lambda>i w. push_bit (8 * i) (ucast (g i :: u8)) OR w) xs (0 :: u64)) n \<longleftrightarrow>
     n < 64 \<and> (\<exists>i \<in> set xs. 8 * i \<le> n \<and> bit (g i) (n - 8 * i))"
  by (induction xs) (auto simp: bit_simps)

lemma load64_store64_same [simp]: "load64 (store64 m a v) a = v"
proof (rule bit_word_eqI)
  fix n
  assume n: "n < LENGTH(64)"
  have small: "unat (of_nat i :: u64) = i" if "i \<in> set [0..<8]" for i
    using that by (simp add: unat_of_nat)
  have "bit (load64 (store64 m a v) a) n \<longleftrightarrow>
      (\<exists>i \<in> set [0..<8]. 8 * i \<le> n \<and> n - 8 * i < 8 \<and> bit v n)"
    unfolding load64_def bit_le_bytes store64_def using n small
    by (intro iffI) (auto simp: bit_simps intro!: bexI)
  also have "\<dots> \<longleftrightarrow> bit v n"
    using n by (auto intro!: bexI [of _ "n div 8"])
  finally show "bit (load64 (store64 m a v) a) n = bit v n" .
qed

lemma load64_cong: "(\<And>i. i < 8 \<Longrightarrow> m (a + of_nat i) = m' (a + of_nat i)) \<Longrightarrow> load64 m a = load64 m' a"
  unfolding load64_def by (intro foldr_cong) auto

definition aligned8 :: "u64 \<Rightarrow> bool" where
  "aligned8 a \<longleftrightarrow> unat a mod 8 = 0"

lemma aligned8_le: "aligned8 a \<Longrightarrow> unat a + 8 \<le> 2 ^ 64"
  using unat_less_len [of a] unfolding aligned8_def by (intro mult_block_le) simp_all

lemma aligned8_plus: "aligned8 a \<Longrightarrow> i < 8 \<Longrightarrow> unat (a + of_nat i) = unat a + i"
  by (rule unat_add_no_wrap [OF aligned8_le])

lemma aligned8_disjoint:
  assumes "aligned8 a" "aligned8 b" "a \<noteq> b" "i < 8"
  shows "\<not> unat (b + of_nat i - a) < 8"
proof
  assume "unat (b + of_nat i - a) < 8"
  moreover have "b + of_nat i = a + (of_nat (unat (b + of_nat i - a)) :: u64)" by simp
  ultimately obtain j where lt: "j < 8" and "b + of_nat i = a + (of_nat j :: u64)" by blast
  then have eq: "unat b + i = unat a + j"
    using aligned8_plus [OF assms(1) lt] aligned8_plus [OF assms(2,4)] by metis
  have "unat a = unat b"
    by (rule mult_block_unique [of _ 8 _ "unat b + i"])
      (use eq lt assms(1,2,4) in \<open>simp_all add: aligned8_def\<close>)
  with assms(3) show False by (simp add: word_unat_eq_iff)
qed

lemma load64_store64_other:
  "aligned8 a \<Longrightarrow> aligned8 b \<Longrightarrow> a \<noteq> b \<Longrightarrow> load64 (store64 m a v) b = load64 m b"
  by (rule load64_cong) (simp add: store64_def aligned8_disjoint)

section \<open>Pages\<close>

definition page_aligned :: "u64 \<Rightarrow> bool" where
  "page_aligned p \<longleftrightarrow> unat p mod 4096 = 0"

definition in_page :: "u64 \<Rightarrow> u64 \<Rightarrow> bool" where
  "in_page p x \<longleftrightarrow> unat (x - p) < 4096"

lemma page_aligned_mod: "(p mod PGSIZE = 0) = page_aligned p"
  by (simp add: page_aligned_def PGSIZE_def word_unat_eq_iff unat_mod)

lemma page_aligned_aligned8 [simp]: "page_aligned p \<Longrightarrow> aligned8 p"
  unfolding page_aligned_def aligned8_def mod_eq_0_iff_dvd by (rule dvd_trans [of _ 4096]) simp_all

lemma page_aligned_le: "page_aligned p \<Longrightarrow> unat p + 4096 \<le> 2 ^ 64"
  using unat_less_len [of p] unfolding page_aligned_def by (intro mult_block_le) simp_all

lemma in_page_unat: "page_aligned p \<Longrightarrow> in_page p x \<longleftrightarrow> unat p \<le> unat x \<and> unat x < unat p + 4096"
proof -
  assume al: "page_aligned p"
  note le = page_aligned_le [OF al]
  show ?thesis
  proof
    assume "in_page p x"
    then have lt: "unat (x - p) < 4096" by (simp add: in_page_def)
    have "unat (p + of_nat (unat (x - p))) = unat p + unat (x - p)"
      using le lt by (rule unat_add_no_wrap)
    then have "unat x = unat p + unat (x - p)" by simp
    with lt show "unat p \<le> unat x \<and> unat x < unat p + 4096" by simp
  next
    assume "unat p \<le> unat x \<and> unat x < unat p + 4096"
    then show "in_page p x"
      unfolding in_page_def by (subst unat_sub) (auto simp: word_le_nat_alt)
  qed
qed

lemma in_page_self [simp]: "in_page p p"
  by (simp add: in_page_def)

lemma in_page_disjoint:
  assumes "page_aligned p" "page_aligned q" "p \<noteq> q" "in_page p x"
  shows "\<not> in_page q x"
  using assms mult_block_unique [of "unat p" 4096 "unat q" "unat x"]
  by (auto simp: in_page_unat word_unat_eq_iff) (auto simp: page_aligned_def)

lemma in_page_head: "page_aligned p \<Longrightarrow> i < 8 \<Longrightarrow> in_page p (p + of_nat i)"
  by (simp add: in_page_def unat_of_nat)

section \<open>kalloc, kfree, kinit\<close>

definition kfree :: "u64 \<Rightarrow> 'a phys_scheme \<Rightarrow> 'a phys_scheme option" where
  "kfree pa s =
     (if pa mod PGSIZE \<noteq> 0 \<or> pa < ekernel s \<or> pa \<ge> PHYSTOP then None
      else let m = memset (mem s) pa 1 (unat PGSIZE);
               m = store64 m pa (freelist s)
           in Some (s\<lparr>mem := m, freelist := pa\<rparr>))"

definition kalloc :: "'a phys_scheme \<Rightarrow> u64 \<times> 'a phys_scheme" where
  "kalloc s =
     (let l = freelist s in
      if l \<noteq> 0
      then (l, s\<lparr>freelist := load64 (mem s) l, mem := memset (mem s) l 5 (unat PGSIZE)\<rparr>)
      else (l, s))"

partial_function (option) freerange_from ::
    "u64 \<Rightarrow> u64 \<Rightarrow> 'a phys_scheme \<Rightarrow> 'a phys_scheme option" where
  "freerange_from p pa_end s =
     (if p + PGSIZE \<le> pa_end
      then do { s' \<leftarrow> kfree p s; freerange_from (p + PGSIZE) pa_end s' }
      else Some s)"

definition freerange :: "u64 \<Rightarrow> u64 \<Rightarrow> 'a phys_scheme \<Rightarrow> 'a phys_scheme option" where
  "freerange pa_start pa_end s = freerange_from (PGROUNDUP pa_start) pa_end s"

definition kinit :: "'a phys_scheme \<Rightarrow> 'a phys_scheme option" where
  "kinit s = freerange (ekernel s) PHYSTOP s"

section \<open>The free list as a stack of pages\<close>

fun chain :: "memory \<Rightarrow> u64 \<Rightarrow> u64 list \<Rightarrow> bool" where
  "chain m p [] = (p = 0)"
| "chain m p (x # xs) = (p = x \<and> x \<noteq> 0 \<and> chain m (load64 m x) xs)"

definition page_ok :: "'a phys_scheme \<Rightarrow> u64 \<Rightarrow> bool" where
  "page_ok s p \<longleftrightarrow> page_aligned p \<and> ekernel s \<le> p \<and> p < PHYSTOP \<and> p \<noteq> 0"

definition kmem_wf :: "'a phys_scheme \<Rightarrow> u64 list \<Rightarrow> bool" where
  "kmem_wf s xs \<longleftrightarrow> chain (mem s) (freelist s) xs \<and> distinct xs \<and> (\<forall>x \<in> set xs. page_ok s x)"

lemma chain_cong:
  "(\<And>x. x \<in> set xs \<Longrightarrow> load64 m x = load64 m' x) \<Longrightarrow> chain m p xs = chain m' p xs"
  by (induction xs arbitrary: p) auto

lemma chain_det: "chain m p xs \<Longrightarrow> chain m p ys \<Longrightarrow> xs = ys"
proof (induction xs arbitrary: p ys)
  case Nil
  then show ?case by (cases ys) auto
next
  case (Cons x xs)
  then show ?case by (cases ys) auto
qed

lemma unat_PGSIZE [simp]: "unat PGSIZE = 4096"
  by (simp add: PGSIZE_def)

lemma memset_page: "memset m p c (unat PGSIZE) x = (if in_page p x then c else m x)"
  by (simp add: memset_apply in_page_def)

lemma load64_memset_other:
  assumes "page_aligned p" "page_aligned q" "p \<noteq> q"
  shows "load64 (memset m p c (unat PGSIZE)) q = load64 m q"
proof (rule load64_cong)
  fix i :: nat
  assume "i < 8"
  then have "\<not> in_page p (q + of_nat i)"
    using assms in_page_disjoint in_page_head by metis
  then show "memset m p c (unat PGSIZE) (q + of_nat i) = m (q + of_nat i)"
    by (simp add: memset_page del: unat_PGSIZE)
qed

lemma kalloc_wf:
  assumes wf: "kmem_wf s (x # xs)"
  shows "\<exists>s'. kalloc s = (x, s') \<and> kmem_wf s' xs \<and> page_ok s x \<and> x \<notin> set xs \<and>
    (\<forall>y. mem s' y = (if in_page x y then 5 else mem s y)) \<and>
    s' = s\<lparr>mem := mem s', freelist := freelist s'\<rparr>"
proof -
  from wf have fl: "freelist s = x" "x \<noteq> 0" and ch: "chain (mem s) (load64 (mem s) x) xs"
    and d: "distinct (x # xs)" and ok: "\<forall>y \<in> set (x # xs). page_ok s y"
    by (auto simp: kmem_wf_def)
  let ?m = "memset (mem s) x 5 (unat PGSIZE)"
  have "chain ?m (load64 (mem s) x) xs"
  proof (subst chain_cong [of xs ?m "mem s"])
    fix y
    assume "y \<in> set xs"
    with d ok show "load64 ?m y = load64 (mem s) y"
      by (intro load64_memset_other) (auto simp: page_ok_def)
  qed (rule ch)
  then have wf': "kmem_wf (s\<lparr>freelist := load64 (mem s) x, mem := ?m\<rparr>) xs"
    using d ok by (simp add: kmem_wf_def page_ok_def)
  show ?thesis
    by (rule exI [of _ "s\<lparr>freelist := load64 (mem s) x, mem := ?m\<rparr>"])
      (use fl d ok wf' in \<open>simp add: kalloc_def Let_def memset_page del: unat_PGSIZE\<close>)
qed

lemma kalloc_empty: "kmem_wf s [] \<Longrightarrow> kalloc s = (0, s)"
  by (simp add: kmem_wf_def kalloc_def Let_def)

lemma kfree_wf:
  assumes wf: "kmem_wf s xs" and ok: "page_ok s p" and new: "p \<notin> set xs"
  shows "\<exists>s'. kfree p s = Some s' \<and> kmem_wf s' (p # xs) \<and>
    (\<forall>y. \<not> in_page p y \<longrightarrow> mem s' y = mem s y) \<and>
    s' = s\<lparr>mem := mem s', freelist := freelist s'\<rparr>"
proof -
  let ?m = "store64 (memset (mem s) p 1 (unat PGSIZE)) p (freelist s)"
  have al: "page_aligned p" and guard: "p mod PGSIZE = 0" "\<not> p < ekernel s" "\<not> PHYSTOP \<le> p"
    using ok by (auto simp: page_ok_def page_aligned_mod)
  have "chain ?m (freelist s) xs"
  proof (subst chain_cong [of xs ?m "mem s"])
    fix y
    assume y: "y \<in> set xs"
    then have "page_aligned y" using wf by (auto simp: kmem_wf_def page_ok_def)
    then show "load64 ?m y = load64 (mem s) y"
      using y al new by (metis load64_memset_other load64_store64_other page_aligned_aligned8)
  qed (use wf in \<open>simp add: kmem_wf_def\<close>)
  then have wf': "kmem_wf (s\<lparr>mem := ?m, freelist := p\<rparr>) (p # xs)"
    using wf ok new by (auto simp: kmem_wf_def page_ok_def)
  have frame: "?m y = mem s y" if "\<not> in_page p y" for y
  proof -
    have "\<not> unat (y - p) < 8" using that by (simp add: in_page_def)
    then show ?thesis using that by (simp add: store64_def memset_page del: unat_PGSIZE)
  qed
  show ?thesis
    by (rule exI [of _ "s\<lparr>mem := ?m, freelist := p\<rparr>"])
      (use guard wf' frame in \<open>simp add: kfree_def Let_def\<close>)
qed

lemma kfree_bad: "\<not> page_aligned p \<or> p < ekernel s \<or> PHYSTOP \<le> p \<Longrightarrow> kfree p s = None"
  by (auto simp: kfree_def page_aligned_mod)

section \<open>The contract the page tables rely on\<close>

text \<open>
  What \<^verbatim>\<open>vm.c\<close>, \<^verbatim>\<open>pipe.c\<close> and the network buffers use of the allocator: pages are handed
  out one at a time, never twice, and the memory of the other pages is left alone.
\<close>

locale page_allocator =
  fixes alloc :: "'s \<Rightarrow> u64 \<times> 's"
    and free :: "u64 \<Rightarrow> 's \<Rightarrow> 's option"
    and pages :: "'s \<Rightarrow> u64 list \<Rightarrow> bool"
    and content :: "'s \<Rightarrow> memory"
    and usable :: "'s \<Rightarrow> u64 \<Rightarrow> bool"
  assumes alloc_page: "pages s (x # xs) \<Longrightarrow> \<exists>s'. alloc s = (x, s') \<and> pages s' xs \<and>
      x \<noteq> 0 \<and> x \<notin> set xs \<and> usable s' x \<and> (\<forall>y. \<not> in_page x y \<longrightarrow> content s' y = content s y)"
    and alloc_none: "pages s [] \<Longrightarrow> alloc s = (0, s)"
    and free_page: "pages s xs \<Longrightarrow> usable s p \<Longrightarrow> p \<notin> set xs \<Longrightarrow>
      \<exists>s'. free p s = Some s' \<and> pages s' (p # xs) \<and>
        (\<forall>y. \<not> in_page p y \<longrightarrow> content s' y = content s y)"
begin

fun alloc_n :: "nat \<Rightarrow> 's \<Rightarrow> u64 list \<times> 's" where
  "alloc_n 0 s = ([], s)"
| "alloc_n (Suc n) s = (let (p, s') = alloc s; (ps, s'') = alloc_n n s' in (p # ps, s''))"

lemma alloc_n_pages:
  "pages s xs \<Longrightarrow> n \<le> length xs \<Longrightarrow>
     fst (alloc_n n s) = take n xs \<and> pages (snd (alloc_n n s)) (drop n xs)"
proof (induction n arbitrary: s xs)
  case 0
  then show ?case by simp
next
  case (Suc n)
  then obtain x ys where xs: "xs = x # ys" by (cases xs) auto
  with alloc_page [of s x ys] Suc.prems obtain s' where "alloc s = (x, s')" "pages s' ys" by auto
  with Suc.IH [of s' ys] Suc.prems xs show ?case by (simp add: split_beta)
qed

lemma alloc_then_free:
  assumes "pages s (x # xs)"
  shows "\<exists>s' s''. alloc s = (x, s') \<and> free x s' = Some s'' \<and> pages s'' (x # xs) \<and>
    (\<forall>y. \<not> in_page x y \<longrightarrow> content s'' y = content s y)"
  using alloc_page [OF assms] free_page by metis

end

interpretation kmem: page_allocator kalloc kfree kmem_wf mem page_ok
proof unfold_locales
  fix s :: "'a phys_scheme" and x xs
  assume "kmem_wf s (x # xs)"
  from kalloc_wf [OF this] obtain s' where s': "kalloc s = (x, s')" "kmem_wf s' xs" "page_ok s x"
    "x \<notin> set xs" "\<forall>y. mem s' y = (if in_page x y then 5 else mem s y)"
    "s' = s\<lparr>mem := mem s', freelist := freelist s'\<rparr>" by blast
  have "ekernel s' = ekernel s" by (subst s'(6)) simp
  then have "page_ok s' x" "x \<noteq> 0" using s'(3) by (auto simp: page_ok_def)
  with s' show "\<exists>s'. kalloc s = (x, s') \<and> kmem_wf s' xs \<and> x \<noteq> 0 \<and> x \<notin> set xs \<and>
      page_ok s' x \<and> (\<forall>y. \<not> in_page x y \<longrightarrow> mem s' y = mem s y)" by auto
next
  fix s :: "'a phys_scheme" and xs p
  assume "kmem_wf s xs" "page_ok s p" "p \<notin> set xs"
  from kfree_wf [OF this]
  show "\<exists>s'. kfree p s = Some s' \<and> kmem_wf s' (p # xs) \<and>
      (\<forall>y. \<not> in_page p y \<longrightarrow> mem s' y = mem s y)" by blast
qed (rule kalloc_empty)

section \<open>kinit hands over every page above the kernel\<close>

lemma and_not_4095: "x AND NOT (4096 - 1) = push_bit 12 (drop_bit 12 (x :: u64))"
proof (rule bit_word_eqI)
  fix n
  have m: "(4096 - 1 :: u64) = mask 12" by (simp add: mask_eq_exp_minus_1)
  show "bit (x AND NOT (4096 - 1)) n = bit (push_bit 12 (drop_bit 12 x)) n"
    unfolding m by (auto simp: bit_simps dest: bit_imp_le_length)
qed

lemma unat_and_not_4095: "unat (x AND NOT (4096 - 1) :: u64) = unat x div 4096 * 4096"
proof -
  have "unat x div 4096 * 4096 < 2 ^ 64"
    using unat_less_len [of x] div_times_less_eq_dividend [of "unat x" 4096] by simp
  moreover have "unat (push_bit 12 (drop_bit 12 x)) = take_bit 64 (push_bit 12 (drop_bit 12 (unat x)))"
    using take_bit_nat_eq_self [OF unat_less_len [of x]]
    by (simp add: unsigned_push_bit_eq unsigned_drop_bit_eq del: push_bit_of_nat drop_bit_of_nat)
  ultimately show ?thesis
    unfolding and_not_4095 by (simp add: push_bit_eq_mult drop_bit_eq_div take_bit_eq_mod)
qed

lemma unat_PGROUNDDOWN: "unat (PGROUNDDOWN a) = unat a div 4096 * 4096"
  using unat_and_not_4095 [of a] by (simp add: PGROUNDDOWN_def PGSIZE_def)

lemma page_aligned_PGROUNDDOWN [simp]: "page_aligned (PGROUNDDOWN a)"
  by (simp add: page_aligned_def unat_PGROUNDDOWN)

lemma page_aligned_PGROUNDUP [simp]: "page_aligned (PGROUNDUP a)"
  using unat_and_not_4095 [of "a + 4095"]
  by (simp add: page_aligned_def PGROUNDUP_def PGSIZE_def add.commute)

lemma unat_PGROUNDUP:
  "unat a + 4095 < 2 ^ 64 \<Longrightarrow> unat (PGROUNDUP a) = (unat a + 4095) div 4096 * 4096"
  using unat_and_not_4095 [of "a + 4095"] unat_add_le_no_wrap [of a 4095]
  by (simp add: PGROUNDUP_def PGSIZE_def add.commute)

lemma PGROUNDUP_ge: "unat a + 4095 < 2 ^ 64 \<Longrightarrow> unat a \<le> unat (PGROUNDUP a)"
  using unat_PGROUNDUP [of a] div_mult_mod_eq [of "unat a + 4095" 4096] mod_less_divisor [of 4096 "unat a + 4095"]
  by linarith

lemma PGROUNDDOWN_in_page: "in_page (PGROUNDDOWN a) a"
  using div_mult_mod_eq [of "unat a" 4096] mod_less_divisor [of 4096 "unat a"]
  by (simp add: in_page_unat unat_PGROUNDDOWN)

text \<open>The loop of \<^verbatim>\<open>freerange\<close>, from any page-aligned point of the managed range.\<close>

lemma unat_PHYSTOP: "unat PHYSTOP = 0x88000000"
  by (simp add: PHYSTOP_def)

lemma freerange_from_pages:
  assumes "kmem_wf s xs" "page_aligned p" "ekernel s \<le> p" "p \<noteq> 0" "p \<le> PHYSTOP"
    and "\<forall>x \<in> set xs. x < p"
  shows "\<exists>s' ys. freerange_from p PHYSTOP s = Some s' \<and> kmem_wf s' ys \<and>
    set ys = set xs \<union> {q. page_aligned q \<and> p \<le> q \<and> q < PHYSTOP}"
  using assms
proof (induction "unat PHYSTOP - unat p" arbitrary: p s xs rule: less_induct)
  case less
  have pt: "page_aligned PHYSTOP" by (simp add: page_aligned_def unat_PHYSTOP)
  show ?case
  proof (cases "p = PHYSTOP")
    case True
    then have "\<not> p + PGSIZE \<le> PHYSTOP" by (simp add: PHYSTOP_def PGSIZE_def)
    then have "freerange_from p PHYSTOP s = Some s" by (simp add: freerange_from.simps)
    with less.prems(1) True show ?thesis by fastforce
  next
    case False
    with less.prems(5) have lt: "p < PHYSTOP" by simp
    then have "unat p + 4096 \<le> unat PHYSTOP"
      using less.prems(2) pt by (intro mult_block_le) (auto simp: page_aligned_def word_less_nat_alt)
    moreover have up: "unat (p + PGSIZE) = unat p + 4096"
      using unat_add_le_no_wrap [of p 4096] calculation by (simp add: PGSIZE_def unat_PHYSTOP)
    ultimately have le: "p + PGSIZE \<le> PHYSTOP" by (simp add: word_le_nat_alt)
    have ok: "page_ok s p" using less.prems lt by (simp add: page_ok_def)
    have "p \<notin> set xs" using less.prems(6) by auto
    from kfree_wf [OF less.prems(1) ok this] obtain s1 where s1: "kfree p s = Some s1"
      "kmem_wf s1 (p # xs)" "s1 = s\<lparr>mem := mem s1, freelist := freelist s1\<rparr>" by blast
    have ek: "ekernel s1 = ekernel s" by (subst s1(3)) simp
    have gt: "p < p + PGSIZE" using up by (simp add: word_less_nat_alt)
    have nz: "p + PGSIZE \<noteq> 0" using gt by auto
    have al: "page_aligned (p + PGSIZE)" using less.prems(2) up by (simp add: page_aligned_def)
    have "\<exists>s' ys. freerange_from (p + PGSIZE) PHYSTOP s1 = Some s' \<and> kmem_wf s' ys \<and>
        set ys = set (p # xs) \<union> {q. page_aligned q \<and> p + PGSIZE \<le> q \<and> q < PHYSTOP}"
    proof (rule less.hyps [OF _ s1(2) al _ nz le])
      show "unat PHYSTOP - unat (p + PGSIZE) < unat PHYSTOP - unat p"
        using lt up by (simp add: word_less_nat_alt diff_less_mono2)
      show "ekernel s1 \<le> p + PGSIZE" using less.prems(3) gt ek by (metis order_trans less_imp_le)
      show "\<forall>x \<in> set (p # xs). x < p + PGSIZE" using less.prems(6) gt by auto
    qed
    moreover have "insert p {q. page_aligned q \<and> p + PGSIZE \<le> q \<and> q < PHYSTOP} =
        {q. page_aligned q \<and> p \<le> q \<and> q < PHYSTOP}"
    proof -
      have "p + PGSIZE \<le> q" if "page_aligned q" "p \<le> q" "q \<noteq> p" for q
      proof -
        have "unat p + 4096 \<le> unat q"
          using that less.prems(2)
          by (intro mult_block_le) (auto simp: page_aligned_def word_le_nat_alt word_unat_eq_iff)
        with up show ?thesis by (simp add: word_le_nat_alt)
      qed
      moreover have "p \<le> q" if "p + PGSIZE \<le> q" for q
        using that gt by (metis order_trans less_imp_le)
      ultimately show ?thesis using less.prems(2) lt by blast
    qed
    ultimately show ?thesis
      using s1(1) le freerange_from.simps [of p PHYSTOP s] by auto
  qed
qed

lemma kinit_pages:
  assumes "freelist s = 0" "0 < ekernel s" "ekernel s \<le> PHYSTOP"
  shows "\<exists>s' ys. kinit s = Some s' \<and> kmem_wf s' ys \<and>
    set ys = {q. page_aligned q \<and> ekernel s \<le> q \<and> q < PHYSTOP}"
proof -
  have e: "unat (ekernel s) \<le> 0x88000000" "0 < unat (ekernel s)"
    using assms(2,3) by (simp_all add: word_le_nat_alt word_less_nat_alt unat_PHYSTOP)
  let ?p = "PGROUNDUP (ekernel s)"
  have p: "unat ?p = (unat (ekernel s) + 4095) div 4096 * 4096"
    using e by (intro unat_PGROUNDUP) simp
  have ge: "ekernel s \<le> ?p" using PGROUNDUP_ge [of "ekernel s"] e by (simp add: word_le_nat_alt)
  have "(unat (ekernel s) + 4095) div 4096 \<le> (0x88000000 + 4095) div 4096"
    using e by (intro div_le_mono) simp
  then have le: "?p \<le> PHYSTOP" using p by (simp add: word_le_nat_alt unat_PHYSTOP)
  have nz: "?p \<noteq> 0" using ge assms(2) by auto
  have "kmem_wf s []" using assms(1) by (simp add: kmem_wf_def)
  from freerange_from_pages [OF this _ ge nz le] obtain s' ys where
    "freerange_from ?p PHYSTOP s = Some s'" "kmem_wf s' ys"
    "set ys = {q. page_aligned q \<and> ?p \<le> q \<and> q < PHYSTOP}" by auto
  moreover have "?p \<le> q \<longleftrightarrow> ekernel s \<le> q" if "page_aligned q" for q
  proof
    assume "ekernel s \<le> q"
    show "?p \<le> q"
    proof (rule ccontr)
      assume "\<not> ?p \<le> q"
      then have "unat q + 4096 \<le> unat ?p" using that
        by (intro mult_block_le) (auto simp: page_aligned_def word_le_nat_alt p)
      moreover have "unat ?p < unat (ekernel s) + 4096"
        using p div_mult_mod_eq [of "unat (ekernel s) + 4095" 4096] by linarith
      ultimately show False using \<open>ekernel s \<le> q\<close> by (simp add: word_le_nat_alt)
    qed
  qed (use ge in auto)
  ultimately show ?thesis unfolding kinit_def freerange_def by (intro exI conjI) auto
qed

end
