(* ===== verification/ProcDefs.thy ===== *)
theory ProcDefs
  imports RingQueue KAlloc
begin

text \<open>
  The process and thread tables: \<^verbatim>\<open>os/proc.h\<close>, \<^verbatim>\<open>os/sync.h\<close>, \<^verbatim>\<open>os/trap.h\<close>.

  \<^item> A \<^verbatim>\<open>struct proc *\<close> is an index into \<open>pool\<close>; a \<^verbatim>\<open>struct thread *\<close> is a pair of such an
    index and a position in that process's \<^verbatim>\<open>threads\<close> array. A thread always lives in the
    array of its own process, so its \<^verbatim>\<open>process\<close> field is the first component of the pair.
  \<^item> \<open>current = None\<close> is \<^verbatim>\<open>current_thread == &idle\<close>; the idle thread belongs to \<^verbatim>\<open>pool[0]\<close>.
  \<^item> A lock of a process is named by its index in the pool of that process.
  \<^item> The kernel state \<open>kern\<close> extends the physical memory and its allocator (\<open>phys\<close>), so every
    operation on memory also applies to it.
\<close>

definition NPROC :: nat where "NPROC = 128"
definition NTHREAD :: nat where "NTHREAD = 16"
definition FD_BUFFER_SIZE :: nat where "FD_BUFFER_SIZE = 16"
definition LOCK_POOL_SIZE :: nat where "LOCK_POOL_SIZE = 8"
definition MAX_SYSCALL_NUM :: nat where "MAX_SYSCALL_NUM = 500"
definition WAIT_QUEUE_MAX_LENGTH :: nat where "WAIT_QUEUE_MAX_LENGTH = 16"

section \<open>Threads\<close>

datatype threadstate = T_UNUSED | T_USED | SLEEPING | RUNNABLE | RUNNING | EXITED

datatype tfreg = Kernel_satp | Kernel_sp | Kernel_trap | Epc | Kernel_hartid
  | RA | SP | GP | TP | T0 | T1 | T2 | S0 | S1 | A0 | A1 | A2 | A3 | A4 | A5 | A6 | A7
  | S2 | S3 | S4 | S5 | S6 | S7 | S8 | S9 | S10 | S11 | T3 | T4 | T5 | T6

type_synonym trapframe = "tfreg \<Rightarrow> u64"

record thread =
  th_state :: threadstate
  th_tid :: int
  th_ustack :: u64
  th_kstack :: u64
  th_trapframe :: trapframe
  th_ctx_ra :: u64
  th_ctx_sp :: u64
  th_exit_code :: u64

section \<open>Locks\<close>

record mutex =
  m_blocking :: bool
  m_locked :: bool
  m_wait :: queue

record semaphore =
  s_count :: int
  s_wait :: queue

record condvar =
  c_wait :: queue

section \<open>Processes\<close>

datatype procstate = P_UNUSED | P_USED | ZOMBIE

record proc =
  p_state :: procstate
  p_pid :: int
  p_pagetable :: u64
  p_max_page :: u64
  p_ustack_base :: u64
  p_parent :: "nat option"
  p_exit_code :: u64
  p_files :: "nat option list"
  p_threads :: "thread list"
  p_next_mutex_id :: nat
  p_next_semaphore_id :: nat
  p_next_condvar_id :: nat
  p_mutex_pool :: "mutex list"
  p_semaphore_pool :: "semaphore list"
  p_condvar_pool :: "condvar list"
  p_deadlock_detect_enable :: int
  p_mutex_allocation :: "int list list"
  p_mutex_request :: "int list list"
  p_sem_allocation :: "int list list"
  p_sem_request :: "int list list"
  p_syscall_count :: "int list"
  p_stride :: u64
  p_priority :: u64
  p_npc_id :: int
  p_dynamic_prio :: int
  p_ipc_rx_bytes :: u64

type_synonym task = "nat \<times> nat"

record kern = phys +
  pool :: "proc list"
  current :: "task option"
  task_queue :: queue
  next_pid :: int

section \<open>Access paths\<close>

definition the_proc :: "'a kern_scheme \<Rightarrow> nat \<Rightarrow> proc" where
  "the_proc k p = pool k ! p"

definition the_thread :: "'a kern_scheme \<Rightarrow> task \<Rightarrow> thread" where
  "the_thread k t = p_threads (pool k ! fst t) ! snd t"

definition map_proc :: "nat \<Rightarrow> (proc \<Rightarrow> proc) \<Rightarrow> 'a kern_scheme \<Rightarrow> 'a kern_scheme" where
  "map_proc p f k = k\<lparr>pool := upd_at p f (pool k)\<rparr>"

definition map_thread :: "task \<Rightarrow> (thread \<Rightarrow> thread) \<Rightarrow> 'a kern_scheme \<Rightarrow> 'a kern_scheme" where
  "map_thread t f k = map_proc (fst t) (\<lambda>p. p\<lparr>p_threads := upd_at (snd t) f (p_threads p)\<rparr>) k"

definition set_state :: "task \<Rightarrow> threadstate \<Rightarrow> 'a kern_scheme \<Rightarrow> 'a kern_scheme" where
  "set_state t st k = map_thread t (\<lambda>th. th\<lparr>th_state := st\<rparr>) k"

definition curr_proc :: "'a kern_scheme \<Rightarrow> nat" where
  "curr_proc k = (case current k of None \<Rightarrow> 0 | Some t \<Rightarrow> fst t)"

text \<open>Two-dimensional tables such as \<^verbatim>\<open>mutex_request[NTHREAD][LOCK_POOL_SIZE]\<close>.\<close>

definition tbl :: "int list list \<Rightarrow> nat \<Rightarrow> nat \<Rightarrow> int" where
  "tbl a i j = a ! i ! j"

definition tbl_set :: "nat \<Rightarrow> nat \<Rightarrow> int \<Rightarrow> int list list \<Rightarrow> int list list" where
  "tbl_set i j v a = upd_at i (\<lambda>row. row[j := v]) a"

definition tbl_ok :: "int list list \<Rightarrow> bool" where
  "tbl_ok a \<longleftrightarrow> length a = NTHREAD \<and> (\<forall>row \<in> set a. length row = LOCK_POOL_SIZE)"

lemma tbl_tbl_set:
  "i < length a \<Longrightarrow> j < length (a ! i) \<Longrightarrow>
     tbl (tbl_set i j v a) i' j' = (if i' = i \<and> j' = j then v else tbl a i' j')"
  by (auto simp: tbl_def tbl_set_def upd_at_def nth_list_update)

lemma tbl_ok_set [wf_intros]:
  assumes ok: "tbl_ok a"
  shows "tbl_ok (tbl_set i j v a)"
proof (cases "i < length a")
  case True
  then have "length ((a ! i)[j := v]) = LOCK_POOL_SIZE" using ok by (simp add: tbl_ok_def)
  then show ?thesis
    using ok set_update_subset_insert [of a i "(a ! i)[j := v]"]
    by (auto simp: tbl_ok_def tbl_set_def upd_at_def)
next
  case False
  then show ?thesis using ok by (simp add: tbl_set_def upd_at_def list_update_beyond)
qed

lemma tbl_ok_dims: "tbl_ok a \<Longrightarrow> i < NTHREAD \<Longrightarrow> i < length a \<and> length (a ! i) = LOCK_POOL_SIZE"
  by (auto simp: tbl_ok_def)

text \<open>The static zero-initialised tables, from which \<^verbatim>\<open>proc_init\<close> starts.\<close>

definition zero_queue :: "nat \<Rightarrow> queue" where
  "zero_queue n = \<lparr>qdata = replicate n 0, qsize = 0, qfront = 0, qtail = 0, qempty = False\<rparr>"

definition zero_thread :: thread where
  "zero_thread = \<lparr>th_state = T_UNUSED, th_tid = 0, th_ustack = 0, th_kstack = 0,
     th_trapframe = (\<lambda>_. 0), th_ctx_ra = 0, th_ctx_sp = 0, th_exit_code = 0\<rparr>"

definition zero_table :: "int list list" where
  "zero_table = replicate NTHREAD (replicate LOCK_POOL_SIZE 0)"

definition zero_proc :: proc where
  "zero_proc = \<lparr>p_state = P_UNUSED, p_pid = 0, p_pagetable = 0, p_max_page = 0, p_ustack_base = 0,
     p_parent = None, p_exit_code = 0, p_files = replicate FD_BUFFER_SIZE None,
     p_threads = replicate NTHREAD zero_thread,
     p_next_mutex_id = 0, p_next_semaphore_id = 0, p_next_condvar_id = 0,
     p_mutex_pool = replicate LOCK_POOL_SIZE
       \<lparr>m_blocking = False, m_locked = False, m_wait = zero_queue WAIT_QUEUE_MAX_LENGTH\<rparr>,
     p_semaphore_pool = replicate LOCK_POOL_SIZE
       \<lparr>s_count = 0, s_wait = zero_queue WAIT_QUEUE_MAX_LENGTH\<rparr>,
     p_condvar_pool = replicate LOCK_POOL_SIZE \<lparr>c_wait = zero_queue WAIT_QUEUE_MAX_LENGTH\<rparr>,
     p_deadlock_detect_enable = 0,
     p_mutex_allocation = zero_table, p_mutex_request = zero_table,
     p_sem_allocation = zero_table, p_sem_request = zero_table,
     p_syscall_count = replicate MAX_SYSCALL_NUM 0, p_stride = 0, p_priority = 0,
     p_npc_id = 0, p_dynamic_prio = 0, p_ipc_rx_bytes = 0\<rparr>"

lemma tbl_ok_zero [simp]: "tbl_ok zero_table"
  by (simp add: tbl_ok_def zero_table_def)

section \<open>Projections of an update\<close>

lemma pool_map_proc [simp]: "pool (map_proc p f k) = upd_at p f (pool k)"
  by (simp add: map_proc_def)

lemma map_proc_fields [simp]:
  "current (map_proc p f k) = current k"
  "task_queue (map_proc p f k) = task_queue k"
  "next_pid (map_proc p f k) = next_pid k"
  "mem (map_proc p f k) = mem k"
  "freelist (map_proc p f k) = freelist k"
  by (simp_all add: map_proc_def)

lemma map_thread_fields [simp]:
  "current (map_thread t f k) = current k"
  "task_queue (map_thread t f k) = task_queue k"
  "next_pid (map_thread t f k) = next_pid k"
  "length (pool (map_thread t f k)) = length (pool k)"
  by (simp_all add: map_thread_def)

lemma set_state_fields [simp]:
  "current (set_state t st k) = current k"
  "task_queue (set_state t st k) = task_queue k"
  "next_pid (set_state t st k) = next_pid k"
  "length (pool (set_state t st k)) = length (pool k)"
  by (simp_all add: set_state_def)

lemma the_proc_map_proc:
  "p < length (pool k) \<Longrightarrow> the_proc (map_proc p f k) q = (if q = p then f (the_proc k p) else the_proc k q)"
  by (auto simp: the_proc_def upd_at_def nth_list_update)

lemma the_proc_map_thread:
  "fst t < length (pool k) \<Longrightarrow> the_proc (map_thread t f k) q =
     (if q = fst t then (the_proc k q)\<lparr>p_threads := upd_at (snd t) f (p_threads (the_proc k q))\<rparr>
      else the_proc k q)"
  by (simp add: map_thread_def the_proc_map_proc)

lemma the_thread_map_thread:
  "fst t < length (pool k) \<Longrightarrow> snd t < length (p_threads (the_proc k (fst t))) \<Longrightarrow>
     the_thread (map_thread t f k) u = (if u = t then f (the_thread k t) else the_thread k u)"
  by (cases t; cases u) (auto simp: the_thread_def map_thread_def the_proc_def upd_at_def nth_list_update)

end
