(* ===== verification/Sched.thy ===== *)
theory Sched
  imports ProcDefs
begin

text \<open>
  The stride scheduler of \<^verbatim>\<open>os/proc.c\<close>: task identifiers, \<^verbatim>\<open>add_task\<close>, \<^verbatim>\<open>fetch_task\<close>,
  \<^verbatim>\<open>scheduler\<close>, \<^verbatim>\<open>sched\<close> and \<^verbatim>\<open>yield\<close>. The main result is that \<^verbatim>\<open>fetch_task\<close>, which scans the
  ring and closes the gap by shifting entries over the wrap-around, takes exactly the first
  runnable task of least stride out of the abstract task list and charges it one pass.
\<close>

definition BIG_STRIDE :: u64 where
  "BIG_STRIDE = 65536"

definition id_to_task :: "int \<Rightarrow> task option" where
  "id_to_task index =
     (if index < 0 then None
      else Some (nat index div NTHREAD, nat index mod NTHREAD))"

definition task_to_id :: "'a kern_scheme \<Rightarrow> task \<Rightarrow> int" where
  "task_to_id k t = int (fst t) * int NTHREAD + th_tid (the_thread k t)"

definition add_task :: "task \<Rightarrow> 'a kern_scheme \<Rightarrow> 'a kern_scheme option" where
  "add_task t k = do {
     q \<leftarrow> push_queue (task_queue k) (task_to_id k t);
     Some (k\<lparr>task_queue := q\<rparr>) }"

text \<open>The number of queued entries as \<^verbatim>\<open>fetch_task\<close> computes it.\<close>

definition fetch_count :: "queue \<Rightarrow> nat" where
  "fetch_count q =
     (let count = (if qfront q \<le> qtail q \<and> \<not> qempty q then qtail q - qfront q
                   else qsize q - qfront q + qtail q)
      in if qempty q then 0 else count)"

text \<open>One round of the scan: \<open>(min_stride, min_idx)\<close>, \<open>None\<close> for \<^verbatim>\<open>min_idx == -1\<close>.\<close>

definition scan_step :: "'a kern_scheme \<Rightarrow> nat \<Rightarrow> u64 \<times> nat option \<Rightarrow> u64 \<times> nat option" where
  "scan_step k i acc =
     (let q = task_queue k;
          idx = (qfront q + i) mod qsize q
      in case id_to_task (qdata q ! idx) of
           None \<Rightarrow> acc
         | Some t \<Rightarrow>
             if th_state (the_thread k t) \<noteq> RUNNABLE then acc
             else let stride = p_stride (the_proc k (fst t))
                  in if stride < fst acc then (stride, Some idx) else acc)"

definition scan_min :: "'a kern_scheme \<Rightarrow> nat \<Rightarrow> u64 \<times> nat option" where
  "scan_min k count = fold (scan_step k) [0..<count] (- 1, None)"

text \<open>The loop that moves the later entries one place forward, over the end of the ring.\<close>

partial_function (option) shift_from :: "nat \<Rightarrow> nat \<Rightarrow> nat \<Rightarrow> int list \<Rightarrow> int list option" where
  "shift_from sz stop i d =
     (if i = stop then Some d
      else shift_from sz stop ((i + 1) mod sz) (d[i := d ! ((i + 1) mod sz)]))"

declare shift_from.simps [code]

definition fetch_task :: "'a kern_scheme \<Rightarrow> (task option \<times> 'a kern_scheme) option" where
  "fetch_task k =
     (let q = task_queue k in
      if qempty q then Some (None, k)
      else case snd (scan_min k (fetch_count q)) of
        None \<Rightarrow>
          let (index, q') = pop_queue q in Some (id_to_task index, k\<lparr>task_queue := q'\<rparr>)
      | Some min_idx \<Rightarrow> do {
          let task_id = qdata q ! min_idx;
          d \<leftarrow> shift_from (qsize q) ((qtail q + qsize q - 1) mod qsize q) min_idx (qdata q);
          let tail = (qtail q + qsize q - 1) mod qsize q;
          let k = k\<lparr>task_queue := q\<lparr>qdata := d, qtail := tail, qempty := (qfront q = tail)\<rparr>\<rparr>;
          let t = id_to_task task_id;
          Some (t, case t of None \<Rightarrow> k
                   | Some t \<Rightarrow> map_proc (fst t)
                       (\<lambda>p. p\<lparr>p_stride := p_stride p + BIG_STRIDE div p_priority p\<rparr>) k) })"

text \<open>
  \<^verbatim>\<open>scheduler\<close>: fetch until a runnable thread comes out and switch to it; no task at all is
  the panic "all app are over". \<^verbatim>\<open>sched\<close> leaves the current thread for the scheduler, and
  \<^verbatim>\<open>yield\<close> queues the current thread first. The switch itself (\<^verbatim>\<open>swtch\<close>) is the value of
  \<open>current\<close>; the code a thread continues with after a switch is modelled by its caller.
\<close>

partial_function (option) scheduler :: "'a kern_scheme \<Rightarrow> 'a kern_scheme option" where
  "scheduler k =
     (case fetch_task k of
        None \<Rightarrow> None
      | Some (None, k') \<Rightarrow> None
      | Some (Some t, k') \<Rightarrow>
          if th_state (the_thread k' t) \<noteq> RUNNABLE then scheduler k'
          else Some ((set_state t RUNNING k')\<lparr>current := Some t\<rparr>))"

declare scheduler.simps [code]

definition sched :: "'a kern_scheme \<Rightarrow> 'a kern_scheme option" where
  "sched k = (case current k of
       None \<Rightarrow> None
     | Some t \<Rightarrow> if th_state (the_thread k t) = RUNNING then None else scheduler k)"

definition yield :: "'a kern_scheme \<Rightarrow> 'a kern_scheme option" where
  "yield k = (case current k of
       None \<Rightarrow> None
     | Some t \<Rightarrow> do { k \<leftarrow> add_task t (set_state t RUNNABLE k); sched k })"

definition sys_set_priority :: "64 word \<Rightarrow> 'a kern_scheme \<Rightarrow> int \<times> 'a kern_scheme" where
  "sys_set_priority prio k =
     (if sint prio < 2 then (- 1, k)
      else (sint (ucast prio :: u32), map_proc (curr_proc k) (\<lambda>p. p\<lparr>p_priority := prio\<rparr>) k))"

section \<open>Task identifiers\<close>

lemma NTHREAD_pos [simp]: "0 < NTHREAD"
  by (simp add: NTHREAD_def)

lemma id_to_task_to_id:
  assumes "th_tid (the_thread k (p, t)) = int t" "t < NTHREAD"
  shows "id_to_task (task_to_id k (p, t)) = Some (p, t)"
proof -
  have "nat (int p * int NTHREAD + int t) = p * NTHREAD + t"
    by (simp flip: of_nat_mult of_nat_add)
  moreover have "\<not> int p * int NTHREAD + int t < 0" by (simp add: not_less)
  ultimately show ?thesis using assms by (simp add: id_to_task_def task_to_id_def)
qed

section \<open>The scan\<close>

definition runnable_id :: "'a kern_scheme \<Rightarrow> int \<Rightarrow> bool" where
  "runnable_id k x = (case id_to_task x of None \<Rightarrow> False | Some t \<Rightarrow> th_state (the_thread k t) = RUNNABLE)"

definition stride_id :: "'a kern_scheme \<Rightarrow> int \<Rightarrow> u64" where
  "stride_id k x = (case id_to_task x of None \<Rightarrow> 0 | Some t \<Rightarrow> p_stride (the_proc k (fst t)))"

lemma scan_step_eq:
  "scan_step k i acc =
     (let x = qdata (task_queue k) ! ((qfront (task_queue k) + i) mod qsize (task_queue k)) in
      if runnable_id k x \<and> stride_id k x < fst acc
      then (stride_id k x, Some ((qfront (task_queue k) + i) mod qsize (task_queue k))) else acc)"
  by (auto simp: scan_step_def runnable_id_def stride_id_def Let_def split: option.splits)

text \<open>What the scan has found after \<open>n\<close> rounds: the first position of least stride among the
  runnable ones, or nothing below the largest 64-bit stride.\<close>

definition scan_ok :: "'a kern_scheme \<Rightarrow> int list \<Rightarrow> nat \<Rightarrow> u64 \<times> nat option \<Rightarrow> bool" where
  "scan_ok k xs n acc \<longleftrightarrow> (case snd acc of
      None \<Rightarrow> fst acc = - 1 \<and> (\<forall>i < n. runnable_id k (xs ! i) \<longrightarrow> stride_id k (xs ! i) = - 1)
    | Some idx \<Rightarrow> \<exists>j < n. idx = (qfront (task_queue k) + j) mod qsize (task_queue k) \<and>
        runnable_id k (xs ! j) \<and> stride_id k (xs ! j) = fst acc \<and>
        (\<forall>i < n. runnable_id k (xs ! i) \<longrightarrow> fst acc \<le> stride_id k (xs ! i)) \<and>
        (\<forall>i < j. runnable_id k (xs ! i) \<longrightarrow> fst acc < stride_id k (xs ! i)))"

lemma scan_min_Suc: "scan_min k (Suc n) = scan_step k n (scan_min k n)"
  by (simp add: scan_min_def)

lemma word_max_less: "\<not> x < - 1 \<Longrightarrow> x = (- 1 :: 'a::len word)"
  by (metis word_order.extremum not_less order_antisym)

lemma scan_ok_min:
  assumes "n \<le> queue_len (task_queue k)"
  shows "scan_ok k (queue_seq (task_queue k)) n (scan_min k n)"
  using assms
proof (induction n)
  case 0
  then show ?case by (simp add: scan_ok_def scan_min_def)
next
  case (Suc n)
  let ?xs = "queue_seq (task_queue k)" and ?acc = "scan_min k n"
  have IH: "scan_ok k ?xs n ?acc" using Suc by simp
  have x: "qdata (task_queue k) ! ((qfront (task_queue k) + n) mod qsize (task_queue k)) = ?xs ! n"
    using Suc.prems by (simp add: nth_queue_seq)
  show ?case
  proof (cases "runnable_id k (?xs ! n) \<and> stride_id k (?xs ! n) < fst ?acc")
    case True
    have low: "stride_id k (?xs ! n) < stride_id k (?xs ! i)" if "i < n" "runnable_id k (?xs ! i)" for i
      using IH True that unfolding scan_ok_def
      by (auto split: option.splits intro: less_le_trans)
    with True x show ?thesis
      by (auto simp: scan_min_Suc scan_step_eq scan_ok_def less_Suc_eq intro!: exI [of _ n] less_imp_le)
  next
    case False
    then have same: "scan_min k (Suc n) = ?acc" using x by (auto simp: scan_min_Suc scan_step_eq)
    show ?thesis
    proof (cases "snd ?acc")
      case None
      with IH False show ?thesis unfolding same
        by (auto simp: scan_ok_def less_Suc_eq intro: word_max_less)
    next
      case (Some idx)
      with IH False show ?thesis unfolding same
        by (auto simp: scan_ok_def less_Suc_eq not_less)
    qed
  qed
qed

section \<open>Closing the gap\<close>

lemma shift_from_result:
  assumes "f < sz" "length d = sz" "j \<le> L" "L < sz"
  shows "\<exists>d'. shift_from sz ((f + L) mod sz) ((f + j) mod sz) d = Some d' \<and> length d' = sz \<and>
    (\<forall>a < sz. d' ! ((f + a) mod sz) =
       (if j \<le> a \<and> a < L then d ! ((f + Suc a) mod sz) else d ! ((f + a) mod sz)))"
  using assms
proof (induction "L - j" arbitrary: j d)
  case 0
  then show ?case by (auto simp: shift_from.simps)
next
  case (Suc n)
  then have lt: "j < L" by simp
  let ?i = "(f + j) mod sz"
  let ?d = "d[?i := d ! ((f + Suc j) mod sz)]"
  have next_i: "(?i + 1) mod sz = (f + Suc j) mod sz" by (simp add: mod_Suc_eq)
  have "?i \<noteq> (f + L) mod sz" using ring_index_inj [of f j sz L] lt Suc.prems by auto
  then have unfold: "shift_from sz ((f + L) mod sz) ?i d =
      shift_from sz ((f + L) mod sz) ((f + Suc j) mod sz) ?d"
    using next_i by (subst shift_from.simps) simp
  have m: "n = L - Suc j" using Suc.hyps(2) by simp
  have lend: "length ?d = sz" using Suc.prems by simp
  have le: "Suc j \<le> L" using lt by simp
  note IH = Suc.hyps(1) [OF m Suc.prems(1) lend le Suc.prems(4)]
  from IH obtain d' where d': "shift_from sz ((f + L) mod sz) ((f + Suc j) mod sz) ?d = Some d'" "length d' = sz"
    and at: "\<forall>a < sz. d' ! ((f + a) mod sz) =
       (if Suc j \<le> a \<and> a < L then ?d ! ((f + Suc a) mod sz) else ?d ! ((f + a) mod sz))"
    by (elim exE conjE)
  have upd: "?d ! ((f + b) mod sz) = (if b = j then d ! ((f + Suc j) mod sz) else d ! ((f + b) mod sz))"
    if "b < sz" for b
    using that lt Suc.prems ring_index_inj [of f b sz j] by (auto simp: nth_list_update)
  have "d' ! ((f + a) mod sz) =
       (if j \<le> a \<and> a < L then d ! ((f + Suc a) mod sz) else d ! ((f + a) mod sz))" if "a < sz" for a
    using at that upd [of a] upd [of "Suc a"] Suc.prems lt by (cases "a = j") auto
  with unfold d' show ?case by auto
qed

lemma queue_last_pos:
  assumes wf: "queue_wf q" and ne: "0 < queue_len q"
  shows "(qtail q + qsize q - 1) mod qsize q = (qfront q + (queue_len q - 1)) mod qsize q"
proof -
  have "0 < qsize q" using wf by (simp add: queue_wf_def)
  then have "(qtail q + qsize q - 1) mod qsize q = (qtail q + (qsize q - 1)) mod qsize q" by simp
  also have "\<dots> = ((qfront q + queue_len q) mod qsize q + (qsize q - 1)) mod qsize q"
    using queue_tail_pos [OF wf] by simp
  also have "\<dots> = (qfront q + queue_len q + (qsize q - 1)) mod qsize q" by (rule mod_add_left_eq)
  also have "qfront q + queue_len q + (qsize q - 1) = qfront q + (queue_len q - 1) + qsize q"
    using ne \<open>0 < qsize q\<close> by simp
  finally show ?thesis by simp
qed

lemma queue_seq_removed:
  assumes wf: "queue_wf q" and j: "j < queue_len q"
    and d: "shift_from (qsize q) ((qtail q + qsize q - 1) mod qsize q) ((qfront q + j) mod qsize q) (qdata q) = Some d"
    and q': "q' = q\<lparr>qdata := d, qtail := (qtail q + qsize q - 1) mod qsize q,
      qempty := (qfront q = (qtail q + qsize q - 1) mod qsize q)\<rparr>"
    and room: "queue_len q < qsize q"
  shows "queue_wf q' \<and> queue_seq q' = take j (queue_seq q) @ drop (Suc j) (queue_seq q)"
proof -
  let ?n = "queue_len q" and ?f = "qfront q" and ?sz = "qsize q"
  have f: "?f < ?sz" and len: "length (qdata q) = ?sz" and ne: "\<not> qempty q"
    using wf j by (auto simp: queue_wf_def queue_len_def)
  have stop: "(qtail q + ?sz - 1) mod ?sz = (?f + (?n - 1)) mod ?sz"
    by (rule queue_last_pos [OF wf]) (use j in simp)
  have le: "j \<le> ?n - 1" "?n - 1 < ?sz" using j room by simp_all
  obtain d0 where d0: "shift_from ?sz ((?f + (?n - 1)) mod ?sz) ((?f + j) mod ?sz) (qdata q) = Some d0"
    "length d0 = ?sz" and at0: "\<forall>a < ?sz. d0 ! ((?f + a) mod ?sz) =
       (if j \<le> a \<and> a < ?n - 1 then qdata q ! ((?f + Suc a) mod ?sz) else qdata q ! ((?f + a) mod ?sz))"
    using shift_from_result [OF f len le] by (elim exE conjE)
  have "d0 = d" using d d0 unfolding stop by simp
  then have d': "length d = ?sz" and at: "\<And>a. a < ?sz \<Longrightarrow> d ! ((?f + a) mod ?sz) =
       (if j \<le> a \<and> a < ?n - 1 then qdata q ! ((?f + Suc a) mod ?sz) else qdata q ! ((?f + a) mod ?sz))"
    using d0 at0 by simp_all
  have wf': "queue_wf q'" using wf d' by (simp add: q' queue_wf_def)
  have len': "queue_len q' = ?n - 1"
  proof -
    have pos: "(?f + (?n - 1)) mod ?sz = (if ?f + (?n - 1) < ?sz then ?f + (?n - 1) else ?f + (?n - 1) - ?sz)"
      using f room j by (auto simp: le_mod_geq not_less)
    have fields: "qfront q' = ?f" "qsize q' = ?sz" "qtail q' = (?f + (?n - 1)) mod ?sz"
      "qempty q' = (?f = (?f + (?n - 1)) mod ?sz)"
      using stop by (simp_all add: q')
    show ?thesis
    proof (cases "?n = 1")
      case True
      then show ?thesis using f fields by (simp add: queue_len_def [of q'])
    next
      case False
      then have "?f \<noteq> (?f + (?n - 1)) mod ?sz"
        using j le(2) f ring_index_inj [of ?f 0 ?sz "?n - 1"] by fastforce
      then show ?thesis using False j room f pos fields
        by (auto simp: queue_len_def [of q'])
    qed
  qed
  have "queue_seq q' = take j (queue_seq q) @ drop (Suc j) (queue_seq q)"
  proof (rule nth_equalityI)
    show "length (queue_seq q') = length (take j (queue_seq q) @ drop (Suc j) (queue_seq q))"
      using j len' by simp
    fix a
    assume "a < length (queue_seq q')"
    then have a: "a < ?n - 1" using len' by simp
    then have "queue_seq q' ! a = d ! ((?f + a) mod ?sz)" using len' by (simp add: nth_queue_seq q')
    also have "\<dots> = (if j \<le> a then queue_seq q ! Suc a else queue_seq q ! a)"
      using a room at [of a] by (simp add: nth_queue_seq)
    finally show "queue_seq q' ! a = (take j (queue_seq q) @ drop (Suc j) (queue_seq q)) ! a"
      using a j by (auto simp: nth_append min_def)
  qed
  with wf' show ?thesis by simp
qed

section \<open>fetch_task takes the first runnable task of least stride\<close>

definition charge :: "proc \<Rightarrow> proc" where
  "charge p = p\<lparr>p_stride := p_stride p + BIG_STRIDE div p_priority p\<rparr>"

definition least_stride :: "'a kern_scheme \<Rightarrow> int list \<Rightarrow> nat \<Rightarrow> bool" where
  "least_stride k xs j \<longleftrightarrow> j < length xs \<and> runnable_id k (xs ! j) \<and>
     (\<forall>i < length xs. runnable_id k (xs ! i) \<longrightarrow> stride_id k (xs ! j) \<le> stride_id k (xs ! i)) \<and>
     (\<forall>i < j. runnable_id k (xs ! i) \<longrightarrow> stride_id k (xs ! j) < stride_id k (xs ! i))"

lemma fetch_count_len: "queue_wf q \<Longrightarrow> queue_len q < qsize q \<Longrightarrow> fetch_count q = queue_len q"
  using queue_full_iff [of q] by (auto simp: fetch_count_def queue_len_def Let_def split: if_splits)

lemma fetch_task_least:
  assumes wf: "queue_wf (task_queue k)" and room: "queue_room (task_queue k)"
    and ex: "i < queue_len (task_queue k)" "runnable_id k (queue_seq (task_queue k) ! i)"
      "stride_id k (queue_seq (task_queue k) ! i) \<noteq> - 1"
  shows "\<exists>j t q'. least_stride k (queue_seq (task_queue k)) j \<and>
    id_to_task (queue_seq (task_queue k) ! j) = Some t \<and>
    fetch_task k = Some (Some t, map_proc (fst t) charge (k\<lparr>task_queue := q'\<rparr>)) \<and>
    queue_wf q' \<and> queue_seq q' = take j (queue_seq (task_queue k)) @ drop (Suc j) (queue_seq (task_queue k))"
proof -
  let ?q = "task_queue k"
  let ?xs = "queue_seq ?q"
  have lt: "queue_len ?q < qsize ?q" using room by (simp add: queue_room_def)
  have ne: "\<not> qempty ?q" using ex(1) by (auto simp: queue_len_def)
  have cnt: "fetch_count ?q = queue_len ?q" by (rule fetch_count_len [OF wf lt])
  have scan: "scan_ok k ?xs (queue_len ?q) (scan_min k (queue_len ?q))" by (rule scan_ok_min) simp
  then obtain idx where idx: "snd (scan_min k (queue_len ?q)) = Some idx"
    using ex unfolding scan_ok_def by (cases "snd (scan_min k (queue_len ?q))") auto
  with scan obtain j where j: "j < queue_len ?q" "idx = (qfront ?q + j) mod qsize ?q"
    and least: "least_stride k ?xs j"
    unfolding scan_ok_def least_stride_def by auto
  have id: "qdata ?q ! idx = ?xs ! j" using j by (simp add: nth_queue_seq)
  from least obtain t where t: "id_to_task (?xs ! j) = Some t"
    by (auto simp: least_stride_def runnable_id_def split: option.splits)
  have f: "qfront ?q < qsize ?q" "length (qdata ?q) = qsize ?q" using wf by (auto simp: queue_wf_def)
  have "\<exists>d. shift_from (qsize ?q) ((qtail ?q + qsize ?q - 1) mod qsize ?q) idx (qdata ?q) = Some d"
  proof -
    have stop: "(qtail ?q + qsize ?q - 1) mod qsize ?q = (qfront ?q + (queue_len ?q - 1)) mod qsize ?q"
      by (rule queue_last_pos [OF wf]) (use j in simp)
    have "j \<le> queue_len ?q - 1" "queue_len ?q - 1 < qsize ?q" using j lt by simp_all
    from shift_from_result [OF f this] show ?thesis unfolding stop j(2) by blast
  qed
  then obtain d where d: "shift_from (qsize ?q) ((qtail ?q + qsize ?q - 1) mod qsize ?q) idx (qdata ?q) = Some d"
    by blast
  let ?q' = "?q\<lparr>qdata := d, qtail := (qtail ?q + qsize ?q - 1) mod qsize ?q,
      qempty := (qfront ?q = (qtail ?q + qsize ?q - 1) mod qsize ?q)\<rparr>"
  have "queue_wf ?q' \<and> queue_seq ?q' = take j ?xs @ drop (Suc j) ?xs"
    by (rule queue_seq_removed [OF wf j(1) d [unfolded j(2)] refl lt])
  moreover have "fetch_task k = Some (Some t, map_proc (fst t) charge (k\<lparr>task_queue := ?q'\<rparr>))"
    unfolding fetch_task_def using ne cnt idx id t d by (simp add: Let_def charge_def [abs_def])
  ultimately show ?thesis using least t by blast
qed

section \<open>scheduler\<close>

definition task_ok :: "'a kern_scheme \<Rightarrow> task \<Rightarrow> bool" where
  "task_ok k t \<longleftrightarrow> fst t < length (pool k) \<and> snd t < length (p_threads (the_proc k (fst t)))"

lemma the_thread_charge:
  "fst t < length (pool k) \<Longrightarrow> the_thread (map_proc (fst t) charge k) u = the_thread k u"
  by (auto simp: the_thread_def charge_def nth_upd_at [unfolded upd_at_def] upd_at_def nth_list_update)

lemma the_thread_set_state:
  "task_ok k t \<Longrightarrow> the_thread (set_state t st k) u =
     (if u = t then (the_thread k t)\<lparr>th_state := st\<rparr> else the_thread k u)"
  by (simp add: set_state_def the_thread_map_thread task_ok_def)

lemma the_thread_queue [simp]: "the_thread (k\<lparr>task_queue := q\<rparr>) t = the_thread k t"
  by (simp add: the_thread_def)

lemma the_thread_current [simp]: "the_thread (k\<lparr>current := c\<rparr>) t = the_thread k t"
  by (simp add: the_thread_def)

lemma the_proc_queue [simp]: "the_proc (k\<lparr>task_queue := q\<rparr>) p = the_proc k p"
  by (simp add: the_proc_def)

lemma the_proc_current [simp]: "the_proc (k\<lparr>current := c\<rparr>) p = the_proc k p"
  by (simp add: the_proc_def)

lemma task_ok_charge: "task_ok (map_proc p charge k) t = task_ok k t"
  by (cases "p = fst t") (auto simp: task_ok_def the_proc_def upd_at_def charge_def)

lemma task_ok_queue [simp]: "task_ok (k\<lparr>task_queue := q\<rparr>) t = task_ok k t"
  by (simp add: task_ok_def)

definition queued_ok :: "'a kern_scheme \<Rightarrow> bool" where
  "queued_ok k \<longleftrightarrow> queue_wf (task_queue k) \<and> queue_room (task_queue k) \<and>
     (\<forall>x \<in> set (queue_seq (task_queue k)). \<exists>t. id_to_task x = Some t \<and> task_ok k t)"

section \<open>What the scheduler leaves alone\<close>

definition task_id_ok :: "'a kern_scheme \<Rightarrow> int \<Rightarrow> bool" where
  "task_id_ok k x \<longleftrightarrow> (\<exists>t. id_to_task x = Some t \<and> task_ok k t)"

definition ready_ok :: "'a kern_scheme \<Rightarrow> bool" where
  "ready_ok k \<longleftrightarrow> queue_wf (task_queue k) \<and> (\<forall>x \<in> set (qdata (task_queue k)). task_id_ok k x)"

lemma shift_from_set:
  assumes "shift_from sz stop i d = Some d'" "0 < sz" "length d = sz"
  shows "length d' = sz \<and> set d' \<subseteq> set d"
proof -
  have "0 < sz \<longrightarrow> length d = sz \<longrightarrow> length d' = sz \<and> set d' \<subseteq> set d"
  proof (rule shift_from.raw_induct [where P = "\<lambda>sz stop i d d'. 0 < sz \<longrightarrow> length d = sz \<longrightarrow>
      length d' = sz \<and> set d' \<subseteq> set d", OF _ assms(1)], intro impI)
    fix f sz stop i d d'
    assume IH: "\<And>sz stop i d d'. f sz stop i d = Some d' \<Longrightarrow>
        0 < sz \<longrightarrow> length d = sz \<longrightarrow> length d' = sz \<and> set d' \<subseteq> set d"
      and eq: "(if i = stop then Some d else f sz stop ((i + 1) mod sz) (d[i := d ! ((i + 1) mod sz)])) = Some d'"
      and sz: "0 < sz" "length d = (sz::nat)"
    show "length d' = sz \<and> set d' \<subseteq> set d"
    proof (cases "i = stop")
      case True
      with eq sz show ?thesis by simp
    next
      case False
      have "d ! ((i + 1) mod sz) \<in> set d" using sz by (intro nth_mem) simp
      then have "set (d[i := d ! ((i + 1) mod sz)]) \<subseteq> set d"
        using set_update_subset_insert [of d i "d ! ((i + 1) mod sz)"] by blast
      with False eq sz IH [of sz stop "(i + 1) mod sz" "d[i := d ! ((i + 1) mod sz)]" d']
      show ?thesis by auto
    qed
  qed
  with assms show ?thesis by simp
qed

text \<open>\<open>sched_frame k k'\<close>: only strides and the ready queue differ.\<close>

definition sched_frame :: "'a kern_scheme \<Rightarrow> 'a kern_scheme \<Rightarrow> bool" where
  "sched_frame k k' \<longleftrightarrow> current k' = current k \<and> length (pool k') = length (pool k) \<and>
     (\<forall>p. \<exists>v. the_proc k' p = (the_proc k p)\<lparr>p_stride := v\<rparr>) \<and> (ready_ok k \<longrightarrow> ready_ok k')"

lemma the_thread_proc: "the_thread k t = p_threads (the_proc k (fst t)) ! snd t"
  by (simp add: the_thread_def the_proc_def)

lemma sched_frame_proc:
  assumes "sched_frame k k'"
  obtains v where "the_proc k' p = (the_proc k p)\<lparr>p_stride := v\<rparr>"
  using assms unfolding sched_frame_def by blast

lemma sched_frame_thread: "sched_frame k k' \<Longrightarrow> the_thread k' t = the_thread k t"
  by (erule sched_frame_proc [where p = "fst t"]) (simp add: the_thread_proc)

lemma sched_frame_task_ok:
  assumes f: "sched_frame k k'"
  shows "task_ok k' t = task_ok k t"
  using f by (rule sched_frame_proc [where p = "fst t"]) (use f in \<open>simp add: task_ok_def sched_frame_def\<close>)

lemma sched_frame_trans:
  assumes 1: "sched_frame k k'" and 2: "sched_frame k' k''"
  shows "sched_frame k k''"
proof -
  have "\<exists>v. the_proc k'' p = (the_proc k p)\<lparr>p_stride := v\<rparr>" for p
  proof -
    from 1 obtain v where "the_proc k' p = (the_proc k p)\<lparr>p_stride := v\<rparr>" by (rule sched_frame_proc)
    moreover from 2 obtain w where "the_proc k'' p = (the_proc k' p)\<lparr>p_stride := w\<rparr>" by (rule sched_frame_proc)
    ultimately have "the_proc k'' p = (the_proc k p)\<lparr>p_stride := w\<rparr>" by simp
    then show ?thesis ..
  qed
  with 1 2 show ?thesis unfolding sched_frame_def by simp
qed


lemma sched_frame_queue:
  assumes "ready_ok k \<Longrightarrow> queue_wf q \<and> set (qdata q) \<subseteq> set (qdata (task_queue k))"
  shows "sched_frame k (k\<lparr>task_queue := q\<rparr>)"
proof -
  have "\<exists>v. the_proc k p = (the_proc k p)\<lparr>p_stride := v\<rparr>" for p
    by (rule exI [of _ "p_stride (the_proc k p)"]) simp
  moreover have "task_id_ok (k\<lparr>task_queue := q\<rparr>) x = task_id_ok k x" for x
    by (simp add: task_id_ok_def)
  ultimately show ?thesis using assms by (auto simp: sched_frame_def ready_ok_def)
qed

lemma sched_frame_charge: "sched_frame k (map_proc p charge k)"
proof -
  have "\<exists>v. the_proc (map_proc p charge k) q = (the_proc k q)\<lparr>p_stride := v\<rparr>" for q
  proof (cases "p < length (pool k) \<and> q = p")
    case True
    then show ?thesis by (auto simp: the_proc_map_proc charge_def)
  next
    case False
    then have "the_proc (map_proc p charge k) q = the_proc k q"
      by (auto simp: the_proc_def upd_at_def list_update_beyond not_less)
    then show ?thesis by (intro exI [of _ "p_stride (the_proc k q)"]) simp
  qed
  then show ?thesis by (simp add: sched_frame_def ready_ok_def task_id_ok_def task_ok_charge)
qed

lemma scan_step_idx:
  assumes "\<forall>idx. snd acc = Some idx \<longrightarrow> idx < qsize (task_queue k)" "0 < qsize (task_queue k)"
  shows "\<forall>idx. snd (scan_step k i acc) = Some idx \<longrightarrow> idx < qsize (task_queue k)"
  using assms by (auto simp: scan_step_eq Let_def)

lemma scan_min_idx:
  assumes "0 < qsize (task_queue k)" "snd (scan_min k n) = Some idx"
  shows "idx < qsize (task_queue k)"
proof -
  have "\<forall>idx. snd (scan_min k n) = Some idx \<longrightarrow> idx < qsize (task_queue k)"
  proof (induction n)
    case 0
    then show ?case by (simp add: scan_min_def)
  next
    case (Suc n)
    show ?case unfolding scan_min_Suc by (rule scan_step_idx [OF Suc assms(1)])
  qed
  with assms(2) show ?thesis by simp
qed

lemma fetch_task_frame:
  assumes "fetch_task k = Some (r, k')"
  shows "sched_frame k k' \<and> (ready_ok k \<longrightarrow> (\<forall>t. r = Some t \<longrightarrow> task_ok k t))"
proof -
  let ?q = "task_queue k"
  consider (empty) "qempty ?q" | (fifo) "\<not> qempty ?q" "snd (scan_min k (fetch_count ?q)) = None"
    | (found) idx where "\<not> qempty ?q" "snd (scan_min k (fetch_count ?q)) = Some idx"
    by (cases "snd (scan_min k (fetch_count ?q))") auto
  then show ?thesis
  proof cases
    case empty
    with assms have "r = None" "k' = k" by (auto simp: fetch_task_def Let_def)
    moreover have "sched_frame k (k\<lparr>task_queue := task_queue k\<rparr>)" by (rule sched_frame_queue) (simp add: ready_ok_def)
    ultimately show ?thesis by simp
  next
    case fifo
    obtain v q' where pop: "pop_queue ?q = (v, q')" by fastforce
    with fifo assms have r: "r = id_to_task v" and k': "k' = k\<lparr>task_queue := q'\<rparr>"
      by (auto simp: fetch_task_def Let_def)
    have q': "qdata q' = qdata ?q" "v = qdata ?q ! qfront ?q"
      using pop fifo(1) by (auto simp: pop_queue_def Let_def)
    have "sched_frame k k'"
      unfolding k' by (rule sched_frame_queue)
        (use pop_queue_nonempty(1) [OF _ fifo(1) pop] q' in \<open>auto simp: ready_ok_def\<close>)
    moreover have "task_id_ok k v" if "ready_ok k"
      using that unfolding ready_ok_def queue_wf_def q'(2) by auto
    ultimately show ?thesis using r by (auto simp: task_id_ok_def)
  next
    case found
    let ?stop = "(qtail ?q + qsize ?q - 1) mod qsize ?q"
    from assms found obtain d where d: "shift_from (qsize ?q) ?stop idx (qdata ?q) = Some d"
      by (cases "shift_from (qsize ?q) ?stop idx (qdata ?q)") (simp_all add: fetch_task_def Let_def)
    let ?k1 = "k\<lparr>task_queue := ?q\<lparr>qdata := d, qtail := ?stop, qempty := (qfront ?q = ?stop)\<rparr>\<rparr>"
    have r: "r = id_to_task (qdata ?q ! idx)"
      and k': "k' = (case r of None \<Rightarrow> ?k1 | Some t \<Rightarrow> map_proc (fst t) charge ?k1)"
      using assms found d by (auto simp: fetch_task_def Let_def charge_def [abs_def] split: option.split)
    have "sched_frame k ?k1"
    proof (rule sched_frame_queue)
      assume "ready_ok k"
      then have wf: "queue_wf ?q" by (simp add: ready_ok_def)
      with shift_from_set [OF d]
      show "queue_wf (?q\<lparr>qdata := d, qtail := ?stop, qempty := (qfront ?q = ?stop)\<rparr>) \<and>
          set (qdata (?q\<lparr>qdata := d, qtail := ?stop, qempty := (qfront ?q = ?stop)\<rparr>)) \<subseteq> set (qdata ?q)"
        by (simp add: queue_wf_def)
    qed
    then have "sched_frame k k'"
      unfolding k' by (cases r) (auto intro: sched_frame_trans [OF _ sched_frame_charge])
    moreover have "task_id_ok k (qdata ?q ! idx)" if ok: "ready_ok k"
    proof -
      have "0 < qsize ?q" "length (qdata ?q) = qsize ?q" using ok by (simp_all add: ready_ok_def queue_wf_def)
      with scan_min_idx [OF this(1) found(2)] ok show ?thesis by (simp add: ready_ok_def)
    qed
    ultimately show ?thesis using r by (auto simp: task_id_ok_def)
  qed
qed

text \<open>A run of the scheduler: it picks a runnable thread, marks it running and makes it current.\<close>

definition sched_result :: "'a kern_scheme \<Rightarrow> 'a kern_scheme \<Rightarrow> bool" where
  "sched_result k k' \<longleftrightarrow> (\<exists>t k1. sched_frame k k1 \<and> th_state (the_thread k t) = RUNNABLE \<and>
     (ready_ok k \<longrightarrow> task_ok k t) \<and> k' = (set_state t RUNNING k1)\<lparr>current := Some t\<rparr>)"

lemma scheduler_result:
  assumes "scheduler k = Some k'"
  shows "sched_result k k'"
proof (rule scheduler.raw_induct [where P = sched_result, OF _ assms])
  fix f and k k' :: "'a kern_scheme"
  assume IH: "\<And>k k'. f k = Some k' \<Longrightarrow> sched_result k k'"
    and eq: "(case fetch_task k of None \<Rightarrow> None | Some (None, k') \<Rightarrow> None
      | Some (Some t, k') \<Rightarrow> if th_state (the_thread k' t) \<noteq> RUNNABLE then f k'
          else Some ((set_state t RUNNING k')\<lparr>current := Some t\<rparr>)) = Some k'"
  from eq obtain t k1 where ft: "fetch_task k = Some (Some t, k1)"
    by (auto split: option.splits)
  note fr = fetch_task_frame [OF ft]
  then have f1: "sched_frame k k1" by simp
  show "sched_result k k'"
  proof (cases "th_state (the_thread k1 t) = RUNNABLE")
    case True
    then have k': "k' = (set_state t RUNNING k1)\<lparr>current := Some t\<rparr>" using eq ft by simp
    have "th_state (the_thread k t) = RUNNABLE" using True by (simp add: sched_frame_thread [OF f1])
    with f1 fr k' show ?thesis unfolding sched_result_def by blast
  next
    case False
    with eq ft have "sched_result k1 k'" by (intro IH) simp
    then obtain u k2 where u: "sched_frame k1 k2" "th_state (the_thread k1 u) = RUNNABLE"
      "ready_ok k1 \<longrightarrow> task_ok k1 u" "k' = (set_state u RUNNING k2)\<lparr>current := Some u\<rparr>"
      unfolding sched_result_def by blast
    have "sched_frame k k2" by (rule sched_frame_trans [OF f1 u(1)])
    moreover have "ready_ok k \<longrightarrow> task_ok k u"
      using u(3) f1 by (auto simp: sched_frame_task_ok [OF f1] sched_frame_def)
    ultimately show ?thesis using u unfolding sched_result_def
      by (intro exI [of _ u] exI [of _ k2]) (simp add: sched_frame_thread [OF f1])
  qed
qed


lemma fetch_task_qsize: "fetch_task k = Some (r, k') \<Longrightarrow> qsize (task_queue k') = qsize (task_queue k)"
  by (auto simp: fetch_task_def pop_queue_def Let_def split: option.splits if_splits prod.splits bind_splits)

lemma scheduler_exact:
  assumes ok: "queued_ok k"
    and ex: "x \<in> set (queue_seq (task_queue k))" "runnable_id k x" "stride_id k x \<noteq> - 1"
  shows "\<exists>j t q'. least_stride k (queue_seq (task_queue k)) j \<and>
    id_to_task (queue_seq (task_queue k) ! j) = Some t \<and> task_ok k t \<and>
    scheduler k = Some ((set_state t RUNNING (map_proc (fst t) charge (k\<lparr>task_queue := q'\<rparr>)))\<lparr>current := Some t\<rparr>) \<and>
    queue_wf q' \<and> qsize q' = qsize (task_queue k) \<and>
    queue_seq q' = take j (queue_seq (task_queue k)) @ drop (Suc j) (queue_seq (task_queue k))"
proof -
  let ?xs = "queue_seq (task_queue k)"
  from ex(1) obtain i where i: "i < queue_len (task_queue k)" "x = ?xs ! i"
    by (auto simp: in_set_conv_nth)
  from fetch_task_least [of k i] ok ex i
  obtain j t q' where least: "least_stride k ?xs j" and t: "id_to_task (?xs ! j) = Some t"
    and ft: "fetch_task k = Some (Some t, map_proc (fst t) charge (k\<lparr>task_queue := q'\<rparr>))"
    and q': "queue_wf q'" "queue_seq q' = take j ?xs @ drop (Suc j) ?xs"
    by (auto simp: queued_ok_def)
  have j: "j < length ?xs" and run: "th_state (the_thread k t) = RUNNABLE"
    using least t by (auto simp: least_stride_def runnable_id_def)
  have tk: "task_ok k t" using ok nth_mem [OF j] t unfolding queued_ok_def by fastforce
  have "th_state (the_thread (map_proc (fst t) charge (k\<lparr>task_queue := q'\<rparr>)) t) = RUNNABLE"
    using tk run by (simp add: the_thread_charge task_ok_def)
  then have "scheduler k = Some ((set_state t RUNNING (map_proc (fst t) charge (k\<lparr>task_queue := q'\<rparr>)))\<lparr>current := Some t\<rparr>)"
    by (subst scheduler.simps) (simp add: ft)
  moreover have "qsize q' = qsize (task_queue k)" using fetch_task_qsize [OF ft] by simp
  ultimately show ?thesis using least t tk q' by blast
qed

lemma scheduler_least:
  assumes ok: "queued_ok k"
    and ex: "x \<in> set (queue_seq (task_queue k))" "runnable_id k x" "stride_id k x \<noteq> - 1"
  shows "\<exists>j t k'. least_stride k (queue_seq (task_queue k)) j \<and>
    id_to_task (queue_seq (task_queue k) ! j) = Some t \<and>
    scheduler k = Some k' \<and> current k' = Some t \<and>
    (\<forall>u. the_thread k' u = (if u = t then (the_thread k t)\<lparr>th_state := RUNNING\<rparr> else the_thread k u)) \<and>
    p_stride (the_proc k' (fst t)) =
      p_stride (the_proc k (fst t)) + BIG_STRIDE div p_priority (the_proc k (fst t)) \<and>
    queue_seq (task_queue k') =
      take j (queue_seq (task_queue k)) @ drop (Suc j) (queue_seq (task_queue k))"
proof -
  let ?xs = "queue_seq (task_queue k)"
  from scheduler_exact [OF ok ex] obtain j t q' where least: "least_stride k ?xs j"
    and t: "id_to_task (?xs ! j) = Some t" and tk: "task_ok k t"
    and s: "scheduler k = Some ((set_state t RUNNING (map_proc (fst t) charge (k\<lparr>task_queue := q'\<rparr>)))\<lparr>current := Some t\<rparr>)"
    and q': "queue_seq q' = take j ?xs @ drop (Suc j) ?xs"
    by blast
  let ?k1 = "map_proc (fst t) charge (k\<lparr>task_queue := q'\<rparr>)"
  have th: "the_thread ?k1 u = the_thread k u" for u
    using tk by (simp add: the_thread_charge task_ok_def)
  have "p_stride (the_proc (set_state t RUNNING ?k1) (fst t)) = p_stride (the_proc ?k1 (fst t))"
    using tk by (simp add: set_state_def the_proc_map_thread task_ok_def)
  also have "\<dots> = p_stride (the_proc k (fst t)) + BIG_STRIDE div p_priority (the_proc k (fst t))"
    using tk by (simp add: the_proc_map_proc task_ok_def charge_def)
  finally show ?thesis using least t s th q' tk
    by (intro exI [of _ j] exI [of _ t] exI [of _ "(set_state t RUNNING ?k1)\<lparr>current := Some t\<rparr>"])
      (simp add: the_thread_set_state task_ok_charge)
qed

section \<open>A small kernel\<close>

text \<open>One process with a running and a queued thread, and one blocking mutex.\<close>

definition demo_kern :: kern where
  "demo_kern = \<lparr>mem = (\<lambda>_. 0), freelist = 0, ekernel = 0, trampoline = 0,
     pool = [zero_proc\<lparr>p_state := P_USED, p_pid := 1, p_priority := 16, p_next_mutex_id := 1,
       p_mutex_pool := (p_mutex_pool zero_proc)[0 := \<lparr>m_blocking = True, m_locked = False,
         m_wait = init_queue WAIT_QUEUE_MAX_LENGTH (replicate WAIT_QUEUE_MAX_LENGTH 0)\<rparr>],
       p_threads := [zero_thread\<lparr>th_state := RUNNING, th_tid := 0\<rparr>, zero_thread\<lparr>th_state := RUNNABLE, th_tid := 1\<rparr>] @
         map (\<lambda>i. zero_thread\<lparr>th_tid := int i\<rparr>) [2..<16]\<rparr>],
     current = Some (0, 0),
     task_queue = (init_queue QUEUE_SIZE (replicate QUEUE_SIZE 0))
       \<lparr>qdata := (replicate QUEUE_SIZE 0)[0 := 1], qtail := 1, qempty := False\<rparr>,
     next_pid = 2\<rparr>"

lemma demo_queue:
  "queue_seq (task_queue demo_kern) = [1]" "queue_wf (task_queue demo_kern)" "queue_room (task_queue demo_kern)"
  by (simp_all add: demo_kern_def queue_seq_def queue_len_def queue_wf_def queue_room_def init_queue_def QUEUE_SIZE_def)

lemma demo_task_ok: "task_ok demo_kern t \<longleftrightarrow> fst t = 0 \<and> snd t < 16"
  by (cases t) (auto simp: task_ok_def demo_kern_def the_proc_def)

lemma demo_pool_length [simp]: "length (pool demo_kern) = 1"
  by (simp add: demo_kern_def)

lemma demo_tid: "i < 16 \<Longrightarrow> th_tid (the_thread demo_kern (0, i)) = int i"
  by (auto simp: demo_kern_def the_thread_def nth_append nth_Cons split: nat.splits)

lemma demo_access:
  "th_state (the_thread demo_kern (0, 0)) = RUNNING" "th_state (the_thread demo_kern (0, Suc 0)) = RUNNABLE"
  "p_stride (the_proc demo_kern 0) = 0" "current demo_kern = Some (0, 0)"
  by (simp_all add: demo_kern_def the_thread_def the_proc_def zero_proc_def LOCK_POOL_SIZE_def)

section \<open>Properties\<close>



end
