(* ===== verification/Sync.thy ===== *)
theory Sync
  imports Sched
begin

text \<open>
  \<^verbatim>\<open>os/sync.c\<close> and the lock system calls of \<^verbatim>\<open>os/syscall.c\<close>: mutexes, counting semaphores
  and condition variables.

  A function that calls \<^verbatim>\<open>sched\<close> or \<^verbatim>\<open>yield\<close> stops in the middle: the CPU goes to another
  thread, and the caller goes on when the scheduler picks it again. The model cuts such a
  function at the switch. The first part returns a resume point (\<open>None\<close> when the function
  returned without a switch); \<open>resume_sync\<close> runs the code behind the switch. A lock is its
  index in the pool of the calling process, as in \<^verbatim>\<open>m - curr_proc()->mutex_pool\<close>.
\<close>

datatype resume =
    Mutex_spin task nat
  | Mutex_sleep task nat
  | Sem_sleep task nat
  | Cond_sleep task nat nat

section \<open>The locks of a process\<close>

definition the_mutex :: "'a kern_scheme \<Rightarrow> nat \<Rightarrow> nat \<Rightarrow> mutex" where
  "the_mutex k p i = p_mutex_pool (the_proc k p) ! i"

definition the_sem :: "'a kern_scheme \<Rightarrow> nat \<Rightarrow> nat \<Rightarrow> semaphore" where
  "the_sem k p i = p_semaphore_pool (the_proc k p) ! i"

definition the_cond :: "'a kern_scheme \<Rightarrow> nat \<Rightarrow> nat \<Rightarrow> condvar" where
  "the_cond k p i = p_condvar_pool (the_proc k p) ! i"

definition map_mutex :: "nat \<Rightarrow> nat \<Rightarrow> (mutex \<Rightarrow> mutex) \<Rightarrow> 'a kern_scheme \<Rightarrow> 'a kern_scheme" where
  "map_mutex p i f = map_proc p (\<lambda>pr. pr\<lparr>p_mutex_pool := upd_at i f (p_mutex_pool pr)\<rparr>)"

definition map_sem :: "nat \<Rightarrow> nat \<Rightarrow> (semaphore \<Rightarrow> semaphore) \<Rightarrow> 'a kern_scheme \<Rightarrow> 'a kern_scheme" where
  "map_sem p i f = map_proc p (\<lambda>pr. pr\<lparr>p_semaphore_pool := upd_at i f (p_semaphore_pool pr)\<rparr>)"

definition map_cond :: "nat \<Rightarrow> nat \<Rightarrow> (condvar \<Rightarrow> condvar) \<Rightarrow> 'a kern_scheme \<Rightarrow> 'a kern_scheme" where
  "map_cond p i f = map_proc p (\<lambda>pr. pr\<lparr>p_condvar_pool := upd_at i f (p_condvar_pool pr)\<rparr>)"

definition set_mutex_allocation :: "nat \<Rightarrow> int \<Rightarrow> nat \<Rightarrow> int \<Rightarrow> 'a kern_scheme \<Rightarrow> 'a kern_scheme" where
  "set_mutex_allocation p tid i v =
     map_proc p (\<lambda>pr. pr\<lparr>p_mutex_allocation := tbl_set (nat tid) i v (p_mutex_allocation pr)\<rparr>)"

definition set_mutex_request :: "nat \<Rightarrow> int \<Rightarrow> nat \<Rightarrow> int \<Rightarrow> 'a kern_scheme \<Rightarrow> 'a kern_scheme" where
  "set_mutex_request p tid i v =
     map_proc p (\<lambda>pr. pr\<lparr>p_mutex_request := tbl_set (nat tid) i v (p_mutex_request pr)\<rparr>)"

definition add_sem_allocation :: "nat \<Rightarrow> int \<Rightarrow> nat \<Rightarrow> int \<Rightarrow> 'a kern_scheme \<Rightarrow> 'a kern_scheme" where
  "add_sem_allocation p tid i d =
     map_proc p (\<lambda>pr. pr\<lparr>p_sem_allocation :=
       tbl_set (nat tid) i (tbl (p_sem_allocation pr) (nat tid) i + d) (p_sem_allocation pr)\<rparr>)"

definition set_sem_request :: "nat \<Rightarrow> int \<Rightarrow> nat \<Rightarrow> int \<Rightarrow> 'a kern_scheme \<Rightarrow> 'a kern_scheme" where
  "set_sem_request p tid i v =
     map_proc p (\<lambda>pr. pr\<lparr>p_sem_request := tbl_set (nat tid) i v (p_sem_request pr)\<rparr>)"

definition tid_of :: "'a kern_scheme \<Rightarrow> task \<Rightarrow> int" where
  "tid_of k t = th_tid (the_thread k t)"

section \<open>Mutexes\<close>

definition mutex_create :: "bool \<Rightarrow> 'a kern_scheme \<Rightarrow> nat option \<times> 'a kern_scheme" where
  "mutex_create blocking k =
     (let p = curr_proc k; i = p_next_mutex_id (the_proc k p) in
      if LOCK_POOL_SIZE \<le> i then (None, k)
      else (Some i, map_mutex p i (\<lambda>m. m\<lparr>m_blocking := blocking, m_locked := False,
               m_wait := (if blocking then init_queue WAIT_QUEUE_MAX_LENGTH (qdata (m_wait m)) else m_wait m)\<rparr>)
             (map_proc p (\<lambda>pr. pr\<lparr>p_next_mutex_id := i + 1\<rparr>) k)))"

definition mutex_lock :: "nat \<Rightarrow> 'a kern_scheme \<Rightarrow> (resume option \<times> 'a kern_scheme) option" where
  "mutex_lock i k = (case current k of None \<Rightarrow> None | Some t \<Rightarrow>
     let p = fst t; m = the_mutex k p i; tid = tid_of k t in
     if \<not> m_locked m then
       Some (None, set_mutex_allocation p tid i 1 (map_mutex p i (\<lambda>m. m\<lparr>m_locked := True\<rparr>) k))
     else if \<not> m_blocking m then do {
       k \<leftarrow> yield (set_mutex_request p tid i 1 k);
       Some (Some (Mutex_spin t i), k) }
     else do {
       q \<leftarrow> push_queue (m_wait m) (task_to_id k t);
       k \<leftarrow> sched (set_mutex_request p tid i 1
              (set_state t SLEEPING (map_mutex p i (\<lambda>m. m\<lparr>m_wait := q\<rparr>) k)));
       Some (Some (Mutex_sleep t i), k) })"

text \<open>The last two assignments of \<^verbatim>\<open>mutex_lock\<close>, for a caller that had to wait.\<close>

definition mutex_lock_finish :: "task \<Rightarrow> nat \<Rightarrow> 'a kern_scheme \<Rightarrow> 'a kern_scheme" where
  "mutex_lock_finish t i k =
     set_mutex_allocation (fst t) (tid_of k t) i 1 (set_mutex_request (fst t) (tid_of k t) i 0 k)"

definition mutex_unlock :: "nat \<Rightarrow> 'a kern_scheme \<Rightarrow> 'a kern_scheme option" where
  "mutex_unlock i k = (case current k of None \<Rightarrow> None | Some c \<Rightarrow>
     let p = fst c; m = the_mutex k p i in
     if m_blocking m then
       let (index, q) = pop_queue (m_wait m);
           k = map_mutex p i (\<lambda>m. m\<lparr>m_wait := q\<rparr>) k
       in case id_to_task index of
            None \<Rightarrow> Some (set_mutex_allocation p (tid_of k c) i 0
                            (map_mutex p i (\<lambda>m. m\<lparr>m_locked := False\<rparr>) k))
          | Some t \<Rightarrow> do {
              k \<leftarrow> add_task t (set_state t RUNNABLE k);
              let k = set_mutex_allocation p (tid_of k c) i 0 k;
              let k = set_mutex_request p (tid_of k t) i 0 k;
              Some (set_mutex_allocation p (tid_of k t) i 1 k) }
     else Some (set_mutex_allocation p (tid_of k c) i 0 (map_mutex p i (\<lambda>m. m\<lparr>m_locked := False\<rparr>) k)))"

section \<open>Semaphores\<close>

definition semaphore_create :: "int \<Rightarrow> 'a kern_scheme \<Rightarrow> nat option \<times> 'a kern_scheme" where
  "semaphore_create count k =
     (let p = curr_proc k; i = p_next_semaphore_id (the_proc k p) in
      if LOCK_POOL_SIZE \<le> i then (None, k)
      else (Some i, map_sem p i (\<lambda>s. s\<lparr>s_count := count,
               s_wait := init_queue WAIT_QUEUE_MAX_LENGTH (qdata (s_wait s))\<rparr>)
             (map_proc p (\<lambda>pr. pr\<lparr>p_next_semaphore_id := i + 1\<rparr>) k)))"

definition semaphore_up :: "nat \<Rightarrow> 'a kern_scheme \<Rightarrow> 'a kern_scheme option" where
  "semaphore_up i k = (case current k of None \<Rightarrow> None | Some c \<Rightarrow>
     let p = fst c;
         k = (if 0 < tbl (p_sem_allocation (the_proc k p)) (nat (tid_of k c)) i
              then add_sem_allocation p (tid_of k c) i (- 1) k else k);
         k = map_sem p i (\<lambda>s. s\<lparr>s_count := s_count s + 1\<rparr>) k
     in if s_count (the_sem k p i) \<le> 0 then
          let (index, q) = pop_queue (s_wait (the_sem k p i));
              k = map_sem p i (\<lambda>s. s\<lparr>s_wait := q\<rparr>) k
          in case id_to_task index of
               None \<Rightarrow> None
             | Some t \<Rightarrow> do {
                 k \<leftarrow> add_task t (set_state t RUNNABLE k);
                 let k = set_sem_request p (tid_of k t) i 0 k;
                 Some (add_sem_allocation p (tid_of k t) i 1 k) }
        else Some k)"

definition semaphore_down :: "nat \<Rightarrow> 'a kern_scheme \<Rightarrow> (resume option \<times> 'a kern_scheme) option" where
  "semaphore_down i k = (case current k of None \<Rightarrow> None | Some t \<Rightarrow>
     let p = fst t; tid = tid_of k t;
         k = map_sem p i (\<lambda>s. s\<lparr>s_count := s_count s - 1\<rparr>) k
     in if s_count (the_sem k p i) < 0 then do {
          q \<leftarrow> push_queue (s_wait (the_sem k p i)) (task_to_id k t);
          k \<leftarrow> sched (set_sem_request p tid i 1
                 (set_state t SLEEPING (map_sem p i (\<lambda>s. s\<lparr>s_wait := q\<rparr>) k)));
          Some (Some (Sem_sleep t i), k) }
        else Some (None, add_sem_allocation p tid i 1 k))"

definition semaphore_down_finish :: "task \<Rightarrow> nat \<Rightarrow> 'a kern_scheme \<Rightarrow> 'a kern_scheme" where
  "semaphore_down_finish t i k =
     add_sem_allocation (fst t) (tid_of k t) i 1 (set_sem_request (fst t) (tid_of k t) i 0 k)"

section \<open>Condition variables\<close>

definition condvar_create :: "'a kern_scheme \<Rightarrow> nat option \<times> 'a kern_scheme" where
  "condvar_create k =
     (let p = curr_proc k; i = p_next_condvar_id (the_proc k p) in
      if LOCK_POOL_SIZE \<le> i then (None, k)
      else (Some i, map_cond p i (\<lambda>c. c\<lparr>c_wait := init_queue WAIT_QUEUE_MAX_LENGTH (qdata (c_wait c))\<rparr>)
             (map_proc p (\<lambda>pr. pr\<lparr>p_next_condvar_id := i + 1\<rparr>) k)))"

definition cond_signal :: "nat \<Rightarrow> 'a kern_scheme \<Rightarrow> 'a kern_scheme option" where
  "cond_signal i k =
     (let p = curr_proc k;
          (index, q) = pop_queue (c_wait (the_cond k p i));
          k = map_cond p i (\<lambda>c. c\<lparr>c_wait := q\<rparr>) k
      in case id_to_task index of
           None \<Rightarrow> Some k
         | Some t \<Rightarrow> add_task t (set_state t RUNNABLE k))"

definition cond_wait :: "nat \<Rightarrow> nat \<Rightarrow> 'a kern_scheme \<Rightarrow> (resume option \<times> 'a kern_scheme) option" where
  "cond_wait ci mi k = (case current k of None \<Rightarrow> None | Some t \<Rightarrow> do {
     k \<leftarrow> mutex_unlock mi k;
     q \<leftarrow> push_queue (c_wait (the_cond k (fst t) ci)) (task_to_id k t);
     k \<leftarrow> sched (set_state t SLEEPING (map_cond (fst t) ci (\<lambda>c. c\<lparr>c_wait := q\<rparr>) k));
     Some (Some (Cond_sleep t ci mi), k) })"

section \<open>The code behind a switch\<close>

fun resume_sync :: "resume \<Rightarrow> 'a kern_scheme \<Rightarrow> (resume option \<times> 'a kern_scheme) option" where
  "resume_sync (Mutex_spin t i) k =
     (if m_locked (the_mutex k (fst t) i) then do { k \<leftarrow> yield k; Some (Some (Mutex_spin t i), k) }
      else Some (None, mutex_lock_finish t i k))"
| "resume_sync (Mutex_sleep t i) k = Some (None, mutex_lock_finish t i k)"
| "resume_sync (Sem_sleep t i) k = Some (None, semaphore_down_finish t i k)"
| "resume_sync (Cond_sleep t ci mi) k = mutex_lock mi k"

section \<open>What an update of a lock leaves alone\<close>

lemma proc_field_map_proc:
  "(\<And>pr. h (f pr) = h pr) \<Longrightarrow> h (the_proc (map_proc p f k) q) = h (the_proc k q)"
  by (simp add: the_proc_def field_upd_at)

lemma the_thread_map_proc:
  "(\<And>pr. p_threads (f pr) = p_threads pr) \<Longrightarrow> the_thread (map_proc p f k) t = the_thread k t"
  by (simp add: the_thread_def field_upd_at)

lemma the_mutex_map_proc:
  "(\<And>pr. p_mutex_pool (f pr) = p_mutex_pool pr) \<Longrightarrow> the_mutex (map_proc p f k) q i = the_mutex k q i"
  by (simp add: the_mutex_def proc_field_map_proc)

lemma the_sem_map_proc:
  "(\<And>pr. p_semaphore_pool (f pr) = p_semaphore_pool pr) \<Longrightarrow> the_sem (map_proc p f k) q i = the_sem k q i"
  by (simp add: the_sem_def proc_field_map_proc)

lemma lock_update_threads [simp]:
  "the_thread (map_mutex p i g k) t = the_thread k t"
  "the_thread (map_sem p i h k) t = the_thread k t"
  "the_thread (map_cond p i c k) t = the_thread k t"
  "the_thread (set_mutex_allocation p tid i v k) t = the_thread k t"
  "the_thread (set_mutex_request p tid i v k) t = the_thread k t"
  "the_thread (add_sem_allocation p tid i v k) t = the_thread k t"
  "the_thread (set_sem_request p tid i v k) t = the_thread k t"
  by (simp_all add: the_thread_map_proc map_mutex_def map_sem_def map_cond_def
      set_mutex_allocation_def set_mutex_request_def add_sem_allocation_def set_sem_request_def)

lemma lock_update_kern [simp]:
  "current (map_mutex p i g k) = current k" "task_queue (map_mutex p i g k) = task_queue k"
  "current (map_sem p i h k) = current k" "task_queue (map_sem p i h k) = task_queue k"
  "current (map_cond p i c k) = current k" "task_queue (map_cond p i c k) = task_queue k"
  "current (set_mutex_allocation p tid i v k) = current k"
  "task_queue (set_mutex_allocation p tid i v k) = task_queue k"
  "current (set_mutex_request p tid i v k) = current k"
  "task_queue (set_mutex_request p tid i v k) = task_queue k"
  "current (add_sem_allocation p tid i v k) = current k"
  "task_queue (add_sem_allocation p tid i v k) = task_queue k"
  "current (set_sem_request p tid i v k) = current k"
  "task_queue (set_sem_request p tid i v k) = task_queue k"
  by (simp_all add: map_mutex_def map_sem_def map_cond_def
      set_mutex_allocation_def set_mutex_request_def add_sem_allocation_def set_sem_request_def)

lemma lock_update_length [simp]:
  "length (pool (map_mutex p i g k)) = length (pool k)"
  "length (pool (map_sem p i h k)) = length (pool k)"
  "length (pool (map_cond p i c k)) = length (pool k)"
  "length (pool (set_mutex_allocation p tid i v k)) = length (pool k)"
  "length (pool (set_mutex_request p tid i v k)) = length (pool k)"
  "length (pool (add_sem_allocation p tid i v k)) = length (pool k)"
  "length (pool (set_sem_request p tid i v k)) = length (pool k)"
  by (simp_all add: map_mutex_def map_sem_def map_cond_def
      set_mutex_allocation_def set_mutex_request_def add_sem_allocation_def set_sem_request_def)

lemma the_mutex_update [simp]:
  "the_mutex (set_mutex_allocation p tid i v k) q j = the_mutex k q j"
  "the_mutex (set_mutex_request p tid i v k) q j = the_mutex k q j"
  "the_mutex (map_sem p i h k) q j = the_mutex k q j"
  "the_mutex (map_cond p i c k) q j = the_mutex k q j"
  "the_mutex (set_state t st k) q j = the_mutex k q j"
  by (simp_all add: the_mutex_map_proc map_sem_def map_cond_def set_mutex_allocation_def
      set_mutex_request_def set_state_def map_thread_def)

lemma the_sem_update [simp]:
  "the_sem (add_sem_allocation p tid i v k) q j = the_sem k q j"
  "the_sem (set_sem_request p tid i v k) q j = the_sem k q j"
  "the_sem (map_mutex p i h k) q j = the_sem k q j"
  "the_sem (map_cond p i c k) q j = the_sem k q j"
  "the_sem (set_state t st k) q j = the_sem k q j"
  by (simp_all add: the_sem_map_proc map_mutex_def map_cond_def add_sem_allocation_def
      set_sem_request_def set_state_def map_thread_def)

lemma the_mutex_queue [simp]: "the_mutex (k\<lparr>task_queue := q\<rparr>) p i = the_mutex k p i"
  by (simp add: the_mutex_def)

lemma the_mutex_map_mutex:
  "p < length (pool k) \<Longrightarrow> i < length (p_mutex_pool (the_proc k p)) \<Longrightarrow>
     the_mutex (map_mutex p i f k) p i = f (the_mutex k p i)"
  by (simp add: the_mutex_def map_mutex_def the_proc_map_proc)

lemma the_sem_map_sem:
  "p < length (pool k) \<Longrightarrow> i < length (p_semaphore_pool (the_proc k p)) \<Longrightarrow>
     the_sem (map_sem p i f k) p i = f (the_sem k p i)"
  by (simp add: the_sem_def map_sem_def the_proc_map_proc)

lemma mutex_pool_length [simp]:
  "length (p_mutex_pool (the_proc (map_mutex p i f k) q)) = length (p_mutex_pool (the_proc k q))"
  "length (p_mutex_pool (the_proc (set_mutex_allocation p tid i v k) q)) = length (p_mutex_pool (the_proc k q))"
  "length (p_mutex_pool (the_proc (set_mutex_request p tid i v k) q)) = length (p_mutex_pool (the_proc k q))"
  "length (p_mutex_pool (the_proc (set_state t st k) q)) = length (p_mutex_pool (the_proc k q))"
  unfolding map_mutex_def set_mutex_allocation_def set_mutex_request_def set_state_def map_thread_def
  by (simp_all add: proc_field_map_proc [where h = "\<lambda>pr. length (p_mutex_pool pr)"])

lemma threads_length [simp]:
  "length (p_threads (the_proc (map_mutex p i f k) q)) = length (p_threads (the_proc k q))"
  "length (p_threads (the_proc (set_mutex_allocation p tid i v k) q)) = length (p_threads (the_proc k q))"
  "length (p_threads (the_proc (set_mutex_request p tid i v k) q)) = length (p_threads (the_proc k q))"
  "length (p_threads (the_proc (set_state t st k) q)) = length (p_threads (the_proc k q))"
  unfolding map_mutex_def set_mutex_allocation_def set_mutex_request_def set_state_def map_thread_def
  by (simp_all add: proc_field_map_proc [where h = "\<lambda>pr. length (p_threads pr)"])

end
