(* ===== verification/Deadlock.thy ===== *)
theory Deadlock
  imports Sync
begin

text \<open>
  \<^verbatim>\<open>deadlock_detect\<close> of \<^verbatim>\<open>os/syscall.c\<close>, the banker's algorithm over the mutexes and the
  semaphores of a process, and the lock system calls around it. The loop is proved to end and
  to decide whether the threads have a completion order.
\<close>

section \<open>The algorithm\<close>

definition work_mutex_init :: "proc \<Rightarrow> int list" where
  "work_mutex_init p = map (\<lambda>j. if m_locked (p_mutex_pool p ! j) then 0 else 1) [0..<LOCK_POOL_SIZE]"

definition work_sem_init :: "proc \<Rightarrow> int list" where
  "work_sem_init p =
     map (\<lambda>j. if 0 < s_count (p_semaphore_pool p ! j) then s_count (p_semaphore_pool p ! j) else 0)
       [0..<LOCK_POOL_SIZE]"

definition finish_init :: "proc \<Rightarrow> bool list" where
  "finish_init p =
     map (\<lambda>i. th_state (p_threads p ! i) = T_UNUSED \<or> th_state (p_threads p ! i) = EXITED) [0..<NTHREAD]"

definition request_fits :: "int list \<Rightarrow> int list \<Rightarrow> bool" where
  "request_fits req work = list_all (\<lambda>j. \<not> work ! j < req ! j) [0..<LOCK_POOL_SIZE]"

definition add_work :: "int list \<Rightarrow> int list \<Rightarrow> int list" where
  "add_work work alloc = map (\<lambda>j. work ! j + alloc ! j) [0..<LOCK_POOL_SIZE]"

record detect =
  d_mutex :: "int list"
  d_sem :: "int list"
  d_finish :: "bool list"
  d_found :: bool

definition detect_thread :: "proc \<Rightarrow> nat \<Rightarrow> detect \<Rightarrow> detect" where
  "detect_thread p i d =
     (if d_finish d ! i then d
      else if \<not> request_fits (p_mutex_request p ! i) (d_mutex d) then d
      else if \<not> request_fits (p_sem_request p ! i) (d_sem d) then d
      else \<lparr>d_mutex = add_work (d_mutex d) (p_mutex_allocation p ! i),
            d_sem = add_work (d_sem d) (p_sem_allocation p ! i),
            d_finish = (d_finish d)[i := True], d_found = True\<rparr>)"

definition detect_pass :: "proc \<Rightarrow> detect \<Rightarrow> detect" where
  "detect_pass p d = fold (detect_thread p) [0..<NTHREAD] (d\<lparr>d_found := False\<rparr>)"

partial_function (option) detect_loop :: "proc \<Rightarrow> detect \<Rightarrow> detect option" where
  "detect_loop p d =
     (let d' = detect_pass p d in if \<not> d_found d' then Some d' else detect_loop p d')"

declare detect_loop.simps [code]

definition detect_init :: "proc \<Rightarrow> detect" where
  "detect_init p = \<lparr>d_mutex = work_mutex_init p, d_sem = work_sem_init p,
     d_finish = finish_init p, d_found = False\<rparr>"

definition deadlock_detect :: "proc \<Rightarrow> int option" where
  "deadlock_detect p = do {
     d \<leftarrow> detect_loop p (detect_init p);
     Some (if list_all (\<lambda>i. d_finish d ! i) [0..<NTHREAD] then 0 else 1) }"

section \<open>The lock system calls\<close>

definition sys_mutex_create :: "int \<Rightarrow> 'a kern_scheme \<Rightarrow> int \<times> 'a kern_scheme" where
  "sys_mutex_create blocking k = (case mutex_create (blocking \<noteq> 0) k of
     (None, k) \<Rightarrow> (- 1, k) | (Some i, k) \<Rightarrow> (int i, k))"

text \<open>A system call that may block returns its value with the resume point of the caller.\<close>

definition sys_mutex_lock :: "int \<Rightarrow> 'a kern_scheme \<Rightarrow> (int \<times> resume option \<times> 'a kern_scheme) option" where
  "sys_mutex_lock mid k = (case current k of None \<Rightarrow> None | Some t \<Rightarrow>
     let p = fst t; i = nat mid; tid = tid_of k t in
     if mid < 0 \<or> p_next_mutex_id (the_proc k p) \<le> i then Some (- 1, None, k)
     else do {
       (refused, k) \<leftarrow>
         (if p_deadlock_detect_enable (the_proc k p) \<noteq> 0 then do {
            let k = set_mutex_request p tid i 1 k;
            r \<leftarrow> deadlock_detect (the_proc k p);
            Some (r \<noteq> 0, set_mutex_request p tid i 0 k) }
          else Some (False, k));
       if refused then Some (- 0xDEAD, None, k)
       else do { (r, k) \<leftarrow> mutex_lock i k; Some (0, r, k) } })"

definition sys_mutex_unlock :: "int \<Rightarrow> 'a kern_scheme \<Rightarrow> (int \<times> 'a kern_scheme) option" where
  "sys_mutex_unlock mid k =
     (if mid < 0 \<or> p_next_mutex_id (the_proc k (curr_proc k)) \<le> nat mid then Some (- 1, k)
      else do { k \<leftarrow> mutex_unlock (nat mid) k; Some (0, k) })"

definition sys_semaphore_create :: "int \<Rightarrow> 'a kern_scheme \<Rightarrow> int \<times> 'a kern_scheme" where
  "sys_semaphore_create res_count k = (case semaphore_create res_count k of
     (None, k) \<Rightarrow> (- 1, k) | (Some i, k) \<Rightarrow> (int i, k))"

definition sys_semaphore_up :: "int \<Rightarrow> 'a kern_scheme \<Rightarrow> (int \<times> 'a kern_scheme) option" where
  "sys_semaphore_up sid k =
     (if sid < 0 \<or> p_next_semaphore_id (the_proc k (curr_proc k)) \<le> nat sid then Some (- 1, k)
      else do { k \<leftarrow> semaphore_up (nat sid) k; Some (0, k) })"

definition sys_semaphore_down :: "int \<Rightarrow> 'a kern_scheme \<Rightarrow> (int \<times> resume option \<times> 'a kern_scheme) option" where
  "sys_semaphore_down sid k = (case current k of None \<Rightarrow> None | Some t \<Rightarrow>
     let p = fst t; i = nat sid; tid = tid_of k t in
     if sid < 0 \<or> p_next_semaphore_id (the_proc k p) \<le> i then Some (- 1, None, k)
     else do {
       (refused, k) \<leftarrow>
         (if p_deadlock_detect_enable (the_proc k p) \<noteq> 0 then do {
            let k = set_sem_request p tid i 1 k;
            r \<leftarrow> deadlock_detect (the_proc k p);
            Some (r \<noteq> 0, set_sem_request p tid i 0 k) }
          else Some (False, k));
       if refused then Some (- 0xDEAD, None, k)
       else do { (r, k) \<leftarrow> semaphore_down i k; Some (0, r, k) } })"

definition sys_condvar_create :: "'a kern_scheme \<Rightarrow> int \<times> 'a kern_scheme" where
  "sys_condvar_create k = (case condvar_create k of
     (None, k) \<Rightarrow> (- 1, k) | (Some i, k) \<Rightarrow> (int i, k))"

definition sys_condvar_signal :: "int \<Rightarrow> 'a kern_scheme \<Rightarrow> (int \<times> 'a kern_scheme) option" where
  "sys_condvar_signal cid k =
     (if cid < 0 \<or> p_next_condvar_id (the_proc k (curr_proc k)) \<le> nat cid then Some (- 1, k)
      else do { k \<leftarrow> cond_signal (nat cid) k; Some (0, k) })"

definition sys_condvar_wait :: "int \<Rightarrow> int \<Rightarrow> 'a kern_scheme \<Rightarrow> (int \<times> resume option \<times> 'a kern_scheme) option" where
  "sys_condvar_wait cid mid k =
     (if cid < 0 \<or> p_next_condvar_id (the_proc k (curr_proc k)) \<le> nat cid then Some (- 1, None, k)
      else if mid < 0 \<or> p_next_mutex_id (the_proc k (curr_proc k)) \<le> nat mid then Some (- 1, None, k)
      else do { (r, k) \<leftarrow> cond_wait (nat cid) (nat mid) k; Some (0, r, k) })"

definition sys_enable_deadlock_detect :: "int \<Rightarrow> 'a kern_scheme \<Rightarrow> int \<times> 'a kern_scheme" where
  "sys_enable_deadlock_detect is_enable k =
     (0, map_proc (curr_proc k) (\<lambda>p. p\<lparr>p_deadlock_detect_enable := is_enable\<rparr>) k)"

section \<open>Completion orders\<close>

text \<open>
  What the algorithm is to decide: the unfinished threads can be put in an order in which each
  request is met by what is free at the start and what the earlier threads give back.
\<close>

definition unfinished :: "proc \<Rightarrow> nat set" where
  "unfinished p = {i. i < NTHREAD \<and> th_state (p_threads p ! i) \<noteq> T_UNUSED \<and> th_state (p_threads p ! i) \<noteq> EXITED}"

definition free_mutex :: "proc \<Rightarrow> nat list \<Rightarrow> nat \<Rightarrow> int" where
  "free_mutex p earlier j = (if m_locked (p_mutex_pool p ! j) then 0 else 1) +
     (\<Sum>i\<leftarrow>earlier. tbl (p_mutex_allocation p) i j)"

definition free_sem :: "proc \<Rightarrow> nat list \<Rightarrow> nat \<Rightarrow> int" where
  "free_sem p earlier j = max 0 (s_count (p_semaphore_pool p ! j)) +
     (\<Sum>i\<leftarrow>earlier. tbl (p_sem_allocation p) i j)"

definition can_finish :: "proc \<Rightarrow> nat list \<Rightarrow> nat \<Rightarrow> bool" where
  "can_finish p earlier i \<longleftrightarrow> (\<forall>j < LOCK_POOL_SIZE.
     tbl (p_mutex_request p) i j \<le> free_mutex p earlier j \<and>
     tbl (p_sem_request p) i j \<le> free_sem p earlier j)"

definition completion_order :: "proc \<Rightarrow> nat list \<Rightarrow> bool" where
  "completion_order p ord \<longleftrightarrow> distinct ord \<and> set ord = unfinished p \<and>
     (\<forall>n < length ord. can_finish p (take n ord) (ord ! n))"

definition allocation_ok :: "proc \<Rightarrow> bool" where
  "allocation_ok p \<longleftrightarrow> (\<forall>i < NTHREAD. \<forall>j < LOCK_POOL_SIZE.
     0 \<le> tbl (p_mutex_allocation p) i j \<and> 0 \<le> tbl (p_sem_allocation p) i j)"

lemma allocation_ok_code [code]:
  "allocation_ok p = list_all (\<lambda>i. list_all (\<lambda>j.
     0 \<le> tbl (p_mutex_allocation p) i j \<and> 0 \<le> tbl (p_sem_allocation p) i j) [0..<LOCK_POOL_SIZE]) [0..<NTHREAD]"
  by (auto simp: allocation_ok_def list_all_iff)

section \<open>The loop follows an order\<close>

text \<open>\<open>detect_ok p ord d\<close>: the threads of \<open>ord\<close> were finished so far, in this order.\<close>

definition detect_ok :: "proc \<Rightarrow> nat list \<Rightarrow> detect \<Rightarrow> bool" where
  "detect_ok p ord d \<longleftrightarrow> distinct ord \<and> set ord \<subseteq> unfinished p \<and>
     (\<forall>n < length ord. can_finish p (take n ord) (ord ! n)) \<and>
     length (d_finish d) = NTHREAD \<and>
     (\<forall>i < NTHREAD. d_finish d ! i \<longleftrightarrow> i \<notin> unfinished p \<or> i \<in> set ord) \<and>
     (\<forall>j < LOCK_POOL_SIZE. d_mutex d ! j = free_mutex p ord j \<and> d_sem d ! j = free_sem p ord j)"

lemma request_fits_iff:
  "detect_ok p ord d \<Longrightarrow>
     request_fits (p_mutex_request p ! i) (d_mutex d) \<and> request_fits (p_sem_request p ! i) (d_sem d) \<longleftrightarrow>
     can_finish p ord i"
  by (auto simp: detect_ok_def request_fits_def can_finish_def list_all_iff tbl_def not_less)

lemma detect_ok_init: "detect_ok p [] (detect_init p)"
  by (auto simp: detect_ok_def detect_init_def finish_init_def work_mutex_init_def work_sem_init_def
      free_mutex_def free_sem_def unfinished_def)

lemma detect_thread_ok:
  assumes ok: "detect_ok p ord d" and i: "i < NTHREAD"
  shows "if i \<in> unfinished p \<and> i \<notin> set ord \<and> can_finish p ord i
    then detect_ok p (ord @ [i]) (detect_thread p i d) \<and> d_found (detect_thread p i d)
    else detect_thread p i d = d"
proof (cases "i \<in> unfinished p \<and> i \<notin> set ord \<and> can_finish p ord i")
  case True
  then have d': "detect_thread p i d = \<lparr>d_mutex = add_work (d_mutex d) (p_mutex_allocation p ! i),
      d_sem = add_work (d_sem d) (p_sem_allocation p ! i), d_finish = (d_finish d)[i := True], d_found = True\<rparr>"
    using request_fits_iff [OF ok, of i] ok i by (auto simp: detect_thread_def detect_ok_def)
  have "detect_ok p (ord @ [i]) (detect_thread p i d)"
    unfolding d' detect_ok_def
  proof (intro conjI)
    show "\<forall>n < length (ord @ [i]). can_finish p (take n (ord @ [i])) ((ord @ [i]) ! n)"
      using ok True by (auto simp: detect_ok_def nth_append less_Suc_eq)
  qed (use ok True i in \<open>auto simp: detect_ok_def nth_list_update add_work_def free_mutex_def free_sem_def tbl_def\<close>)
  with True show ?thesis by (simp add: d')
next
  case False
  then have "detect_thread p i d = d"
    using request_fits_iff [OF ok, of i] ok i by (auto simp: detect_thread_def detect_ok_def)
  then show ?thesis by (simp only: False if_False)
qed

lemma detect_fold_ok:
  assumes ok: "detect_ok p ord d" and nf: "\<not> d_found d" and n: "n \<le> NTHREAD"
  shows "\<exists>ord'. detect_ok p (ord @ ord') (fold (detect_thread p) [0..<n] d) \<and>
    (d_found (fold (detect_thread p) [0..<n] d) \<longleftrightarrow> ord' \<noteq> []) \<and>
    (ord' = [] \<longrightarrow> (\<forall>i < n. i \<in> unfinished p \<longrightarrow> i \<notin> set ord \<longrightarrow> \<not> can_finish p ord i))"
  using n
proof (induction n)
  case 0
  then show ?case using ok nf by (intro exI [of _ "[]"]) simp
next
  case (Suc n)
  let ?d = "fold (detect_thread p) [0..<n] d"
  from Suc obtain ord' where o: "detect_ok p (ord @ ord') ?d" "d_found ?d \<longleftrightarrow> ord' \<noteq> []"
    "ord' = [] \<longrightarrow> (\<forall>i < n. i \<in> unfinished p \<longrightarrow> i \<notin> set ord \<longrightarrow> \<not> can_finish p ord i)"
    by auto
  have step: "fold (detect_thread p) [0..<Suc n] d = detect_thread p n ?d" by simp
  have n: "n < NTHREAD" using Suc.prems by simp
  note t = detect_thread_ok [OF o(1) n]
  show ?case
  proof (cases "n \<in> unfinished p \<and> n \<notin> set (ord @ ord') \<and> can_finish p (ord @ ord') n")
    case True
    with t show ?thesis unfolding step by (intro exI [of _ "ord' @ [n]"]) simp
  next
    case False
    with t have "detect_thread p n ?d = ?d" by (simp only: if_False)
    with False o show ?thesis unfolding step by (intro exI [of _ ord']) (auto simp: less_Suc_eq)
  qed
qed

lemma detect_pass_ok:
  assumes ok: "detect_ok p ord d"
  shows "\<exists>ord'. detect_ok p (ord @ ord') (detect_pass p d) \<and>
    (d_found (detect_pass p d) \<longleftrightarrow> ord' \<noteq> []) \<and>
    (ord' = [] \<longrightarrow> (\<forall>i \<in> unfinished p - set ord. \<not> can_finish p ord i))"
proof -
  have "detect_ok p ord (d\<lparr>d_found := False\<rparr>)" using ok by (simp add: detect_ok_def)
  from detect_fold_ok [OF this, of NTHREAD]
  obtain ord' where "detect_ok p (ord @ ord') (detect_pass p d)"
    "d_found (detect_pass p d) \<longleftrightarrow> ord' \<noteq> []"
    "ord' = [] \<longrightarrow> (\<forall>i < NTHREAD. i \<in> unfinished p \<longrightarrow> i \<notin> set ord \<longrightarrow> \<not> can_finish p ord i)"
    by (auto simp: detect_pass_def)
  then show ?thesis by (intro exI [of _ ord']) (auto simp: unfinished_def)
qed

lemma finite_unfinished: "finite (unfinished p)" "card (unfinished p) \<le> NTHREAD"
proof -
  have "unfinished p \<subseteq> {..<NTHREAD}" by (auto simp: unfinished_def)
  then show "finite (unfinished p)" "card (unfinished p) \<le> NTHREAD"
    using finite_subset card_mono [of "{..<NTHREAD}" "unfinished p"] by auto
qed

lemma detect_ok_length: "detect_ok p ord d \<Longrightarrow> length ord \<le> card (unfinished p)"
  by (metis detect_ok_def card_mono distinct_card finite_unfinished(1))

text \<open>The loop ends, because every pass but the last finishes a thread.\<close>

lemma detect_loop_ok:
  assumes "detect_ok p ord d"
  shows "\<exists>ord' d'. detect_loop p d = Some d' \<and> detect_ok p ord' d' \<and>
    (\<forall>i \<in> unfinished p - set ord'. \<not> can_finish p ord' i)"
  using assms
proof (induction "card (unfinished p) - length ord" arbitrary: ord d rule: less_induct)
  case less
  from detect_pass_ok [OF less.prems] obtain ord' where
    o: "detect_ok p (ord @ ord') (detect_pass p d)" "d_found (detect_pass p d) \<longleftrightarrow> ord' \<noteq> []"
      "ord' = [] \<longrightarrow> (\<forall>i \<in> unfinished p - set ord. \<not> can_finish p ord i)" by blast
  show ?case
  proof (cases "ord' = []")
    case True
    with o have "detect_loop p d = Some (detect_pass p d)"
      by (subst detect_loop.simps) (simp add: Let_def)
    with o True show ?thesis by (intro exI [of _ ord] exI [of _ "detect_pass p d"]) simp
  next
    case False
    have "length (ord @ ord') \<le> card (unfinished p)" by (rule detect_ok_length [OF o(1)])
    with False have "card (unfinished p) - length (ord @ ord') < card (unfinished p) - length ord"
      by (cases ord') simp_all
    from less.hyps [OF this o(1)] show ?thesis using False o(2)
      by (subst detect_loop.simps) (simp add: Let_def)
  qed
qed

section \<open>A stuck set of threads has no completion order\<close>

lemma free_mono:
  assumes ok: "allocation_ok p" and sub: "set a \<subseteq> set b" "distinct a" "distinct b"
    "set b \<subseteq> unfinished p" and j: "j < LOCK_POOL_SIZE"
  shows "free_mutex p a j \<le> free_mutex p b j" "free_sem p a j \<le> free_sem p b j"
proof -
  have "sum f (set a) \<le> sum f (set b)" if "\<And>i. i \<in> set b \<Longrightarrow> 0 \<le> f i" for f :: "nat \<Rightarrow> int"
    using sub that by (intro sum_mono2) auto
  then show "free_mutex p a j \<le> free_mutex p b j" "free_sem p a j \<le> free_sem p b j"
    using ok sub j by (auto simp: free_mutex_def free_sem_def sum_list_distinct_conv_sum_set
        allocation_ok_def unfinished_def subset_iff)
qed

lemma can_finish_mono:
  assumes "allocation_ok p" "set a \<subseteq> set b" "distinct a" "distinct b" "set b \<subseteq> unfinished p"
    "can_finish p a i"
  shows "can_finish p b i"
  unfolding can_finish_def
proof (intro allI impI)
  fix j
  assume j: "j < LOCK_POOL_SIZE"
  have "tbl (p_mutex_request p) i j \<le> free_mutex p a j" "tbl (p_sem_request p) i j \<le> free_sem p a j"
    using assms(6) j by (simp_all add: can_finish_def)
  then show "tbl (p_mutex_request p) i j \<le> free_mutex p b j \<and> tbl (p_sem_request p) i j \<le> free_sem p b j"
    using free_mono [OF assms(1-5) j] by linarith
qed

lemma first_missing:
  assumes "\<not> set xs \<subseteq> S"
  shows "\<exists>n < length xs. xs ! n \<notin> S \<and> set (take n xs) \<subseteq> S"
  using assms
proof (induction xs rule: rev_induct)
  case Nil
  then show ?case by simp
next
  case (snoc x xs)
  show ?case
  proof (cases "set xs \<subseteq> S")
    case True
    with snoc.prems show ?thesis by (intro exI [of _ "length xs"]) auto
  next
    case False
    with snoc.IH obtain n where "n < length xs" "xs ! n \<notin> S" "set (take n xs) \<subseteq> S" by blast
    then show ?thesis by (intro exI [of _ n]) (simp add: nth_append)
  qed
qed

lemma stuck_no_order:
  assumes al: "allocation_ok p" and ok: "detect_ok p fin d"
    and stuck: "\<forall>i \<in> unfinished p - set fin. \<not> can_finish p fin i"
    and ord: "completion_order p ord"
  shows "set fin = unfinished p"
proof (rule ccontr)
  assume ne: "set fin \<noteq> unfinished p"
  have fin: "distinct fin" "set fin \<subseteq> unfinished p" using ok by (simp_all add: detect_ok_def)
  have o: "distinct ord" "set ord = unfinished p" "\<And>n. n < length ord \<Longrightarrow> can_finish p (take n ord) (ord ! n)"
    using ord by (simp_all add: completion_order_def)
  have "\<not> set ord \<subseteq> set fin" using ne fin o(2) by blast
  from first_missing [OF this] obtain n where
    n: "n < length ord" "ord ! n \<notin> set fin" "set (take n ord) \<subseteq> set fin" by blast
  have "distinct (take n ord)" using o(1) by (rule distinct_take)
  from can_finish_mono [OF al n(3) this fin o(3) [OF n(1)]] have "can_finish p fin (ord ! n)" .
  moreover have "ord ! n \<in> unfinished p - set fin" using n nth_mem [OF n(1)] o(2) by blast
  ultimately show False using stuck by blast
qed

lemma deadlock_detect_result:
  assumes "allocation_ok p"
  shows "deadlock_detect p = Some (if \<exists>ord. completion_order p ord then 0 else 1)"
proof -
  from detect_loop_ok [OF detect_ok_init [of p]] obtain ord d where
    d: "detect_loop p (detect_init p) = Some d" and ok: "detect_ok p ord d"
    and stuck: "\<forall>i \<in> unfinished p - set ord. \<not> can_finish p ord i" by blast
  have "list_all (\<lambda>i. d_finish d ! i) [0..<NTHREAD] \<longleftrightarrow> set ord = unfinished p"
    using ok by (auto simp: detect_ok_def list_all_iff unfinished_def)
  moreover have "set ord = unfinished p \<Longrightarrow> completion_order p ord"
    using ok by (simp add: detect_ok_def completion_order_def)
  ultimately show ?thesis
    using stuck_no_order [OF assms ok stuck] d by (auto simp: deadlock_detect_def)
qed

section \<open>Properties\<close>

text \<open>
  Property C4: \<^verbatim>\<open>deadlock_detect\<close> always returns, and it returns 0 exactly when the unfinished
  threads of the process have an order in which each can get what it requests from the free
  locks and what the earlier ones release, and 1 otherwise.
\<close>

lemma deadlock_detect_decides:
  assumes "allocation_ok p"
  shows "deadlock_detect p = Some (if \<exists>ord. completion_order p ord then 0 else 1)"
  using assms by (rule deadlock_detect_result)

lemma allocation_ok_zero: "p_mutex_allocation p = zero_table \<Longrightarrow> p_sem_allocation p = zero_table \<Longrightarrow> allocation_ok p"
  by (simp add: allocation_ok_def tbl_def zero_table_def)

lemma deadlock_detect_decides_witness:
  "deadlock_detect zero_proc = Some (if \<exists>ord. completion_order zero_proc ord then 0 else 1)"
  by (rule deadlock_detect_decides) (simp add: allocation_ok_zero zero_proc_def)

end
