(* ===== verification/MutexSafety.thy ===== *)
theory MutexSafety
  imports Sync
begin

text \<open>
  Mutual exclusion. A machine made of the kernel's own \<^verbatim>\<open>mutex_lock\<close>, \<^verbatim>\<open>mutex_unlock\<close> and
  \<^verbatim>\<open>yield\<close> with the scheduler inside them: the threads of a process contend for one blocking
  mutex, and a thread leaves the critical section only by unlocking it. The state adds to the
  kernel the resume point of every thread that stopped inside \<^verbatim>\<open>mutex_lock\<close> and the set of
  threads whose \<^verbatim>\<open>mutex_lock\<close> has returned.
\<close>

record 'a mx_state =
  mx_kern :: "'a kern_scheme"
  mx_pend :: "task \<Rightarrow> resume option"
  mx_in :: "task set"

inductive mx_step :: "nat \<Rightarrow> nat \<Rightarrow> 'a mx_state \<Rightarrow> 'a mx_state \<Rightarrow> bool" for P i where
  step_lock: "current (mx_kern s) = Some t \<Longrightarrow> fst t = P \<Longrightarrow> mx_pend s t = None \<Longrightarrow> t \<notin> mx_in s \<Longrightarrow>
    mutex_lock i (mx_kern s) = Some (r, k) \<Longrightarrow>
    mx_step P i s \<lparr>mx_kern = k, mx_pend = (mx_pend s)(t := r),
      mx_in = (if r = None then insert t (mx_in s) else mx_in s)\<rparr>"
| step_resume: "current (mx_kern s) = Some t \<Longrightarrow> mx_pend s t = Some r \<Longrightarrow>
    resume_sync r (mx_kern s) = Some (r', k) \<Longrightarrow>
    mx_step P i s \<lparr>mx_kern = k, mx_pend = (mx_pend s)(t := r'),
      mx_in = (if r' = None then insert t (mx_in s) else mx_in s)\<rparr>"
| step_unlock: "current (mx_kern s) = Some t \<Longrightarrow> t \<in> mx_in s \<Longrightarrow>
    mutex_unlock i (mx_kern s) = Some k \<Longrightarrow>
    mx_step P i s \<lparr>mx_kern = k, mx_pend = mx_pend s, mx_in = mx_in s - {t}\<rparr>"
| step_yield: "current (mx_kern s) = Some t \<Longrightarrow> mx_pend s t = None \<Longrightarrow>
    yield (mx_kern s) = Some k \<Longrightarrow>
    mx_step P i s \<lparr>mx_kern = k, mx_pend = mx_pend s, mx_in = mx_in s\<rparr>"

inductive_cases mx_stepE: "mx_step P i s t"

text \<open>The kernel tables a process with threads has after \<^verbatim>\<open>allocthread\<close>.\<close>

definition threads_ok :: "'a kern_scheme \<Rightarrow> nat \<Rightarrow> nat \<Rightarrow> bool" where
  "threads_ok k P i \<longleftrightarrow> P < length (pool k) \<and> i < length (p_mutex_pool (the_proc k P)) \<and>
     (\<forall>t. task_ok k t \<longrightarrow> tid_of k t = int (snd t) \<and> snd t < NTHREAD) \<and> ready_ok k"

definition running_ok :: "'a kern_scheme \<Rightarrow> bool" where
  "running_ok k \<longleftrightarrow> (\<exists>c. current k = Some c \<and> task_ok k c \<and> th_state (the_thread k c) = RUNNING)"

definition mx_init :: "nat \<Rightarrow> nat \<Rightarrow> 'a mx_state \<Rightarrow> bool" where
  "mx_init P i s \<longleftrightarrow> threads_ok (mx_kern s) P i \<and> running_ok (mx_kern s) \<and>
     m_blocking (the_mutex (mx_kern s) P i) \<and> \<not> m_locked (the_mutex (mx_kern s) P i) \<and>
     queue_wf (m_wait (the_mutex (mx_kern s) P i)) \<and> queue_seq (m_wait (the_mutex (mx_kern s) P i)) = [] \<and>
     mx_pend s = (\<lambda>_. None) \<and> mx_in s = {}"

text \<open>
  The invariant: the wait queue lists, without repetition, exactly the threads asleep in
  \<^verbatim>\<open>mutex_lock\<close>; a thread that is neither asleep nor outside owns the mutex, and there is
  exactly one such thread when \<^verbatim>\<open>locked\<close> is set and none, with nobody waiting, otherwise.
\<close>

definition mx_owners :: "task list \<Rightarrow> 'a mx_state \<Rightarrow> task set" where
  "mx_owners ws s = mx_in s \<union> {t. mx_pend s t \<noteq> None \<and> t \<notin> set ws}"

definition task_code :: "task \<Rightarrow> int" where
  "task_code t = int (fst t) * int NTHREAD + int (snd t)"

definition mx_waiting :: "nat \<Rightarrow> nat \<Rightarrow> 'a mx_state \<Rightarrow> task list \<Rightarrow> bool" where
  "mx_waiting P i s ws \<longleftrightarrow> distinct ws \<and>
     queue_seq (m_wait (the_mutex (mx_kern s) P i)) = map task_code ws \<and>
     (\<forall>w \<in> set ws. fst w = P \<and> task_ok (mx_kern s) w \<and> mx_pend s w \<noteq> None \<and>
        th_state (the_thread (mx_kern s) w) = SLEEPING) \<and>
     (if m_locked (the_mutex (mx_kern s) P i) then \<exists>h. mx_owners ws s = {h}
      else mx_owners ws s = {} \<and> ws = [])"

definition mx_inv :: "nat \<Rightarrow> nat \<Rightarrow> 'a mx_state \<Rightarrow> bool" where
  "mx_inv P i s \<longleftrightarrow> threads_ok (mx_kern s) P i \<and> running_ok (mx_kern s) \<and>
     m_blocking (the_mutex (mx_kern s) P i) \<and> queue_wf (m_wait (the_mutex (mx_kern s) P i)) \<and>
     (\<forall>t r. mx_pend s t = Some r \<longrightarrow> r = Mutex_sleep t i \<and> fst t = P) \<and>
     (\<forall>t \<in> mx_in s. mx_pend s t = None \<and> fst t = P) \<and>
     (\<exists>ws. mx_waiting P i s ws)"

lemma task_code_id:
  "threads_ok k P i \<Longrightarrow> task_ok k t \<Longrightarrow> task_to_id k t = task_code t \<and> id_to_task (task_code t) = Some t"
  using id_to_task_to_id [of k "fst t" "snd t"] spec [of "\<lambda>t. task_ok k t \<longrightarrow> tid_of k t = int (snd t) \<and> snd t < NTHREAD" t]
  unfolding threads_ok_def task_to_id_def task_code_def tid_of_def by simp

lemma task_id_ok_code: "threads_ok k P i \<Longrightarrow> task_ok k t \<Longrightarrow> task_id_ok k (task_code t)"
  by (simp add: task_id_ok_def task_code_id)

section \<open>Sleeping threads and the mutex across a run of the scheduler\<close>

text \<open>\<open>thr_frame P i k k'\<close>: the thread identities and the sleeping threads stay.\<close>

definition thr_frame :: "nat \<Rightarrow> nat \<Rightarrow> 'a kern_scheme \<Rightarrow> 'a kern_scheme \<Rightarrow> bool" where
  "thr_frame P i k k' \<longleftrightarrow> (threads_ok k P i \<longrightarrow> threads_ok k' P i) \<and>
     (\<forall>t. task_ok k' t = task_ok k t) \<and>
     (\<forall>t. task_ok k t \<longrightarrow> th_state (the_thread k t) = SLEEPING \<longrightarrow> th_state (the_thread k' t) = SLEEPING)"

lemma thr_frame_refl: "thr_frame P i k k"
  by (simp add: thr_frame_def)

lemma thr_frame_trans: "thr_frame P i k k' \<Longrightarrow> thr_frame P i k' k'' \<Longrightarrow> thr_frame P i k k''"
  by (simp add: thr_frame_def)

lemma ready_ok_cong:
  "task_queue k' = task_queue k \<Longrightarrow> (\<And>t. task_ok k' t = task_ok k t) \<Longrightarrow> ready_ok k' = ready_ok k"
  by (simp add: ready_ok_def task_id_ok_def)

lemma task_ok_lock_update [simp]:
  "task_ok (map_mutex p i g k) t = task_ok k t"
  "task_ok (set_mutex_allocation p tid i v k) t = task_ok k t"
  "task_ok (set_mutex_request p tid i v k) t = task_ok k t"
  "task_ok (set_state u st k) t = task_ok k t"
  by (simp_all add: task_ok_def)

lemma tid_of_lock_update [simp]:
  "tid_of (map_mutex p i g k) t = tid_of k t"
  "tid_of (set_mutex_allocation p tid i v k) t = tid_of k t"
  "tid_of (set_mutex_request p tid i v k) t = tid_of k t"
  by (simp_all add: tid_of_def)

lemma tid_of_set_state [simp]: "task_ok k u \<Longrightarrow> tid_of (set_state u st k) t = tid_of k t"
  by (simp add: tid_of_def the_thread_set_state)

lemma thr_frame_lock_update:
  "thr_frame P i k (map_mutex p j g k)"
  "thr_frame P i k (set_mutex_allocation p tid j v k)"
  "thr_frame P i k (set_mutex_request p tid j v k)"
  by (simp_all add: thr_frame_def threads_ok_def ready_ok_def task_id_ok_def)

lemma thr_frame_set_state:
  assumes "task_ok k t" "th_state (the_thread k t) \<noteq> SLEEPING \<or> st = SLEEPING"
  shows "thr_frame P i k (set_state t st k)"
  using assms by (auto simp: thr_frame_def threads_ok_def the_thread_set_state ready_ok_def task_id_ok_def)

lemma set_update_queue: "set ((xs :: 'b list)[j := x]) \<subseteq> insert x (set xs)"
  by (rule set_update_subset_insert)

lemma add_task_result:
  assumes add: "add_task t k = Some k'"
  shows "\<exists>q. k' = k\<lparr>task_queue := q\<rparr> \<and> push_queue (task_queue k) (task_to_id k t) = Some q"
  using add by (auto simp: add_task_def split: bind_splits)

lemma thr_frame_add_task:
  assumes add: "add_task t k = Some k'" and t: "task_ok k t"
  shows "thr_frame P i k k'"
proof -
  obtain q where k': "k' = k\<lparr>task_queue := q\<rparr>" and q: "push_queue (task_queue k) (task_to_id k t) = Some q"
    using add_task_result [OF add] by blast
  have data: "set (qdata q) \<subseteq> insert (task_to_id k t) (set (qdata (task_queue k)))"
    using q set_update_queue [of "qdata (task_queue k)" "qtail (task_queue k)" "task_to_id k t"]
    by (simp add: push_queue_def split: if_splits) auto
  have "threads_ok k' P i" if ok: "threads_ok k P i"
  proof -
    have wf: "queue_wf (task_queue k)" using ok by (simp add: threads_ok_def ready_ok_def)
    have "task_id_ok k (task_to_id k t)"
      using task_code_id [OF ok t] task_id_ok_code [OF ok t] by simp
    then have "ready_ok k'"
      using ok data push_queue_Some(1) [OF wf q] k' by (auto simp: threads_ok_def ready_ok_def task_id_ok_def)
    with ok k' show ?thesis by (simp add: threads_ok_def tid_of_def)
  qed
  with k' show ?thesis by (simp add: thr_frame_def)
qed

lemma sched_result_thread:
  assumes res: "sched_result k k'" and ok: "threads_ok k P i"
  shows "thr_frame P i k k' \<and> running_ok k' \<and> the_mutex k' p j = the_mutex k p j"
proof -
  obtain t k1 where f: "sched_frame k k1" and run: "th_state (the_thread k t) = RUNNABLE"
    and t: "task_ok k t" and k': "k' = (set_state t RUNNING k1)\<lparr>current := Some t\<rparr>"
    using res ok unfolding sched_result_def threads_ok_def by blast
  have t1: "task_ok k1 t" using t by (simp add: sched_frame_task_ok [OF f])
  have tk: "task_ok k' u = task_ok k u" for u
    using sched_frame_task_ok [OF f, of u] by (simp add: k' task_ok_def)
  have th: "the_thread k' u = (if u = t then (the_thread k t)\<lparr>th_state := RUNNING\<rparr> else the_thread k u)" for u
    using t1 by (simp add: k' the_thread_set_state sched_frame_thread [OF f])
  have mu: "p_mutex_pool (the_proc k' p) = p_mutex_pool (the_proc k p)" for p
  proof -
    have "p_mutex_pool (the_proc k' p) = p_mutex_pool (the_proc k1 p)"
      by (simp add: k' set_state_def map_thread_def
          proc_field_map_proc [where h = "p_mutex_pool"])
    also have "\<dots> = p_mutex_pool (the_proc k p)" by (rule sched_frame_proc [OF f, where p = p]) simp
    finally show ?thesis .
  qed
  have "ready_ok k1" using f ok by (simp add: sched_frame_def threads_ok_def)
  moreover have "ready_ok k' = ready_ok k1"
    by (rule ready_ok_cong) (simp_all add: tk sched_frame_task_ok [OF f], simp add: k')
  moreover have "length (pool k') = length (pool k)" using f by (simp add: k' sched_frame_def)
  ultimately have "threads_ok k' P i"
    using ok by (auto simp: threads_ok_def mu tk tid_of_def th)
  then have "thr_frame P i k k'" using run by (auto simp: thr_frame_def tk th)
  moreover have "running_ok k'" using t 
    unfolding running_ok_def by (intro exI [of _ t]) (simp add: th tk, simp add: k')
  ultimately show ?thesis by (simp add: the_mutex_def mu)
qed

lemma sched_result_of:
  "sched k = Some k' \<Longrightarrow> sched_result k k'"
  by (auto simp: sched_def split: option.splits if_splits intro: scheduler_result)

lemma yield_thread:
  assumes y: "yield k = Some k'" and c: "current k = Some c" "task_ok k c"
    "th_state (the_thread k c) = RUNNING" and ok: "threads_ok k P i"
  shows "thr_frame P i k k' \<and> running_ok k' \<and> the_mutex k' p j = the_mutex k p j"
proof -
  let ?k1 = "set_state c RUNNABLE k"
  obtain k2 where add: "add_task c ?k1 = Some k2" and s: "sched k2 = Some k'"
    using y c by (auto simp: yield_def split: bind_splits)
  have 1: "thr_frame P i k ?k1" using c by (intro thr_frame_set_state) auto
  have 2: "thr_frame P i ?k1 k2" using add c by (intro thr_frame_add_task) auto
  have k2: "threads_ok k2 P i" using 1 2 ok by (simp add: thr_frame_def)
  have "the_mutex k2 p j = the_mutex k p j"
    using add_task_result [OF add] by (auto simp: the_mutex_def [of "_\<lparr>task_queue := _\<rparr>"] the_mutex_def [symmetric])
  with sched_result_thread [OF sched_result_of [OF s] k2, of p j] thr_frame_trans [OF 1 2]
  show ?thesis by (auto intro: thr_frame_trans)
qed

section \<open>The invariant is kept\<close>

lemma the_mutex_set [simp]:
  "threads_ok k P i \<Longrightarrow> the_mutex (map_mutex P i f k) P i = f (the_mutex k P i)"
  by (simp add: the_mutex_map_mutex threads_ok_def)

lemma running_ok_cong:
  "current k' = current k \<Longrightarrow> (\<And>t. the_thread k' t = the_thread k t) \<Longrightarrow>
     (\<And>t. task_ok k' t = task_ok k t) \<Longrightarrow> running_ok k' = running_ok k"
  by (simp add: running_ok_def)

lemma mx_waiting_frame:
  assumes "mx_waiting P i s ws" "thr_frame P i (mx_kern s) k'"
    "the_mutex k' P i = the_mutex (mx_kern s) P i"
    "mx_owners ws s = mx_owners ws \<lparr>mx_kern = k', mx_pend = pend, mx_in = ins\<rparr>"
    "\<forall>w \<in> set ws. pend w \<noteq> None"
  shows "mx_waiting P i \<lparr>mx_kern = k', mx_pend = pend, mx_in = ins\<rparr> ws"
  using assms by (auto simp: mx_waiting_def thr_frame_def)

lemma mx_invE:
  assumes "mx_inv P i s" "current (mx_kern s) = Some t"
  obtains ws where "threads_ok (mx_kern s) P i" "task_ok (mx_kern s) t"
    "th_state (the_thread (mx_kern s) t) = RUNNING" "m_blocking (the_mutex (mx_kern s) P i)"
    "queue_wf (m_wait (the_mutex (mx_kern s) P i))"
    "\<And>t r. mx_pend s t = Some r \<Longrightarrow> r = Mutex_sleep t i \<and> fst t = P"
    "\<And>t. t \<in> mx_in s \<Longrightarrow> mx_pend s t = None \<and> fst t = P" "mx_waiting P i s ws" "t \<notin> set ws"
proof -
  from assms(1) obtain ws where w: "mx_waiting P i s ws" unfolding mx_inv_def by blast
  have t: "task_ok (mx_kern s) t \<and> th_state (the_thread (mx_kern s) t) = RUNNING"
    using assms by (simp add: mx_inv_def running_ok_def)
  with w have "t \<notin> set ws" by (auto simp: mx_waiting_def)
  with w t assms(1) show ?thesis by (intro that) (simp_all add: mx_inv_def)
qed

lemma mx_owner_unique:
  "mx_waiting P i s ws \<Longrightarrow> t \<in> mx_owners ws s \<Longrightarrow>
     m_locked (the_mutex (mx_kern s) P i) \<and> mx_owners ws s = {t}"
  by (cases "m_locked (the_mutex (mx_kern s) P i)") (auto simp: mx_waiting_def)

lemma mx_in_owner: "t \<in> mx_in s \<Longrightarrow> t \<in> mx_owners ws s"
  by (simp add: mx_owners_def)

lemma mx_inv_yield:
  assumes inv: "mx_inv P i s" and c: "current (mx_kern s) = Some t" and y: "yield (mx_kern s) = Some k"
  shows "mx_inv P i \<lparr>mx_kern = k, mx_pend = mx_pend s, mx_in = mx_in s\<rparr>"
proof -
  obtain ws where s: "threads_ok (mx_kern s) P i" "task_ok (mx_kern s) t"
    "th_state (the_thread (mx_kern s) t) = RUNNING" "mx_waiting P i s ws" "t \<notin> set ws"
    using mx_invE [OF inv c] by metis
  note fr = yield_thread [OF y c s(2,3,1), of P i]
  have "mx_waiting P i \<lparr>mx_kern = k, mx_pend = mx_pend s, mx_in = mx_in s\<rparr> ws"
    using fr s(4) by (intro mx_waiting_frame) (auto simp: mx_owners_def mx_waiting_def)
  with fr inv show ?thesis unfolding mx_inv_def thr_frame_def by auto
qed

lemma mx_inv_lock_free:
  assumes inv: "mx_inv P i s" and c: "current (mx_kern s) = Some t" and P: "fst t = P"
    and free: "\<not> m_locked (the_mutex (mx_kern s) P i)"
    and l: "mutex_lock i (mx_kern s) = Some (r, k)"
  shows "mx_inv P i \<lparr>mx_kern = k, mx_pend = (mx_pend s)(t := r),
      mx_in = (if r = None then insert t (mx_in s) else mx_in s)\<rparr>"
proof -
  obtain ws where s: "threads_ok (mx_kern s) P i" "mx_waiting P i s ws" using mx_invE [OF inv c] by metis
  let ?k = "set_mutex_allocation P (tid_of (mx_kern s) t) i 1 (map_mutex P i (\<lambda>m. m\<lparr>m_locked := True\<rparr>) (mx_kern s))"
  have k: "k = ?k" "r = None" using l c free P by (auto simp: mutex_lock_def)
  have fr: "thr_frame P i (mx_kern s) ?k" by (intro thr_frame_trans [OF _ thr_frame_lock_update(2)] thr_frame_lock_update)
  have mu: "the_mutex ?k P i = (the_mutex (mx_kern s) P i)\<lparr>m_locked := True\<rparr>" using s by simp
  have ws: "ws = []" and own: "mx_owners [] s = {}" using s free by (auto simp: mx_waiting_def)
  have pend: "mx_pend s u = None" "mx_in s = {}" for u using own by (auto simp: mx_owners_def)
  have "mx_waiting P i \<lparr>mx_kern = ?k, mx_pend = (mx_pend s)(t := None), mx_in = insert t (mx_in s)\<rparr> []"
    using s ws pend unfolding mx_waiting_def mx_owners_def by (auto simp: mu)
  moreover have "running_ok ?k = running_ok (mx_kern s)" by (rule running_ok_cong) simp_all
  ultimately show ?thesis using inv fr P pend unfolding mx_inv_def thr_frame_def k by (auto simp: mu)
qed

lemma mx_inv_lock_wait:
  assumes inv: "mx_inv P i s" and c: "current (mx_kern s) = Some t" and P: "fst t = P"
    and out: "mx_pend s t = None" "t \<notin> mx_in s"
    and taken: "m_locked (the_mutex (mx_kern s) P i)"
    and l: "mutex_lock i (mx_kern s) = Some (r, k)"
  shows "mx_inv P i \<lparr>mx_kern = k, mx_pend = (mx_pend s)(t := r),
      mx_in = (if r = None then insert t (mx_in s) else mx_in s)\<rparr>"
proof -
  let ?k = "mx_kern s" and ?m = "the_mutex (mx_kern s) P i"
  obtain ws where s: "threads_ok ?k P i" "task_ok ?k t" "th_state (the_thread ?k t) = RUNNING"
    "m_blocking ?m" "queue_wf (m_wait ?m)" "mx_waiting P i s ws" "t \<notin> set ws"
    using mx_invE [OF inv c] by metis
  obtain q where q: "push_queue (m_wait ?m) (task_to_id ?k t) = Some q"
    and sch: "sched (set_mutex_request P (tid_of ?k t) i 1
       (set_state t SLEEPING (map_mutex P i (\<lambda>m. m\<lparr>m_wait := q\<rparr>) ?k))) = Some k"
    and r: "r = Some (Mutex_sleep t i)"
    using l c taken P s(4) by (auto simp: mutex_lock_def Let_def split: bind_splits)
  let ?k1 = "set_mutex_request P (tid_of ?k t) i 1 (set_state t SLEEPING (map_mutex P i (\<lambda>m. m\<lparr>m_wait := q\<rparr>) ?k))"
  have fr1: "thr_frame P i ?k ?k1"
    by (intro thr_frame_trans [OF _ thr_frame_lock_update(3)] thr_frame_trans [OF _ thr_frame_set_state]
        thr_frame_lock_update) (use s in auto)
  then have ok1: "threads_ok ?k1 P i" using s(1) by (simp add: thr_frame_def)
  note fr2 = sched_result_thread [OF sched_result_of [OF sch] ok1, of P i]
  have fr: "thr_frame P i ?k k" using fr1 fr2 by (auto intro: thr_frame_trans)
  have mu: "the_mutex k P i = ?m\<lparr>m_wait := q\<rparr>" using fr2 s(1) by simp
  have sleeps: "th_state (the_thread k t) = SLEEPING"
    using fr2 fr1 s(2) unfolding thr_frame_def by (simp add: the_thread_set_state)
  have seq: "queue_seq q = map task_code (ws @ [t])"
    using push_queue_seq [OF s(5) q] s(6) task_code_id [OF s(1,2)] by (simp add: mx_waiting_def)
  have own: "mx_owners (ws @ [t]) \<lparr>mx_kern = k, mx_pend = (mx_pend s)(t := r), mx_in = mx_in s\<rparr> = mx_owners ws s"
    using out by (auto simp: mx_owners_def)
  have "mx_waiting P i \<lparr>mx_kern = k, mx_pend = (mx_pend s)(t := r), mx_in = mx_in s\<rparr> (ws @ [t])"
    using s(2,6,7) seq own sleeps fr P r taken
    unfolding mx_waiting_def thr_frame_def by (auto simp: mu)
  moreover have "queue_wf q" by (rule push_queue_Some(1) [OF s(5) q])
  ultimately show ?thesis using inv fr fr2 P r out unfolding mx_inv_def thr_frame_def by (auto simp: mu)
qed

lemma mx_inv_resume:
  assumes inv: "mx_inv P i s" and c: "current (mx_kern s) = Some t"
    and p: "mx_pend s t = Some r" and l: "resume_sync r (mx_kern s) = Some (r', k)"
  shows "mx_inv P i \<lparr>mx_kern = k, mx_pend = (mx_pend s)(t := r'),
      mx_in = (if r' = None then insert t (mx_in s) else mx_in s)\<rparr>"
proof -
  let ?k = "mx_kern s"
  obtain ws where s: "threads_ok ?k P i" "mx_waiting P i s ws" "t \<notin> set ws"
    and r: "r = Mutex_sleep t i" and P: "fst t = P" using mx_invE [OF inv c] p by metis
  have k: "k = mutex_lock_finish t i ?k" "r' = None" using l r by auto
  have fr: "thr_frame P i ?k k" unfolding k mutex_lock_finish_def
    by (intro thr_frame_trans [OF _ thr_frame_lock_update(2)] thr_frame_lock_update)
  have mu: "the_mutex k P i = the_mutex ?k P i" by (simp add: k mutex_lock_finish_def)
  have "mx_waiting P i \<lparr>mx_kern = k, mx_pend = (mx_pend s)(t := None), mx_in = insert t (mx_in s)\<rparr> ws"
    using s p by (intro mx_waiting_frame [OF s(2) fr mu]) (auto simp: mx_owners_def mx_waiting_def)
  moreover have "running_ok k = running_ok ?k"
    by (rule running_ok_cong) (simp_all add: k mutex_lock_finish_def)
  ultimately show ?thesis using inv fr P k(2) unfolding mx_inv_def thr_frame_def by (auto simp: mu)
qed

lemma task_code_nonneg: "0 \<le> task_code t"
  by (simp add: task_code_def)

lemma pop_wait_queue:
  assumes wf: "queue_wf q" and seq: "queue_seq q = map task_code ws" and pop: "pop_queue q = (v, q')"
  shows "case ws of [] \<Rightarrow> v = - 1 \<and> q' = q
    | w # ws' \<Rightarrow> v = task_code w \<and> queue_wf q' \<and> queue_seq q' = map task_code ws'"
proof (cases "qempty q")
  case True
  then have "queue_seq q = []" by (simp add: queue_seq_def queue_len_def)
  with True seq pop show ?thesis by simp
next
  case False
  from pop_queue_nonempty [OF wf False pop] seq show ?thesis by (cases ws) auto
qed

lemma mx_inv_unlock:
  assumes inv: "mx_inv P i s" and c: "current (mx_kern s) = Some t" and t: "t \<in> mx_in s"
    and l: "mutex_unlock i (mx_kern s) = Some k"
  shows "mx_inv P i \<lparr>mx_kern = k, mx_pend = mx_pend s, mx_in = mx_in s - {t}\<rparr>"
proof -
  let ?k = "mx_kern s" and ?m = "the_mutex (mx_kern s) P i"
  obtain ws where s: "threads_ok ?k P i" "task_ok ?k t" "th_state (the_thread ?k t) = RUNNING"
    "m_blocking ?m" "queue_wf (m_wait ?m)" "mx_waiting P i s ws" "t \<notin> set ws" and P: "fst t = P"
    and pt: "mx_pend s t = None"
    using mx_invE [OF inv c] t by metis
  have locked: "m_locked ?m" and own: "mx_owners ws s = {t}"
    using mx_owner_unique [OF s(6) mx_in_owner [OF t]] by simp_all
  have mxin: "mx_in s = {t}" using t own mx_in_owner [of _ s ws] by blast
  have pend: "u \<in> set ws" if "mx_pend s u \<noteq> None" for u
  proof (rule ccontr)
    assume "u \<notin> set ws"
    with that have "u \<in> mx_owners ws s" by (simp add: mx_owners_def)
    with own that pt show False by simp
  qed
  obtain v q' where pop: "pop_queue (m_wait ?m) = (v, q')" by fastforce
  have seq: "queue_seq (m_wait ?m) = map task_code ws" using s(6) by (simp add: mx_waiting_def)
  note q' = pop_wait_queue [OF s(5) seq pop]
  show ?thesis
  proof (cases ws)
    case Nil
    with q' have v: "id_to_task v = None" "q' = m_wait ?m" by (simp_all add: id_to_task_def)
    have k: "k = set_mutex_allocation P (tid_of ?k t) i 0 (map_mutex P i (\<lambda>m. m\<lparr>m_locked := False\<rparr>)
        (map_mutex P i (\<lambda>m. m\<lparr>m_wait := q'\<rparr>) ?k))"
      using l c s(4) P pop v by (simp add: mutex_unlock_def Let_def)
    have fr: "thr_frame P i ?k k" unfolding k
      by (intro thr_frame_trans [OF _ thr_frame_lock_update(2)] thr_frame_trans [OF _ thr_frame_lock_update(1)] thr_frame_refl)
    have ok1: "threads_ok (map_mutex P i (\<lambda>m. m\<lparr>m_wait := q'\<rparr>) ?k) P i"
      using s(1) thr_frame_lock_update(1) [of P i ?k] by (simp add: thr_frame_def)
    have mu: "the_mutex k P i = ?m\<lparr>m_locked := False\<rparr>" using s(1) ok1 v by (simp add: k)
    have none: "mx_pend s u = None" for u using pend [of u] Nil by (cases "mx_pend s u") auto
    have "mx_waiting P i \<lparr>mx_kern = k, mx_pend = mx_pend s, mx_in = mx_in s - {t}\<rparr> []"
      using seq Nil mxin none by (simp add: mx_waiting_def mu mx_owners_def)
    moreover have "running_ok k = running_ok ?k" by (rule running_ok_cong) (simp_all add: k)
    ultimately show ?thesis using inv fr unfolding mx_inv_def thr_frame_def by (auto simp: mu)
  next
    case (Cons w ws')
    have w: "task_ok ?k w" "mx_pend s w \<noteq> None" "th_state (the_thread ?k w) = SLEEPING" "w \<noteq> t"
      and ws': "distinct ws'" "w \<notin> set ws'" "t \<notin> set ws'"
      using s(6,7) Cons by (auto simp: mx_waiting_def)
    have v: "id_to_task v = Some w" using q' Cons task_code_id [OF s(1) w(1)] by simp
    let ?k1 = "map_mutex P i (\<lambda>m. m\<lparr>m_wait := q'\<rparr>) ?k"
    obtain k2 where add: "add_task w (set_state w RUNNABLE ?k1) = Some k2"
      and k: "k = set_mutex_allocation P (tid_of k2 w) i 1 (set_mutex_request P (tid_of k2 w) i 0
         (set_mutex_allocation P (tid_of k2 t) i 0 k2))"
      using l c s(4) P pop v by (auto simp: mutex_unlock_def Let_def tid_of_def split: bind_splits)
    obtain tq where k2: "k2 = (set_state w RUNNABLE ?k1)\<lparr>task_queue := tq\<rparr>"
      using add_task_result [OF add] by blast
    have th: "the_thread k u = (if u = w then (the_thread ?k w)\<lparr>th_state := RUNNABLE\<rparr> else the_thread ?k u)" for u
      using w(1) by (simp add: k k2 the_thread_set_state)
    have tk: "task_ok k u = task_ok ?k u" for u by (simp add: k k2)
    have "threads_ok (set_state w RUNNABLE ?k1) P i"
      using s(1) w(1) by (auto simp: threads_ok_def ready_ok_def task_id_ok_def)
    then have "threads_ok k2 P i" using thr_frame_add_task [OF add] w(1) by (simp add: thr_frame_def)
    then have ok: "threads_ok k P i" unfolding k
      by (auto intro!: thr_frame_lock_update(2,3) [unfolded thr_frame_def, THEN conjunct1, rule_format])
    have mu: "the_mutex k P i = ?m\<lparr>m_wait := q'\<rparr>" using s(1) by (simp add: k k2)
    have own': "mx_owners ws' \<lparr>mx_kern = k, mx_pend = mx_pend s, mx_in = mx_in s - {t}\<rparr> = {w}"
      using mxin pend w(2) ws' Cons by (auto simp: mx_owners_def)
    have "mx_waiting P i \<lparr>mx_kern = k, mx_pend = mx_pend s, mx_in = mx_in s - {t}\<rparr> ws'"
      using s(6) Cons ws' q' own' locked unfolding mx_waiting_def by (auto simp: mu th tk)
    moreover have "current k = Some t" using c by (simp add: k k2)
    then have "running_ok k" using s(2,3) w(4) by (auto simp: running_ok_def tk th)
    ultimately show ?thesis using inv ok q' Cons unfolding mx_inv_def by (auto simp: mu)
  qed
qed

lemma mx_inv_step:
  assumes "mx_inv P i s" "mx_step P i s s'"
  shows "mx_inv P i s'"
  using assms(2)
proof (cases rule: mx_step.cases)
  case (step_lock t r k)
  then show ?thesis using mx_inv_lock_free [OF assms(1)] mx_inv_lock_wait [OF assms(1)]
    by (cases "m_locked (the_mutex (mx_kern s) P i)") blast+
next
  case (step_resume t r r' k)
  then show ?thesis using mx_inv_resume [OF assms(1)] by blast
next
  case (step_unlock t k)
  then show ?thesis using mx_inv_unlock [OF assms(1)] by blast
next
  case (step_yield t k)
  then show ?thesis using mx_inv_yield [OF assms(1)] by blast
qed

interpretation mx: safe_machine "mx_init P i" "mx_step P i" "mx_inv P i" for P i
proof unfold_locales
  fix s :: "'a mx_state"
  assume "mx_init P i s"
  then have "mx_inv P i s \<longleftrightarrow> mx_waiting P i s []" if "mx_waiting P i s []"
    using that by (auto simp: mx_init_def mx_inv_def)
  moreover have "mx_waiting P i s []" using \<open>mx_init P i s\<close> by (simp add: mx_init_def mx_waiting_def mx_owners_def)
  ultimately show "mx_inv P i s" by simp
qed (rule mx_inv_step)

definition demo_mx :: "unit mx_state" where
  "demo_mx = \<lparr>mx_kern = demo_kern, mx_pend = (\<lambda>_. None), mx_in = {}\<rparr>"

lemma demo_mutex_free: "\<not> m_locked (the_mutex demo_kern 0 0)"
  by (simp add: demo_kern_def the_proc_def the_mutex_def zero_proc_def LOCK_POOL_SIZE_def)

lemma demo_mx_init: "mx_init 0 0 demo_mx"
proof -
  have "running_ok demo_kern"
    by (simp add: running_ok_def demo_task_ok) (simp add: demo_kern_def the_thread_def)
  moreover have "threads_ok demo_kern 0 0"
  proof -
    have "ready_ok demo_kern"
    proof -
      have "x = 0 \<or> x = 1" if "x \<in> set (qdata (task_queue demo_kern))" for x
        using that set_update_subset_insert [of "replicate QUEUE_SIZE 0" 0 "1 :: int"]
        by (auto simp: demo_kern_def)
      then show ?thesis
        using demo_queue(2) by (fastforce simp: ready_ok_def task_id_ok_def demo_task_ok id_to_task_def NTHREAD_def)
    qed
    then show ?thesis
      by (auto simp: threads_ok_def demo_task_ok tid_of_def NTHREAD_def demo_tid)
        (auto simp: demo_kern_def the_proc_def zero_proc_def LOCK_POOL_SIZE_def)
  qed
  ultimately show ?thesis
    by (simp add: mx_init_def demo_mx_def)
      (simp add: demo_kern_def the_mutex_def the_proc_def zero_proc_def LOCK_POOL_SIZE_def init_queue_def
        queue_wf_def queue_seq_def queue_len_def WAIT_QUEUE_MAX_LENGTH_def)
qed

section \<open>Properties\<close>


end
