(* ===== verification/SemSpec.thy ===== *)
theory SemSpec
  imports Deadlock MutexSafety
begin

text \<open>
  What the semaphores of \<^verbatim>\<open>os/sync.c\<close> promise: a negative count is the number of waiting
  threads, \<^verbatim>\<open>semaphore_up\<close> wakes the one that waits longest and cannot hit its panic, and the
  refusals of the deadlock detection leave no trace. The last section shows what goes wrong in the
  book-keeping of \<^verbatim>\<open>sem_allocation\<close>.
\<close>

section \<open>The count and the wait queue\<close>

definition sem_ok :: "'a kern_scheme \<Rightarrow> nat \<Rightarrow> nat \<Rightarrow> bool" where
  "sem_ok k p i \<longleftrightarrow> p < length (pool k) \<and> i < length (p_semaphore_pool (the_proc k p)) \<and>
     queue_wf (s_wait (the_sem k p i)) \<and>
     int (queue_len (s_wait (the_sem k p i))) = max 0 (- s_count (the_sem k p i))"

lemma sem_pool_length [simp]:
  "length (p_semaphore_pool (the_proc (map_sem p i f k) q)) = length (p_semaphore_pool (the_proc k q))"
  "length (p_semaphore_pool (the_proc (add_sem_allocation p tid i v k) q)) = length (p_semaphore_pool (the_proc k q))"
  "length (p_semaphore_pool (the_proc (set_sem_request p tid i v k) q)) = length (p_semaphore_pool (the_proc k q))"
  "length (p_semaphore_pool (the_proc (set_state t st k) q)) = length (p_semaphore_pool (the_proc k q))"
  unfolding map_sem_def add_sem_allocation_def set_sem_request_def set_state_def map_thread_def
  by (simp_all add: proc_field_map_proc [where h = "\<lambda>pr. length (p_semaphore_pool pr)"])

lemma sem_ok_update [simp]:
  "sem_ok (add_sem_allocation p tid j v k) q i = sem_ok k q i"
  "sem_ok (set_sem_request p tid j v k) q i = sem_ok k q i"
  "sem_ok (set_state t st k) q i = sem_ok k q i"
  by (simp_all add: sem_ok_def)

lemma the_sem_queue [simp]: "the_sem (k\<lparr>task_queue := q\<rparr>) p i = the_sem k p i"
  by (simp add: the_sem_def)

lemma sem_ok_queue [simp]: "sem_ok (k\<lparr>task_queue := q\<rparr>) p i = sem_ok k p i"
  by (simp add: sem_ok_def)

lemma task_ok_sem_update [simp]:
  "task_ok (map_sem p i g k) t = task_ok k t"
  "task_ok (add_sem_allocation p tid i v k) t = task_ok k t"
  "task_ok (set_sem_request p tid i v k) t = task_ok k t"
  unfolding task_ok_def map_sem_def add_sem_allocation_def set_sem_request_def
  by (simp_all add: proc_field_map_proc [where h = "\<lambda>pr. length (p_threads pr)"])

lemma sched_result_field:
  assumes res: "sched_result k k'"
    and h: "\<And>pr v. h (pr\<lparr>p_stride := v\<rparr>) = h pr" "\<And>pr ts. h (pr\<lparr>p_threads := ts\<rparr>) = h pr"
  shows "h (the_proc k' p) = h (the_proc k p) \<and> length (pool k') = length (pool k)"
proof -
  obtain t k1 where f: "sched_frame k k1" and k': "k' = (set_state t RUNNING k1)\<lparr>current := Some t\<rparr>"
    using res unfolding sched_result_def by blast
  have "h (the_proc k' p) = h (the_proc k1 p)"
    using h(2) by (simp add: k' set_state_def map_thread_def proc_field_map_proc [where h = h])
  also have "\<dots> = h (the_proc k p)" by (rule sched_frame_proc [OF f, where p = p]) (simp add: h(1))
  finally show ?thesis using f by (simp add: k' sched_frame_def)
qed

lemma sem_ok_sched: "sched_result k k' \<Longrightarrow> sem_ok k' p i = sem_ok k p i \<and> the_sem k' p i = the_sem k p i"
  using sched_result_field [of k k' p_semaphore_pool p] by (simp add: sem_ok_def the_sem_def)

lemma map_sem_ok:
  assumes "sem_ok k p i" "queue_wf (s_wait (f (the_sem k p i)))"
    "int (queue_len (s_wait (f (the_sem k p i)))) = max 0 (- s_count (f (the_sem k p i)))"
  shows "sem_ok (map_sem p i f k) p i"
  using assms by (simp add: sem_ok_def the_sem_map_sem)

lemma semaphore_down_ok:
  assumes c: "current k = Some t" and ok: "sem_ok k (fst t) i"
    and d: "semaphore_down i k = Some (r, k')"
  shows "sem_ok k' (fst t) i \<and> s_count (the_sem k' (fst t) i) = s_count (the_sem k (fst t) i) - 1 \<and>
    (r = None \<longleftrightarrow> 0 < s_count (the_sem k (fst t) i))"
proof -
  let ?p = "fst t" and ?s = "the_sem k (fst t) i"
  let ?k1 = "map_sem ?p i (\<lambda>s. s\<lparr>s_count := s_count s - 1\<rparr>) k"
  have rng: "?p < length (pool k)" "i < length (p_semaphore_pool (the_proc k ?p))"
    using ok by (simp_all add: sem_ok_def)
  have s1: "the_sem ?k1 ?p i = ?s\<lparr>s_count := s_count ?s - 1\<rparr>" using rng by (simp add: the_sem_map_sem)
  show ?thesis
  proof (cases "0 < s_count ?s")
    case True
    with d c s1 have "r = None" "k' = add_sem_allocation ?p (tid_of ?k1 t) i 1 ?k1"
      by (auto simp: semaphore_down_def tid_of_def Let_def)
    moreover have "sem_ok ?k1 ?p i" using ok True by (intro map_sem_ok) (auto simp: sem_ok_def)
    ultimately show ?thesis using True s1 by simp
  next
    case False
    with d c s1 obtain q k2 where q: "push_queue (s_wait ?s) (task_to_id ?k1 t) = Some q"
      and k2: "k2 = set_sem_request ?p (tid_of k t) i 1 (set_state t SLEEPING (map_sem ?p i (\<lambda>s. s\<lparr>s_wait := q\<rparr>) ?k1))"
      and r: "r = Some (Sem_sleep t i)" and s: "sched k2 = Some k'"
      by (auto simp: semaphore_down_def tid_of_def Let_def split: bind_splits)
    have "the_sem k2 ?p i = ?s\<lparr>s_count := s_count ?s - 1, s_wait := q\<rparr>"
      using rng s1 by (simp add: k2 the_sem_map_sem)
    moreover have "sem_ok k2 ?p i"
    proof -
      have "queue_wf q" "queue_len q = Suc (queue_len (s_wait ?s))"
        using push_queue_Some [OF _ q] ok by (simp_all add: sem_ok_def)
      then show ?thesis using ok False rng s1
        by (simp add: k2 sem_ok_def the_sem_map_sem)
    qed
    ultimately show ?thesis using sem_ok_sched [OF sched_result_of [OF s], of ?p i] r False by simp
  qed
qed

section \<open>Waking a thread\<close>

text \<open>\<open>wakes k p i x xs w\<close>: \<open>w\<close> waits longest on semaphore \<open>i\<close>, \<open>xs\<close> are the others.\<close>

definition wakes :: "'a kern_scheme \<Rightarrow> nat \<Rightarrow> nat \<Rightarrow> int \<Rightarrow> int list \<Rightarrow> task \<Rightarrow> bool" where
  "wakes k p i x xs w \<longleftrightarrow> queue_seq (s_wait (the_sem k p i)) = x # xs \<and> id_to_task x = Some w \<and>
     task_ok k w \<and> task_to_id k w = x \<and> queue_wf (task_queue k) \<and> queue_room (task_queue k)"

lemma add_task_push:
  assumes "task_to_id k t = x" "queue_wf (task_queue k)" "queue_room (task_queue k)"
  shows "\<exists>tq. add_task t k = Some (k\<lparr>task_queue := tq\<rparr>) \<and> queue_wf tq \<and>
    queue_seq tq = queue_seq (task_queue k) @ [x]"
  using ring.push_ok [OF assms(2,3), of x] assms(1) by (auto simp: add_task_def)

lemma semaphore_up_result:
  assumes c: "current k = Some c" and ok: "sem_ok k (fst c) i" and w: "wakes k (fst c) i x xs w"
  shows "\<exists>q tq k0. semaphore_up i k = Some (add_sem_allocation (fst c) (tid_of k w) i 1
      (set_sem_request (fst c) (tid_of k w) i 0 ((set_state w RUNNABLE
        (map_sem (fst c) i (\<lambda>s. s\<lparr>s_wait := q\<rparr>)
          (map_sem (fst c) i (\<lambda>s. s\<lparr>s_count := s_count s + 1\<rparr>) k0)))\<lparr>task_queue := tq\<rparr>))) \<and>
    k0 = (if 0 < tbl (p_sem_allocation (the_proc k (fst c))) (nat (tid_of k c)) i
          then add_sem_allocation (fst c) (tid_of k c) i (- 1) k else k) \<and>
    queue_wf q \<and> queue_seq q = xs \<and> queue_wf tq \<and> queue_seq tq = queue_seq (task_queue k) @ [x]"
proof -
  let ?p = "fst c"
  let ?k0 = "if 0 < tbl (p_sem_allocation (the_proc k ?p)) (nat (tid_of k c)) i
          then add_sem_allocation ?p (tid_of k c) i (- 1) k else k"
  let ?k1 = "map_sem ?p i (\<lambda>s. s\<lparr>s_count := s_count s + 1\<rparr>) ?k0"
  let ?s = "the_sem k ?p i"
  have s0: "the_sem ?k0 ?p i = ?s" "length (pool ?k0) = length (pool k)"
    "length (p_semaphore_pool (the_proc ?k0 ?p)) = length (p_semaphore_pool (the_proc k ?p))"
    "\<And>u. the_thread ?k0 u = the_thread k u" "\<And>u. task_ok ?k0 u = task_ok k u" "task_queue ?k0 = task_queue k"
    "current ?k0 = current k"
    by simp_all
  have rng: "?p < length (pool ?k0)" "i < length (p_semaphore_pool (the_proc ?k0 ?p))"
    using ok s0(2,3) by (simp_all add: sem_ok_def)
  have s1: "the_sem ?k1 ?p i = ?s\<lparr>s_count := s_count ?s + 1\<rparr>" using rng s0(1) by (simp only: the_sem_map_sem)
  have ne: "\<not> qempty (s_wait ?s)" using w by (auto simp: wakes_def queue_seq_def queue_len_def)
  have swf: "queue_wf (s_wait ?s)" and len: "int (queue_len (s_wait ?s)) = max 0 (- s_count ?s)"
    using ok by (simp_all add: sem_ok_def)
  have "queue_len (s_wait ?s) \<noteq> 0" using queue_len_0 [OF swf] ne by blast
  then have "0 < int (queue_len (s_wait ?s))" by linarith
  with len have neg: "s_count ?s < 0" by (simp add: max_def split: if_splits)
  obtain v q where pop: "pop_queue (s_wait ?s) = (v, q)" by fastforce
  have q: "queue_wf q" "queue_seq q = xs" "v = x"
    using pop_queue_nonempty [OF _ ne pop] ok w by (simp_all add: sem_ok_def wakes_def)
  let ?k2 = "map_sem ?p i (\<lambda>s. s\<lparr>s_wait := q\<rparr>) ?k1"
  let ?k3 = "set_state w RUNNABLE ?k2"
  have wok: "task_ok ?k2 w" using w s0(5) by (simp add: wakes_def)
  have tid: "tid_of ?k3 w = tid_of k w" using wok s0(4) by (simp add: tid_of_def the_thread_set_state)
  have id: "task_to_id ?k3 w = x" using w tid by (simp add: wakes_def task_to_id_def tid_of_def)
  have tqk: "task_queue ?k3 = task_queue k" by simp
  have "queue_wf (task_queue ?k3)" "queue_room (task_queue ?k3)"
    unfolding tqk using w by (simp_all add: wakes_def)
  from add_task_push [OF id this] obtain tq where tq: "add_task w ?k3 = Some (?k3\<lparr>task_queue := tq\<rparr>)"
      "queue_wf tq" "queue_seq tq = queue_seq (task_queue k) @ [x]"
    unfolding tqk by (elim exE conjE)
  have tid': "tid_of (?k3\<lparr>task_queue := tq\<rparr>) w = tid_of k w" using tid by (simp add: tid_of_def)
  have up: "semaphore_up i k = (if s_count (the_sem ?k1 ?p i) \<le> 0 then
          let (index, q) = pop_queue (s_wait (the_sem ?k1 ?p i));
              k = map_sem ?p i (\<lambda>s. s\<lparr>s_wait := q\<rparr>) ?k1
          in case id_to_task index of
               None \<Rightarrow> None
             | Some t \<Rightarrow> do {
                 k \<leftarrow> add_task t (set_state t RUNNABLE k);
                 let k = set_sem_request ?p (tid_of k t) i 0 k;
                 Some (add_sem_allocation ?p (tid_of k t) i 1 k) }
        else Some ?k1)"
    unfolding semaphore_up_def using c by (simp add: Let_def)
  have idx: "id_to_task x = Some w" using w by (simp add: wakes_def)
  have "semaphore_up i k = Some (add_sem_allocation ?p (tid_of k w) i 1
      (set_sem_request ?p (tid_of k w) i 0 (?k3\<lparr>task_queue := tq\<rparr>)))"
    unfolding up s1 using neg pop q(3) idx tq(1) tid' by (simp add: Let_def tid_of_def)
  with q tq show ?thesis by blast
qed

section \<open>Refusals leave no trace\<close>

lemma tbl_set_back: "tbl_ok a \<Longrightarrow> i < NTHREAD \<Longrightarrow> tbl a i j = v \<Longrightarrow> tbl_set i j v (tbl_set i j w a) = a"
  by (auto simp: tbl_set_def upd_at_def tbl_def tbl_ok_def)

lemma set_mutex_request_back:
  assumes "p < length (pool k)" "tbl_ok (p_mutex_request (the_proc k p))" "nat tid < NTHREAD"
    "tbl (p_mutex_request (the_proc k p)) (nat tid) i = v"
  shows "set_mutex_request p tid i v (set_mutex_request p tid i w k) = k"
  using assms by (simp add: set_mutex_request_def map_proc_def upd_at_def the_proc_def tbl_set_back)

section \<open>The allocation table\<close>

lemma sem_allocation_add:
  "p < length (pool k) \<Longrightarrow> p_sem_allocation (the_proc (add_sem_allocation p tid i d k) p) =
     tbl_set (nat tid) i (tbl (p_sem_allocation (the_proc k p)) (nat tid) i + d) (p_sem_allocation (the_proc k p))"
  by (simp add: add_sem_allocation_def the_proc_map_proc)

lemma sem_allocation_same [simp]:
  "p_sem_allocation (the_proc (set_sem_request p tid i v k) q) = p_sem_allocation (the_proc k q)"
  "p_sem_allocation (the_proc (map_sem p i f k) q) = p_sem_allocation (the_proc k q)"
  "p_sem_allocation (the_proc (set_state t st k) q) = p_sem_allocation (the_proc k q)"
  by (simp_all add: set_sem_request_def map_sem_def set_state_def map_thread_def
      proc_field_map_proc [where h = p_sem_allocation])

lemma tbl_set_other: "i \<noteq> i' \<Longrightarrow> tbl (tbl_set i j v a) i' j' = tbl a i' j'"
  by (simp add: tbl_def tbl_set_def)

section \<open>Two small kernels\<close>

definition demo_sem :: kern where
  "demo_sem = map_proc 0 (\<lambda>p. p\<lparr>p_next_semaphore_id := 1,
     p_semaphore_pool := (p_semaphore_pool p)[0 := \<lparr>s_count = - 1,
       s_wait = \<lparr>qdata = (replicate 16 0)[0 := 2], qsize = 16, qfront = 0, qtail = 1, qempty = False\<rparr>\<rparr>]\<rparr>)
     (set_state (0, 2) SLEEPING demo_kern)"

lemma demo_sem_ok: "sem_ok demo_sem 0 0"
  by (simp add: sem_ok_def demo_sem_def the_sem_def the_proc_def set_state_def map_thread_def upd_at_def)
    (simp add: demo_kern_def zero_proc_def LOCK_POOL_SIZE_def queue_wf_def queue_len_def)

lemma demo_sem_fields: "current demo_sem = Some (0, 0)" "task_queue demo_sem = task_queue demo_kern"
  "s_count (the_sem demo_sem 0 0) = - 1" "queue_seq (s_wait (the_sem demo_sem 0 0)) = [2]"
  "p_sem_allocation (the_proc demo_sem 0) = zero_table"
  by (simp_all add: demo_sem_def demo_access the_sem_def the_proc_def set_state_def map_thread_def upd_at_def)
    (simp_all add: demo_kern_def zero_proc_def LOCK_POOL_SIZE_def queue_seq_def queue_len_def)

lemma demo_sem_tid: "i < 16 \<Longrightarrow> tid_of demo_sem (0, i) = int i"
  by (simp add: tid_of_def demo_sem_def the_thread_map_proc the_thread_set_state demo_task_ok demo_tid)

lemma demo_sem_wakes: "wakes demo_sem 0 0 2 [] (0, 2)"
proof -
  have "task_ok demo_sem (0, 2)"
    by (simp add: demo_sem_def task_ok_def the_proc_def set_state_def map_thread_def upd_at_def) (simp add: demo_kern_def)
  then show ?thesis
    using demo_sem_tid [of 2] by (simp add: wakes_def demo_sem_fields id_to_task_def NTHREAD_def task_to_id_def tid_of_def demo_queue)
qed

definition demo_dead :: kern where
  "demo_dead = map_proc 0 (\<lambda>p. p\<lparr>p_next_mutex_id := 2, p_deadlock_detect_enable := 1,
     p_mutex_pool := (p_mutex_pool p)[0 := (p_mutex_pool p ! 0)\<lparr>m_locked := True\<rparr>,
        1 := (p_mutex_pool p ! 0)\<lparr>m_locked := True\<rparr>],
     p_mutex_allocation := tbl_set 0 1 1 (tbl_set 1 0 1 zero_table),
     p_mutex_request := tbl_set 1 1 1 zero_table\<rparr>) demo_kern"

section \<open>Properties\<close>

text \<open>
  \<^verbatim>\<open>semaphore_down\<close> lowers the count by one and keeps a negative count equal to the
  number of waiting threads; it returns without a switch exactly when the count was positive.
\<close>

lemma semaphore_down_count:
  assumes c: "current k = Some t" and ok: "sem_ok k (fst t) i"
    and d: "semaphore_down i k = Some (r, k')"
  shows "sem_ok k' (fst t) i \<and> s_count (the_sem k' (fst t) i) = s_count (the_sem k (fst t) i) - 1 \<and>
    (r = None \<longleftrightarrow> 0 < s_count (the_sem k (fst t) i))"
  using assms by (rule semaphore_down_ok)

lemma semaphore_down_count_witness:
  "\<exists>r k'. semaphore_down 0 demo_sem = Some (r, k') \<and> sem_ok k' 0 0 \<and> s_count (the_sem k' 0 0) = - 2 \<and> r \<noteq> None"
proof -
  have "\<not> Option.is_none (semaphore_down 0 demo_sem)" by code_simp
  then obtain r k' where d: "semaphore_down 0 demo_sem = Some (r, k')"
    by (cases "semaphore_down 0 demo_sem") auto
  from semaphore_down_count [of demo_sem "(0, 0)" 0 r k'] d show ?thesis
    by (simp add: demo_sem_fields demo_sem_ok)
qed



text \<open>
  With the detection enabled, a \<^verbatim>\<open>mutex_lock\<close> system call that would leave the threads
  of the process without a completion order returns \<open>-0xDEAD\<close> and changes nothing.
\<close>

lemma sys_mutex_lock_refuses:
  assumes c: "current k = Some t" and p: "fst t < length (pool k)"
    and i: "0 \<le> mid" "nat mid < p_next_mutex_id (the_proc k (fst t))"
    and en: "p_deadlock_detect_enable (the_proc k (fst t)) \<noteq> 0"
    and tid: "nat (tid_of k t) < NTHREAD" and tb: "tbl_ok (p_mutex_request (the_proc k (fst t)))"
    and req: "tbl (p_mutex_request (the_proc k (fst t))) (nat (tid_of k t)) (nat mid) = 0"
    and al: "allocation_ok (the_proc k (fst t))"
    and dead: "\<nexists>ord. completion_order (the_proc (set_mutex_request (fst t) (tid_of k t) (nat mid) 1 k) (fst t)) ord"
  shows "sys_mutex_lock mid k = Some (- 0xDEAD, None, k)"
proof -
  let ?k1 = "set_mutex_request (fst t) (tid_of k t) (nat mid) 1 k"
  have "allocation_ok (the_proc ?k1 (fst t))"
    using al p by (simp add: allocation_ok_def set_mutex_request_def the_proc_map_proc)
  then have "deadlock_detect (the_proc ?k1 (fst t)) = Some 1"
    using deadlock_detect_result [of "the_proc ?k1 (fst t)"] dead by simp
  then show ?thesis using c i en set_mutex_request_back [OF p tb tid req, of 1]
    by (simp add: sys_mutex_lock_def Let_def)
qed

lemma sys_mutex_lock_refuses_witness:
  "sys_mutex_lock 0 demo_dead = Some (- 0xDEAD, None, demo_dead)"
proof (rule sys_mutex_lock_refuses [where t = "(0, 0)"])
  have t: "tid_of demo_dead (0, 0) = 0"
    by (simp add: tid_of_def demo_dead_def the_thread_map_proc demo_tid)
  have al: "allocation_ok (the_proc (set_mutex_request 0 0 0 1 demo_dead) 0)" "allocation_ok (the_proc demo_dead 0)"
    by code_simp+
  have "deadlock_detect (the_proc (set_mutex_request 0 0 0 1 demo_dead) 0) = Some 1" by code_simp
  with deadlock_detect_result [OF al(1)]
  show "\<nexists>ord. completion_order (the_proc (set_mutex_request (fst (0, 0)) (tid_of demo_dead (0, 0)) (nat 0) 1 demo_dead) (fst (0, 0))) ord"
    by (auto simp: t split: if_splits)
  show "allocation_ok (the_proc demo_dead (fst (0, 0)))" using al by simp
  show "tbl_ok (p_mutex_request (the_proc demo_dead (fst (0, 0))))"
    by (simp add: demo_dead_def the_proc_map_proc demo_kern_def tbl_ok_set)
  show "tbl (p_mutex_request (the_proc demo_dead (fst (0, 0)))) (nat (tid_of demo_dead (0, 0))) (nat 0) = 0"
    unfolding t by code_simp
qed (simp_all add: demo_dead_def demo_access the_proc_map_proc NTHREAD_def tid_of_def the_thread_map_proc demo_tid)

text \<open>
  The book-keeping of a semaphore that passes from one thread to a waiting one. The
  waiting thread gets one unit, but \<^verbatim>\<open>semaphore_up\<close> and the tail of \<^verbatim>\<open>semaphore_down\<close> both
  count it: when the thread has returned, its entry in \<^verbatim>\<open>sem_allocation\<close> is larger by two.
\<close>

lemma semaphore_handover_counts_twice:
  assumes c: "current k = Some c" and ok: "sem_ok k (fst c) i" and w: "wakes k (fst c) i x xs w"
    and same: "fst w = fst c" "nat (tid_of k w) \<noteq> nat (tid_of k c)" "nat (tid_of k w) < NTHREAD"
    and i: "i < LOCK_POOL_SIZE" and tb: "tbl_ok (p_sem_allocation (the_proc k (fst c)))"
    and up: "semaphore_up i k = Some k'"
  shows "tbl (p_sem_allocation (the_proc (semaphore_down_finish w i k') (fst c))) (nat (tid_of k w)) i =
    tbl (p_sem_allocation (the_proc k (fst c))) (nat (tid_of k w)) i + 2"
proof -
  from semaphore_up_result [OF c ok w] up obtain q tq k0 where
    k': "k' = add_sem_allocation (fst c) (tid_of k w) i 1
      (set_sem_request (fst c) (tid_of k w) i 0 ((set_state w RUNNABLE
        (map_sem (fst c) i (\<lambda>s. s\<lparr>s_wait := q\<rparr>)
          (map_sem (fst c) i (\<lambda>s. s\<lparr>s_count := s_count s + 1\<rparr>) k0)))\<lparr>task_queue := tq\<rparr>))"
    and k0: "k0 = (if 0 < tbl (p_sem_allocation (the_proc k (fst c))) (nat (tid_of k c)) i
          then add_sem_allocation (fst c) (tid_of k c) i (- 1) k else k)" by auto
  have p: "fst c < length (pool k)" using ok by (simp add: sem_ok_def)
  have wk: "task_ok k0 w" using w by (simp add: k0 wakes_def)
  have t': "tid_of k' w = tid_of k w" using wk by (simp add: k' k0 tid_of_def the_thread_set_state)
  have al0: "tbl_ok (p_sem_allocation (the_proc k0 (fst c)))"
    "tbl (p_sem_allocation (the_proc k0 (fst c))) (nat (tid_of k w)) i =
       tbl (p_sem_allocation (the_proc k (fst c))) (nat (tid_of k w)) i" "fst c < length (pool k0)"
    using p tb same i by (simp_all add: k0 sem_allocation_add tbl_ok_set tbl_tbl_set tbl_set_other)
  show ?thesis
    using al0 same i unfolding semaphore_down_finish_def same(1) t'
    by (simp add: k' sem_allocation_add tbl_tbl_set tbl_ok_set tbl_ok_dims)
qed

lemma semaphore_handover_counts_twice_witness:
  "\<exists>k'. semaphore_up 0 demo_sem = Some k' \<and>
     tbl (p_sem_allocation (the_proc (semaphore_down_finish (0, 2) 0 k') 0)) 2 0 = 2"
proof -
  obtain k' where up: "semaphore_up 0 demo_sem = Some k'"
    using semaphore_up_result [of demo_sem "(0, 0)" 0 2 "[]" "(0, 2)"]
    by (auto simp: demo_sem_fields demo_sem_ok demo_sem_wakes)
  have "tbl zero_table 2 0 = 0" by (simp add: tbl_def zero_table_def NTHREAD_def LOCK_POOL_SIZE_def)
  with semaphore_handover_counts_twice [of demo_sem "(0, 0)" 0 2 "[]" "(0, 2)" k'] up show ?thesis
    by (simp add: demo_sem_fields demo_sem_ok demo_sem_wakes demo_sem_tid NTHREAD_def LOCK_POOL_SIZE_def)
qed

end
