(* ===== verification/SchedFair.thy ===== *)
theory SchedFair
  imports Sched
begin

text \<open>
  The stride scheduler starves nobody (\<^verbatim>\<open>yield\<close>, \<^verbatim>\<open>fetch_task\<close> and \<^verbatim>\<open>scheduler\<close> of
  \<^verbatim>\<open>os/proc.c\<close>). The threads that compete are the running one and the queued ones. As
  long as they give up the CPU by \<^verbatim>\<open>yield\<close>, as the timer interrupt makes them do, each of them runs
  after a number of rounds that its stride and the strides and priorities of the others bound.
\<close>

section \<open>Machines with a measure\<close>

text \<open>The contract: while the goal is not reached, each step brings it nearer by the measure.\<close>

primrec run_steps :: "('s \<Rightarrow> 's option) \<Rightarrow> nat \<Rightarrow> 's \<Rightarrow> 's option" where
  "run_steps f 0 s = Some s"
| "run_steps f (Suc n) s = f s \<bind> run_steps f n"

locale measured_progress =
  fixes step :: "'s \<Rightarrow> 's option"
    and inv :: "'s \<Rightarrow> bool"
    and goal :: "'s \<Rightarrow> bool"
    and meas :: "'s \<Rightarrow> nat"
  assumes progress: "inv s \<Longrightarrow> \<exists>t. step s = Some t \<and> (goal t \<or> inv t \<and> meas t < meas s)"
begin

lemma reaches_goal:
  "inv s \<Longrightarrow> \<exists>n t. 0 < n \<and> n \<le> Suc (meas s) \<and> run_steps step n s = Some t \<and> goal t"
proof (induction "meas s" arbitrary: s rule: less_induct)
  case less
  from progress [OF less.prems] obtain t where t: "step s = Some t" "goal t \<or> inv t \<and> meas t < meas s"
    by blast
  show ?case
  proof (cases "goal t")
    case True
    with t(1) show ?thesis by (intro exI [of _ 1] exI [of _ t]) simp
  next
    case False
    with t(2) less.hyps [of t] obtain n u where "n \<le> Suc (meas t)" "run_steps step n t = Some u" "goal u"
      by blast
    with t False show ?thesis by (intro exI [of _ "Suc n"] exI [of _ u]) auto
  qed
qed

end

section \<open>The competing threads\<close>

definition contenders :: "'a kern_scheme \<Rightarrow> int list" where
  "contenders k = (case current k of None \<Rightarrow> [] | Some t \<Rightarrow> [task_to_id k t]) @ queue_seq (task_queue k)"

definition proc_id :: "int \<Rightarrow> nat" where
  "proc_id x = nat x div NTHREAD"

definition pass_id :: "'a kern_scheme \<Rightarrow> int \<Rightarrow> u64" where
  "pass_id k x = BIG_STRIDE div p_priority (the_proc k (proc_id x))"

text \<open>A valid entry: it names a thread that carries the name, of a process of usual priority.\<close>

definition entry_ok :: "'a kern_scheme \<Rightarrow> int \<Rightarrow> bool" where
  "entry_ok k x \<longleftrightarrow> (case id_to_task x of None \<Rightarrow> False | Some t \<Rightarrow> task_ok k t \<and>
     task_to_id k t = x \<and> 0 < p_priority (the_proc k (fst t)) \<and> p_priority (the_proc k (fst t)) \<le> BIG_STRIDE)"

definition competing :: "'a kern_scheme \<Rightarrow> bool" where
  "competing k \<longleftrightarrow> (case current k of None \<Rightarrow> False | Some t \<Rightarrow> id_to_task (task_to_id k t) = Some t) \<and>
     queue_wf (task_queue k) \<and> Suc (queue_len (task_queue k)) < qsize (task_queue k) \<and>
     distinct (contenders k) \<and> (\<forall>x \<in> set (contenders k). entry_ok k x) \<and>
     (\<forall>x \<in> set (queue_seq (task_queue k)). runnable_id k x)"

text \<open>The turns that the others may get before \<open>y\<close>: what fits between their stride and that of \<open>y\<close>.\<close>

definition turns :: "int \<Rightarrow> 'a kern_scheme \<Rightarrow> int \<Rightarrow> nat" where
  "turns y k x = (if stride_id k x \<le> stride_id k y
     then (unat (stride_id k y) - unat (stride_id k x)) div unat (pass_id k x) + 1 else 0)"

definition turns_before :: "int \<Rightarrow> 'a kern_scheme \<Rightarrow> nat" where
  "turns_before y k = (\<Sum>x \<in> set (contenders k) - {y}. turns y k x)"

definition waiting :: "int \<Rightarrow> 'a kern_scheme \<Rightarrow> bool" where
  "waiting y k \<longleftrightarrow> competing k \<and> y \<in> set (contenders k) \<and> stride_id k y < 2 ^ 63 \<and>
     (\<forall>x \<in> set (contenders k) - {y}. proc_id x \<noteq> proc_id y)"

lemma id_to_task_Some: "id_to_task x = Some t \<Longrightarrow> fst t = proc_id x"
  by (auto simp: id_to_task_def proc_id_def split: if_splits)

lemma stride_id_entry: "entry_ok k x \<Longrightarrow> stride_id k x = p_stride (the_proc k (proc_id x))"
  by (auto simp: entry_ok_def stride_id_def id_to_task_Some split: option.splits)

lemma entry_task:
  assumes "entry_ok k x"
  obtains t where "id_to_task x = Some t" "task_ok k t" "task_to_id k t = x" "fst t = proc_id x"
    "0 < p_priority (the_proc k (proc_id x))" "p_priority (the_proc k (proc_id x)) \<le> BIG_STRIDE"
  using assms by (auto simp: entry_ok_def id_to_task_Some split: option.splits)

section \<open>What a switch leaves as it was\<close>

text \<open>\<open>same_table\<close>: threads keep their numbers and processes their sizes and priorities.\<close>

definition same_table :: "'a kern_scheme \<Rightarrow> 'a kern_scheme \<Rightarrow> bool" where
  "same_table k k' \<longleftrightarrow> length (pool k') = length (pool k) \<and>
     (\<forall>p. p_priority (the_proc k' p) = p_priority (the_proc k p) \<and>
       length (p_threads (the_proc k' p)) = length (p_threads (the_proc k p))) \<and>
     (\<forall>t. th_tid (the_thread k' t) = th_tid (the_thread k t))"

lemma same_table_refl [simp]: "same_table k k"
  by (simp add: same_table_def)

lemma same_table_trans: "same_table k k' \<Longrightarrow> same_table k' k'' \<Longrightarrow> same_table k k''"
  by (simp add: same_table_def)

lemma same_table_queue [simp]: "same_table k (k'\<lparr>task_queue := q\<rparr>) = same_table k k'"
  by (simp add: same_table_def)

lemma same_table_current [simp]: "same_table k (k'\<lparr>current := c\<rparr>) = same_table k k'"
  by (simp add: same_table_def)

lemma same_table_set_state: "task_ok k t \<Longrightarrow> same_table k (set_state t st k)"
  by (auto simp: same_table_def the_thread_set_state) (simp_all add: set_state_def the_proc_map_thread task_ok_def)

lemma same_table_charge: "p < length (pool k) \<Longrightarrow> same_table k (map_proc p charge k)"
  by (auto simp: same_table_def the_proc_map_proc charge_def the_thread_proc)

lemma same_table_entry:
  assumes "same_table k k'"
  shows "task_ok k' t = task_ok k t" "task_to_id k' t = task_to_id k t" "entry_ok k' x = entry_ok k x"
    "pass_id k' x = pass_id k x"
  using assms by (auto simp: same_table_def task_ok_def task_to_id_def entry_ok_def pass_id_def split: option.splits)

section \<open>One round\<close>

text \<open>What \<^verbatim>\<open>yield\<close> hands to the scheduler: the current thread is the last of the queue.\<close>

lemma yield_queues:
  assumes comp: "competing k"
  obtains c t k1 where "current k = Some t" "c = task_to_id k t" "id_to_task c = Some t" "task_ok k t"
    "contenders k = c # queue_seq (task_queue k)" "yield k = scheduler k1"
    "queue_wf (task_queue k1)" "queue_room (task_queue k1)" "qsize (task_queue k1) = qsize (task_queue k)"
    "queue_seq (task_queue k1) = queue_seq (task_queue k) @ [c]"
    "same_table k k1" "\<And>p. p_stride (the_proc k1 p) = p_stride (the_proc k p)"
    "\<And>u. th_state (the_thread k1 u) = (if u = t then RUNNABLE else th_state (the_thread k u))"
proof -
  let ?q = "task_queue k"
  from comp obtain t where t: "current k = Some t" "id_to_task (task_to_id k t) = Some t"
    by (auto simp: competing_def split: option.splits)
  let ?c = "task_to_id k t" and ?k0 = "set_state t RUNNABLE k"
  have cs: "contenders k = ?c # queue_seq ?q" using t by (simp add: contenders_def)
  then have "entry_ok k ?c" using comp by (simp add: competing_def)
  with t have ok: "task_ok k t" by (auto simp: entry_ok_def)
  have wf: "queue_wf ?q" "Suc (queue_len ?q) < qsize ?q" using comp by (simp_all add: competing_def)
  then have "push_queue ?q ?c \<noteq> None" by (simp add: push_queue_None_iff)
  then obtain q1 where q1: "push_queue ?q ?c = Some q1" by blast
  let ?k1 = "?k0\<lparr>task_queue := q1\<rparr>"
  have tab: "same_table k ?k0" by (rule same_table_set_state [OF ok])
  have "yield k = sched ?k1"
    using t(1) q1 by (simp add: yield_def add_task_def same_table_entry [OF tab])
  also have "\<dots> = scheduler ?k1"
    using t(1) ok by (simp add: sched_def the_thread_set_state)
  finally have y: "yield k = scheduler ?k1" .
  show thesis
  proof (rule that [OF t(1) refl t(2) ok cs y])
    show "queue_wf (task_queue ?k1)" "qsize (task_queue ?k1) = qsize ?q"
      using push_queue_Some [OF wf(1) q1] by simp_all
    show "queue_room (task_queue ?k1)" using push_queue_Some [OF wf(1) q1] wf(2) by (simp add: queue_room_def)
    show "queue_seq (task_queue ?k1) = queue_seq ?q @ [?c]" using push_queue_seq [OF wf(1) q1] by simp
    show "same_table k ?k1" using tab by simp
    show "p_stride (the_proc ?k1 p) = p_stride (the_proc k p)" for p
      using ok by (simp add: set_state_def the_proc_map_thread task_ok_def)
    show "th_state (the_thread ?k1 u) = (if u = t then RUNNABLE else th_state (the_thread k u))" for u
      using ok by (simp add: the_thread_set_state)
  qed
qed

lemma set_take_drop: "j < length xs \<Longrightarrow> set xs = insert (xs ! j) (set (take j xs @ drop (Suc j) xs))"
  by (subst id_take_nth_drop [of j xs]) auto

lemma distinct_take_drop:
  assumes "j < length xs" "distinct xs"
  shows "distinct (xs ! j # take j xs @ drop (Suc j) xs)"
proof -
  have "distinct (take j xs @ xs ! j # drop (Suc j) xs)"
    using assms by (simp flip: id_take_nth_drop)
  then show ?thesis by auto
qed

lemma yield_round:
  assumes comp: "competing k" and y: "y \<in> set (contenders k)" "stride_id k y \<noteq> - 1"
  obtains k' x where "yield k = Some k'" "competing k'" "set (contenders k') = set (contenders k)"
    "x \<in> set (contenders k)" "current k' = id_to_task x"
    "\<And>z. z \<in> set (contenders k) \<Longrightarrow> stride_id k x \<le> stride_id k z"
    "\<And>z. z \<in> set (contenders k) \<Longrightarrow>
       stride_id k' z = stride_id k z + (if proc_id z = proc_id x then pass_id k x else 0)"
    "same_table k k'"
proof -
  from yield_queues [OF comp] obtain c t k1 where c: "c = task_to_id k t" "id_to_task c = Some t"
    and tk: "task_ok k t" and cs: "contenders k = c # queue_seq (task_queue k)" and yk: "yield k = scheduler k1"
    and wf1: "queue_wf (task_queue k1)" "queue_room (task_queue k1)"
    and sz1: "qsize (task_queue k1) = qsize (task_queue k)"
    and q1: "queue_seq (task_queue k1) = queue_seq (task_queue k) @ [c]"
    and tab1: "same_table k k1" and st1: "\<And>p. p_stride (the_proc k1 p) = p_stride (the_proc k p)"
    and th1: "\<And>u. th_state (the_thread k1 u) = (if u = t then RUNNABLE else th_state (the_thread k u))"
    by metis
  let ?ys = "queue_seq (task_queue k1)"
  have set1: "set ?ys = set (contenders k)" by (auto simp: q1 cs)
  have ok: "entry_ok k z" if "z \<in> set (contenders k)" for z using comp that by (simp add: competing_def)
  have ok1: "entry_ok k1 z" if "z \<in> set ?ys" for z
    using ok [of z] that set1 same_table_entry(3) [OF tab1] by simp
  have run1: "runnable_id k1 z" if z: "z \<in> set ?ys" for z
  proof -
    from z have "z = c \<or> z \<in> set (queue_seq (task_queue k))" by (auto simp: q1)
    then show ?thesis
    proof
      assume "z = c" with c th1 show ?thesis by (simp add: runnable_id_def)
    next
      assume "z \<in> set (queue_seq (task_queue k))"
      then have "runnable_id k z" using comp by (simp add: competing_def)
      with th1 show ?thesis by (auto simp: runnable_id_def split: option.splits)
    qed
  qed
  have str1: "stride_id k1 z = stride_id k z" if "z \<in> set ?ys" for z
    using ok1 [OF that] ok [of z] that set1 st1 by (simp add: stride_id_entry)
  have "queued_ok k1" using wf1 ok1 by (auto simp: queued_ok_def elim!: entry_task)
  from scheduler_exact [OF this, of y] y set1 run1 str1 obtain j u q' where
      least: "least_stride k1 ?ys j" and u: "id_to_task (?ys ! j) = Some u" "task_ok k1 u"
      and sch: "scheduler k1 = Some ((set_state u RUNNING (map_proc (fst u) charge (k1\<lparr>task_queue := q'\<rparr>)))\<lparr>current := Some u\<rparr>)"
      and q': "queue_wf q'" "qsize q' = qsize (task_queue k1)" "queue_seq q' = take j ?ys @ drop (Suc j) ?ys"
    by auto
  let ?x = "?ys ! j" and ?k2 = "map_proc (fst u) charge (k1\<lparr>task_queue := q'\<rparr>)"
  let ?k' = "(set_state u RUNNING ?k2)\<lparr>current := Some u\<rparr>"
  have j: "j < length ?ys" using least by (simp add: least_stride_def)
  then have xin: "?x \<in> set ?ys" by simp
  have fu: "fst u = proc_id ?x" using u(1) by (rule id_to_task_Some)
  have len: "fst u < length (pool k1)" using u(2) by (simp add: task_ok_def)
  have tab2: "same_table k1 ?k2"
    using same_table_trans [of k1 "k1\<lparr>task_queue := q'\<rparr>" ?k2] same_table_charge [of "fst u" "k1\<lparr>task_queue := q'\<rparr>"] len
    by simp
  then have u2: "task_ok ?k2 u" using u(2) by (simp add: same_table_entry)
  have "same_table k1 (set_state u RUNNING ?k2)"
    by (rule same_table_trans [OF tab2 same_table_set_state [OF u2]])
  then have tab': "same_table k ?k'" using same_table_trans [OF tab1] by simp
  have tid: "task_to_id k u = ?x"
    using ok1 [OF xin] u(1) by (simp add: entry_ok_def same_table_entry [OF tab1])
  have cs': "contenders ?k' = ?x # take j ?ys @ drop (Suc j) ?ys"
    using q'(3) tid by (simp add: contenders_def same_table_entry [OF tab', simplified])
  have set': "set (contenders ?k') = set (contenders k)"
    using set_take_drop [OF j] by (simp add: cs' set1)
  have str': "p_stride (the_proc ?k' p) = p_stride (the_proc k p) + (if p = proc_id ?x then pass_id k ?x else 0)" for p
  proof -
    have "p_stride (the_proc ?k' p) = p_stride (the_proc ?k2 p)"
      using u2 by (simp add: set_state_def the_proc_map_thread task_ok_def)
    also have "\<dots> = p_stride (the_proc k1 p) + (if p = proc_id ?x then pass_id k1 ?x else 0)"
      using len fu by (simp add: the_proc_map_proc charge_def pass_id_def)
    finally show ?thesis using st1 by (simp add: same_table_entry [OF tab1])
  qed
  have th': "the_thread ?k' v = (if v = u then (the_thread k1 u)\<lparr>th_state := RUNNING\<rparr> else the_thread k1 v)" for v
    using u2 len by (simp add: the_thread_set_state the_thread_charge)
  have dist: "distinct (contenders ?k')"
    unfolding cs' by (rule distinct_take_drop [OF j]) (use comp cs q1 in \<open>auto simp: competing_def\<close>)
  have comp': "competing ?k'"
  proof -
    have rest: "z \<in> set ?ys" "z \<noteq> ?x" if "z \<in> set (queue_seq q')" for z
      using that dist set_take_drop [OF j] by (auto simp: cs' q'(3))
    have "runnable_id ?k' z" if z: "z \<in> set (queue_seq q')" for z
    proof -
      from ok1 [OF rest(1) [OF z]] obtain v where v: "id_to_task z = Some v" "task_to_id k1 v = z"
        by (rule entry_task)
      have "v \<noteq> u" using v(2) rest(2) [OF z] tid same_table_entry(2) [OF tab1, of u] by auto
      with run1 [OF rest(1) [OF z]] v(1) th' show ?thesis by (simp add: runnable_id_def)
    qed
    moreover have "entry_ok ?k' z" if "z \<in> set (contenders k)" for z
      using ok [OF that] by (simp only: same_table_entry [OF tab'])
    moreover have "queue_len q' = queue_len (task_queue k)"
      using arg_cong [OF q'(3), of length] arg_cong [OF q1, of length] j by simp
    ultimately show ?thesis
      using comp dist set' q' sz1 u(1) tid by (simp add: competing_def same_table_entry [OF tab', simplified])
  qed
  show thesis
  proof (rule that [of ?k' ?x])
    show "yield k = Some ?k'" using yk sch by simp
    show "?x \<in> set (contenders k)" using xin set1 by simp
    show "current ?k' = id_to_task ?x" using u(1) by simp
    show "stride_id k ?x \<le> stride_id k z" if "z \<in> set (contenders k)" for z
    proof -
      from that set1 obtain i where "i < length ?ys" "z = ?ys ! i" by (metis in_set_conv_nth)
      with least run1 [of z] have "stride_id k1 ?x \<le> stride_id k1 z" by (auto simp: least_stride_def)
      with str1 [of z] str1 [OF xin] that set1 show ?thesis by simp
    qed
    show "stride_id ?k' z = stride_id k z + (if proc_id z = proc_id ?x then pass_id k ?x else 0)"
      if "z \<in> set (contenders k)" for z
    proof -
      have "entry_ok ?k' z" using ok [OF that] by (simp only: same_table_entry [OF tab'])
      with ok [OF that] show ?thesis by (simp only: stride_id_entry str')
    qed
  qed (fact comp' set' tab')+
qed

section \<open>Every competing thread gets its turn\<close>

lemma pass_id_bounds:
  assumes "entry_ok k x"
  shows "0 < unat (pass_id k x)" "unat (pass_id k x) \<le> 65536"
proof -
  let ?p = "p_priority (the_proc k (proc_id x))"
  from assms have "0 < ?p" "?p \<le> BIG_STRIDE" by (rule entry_task, simp)+
  then have p: "0 < unat ?p" "unat ?p \<le> 65536"
    by (auto simp: word_less_nat_alt word_le_nat_alt BIG_STRIDE_def)
  have "unat (pass_id k x) = 65536 div unat ?p" by (simp add: pass_id_def unat_div BIG_STRIDE_def)
  then show "0 < unat (pass_id k x)" "unat (pass_id k x) \<le> 65536"
    using p by (simp_all add: div_greater_zero_iff)
qed

lemma turns_drop:
  fixes s p y :: nat
  assumes "s \<le> y" "0 < p"
  shows "(if s + p \<le> y then (y - (s + p)) div p + 1 else 0) < (y - s) div p + 1"
proof (cases "s + p \<le> y")
  case True
  then have "(y - s) div p = (y - (s + p)) div p + 1"
    using assms le_div_geq [of p "y - s"] by (simp add: diff_diff_left)
  with True show ?thesis by simp
qed simp

lemma yield_progress:
  assumes w: "waiting y k"
  shows "\<exists>k'. yield k = Some k' \<and>
    (current k' = id_to_task y \<or> waiting y k' \<and> turns_before y k' < turns_before y k)"
proof -
  let ?C = "set (contenders k)"
  have comp: "competing k" and y: "y \<in> ?C" and low: "stride_id k y < 2 ^ 63"
    and other: "\<And>x. x \<in> ?C - {y} \<Longrightarrow> proc_id x \<noteq> proc_id y"
    using w by (simp_all add: waiting_def)
  have lowy: "unat (stride_id k y) < 2 ^ 63" using low by (simp add: word_less_nat_alt)
  have "stride_id k y \<noteq> - 1" using low by auto
  from yield_round [OF comp y this] obtain k' x where k': "yield k = Some k'" "competing k'"
      and C: "set (contenders k') = ?C" and x: "x \<in> ?C" "current k' = id_to_task x"
      and least: "\<And>z. z \<in> ?C \<Longrightarrow> stride_id k x \<le> stride_id k z"
      and str: "\<And>z. z \<in> ?C \<Longrightarrow> stride_id k' z = stride_id k z + (if proc_id z = proc_id x then pass_id k x else 0)"
      and tab: "same_table k k'"
    by metis
  show ?thesis
  proof (cases "x = y")
    case True
    with k' x show ?thesis by auto
  next
    case False
    have ok: "entry_ok k z" if "z \<in> ?C" for z using comp that by (simp add: competing_def)
    have y': "stride_id k' y = stride_id k y" using other [of x] x False str [OF y] by auto
    let ?u = "unat (stride_id k y)"
    have xy: "unat (stride_id k x) \<le> ?u" using least [OF y] by (simp add: word_le_nat_alt)
    note px = pass_id_bounds [OF ok [OF x(1)]]
    have lt: "turns y k' z < turns y k z" if z: "z \<in> ?C" "proc_id z = proc_id x" for z
    proof -
      have zx: "stride_id k z = stride_id k x" "pass_id k z = pass_id k x"
        using z ok [OF z(1)] ok [OF x(1)] by (simp_all add: stride_id_entry pass_id_def)
      have "unat (stride_id k' z) = unat (stride_id k x) + unat (pass_id k x)"
        using z str [OF z(1)] zx xy px lowy by (simp add: unat_plus_simple [THEN iffD1] no_olen_add_nat)
      then have "turns y k' z = (if unat (stride_id k x) + unat (pass_id k x) \<le> ?u
          then (?u - (unat (stride_id k x) + unat (pass_id k x))) div unat (pass_id k x) + 1 else 0)"
        unfolding turns_def word_le_nat_alt y' zx same_table_entry(4) [OF tab] by simp
      moreover have "turns y k z = (?u - unat (stride_id k x)) div unat (pass_id k x) + 1"
        using xy zx by (simp add: turns_def word_le_nat_alt)
      ultimately show ?thesis using turns_drop [OF xy px(1)] by (simp only:)
    qed
    have eq: "turns y k' z = turns y k z" if z: "z \<in> ?C" "proc_id z \<noteq> proc_id x" for z
      using str [OF z(1)] z(2) y' same_table_entry(4) [OF tab, of z] by (simp add: turns_def)
    have "turns_before y k' < turns_before y k"
      unfolding turns_before_def C
    proof (rule sum_strict_mono_ex1)
      show "\<forall>z \<in> ?C - {y}. turns y k' z \<le> turns y k z" 
        by (metis DiffD1 eq less_imp_le lt order_refl)
      show "\<exists>z \<in> ?C - {y}. turns y k' z < turns y k z" using lt [OF x(1) refl] x(1) False by blast
    qed simp
    moreover have "waiting y k'" using w k'(2) C y' by (simp add: waiting_def)
    ultimately show ?thesis using k'(1) by blast
  qed
qed

interpretation stride: measured_progress yield "waiting y" "\<lambda>k. current k = id_to_task y" "turns_before y"
  for y by unfold_locales (rule yield_progress)

section \<open>A kernel with two threads that compete\<close>

text \<open>Thread 0 of process 0 runs, thread 0 of process 1 waits; process 0 is behind by three passes.\<close>

definition fair_kern :: kern where
  "fair_kern = \<lparr>mem = (\<lambda>_. 0), freelist = 0, ekernel = 0, trampoline = 0,
     pool = [zero_proc\<lparr>p_state := P_USED, p_pid := 1, p_priority := 16,
         p_threads := [zero_thread\<lparr>th_state := RUNNING\<rparr>]\<rparr>,
       zero_proc\<lparr>p_state := P_USED, p_pid := 2, p_priority := 16, p_stride := 12288,
         p_threads := [zero_thread\<lparr>th_state := RUNNABLE\<rparr>]\<rparr>],
     current = Some (0, 0),
     task_queue = \<lparr>qdata = [16, 0, 0, 0], qsize = 4, qfront = 0, qtail = 1, qempty = False\<rparr>,
     next_pid = 3\<rparr>"

lemma fair_kern_waiting:
  "contenders fair_kern = [0, 16]" "waiting 16 fair_kern" "turns_before 16 fair_kern = 4"
proof -
  have ids: "id_to_task 0 = Some (0, 0)" "id_to_task 16 = Some (1, 0)"
    by (simp_all add: id_to_task_def NTHREAD_def)
  have q: "queue_seq (task_queue fair_kern) = [16]" "queue_len (task_queue fair_kern) = 1"
    "queue_wf (task_queue fair_kern)" "qsize (task_queue fair_kern) = 4"
    by (simp_all add: fair_kern_def queue_seq_def queue_len_def queue_wf_def)
  have cur: "current fair_kern = Some (0, 0)" "task_to_id fair_kern (0, 0) = 0" "task_to_id fair_kern (1, 0) = 16"
    by (simp_all add: fair_kern_def task_to_id_def NTHREAD_def the_thread_def zero_thread_def)
  have tasks: "task_ok fair_kern (0, 0)" "task_ok fair_kern (1, 0)"
    by (simp_all add: task_ok_def fair_kern_def the_proc_def)
  have procs: "p_priority (the_proc fair_kern 0) = 16" "p_priority (the_proc fair_kern 1) = 16"
    "p_stride (the_proc fair_kern 0) = 0" "p_stride (the_proc fair_kern 1) = 12288"
    "th_state (the_thread fair_kern (1, 0)) = RUNNABLE"
    by (simp_all add: fair_kern_def the_proc_def the_thread_def zero_proc_def)
  show cs: "contenders fair_kern = [0, 16]" by (simp add: contenders_def cur q)
  have pids: "proc_id 0 = 0" "proc_id 16 = 1" by (simp_all add: proc_id_def NTHREAD_def)
  have strides: "stride_id fair_kern 0 = 0" "stride_id fair_kern 16 = 12288"
    by (simp_all add: stride_id_def ids procs [unfolded One_nat_def])
  have "competing fair_kern"
    unfolding competing_def cs using q cur ids tasks procs
    by (simp add: entry_ok_def runnable_id_def BIG_STRIDE_def)
  then show "waiting 16 fair_kern" by (auto simp: waiting_def cs strides pids)
  have "set (contenders fair_kern) - {16} = {0}" by (auto simp: cs)
  then show "turns_before 16 fair_kern = 4"
    by (simp add: turns_before_def turns_def strides pass_id_def pids procs BIG_STRIDE_def unat_div)
qed

section \<open>Properties\<close>



end
