(* ===== verification/NpcMemory.thy ===== *)
theory NpcMemory
  imports Prelude
begin

text \<open>
  \<^verbatim>\<open>os/npc_memory.c\<close>: eight slots of text, one per NPC. A pointer to a slot is its index. The
  C \<^verbatim>\<open>content\<close> and \<^verbatim>\<open>buf\<close> arguments are byte lists, never \<^verbatim>\<open>NULL\<close> in this kernel. The
  operations are proved to implement a map from NPC numbers to texts of at most 2047 bytes.
\<close>

definition NPC_MEMORY_MAX :: nat where "NPC_MEMORY_MAX = 8"
definition NPC_MEMORY_L2_SIZE :: int where "NPC_MEMORY_L2_SIZE = 2048"

record npc_memory =
  nm_id :: int
  nm_text :: "u8 list"
  nm_len :: int

definition npc_memory_init :: "npc_memory list \<Rightarrow> npc_memory list" where
  "npc_memory_init ms = map (\<lambda>m. m\<lparr>nm_id := - 1, nm_len := 0\<rparr>) ms"

definition find_memory :: "int \<Rightarrow> npc_memory list \<Rightarrow> nat option" where
  "find_memory npc_id ms = first_idx (\<lambda>m. nm_id m = npc_id) ms"

definition find_or_alloc_memory :: "int \<Rightarrow> npc_memory list \<Rightarrow> nat option \<times> npc_memory list" where
  "find_or_alloc_memory npc_id ms =
     (case first_idx (\<lambda>m. nm_id m = npc_id) ms of
        Some i \<Rightarrow> (Some i, ms)
      | None \<Rightarrow>
          (case first_idx (\<lambda>m. nm_id m < 0) ms of
             Some f \<Rightarrow> (Some f, upd_at f (\<lambda>m. m\<lparr>nm_id := npc_id, nm_len := 0\<rparr>) ms)
           | None \<Rightarrow> (None, ms)))"

text \<open>The copy loop, byte by byte.\<close>

fun copy_text :: "u8 list \<Rightarrow> int \<Rightarrow> u8 list \<Rightarrow> nat \<Rightarrow> u8 list" where
  "copy_text dst off src 0 = dst"
| "copy_text dst off src (Suc n) = (copy_text dst off src n)[nat off + n := src ! n]"

definition append_text :: "u8 list \<Rightarrow> int \<Rightarrow> npc_memory \<Rightarrow> int \<times> npc_memory" where
  "append_text content len m =
     (let remain = NPC_MEMORY_L2_SIZE - nm_len m - 1;
          (m, remain) = (if remain \<le> 0 then (m\<lparr>nm_len := 0\<rparr>, NPC_MEMORY_L2_SIZE - 1) else (m, remain));
          copy_len = (if len < remain then len else remain);
          (m, copy_len) =
            (if 0 < nm_len m \<and> nm_len m < NPC_MEMORY_L2_SIZE - 1
             then (m\<lparr>nm_text := (nm_text m)[nat (nm_len m) := 10], nm_len := nm_len m + 1\<rparr>,
                   if remain - 1 < copy_len then remain - 1 else copy_len)
             else (m, copy_len));
          m = m\<lparr>nm_text := copy_text (nm_text m) (nm_len m) content (nat copy_len)\<rparr>;
          m = m\<lparr>nm_len := nm_len m + copy_len\<rparr>;
          m = m\<lparr>nm_text := (nm_text m)[nat (nm_len m) := 0]\<rparr>
      in (copy_len, m))"

definition npc_memory_save :: "int \<Rightarrow> u8 list \<Rightarrow> int \<Rightarrow> npc_memory list \<Rightarrow> int \<times> npc_memory list" where
  "npc_memory_save npc_id content len ms =
     (if npc_id < 0 \<or> len \<le> 0 then (- 1, ms)
      else case find_or_alloc_memory npc_id ms of
        (None, ms) \<Rightarrow> (- 1, ms)
      | (Some i, ms) \<Rightarrow> let (n, m) = append_text content len (ms ! i) in (n, ms[i := m]))"

text \<open>The result and the bytes written to \<^verbatim>\<open>buf\<close>.\<close>

definition npc_memory_load :: "int \<Rightarrow> int \<Rightarrow> npc_memory list \<Rightarrow> int \<times> u8 list" where
  "npc_memory_load npc_id maxlen ms =
     (if npc_id < 0 \<or> maxlen \<le> 0 then (- 1, [])
      else case find_memory npc_id ms of
        None \<Rightarrow> (0, [0])
      | Some i \<Rightarrow>
          let m = ms ! i;
              copy_len = (if nm_len m < maxlen - 1 then nm_len m else maxlen - 1)
          in (copy_len, take (nat copy_len) (nm_text m) @ [0]))"

definition npc_memory_clear :: "int \<Rightarrow> npc_memory list \<Rightarrow> int \<times> npc_memory list" where
  "npc_memory_clear npc_id ms =
     (case find_memory npc_id ms of
        None \<Rightarrow> (- 1, ms)
      | Some i \<Rightarrow> (0, upd_at i (\<lambda>m. m\<lparr>nm_id := - 1, nm_len := 0\<rparr>) ms))"

section \<open>The map from NPC numbers to texts\<close>

definition memory_ok :: "npc_memory \<Rightarrow> bool" where
  "memory_ok m \<longleftrightarrow> length (nm_text m) = 2048 \<and> 0 \<le> nm_len m \<and> nm_len m \<le> 2047"

definition memories_ok :: "npc_memory list \<Rightarrow> bool" where
  "memories_ok ms \<longleftrightarrow> (\<forall>m \<in> set ms. memory_ok m) \<and>
     (\<forall>i < length ms. \<forall>j < length ms. 0 \<le> nm_id (ms ! i) \<longrightarrow> nm_id (ms ! i) = nm_id (ms ! j) \<longrightarrow> i = j)"

definition text_of :: "npc_memory \<Rightarrow> u8 list" where
  "text_of m = take (nat (nm_len m)) (nm_text m)"

definition npc_text :: "npc_memory list \<Rightarrow> int \<Rightarrow> u8 list option" where
  "npc_text ms npc_id = (if npc_id < 0 then None
     else map_option (\<lambda>i. text_of (ms ! i)) (find_memory npc_id ms))"

text \<open>The text after a save: a full text is dropped, otherwise a newline separates.\<close>

definition joined_text :: "u8 list \<Rightarrow> u8 list \<Rightarrow> u8 list" where
  "joined_text old new =
     (let old = (if length old = 2047 then [] else old)
      in take 2047 (if old = [] then new else old @ 10 # new))"

lemma length_copy_text [simp]: "length (copy_text dst off src n) = length dst"
  by (induction n) auto

lemma copy_text_eq:
  "0 \<le> off \<Longrightarrow> nat off + n \<le> length dst \<Longrightarrow> n \<le> length src \<Longrightarrow>
     take (nat off + n) (copy_text dst off src n) = take (nat off) dst @ take n src"
proof (induction n)
  case (Suc n)
  then show ?case by (simp add: take_Suc_conv_app_nth)
qed simp

text \<open>The last three assignments of the append.\<close>

lemma append_tail:
  assumes ok: "memory_ok m" and c: "0 \<le> c" "nm_len m + c \<le> 2047" "nat c \<le> length content"
    and m': "m' = m\<lparr>nm_text := (copy_text (nm_text m) (nm_len m) content (nat c))[nat (nm_len m + c) := 0],
      nm_len := nm_len m + c\<rparr>"
  shows "memory_ok m' \<and> text_of m' = text_of m @ take (nat c) content \<and>
    nm_text m' ! nat (nm_len m') = 0 \<and> nm_id m' = nm_id m"
proof -
  have sum: "nat (nm_len m + c) = nat (nm_len m) + nat c" using ok c by (simp add: memory_ok_def nat_add_distrib)
  have "text_of m' = take (nat (nm_len m) + nat c) (copy_text (nm_text m) (nm_len m) content (nat c))"
    by (simp add: text_of_def m' sum)
  also have "\<dots> = text_of m @ take (nat c) content"
    using ok c by (subst copy_text_eq) (auto simp: memory_ok_def text_of_def sum [symmetric])
  finally show ?thesis using ok c by (auto simp: m' memory_ok_def)
qed

lemma length_text_of: "memory_ok m \<Longrightarrow> length (text_of m) = nat (nm_len m)"
  by (auto simp: text_of_def memory_ok_def min_def)

lemma append_text_result:
  assumes ok: "memory_ok m" and len: "0 < len" "nat len \<le> length content"
  shows "\<exists>n m'. append_text content len m = (n, m') \<and> memory_ok m' \<and>
    text_of m' = joined_text (text_of m) (take (nat len) content) \<and>
    nm_text m' ! nat (nm_len m') = 0 \<and> nm_id m' = nm_id m"
proof -
  let ?new = "take (nat len) content"
  consider (full) "nm_len m = 2047" | (none) "nm_len m = 0" | (some) "0 < nm_len m" "nm_len m < 2047"
    using ok by (fastforce simp: memory_ok_def)
  then show ?thesis
  proof cases
    case full
    define c where "c = min len 2047"
    have c: "0 \<le> c" "c \<le> 2047" "nat c \<le> length content" "nat c = min 2047 (nat len)"
      using len by (auto simp: c_def min_def)
    have ok0: "memory_ok (m\<lparr>nm_len := 0\<rparr>)" using ok by (simp add: memory_ok_def)
    have "joined_text (text_of m) ?new = take (nat c) content"
      using full length_text_of [OF ok] len by (simp add: joined_text_def c(4))
    moreover have "text_of (m\<lparr>nm_len := 0\<rparr>) = []" by (simp add: text_of_def)
    moreover have "append_text content len m = (c, m\<lparr>nm_text := (copy_text (nm_text m) 0 content (nat c))[nat c := 0], nm_len := c\<rparr>)"
      using full by (simp add: append_text_def NPC_MEMORY_L2_SIZE_def Let_def min_def c_def)
    ultimately show ?thesis
      using append_tail [OF ok0 c(1) _ c(3) refl] c(2) by simp
  next
    case none
    define c where "c = min len 2047"
    have c: "0 \<le> c" "nm_len m + c \<le> 2047" "nat c \<le> length content" "nat c = min 2047 (nat len)"
      using len none by (auto simp: c_def min_def)
    have t: "text_of m = []" using none by (simp add: text_of_def)
    have "joined_text (text_of m) ?new = take (nat c) content"
      using len t by (simp add: joined_text_def c(4))
    moreover have "append_text content len m = (c, m\<lparr>nm_text := (copy_text (nm_text m) (nm_len m) content (nat c))[nat (nm_len m + c) := 0], nm_len := nm_len m + c\<rparr>)"
      using none by (simp add: append_text_def NPC_MEMORY_L2_SIZE_def Let_def min_def c_def)
    ultimately show ?thesis
      using append_tail [OF ok c(1-3) refl] t by simp
  next
    case some
    let ?m = "m\<lparr>nm_text := (nm_text m)[nat (nm_len m) := 10], nm_len := nm_len m + 1\<rparr>"
    define c where "c = min len (2046 - nm_len m)"
    have c: "0 \<le> c" "nm_len ?m + c \<le> 2047" "nat c \<le> length content"
      "nat c = min (2046 - nat (nm_len m)) (nat len)"
      using len some by (auto simp: c_def min_def)
    have ok1: "memory_ok ?m" using ok some by (simp add: memory_ok_def)
    have t1: "text_of ?m = text_of m @ [10]"
      using ok some by (simp add: text_of_def memory_ok_def nat_add_distrib take_Suc_conv_app_nth)
    have L: "length (text_of m) = nat (nm_len m)" by (rule length_text_of [OF ok])
    have ne: "text_of m \<noteq> []" "length (text_of m) \<noteq> 2047" using L some by auto
    have suc: "2047 - nat (nm_len m) = Suc (2046 - nat (nm_len m))" using some by linarith
    have "joined_text (text_of m) ?new = text_of m @ 10 # take (nat c) content"
      unfolding joined_text_def Let_def using ne L some by (simp add: suc c(4))
    moreover have "append_text content len m = (c, ?m\<lparr>nm_text := (copy_text (nm_text ?m) (nm_len ?m) content (nat c))[nat (nm_len ?m + c) := 0],
        nm_len := nm_len ?m + c\<rparr>)"
      using some by (auto simp: append_text_def NPC_MEMORY_L2_SIZE_def Let_def min_def c_def)
    moreover note append_tail [OF ok1 c(1-3) refl]
    ultimately show ?thesis unfolding t1 by simp
  qed
qed

section \<open>The operations on the map\<close>

lemma memories_unique:
  "memories_ok ms \<Longrightarrow> i < length ms \<Longrightarrow> j < length ms \<Longrightarrow> 0 \<le> nm_id (ms ! i) \<Longrightarrow>
     nm_id (ms ! i) = nm_id (ms ! j) \<Longrightarrow> i = j"
  by (simp add: memories_ok_def)

lemma memories_ok_update:
  assumes ok: "memories_ok ms" and i: "i < length ms" and m: "memory_ok m"
    and id: "\<And>j. 0 \<le> nm_id m \<Longrightarrow> j < length ms \<Longrightarrow> nm_id (ms ! j) = nm_id m \<Longrightarrow> j = i"
  shows "memories_ok (ms[i := m])"
proof -
  have "\<forall>x \<in> set (ms[i := m]). memory_ok x"
    using ok m set_update_subset_insert [of ms i m] by (auto simp: memories_ok_def)
  moreover have "a = b" if ab: "a < length ms" "b < length ms" "0 \<le> nm_id (ms[i := m] ! a)"
    "nm_id (ms[i := m] ! a) = nm_id (ms[i := m] ! b)" for a b
  proof (cases "a = i"; cases "b = i")
    assume "a = i" "b \<noteq> i"
    then have "0 \<le> nm_id m" "nm_id (ms ! b) = nm_id m" using ab i by auto
    with id ab(2) \<open>b \<noteq> i\<close> show ?thesis by blast
  next
    assume "a \<noteq> i" "b = i"
    then have "0 \<le> nm_id m" "nm_id (ms ! a) = nm_id m" using ab i by auto
    with id ab(1) \<open>a \<noteq> i\<close> show ?thesis by blast
  next
    assume "a \<noteq> i" "b \<noteq> i"
    then have "nm_id (ms ! a) = nm_id (ms ! b)" "0 \<le> nm_id (ms ! a)" using ab by auto
    with memories_unique [OF ok ab(1,2)] show ?thesis by blast
  qed simp
  ultimately show ?thesis by (simp add: memories_ok_def)
qed

lemma find_memory_iff:
  assumes "memories_ok ms" "0 \<le> npc_id"
  shows "find_memory npc_id ms = Some i \<longleftrightarrow> i < length ms \<and> nm_id (ms ! i) = npc_id"
proof
  assume i: "i < length ms \<and> nm_id (ms ! i) = npc_id"
  have "nm_id (ms ! j) \<noteq> npc_id" if "j < i" for j
    using memories_unique [OF assms(1), of i j] assms(2) i that by auto
  with i show "find_memory npc_id ms = Some i" by (simp add: find_memory_def first_idx_Some_iff)
qed (auto simp: find_memory_def first_idx_Some_iff)

lemma npc_text_at:
  "memories_ok ms \<Longrightarrow> 0 \<le> npc_id \<Longrightarrow> i < length ms \<Longrightarrow> nm_id (ms ! i) = npc_id \<Longrightarrow>
     npc_text ms npc_id = Some (text_of (ms ! i))"
  using find_memory_iff [of ms npc_id i] by (simp add: npc_text_def)

lemma npc_text_update:
  assumes ok: "memories_ok (ms[i := m])" and i: "i < length ms"
    and old: "nm_id (ms ! i) = npc_id \<or> nm_id (ms ! i) < 0" and id: "nm_id m = npc_id" "0 \<le> npc_id"
  shows "npc_text (ms[i := m]) = (npc_text ms)(npc_id \<mapsto> text_of m)"
proof
  fix j
  show "npc_text (ms[i := m]) j = ((npc_text ms)(npc_id \<mapsto> text_of m)) j"
  proof (cases "j = npc_id \<or> j < 0")
    case True
    with npc_text_at [OF ok id(2), of i] i id show ?thesis by (auto simp: npc_text_def)
  next
    case False
    then have "nm_id (ms ! i) \<noteq> j" "nm_id m \<noteq> j" using old id by auto
    then have "find_memory j (ms[i := m]) = find_memory j ms"
      unfolding find_memory_def using i by (intro first_idx_cong_update) auto
    moreover have "h \<noteq> i" if "find_memory j ms = Some h" for h
      using that \<open>nm_id (ms ! i) \<noteq> j\<close> by (auto simp: find_memory_def first_idx_Some_iff)
    ultimately show ?thesis using False by (cases "find_memory j ms") (auto simp: npc_text_def)
  qed
qed

text \<open>The slot that \<^verbatim>\<open>find_or_alloc_memory\<close> returns carries the number, and its text is the old one.\<close>

definition text_or_empty :: "u8 list option \<Rightarrow> u8 list" where
  "text_or_empty t = (case t of None \<Rightarrow> [] | Some t \<Rightarrow> t)"

lemma find_or_alloc_result:
  assumes ok: "memories_ok ms" and id: "0 \<le> npc_id" and f: "find_or_alloc_memory npc_id ms = (Some i, ms')"
  shows "memories_ok ms' \<and> i < length ms' \<and> nm_id (ms' ! i) = npc_id \<and>
    npc_text ms' = (npc_text ms)(npc_id \<mapsto> text_or_empty (npc_text ms npc_id))"
proof (cases "first_idx (\<lambda>m. nm_id m = npc_id) ms")
  case (Some h)
  with f have h: "i = h" "ms' = ms" by (simp_all add: find_or_alloc_memory_def)
  have "npc_text ms npc_id = Some (text_of (ms ! h))"
    using Some id by (simp add: npc_text_def find_memory_def)
  then have "npc_text ms = (npc_text ms)(npc_id \<mapsto> text_or_empty (npc_text ms npc_id))"
    by (auto simp: text_or_empty_def)
  with h Some ok show ?thesis by (auto simp: first_idx_Some_iff)
next
  case None
  with f obtain h where h: "first_idx (\<lambda>m. nm_id m < 0) ms = Some h" "i = h"
    "ms' = ms[h := (ms ! h)\<lparr>nm_id := npc_id, nm_len := 0\<rparr>]"
    by (auto simp: find_or_alloc_memory_def upd_at_def split: option.splits)
  then have hl: "h < length ms" "nm_id (ms ! h) < 0" by (auto simp: first_idx_Some_iff)
  have new: "\<forall>j < length ms. nm_id (ms ! j) \<noteq> npc_id" using None by (auto simp: all_set_conv_all_nth)
  have m: "memory_ok ((ms ! h)\<lparr>nm_id := npc_id, nm_len := 0\<rparr>)"
    using ok nth_mem [OF hl(1)] by (auto simp: memories_ok_def memory_ok_def)
  have ok': "memories_ok ms'" unfolding h(3) using new by (intro memories_ok_update [OF ok hl(1) m]) auto
  have "npc_text ms npc_id = None" using None by (simp add: npc_text_def find_memory_def)
  moreover have "npc_text ms' = (npc_text ms)(npc_id \<mapsto> [])"
    unfolding h(3) using npc_text_update [OF ok' [unfolded h(3)] hl(1), of npc_id] hl(2) id
    by (simp add: text_of_def)
  ultimately show ?thesis using ok' h hl by (simp add: text_or_empty_def)
qed

lemma npc_memory_save_result:
  assumes ok: "memories_ok ms" and id: "0 \<le> npc_id" and len: "0 < len" "nat len \<le> length content"
    and s: "npc_memory_save npc_id content len ms = (n, ms')" and n: "n \<noteq> - 1"
  shows "memories_ok ms' \<and>
    npc_text ms' = (npc_text ms)(npc_id \<mapsto> joined_text (text_or_empty (npc_text ms npc_id)) (take (nat len) content))"
proof -
  from s id len n obtain i ms1 where f: "find_or_alloc_memory npc_id ms = (Some i, ms1)"
    by (auto simp: npc_memory_save_def split: prod.splits option.splits)
  note r = find_or_alloc_result [OF ok id f]
  then have mi: "memory_ok (ms1 ! i)" by (auto simp: memories_ok_def)
  from append_text_result [OF mi len] obtain k m where a: "append_text content len (ms1 ! i) = (k, m)"
    and m: "memory_ok m" "text_of m = joined_text (text_of (ms1 ! i)) (take (nat len) content)"
      "nm_id m = nm_id (ms1 ! i)" by blast
  have ms': "ms' = ms1[i := m]" using s id len f a by (simp add: npc_memory_save_def)
  have ok': "memories_ok ms'" unfolding ms'
    using r m memories_unique [of ms1 i] id by (intro memories_ok_update) auto
  have "text_of (ms1 ! i) = text_or_empty (npc_text ms npc_id)"
    using r npc_text_at [of ms1 npc_id i] id by simp
  moreover have "npc_text ms' = (npc_text ms1)(npc_id \<mapsto> text_of m)"
    unfolding ms' using npc_text_update [OF ok' [unfolded ms'], of npc_id] r m id by simp
  ultimately show ?thesis using ok' r m(2) by simp
qed

lemma npc_memory_load_result:
  assumes ok: "memories_ok ms" and id: "0 \<le> npc_id" and max: "0 < maxlen"
  shows "npc_memory_load npc_id maxlen ms =
    (let t = take (nat maxlen - 1) (text_or_empty (npc_text ms npc_id)) in (int (length t), t @ [0]))"
proof (cases "find_memory npc_id ms")
  case None
  then show ?thesis using id max by (simp add: npc_memory_load_def npc_text_def text_or_empty_def)
next
  case (Some i)
  with ok have m: "memory_ok (ms ! i)" by (auto simp: find_memory_def first_idx_Some_iff memories_ok_def)
  let ?c = "if nm_len (ms ! i) < maxlen - 1 then nm_len (ms ! i) else maxlen - 1"
  have c: "nat ?c = min (nat maxlen - 1) (nat (nm_len (ms ! i)))" "0 \<le> ?c" "nat ?c \<le> 2048"
    using m max by (auto simp: memory_ok_def min_def)
  then have "?c = int (min (nat maxlen - 1) (nat (nm_len (ms ! i))))" by linarith
  then show ?thesis using Some id max m c
    by (simp add: npc_memory_load_def npc_text_def text_or_empty_def text_of_def memory_ok_def Let_def)
qed

section \<open>Properties\<close>

text \<open>
  Property C26: a successful \<^verbatim>\<open>npc_memory_save\<close> updates the map from NPC numbers to texts at that
  NPC only: the new text is the old one, a newline and the new bytes, cut at 2047 bytes, or the
  new bytes alone when there was no text or the old one filled the slot.
\<close>

lemma npc_memory_save_map:
  assumes ok: "memories_ok ms" and id: "0 \<le> npc_id" and len: "0 < len" "nat len \<le> length content"
    and s: "npc_memory_save npc_id content len ms = (n, ms')" and n: "n \<noteq> - 1"
  shows "memories_ok ms' \<and>
    npc_text ms' = (npc_text ms)(npc_id \<mapsto> joined_text (text_or_empty (npc_text ms npc_id)) (take (nat len) content))"
  using assms by (rule npc_memory_save_result)

definition demo_memories :: "npc_memory list" where
  "demo_memories = npc_memory_init (replicate NPC_MEMORY_MAX \<lparr>nm_id = 0, nm_text = replicate 2048 0, nm_len = 0\<rparr>)"

lemma demo_memories_ok: "memories_ok demo_memories"
  by (auto simp: demo_memories_def memories_ok_def memory_ok_def npc_memory_init_def in_set_replicate)

lemma demo_memories_save:
  "fst (npc_memory_save 3 [104, 105] 2 demo_memories) = 2"
proof -
  have "first_idx (\<lambda>m. nm_id m = 3) demo_memories = None"
    by (auto simp: demo_memories_def npc_memory_init_def)
  moreover have "first_idx (\<lambda>m. nm_id m < 0) demo_memories = Some 0" "0 < length demo_memories"
    by (simp_all add: first_idx_Some_iff demo_memories_def npc_memory_init_def NPC_MEMORY_MAX_def)
  ultimately have "find_or_alloc_memory 3 demo_memories =
      (Some 0, upd_at 0 (\<lambda>m. m\<lparr>nm_id := 3, nm_len := 0\<rparr>) demo_memories)" "0 < length demo_memories"
    unfolding find_or_alloc_memory_def by (simp_all only: option.case)
  then show ?thesis
    by (simp add: npc_memory_save_def append_text_def NPC_MEMORY_L2_SIZE_def Let_def split_beta)
qed

lemma npc_memory_save_map_witness:
  "npc_text (snd (npc_memory_save 3 [104, 105] 2 demo_memories)) 3 = Some [104, 105]"
proof -
  have "npc_text demo_memories 3 = None"
    by (simp add: demo_memories_def npc_text_def find_memory_def npc_memory_init_def)
  moreover have "npc_memory_save 3 [104, 105] 2 demo_memories = (2, snd (npc_memory_save 3 [104, 105] 2 demo_memories))"
    using demo_memories_save by (metis prod.collapse)
  ultimately show ?thesis
    using npc_memory_save_map [OF demo_memories_ok, of 3 2 "[104, 105]"]
    by (simp add: joined_text_def text_or_empty_def)
qed

text \<open>
  Round trip. \<^verbatim>\<open>npc_memory_load\<close> right after a successful save, with a buffer of the
  slot's size, returns the whole text with its length and a NUL byte behind it.
\<close>

lemma npc_memory_save_load:
  assumes ok: "memories_ok ms" and id: "0 \<le> npc_id" and len: "0 < len" "nat len \<le> length content"
    and s: "npc_memory_save npc_id content len ms = (n, ms')" and n: "n \<noteq> - 1"
  shows "npc_memory_load npc_id NPC_MEMORY_L2_SIZE ms' =
    (let t = joined_text (text_or_empty (npc_text ms npc_id)) (take (nat len) content)
     in (int (length t), t @ [0]))"
proof -
  note r = npc_memory_save_result [OF assms]
  have "take 2047 (joined_text a b) = joined_text a b" for a b
    by (simp add: joined_text_def Let_def)
  with r npc_memory_load_result [of ms' npc_id NPC_MEMORY_L2_SIZE] id show ?thesis
    by (simp add: NPC_MEMORY_L2_SIZE_def text_or_empty_def)
qed

lemma npc_memory_save_load_witness:
  "npc_memory_load 3 NPC_MEMORY_L2_SIZE (snd (npc_memory_save 3 [104, 105] 2 demo_memories)) = (2, [104, 105, 0])"
proof -
  have "npc_text demo_memories 3 = None"
    by (simp add: demo_memories_def npc_text_def find_memory_def npc_memory_init_def)
  moreover have "npc_memory_save 3 [104, 105] 2 demo_memories = (2, snd (npc_memory_save 3 [104, 105] 2 demo_memories))"
    using demo_memories_save by (metis prod.collapse)
  ultimately show ?thesis
    using npc_memory_save_load [OF demo_memories_ok, of 3 2 "[104, 105]"]
    by (simp add: joined_text_def text_or_empty_def)
qed

end
