(* ===== verification/NpcSched.thy ===== *)
theory NpcSched
  imports Sched NpcMemory
begin

text \<open>
  \<^verbatim>\<open>os/ai_sched.c\<close> and its system calls: the life points of the NPC processes. The state adds
  the two counters of \<^verbatim>\<open>ai_sched.c\<close> and the memory slots of \<^verbatim>\<open>npc_memory.c\<close> to the kernel.
  \<^verbatim>\<open>dynamic_prio\<close> and the counters are C \<^verbatim>\<open>int\<close>s: an \<open>int\<close> that every addition brings back to
  32 bits (\<open>wrap32\<close>), as the machine does.
\<close>

definition NPC_INIT_PRIO :: int where "NPC_INIT_PRIO = 50"
definition NPC_DECAY_RATE :: int where "NPC_DECAY_RATE = 1"
definition NPC_IPC_REWARD_BYTES :: u64 where "NPC_IPC_REWARD_BYTES = 64"
definition NPC_DEATH_THRESHOLD :: int where "NPC_DEATH_THRESHOLD = 0"
definition NPC_MAX_COUNT :: int where "NPC_MAX_COUNT = 8"
definition NPC_PRIO_MAX :: int where "NPC_PRIO_MAX = 100"

record npc_status =
  st_npc_id :: int
  st_prio :: int
  st_memory :: int
  st_load :: int
  st_alive :: int
  st_tick :: int

record npc_kern = kern +
  world_tick :: int
  alive_npcs :: int
  memories :: "npc_memory list"

definition wrap32 :: "int \<Rightarrow> int" where
  "wrap32 x = sint (word_of_int x :: 32 word)"

text \<open>The C conversion of a 64-bit unsigned value to \<^verbatim>\<open>int\<close>.\<close>

definition to_int :: "u64 \<Rightarrow> int" where
  "to_int x = sint (ucast x :: 32 word)"

definition ai_sched_init :: "'a npc_kern_scheme \<Rightarrow> 'a npc_kern_scheme" where
  "ai_sched_init k = k\<lparr>world_tick := 0, alive_npcs := 0\<rparr>"

text \<open>The processes the tick treats, and the body of its loop.\<close>

definition npc_alive :: "proc \<Rightarrow> bool" where
  "npc_alive p \<longleftrightarrow> \<not> (p_state p \<noteq> P_USED \<or> p_npc_id p < 0) \<and> \<not> p_dynamic_prio p < 0"

definition tick_proc :: "proc \<Rightarrow> proc" where
  "tick_proc p =
     (if \<not> npc_alive p then p
      else let prio = wrap32 (p_dynamic_prio p - NPC_DECAY_RATE);
               (prio, bytes) =
                 (if 0 < p_ipc_rx_bytes p
                  then let reward = to_int (p_ipc_rx_bytes p div NPC_IPC_REWARD_BYTES)
                       in (if 0 < reward then wrap32 (prio + reward) else prio, 0)
                  else (prio, p_ipc_rx_bytes p));
               prio = (if NPC_PRIO_MAX < prio then NPC_PRIO_MAX else prio);
               prio = (if prio \<le> NPC_DEATH_THRESHOLD then - 1 else prio)
           in p\<lparr>p_dynamic_prio := prio, p_ipc_rx_bytes := bytes\<rparr>)"

definition ai_sched_tick :: "'a npc_kern_scheme \<Rightarrow> 'a npc_kern_scheme" where
  "ai_sched_tick k =
     k\<lparr>world_tick := wrap32 (world_tick k + 1), pool := map tick_proc (pool k),
       alive_npcs := int (length (filter npc_alive (pool k)))\<rparr>"

definition ai_sched_register :: "int \<Rightarrow> 'a npc_kern_scheme \<Rightarrow> int \<times> 'a npc_kern_scheme" where
  "ai_sched_register npc_id k =
     (if npc_id < 0 \<or> NPC_MAX_COUNT \<le> npc_id then (- 1, k)
      else (0, (map_proc (curr_proc k)
         (\<lambda>p. p\<lparr>p_npc_id := npc_id, p_dynamic_prio := NPC_INIT_PRIO, p_ipc_rx_bytes := 0\<rparr>) k)
           \<lparr>alive_npcs := wrap32 (alive_npcs k + 1)\<rparr>))"

definition ai_sched_get_status :: "'a npc_kern_scheme \<Rightarrow> npc_status" where
  "ai_sched_get_status k =
     (let p = the_proc k (curr_proc k) in
      \<lparr>st_npc_id = p_npc_id p, st_prio = p_dynamic_prio p, st_memory = to_int (p_max_page p),
        st_load = alive_npcs k, st_alive = alive_npcs k, st_tick = world_tick k\<rparr>)"

definition ai_sched_add_ipc :: "int \<Rightarrow> u64 \<Rightarrow> 'a npc_kern_scheme \<Rightarrow> 'a npc_kern_scheme" where
  "ai_sched_add_ipc pid bytes k =
     (case first_idx (\<lambda>p. p_state p = P_USED \<and> p_pid p = pid \<and> 0 \<le> p_npc_id p) (pool k) of
        None \<Rightarrow> k
      | Some i \<Rightarrow> map_proc i (\<lambda>p. p\<lparr>p_ipc_rx_bytes := p_ipc_rx_bytes p + bytes\<rparr>) k)"

definition ai_sched_get_alive_count :: "'a npc_kern_scheme \<Rightarrow> int" where
  "ai_sched_get_alive_count k = alive_npcs k"

definition sys_npc_register :: "int \<Rightarrow> 'a npc_kern_scheme \<Rightarrow> int \<times> 'a npc_kern_scheme" where
  "sys_npc_register npc_id k = ai_sched_register npc_id k"

definition sys_npc_yield :: "'a npc_kern_scheme \<Rightarrow> 'a npc_kern_scheme option" where
  "sys_npc_yield k = yield (ai_sched_tick k)"

text \<open>\<^verbatim>\<open>bytes\<close> is an \<^verbatim>\<open>int\<close> that the call extends to 64 bits with its sign.\<close>

definition sys_npc_ipc_notify :: "int \<Rightarrow> int \<Rightarrow> 'a npc_kern_scheme \<Rightarrow> int \<times> 'a npc_kern_scheme" where
  "sys_npc_ipc_notify target_pid bytes k = (0, ai_sched_add_ipc target_pid (word_of_int bytes) k)"

section \<open>Bounds\<close>

lemma wrap32_small: "- (2 ^ 31) \<le> x \<Longrightarrow> x < 2 ^ 31 \<Longrightarrow> wrap32 x = x"
  using signed_take_bit_int_eq_self [of 31 x] by (simp add: wrap32_def signed_of_int)

lemma to_int_small: "uint x < 2 ^ 31 \<Longrightarrow> to_int x = uint x"
  using signed_take_bit_int_eq_self [of 31 "uint x"] uint_ge_0 [of x]
  by (simp add: to_int_def sint_uint unsigned_ucast_eq take_bit_int_eq_self)

text \<open>A living NPC has between 1 and 100 points, a dead one \<open>-1\<close>.\<close>

definition npc_prio_ok :: "proc \<Rightarrow> bool" where
  "npc_prio_ok p \<longleftrightarrow> 0 \<le> p_npc_id p \<longrightarrow> p_dynamic_prio p = - 1 \<or>
     (1 \<le> p_dynamic_prio p \<and> p_dynamic_prio p \<le> NPC_PRIO_MAX)"

lemma tick_proc_fields [simp]:
  "p_state (tick_proc p) = p_state p" "p_pid (tick_proc p) = p_pid p" "p_npc_id (tick_proc p) = p_npc_id p"
  "p_threads (tick_proc p) = p_threads p" "p_stride (tick_proc p) = p_stride p"
  by (simp_all add: tick_proc_def Let_def split_beta)

lemma tick_proc_ok: "npc_prio_ok p \<Longrightarrow> npc_prio_ok (tick_proc p)"
  by (auto simp: npc_prio_ok_def tick_proc_def Let_def split_beta NPC_PRIO_MAX_def NPC_DEATH_THRESHOLD_def)

lemma tick_proc_alive:
  assumes "npc_alive p" "p_dynamic_prio p \<le> NPC_PRIO_MAX" "uint (p_ipc_rx_bytes p) < 2 ^ 36"
  shows "tick_proc p = (let x = min NPC_PRIO_MAX (p_dynamic_prio p - 1 + uint (p_ipc_rx_bytes p) div 64)
    in p\<lparr>p_dynamic_prio := (if x \<le> 0 then - 1 else x), p_ipc_rx_bytes := 0\<rparr>)"
proof -
  let ?b = "p_ipc_rx_bytes p"
  have d: "uint (?b div NPC_IPC_REWARD_BYTES) = uint ?b div 64"
    by (simp add: NPC_IPC_REWARD_BYTES_def uint_div)
  have "uint ?b div 64 < 2 ^ 30" using assms(3) by simp
  then have r: "to_int (?b div NPC_IPC_REWARD_BYTES) = uint ?b div 64"
    using to_int_small [of "?b div NPC_IPC_REWARD_BYTES"] d by simp
  have lo: "0 \<le> p_dynamic_prio p" using assms(1) by (simp add: npc_alive_def)
  have w1: "wrap32 (p_dynamic_prio p - 1) = p_dynamic_prio p - 1"
    using lo assms(2) by (intro wrap32_small) (simp_all add: NPC_PRIO_MAX_def)
  have nn: "0 \<le> uint ?b div 64" using uint_ge_0 [of ?b] by (intro pos_imp_zdiv_nonneg_iff [THEN iffD2]) simp_all
  have w2: "wrap32 (p_dynamic_prio p - 1 + uint ?b div 64) = p_dynamic_prio p - 1 + uint ?b div 64"
    using lo assms(2) \<open>uint ?b div 64 < 2 ^ 30\<close> nn by (intro wrap32_small) (simp_all add: NPC_PRIO_MAX_def)
  define q where "q = uint ?b div 64"
  note r = r [folded q_def] and w2 = w2 [folded q_def] and nn = nn [folded q_def]
  have bytes: "q = 0" if "\<not> 0 < ?b" using that by (simp add: q_def word_neq_0_conv [symmetric])
  show ?thesis unfolding q_def [symmetric]
  proof (cases "0 < ?b")
    case True
    then have "tick_proc p = (let prio = (if 0 < q then p_dynamic_prio p - 1 + q else p_dynamic_prio p - 1);
        prio = (if NPC_PRIO_MAX < prio then NPC_PRIO_MAX else prio)
      in p\<lparr>p_dynamic_prio := (if prio \<le> 0 then - 1 else prio), p_ipc_rx_bytes := 0\<rparr>)"
      using assms(1) by (simp add: tick_proc_def NPC_DECAY_RATE_def w1 w2 r NPC_DEATH_THRESHOLD_def Let_def)
    moreover have "(if 0 < q then p_dynamic_prio p - 1 + q else p_dynamic_prio p - 1) = p_dynamic_prio p - 1 + q"
      using nn by simp
    ultimately show "tick_proc p = (let x = min NPC_PRIO_MAX (p_dynamic_prio p - 1 + q)
      in p\<lparr>p_dynamic_prio := (if x \<le> 0 then - 1 else x), p_ipc_rx_bytes := 0\<rparr>)"
      by (simp only: min_def Let_def not_less [symmetric] if_not_P)
        (simp add: not_less)
  next
    case False
    then have "p\<lparr>p_dynamic_prio := x, p_ipc_rx_bytes := 0\<rparr> = p\<lparr>p_dynamic_prio := x, p_ipc_rx_bytes := ?b\<rparr>" for x
      by (simp add: word_neq_0_conv [symmetric])
    then show "tick_proc p = (let x = min NPC_PRIO_MAX (p_dynamic_prio p - 1 + q)
      in p\<lparr>p_dynamic_prio := (if x \<le> 0 then - 1 else x), p_ipc_rx_bytes := 0\<rparr>)"
      using assms False bytes
      by (simp add: tick_proc_def NPC_DECAY_RATE_def w1 NPC_DEATH_THRESHOLD_def Let_def min_def)
  qed
qed

section \<open>The NPC operations as a machine\<close>

inductive npc_step :: "npc_kern \<Rightarrow> npc_kern \<Rightarrow> bool" where
  npc_tick: "npc_step k (ai_sched_tick k)"
| npc_join: "ai_sched_register npc_id k = (r, k') \<Longrightarrow> npc_step k k'"
| npc_notify: "sys_npc_ipc_notify pid bytes k = (r, k') \<Longrightarrow> npc_step k k'"

definition npc_init :: "npc_kern \<Rightarrow> bool" where
  "npc_init k \<longleftrightarrow> (\<forall>p \<in> set (pool k). p_npc_id p = - 1)"

definition npc_inv :: "npc_kern \<Rightarrow> bool" where
  "npc_inv k \<longleftrightarrow> (\<forall>p \<in> set (pool k). npc_prio_ok p)"

lemma npc_prio_ok_join:
  "npc_prio_ok (p\<lparr>p_npc_id := i, p_dynamic_prio := NPC_INIT_PRIO, p_ipc_rx_bytes := 0\<rparr>)"
  by (simp add: npc_prio_ok_def NPC_INIT_PRIO_def NPC_PRIO_MAX_def)

lemma npc_prio_ok_bytes: "npc_prio_ok (p\<lparr>p_ipc_rx_bytes := b\<rparr>) = npc_prio_ok p"
  by (simp add: npc_prio_ok_def)

interpretation npc: safe_machine npc_init npc_step npc_inv
proof unfold_locales
  fix k :: npc_kern
  assume "npc_init k"
  then show "npc_inv k" by (simp add: npc_init_def npc_inv_def npc_prio_ok_def)
next
  fix k k' :: npc_kern
  assume inv: "npc_inv k" and "npc_step k k'"
  from this(2) show "npc_inv k'"
  proof cases
    case npc_tick
    with inv show ?thesis by (auto simp: npc_inv_def ai_sched_tick_def intro: tick_proc_ok)
  next
    case (npc_join npc_id r)
    show ?thesis
    proof (cases "npc_id < 0 \<or> NPC_MAX_COUNT \<le> npc_id")
      case True
      with npc_join inv show ?thesis by (simp add: ai_sched_register_def)
    next
      case False
      then have pk: "pool k' = upd_at (curr_proc k)
         (\<lambda>p. p\<lparr>p_npc_id := npc_id, p_dynamic_prio := NPC_INIT_PRIO, p_ipc_rx_bytes := 0\<rparr>) (pool k)"
        using npc_join by (auto simp: ai_sched_register_def)
      show ?thesis unfolding npc_inv_def pk
        by (rule ball_upd_at) (use inv in \<open>simp_all only: npc_inv_def npc_prio_ok_join\<close>)
    qed
  next
    case (npc_notify pid bytes r)
    then have k': "k' = ai_sched_add_ipc pid (word_of_int bytes) k" by (simp add: sys_npc_ipc_notify_def)
    show ?thesis
    proof (cases "first_idx (\<lambda>p. p_state p = P_USED \<and> p_pid p = pid \<and> 0 \<le> p_npc_id p) (pool k)")
      case None
      with inv k' show ?thesis by (simp only: ai_sched_add_ipc_def option.case)
    next
      case (Some i)
      then have pk: "pool k' = upd_at i (\<lambda>p. p\<lparr>p_ipc_rx_bytes := p_ipc_rx_bytes p + word_of_int bytes\<rparr>) (pool k)"
        by (simp add: k' ai_sched_add_ipc_def)
      show ?thesis unfolding npc_inv_def pk
        by (rule ball_upd_at) (use inv in \<open>simp_all only: npc_inv_def npc_prio_ok_bytes\<close>)
    qed
  qed
qed

section \<open>Properties\<close>

text \<open>
  Property C25: whatever sequence of registrations, IPC notifications (of any size) and ticks, every
  NPC process is either dead with \<^verbatim>\<open>dynamic_prio\<close> \<open>-1\<close> or has between 1 and 100 points.
\<close>

lemma npc_prio_bounds:
  assumes "reach npc_init npc_step k" "p \<in> set (pool k)" "0 \<le> p_npc_id p"
  shows "p_dynamic_prio p = - 1 \<or> (1 \<le> p_dynamic_prio p \<and> p_dynamic_prio p \<le> NPC_PRIO_MAX)"
  using npc.reach_inv [OF assms(1)] assms(2,3) by (simp add: npc_inv_def npc_prio_ok_def)

definition demo_npc :: npc_kern where
  "demo_npc = \<lparr>mem = (\<lambda>_. 0), freelist = 0, ekernel = 0, trampoline = 0,
     pool = [zero_proc\<lparr>p_state := P_USED, p_pid := 1, p_npc_id := - 1\<rparr>], current = Some (0, 0),
     task_queue = init_queue QUEUE_SIZE [], next_pid = 2, world_tick = 0, alive_npcs = 0, memories = []\<rparr>"

lemma npc_prio_bounds_witness:
  "\<exists>(k :: npc_kern) p. p \<in> set (pool k) \<and> p_npc_id p = 3 \<and> p_dynamic_prio p = 49 \<and>
     (p_dynamic_prio p = - 1 \<or> (1 \<le> p_dynamic_prio p \<and> p_dynamic_prio p \<le> NPC_PRIO_MAX))"
proof -
  let ?k1 = "snd (ai_sched_register 3 demo_npc)" and ?k2 = "ai_sched_tick (snd (ai_sched_register 3 demo_npc))"
  have "npc_init demo_npc" by (simp add: npc_init_def demo_npc_def)
  then have "reach npc_init npc_step demo_npc" by (rule reach_init)
  moreover have "npc_step demo_npc ?k1" by (rule npc_join) (rule prod.collapse [symmetric])
  ultimately have "reach npc_init npc_step ?k1" by (rule reach_step)
  then have r: "reach npc_init npc_step ?k2" by (rule reach_step) (rule npc_tick)
  have pk: "pool ?k2 = [tick_proc (zero_proc\<lparr>p_state := P_USED, p_pid := 1, p_npc_id := 3, p_dynamic_prio := 50\<rparr>)]"
    by (simp add: ai_sched_tick_def ai_sched_register_def NPC_MAX_COUNT_def demo_npc_def curr_proc_def NPC_INIT_PRIO_def
        zero_proc_def)
  let ?p = "tick_proc (zero_proc\<lparr>p_state := P_USED, p_pid := 1, p_npc_id := 3, p_dynamic_prio := 50\<rparr>)"
  have "p_dynamic_prio ?p = 49"
    by (subst tick_proc_alive) (simp_all add: npc_alive_def NPC_PRIO_MAX_def zero_proc_def)
  with npc_prio_bounds [OF r, of ?p] pk show ?thesis
    by (intro exI [of _ ?k2] exI [of _ ?p]) simp
qed

text \<open>
  One tick, process by process. A living NPC pays one point, gets one point for every 64
  bytes of IPC (fewer than \<open>2^36\<close> bytes), is cut at 100, dies when nothing is left, and its byte
  count restarts; all other processes stay; the alive count is that of the NPCs alive before.
\<close>

lemma ai_sched_tick_effect:
  assumes "\<forall>p \<in> set (pool k). npc_prio_ok p \<and> uint (p_ipc_rx_bytes p) < 2 ^ 36"
  shows "pool (ai_sched_tick k) = map (\<lambda>p.
      if \<not> npc_alive p then p
      else let x = min NPC_PRIO_MAX (p_dynamic_prio p - 1 + uint (p_ipc_rx_bytes p) div 64)
           in p\<lparr>p_dynamic_prio := (if x \<le> 0 then - 1 else x), p_ipc_rx_bytes := 0\<rparr>) (pool k) \<and>
    alive_npcs (ai_sched_tick k) = int (length (filter npc_alive (pool k)))"
proof -
  have "tick_proc p = (if \<not> npc_alive p then p
      else let x = min NPC_PRIO_MAX (p_dynamic_prio p - 1 + uint (p_ipc_rx_bytes p) div 64)
           in p\<lparr>p_dynamic_prio := (if x \<le> 0 then - 1 else x), p_ipc_rx_bytes := 0\<rparr>)"
    if "p \<in> set (pool k)" for p
  proof (cases "npc_alive p")
    case True
    then have "p_dynamic_prio p \<le> NPC_PRIO_MAX"
      using assms that by (auto simp: npc_prio_ok_def npc_alive_def NPC_PRIO_MAX_def)
    with True assms that show ?thesis by (simp add: tick_proc_alive)
  qed (simp add: tick_proc_def)
  then show ?thesis by (simp add: ai_sched_tick_def)
qed

lemma ai_sched_tick_effect_witness:
  "alive_npcs (ai_sched_tick demo_npc) = int (length (filter npc_alive (pool demo_npc)))"
  using ai_sched_tick_effect [of demo_npc] by (simp add: demo_npc_def npc_prio_ok_def zero_proc_def)

end
