(* ===== verification/VM.thy ===== *)
theory VM
  imports ProcDefs
begin

text \<open>
  \<^verbatim>\<open>os/vm.c\<close>: the three-level Sv39 page tables and the copies between user and kernel memory.
  A \<^verbatim>\<open>pagetable_t\<close> and a \<^verbatim>\<open>pte_t *\<close> are physical addresses, the tables live in \<open>mem\<close>. The
  kernel side of a copy is a buffer on the kernel's stack, a byte list here. \<open>None\<close> is a
  \<^verbatim>\<open>panic\<close>; a returned pointer or code is a word or an integer as in C.
\<close>

unbundle bit_operations_syntax

definition PTE_V :: u64 where "PTE_V = 1"
definition PTE_R :: u64 where "PTE_R = 2"
definition PTE_W :: u64 where "PTE_W = 4"
definition PTE_X :: u64 where "PTE_X = 8"
definition PTE_U :: u64 where "PTE_U = 16"

definition PA2PTE :: "u64 \<Rightarrow> u64" where "PA2PTE pa = push_bit 10 (drop_bit 12 pa)"
definition PTE2PA :: "u64 \<Rightarrow> u64" where "PTE2PA pte = push_bit 12 (drop_bit 10 pte)"
definition PTE_FLAGS :: "u64 \<Rightarrow> u64" where "PTE_FLAGS pte = pte AND 0x3FF"
definition PX :: "nat \<Rightarrow> u64 \<Rightarrow> u64" where "PX level va = drop_bit (12 + 9 * level) va AND 0x1FF"
definition MAXVA :: u64 where "MAXVA = 0x4000000000"
definition TRAMPOLINE :: u64 where "TRAMPOLINE = MAXVA - PGSIZE"
definition TRAPFRAME :: u64 where "TRAPFRAME = TRAMPOLINE - PGSIZE"
definition PAGE_SIZE :: u64 where "PAGE_SIZE = 0x1000"

text \<open>Byte strings in memory.\<close>

definition write_bytes :: "memory \<Rightarrow> u64 \<Rightarrow> u8 list \<Rightarrow> memory" where
  "write_bytes m a xs = (\<lambda>x. if unat (x - a) < length xs then xs ! unat (x - a) else m x)"

definition read_bytes :: "memory \<Rightarrow> u64 \<Rightarrow> nat \<Rightarrow> u8 list" where
  "read_bytes m a n = map (\<lambda>i. m (a + of_nat i)) [0..<n]"

section \<open>Walking the tables\<close>

definition pte_at :: "u64 \<Rightarrow> nat \<Rightarrow> u64 \<Rightarrow> u64" where
  "pte_at pagetable level va = pagetable + 8 * PX level va"

definition pte_valid :: "u64 \<Rightarrow> bool" where
  "pte_valid e \<longleftrightarrow> e AND PTE_V \<noteq> 0"

text \<open>The loop of \<^verbatim>\<open>walk\<close> from \<^verbatim>\<open>level\<close> down.\<close>

fun walk_from :: "nat \<Rightarrow> u64 \<Rightarrow> u64 \<Rightarrow> bool \<Rightarrow> 'a phys_scheme \<Rightarrow> u64 \<times> 'a phys_scheme" where
  "walk_from 0 pagetable va alloc s = (pte_at pagetable 0 va, s)"
| "walk_from (Suc l) pagetable va alloc s =
     (let pte = pte_at pagetable (Suc l) va; e = load64 (mem s) pte in
      if pte_valid e then walk_from l (PTE2PA e) va alloc s
      else if \<not> alloc then (0, s)
      else let (pg, s) = kalloc s in
        if pg = 0 then (0, s)
        else walk_from l pg va alloc
          (s\<lparr>mem := store64 (memset (mem s) pg 0 (unat PGSIZE)) pte (PA2PTE pg OR PTE_V)\<rparr>))"

definition walk :: "u64 \<Rightarrow> u64 \<Rightarrow> bool \<Rightarrow> 'a phys_scheme \<Rightarrow> (u64 \<times> 'a phys_scheme) option" where
  "walk pagetable va alloc s = (if MAXVA \<le> va then None else Some (walk_from 2 pagetable va alloc s))"

definition walkaddr :: "u64 \<Rightarrow> u64 \<Rightarrow> 'a phys_scheme \<Rightarrow> u64" where
  "walkaddr pagetable va s =
     (if MAXVA \<le> va then 0
      else let pte = fst (walk_from 2 pagetable va False s) in
        if pte = 0 then 0
        else let e = load64 (mem s) pte in
          if e AND PTE_V = 0 then 0
          else if e AND PTE_U = 0 then 0
          else PTE2PA e)"

definition useraddr :: "u64 \<Rightarrow> u64 \<Rightarrow> 'a phys_scheme \<Rightarrow> u64" where
  "useraddr pagetable va s =
     (let page = walkaddr pagetable va s in if page = 0 then 0 else page OR (va AND 0xFFF))"

section \<open>Mapping and unmapping\<close>

partial_function (option) mappages_from ::
    "u64 \<Rightarrow> u64 \<Rightarrow> u64 \<Rightarrow> u64 \<Rightarrow> u64 \<Rightarrow> 'a phys_scheme \<Rightarrow> (int \<times> 'a phys_scheme) option" where
  "mappages_from pagetable a final pa perm s = do {
     (pte, s) \<leftarrow> walk pagetable a True s;
     if pte = 0 then Some (- 1, s)
     else if pte_valid (load64 (mem s) pte) then Some (- 1, s)
     else let s = s\<lparr>mem := store64 (mem s) pte (PA2PTE pa OR perm OR PTE_V)\<rparr> in
       if a = final then Some (0, s)
       else mappages_from pagetable (a + PGSIZE) final (pa + PGSIZE) perm s }"

declare mappages_from.simps [code]

definition mappages :: "u64 \<Rightarrow> u64 \<Rightarrow> u64 \<Rightarrow> u64 \<Rightarrow> u64 \<Rightarrow> 'a phys_scheme \<Rightarrow> (int \<times> 'a phys_scheme) option" where
  "mappages pagetable va sz pa perm s =
     mappages_from pagetable (PGROUNDDOWN va) (PGROUNDDOWN (va + sz - 1)) pa perm s"

definition kvmmap :: "u64 \<Rightarrow> u64 \<Rightarrow> u64 \<Rightarrow> u64 \<Rightarrow> u64 \<Rightarrow> 'a phys_scheme \<Rightarrow> 'a phys_scheme option" where
  "kvmmap kpgtbl va pa sz perm s = do {
     (r, s) \<leftarrow> mappages kpgtbl va sz pa perm s;
     if r \<noteq> 0 then None else Some s }"

text \<open>\<open>e_text\<close> is the linker symbol behind the kernel's code.\<close>

definition VIRTIO0 :: u64 where "VIRTIO0 = 0x10001000"
definition VIRTIO1 :: u64 where "VIRTIO1 = 0x10002000"
definition PLIC :: u64 where "PLIC = 0x0c000000"
definition KERNBASE :: u64 where "KERNBASE = 0x80200000"

definition kvmmake :: "u64 \<Rightarrow> 'a phys_scheme \<Rightarrow> (u64 \<times> 'a phys_scheme) option" where
  "kvmmake e_text s = (let (kpgtbl, s) = kalloc s in do {
     s \<leftarrow> kvmmap kpgtbl VIRTIO0 VIRTIO0 PGSIZE (PTE_R OR PTE_W)
       (s\<lparr>mem := memset (mem s) kpgtbl 0 (unat PGSIZE)\<rparr>);
     s \<leftarrow> kvmmap kpgtbl VIRTIO1 VIRTIO1 PGSIZE (PTE_R OR PTE_W) s;
     s \<leftarrow> kvmmap kpgtbl PLIC PLIC 0x400000 (PTE_R OR PTE_W) s;
     s \<leftarrow> kvmmap kpgtbl KERNBASE KERNBASE (e_text - KERNBASE) (PTE_R OR PTE_X) s;
     s \<leftarrow> kvmmap kpgtbl e_text e_text (PHYSTOP - e_text) (PTE_R OR PTE_W) s;
     s \<leftarrow> kvmmap kpgtbl TRAMPOLINE (trampoline s) PGSIZE (PTE_R OR PTE_X) s;
     Some (kpgtbl, s) })"

text \<open>Rounds \<open>i, ..., i + n - 1\<close> of the loop of \<^verbatim>\<open>uvmmap\<close>; the page of a failed \<^verbatim>\<open>kalloc\<close> is
  passed on unchecked.\<close>

fun uvmmap_from :: "u64 \<Rightarrow> u64 \<Rightarrow> nat \<Rightarrow> nat \<Rightarrow> u64 \<Rightarrow> 'a phys_scheme \<Rightarrow> (int \<times> 'a phys_scheme) option" where
  "uvmmap_from pagetable va i 0 perm s = Some (0, s)"
| "uvmmap_from pagetable va i (Suc n) perm s = (let (pg, s) = kalloc s in do {
     (r, s) \<leftarrow> mappages pagetable (va + of_nat i * 0x1000) 0x1000 pg perm s;
     if r \<noteq> 0 then Some (- 1, s) else uvmmap_from pagetable va (Suc i) n perm s })"

definition uvmmap :: "u64 \<Rightarrow> u64 \<Rightarrow> u64 \<Rightarrow> u64 \<Rightarrow> 'a phys_scheme \<Rightarrow> (int \<times> 'a phys_scheme) option" where
  "uvmmap pagetable va npages perm s = uvmmap_from pagetable va 0 (unat npages) perm s"

partial_function (option) uvmunmap_from ::
    "u64 \<Rightarrow> u64 \<Rightarrow> u64 \<Rightarrow> bool \<Rightarrow> 'a phys_scheme \<Rightarrow> 'a phys_scheme option" where
  "uvmunmap_from pagetable a stop do_free s =
     (if a < stop then do {
        (pte, s) \<leftarrow> walk pagetable a False s;
        if pte = 0 then uvmunmap_from pagetable (a + PGSIZE) stop do_free s
        else do {
          s \<leftarrow> (let e = load64 (mem s) pte in
             if e AND PTE_V \<noteq> 0 then
               if PTE_FLAGS e = PTE_V then None
               else if do_free then kfree (PTE2PA e) s else Some s
             else Some s);
          uvmunmap_from pagetable (a + PGSIZE) stop do_free (s\<lparr>mem := store64 (mem s) pte 0\<rparr>) } }
      else Some s)"

declare uvmunmap_from.simps [code]

definition uvmunmap :: "u64 \<Rightarrow> u64 \<Rightarrow> u64 \<Rightarrow> bool \<Rightarrow> 'a phys_scheme \<Rightarrow> 'a phys_scheme option" where
  "uvmunmap pagetable va npages do_free s =
     (if va mod PGSIZE \<noteq> 0 then None
      else uvmunmap_from pagetable va (va + npages * PGSIZE) do_free s)"

definition uvmcreate :: "'a phys_scheme \<Rightarrow> (u64 \<times> 'a phys_scheme) option" where
  "uvmcreate s = (let (pagetable, s) = kalloc s in
     if pagetable = 0 then Some (0, s)
     else do {
       (r, s) \<leftarrow> mappages pagetable TRAMPOLINE PAGE_SIZE (trampoline s) (PTE_R OR PTE_X)
         (s\<lparr>mem := memset (mem s) pagetable 0 (unat PGSIZE)\<rparr>);
       if r < 0 then None else Some (pagetable, s) })"

text \<open>\<^verbatim>\<open>freewalk\<close> from entry \<open>i\<close> on; the recursive call starts at entry 0 of the child.\<close>

partial_function (option) freewalk_from :: "u64 \<Rightarrow> nat \<Rightarrow> 'a phys_scheme \<Rightarrow> 'a phys_scheme option" where
  "freewalk_from pagetable i s =
     (if i = 512 then kfree pagetable s
      else let a = pagetable + 8 * of_nat i; pte = load64 (mem s) a in
        if pte AND PTE_V \<noteq> 0 \<and> pte AND (PTE_R OR PTE_W OR PTE_X) = 0 then do {
          s \<leftarrow> freewalk_from (PTE2PA pte) 0 s;
          freewalk_from pagetable (Suc i) (s\<lparr>mem := store64 (mem s) a 0\<rparr>) }
        else if pte AND PTE_V \<noteq> 0 then do {
          s \<leftarrow> kfree (PTE2PA pte) s;
          freewalk_from pagetable (Suc i) (s\<lparr>mem := store64 (mem s) a 0\<rparr>) }
        else freewalk_from pagetable (Suc i) s)"

declare freewalk_from.simps [code]

definition freewalk :: "u64 \<Rightarrow> 'a phys_scheme \<Rightarrow> 'a phys_scheme option" where
  "freewalk pagetable s = freewalk_from pagetable 0 s"

definition uvmfree :: "u64 \<Rightarrow> u64 \<Rightarrow> 'a phys_scheme \<Rightarrow> 'a phys_scheme option" where
  "uvmfree pagetable max_page s = do {
     s \<leftarrow> (if 0 < max_page then uvmunmap pagetable 0 max_page True s else Some s);
     freewalk pagetable s }"

partial_function (option) uvmcopy_from ::
    "u64 \<Rightarrow> u64 \<Rightarrow> u64 \<Rightarrow> u64 \<Rightarrow> 'a phys_scheme \<Rightarrow> (int \<times> 'a phys_scheme) option" where
  "uvmcopy_from old new i stop s =
     (if i < stop then do {
        (pte, s) \<leftarrow> walk old i False s;
        if pte = 0 then uvmcopy_from old new (i + PGSIZE) stop s
        else let e = load64 (mem s) pte in
          if e AND PTE_V = 0 then uvmcopy_from old new (i + PGSIZE) stop s
          else let (pg, s) = kalloc s in
            if pg = 0 then do { s \<leftarrow> uvmunmap new 0 (i div PGSIZE) True s; Some (- 1, s) }
            else do {
              (r, s) \<leftarrow> mappages new i PGSIZE pg (PTE_FLAGS e)
                (s\<lparr>mem := memmove (mem s) pg (PTE2PA e) (unat PGSIZE)\<rparr>);
              if r \<noteq> 0 then do {
                s \<leftarrow> kfree pg s;
                s \<leftarrow> uvmunmap new 0 (i div PGSIZE) True s;
                Some (- 1, s) }
              else uvmcopy_from old new (i + PGSIZE) stop s } }
      else Some (0, s))"

declare uvmcopy_from.simps [code]

definition uvmcopy :: "u64 \<Rightarrow> u64 \<Rightarrow> u64 \<Rightarrow> 'a phys_scheme \<Rightarrow> (int \<times> 'a phys_scheme) option" where
  "uvmcopy old new max_page s = uvmcopy_from old new 0 (max_page * PAGE_SIZE) s"

section \<open>Copies between user and kernel\<close>

text \<open>The number of bytes of a copy that lie in the page of \<open>va\<close>.\<close>

definition chunk :: "u64 \<Rightarrow> nat \<Rightarrow> nat" where
  "chunk va len = (let n = unat (PGSIZE - (va - PGROUNDDOWN va)) in if len < n then len else n)"

lemma page_offset_less: "unat (va - PGROUNDDOWN va) < 4096"
  using PGROUNDDOWN_in_page [of va] by (simp add: in_page_def)

lemma chunk_size: "chunk va len = min (4096 - unat (va - PGROUNDDOWN va)) len"
proof -
  have "unat (PGSIZE - (va - PGROUNDDOWN va)) = 4096 - unat (va - PGROUNDDOWN va)"
    using page_offset_less [of va] by (subst unat_sub) (simp_all add: word_le_nat_alt)
  then show ?thesis by (simp add: chunk_def min_def)
qed

lemma chunk_pos: "0 < len \<Longrightarrow> 0 < chunk va len"
  using page_offset_less [of va] by (simp add: chunk_size)

function copyout :: "u64 \<Rightarrow> u64 \<Rightarrow> u8 list \<Rightarrow> 'a phys_scheme \<Rightarrow> int \<times> 'a phys_scheme" where
  "copyout pagetable dstva src s =
     (if src = [] then (0, s)
      else let va0 = PGROUNDDOWN dstva; pa0 = walkaddr pagetable va0 s in
        if pa0 = 0 then (- 1, s)
        else let n = chunk dstva (length src) in
          copyout pagetable (va0 + PGSIZE) (drop n src)
            (s\<lparr>mem := write_bytes (mem s) (pa0 + (dstva - va0)) (take n src)\<rparr>))"
  by pat_completeness auto
termination
  by (relation "measure (\<lambda>(pagetable, dstva, src, s). length src)") (auto simp: chunk_pos)

declare copyout.simps [simp del]

text \<open>The result and the bytes that were stored to \<^verbatim>\<open>dst\<close>, fewer than \<open>len\<close> on an error.\<close>

function copyin :: "u64 \<Rightarrow> u64 \<Rightarrow> nat \<Rightarrow> 'a phys_scheme \<Rightarrow> int \<times> u8 list" where
  "copyin pagetable srcva len s =
     (if len = 0 then (0, [])
      else let va0 = PGROUNDDOWN srcva; pa0 = walkaddr pagetable va0 s in
        if pa0 = 0 then (- 1, [])
        else let n = chunk srcva len;
                 (r, rest) = copyin pagetable (va0 + PGSIZE) (len - n) s
          in (r, read_bytes (mem s) (pa0 + (srcva - va0)) n @ rest))"
  by pat_completeness auto
termination
  by (relation "measure (\<lambda>(pagetable, srcva, len, s). len)") (auto simp: chunk_pos)

declare copyin.simps [simp del]

text \<open>The inner loop of \<^verbatim>\<open>copyinstr\<close>: \<open>n\<close> bytes from \<open>p\<close>, or up to a NUL; with \<^verbatim>\<open>got_null\<close>.\<close>

fun copy_to_null :: "memory \<Rightarrow> u64 \<Rightarrow> nat \<Rightarrow> bool \<times> u8 list" where
  "copy_to_null m p 0 = (False, [])"
| "copy_to_null m p (Suc n) =
     (if m p = 0 then (True, [0])
      else let (got, xs) = copy_to_null m (p + 1) n in (got, m p # xs))"

text \<open>The result, which counts the bytes without the NUL, and the bytes stored to \<^verbatim>\<open>dst\<close>.\<close>

function copyinstr :: "u64 \<Rightarrow> u64 \<Rightarrow> nat \<Rightarrow> 'a phys_scheme \<Rightarrow> int \<times> u8 list" where
  "copyinstr pagetable srcva max_len s =
     (if max_len = 0 then (0, [])
      else let va0 = PGROUNDDOWN srcva; pa0 = walkaddr pagetable va0 s in
        if pa0 = 0 then (- 1, [])
        else let n = chunk srcva max_len;
                 (got_null, xs) = copy_to_null (mem s) (pa0 + (srcva - va0)) n
          in if got_null then (int (length xs) - 1, xs)
             else let (r, rest) = copyinstr pagetable (va0 + PGSIZE) (max_len - n) s
               in (if r < 0 then r else int (length xs) + r, xs @ rest))"
  by pat_completeness auto
termination
  by (relation "measure (\<lambda>(pagetable, srcva, max_len, s). max_len)") (auto simp: chunk_pos)

declare copyinstr.simps [simp del]

definition either_copyout :: "bool \<Rightarrow> u64 \<Rightarrow> u8 list \<Rightarrow> 'a kern_scheme \<Rightarrow> int \<times> 'a kern_scheme" where
  "either_copyout user_dst dst src k =
     (if user_dst then copyout (p_pagetable (the_proc k (curr_proc k))) dst src k
      else (0, k\<lparr>mem := write_bytes (mem k) dst src\<rparr>))"

definition either_copyin :: "bool \<Rightarrow> u64 \<Rightarrow> nat \<Rightarrow> 'a kern_scheme \<Rightarrow> int \<times> u8 list" where
  "either_copyin user_src src len k =
     (if user_src then copyin (p_pagetable (the_proc k (curr_proc k))) src len k
      else (0, read_bytes (mem k) src len))"

end
