(* ===== verification/VMSpec.thy ===== *)
theory VMSpec
  imports VM
begin

text \<open>
  The page tables of \<^verbatim>\<open>os/vm.c\<close> implement a finite map from virtual pages to page table
  entries. \<open>pt_tree\<close> describes three levels of tables that are pages of their own, linked as a
  tree; \<open>vm_ok\<close> adds that none of them is on the free list. \<^verbatim>\<open>walk\<close> then finds the entry of
  its address and of no other, and adds tables without changing the map.
\<close>

section \<open>Entries\<close>

lemma PX_less: "PX l va < 512"
proof -
  have "PX l va \<le> 511" unfolding PX_def by (rule word_and_le1) 
  then show ?thesis by (simp add: word_le_nat_alt word_less_nat_alt)
qed

lemma unat_entry:
  assumes "page_aligned p" "i < 512"
  shows "unat (p + 8 * i) = unat p + 8 * unat i"
proof -
  have i: "unat i < 512" using assms(2) by (simp add: word_less_nat_alt)
  have "unat (8 * i) = 8 * unat i" using i by (simp add: unat_word_ariths)
  moreover have "unat p + 8 * unat i < 2 ^ 64" using page_aligned_le [OF assms(1)] i by simp
  ultimately show ?thesis by (simp add: unat_word_ariths)
qed

lemma entry_aligned8 [simp]: "page_aligned p \<Longrightarrow> i < 512 \<Longrightarrow> aligned8 (p + 8 * i)"
  using page_aligned_aligned8 [of p] by (simp add: aligned8_def unat_entry)

lemma entry_in_page: "page_aligned p \<Longrightarrow> i < 512 \<Longrightarrow> in_page p (p + 8 * i)"
  using unat_entry [of p i] by (simp add: in_page_unat word_less_nat_alt)

lemma entry_inj:
  assumes "page_aligned p" "page_aligned q" "i < 512" "j < 512" "p + 8 * i = q + 8 * j"
  shows "p = q \<and> i = j"
proof -
  have "p = q"
    using entry_in_page [OF assms(1,3)] entry_in_page [OF assms(2,4)] in_page_disjoint [OF assms(1,2)] assms(5)
    by metis
  moreover from this have "unat p + 8 * unat i = unat p + 8 * unat j"
    using unat_entry [OF assms(1,3)] unat_entry [OF assms(2,4)] assms(5) by simp
  ultimately show ?thesis by (simp add: word_unat_eq_iff)
qed

lemma pte_valid_or [simp]: "pte_valid (x OR PTE_V)"
proof -
  have "(x OR PTE_V) AND PTE_V = PTE_V" by (simp add: word_ao_absorbs)
  then show ?thesis by (simp add: pte_valid_def) (simp add: PTE_V_def)
qed

lemma pte_valid_or3 [simp]: "pte_valid (x OR y OR PTE_V)"
  using pte_valid_or [of "x OR y"] by (simp only: or.assoc)

lemma PTE2PA_PA2PTE:
  assumes "page_aligned pa" "unat pa < 2 ^ 54" "drop_bit 10 flags = 0"
  shows "PTE2PA (PA2PTE pa OR flags) = pa"
proof (rule bit_word_eqI)
  fix n
  assume n: "n < LENGTH(64)"
  have lo: "\<not> bit pa n" if "n < 12"
  proof -
    have "take_bit 12 pa = 0" using assms(1)
      by (simp add: page_aligned_def word_unat_eq_iff take_bit_eq_mod unat_mod)
    then have "\<not> bit (take_bit 12 pa) n" by simp
    with that show ?thesis by (simp add: bit_simps)
  qed
  have hi: "\<not> bit pa n" if "54 \<le> n"
  proof -
    have "take_bit 54 pa = pa" using assms(2)
      by (simp add: word_unat_eq_iff unsigned_take_bit_eq take_bit_nat_eq_self)
    then have "bit pa n = bit (take_bit 54 pa) n" by simp
    with that show ?thesis by (simp add: bit_simps)
  qed
  have fl: "\<not> bit flags (10 + m)" for m
    using assms(3) by (metis bit_drop_bit_eq bit_0_eq bot_apply bot_bool_def comp_apply)
  show "bit (PTE2PA (PA2PTE pa OR flags)) n = bit pa n"
  proof (cases "n < 12")
    case True
    with lo show ?thesis by (simp add: PTE2PA_def bit_simps)
  next
    case False
    then obtain m where m: "n = 12 + m" using le_Suc_ex [of 12 n] by auto
    with n hi fl [of m] show ?thesis by (auto simp: PTE2PA_def PA2PTE_def bit_simps)
  qed
qed

section \<open>Trees of tables\<close>

text \<open>
  \<open>f1 i\<close> is the middle table behind entry \<open>i\<close> of the root, \<open>f0 (i, j)\<close> the leaf table behind
  entry \<open>j\<close> of that one.
\<close>

type_synonym tables1 = "u64 \<Rightarrow> u64 option"
type_synonym tables0 = "u64 \<times> u64 \<Rightarrow> u64 option"

definition links_to :: "u64 \<Rightarrow> u64 option \<Rightarrow> bool" where
  "links_to e c = (case c of None \<Rightarrow> \<not> pte_valid e | Some p \<Rightarrow> pte_valid e \<and> PTE2PA e = p)"

definition tables :: "u64 \<Rightarrow> tables1 \<Rightarrow> tables0 \<Rightarrow> u64 set" where
  "tables r f1 f0 = insert r (ran f1 \<union> ran f0)"

definition pt_shape :: "u64 \<Rightarrow> tables1 \<Rightarrow> tables0 \<Rightarrow> bool" where
  "pt_shape r f1 f0 \<longleftrightarrow> r \<notin> ran f1 \<and> r \<notin> ran f0 \<and> ran f1 \<inter> ran f0 = {} \<and>
     inj_on f1 (dom f1) \<and> inj_on f0 (dom f0) \<and> (\<forall>i j. f0 (i, j) \<noteq> None \<longrightarrow> f1 i \<noteq> None)"

definition pt_links :: "memory \<Rightarrow> u64 \<Rightarrow> tables1 \<Rightarrow> tables0 \<Rightarrow> bool" where
  "pt_links m r f1 f0 \<longleftrightarrow> (\<forall>i < 512. links_to (load64 m (r + 8 * i)) (f1 i)) \<and>
     (\<forall>i p. f1 i = Some p \<longrightarrow> (\<forall>j < 512. links_to (load64 m (p + 8 * j)) (f0 (i, j))))"

definition vm_ok :: "'a phys_scheme \<Rightarrow> u64 \<Rightarrow> tables1 \<Rightarrow> tables0 \<Rightarrow> u64 list \<Rightarrow> bool" where
  "vm_ok s r f1 f0 xs \<longleftrightarrow> kmem_wf s xs \<and> (\<forall>p \<in> tables r f1 f0. page_ok s p) \<and>
     tables r f1 f0 \<inter> set xs = {} \<and> pt_shape r f1 f0 \<and> pt_links (mem s) r f1 f0"

text \<open>The map: the valid entry of the page of \<open>va\<close>, if there is one.\<close>

definition leaf_table :: "tables0 \<Rightarrow> u64 \<Rightarrow> u64 option" where
  "leaf_table f0 va = f0 (PX 2 va, PX 1 va)"

definition pmap :: "memory \<Rightarrow> tables0 \<Rightarrow> u64 \<Rightarrow> u64 option" where
  "pmap m f0 va = (case leaf_table f0 va of None \<Rightarrow> None
     | Some q \<Rightarrow> let e = load64 m (q + 8 * PX 0 va) in if pte_valid e then Some e else None)"

definition same_page :: "u64 \<Rightarrow> u64 \<Rightarrow> bool" where
  "same_page va va' \<longleftrightarrow> PX 2 va = PX 2 va' \<and> PX 1 va = PX 1 va' \<and> PX 0 va = PX 0 va'"

lemma vm_ok_tables: "vm_ok s r f1 f0 xs \<Longrightarrow> p \<in> tables r f1 f0 \<Longrightarrow> page_aligned p \<and> p \<notin> set xs \<and> p \<noteq> 0"
  by (auto simp: vm_ok_def page_ok_def)

lemma tables_memb: "r \<in> tables r f1 f0" "f1 i = Some p \<Longrightarrow> p \<in> tables r f1 f0"
  "f0 ij = Some q \<Longrightarrow> q \<in> tables r f1 f0"
  by (auto simp: tables_def ran_def)

lemma walk_lookup:
  assumes ok: "vm_ok s r f1 f0 xs"
  shows "walk_from 2 r va False s =
    ((case leaf_table f0 va of None \<Rightarrow> 0 | Some q \<Rightarrow> q + 8 * PX 0 va), s)"
proof -
  have l1: "links_to (load64 (mem s) (r + 8 * PX 2 va)) (f1 (PX 2 va))"
    using ok PX_less by (simp add: vm_ok_def pt_links_def)
  have up: "f0 (PX 2 va, PX 1 va) \<noteq> None \<Longrightarrow> f1 (PX 2 va) \<noteq> None"
    using ok unfolding vm_ok_def pt_shape_def by blast
  show ?thesis
  proof (cases "f1 (PX 2 va)")
    case None
    with l1 up show ?thesis by (cases "f0 (PX 2 va, PX 1 va)")
        (simp_all add: numeral_2_eq_2 pte_at_def links_to_def leaf_table_def)
  next
    case (Some p)
    then have l0: "links_to (load64 (mem s) (p + 8 * PX 1 va)) (f0 (PX 2 va, PX 1 va))"
      using ok PX_less by (simp add: vm_ok_def pt_links_def)
    show ?thesis
      using Some l1 l0 by (cases "f0 (PX 2 va, PX 1 va)")
        (simp_all add: numeral_2_eq_2 pte_at_def links_to_def leaf_table_def)
  qed
qed

section \<open>Changing one entry\<close>

lemma load64_store_entry:
  assumes "page_aligned p" "i < 512" "page_aligned q" "j < 512"
  shows "load64 (store64 m (p + 8 * i) v) (q + 8 * j) = (if p = q \<and> i = j then v else load64 m (q + 8 * j))"
proof (cases "p = q \<and> i = j")
  case False
  with entry_inj [OF assms(1,3,2,4)] have "p + 8 * i \<noteq> q + 8 * j" by blast
  with assms have "load64 (store64 m (p + 8 * i) v) (q + 8 * j) = load64 m (q + 8 * j)"
    by (intro load64_store64_other) simp_all
  then show ?thesis by (simp only: False if_False)
qed simp

lemma load64_store_page:
  "page_aligned p \<Longrightarrow> i < 512 \<Longrightarrow> page_aligned q \<Longrightarrow> p \<noteq> q \<Longrightarrow>
     load64 (store64 m (p + 8 * i) v) q = load64 m q"
  using load64_store_entry [of p i q 0 m v] by simp

lemma kmem_wf_store_entry:
  assumes wf: "kmem_wf s xs" and p: "page_aligned p" "i < 512" "p \<notin> set xs"
  shows "kmem_wf (s\<lparr>mem := store64 (mem s) (p + 8 * i) v\<rparr>) xs"
proof -
  have "chain (store64 (mem s) (p + 8 * i) v) (freelist s) xs"
  proof (subst chain_cong [of xs _ "mem s"])
    fix x
    assume x: "x \<in> set xs"
    then have "page_aligned x" using wf by (auto simp: kmem_wf_def page_ok_def)
    moreover have "p \<noteq> x" using x p by blast
    ultimately show "load64 (store64 (mem s) (p + 8 * i) v) x = load64 (mem s) x"
      using p by (simp add: load64_store_page)
  qed (use wf in \<open>simp add: kmem_wf_def\<close>)
  with wf show ?thesis by (simp add: kmem_wf_def page_ok_def)
qed

text \<open>A store to an entry of a leaf table changes the map at one page only.\<close>

lemma store_leaf:
  fixes v :: u64
  assumes ok: "vm_ok s r f1 f0 xs" and q: "leaf_table f0 va = Some q"
    and s': "s' = s\<lparr>mem := store64 (mem s) (q + 8 * PX 0 va) v\<rparr>"
  shows "vm_ok s' r f1 f0 xs"
    "pmap (mem s') f0 va' = (if same_page va va' then if pte_valid v then Some v else None
       else pmap (mem s) f0 va')"
proof -
  have qt: "q \<in> tables r f1 f0" using q by (auto simp: leaf_table_def intro: tables_memb)
  note qa = vm_ok_tables [OF ok qt]
  have other: "load64 (mem s') (p + 8 * j) = load64 (mem s) (p + 8 * j)"
    if "p \<in> tables r f1 f0" "j < 512" "p \<noteq> q" for p j
    using that qa vm_ok_tables [OF ok that(1)] PX_less by (simp add: s' load64_store_entry)
  have "q \<noteq> r" "q \<notin> ran f1" using ok q by (auto simp: vm_ok_def pt_shape_def leaf_table_def ran_def)
  then have "pt_links (mem s') r f1 f0"
    using ok other tables_memb unfolding vm_ok_def pt_links_def by (metis ranI)
  moreover have "kmem_wf s' xs" unfolding s' using ok qa PX_less by (simp add: kmem_wf_store_entry vm_ok_def)
  ultimately show "vm_ok s' r f1 f0 xs" using ok by (simp add: vm_ok_def s' page_ok_def)
  show "pmap (mem s') f0 va' = (if same_page va va' then if pte_valid v then Some v else None
       else pmap (mem s) f0 va')"
  proof (cases "leaf_table f0 va'")
    case None
    with q have "\<not> same_page va va'" by (auto simp: same_page_def leaf_table_def)
    with None show ?thesis by (simp add: pmap_def)
  next
    case (Some q')
    have iff: "q' = q \<longleftrightarrow> PX 2 va = PX 2 va' \<and> PX 1 va = PX 1 va'"
    proof
      assume "q' = q"
      moreover have "inj_on f0 (dom f0)" using ok by (simp add: vm_ok_def pt_shape_def)
      ultimately have "(PX 2 va, PX 1 va) = (PX 2 va', PX 1 va')"
        using q Some by (intro inj_onD [of f0 "dom f0"]) (auto simp: leaf_table_def)
      then show "PX 2 va = PX 2 va' \<and> PX 1 va = PX 1 va'" by simp
    qed (use q Some in \<open>simp add: leaf_table_def\<close>)
    have "page_aligned q'" using vm_ok_tables [OF ok] Some by (auto simp: leaf_table_def intro: tables_memb)
    then have "load64 (mem s') (q' + 8 * PX 0 va') =
        (if same_page va va' then v else load64 (mem s) (q' + 8 * PX 0 va'))"
      using qa iff PX_less by (auto simp: s' load64_store_entry same_page_def)
    with Some show ?thesis by (simp add: pmap_def Let_def)
  qed
qed

section \<open>A new table\<close>

lemma entry_byte_in_page:
  assumes "page_aligned p" "i < 512" "k < 8"
  shows "in_page p (p + 8 * i + of_nat k)"
proof -
  have i: "unat i < 512" using assms(2) by (simp add: word_less_nat_alt)
  have "unat (p + 8 * i + of_nat k) = unat p + 8 * unat i + k"
    using aligned8_plus [of "p + 8 * i" k] assms by (simp add: unat_entry)
  then show ?thesis using assms(1,3) i by (simp add: in_page_unat)
qed

lemma foldr_skip: "foldr (\<lambda>i w. w) xs z = z"
  by (induction xs) auto

lemma load64_zero: "(\<And>k. k < 8 \<Longrightarrow> m (a + of_nat k) = 0) \<Longrightarrow> load64 m a = 0"
proof -
  assume z: "\<And>k. k < 8 \<Longrightarrow> m (a + of_nat k) = 0"
  have "load64 m a = load64 (\<lambda>_. 0) a" by (rule load64_cong) (simp add: z)
  also have "\<dots> = 0" by (simp add: load64_def foldr_skip)
  finally show ?thesis .
qed

lemma new_table:
  assumes ok: "vm_ok s r f1 f0 (x # xs)" and p: "p \<in> tables r f1 f0" "i < 512" and al: "kalloc s = (x', s1)"
    and s2: "s2 = s1\<lparr>mem := store64 (memset (mem s1) x 0 (unat PGSIZE)) (p + 8 * i) (PA2PTE x OR PTE_V)\<rparr>"
  shows "x' = x" "kmem_wf s2 xs" "page_ok s2 = page_ok s" "page_ok s x" "x \<notin> tables r f1 f0"
    "\<And>j. j < 512 \<Longrightarrow> load64 (mem s2) (x + 8 * j) = 0"
    "\<And>q j. page_aligned q \<Longrightarrow> q \<noteq> x \<Longrightarrow> j < 512 \<Longrightarrow> load64 (mem s2) (q + 8 * j) =
       (if p = q \<and> i = j then PA2PTE x OR PTE_V else load64 (mem s) (q + 8 * j))"
proof -
  have wf: "kmem_wf s (x # xs)" using ok by (simp add: vm_ok_def)
  from kalloc_wf [OF this] al have x: "x' = x" and wf1: "kmem_wf s1 xs" and xok: "page_ok s x" and nx: "x \<notin> set xs"
    and m1: "\<And>y. mem s1 y = (if in_page x y then 5 else mem s y)"
    and s1: "s1 = s\<lparr>mem := mem s1, freelist := freelist s1\<rparr>" by auto
  show "x' = x" "page_ok s x" by fact+
  show xt: "x \<notin> tables r f1 f0" using ok by (auto simp: vm_ok_def)
  have xa: "page_aligned x" using xok by (simp add: page_ok_def)
  note pa = vm_ok_tables [OF ok p(1)]
  have "ekernel s1 = ekernel s" by (subst s1) simp
  then show pok: "page_ok s2 = page_ok s" by (intro ext) (simp add: s2 page_ok_def)
  let ?m = "memset (mem s1) x 0 (unat PGSIZE)"
  have m: "?m y = (if in_page x y then 0 else mem s y)" for y using m1 by (simp add: memset_page del: unat_PGSIZE)
  have "kmem_wf (s1\<lparr>mem := ?m\<rparr>) xs"
  proof -
    have "chain ?m (freelist s1) xs"
    proof (subst chain_cong [of xs ?m "mem s1"])
      fix y
      assume "y \<in> set xs"
      then show "load64 ?m y = load64 (mem s1) y"
        using nx xa wf1 by (intro load64_memset_other) (auto simp: kmem_wf_def page_ok_def)
    qed (use wf1 in \<open>simp add: kmem_wf_def\<close>)
    with wf1 show ?thesis by (simp add: kmem_wf_def page_ok_def)
  qed
  from kmem_wf_store_entry [OF this _ p(2), of p] pa show "kmem_wf s2 xs" by (simp add: s2)
  have px: "p \<noteq> x" using p(1) xt by blast
  have other: "load64 ?m (q + 8 * j) = load64 (mem s) (q + 8 * j)" if q: "page_aligned q" "q \<noteq> x" "j < 512" for q j
    using q in_page_disjoint [OF q(1) xa q(2)] entry_byte_in_page [OF q(1,3)]
    by (intro load64_cong) (simp add: m del: unat_PGSIZE)
  have zero: "load64 ?m (x + 8 * j) = 0" if "j < 512" for j
    using entry_byte_in_page [OF xa that] by (intro load64_zero) (simp add: m del: unat_PGSIZE)
  show "load64 (mem s2) (x + 8 * j) = 0" if "j < 512" for j
    using zero [OF that] px xa pa p(2) that by (simp add: s2 load64_store_entry del: unat_PGSIZE)
  show "load64 (mem s2) (q + 8 * j) =
       (if p = q \<and> i = j then PA2PTE x OR PTE_V else load64 (mem s) (q + 8 * j))"
    if "page_aligned q" "q \<noteq> x" "j < 512" for q j
    using other [OF that] that pa p(2) by (simp add: s2 load64_store_entry del: unat_PGSIZE)
qed

lemma wf_dist: "vm_ok s r f1 f0 (x # xs) \<Longrightarrow> x \<notin> set xs"
  by (simp add: vm_ok_def kmem_wf_def)

lemma pte_new_page: "page_ok s x \<Longrightarrow> PTE2PA (PA2PTE x OR PTE_V) = x"
  by (rule PTE2PA_PA2PTE) (auto simp: page_ok_def PTE_V_def PHYSTOP_def word_less_nat_alt)

lemma not_valid_0 [simp]: "\<not> pte_valid 0"
  by (simp add: pte_valid_def)

lemma pmap_unchanged:
  assumes "\<And>q j. q \<in> ran f0 \<Longrightarrow> j < 512 \<Longrightarrow> load64 m' (q + 8 * j) = load64 m (q + 8 * j)"
  shows "pmap m' f0 va = pmap m f0 va"
proof (cases "leaf_table f0 va")
  case (Some q)
  then have "q \<in> ran f0" by (auto simp: leaf_table_def ran_def)
  with Some assms PX_less show ?thesis by (simp add: pmap_def)
qed (simp add: pmap_def)

text \<open>A middle table for an empty entry of the root.\<close>

lemma add_middle_table:
  assumes ok: "vm_ok s r f1 f0 (x # xs)" and i: "i < 512" "f1 i = None" and al: "kalloc s = (x', s1)"
    and s2: "s2 = s1\<lparr>mem := store64 (memset (mem s1) x 0 (unat PGSIZE)) (r + 8 * i) (PA2PTE x OR PTE_V)\<rparr>"
  shows "vm_ok s2 r (f1(i \<mapsto> x)) f0 xs \<and> pmap (mem s2) f0 va = pmap (mem s) f0 va"
proof -
  note n = new_table [OF ok tables_memb(1) i(1) al s2]
  have shape: "pt_shape r f1 f0" and links: "pt_links (mem s) r f1 f0" and dis: "tables r f1 f0 \<inter> set (x # xs) = {}"
    and pok: "\<forall>p \<in> tables r f1 f0. page_ok s p" using ok by (simp_all add: vm_ok_def)
  have fresh: "x \<noteq> r" "x \<notin> ran f1" "x \<notin> ran f0" using n(5) by (auto simp: tables_def)
  have none: "f0 (i, j) = None" for j using shape i(2) unfolding pt_shape_def by blast
  have tab: "tables r (f1(i \<mapsto> x)) f0 = insert x (tables r f1 f0)"
    using i(2) by (auto simp: tables_def)
  have "pt_shape r (f1(i \<mapsto> x)) f0"
    using shape fresh i(2) unfolding pt_shape_def by (auto simp: inj_on_def ran_def)
  moreover have "pt_links (mem s2) r (f1(i \<mapsto> x)) f0"
    unfolding pt_links_def
  proof (intro conjI allI impI)
    fix j :: u64
    assume j: "j < 512"
    have ra: "page_aligned r" using vm_ok_tables [OF ok tables_memb(1)] by simp
    show "links_to (load64 (mem s2) (r + 8 * j)) ((f1(i \<mapsto> x)) j)"
      using links j n(7) [OF ra _ j] fresh(1) pte_new_page [OF n(4)] by (auto simp: pt_links_def links_to_def)
  next
    fix h p and j :: u64
    assume h: "(f1(i \<mapsto> x)) h = Some p" and j: "j < 512"
    show "links_to (load64 (mem s2) (p + 8 * j)) (f0 (h, j))"
    proof (cases "h = i")
      case True
      with h none n(6) [OF j] show ?thesis by (simp add: links_to_def)
    next
      case False
      with h have f: "f1 h = Some p" by simp
      have "page_aligned p" using vm_ok_tables [OF ok tables_memb(2) [of f1 h p, OF f]] by simp
      moreover have "p \<noteq> x" "r \<noteq> p" using f fresh shape by (auto simp: ran_def pt_shape_def)
      ultimately show ?thesis using links f j n(7) [of p j] by (simp add: pt_links_def)
    qed
  qed
  ultimately have "vm_ok s2 r (f1(i \<mapsto> x)) f0 xs"
    using n(2-4) dis pok wf_dist [OF ok] by (auto simp: vm_ok_def tab)
  moreover have "pmap (mem s2) f0 va = pmap (mem s) f0 va"
  proof (rule pmap_unchanged)
    fix q and j :: u64
    assume q: "q \<in> ran f0" "j < 512"
    then have "q \<in> tables r f1 f0" by (simp add: tables_def)
    then have "page_aligned q" using vm_ok_tables [OF ok] by simp
    moreover have "q \<noteq> x" "r \<noteq> q" using q fresh shape by (auto simp: pt_shape_def)
    ultimately show "load64 (mem s2) (q + 8 * j) = load64 (mem s) (q + 8 * j)" using n(7) [of q j] q by simp
  qed
  ultimately show ?thesis by simp
qed

text \<open>A leaf table for an empty entry of a middle table.\<close>

lemma add_leaf_table:
  assumes ok: "vm_ok s r f1 f0 (x # xs)" and i: "i < 512" "f1 i = Some p" and j: "j < 512" "f0 (i, j) = None"
    and al: "kalloc s = (x', s1)"
    and s2: "s2 = s1\<lparr>mem := store64 (memset (mem s1) x 0 (unat PGSIZE)) (p + 8 * j) (PA2PTE x OR PTE_V)\<rparr>"
  shows "vm_ok s2 r f1 (f0((i, j) \<mapsto> x)) xs \<and> pmap (mem s2) (f0((i, j) \<mapsto> x)) va = pmap (mem s) f0 va"
proof -
  have pt: "p \<in> tables r f1 f0" using i(2) by (rule tables_memb(2))
  note n = new_table [OF ok pt j(1) al s2]
  have shape: "pt_shape r f1 f0" and links: "pt_links (mem s) r f1 f0" and dis: "tables r f1 f0 \<inter> set (x # xs) = {}"
    and pok: "\<forall>p \<in> tables r f1 f0. page_ok s p" using ok by (simp_all add: vm_ok_def)
  have fresh: "x \<noteq> r" "x \<notin> ran f1" "x \<notin> ran f0" using n(5) by (auto simp: tables_def)
  have tab: "tables r f1 (f0((i, j) \<mapsto> x)) = insert x (tables r f1 f0)"
    using j(2) by (auto simp: tables_def)
  have "p \<noteq> r" "p \<notin> ran f0" using shape i(2) by (auto simp: pt_shape_def ran_def)
  have "pt_shape r f1 (f0((i, j) \<mapsto> x))"
  proof -
    have up: "f1 h \<noteq> None" if "(f0((i, j) \<mapsto> x)) (h, l) \<noteq> None" for h l
    proof (cases "(h, l) = (i, j)")
      case False
      with that have "f0 (h, l) \<noteq> None" by (metis fun_upd_other)
      then show ?thesis using shape unfolding pt_shape_def by blast
    qed (use i(2) in simp)
    have "inj_on (f0((i, j) \<mapsto> x)) (dom (f0((i, j) \<mapsto> x)))"
      using shape fresh(3) j(2) unfolding pt_shape_def by (auto simp: inj_on_def ran_def)
    moreover have rn: "ran (f0((i, j) \<mapsto> x)) = insert x (ran f0)" using j(2) by simp
    ultimately show ?thesis unfolding pt_shape_def
      by (intro conjI allI impI) (use shape fresh up in \<open>auto simp: pt_shape_def rn simp del: fun_upd_apply\<close>)
  qed
  moreover have "pt_links (mem s2) r f1 (f0((i, j) \<mapsto> x))"
    unfolding pt_links_def
  proof (intro conjI allI impI)
    fix h :: u64
    assume h: "h < 512"
    have "page_aligned r" using vm_ok_tables [OF ok tables_memb(1)] by simp
    with links h n(7) [of r h] fresh(1) \<open>p \<noteq> r\<close> show "links_to (load64 (mem s2) (r + 8 * h)) (f1 h)"
      by (simp add: pt_links_def)
  next
    fix h p' and l :: u64
    assume h: "f1 h = Some p'" and l: "l < 512"
    have pa: "page_aligned p'" using vm_ok_tables [OF ok tables_memb(2) [of f1 h p', OF h]] by simp
    have px: "p' \<noteq> x" using h fresh by (auto simp: ran_def)
    have inj: "p = p' \<longleftrightarrow> i = h"
    proof
      assume "p = p'"
      then show "i = h" using shape h i(2) by (auto simp: pt_shape_def intro: inj_onD [of f1 "dom f1"])
    qed (use h i(2) in simp)
    show "links_to (load64 (mem s2) (p' + 8 * l)) ((f0((i, j) \<mapsto> x)) (h, l))"
      using links h l n(7) [OF pa px l] inj pte_new_page [OF n(4)] by (auto simp: pt_links_def links_to_def)
  qed
  ultimately have "vm_ok s2 r f1 (f0((i, j) \<mapsto> x)) xs"
    using n(2-4) dis pok wf_dist [OF ok] by (auto simp: vm_ok_def tab)
  moreover have "pmap (mem s2) (f0((i, j) \<mapsto> x)) va = pmap (mem s) f0 va"
  proof (cases "PX 2 va = i \<and> PX 1 va = j")
    case True
    then show ?thesis using j(2) n(6) [OF PX_less] by (simp add: pmap_def leaf_table_def)
  next
    case False
    then have "leaf_table (f0((i, j) \<mapsto> x)) va = leaf_table f0 va" by (auto simp: leaf_table_def)
    then have "pmap (mem s2) (f0((i, j) \<mapsto> x)) va = pmap (mem s2) f0 va" by (simp add: pmap_def)
    also have "\<dots> = pmap (mem s) f0 va"
    proof (rule pmap_unchanged)
      fix q and l :: u64
      assume q: "q \<in> ran f0" "l < 512"
      then have "q \<in> tables r f1 f0" by (simp add: tables_def)
      then have "page_aligned q" using vm_ok_tables [OF ok] by simp
      moreover have "q \<noteq> x" "p \<noteq> q" using q fresh \<open>p \<notin> ran f0\<close> by auto
      ultimately show "load64 (mem s2) (q + 8 * l) = load64 (mem s) (q + 8 * l)" using n(7) [of q l] q by simp
    qed
    finally show ?thesis .
  qed
  ultimately show ?thesis by simp
qed

section \<open>walk\<close>

text \<open>\<open>grown va\<close>: tables were added on the way to \<open>va\<close> only, each from one page of the free list.\<close>

definition grown :: "u64 \<Rightarrow> tables1 \<Rightarrow> tables0 \<Rightarrow> u64 list \<Rightarrow> tables1 \<Rightarrow> tables0 \<Rightarrow> u64 list \<Rightarrow> bool" where
  "grown va f1 f0 xs f1' f0' xs' \<longleftrightarrow> dom f1' \<subseteq> insert (PX 2 va) (dom f1) \<and>
     dom f0' \<subseteq> insert (PX 2 va, PX 1 va) (dom f0) \<and>
     (finite (dom f1) \<longrightarrow> finite (dom f0) \<longrightarrow>
       length xs' + card (dom f1') + card (dom f0') = length xs + card (dom f1) + card (dom f0))"

lemma grown_refl [simp]: "grown va f1 f0 xs f1 f0 xs"
  by (auto simp: grown_def)

lemma grown_middle: "f1 (PX 2 va) = None \<Longrightarrow> grown va f1 f0 (x # xs) (f1(PX 2 va \<mapsto> x)) f0 xs"
  by (auto simp: grown_def domIff)

lemma grown_leaf: "f0 (PX 2 va, PX 1 va) = None \<Longrightarrow> grown va f1 f0 (x # xs) f1 (f0((PX 2 va, PX 1 va) \<mapsto> x)) xs"
  by (auto simp: grown_def domIff)

lemma grown_trans:
  assumes "grown va f1 f0 xs f1' f0' xs'" "grown va f1' f0' xs' f1'' f0'' xs''"
  shows "grown va f1 f0 xs f1'' f0'' xs''"
proof -
  have "finite (dom f1) \<Longrightarrow> finite (dom f1')" "finite (dom f0) \<Longrightarrow> finite (dom f0')"
    using assms(1) unfolding grown_def by (meson finite_insert finite_subset)+
  moreover have "dom f1'' \<subseteq> insert (PX 2 va) (dom f1)" "dom f0'' \<subseteq> insert (PX 2 va, PX 1 va) (dom f0)"
    using assms unfolding grown_def by blast+
  ultimately show ?thesis using assms unfolding grown_def by (metis (no_types))
qed

text \<open>
  \<^verbatim>\<open>walk\<close> with \<^verbatim>\<open>alloc\<close>: the map stays; the result is 0 when the free list ran out and the
  address of the entry of \<open>va\<close> otherwise.
\<close>

lemma walk_leaf_alloc:
  assumes ok: "vm_ok s r f1 f0 xs" and f: "f1 (PX 2 va) = Some p" and w: "walk_from 1 p va True s = (pte, s')"
  shows "\<exists>f0' xs'. vm_ok s' r f1 f0' xs' \<and> (\<forall>v. pmap (mem s') f0' v = pmap (mem s) f0 v) \<and>
    grown va f1 f0 xs f1 f0' xs' \<and>
    (if pte = 0 then xs = [] else \<exists>q. leaf_table f0' va = Some q \<and> pte = q + 8 * PX 0 va)"
proof (cases "f0 (PX 2 va, PX 1 va)")
  case (Some q)
  have "links_to (load64 (mem s) (p + 8 * PX 1 va)) (f0 (PX 2 va, PX 1 va))"
    using ok f PX_less by (simp add: vm_ok_def pt_links_def)
  with Some w have e: "pte = q + 8 * PX 0 va" "s' = s"
    by (simp_all add: pte_at_def links_to_def Let_def)
  have "q \<in> tables r f1 f0" using Some by (rule tables_memb(3))
  then have "q + 8 * PX 0 va \<noteq> 0"
    using vm_ok_tables [OF ok] entry_in_page [OF _ PX_less] unat_entry [OF _ PX_less]
    by (metis add_is_0 unat_0 unat_eq_zero)
  with ok Some e show ?thesis by (intro exI [of _ f0] exI [of _ xs]) (simp add: leaf_table_def)
next
  case None
  have l: "links_to (load64 (mem s) (p + 8 * PX 1 va)) (f0 (PX 2 va, PX 1 va))"
    using ok f PX_less by (simp add: vm_ok_def pt_links_def)
  show ?thesis
  proof (cases xs)
    case Nil
    then have "kalloc s = (0, s)" using ok kalloc_empty [of s] by (simp add: vm_ok_def)
    with None l w have "pte = 0" "s' = s" by (simp_all add: pte_at_def links_to_def Let_def)
    with ok Nil show ?thesis by (intro exI [of _ f0] exI [of _ xs]) simp
  next
    case (Cons x xs')
    obtain x' s1 where al: "kalloc s = (x', s1)" by fastforce
    let ?s2 = "s1\<lparr>mem := store64 (memset (mem s1) x 0 (unat PGSIZE)) (p + 8 * PX 1 va) (PA2PTE x OR PTE_V)\<rparr>"
    note n = new_table [OF ok [unfolded Cons] tables_memb(2) [of f1 _ p, OF f] PX_less [of 1 va] al refl]
    have x: "x \<noteq> 0" using n(4) by (simp add: page_ok_def)
    have w': "pte = x + 8 * PX 0 va" "s' = ?s2"
      using w None l al n(1) x by (simp_all add: pte_at_def links_to_def Let_def)
    note a = add_leaf_table [OF ok [unfolded Cons] PX_less f PX_less None al refl]
    have "page_aligned x" using n(4) by (simp add: page_ok_def)
    then have "x + 8 * PX 0 va \<noteq> 0" using x unat_entry [OF _ PX_less]
      by (metis add_is_0 unat_0 unat_eq_zero)
    with a w' Cons show ?thesis
      by (intro exI [of _ "f0((PX 2 va, PX 1 va) \<mapsto> x)"] exI [of _ xs']) (simp add: leaf_table_def grown_leaf [of f0 va, OF None, simplified])
  qed
qed

lemma walk_alloc:
  assumes ok: "vm_ok s r f1 f0 xs" and w: "walk r va True s = Some (pte, s')"
  shows "\<exists>f1' f0' xs'. vm_ok s' r f1' f0' xs' \<and> (\<forall>v. pmap (mem s') f0' v = pmap (mem s) f0 v) \<and>
    grown va f1 f0 xs f1' f0' xs' \<and>
    (if pte = 0 then length xs < 2 else \<exists>q. leaf_table f0' va = Some q \<and> pte = q + 8 * PX 0 va)"
proof -
  have w: "walk_from 2 r va True s = (pte, s')" using w by (simp add: walk_def split: if_splits)
  have l: "links_to (load64 (mem s) (r + 8 * PX 2 va)) (f1 (PX 2 va))"
    using ok PX_less by (simp add: vm_ok_def pt_links_def)
  show ?thesis
  proof (cases "f1 (PX 2 va)")
    case (Some p)
    with w l have "walk_from 1 p va True s = (pte, s')"
      by (simp add: numeral_2_eq_2 pte_at_def links_to_def Let_def)
    from walk_leaf_alloc [OF ok Some this] obtain f0' xs' where "vm_ok s' r f1 f0' xs'"
      "\<forall>v. pmap (mem s') f0' v = pmap (mem s) f0 v" "grown va f1 f0 xs f1 f0' xs'"
      "if pte = 0 then xs = [] else \<exists>q. leaf_table f0' va = Some q \<and> pte = q + 8 * PX 0 va" by blast
    then show ?thesis by (intro exI [of _ f1] exI [of _ f0'] exI [of _ xs']) (auto split: if_splits)
  next
    case None
    show ?thesis
    proof (cases xs)
      case Nil
      then have "kalloc s = (0, s)" using ok kalloc_empty [of s] by (simp add: vm_ok_def)
      with None l w have "pte = 0" "s' = s"
        by (simp_all add: numeral_2_eq_2 pte_at_def links_to_def Let_def)
      with ok Nil show ?thesis by (intro exI [of _ f1] exI [of _ f0] exI [of _ xs]) simp
    next
      case (Cons x ys)
      obtain x' s1 where al: "kalloc s = (x', s1)" by fastforce
      let ?s2 = "s1\<lparr>mem := store64 (memset (mem s1) x 0 (unat PGSIZE)) (r + 8 * PX 2 va) (PA2PTE x OR PTE_V)\<rparr>"
      note n = new_table [OF ok [unfolded Cons] tables_memb(1) PX_less [of 2 va] al refl]
      have "x \<noteq> 0" using n(4) by (simp add: page_ok_def)
      then have w1: "walk_from 1 x va True ?s2 = (pte, s')"
        using w None l al n(1) by (simp add: numeral_2_eq_2 pte_at_def links_to_def Let_def)
      note a = add_middle_table [OF ok [unfolded Cons] PX_less None al refl]
      then have ok2: "vm_ok ?s2 r (f1(PX 2 va \<mapsto> x)) f0 ys" by blast
      from walk_leaf_alloc [OF ok2 _ w1] obtain f0' xs' where "vm_ok s' r (f1(PX 2 va \<mapsto> x)) f0' xs'"
        "\<forall>v. pmap (mem s') f0' v = pmap (mem ?s2) f0 v" "grown va (f1(PX 2 va \<mapsto> x)) f0 ys (f1(PX 2 va \<mapsto> x)) f0' xs'"
        "if pte = 0 then ys = [] else \<exists>q. leaf_table f0' va = Some q \<and> pte = q + 8 * PX 0 va" by auto
      with a Cons grown_trans [OF grown_middle [of f1 va, OF None] this(3)] show ?thesis
        by (intro exI [of _ "f1(PX 2 va \<mapsto> x)"] exI [of _ f0'] exI [of _ xs']) (auto split: if_splits)
    qed
  qed
qed

section \<open>One page mapped, one page unmapped\<close>

lemma same_page_refl [simp]: "same_page va va"
  by (simp add: same_page_def)

lemma mappages_page:
  assumes ok: "vm_ok s r f1 f0 xs" and m: "mappages_from r a a pa perm s = Some (res, s')"
  shows "\<exists>f1' f0' xs'. vm_ok s' r f1' f0' xs' \<and> grown a f1 f0 xs f1' f0' xs' \<and>
    (if res = 0 then pmap (mem s) f0 a = None \<and>
       (\<forall>v. pmap (mem s') f0' v = (if same_page a v then Some (PA2PTE pa OR perm OR PTE_V) else pmap (mem s) f0 v))
     else res = - 1 \<and> (pmap (mem s) f0 a \<noteq> None \<or> length xs < 2) \<and>
       (\<forall>v. pmap (mem s') f0' v = pmap (mem s) f0 v))"
proof -
  from m obtain pte s1 where w: "walk r a True s = Some (pte, s1)"
    by (subst (asm) mappages_from.simps) (auto split: bind_splits)
  from walk_alloc [OF ok w] obtain f1' f0' xs' where ok1: "vm_ok s1 r f1' f0' xs'"
    and same: "\<forall>v. pmap (mem s1) f0' v = pmap (mem s) f0 v" and g: "grown a f1 f0 xs f1' f0' xs'"
    and pte: "if pte = 0 then length xs < 2 else \<exists>q. leaf_table f0' a = Some q \<and> pte = q + 8 * PX 0 a" by blast
  show ?thesis
  proof (cases "pte = 0")
    case True
    with m w have "res = - 1" "s' = s1" by (subst (asm) mappages_from.simps, simp)+
    with ok1 same pte True g show ?thesis by auto
  next
    case False
    with pte obtain q where q: "leaf_table f0' a = Some q" "pte = q + 8 * PX 0 a" by auto
    then have e: "pmap (mem s1) f0' a = (if pte_valid (load64 (mem s1) pte) then Some (load64 (mem s1) pte) else None)"
      by (simp add: pmap_def Let_def)
    show ?thesis
    proof (cases "pte_valid (load64 (mem s1) pte)")
      case True
      with m w False have "res = - 1" "s' = s1" by (subst (asm) mappages_from.simps, simp)+
      moreover have "pmap (mem s) f0 a \<noteq> None" using e True same by (metis option.distinct(1))
      ultimately show ?thesis using ok1 same g by auto
    next
      case invalid: False
      then have s': "res = 0" "s' = s1\<lparr>mem := store64 (mem s1) (q + 8 * PX 0 a) (PA2PTE pa OR perm OR PTE_V)\<rparr>"
        using m w False q by (subst (asm) mappages_from.simps, simp)+
      have "pmap (mem s) f0 a = None" using e invalid same by metis
      with store_leaf [OF ok1 q(1) s'(2)] same s'(1) g show ?thesis
        by (intro exI [of _ f1'] exI [of _ f0'] exI [of _ xs']) simp
    qed
  qed
qed

lemma unmap_leaf:
  assumes ok: "vm_ok s r f1 f0 xs" and va: "va < MAXVA"
    and u: "uvmunmap_from r va (va + PGSIZE) False s = Some s'" and gt: "va < va + PGSIZE"
  shows "vm_ok s' r f1 f0 xs \<and>
    (\<forall>v. pmap (mem s') f0 v = (if same_page va v then None else pmap (mem s) f0 v))"
proof -
  have stop: "uvmunmap_from r (va + PGSIZE) (va + PGSIZE) False t = Some t" for t :: "'a phys_scheme"
    by (subst uvmunmap_from.simps) simp
  have w: "walk r va False s = Some ((case leaf_table f0 va of None \<Rightarrow> 0 | Some q \<Rightarrow> q + 8 * PX 0 va), s)"
    using va by (simp add: walk_def walk_lookup [OF ok] not_le)
  show ?thesis
  proof (cases "leaf_table f0 va")
    case None
    with u w gt stop have "s' = s" by (subst (asm) uvmunmap_from.simps) simp
    moreover have "same_page va v \<Longrightarrow> pmap (mem s) f0 v = None" for v
      using None by (simp add: same_page_def leaf_table_def pmap_def)
    ultimately show ?thesis using ok by simp
  next
    case (Some q)
    then have "q \<in> tables r f1 f0" by (auto simp: leaf_table_def intro: tables_memb)
    then have nz: "q + 8 * PX 0 va \<noteq> 0"
      using vm_ok_tables [OF ok] unat_entry [OF _ PX_less] by (metis add_is_0 unat_0 unat_eq_zero)
    have "s' = s\<lparr>mem := store64 (mem s) (q + 8 * PX 0 va) 0\<rparr>"
      using u w gt stop Some nz by (subst (asm) uvmunmap_from.simps) (auto simp: Let_def split: if_splits bind_splits)
    from store_leaf [OF ok Some this] show ?thesis by simp
  qed
qed

section \<open>Address spaces\<close>

text \<open>
  The interface the rest of the kernel uses: \<open>rep s M\<close> says that the state implements the map
  \<open>M\<close>. \<open>map1\<close> adds a page, \<open>unmap1\<close> removes one.
\<close>

locale address_space =
  fixes rep :: "'s \<Rightarrow> ('va \<Rightarrow> 'e option) \<Rightarrow> bool"
    and same :: "'va \<Rightarrow> 'va \<Rightarrow> bool"
    and valid :: "'va \<Rightarrow> bool"
    and entry :: "'f \<Rightarrow> 'e"
    and map1 :: "'va \<Rightarrow> 'f \<Rightarrow> 's \<Rightarrow> (int \<times> 's) option"
    and unmap1 :: "'va \<Rightarrow> 's \<Rightarrow> 's option"
  assumes same_self: "same a a"
    and map1_total: "rep s M \<Longrightarrow> valid a \<Longrightarrow> map1 a e s \<noteq> None"
    and map1_ok: "rep s M \<Longrightarrow> valid a \<Longrightarrow> map1 a e s = Some (0, s') \<Longrightarrow>
      M a = None \<and> rep s' (\<lambda>v. if same a v then Some (entry e) else M v)"
    and map1_fail: "rep s M \<Longrightarrow> valid a \<Longrightarrow> map1 a e s = Some (r, s') \<Longrightarrow> r \<noteq> 0 \<Longrightarrow> rep s' M"
    and unmap1_ok: "rep s M \<Longrightarrow> valid a \<Longrightarrow> unmap1 a s = Some s' \<Longrightarrow>
      rep s' (\<lambda>v. if same a v then None else M v)"
begin

text \<open>Mapping a list of pages, up to the first failure.\<close>

fun map_all :: "('va \<times> 'f) list \<Rightarrow> 's \<Rightarrow> (int \<times> 's) option" where
  "map_all [] s = Some (0, s)"
| "map_all ((a, e) # xs) s = (case map1 a e s of None \<Rightarrow> None
     | Some (r, s') \<Rightarrow> if r \<noteq> 0 then Some (r, s') else map_all xs s')"

fun with_pages :: "('va \<times> 'f) list \<Rightarrow> ('va \<Rightarrow> 'e option) \<Rightarrow> ('va \<Rightarrow> 'e option)" where
  "with_pages [] M = M"
| "with_pages ((a, e) # xs) M = with_pages xs (\<lambda>v. if same a v then Some (entry e) else M v)"

lemma map_all_ok:
  "rep s M \<Longrightarrow> (\<forall>(a, e) \<in> set xs. valid a) \<Longrightarrow>
     \<exists>r s'. map_all xs s = Some (r, s') \<and> (r = 0 \<longrightarrow> rep s' (with_pages xs M)) \<and>
       (r \<noteq> 0 \<longrightarrow> (\<exists>n < length xs. rep s' (with_pages (take n xs) M)))"
proof (induction xs arbitrary: s M)
  case Nil
  then show ?case by simp
next
  case (Cons x xs)
  obtain a e where x: "x = (a, e)" by fastforce
  have v: "valid a" using Cons.prems x by simp
  obtain r s1 where m: "map1 a e s = Some (r, s1)" using map1_total [OF Cons.prems(1) v, of e] by auto
  show ?case
  proof (cases "r = 0")
    case True
    with m map1_ok [OF Cons.prems(1) v] have "rep s1 (\<lambda>v. if same a v then Some (entry e) else M v)" by simp
    from Cons.IH [OF this] Cons.prems(2) obtain r' s' where
      "map_all xs s1 = Some (r', s')" "r' = 0 \<longrightarrow> rep s' (with_pages (x # xs) M)"
      "r' \<noteq> 0 \<longrightarrow> (\<exists>n < length xs. rep s' (with_pages (take (Suc n) (x # xs)) M))"
      by (auto simp: x)
    with m True x show ?thesis by (intro exI [of _ r'] exI [of _ s']) (auto intro: Suc_mono)
  next
    case False
    with m map1_fail [OF Cons.prems(1) v] have "rep s1 M" by simp
    with m False x show ?thesis by (auto intro!: exI [of _ 0])
  qed
qed

end

definition vm_rep :: "u64 \<Rightarrow> 'a phys_scheme \<Rightarrow> (u64 \<Rightarrow> u64 option) \<Rightarrow> bool" where
  "vm_rep r s M \<longleftrightarrow> (\<exists>f1 f0 xs. vm_ok s r f1 f0 xs \<and> M = pmap (mem s) f0)"

text \<open>The pair of physical address and permissions stands for the entry \<^verbatim>\<open>mappages\<close> writes.\<close>

definition map_page :: "u64 \<Rightarrow> u64 \<Rightarrow> u64 \<Rightarrow> u64 \<Rightarrow> 'a phys_scheme \<Rightarrow> (int \<times> 'a phys_scheme) option" where
  "map_page r a pa perm s = mappages_from r a a pa perm s"

lemma map_page_total: "a < MAXVA \<Longrightarrow> map_page r a pa perm s \<noteq> None"
  by (simp add: map_page_def mappages_from.simps walk_def split_beta Let_def)

lemma map_page_rep:
  assumes rep: "vm_rep r s M" and m: "map_page r a pa perm s = Some (res, s')"
  shows "if res = 0 then M a = None \<and> vm_rep r s' (\<lambda>v. if same_page a v then Some (PA2PTE pa OR perm OR PTE_V) else M v)
    else res = - 1 \<and> vm_rep r s' M"
proof -
  from rep obtain f1 f0 xs where ok: "vm_ok s r f1 f0 xs" and M: "M = pmap (mem s) f0"
    unfolding vm_rep_def by blast
  from mappages_page [OF ok m [unfolded map_page_def]] obtain f1' f0' xs' where ok': "vm_ok s' r f1' f0' xs'" and
    res: "if res = 0 then pmap (mem s) f0 a = None \<and>
       (\<forall>v. pmap (mem s') f0' v = (if same_page a v then Some (PA2PTE pa OR perm OR PTE_V) else pmap (mem s) f0 v))
     else res = - 1 \<and> (pmap (mem s) f0 a \<noteq> None \<or> length xs < 2) \<and>
       (\<forall>v. pmap (mem s') f0' v = pmap (mem s) f0 v)" by blast
  show ?thesis
  proof (cases "res = 0")
    case True
    with res have "(\<lambda>v. if same_page a v then Some (PA2PTE pa OR perm OR PTE_V) else M v) = pmap (mem s') f0'"
      by (auto simp: M)
    with True res ok' show ?thesis by (auto simp: vm_rep_def M)
  next
    case False
    with res have "M = pmap (mem s') f0'" by (auto simp: M)
    with False res ok' show ?thesis by (auto simp: vm_rep_def)
  qed
qed

definition valid_page :: "u64 \<Rightarrow> bool" where
  "valid_page a \<longleftrightarrow> a < MAXVA \<and> page_aligned a"

lemma valid_page_next: "valid_page a \<Longrightarrow> a < a + PGSIZE"
  using unat_add_le_no_wrap [of a 4096]
  by (simp add: valid_page_def MAXVA_def PGSIZE_def word_less_nat_alt)

lemma unmap_page_rep:
  assumes rep: "vm_rep r s M" and a: "valid_page a" and u: "uvmunmap r a 1 False s = Some s'"
  shows "vm_rep r s' (\<lambda>v. if same_page a v then None else M v)"
proof -
  from rep obtain f1 f0 xs where ok: "vm_ok s r f1 f0 xs" and M: "M = pmap (mem s) f0"
    unfolding vm_rep_def by blast
  have "uvmunmap_from r a (a + PGSIZE) False s = Some s'"
    using u a by (simp add: uvmunmap_def valid_page_def page_aligned_mod split: if_splits)
  from unmap_leaf [OF ok _ this valid_page_next [OF a]] a
  have "vm_ok s' r f1 f0 xs" "(\<lambda>v. if same_page a v then None else M v) = pmap (mem s') f0"
    by (auto simp: M valid_page_def)
  then show ?thesis by (auto simp: vm_rep_def)
qed

definition page_entry :: "u64 \<times> u64 \<Rightarrow> u64" where
  "page_entry f = PA2PTE (fst f) OR snd f OR PTE_V"

interpretation vm: address_space "vm_rep r" same_page valid_page page_entry
  "\<lambda>a f s. map_page r a (fst f) (snd f) s" "\<lambda>a s. uvmunmap r a 1 False s" for r
proof unfold_locales
  fix s s' :: "'a phys_scheme" and M a f res
  assume rep: "vm_rep r s M" and v: "valid_page a"
  show "map_page r a (fst f) (snd f) s \<noteq> None" using v by (simp add: map_page_total valid_page_def)
  show "M a = None \<and> vm_rep r s' (\<lambda>v. if same_page a v then Some (page_entry f) else M v)"
    if "map_page r a (fst f) (snd f) s = Some (0, s')"
    using map_page_rep [OF rep that] unfolding page_entry_def by simp
  show "vm_rep r s' M" if "map_page r a (fst f) (snd f) s = Some (res, s')" "res \<noteq> 0"
    using map_page_rep [OF rep that(1)] that(2) by simp
  show "vm_rep r s' (\<lambda>v. if same_page a v then None else M v)" if "uvmunmap r a 1 False s = Some s'"
    by (rule unmap_page_rep [OF rep v that])
qed (rule same_page_refl)

text \<open>The loop of \<^verbatim>\<open>mappages\<close> maps the list of its pages.\<close>

fun page_list :: "u64 \<Rightarrow> u64 \<Rightarrow> u64 \<Rightarrow> nat \<Rightarrow> (u64 \<times> u64 \<times> u64) list" where
  "page_list a pa perm 0 = []"
| "page_list a pa perm (Suc n) = (a, pa, perm) # page_list (a + PGSIZE) (pa + PGSIZE) perm n"

lemma mappages_map_all:
  fixes s :: "'a phys_scheme"
  assumes "\<forall>i \<le> n. a + of_nat i * PGSIZE < MAXVA" "\<forall>i < n. a + of_nat i * PGSIZE \<noteq> a + of_nat n * PGSIZE"
  shows "mappages_from r a (a + of_nat n * PGSIZE) pa perm s = vm.map_all r (page_list a pa perm (Suc n)) s"
  using assms
proof (induction n arbitrary: a pa s)
  case 0
  then have "a < MAXVA" by simp
  then have "walk r a True s = Some (walk_from 2 r a True s)" by (simp add: walk_def)
  then show ?case
    by (simp add: map_page_def [of r a pa perm] mappages_from.simps [of r a a] split_beta Let_def)
next
  case (Suc n)
  have e: "a + of_nat (Suc n) * PGSIZE = (a + PGSIZE) + of_nat n * PGSIZE" by (simp add: algebra_simps)
  have lt: "a < MAXVA" and ne: "a \<noteq> a + of_nat (Suc n) * PGSIZE"
    using Suc.prems(1) [rule_format, of 0] Suc.prems(2) [rule_format, of 0] by auto
  have "\<forall>i \<le> n. a + PGSIZE + of_nat i * PGSIZE < MAXVA"
    using Suc.prems(1) by (auto simp: algebra_simps dest: spec [of _ "Suc _"])
  moreover have "\<forall>i < n. a + PGSIZE + of_nat i * PGSIZE \<noteq> a + PGSIZE + of_nat n * PGSIZE"
    using Suc.prems(2) by (auto simp: algebra_simps dest: spec [of _ "Suc _"])
  ultimately have IH: "mappages_from r (a + PGSIZE) (a + PGSIZE + of_nat n * PGSIZE) (pa + PGSIZE) perm t =
      vm.map_all r (page_list (a + PGSIZE) (pa + PGSIZE) perm (Suc n)) t" for t :: "'a phys_scheme"
    by (rule Suc.IH)
  obtain pte s1 where w: "walk r a True s = Some (pte, s1)" using lt
    by (cases "walk_from 2 r a True s") (simp add: walk_def not_le)
  show ?case
    using w ne lt IH unfolding e
    by (subst mappages_from.simps) (simp add: map_page_def [of r a pa perm] mappages_from.simps [of r a a] Let_def)
qed

section \<open>Reads through the map\<close>

lemma walkaddr_map:
  assumes ok: "vm_ok s r f1 f0 xs" and va: "va < MAXVA"
  shows "walkaddr r va s = (case pmap (mem s) f0 va of None \<Rightarrow> 0
    | Some e \<Rightarrow> if e AND PTE_U = 0 then 0 else PTE2PA e)"
proof (cases "leaf_table f0 va")
  case None
  then show ?thesis using va by (simp add: walkaddr_def walk_lookup [OF ok] pmap_def not_le)
next
  case (Some q)
  then have "q \<in> tables r f1 f0" by (auto simp: leaf_table_def intro: tables_memb)
  then have nz: "q + 8 * PX 0 va \<noteq> 0"
    using vm_ok_tables [OF ok] unat_entry [OF _ PX_less] by (metis add_is_0 unat_0 unat_eq_zero)
  have "\<not> MAXVA \<le> va" using va by simp
  with nz show ?thesis using Some
    by (simp add: walkaddr_def walk_lookup [OF ok] pmap_def Let_def pte_valid_def)
qed

lemma PGROUNDDOWN_id: "page_aligned a \<Longrightarrow> PGROUNDDOWN a = a"
  by (auto simp: word_unat_eq_iff unat_PGROUNDDOWN page_aligned_def mod_eq_0_iff_dvd)

lemma PGROUNDDOWN_end:
  assumes al: "page_aligned a"
  shows "PGROUNDDOWN (a + PGSIZE - 1) = a"
proof -
  have "a + PGSIZE - 1 = a + of_nat 4095" by (simp add: PGSIZE_def)
  moreover have "unat (a + of_nat 4095) = unat a + 4095"
    by (rule unat_add_no_wrap [OF page_aligned_le [OF al]]) simp
  moreover obtain k where "unat a = 4096 * k"
    using al by (auto simp: page_aligned_def mod_eq_0_iff_dvd dvd_def)
  ultimately show ?thesis by (simp add: word_unat_eq_iff unat_PGROUNDDOWN)
qed

text \<open>A buffer that lies in one page.\<close>

definition in_one_page :: "u64 \<Rightarrow> nat \<Rightarrow> bool" where
  "in_one_page va n \<longleftrightarrow> 0 < n \<and> unat (va - PGROUNDDOWN va) + n \<le> 4096"

lemma chunk_one_page: "in_one_page va n \<Longrightarrow> chunk va n = n"
  unfolding in_one_page_def chunk_size by (rule min_absorb2) linarith

lemma copyout_one_page:
  assumes "in_one_page va (length src)" "walkaddr r (PGROUNDDOWN va) s \<noteq> 0"
  shows "copyout r va src s =
    (0, s\<lparr>mem := write_bytes (mem s) (walkaddr r (PGROUNDDOWN va) s + (va - PGROUNDDOWN va)) src\<rparr>)"
proof -
  have "src \<noteq> []" using assms(1) by (auto simp: in_one_page_def)
  then show ?thesis using assms
    by (subst copyout.simps) (simp add: Let_def chunk_one_page, subst copyout.simps, simp)
qed

lemma copyin_one_page:
  assumes "in_one_page va n" "walkaddr r (PGROUNDDOWN va) s \<noteq> 0"
  shows "copyin r va n s = (0, read_bytes (mem s) (walkaddr r (PGROUNDDOWN va) s + (va - PGROUNDDOWN va)) n)"
proof -
  have "n \<noteq> 0" using assms(1) by (auto simp: in_one_page_def)
  then show ?thesis using assms
    by (subst copyin.simps) (simp add: Let_def chunk_one_page, subst copyin.simps, simp)
qed

lemma read_write_bytes: "length xs < 2 ^ 64 \<Longrightarrow> read_bytes (write_bytes m a xs) a (length xs) = xs"
  by (rule nth_equalityI) (auto simp: read_bytes_def write_bytes_def unat_of_nat)

lemma write_bytes_outside:
  assumes p: "page_aligned p" and fit: "unat d + length xs \<le> 4096" and y: "\<not> in_page p y"
  shows "write_bytes m (p + d) xs y = m y"
proof -
  have "\<not> unat (y - (p + d)) < length xs"
  proof
    assume lt: "unat (y - (p + d)) < length xs"
    let ?i = "unat (y - (p + d))"
    have "unat (d + of_nat ?i) = unat d + ?i"
      using lt fit by (intro unat_add_no_wrap [of d "length xs"]) simp_all
    then have "unat (y - p) = unat d + ?i" by (simp add: algebra_simps)
    with lt fit y show False by (simp add: in_page_def)
  qed
  then show ?thesis by (simp add: write_bytes_def)
qed

text \<open>A frame is a page that is neither a table nor free.\<close>

definition frame_ok :: "'a phys_scheme \<Rightarrow> u64 \<Rightarrow> tables1 \<Rightarrow> tables0 \<Rightarrow> u64 list \<Rightarrow> u64 \<Rightarrow> bool" where
  "frame_ok s r f1 f0 xs p \<longleftrightarrow> page_ok s p \<and> p \<notin> tables r f1 f0 \<and> p \<notin> set xs"

lemma write_frame:
  assumes ok: "vm_ok s r f1 f0 xs" and p: "frame_ok s r f1 f0 xs p" and fit: "unat d + length src \<le> 4096"
    and s': "s' = s\<lparr>mem := write_bytes (mem s) (p + d) src\<rparr>"
  shows "vm_ok s' r f1 f0 xs \<and> (\<forall>v. pmap (mem s') f0 v = pmap (mem s) f0 v)"
proof -
  have pa: "page_aligned p" using p by (simp add: frame_ok_def page_ok_def)
  have keep: "load64 (mem s') (q + 8 * j) = load64 (mem s) (q + 8 * j)"
    if q: "page_aligned q" "q \<noteq> p" "j < 512" for q j
  proof (rule load64_cong)
    fix i :: nat
    assume "i < 8"
    then have "in_page q (q + 8 * j + of_nat i)" using entry_byte_in_page q by blast
    then have "\<not> in_page p (q + 8 * j + of_nat i)" using in_page_disjoint q pa by blast
    then show "mem s' (q + 8 * j + of_nat i) = mem s (q + 8 * j + of_nat i)"
      by (simp add: s' write_bytes_outside [OF pa fit])
  qed
  have tb: "page_aligned q \<and> q \<noteq> p" if "q \<in> tables r f1 f0" for q
    using vm_ok_tables [OF ok that] p that by (auto simp: frame_ok_def)
  have "kmem_wf s' xs"
  proof -
    have wf: "kmem_wf s xs" using ok by (simp add: vm_ok_def)
    have "chain (mem s') (freelist s) xs"
    proof (subst chain_cong [of xs _ "mem s"])
      fix x
      assume "x \<in> set xs"
      then have "page_aligned x" "x \<noteq> p" using wf p by (auto simp: kmem_wf_def page_ok_def frame_ok_def)
      from keep [OF this, of 0] show "load64 (mem s') x = load64 (mem s) x" by simp
    qed (use wf in \<open>simp add: kmem_wf_def\<close>)
    with wf show ?thesis by (simp add: kmem_wf_def s' page_ok_def)
  qed
  moreover have "pt_links (mem s') r f1 f0"
    using ok keep tb tables_memb unfolding vm_ok_def pt_links_def by metis
  ultimately have "vm_ok s' r f1 f0 xs" using ok by (simp add: vm_ok_def s' page_ok_def)
  moreover have "pmap (mem s') f0 v = pmap (mem s) f0 v" for v
    by (rule pmap_unchanged) (use keep tb in \<open>auto simp: tables_def\<close>)
  ultimately show ?thesis by simp
qed

section \<open>A small machine\<close>

text \<open>An empty root table and two free pages.\<close>

definition demo_root :: u64 where "demo_root = 0x80400000"

definition demo_phys :: phys where
  "demo_phys = \<lparr>mem = store64 (\<lambda>_. 0) 0x80401000 0x80402000, freelist = 0x80401000,
     ekernel = 0x80400000, trampoline = 0x80200000\<rparr>"

lemma demo_vm_ok: "vm_ok demo_phys demo_root Map.empty Map.empty [0x80401000, 0x80402000]"
proof -
  have z: "load64 (\<lambda>_. 0) a = 0" for a by (rule load64_zero) simp
  have al: "page_aligned 0x80400000" "page_aligned 0x80401000" "page_aligned 0x80402000"
    by (simp_all add: page_aligned_def)
  have o: "load64 (store64 (\<lambda>_. 0) 0x80401000 0x80402000) 0x80402000 = 0"
    using load64_store_page [of "0x80401000" 0 "0x80402000"] al by (simp add: z)
  have "kmem_wf demo_phys [0x80401000, 0x80402000]"
    using al o by (simp add: kmem_wf_def demo_phys_def page_ok_def PHYSTOP_def)
  moreover have "pt_links (mem demo_phys) demo_root Map.empty Map.empty"
  proof -
    have "load64 (store64 (\<lambda>_. 0) 0x80401000 0x80402000) (0x80400000 + 8 * i) = 0" if "i < 512" for i
      using load64_store_entry [of "0x80401000" 0 "0x80400000" i] al that by (simp add: z)
    then show ?thesis by (simp add: pt_links_def links_to_def demo_phys_def demo_root_def)
  qed
  ultimately show ?thesis using al
    by (simp add: vm_ok_def tables_def pt_shape_def demo_root_def)
      (simp add: page_ok_def demo_phys_def PHYSTOP_def)
qed

lemma demo_rep: "vm_rep demo_root demo_phys Map.empty"
proof -
  have "pmap (mem demo_phys) Map.empty = Map.empty" by (auto simp: pmap_def leaf_table_def)
  with demo_vm_ok show ?thesis unfolding vm_rep_def by metis
qed

text \<open>One user page at \<open>0x1000\<close>, in the frame \<open>0x80403000\<close>.\<close>

definition demo_user :: phys where
  "demo_user = \<lparr>mem = store64 (store64 (store64 (\<lambda>_. 0) (0x80400000 + 8 * 0) (PA2PTE 0x80401000 OR PTE_V))
       (0x80401000 + 8 * 0) (PA2PTE 0x80402000 OR PTE_V)) (0x80402000 + 8 * 1) (PA2PTE 0x80403000 OR PTE_U OR PTE_V),
     freelist = 0, ekernel = 0x80400000, trampoline = 0x80200000\<rparr>"

lemma demo_user_loads:
  assumes q: "page_aligned q" and i: "i < 512"
  shows "load64 (mem demo_user) (q + 8 * i) =
    (if 0x80402000 = q \<and> 1 = i then PA2PTE 0x80403000 OR PTE_U OR PTE_V
     else if 0x80401000 = q \<and> 0 = i then PA2PTE 0x80402000 OR PTE_V
     else if 0x80400000 = q \<and> 0 = i then PA2PTE 0x80401000 OR PTE_V else 0)"
proof -
  have z: "load64 (\<lambda>_. 0) a = 0" for a by (rule load64_zero) simp
  have al: "page_aligned 0x80400000" "page_aligned 0x80401000" "page_aligned 0x80402000"
    by (simp_all add: page_aligned_def)
  have lt: "(0 :: u64) < 512" "(1 :: u64) < 512" by simp_all
  show ?thesis unfolding demo_user_def phys.select_convs
    by (simp only: load64_store_entry [OF al(3) lt(2) q i] load64_store_entry [OF al(2) lt(1) q i]
        load64_store_entry [OF al(1) lt(1) q i] z)
qed

lemma demo_user_entries:
  "PTE2PA (PA2PTE 0x80401000 OR PTE_V) = 0x80401000" "PTE2PA (PA2PTE 0x80402000 OR PTE_V) = 0x80402000"
  "PTE2PA (PA2PTE 0x80403000 OR PTE_U OR PTE_V) = 0x80403000" "(PA2PTE 0x80403000 OR PTE_U OR PTE_V) AND PTE_U \<noteq> 0"
  by (simp_all add: PA2PTE_def PTE2PA_def PTE_V_def PTE_U_def)

definition demo_f1 :: tables1 where "demo_f1 = [0 \<mapsto> 0x80401000]"
definition demo_f0 :: tables0 where "demo_f0 = [(0, 0) \<mapsto> 0x80402000]"

lemma demo_user_ok: "vm_ok demo_user demo_root demo_f1 demo_f0 []"
proof -
  have al: "page_aligned 0x80400000" "page_aligned 0x80401000" "page_aligned 0x80402000"
    by (simp_all add: page_aligned_def)
  have "load64 (mem demo_user) 0x80401000 = PA2PTE 0x80402000 OR PTE_V"
    using demo_user_loads [OF al(2), of 0] by simp
  then have "pt_links (mem demo_user) demo_root demo_f1 demo_f0"
    using demo_user_loads [OF al(1)] demo_user_loads [OF al(2)]
    by (auto simp: pt_links_def links_to_def demo_root_def demo_f1_def demo_f0_def demo_user_entries)
  then show ?thesis using al
    by (simp add: vm_ok_def tables_def pt_shape_def demo_root_def demo_f1_def demo_f0_def kmem_wf_def)
      (simp add: page_ok_def demo_user_def PHYSTOP_def)
qed

lemma demo_user_map: "pmap (mem demo_user) demo_f0 0x1000 = Some (PA2PTE 0x80403000 OR PTE_U OR PTE_V)"
proof -
  have "PX 2 0x1000 = 0" "PX 1 0x1000 = 0" "PX 0 0x1000 = 1" by (simp_all add: PX_def)
  moreover have "load64 (mem demo_user) (0x80402000 + 8 * 1) = PA2PTE 0x80403000 OR PTE_U OR PTE_V"
    by (subst demo_user_loads) (simp_all add: page_aligned_def)
  ultimately show ?thesis by (simp add: pmap_def leaf_table_def demo_f0_def)
qed

section \<open>Properties\<close>

text \<open>
  Property C5: page tables are maps. On tables that implement \<open>M\<close>, \<^verbatim>\<open>mappages\<close> of one page always
  returns; either 0, and then the page was free in \<open>M\<close> and the tables implement \<open>M\<close> with exactly
  that page added, whatever intermediate tables were allocated; or -1, and they still implement \<open>M\<close>.
\<close>

lemma mappages_updates_map:
  assumes rep: "vm_rep r s M" and a: "valid_page a"
  shows "\<exists>res s'. mappages r a PGSIZE pa perm s = Some (res, s') \<and>
    (if res = 0 then M a = None \<and>
       vm_rep r s' (\<lambda>v. if same_page a v then Some (PA2PTE pa OR perm OR PTE_V) else M v)
     else res = - 1 \<and> vm_rep r s' M)"
proof -
  have "page_aligned a" "a < MAXVA" using a by (simp_all add: valid_page_def)
  then have m: "mappages r a PGSIZE pa perm s = map_page r a pa perm s"
    by (simp add: mappages_def map_page_def PGROUNDDOWN_id PGROUNDDOWN_end)
  obtain res s' where "map_page r a pa perm s = Some (res, s')"
    using map_page_total [OF \<open>a < MAXVA\<close>, of r pa perm s] by auto
  with map_page_rep [OF rep this] m show ?thesis by auto
qed

lemma mappages_updates_map_witness:
  "\<exists>res s'. mappages demo_root 0x1000 PGSIZE 0x80403000 PTE_U demo_phys = Some (res, s') \<and>
    (if res = 0 then Map.empty (0x1000 :: u64) = (None :: u64 option) \<and>
       vm_rep demo_root s' (\<lambda>v. if same_page 0x1000 v then Some (PA2PTE 0x80403000 OR PTE_U OR PTE_V) else Map.empty v)
     else res = - 1 \<and> vm_rep demo_root s' Map.empty)"
  by (rule mappages_updates_map [OF demo_rep]) (simp add: valid_page_def MAXVA_def page_aligned_def)



text \<open>
  Property C12: a buffer in one mapped user page survives the trip. After \<^verbatim>\<open>copyout\<close> of bytes to an
  address whose page is mapped for the user to a frame that is no page table and not free,
  \<^verbatim>\<open>copyin\<close> of the same address returns the bytes, and the map of the address space is unchanged.
\<close>

lemma copyout_copyin:
  assumes ok: "vm_ok s r f1 f0 xs" and va: "PGROUNDDOWN va < MAXVA"
    and e: "pmap (mem s) f0 (PGROUNDDOWN va) = Some e" "e AND PTE_U \<noteq> 0"
    and p: "frame_ok s r f1 f0 xs (PTE2PA e)" and one: "in_one_page va (length src)"
  shows "\<exists>s'. copyout r va src s = (0, s') \<and> copyin r va (length src) s' = (0, src) \<and>
    vm_ok s' r f1 f0 xs \<and> pmap (mem s') f0 = pmap (mem s) f0"
proof -
  let ?p = "PTE2PA e" and ?d = "va - PGROUNDDOWN va"
  let ?s = "s\<lparr>mem := write_bytes (mem s) (?p + ?d) src\<rparr>"
  have fit: "unat ?d + length src \<le> 4096" and n: "length src < 2 ^ 64"
    using one by (simp_all add: in_one_page_def)
  have w: "walkaddr r (PGROUNDDOWN va) s = ?p" using walkaddr_map [OF ok va] e by simp
  have nz: "?p \<noteq> 0" using p by (simp add: frame_ok_def page_ok_def)
  note f = write_frame [OF ok p fit refl]
  then have ok': "vm_ok ?s r f1 f0 xs" and same: "pmap (mem ?s) f0 v = pmap (mem s) f0 v" for v by blast+
  have w': "walkaddr r (PGROUNDDOWN va) ?s = ?p" using walkaddr_map [OF ok' va] e same by simp
  have "copyout r va src s = (0, ?s)" using copyout_one_page [OF one, of r s] w nz by simp
  moreover have "copyin r va (length src) ?s = (0, src)"
    using copyin_one_page [OF one, of r ?s] w' nz read_write_bytes [OF n] by simp
  ultimately show ?thesis using ok' same by blast
qed

lemma copyout_copyin_witness:
  "\<exists>s'. copyout demo_root 0x1010 [1, 2, 3] demo_user = (0, s') \<and> copyin demo_root 0x1010 3 s' = (0, [1, 2, 3])"
proof -
  have r: "PGROUNDDOWN 0x1010 = 0x1000" by (simp add: PGROUNDDOWN_def PGSIZE_def)
  have f: "frame_ok demo_user demo_root demo_f1 demo_f0 [] 0x80403000"
    by (simp add: frame_ok_def page_ok_def page_aligned_def demo_user_def PHYSTOP_def tables_def demo_root_def demo_f1_def demo_f0_def)
  have "in_one_page 0x1010 (length [1 :: u8, 2, 3])" by (simp add: in_one_page_def r)
  from copyout_copyin [OF demo_user_ok, of "0x1010" _ "[1, 2, 3]", unfolded r, OF _ demo_user_map _ _ this]
  show ?thesis using f by (auto simp: demo_user_entries MAXVA_def numeral_3_eq_3)
qed

end
