(* ===== verification/BlockIO.thy ===== *)
theory BlockIO
  imports NpcSched VM Bytes
begin

text \<open>
  \<^verbatim>\<open>os/bio.c\<close>: the cache of disk blocks. A \<^verbatim>\<open>struct buf *\<close> is an index into \<open>bufs\<close>; the
  doubly linked list through \<^verbatim>\<open>bcache.head\<close> is the list \<open>lru\<close> of indices, \<^verbatim>\<open>head.next\<close> first.
  \<open>disk\<close> is the content of the device: block number to its \<open>BSIZE\<close> bytes. A request to the
  device (\<open>virtio_disk_rw\<close>) moves one whole block between \<open>disk\<close> and a buffer; the queue
  of descriptors that carries the request is the subject of \<open>VirtioDisk\<close>.
  \<open>fs_kern\<close> is the kernel state with everything the file layer adds, the characters the
  console has still to deliver (\<open>con_in\<close>) those it was sent (\<open>con_out\<close>),
  and the argument strings \<^verbatim>\<open>sys_exec\<close> keeps in a static array.
\<close>

definition BSIZE :: nat where "BSIZE = 1024"
definition ROOTDEV :: u32 where "ROOTDEV = 1"
definition MAXOPBLOCKS :: nat where "MAXOPBLOCKS = 10"
definition NBUF :: nat where "NBUF = MAXOPBLOCKS * 3"
definition NINODE :: nat where "NINODE = 50"
definition PIPESIZE :: nat where "PIPESIZE = 512"
definition FILEPOOLSIZE :: nat where "FILEPOOLSIZE = NPROC * FD_BUFFER_SIZE"

record buf =
  b_valid :: bool
  b_dev :: u32
  b_blockno :: u32
  b_refcnt :: u32
  b_data :: "u8 list"

record superblock =
  sb_magic :: u32
  sb_size :: u32
  sb_nblocks :: u32
  sb_ninodes :: u32
  sb_inodestart :: u32
  sb_bmapstart :: u32

record inode =
  i_dev :: u32
  i_inum :: u32
  i_ref :: int
  i_valid :: bool
  i_type :: u16
  i_nlink :: u16
  i_size :: u32
  i_addrs :: "u32 list"

record pipe =
  pi_data :: "u8 list"
  pi_nread :: u32
  pi_nwrite :: u32
  pi_readopen :: bool
  pi_writeopen :: bool

datatype filetype = FD_NONE | FD_PIPE | FD_INODE | FD_STDIO

record kfile =
  f_type :: filetype
  f_ref :: int
  f_readable :: bool
  f_writable :: bool
  f_pipe :: u64
  f_ip :: nat
  f_off :: u32

record fs_kern = npc_kern +
  disk :: "u32 \<Rightarrow> u8 list"
  bufs :: "buf list"
  lru :: "nat list"
  sb :: superblock
  itable :: "inode list"
  filepool :: "kfile list"
  pipes :: "u64 \<Rightarrow> pipe"
  con_in :: "int list"
  con_out :: "u8 list"
  strpool :: "u8 list list"

definition the_buf :: "'a fs_kern_scheme \<Rightarrow> nat \<Rightarrow> buf" where
  "the_buf k b = bufs k ! b"

definition map_buf :: "nat \<Rightarrow> (buf \<Rightarrow> buf) \<Rightarrow> 'a fs_kern_scheme \<Rightarrow> 'a fs_kern_scheme" where
  "map_buf b f k = k\<lparr>bufs := upd_at b f (bufs k)\<rparr>"

section \<open>The operations\<close>

text \<open>Each buffer is linked in behind the head, so the last one ends up first.\<close>

definition binit :: "'a fs_kern_scheme \<Rightarrow> 'a fs_kern_scheme" where
  "binit k = k\<lparr>lru := fold (\<lambda>b l. b # l) [0..<NBUF] []\<rparr>"

definition bget :: "u32 \<Rightarrow> u32 \<Rightarrow> 'a fs_kern_scheme \<Rightarrow> (nat \<times> 'a fs_kern_scheme) option" where
  "bget dev blockno k =
     (case find (\<lambda>b. b_dev (the_buf k b) = dev \<and> b_blockno (the_buf k b) = blockno) (lru k) of
        Some b \<Rightarrow> Some (b, map_buf b (\<lambda>x. x\<lparr>b_refcnt := b_refcnt x + 1\<rparr>) k)
      | None \<Rightarrow>
          (case find (\<lambda>b. b_refcnt (the_buf k b) = 0) (rev (lru k)) of
             Some b \<Rightarrow> Some (b, map_buf b
               (\<lambda>x. x\<lparr>b_dev := dev, b_blockno := blockno, b_valid := False, b_refcnt := 1\<rparr>) k)
           | None \<Rightarrow> None))"

definition virtio_disk_rw :: "nat \<Rightarrow> bool \<Rightarrow> 'a fs_kern_scheme \<Rightarrow> 'a fs_kern_scheme" where
  "virtio_disk_rw b wr k =
     (if wr then k\<lparr>disk := (disk k)(b_blockno (the_buf k b) := b_data (the_buf k b))\<rparr>
      else map_buf b (\<lambda>x. x\<lparr>b_data := disk k (b_blockno x)\<rparr>) k)"

definition bread :: "u32 \<Rightarrow> u32 \<Rightarrow> 'a fs_kern_scheme \<Rightarrow> (nat \<times> 'a fs_kern_scheme) option" where
  "bread dev blockno k = do {
     (b, k) \<leftarrow> bget dev blockno k;
     Some (b, if b_valid (the_buf k b) then k
              else map_buf b (\<lambda>x. x\<lparr>b_valid := True\<rparr>) (virtio_disk_rw b False k)) }"

definition bwrite :: "nat \<Rightarrow> 'a fs_kern_scheme \<Rightarrow> 'a fs_kern_scheme" where
  "bwrite b k = virtio_disk_rw b True k"

definition brelse :: "nat \<Rightarrow> 'a fs_kern_scheme \<Rightarrow> 'a fs_kern_scheme" where
  "brelse b k =
     (let k = map_buf b (\<lambda>x. x\<lparr>b_refcnt := b_refcnt x - 1\<rparr>) k in
      if b_refcnt (the_buf k b) = 0 then k\<lparr>lru := b # remove1 b (lru k)\<rparr> else k)"

definition bpin :: "nat \<Rightarrow> 'a fs_kern_scheme \<Rightarrow> 'a fs_kern_scheme" where
  "bpin b k = map_buf b (\<lambda>x. x\<lparr>b_refcnt := b_refcnt x + 1\<rparr>) k"

definition bunpin :: "nat \<Rightarrow> 'a fs_kern_scheme \<Rightarrow> 'a fs_kern_scheme" where
  "bunpin b k = map_buf b (\<lambda>x. x\<lparr>b_refcnt := b_refcnt x - 1\<rparr>) k"

end
