(* ===== verification/FileSys.thy ===== *)
theory FileSys
  imports BlockIO
begin

text \<open>
  \<^verbatim>\<open>os/fs.c\<close>: block and inode allocation, the block map of a file, reading and writing files,
  directories. A \<^verbatim>\<open>struct inode *\<close> is an index into \<open>itable\<close>. A struct that the code lays
  over a block (\<^verbatim>\<open>struct dinode\<close>, \<^verbatim>\<open>struct dirent\<close>, an array of block numbers) is read and
  written at its byte offset. \<open>None\<close> is a \<^verbatim>\<open>panic\<close>.
\<close>

definition ROOTINO :: u32 where "ROOTINO = 1"
definition FSMAGIC :: u32 where "FSMAGIC = 0x10203040"
definition NDIRECT :: nat where "NDIRECT = 12"
definition NINDIRECT :: nat where "NINDIRECT = BSIZE div 4"
definition MAXFILE :: nat where "MAXFILE = NDIRECT + NINDIRECT"
definition DINODE_SIZE :: nat where "DINODE_SIZE = 64"
definition DIRENT_SIZE :: nat where "DIRENT_SIZE = 16"
definition DIRSIZ :: nat where "DIRSIZ = 14"
definition IPB :: nat where "IPB = BSIZE div DINODE_SIZE"
definition BPB :: nat where "BPB = BSIZE * 8"
definition T_DIR :: u16 where "T_DIR = 1"
definition T_FILE :: u16 where "T_FILE = 2"

definition IBLOCK :: "u32 \<Rightarrow> superblock \<Rightarrow> u32" where
  "IBLOCK i s = i div of_nat IPB + sb_inodestart s"

definition BBLOCK :: "u32 \<Rightarrow> superblock \<Rightarrow> u32" where
  "BBLOCK b s = b div of_nat BPB + sb_bmapstart s"

definition the_inode :: "'a fs_kern_scheme \<Rightarrow> nat \<Rightarrow> inode" where
  "the_inode k i = itable k ! i"

definition map_inode :: "nat \<Rightarrow> (inode \<Rightarrow> inode) \<Rightarrow> 'a fs_kern_scheme \<Rightarrow> 'a fs_kern_scheme" where
  "map_inode i f k = k\<lparr>itable := upd_at i f (itable k)\<rparr>"

section \<open>Structs in a block\<close>

text \<open>Byte offset of inode \<open>inum\<close> in its block, and the fields of the \<^verbatim>\<open>struct dinode\<close> there.\<close>

definition dinode_off :: "u32 \<Rightarrow> nat" where
  "dinode_off inum = unat inum mod IPB * DINODE_SIZE"

definition dinode_addrs :: "nat \<Rightarrow> u8 list \<Rightarrow> u32 list" where
  "dinode_addrs o' d = map (\<lambda>i. get32 (o' + 12 + 4 * i) d) [0..<NDIRECT + 1]"

definition put_addrs :: "nat \<Rightarrow> u32 list \<Rightarrow> u8 list \<Rightarrow> u8 list" where
  "put_addrs o' as = splice (o' + 12) (concat (map (le_bytes 4) as))"

text \<open>The fields of a \<^verbatim>\<open>struct dinode\<close> as \<^verbatim>\<open>iupdate\<close> stores them and \<^verbatim>\<open>ivalid\<close> loads them.\<close>

definition put_dinode :: "nat \<Rightarrow> inode \<Rightarrow> u8 list \<Rightarrow> u8 list" where
  "put_dinode dip ip d = put_addrs dip (i_addrs ip) (put32 (dip + 8) (i_size ip)
     (put16 (dip + 2) (i_nlink ip) (put16 dip (i_type ip) d)))"

definition load_dinode :: "nat \<Rightarrow> u8 list \<Rightarrow> inode \<Rightarrow> inode" where
  "load_dinode dip d ip = ip\<lparr>i_type := get16 dip d, i_nlink := get16 (dip + 2) d,
     i_size := get32 (dip + 8) d, i_addrs := dinode_addrs dip d, i_valid := True\<rparr>"

section \<open>Super block\<close>

definition readsb :: "u32 \<Rightarrow> 'a fs_kern_scheme \<Rightarrow> 'a fs_kern_scheme option" where
  "readsb dev k = do {
     (bp, k) \<leftarrow> bread dev 1 k;
     let d = b_data (the_buf k bp);
     Some (brelse bp (k\<lparr>sb := \<lparr>sb_magic = get32 0 d, sb_size = get32 4 d, sb_nblocks = get32 8 d,
       sb_ninodes = get32 12 d, sb_inodestart = get32 16 d, sb_bmapstart = get32 20 d\<rparr>\<rparr>)) }"

definition fsinit :: "'a fs_kern_scheme \<Rightarrow> 'a fs_kern_scheme option" where
  "fsinit k = do {
     k \<leftarrow> readsb ROOTDEV k;
     if sb_magic (sb k) \<noteq> FSMAGIC then None else Some k }"

section \<open>Blocks\<close>

definition bzero :: "u32 \<Rightarrow> u32 \<Rightarrow> 'a fs_kern_scheme \<Rightarrow> 'a fs_kern_scheme option" where
  "bzero dev bno k = do {
     (bp, k) \<leftarrow> bread dev bno k;
     Some (brelse bp (bwrite bp (map_buf bp (\<lambda>x. x\<lparr>b_data := replicate BSIZE 0\<rparr>) k))) }"

definition bit_free :: "u8 list \<Rightarrow> nat \<Rightarrow> bool" where
  "bit_free d bi \<longleftrightarrow> d ! (bi div 8) AND push_bit (bi mod 8) 1 = 0"

text \<open>The inner loop of \<^verbatim>\<open>balloc\<close> on the bitmap block of the blocks from \<open>b\<close> on.\<close>

definition balloc_find :: "u8 list \<Rightarrow> nat \<Rightarrow> nat \<Rightarrow> nat option" where
  "balloc_find d b sz = find (bit_free d) [0..<min BPB (sz - b)]"

text \<open>The outer loop, over the remaining starts \<open>b = 0, BPB, 2 * BPB, ...\<close> below \<^verbatim>\<open>sb.size\<close>.\<close>

fun balloc_in :: "u32 \<Rightarrow> nat list \<Rightarrow> 'a fs_kern_scheme \<Rightarrow> (u32 \<times> 'a fs_kern_scheme) option" where
  "balloc_in dev [] k = None"
| "balloc_in dev (b # bs) k = do {
     (bp, k) \<leftarrow> bread dev (BBLOCK (of_nat b) (sb k)) k;
     case balloc_find (b_data (the_buf k bp)) b (unat (sb_size (sb k))) of
       Some bi \<Rightarrow> do {
         let k = map_buf bp (\<lambda>x. x\<lparr>b_data :=
           upd_at (bi div 8) (\<lambda>c. c OR push_bit (bi mod 8) 1) (b_data x)\<rparr>) k;
         k \<leftarrow> bzero dev (of_nat (b + bi)) (brelse bp (bwrite bp k));
         Some (of_nat (b + bi), k) }
     | None \<Rightarrow> balloc_in dev bs (brelse bp k) }"

definition balloc :: "u32 \<Rightarrow> 'a fs_kern_scheme \<Rightarrow> (u32 \<times> 'a fs_kern_scheme) option" where
  "balloc dev k =
     balloc_in dev (map (\<lambda>i. i * BPB) [0..<(unat (sb_size (sb k)) + (BPB - 1)) div BPB]) k"

definition bfree :: "u32 \<Rightarrow> u32 \<Rightarrow> 'a fs_kern_scheme \<Rightarrow> 'a fs_kern_scheme option" where
  "bfree dev b k = do {
     (bp, k) \<leftarrow> bread dev (BBLOCK b (sb k)) k;
     let bi = unat b mod BPB;
     if bit_free (b_data (the_buf k bp)) bi then None
     else Some (brelse bp (bwrite bp (map_buf bp (\<lambda>x. x\<lparr>b_data :=
       upd_at (bi div 8) (\<lambda>c. c AND NOT (push_bit (bi mod 8) 1)) (b_data x)\<rparr>) k))) }"

section \<open>Inodes\<close>

definition iget :: "u32 \<Rightarrow> u32 \<Rightarrow> 'a fs_kern_scheme \<Rightarrow> (nat \<times> 'a fs_kern_scheme) option" where
  "iget dev inum k =
     (case first_idx (\<lambda>ip. 0 < i_ref ip \<and> i_dev ip = dev \<and> i_inum ip = inum) (itable k) of
        Some i \<Rightarrow> Some (i, map_inode i (\<lambda>ip. ip\<lparr>i_ref := i_ref ip + 1\<rparr>) k)
      | None \<Rightarrow>
          (case first_idx (\<lambda>ip. i_ref ip = 0) (itable k) of
             None \<Rightarrow> None
           | Some i \<Rightarrow> Some (i, map_inode i
               (\<lambda>ip. ip\<lparr>i_dev := dev, i_inum := inum, i_ref := 1, i_valid := False\<rparr>) k)))"

text \<open>The loop of \<^verbatim>\<open>ialloc\<close> over the inode numbers that are left.\<close>

fun ialloc_in :: "u32 \<Rightarrow> u16 \<Rightarrow> u32 list \<Rightarrow> 'a fs_kern_scheme \<Rightarrow> (nat \<times> 'a fs_kern_scheme) option" where
  "ialloc_in dev ty [] k = None"
| "ialloc_in dev ty (inum # rest) k = do {
     (bp, k) \<leftarrow> bread dev (IBLOCK inum (sb k)) k;
     let dip = dinode_off inum;
     if get16 dip (b_data (the_buf k bp)) = 0 then
       iget dev inum (brelse bp (bwrite bp (map_buf bp (\<lambda>x. x\<lparr>b_data :=
         put16 (dip + 2) 1 (put16 dip ty (splice dip (replicate DINODE_SIZE 0) (b_data x)))\<rparr>) k)))
     else ialloc_in dev ty rest (brelse bp k) }"

definition ialloc :: "u32 \<Rightarrow> u16 \<Rightarrow> 'a fs_kern_scheme \<Rightarrow> (nat \<times> 'a fs_kern_scheme) option" where
  "ialloc dev ty k = ialloc_in dev ty (map of_nat [1..<unat (sb_ninodes (sb k))]) k"

definition iupdate :: "nat \<Rightarrow> 'a fs_kern_scheme \<Rightarrow> 'a fs_kern_scheme option" where
  "iupdate i k = do {
     let ip = the_inode k i;
     (bp, k) \<leftarrow> bread (i_dev ip) (IBLOCK (i_inum ip) (sb k)) k;
     let dip = dinode_off (i_inum ip);
     Some (brelse bp (bwrite bp (map_buf bp (\<lambda>x. x\<lparr>b_data := put_dinode dip ip (b_data x)\<rparr>) k))) }"

definition idup :: "nat \<Rightarrow> 'a fs_kern_scheme \<Rightarrow> nat \<times> 'a fs_kern_scheme" where
  "idup i k = (i, map_inode i (\<lambda>ip. ip\<lparr>i_ref := i_ref ip + 1\<rparr>) k)"

definition ivalid :: "nat \<Rightarrow> 'a fs_kern_scheme \<Rightarrow> 'a fs_kern_scheme option" where
  "ivalid i k =
     (if i_valid (the_inode k i) then Some k
      else do {
        let ip = the_inode k i;
        (bp, k) \<leftarrow> bread (i_dev ip) (IBLOCK (i_inum ip) (sb k)) k;
        let dip = dinode_off (i_inum ip);
        let d = b_data (the_buf k bp);
        let k = brelse bp (map_inode i (load_dinode dip d) k);
        if i_type (the_inode k i) = 0 then None else Some k })"

section \<open>The blocks of a file\<close>

definition set_addr :: "nat \<Rightarrow> nat \<Rightarrow> u32 \<Rightarrow> 'a fs_kern_scheme \<Rightarrow> 'a fs_kern_scheme" where
  "set_addr i n a = map_inode i (\<lambda>ip. ip\<lparr>i_addrs := (i_addrs ip)[n := a]\<rparr>)"

text \<open>\<^verbatim>\<open>if ((addr = ip->addrs[n]) == 0) ip->addrs[n] = addr = balloc(ip->dev)\<close>\<close>

definition addr_or_alloc :: "nat \<Rightarrow> nat \<Rightarrow> 'a fs_kern_scheme \<Rightarrow> (u32 \<times> 'a fs_kern_scheme) option" where
  "addr_or_alloc i n k =
     (if i_addrs (the_inode k i) ! n = 0
      then do { (addr, k) \<leftarrow> balloc (i_dev (the_inode k i)) k; Some (addr, set_addr i n addr k) }
      else Some (i_addrs (the_inode k i) ! n, k))"

definition bmap :: "nat \<Rightarrow> u32 \<Rightarrow> 'a fs_kern_scheme \<Rightarrow> (u32 \<times> 'a fs_kern_scheme) option" where
  "bmap i bn k =
     (if unat bn < NDIRECT then addr_or_alloc i (unat bn) k
      else let n = unat bn - NDIRECT in
        if n < NINDIRECT then do {
          (addr, k) \<leftarrow> addr_or_alloc i NDIRECT k;
          (bp, k) \<leftarrow> bread (i_dev (the_inode k i)) addr k;
          let a = get32 (4 * n) (b_data (the_buf k bp));
          (addr, k) \<leftarrow>
            (if a = 0 then do {
               (addr, k) \<leftarrow> balloc (i_dev (the_inode k i)) k;
               Some (addr, bwrite bp (map_buf bp (\<lambda>x. x\<lparr>b_data := put32 (4 * n) addr (b_data x)\<rparr>) k)) }
             else Some (a, k));
          Some (addr, brelse bp k) }
        else None)"

fun itrunc_direct :: "nat \<Rightarrow> nat list \<Rightarrow> 'a fs_kern_scheme \<Rightarrow> 'a fs_kern_scheme option" where
  "itrunc_direct i [] k = Some k"
| "itrunc_direct i (n # ns) k =
     (let a = i_addrs (the_inode k i) ! n in
      if a \<noteq> 0 then do {
        k \<leftarrow> bfree (i_dev (the_inode k i)) a k;
        itrunc_direct i ns (set_addr i n 0 k) }
      else itrunc_direct i ns k)"

fun itrunc_indirect :: "u32 \<Rightarrow> nat \<Rightarrow> nat list \<Rightarrow> 'a fs_kern_scheme \<Rightarrow> 'a fs_kern_scheme option" where
  "itrunc_indirect dev bp [] k = Some k"
| "itrunc_indirect dev bp (j # js) k =
     (let a = get32 (4 * j) (b_data (the_buf k bp)) in
      if a \<noteq> 0 then do { k \<leftarrow> bfree dev a k; itrunc_indirect dev bp js k }
      else itrunc_indirect dev bp js k)"

definition itrunc :: "nat \<Rightarrow> 'a fs_kern_scheme \<Rightarrow> 'a fs_kern_scheme option" where
  "itrunc i k = do {
     k \<leftarrow> itrunc_direct i [0..<NDIRECT] k;
     let ind = i_addrs (the_inode k i) ! NDIRECT;
     k \<leftarrow> (if ind \<noteq> 0 then do {
         (bp, k) \<leftarrow> bread (i_dev (the_inode k i)) ind k;
         k \<leftarrow> itrunc_indirect (i_dev (the_inode k i)) bp [0..<NINDIRECT] k;
         k \<leftarrow> bfree (i_dev (the_inode k i)) ind (brelse bp k);
         Some (set_addr i NDIRECT 0 k) }
       else Some k);
     iupdate i (map_inode i (\<lambda>ip. ip\<lparr>i_size := 0\<rparr>) k) }"

definition iput :: "nat \<Rightarrow> 'a fs_kern_scheme \<Rightarrow> 'a fs_kern_scheme option" where
  "iput i k = do {
     let ip = the_inode k i;
     k \<leftarrow> (if i_ref ip = 1 \<and> i_valid ip \<and> i_nlink ip = 0 then do {
         k \<leftarrow> itrunc i k;
         k \<leftarrow> iupdate i (map_inode i (\<lambda>ip. ip\<lparr>i_type := 0\<rparr>) k);
         Some (map_inode i (\<lambda>ip. ip\<lparr>i_valid := False\<rparr>) k) }
       else Some k);
     Some (map_inode i (\<lambda>ip. ip\<lparr>i_ref := i_ref ip - 1\<rparr>) k) }"

section \<open>Reading and writing files\<close>

text \<open>
  The far end of a transfer: user memory, kernel memory, or a local variable of the caller,
  whose bytes the model returns (\<open>Local_dst\<close>) or is given (\<open>Local_src\<close>).
\<close>

datatype dst = User_dst u64 | Kernel_dst u64 | Local_dst
datatype src = User_src u64 | Kernel_src u64 | Local_src "u8 list"

definition copy_out_to :: "dst \<Rightarrow> u8 list \<Rightarrow> 'a fs_kern_scheme \<Rightarrow> int \<times> 'a fs_kern_scheme" where
  "copy_out_to dst xs k = (case dst of
     User_dst va \<Rightarrow> either_copyout True va xs k
   | Kernel_dst pa \<Rightarrow> either_copyout False pa xs k
   | Local_dst \<Rightarrow> (0, k))"

definition copy_in_from :: "src \<Rightarrow> nat \<Rightarrow> 'a fs_kern_scheme \<Rightarrow> int \<times> u8 list" where
  "copy_in_from src n k = (case src of
     User_src va \<Rightarrow> either_copyin True va n k
   | Kernel_src pa \<Rightarrow> either_copyin False pa n k
   | Local_src xs \<Rightarrow> (0, take n xs))"

fun dst_plus :: "dst \<Rightarrow> nat \<Rightarrow> dst" where
  "dst_plus (User_dst va) m = User_dst (va + of_nat m)"
| "dst_plus (Kernel_dst pa) m = Kernel_dst (pa + of_nat m)"
| "dst_plus Local_dst m = Local_dst"

fun src_plus :: "src \<Rightarrow> nat \<Rightarrow> src" where
  "src_plus (User_src va) m = User_src (va + of_nat m)"
| "src_plus (Kernel_src pa) m = Kernel_src (pa + of_nat m)"
| "src_plus (Local_src xs) m = Local_src (drop m xs)"

definition block_room :: "u32 \<Rightarrow> nat" where
  "block_room off = BSIZE - unat off mod BSIZE"

lemma block_room_pos [simp]: "0 < block_room off"
  by (simp add: block_room_def BSIZE_def)

text \<open>The loop of \<^verbatim>\<open>readi\<close> with \<open>rem\<close> bytes left: whether it came through, and the bytes read.\<close>

function readi_loop :: "nat \<Rightarrow> dst \<Rightarrow> u32 \<Rightarrow> nat \<Rightarrow> 'a fs_kern_scheme \<Rightarrow>
    (bool \<times> u8 list \<times> 'a fs_kern_scheme) option" where
  "readi_loop i dst off rem k =
     (if rem = 0 then Some (True, [], k)
      else do {
        (bn, k) \<leftarrow> bmap i (off div of_nat BSIZE) k;
        (bp, k) \<leftarrow> bread (i_dev (the_inode k i)) bn k;
        let m = min rem (block_room off);
        let xs = slice (unat off mod BSIZE) m (b_data (the_buf k bp));
        let (r, k) = copy_out_to dst xs k;
        if r = - 1 then Some (False, [], brelse bp k)
        else do {
          (ok, rest, k) \<leftarrow> readi_loop i (dst_plus dst m) (off + of_nat m) (rem - m) (brelse bp k);
          Some (ok, xs @ rest, k) } })"
  by pat_completeness auto
termination
  by (relation "measure (\<lambda>(i, dst, off, rem, k). rem)") (auto simp: min_def)

declare readi_loop.simps [simp del]

definition readi :: "nat \<Rightarrow> dst \<Rightarrow> u32 \<Rightarrow> u32 \<Rightarrow> 'a fs_kern_scheme \<Rightarrow>
    (int \<times> u8 list \<times> 'a fs_kern_scheme) option" where
  "readi i dst off n k =
     (let sz = i_size (the_inode k i) in
      if sz < off \<or> off + n < off then Some (0, [], k)
      else let n = (if sz < off + n then sz - off else n) in do {
        (ok, xs, k) \<leftarrow> readi_loop i dst off (unat n) k;
        Some (if ok then sint n else - 1, xs, k) })"

text \<open>The loop of \<^verbatim>\<open>writei\<close>: the offset it stopped at. A failed copy may leave the buffer of
  the block changed and not written.\<close>

function writei_loop :: "nat \<Rightarrow> src \<Rightarrow> u32 \<Rightarrow> nat \<Rightarrow> 'a fs_kern_scheme \<Rightarrow>
    (u32 \<times> nat \<times> 'a fs_kern_scheme) option" where
  "writei_loop i src off rem k =
     (if rem = 0 then Some (off, 0, k)
      else do {
        (bn, k) \<leftarrow> bmap i (off div of_nat BSIZE) k;
        (bp, k) \<leftarrow> bread (i_dev (the_inode k i)) bn k;
        let m = min rem (block_room off);
        let (r, xs) = copy_in_from src m k;
        let k = map_buf bp (\<lambda>x. x\<lparr>b_data := splice (unat off mod BSIZE) xs (b_data x)\<rparr>) k;
        if r = - 1 then Some (off, 0, brelse bp k)
        else do {
          (off', tot, k) \<leftarrow> writei_loop i (src_plus src m) (off + of_nat m) (rem - m)
             (brelse bp (bwrite bp k));
          Some (off', m + tot, k) } })"
  by pat_completeness auto
termination
  by (relation "measure (\<lambda>(i, src, off, rem, k). rem)") (auto simp: min_def)

declare writei_loop.simps [simp del]

definition writei :: "nat \<Rightarrow> src \<Rightarrow> u32 \<Rightarrow> u32 \<Rightarrow> 'a fs_kern_scheme \<Rightarrow>
    (int \<times> 'a fs_kern_scheme) option" where
  "writei i src off n k =
     (if i_size (the_inode k i) < off \<or> off + n < off then Some (- 1, k)
      else if MAXFILE * BSIZE < unat (off + n) then Some (- 1, k)
      else do {
        (off, tot, k) \<leftarrow> writei_loop i src off (unat n) k;
        let k = (if i_size (the_inode k i) < off then map_inode i (\<lambda>ip. ip\<lparr>i_size := off\<rparr>) k else k);
        k \<leftarrow> iupdate i k;
        Some (int tot, k) })"

section \<open>Directories\<close>

definition de_inum :: "u8 list \<Rightarrow> u16" where "de_inum de = get16 0 de"
definition de_name :: "u8 list \<Rightarrow> nat \<Rightarrow> u8" where "de_name de = (\<lambda>i. de ! (2 + i))"

text \<open>The loop of \<^verbatim>\<open>dirlookup\<close> from \<open>off\<close> on: the inode and \<^verbatim>\<open>*poff\<close>.\<close>

partial_function (option) dirlookup_from :: "nat \<Rightarrow> (nat \<Rightarrow> u8) \<Rightarrow> u32 \<Rightarrow> 'a fs_kern_scheme \<Rightarrow>
    ((nat \<times> u32) option \<times> 'a fs_kern_scheme) option" where
  "dirlookup_from dp name off k =
     (if off < i_size (the_inode k dp) then do {
        (r, de, k) \<leftarrow> readi dp Local_dst off (of_nat DIRENT_SIZE) k;
        if r \<noteq> int DIRENT_SIZE then None
        else if de_inum de \<noteq> 0 \<and> strncmp name (de_name de) DIRSIZ = 0 then do {
          (ip, k) \<leftarrow> iget (i_dev (the_inode k dp)) (ucast (de_inum de)) k;
          Some (Some (ip, off), k) }
        else dirlookup_from dp name (off + of_nat DIRENT_SIZE) k }
      else Some (None, k))"

declare dirlookup_from.simps [code]

definition dirlookup :: "nat \<Rightarrow> (nat \<Rightarrow> u8) \<Rightarrow> 'a fs_kern_scheme \<Rightarrow>
    ((nat \<times> u32) option \<times> 'a fs_kern_scheme) option" where
  "dirlookup dp name k =
     (if i_type (the_inode k dp) \<noteq> T_DIR then None else dirlookup_from dp name 0 k)"

text \<open>\<^verbatim>\<open>dirls\<close> from \<open>off\<close> on: the entries it prints.\<close>

partial_function (option) dirls_from :: "nat \<Rightarrow> u64 \<Rightarrow> 'a fs_kern_scheme \<Rightarrow>
    (u8 list list \<times> 'a fs_kern_scheme) option" where
  "dirls_from dp off k =
     (if off < ucast (i_size (the_inode k dp)) then do {
        (r, de, k) \<leftarrow> readi dp Local_dst (ucast off) (of_nat DIRENT_SIZE) k;
        if r \<noteq> int DIRENT_SIZE then None
        else do {
          (ns, k) \<leftarrow> dirls_from dp (off + of_nat DIRENT_SIZE) k;
          Some (if de_inum de = 0 then ns else drop 2 de # ns, k) } }
      else Some ([], k))"

declare dirls_from.simps [code]

definition dirls :: "nat \<Rightarrow> 'a fs_kern_scheme \<Rightarrow> (nat \<times> u8 list list \<times> 'a fs_kern_scheme) option" where
  "dirls dp k =
     (if i_type (the_inode k dp) \<noteq> T_DIR then None
      else do { (ns, k) \<leftarrow> dirls_from dp 0 k; Some (length ns, ns, k) })"

text \<open>The offset of the first empty entry, or of the end of the directory.\<close>

partial_function (option) empty_dirent_from :: "nat \<Rightarrow> u32 \<Rightarrow> 'a fs_kern_scheme \<Rightarrow>
    (u32 \<times> 'a fs_kern_scheme) option" where
  "empty_dirent_from dp off k =
     (if off < i_size (the_inode k dp) then do {
        (r, de, k) \<leftarrow> readi dp Local_dst off (of_nat DIRENT_SIZE) k;
        if r \<noteq> int DIRENT_SIZE then None
        else if de_inum de = 0 then Some (off, k)
        else empty_dirent_from dp (off + of_nat DIRENT_SIZE) k }
      else Some (off, k))"

declare empty_dirent_from.simps [code]

definition dirlink :: "nat \<Rightarrow> (nat \<Rightarrow> u8) \<Rightarrow> u32 \<Rightarrow> 'a fs_kern_scheme \<Rightarrow>
    (int \<times> 'a fs_kern_scheme) option" where
  "dirlink dp name inum k = do {
     (found, k) \<leftarrow> dirlookup dp name k;
     case found of
       Some (ip, _) \<Rightarrow> do { k \<leftarrow> iput ip k; Some (- 1, k) }
     | None \<Rightarrow> do {
         (off, k) \<leftarrow> empty_dirent_from dp 0 k;
         let de = le_bytes 2 (ucast inum :: u16) @ strncpy name DIRSIZ;
         (r, k) \<leftarrow> writei dp (Local_src de) off (of_nat DIRENT_SIZE) k;
         if r \<noteq> int DIRENT_SIZE then None else Some (0, k) } }"

definition dirunlink :: "nat \<Rightarrow> (nat \<Rightarrow> u8) \<Rightarrow> 'a fs_kern_scheme \<Rightarrow> (int \<times> 'a fs_kern_scheme) option" where
  "dirunlink dp name k = do {
     (found, k) \<leftarrow> dirlookup dp name k;
     case found of
       None \<Rightarrow> Some (- 1, k)
     | Some (ip, off) \<Rightarrow> do {
         k \<leftarrow> iput ip k;
         (r, k) \<leftarrow> writei dp (Local_src (replicate DIRENT_SIZE 0)) off (of_nat DIRENT_SIZE) k;
         if r \<noteq> int DIRENT_SIZE then None else Some (0, k) } }"

definition root_dir :: "'a fs_kern_scheme \<Rightarrow> (nat \<times> 'a fs_kern_scheme) option" where
  "root_dir k = do {
     (r, k) \<leftarrow> iget ROOTDEV ROOTINO k;
     k \<leftarrow> ivalid r k;
     Some (r, k) }"

definition namei :: "(nat \<Rightarrow> u8) \<Rightarrow> 'a fs_kern_scheme \<Rightarrow> (nat option \<times> 'a fs_kern_scheme) option" where
  "namei path k = do {
     (dp, k) \<leftarrow> root_dir k;
     (found, k) \<leftarrow> dirlookup dp path k;
     Some (map_option fst found, k) }"

end
