(* ===== verification/Pipe.thy ===== *)
theory Pipe
  imports BlockIO
begin

text \<open>
  \<^verbatim>\<open>os/pipe.c\<close>. A \<^verbatim>\<open>struct pipe *\<close> is the address of the page it was allocated in; \<open>pipes\<close>
  gives the struct at an address. \<^verbatim>\<open>pipewrite\<close> and \<^verbatim>\<open>piperead\<close> give the CPU away while the pipe
  is full or empty: they return the resume point \<open>Pipe_writing\<close> or \<open>Pipe_reading\<close> then, and
  \<open>resume_pipe\<close> goes on with the loop. The state of the loop that lives across the switch,
  the caller's process and the byte count, is part of the resume point.
\<close>

datatype pipe_resume =
    Pipe_writing nat u64 u64 int int
  | Pipe_reading nat u64 u64 int

definition map_pipe :: "u64 \<Rightarrow> (pipe \<Rightarrow> pipe) \<Rightarrow> 'a fs_kern_scheme \<Rightarrow> 'a fs_kern_scheme" where
  "map_pipe pi f k = k\<lparr>pipes := (pipes k)(pi := f (pipes k pi))\<rparr>"

definition map_file :: "nat \<Rightarrow> (kfile \<Rightarrow> kfile) \<Rightarrow> 'a fs_kern_scheme \<Rightarrow> 'a fs_kern_scheme" where
  "map_file f g k = k\<lparr>filepool := upd_at f g (filepool k)\<rparr>"

definition the_file :: "'a fs_kern_scheme \<Rightarrow> nat \<Rightarrow> kfile" where
  "the_file k f = filepool k ! f"

section \<open>The operations\<close>

text \<open>The data of a new pipe is what \<^verbatim>\<open>kalloc\<close> left in the page.\<close>

definition pipealloc :: "nat \<Rightarrow> nat \<Rightarrow> 'a fs_kern_scheme \<Rightarrow> int \<times> 'a fs_kern_scheme" where
  "pipealloc f0 f1 k = (let (pi, k) = kalloc k in
     if pi = 0 then (- 1, k)
     else let k = k\<lparr>pipes := (pipes k)(pi := \<lparr>pi_data = read_bytes (mem k) pi PIPESIZE,
                pi_nread = 0, pi_nwrite = 0, pi_readopen = True, pi_writeopen = True\<rparr>)\<rparr>;
              k = map_file f0 (\<lambda>f. f\<lparr>f_type := FD_PIPE, f_readable := True, f_writable := False, f_pipe := pi\<rparr>) k
       in (0, map_file f1 (\<lambda>f. f\<lparr>f_type := FD_PIPE, f_readable := False, f_writable := True, f_pipe := pi\<rparr>) k))"

definition pipeclose :: "u64 \<Rightarrow> bool \<Rightarrow> 'a fs_kern_scheme \<Rightarrow> 'a fs_kern_scheme option" where
  "pipeclose pi writable k =
     (let k = map_pipe pi (\<lambda>x. if writable then x\<lparr>pi_writeopen := False\<rparr> else x\<lparr>pi_readopen := False\<rparr>) k in
      if \<not> pi_readopen (pipes k pi) \<and> \<not> pi_writeopen (pipes k pi) then kfree pi k else Some k)"

definition pipe_full :: "pipe \<Rightarrow> bool" where
  "pipe_full x \<longleftrightarrow> pi_nwrite x = pi_nread x + of_nat PIPESIZE"

text \<open>The \<^verbatim>\<open>size\<close> of one round of a copy loop with \<open>rem\<close> bytes to go.\<close>

definition write_size :: "pipe \<Rightarrow> nat \<Rightarrow> nat" where
  "write_size x rem = min (min rem (unat (pi_nread x + of_nat PIPESIZE - pi_nwrite x)))
     (PIPESIZE - unat (pi_nwrite x) mod PIPESIZE)"

definition read_size :: "pipe \<Rightarrow> nat \<Rightarrow> nat" where
  "read_size x rem = min (min rem (unat (pi_nwrite x - pi_nread x)))
     (PIPESIZE - unat (pi_nread x) mod PIPESIZE)"

lemma write_size_pos: "0 < rem \<Longrightarrow> \<not> pipe_full x \<Longrightarrow> 0 < write_size x rem"
proof -
  assume "0 < rem" "\<not> pipe_full x"
  then have "pi_nread x + of_nat PIPESIZE - pi_nwrite x \<noteq> 0" by (auto simp: pipe_full_def)
  then have "0 < unat (pi_nread x + of_nat PIPESIZE - pi_nwrite x)" by (simp add: unat_gt_0)
  with \<open>0 < rem\<close> show ?thesis by (simp add: write_size_def PIPESIZE_def)
qed

lemma read_size_pos: "0 < rem \<Longrightarrow> pi_nread x \<noteq> pi_nwrite x \<Longrightarrow> 0 < read_size x rem"
proof -
  assume "0 < rem" "pi_nread x \<noteq> pi_nwrite x"
  then have "pi_nwrite x - pi_nread x \<noteq> 0" by auto
  then have "0 < unat (pi_nwrite x - pi_nread x)" by (simp add: unat_gt_0)
  with \<open>0 < rem\<close> show ?thesis by (simp add: read_size_def PIPESIZE_def)
qed

lemma write_size_le: "write_size x rem \<le> rem" and read_size_le: "read_size x rem \<le> rem"
  by (simp_all add: write_size_def read_size_def)

definition put_chunk :: "u8 list \<Rightarrow> pipe \<Rightarrow> pipe" where
  "put_chunk xs x = x\<lparr>pi_data := splice (unat (pi_nwrite x) mod PIPESIZE) xs (pi_data x),
     pi_nwrite := pi_nwrite x + of_nat (length xs)\<rparr>"

definition get_chunk :: "nat \<Rightarrow> pipe \<Rightarrow> u8 list \<times> pipe" where
  "get_chunk n x = (slice (unat (pi_nread x) mod PIPESIZE) n (pi_data x),
     x\<lparr>pi_nread := pi_nread x + of_nat n\<rparr>)"

text \<open>The loop of \<^verbatim>\<open>pipewrite\<close> with \<open>w\<close> bytes written.\<close>

function pipewrite_from :: "nat \<Rightarrow> u64 \<Rightarrow> u64 \<Rightarrow> int \<Rightarrow> int \<Rightarrow> 'a fs_kern_scheme \<Rightarrow>
    ((int + pipe_resume) \<times> 'a fs_kern_scheme) option" where
  "pipewrite_from p pi addr n w k =
     (if w < n then
        let x = pipes k pi in
        if \<not> pi_readopen x then Some (Inl (- 1), k)
        else if pipe_full x then do { k \<leftarrow> yield k; Some (Inr (Pipe_writing p pi addr n w), k) }
        else let sz = write_size x (nat (n - w));
                 (r, xs) = copyin (p_pagetable (the_proc k p)) (addr + word_of_int w) sz k
          in if r < 0 then None
             else pipewrite_from p pi addr n (w + int sz) (map_pipe pi (put_chunk xs) k)
      else Some (Inl w, k))"
  by pat_completeness auto
termination
proof (relation "measure (\<lambda>(p, pi, addr, n, w, k). nat (n - w))", goal_cases)
  case 1
  then show ?case by simp
next
  case (2 p pi addr n w k x sz y r xs)
  then have "0 < sz" using write_size_pos [of "nat (n - w)" x] by simp
  with 2 show ?case by simp
qed

declare pipewrite_from.simps [simp del]

definition pipewrite :: "u64 \<Rightarrow> u64 \<Rightarrow> int \<Rightarrow> 'a fs_kern_scheme \<Rightarrow>
    ((int + pipe_resume) \<times> 'a fs_kern_scheme) option" where
  "pipewrite pi addr n k = (if n \<le> 0 then None else pipewrite_from (curr_proc k) pi addr n 0 k)"

text \<open>The second loop of \<^verbatim>\<open>piperead\<close> with \<open>r\<close> bytes read. Its \<^verbatim>\<open>size\<close> is never 0.\<close>

function piperead_copy :: "nat \<Rightarrow> u64 \<Rightarrow> u64 \<Rightarrow> int \<Rightarrow> int \<Rightarrow> 'a fs_kern_scheme \<Rightarrow>
    (int \<times> 'a fs_kern_scheme) option" where
  "piperead_copy p pi addr n r k =
     (if r < n then
        let x = pipes k pi in
        if pi_nread x = pi_nwrite x then Some (r, k)
        else let sz = read_size x (nat (n - r));
                 (xs, x') = get_chunk sz x;
                 (e, k) = copyout (p_pagetable (the_proc k p)) (addr + word_of_int r) xs k
          in if e < 0 then None
             else piperead_copy p pi addr n (r + int sz) (map_pipe pi (\<lambda>_. x') k)
      else Some (r, k))"
  by pat_completeness auto
termination
proof (relation "measure (\<lambda>(p, pi, addr, n, r, k). nat (n - r))", goal_cases)
  case 1
  then show ?case by simp
next
  case (2 p pi addr n r k x sz y xs x' z e k')
  then have "0 < sz" using read_size_pos [of "nat (n - r)" x] by simp
  with 2 show ?case by simp
qed

declare piperead_copy.simps [simp del]

definition piperead_from :: "nat \<Rightarrow> u64 \<Rightarrow> u64 \<Rightarrow> int \<Rightarrow> 'a fs_kern_scheme \<Rightarrow>
    ((int + pipe_resume) \<times> 'a fs_kern_scheme) option" where
  "piperead_from p pi addr n k =
     (if pi_nread (pipes k pi) = pi_nwrite (pipes k pi) then
        if pi_writeopen (pipes k pi) then do { k \<leftarrow> yield k; Some (Inr (Pipe_reading p pi addr n), k) }
        else Some (Inl (- 1), k)
      else do { (r, k) \<leftarrow> piperead_copy p pi addr n 0 k; Some (Inl r, k) })"

definition piperead :: "u64 \<Rightarrow> u64 \<Rightarrow> int \<Rightarrow> 'a fs_kern_scheme \<Rightarrow>
    ((int + pipe_resume) \<times> 'a fs_kern_scheme) option" where
  "piperead pi addr n k = (if n \<le> 0 then None else piperead_from (curr_proc k) pi addr n k)"

fun resume_pipe :: "pipe_resume \<Rightarrow> 'a fs_kern_scheme \<Rightarrow>
    ((int + pipe_resume) \<times> 'a fs_kern_scheme) option" where
  "resume_pipe (Pipe_writing p pi addr n w) k = pipewrite_from p pi addr n w k"
| "resume_pipe (Pipe_reading p pi addr n) k = piperead_from p pi addr n k"

end
