(* ===== verification/Files.thy ===== *)
theory Files
  imports FileSys Pipe
begin

text \<open>
  \<^verbatim>\<open>os/file.c\<close>: the table of open files and the operations behind the file system calls,
  with \<^verbatim>\<open>fdalloc\<close> and \<^verbatim>\<open>init_stdio\<close> of \<^verbatim>\<open>os/proc.c\<close>. A \<^verbatim>\<open>struct file *\<close> is an index into
  \<open>filepool\<close>. \<open>None\<close> is a \<^verbatim>\<open>panic\<close> (or the use of a null pointer, which traps).
\<close>

definition O_WRONLY :: u64 where "O_WRONLY = 0x001"
definition O_RDWR :: u64 where "O_RDWR = 0x002"
definition O_CREATE :: u64 where "O_CREATE = 0x200"
definition O_TRUNC :: u64 where "O_TRUNC = 0x400"
definition STDIN :: nat where "STDIN = 0"
definition STDOUT :: nat where "STDOUT = 1"
definition STDERR :: nat where "STDERR = 2"

section \<open>The table of open files\<close>

definition filealloc :: "'a fs_kern_scheme \<Rightarrow> nat option \<times> 'a fs_kern_scheme" where
  "filealloc k = (case first_idx (\<lambda>f. f_ref f = 0) (filepool k) of
       None \<Rightarrow> (None, k)
     | Some i \<Rightarrow> (Some i, map_file i (\<lambda>f. f\<lparr>f_ref := 1\<rparr>) k))"

definition stdio_init :: "nat \<Rightarrow> 'a fs_kern_scheme \<Rightarrow> (nat \<times> 'a fs_kern_scheme) option" where
  "stdio_init fd k = (case filealloc k of
       (None, k) \<Rightarrow> None
     | (Some i, k) \<Rightarrow> Some (i, map_file i (\<lambda>f. f\<lparr>f_type := FD_STDIO, f_ref := 1,
         f_readable := (fd = STDIN \<or> fd = STDERR), f_writable := (fd = STDOUT \<or> fd = STDERR)\<rparr>) k))"

definition fileclose :: "nat \<Rightarrow> 'a fs_kern_scheme \<Rightarrow> 'a fs_kern_scheme option" where
  "fileclose f k =
     (if f_ref (the_file k f) < 1 then None
      else let k = map_file f (\<lambda>x. x\<lparr>f_ref := f_ref x - 1\<rparr>) k; x = the_file k f in
        if 0 < f_ref x then Some k
        else do {
          k \<leftarrow> (case f_type x of
               FD_STDIO \<Rightarrow> Some k
             | FD_PIPE \<Rightarrow> pipeclose (f_pipe x) (f_writable x) k
             | FD_INODE \<Rightarrow> iput (f_ip x) k
             | FD_NONE \<Rightarrow> None);
          Some (map_file f (\<lambda>x. x\<lparr>f_off := 0, f_readable := False, f_writable := False,
             f_ref := 0, f_type := FD_NONE\<rparr>) k) })"

definition set_fd :: "nat \<Rightarrow> nat \<Rightarrow> nat option \<Rightarrow> 'a kern_scheme \<Rightarrow> 'a kern_scheme" where
  "set_fd p fd f = map_proc p (\<lambda>x. x\<lparr>p_files := (p_files x)[fd := f]\<rparr>)"

definition fdalloc :: "nat \<Rightarrow> 'a kern_scheme \<Rightarrow> int \<times> 'a kern_scheme" where
  "fdalloc f k = (case first_idx (\<lambda>x. x = None) (p_files (the_proc k (curr_proc k))) of
       None \<Rightarrow> (- 1, k)
     | Some i \<Rightarrow> (int i, set_fd (curr_proc k) i (Some f) k))"

text \<open>\<^verbatim>\<open>init_stdio\<close> from descriptor \<open>i\<close> on.\<close>

fun init_stdio_from :: "nat \<Rightarrow> nat list \<Rightarrow> 'a fs_kern_scheme \<Rightarrow> (int \<times> 'a fs_kern_scheme) option" where
  "init_stdio_from p [] k = Some (0, k)"
| "init_stdio_from p (i # is) k =
     (if p_files (the_proc k p) ! i \<noteq> None then Some (- 1, k)
      else do { (f, k) \<leftarrow> stdio_init i k; init_stdio_from p is (set_fd p i (Some f) k) })"

definition init_stdio :: "nat \<Rightarrow> 'a fs_kern_scheme \<Rightarrow> (int \<times> 'a fs_kern_scheme) option" where
  "init_stdio p k = init_stdio_from p [0, 1, 2] k"

section \<open>Opening, reading and writing\<close>

definition show_all_files :: "'a fs_kern_scheme \<Rightarrow> (nat \<times> u8 list list \<times> 'a fs_kern_scheme) option" where
  "show_all_files k = do { (r, k) \<leftarrow> root_dir k; dirls r k }"

definition create :: "(nat \<Rightarrow> u8) \<Rightarrow> u16 \<Rightarrow> 'a fs_kern_scheme \<Rightarrow> (nat option \<times> 'a fs_kern_scheme) option" where
  "create path ty k = do {
     (dp, k) \<leftarrow> root_dir k;
     k \<leftarrow> ivalid dp k;
     (found, k) \<leftarrow> dirlookup dp path k;
     case found of
       Some (ip, _) \<Rightarrow> do {
         k \<leftarrow> iput dp k;
         k \<leftarrow> ivalid ip k;
         if ty = T_FILE \<and> i_type (the_inode k ip) = T_FILE then Some (Some ip, k)
         else do { k \<leftarrow> iput ip k; Some (None, k) } }
     | None \<Rightarrow> do {
         (ip, k) \<leftarrow> ialloc (i_dev (the_inode k dp)) ty k;
         k \<leftarrow> ivalid ip k;
         k \<leftarrow> iupdate ip k;
         (r, k) \<leftarrow> dirlink dp path (i_inum (the_inode k ip)) k;
         if r < 0 then None
         else do { k \<leftarrow> iput dp k; Some (Some ip, k) } } }"

text \<open>The first half of \<^verbatim>\<open>fileopen\<close>: the inode to open.\<close>

definition open_inode :: "(nat \<Rightarrow> u8) \<Rightarrow> u64 \<Rightarrow> 'a fs_kern_scheme \<Rightarrow> (nat option \<times> 'a fs_kern_scheme) option" where
  "open_inode path omode k =
     (if omode AND O_CREATE \<noteq> 0 then create path T_FILE k
      else do {
        (ip, k) \<leftarrow> namei path k;
        case ip of None \<Rightarrow> Some (None, k) | Some i \<Rightarrow> do { k \<leftarrow> ivalid i k; Some (Some i, k) } })"

definition fileopen :: "(nat \<Rightarrow> u8) \<Rightarrow> u64 \<Rightarrow> 'a fs_kern_scheme \<Rightarrow> (int \<times> 'a fs_kern_scheme) option" where
  "fileopen path omode k = do {
     (ip, k) \<leftarrow> open_inode path omode k;
     case ip of
       None \<Rightarrow> Some (- 1, k)
     | Some ip \<Rightarrow>
         if i_type (the_inode k ip) \<noteq> T_FILE then None
         else (case filealloc k of
             (None, k) \<Rightarrow> do { k \<leftarrow> iput ip k; Some (- 1, k) }
           | (Some f, k) \<Rightarrow>
               (let (fd, k) = fdalloc f k in
                if fd < 0 then do {
                  k \<leftarrow> fileclose f k;
                  k \<leftarrow> iput ip k;
                  Some (- 1, k) }
                else do {
                  let k = map_file f (\<lambda>x. x\<lparr>f_type := FD_INODE, f_off := 0, f_ip := ip,
                    f_readable := (omode AND O_WRONLY = 0),
                    f_writable := (omode AND O_WRONLY \<noteq> 0 \<or> omode AND O_RDWR \<noteq> 0)\<rparr>) k;
                  k \<leftarrow> (if omode AND O_TRUNC \<noteq> 0 \<and> i_type (the_inode k ip) = T_FILE
                        then itrunc ip k else Some k);
                  Some (fd, k) })) }"

definition inodewrite :: "nat \<Rightarrow> u64 \<Rightarrow> u64 \<Rightarrow> 'a fs_kern_scheme \<Rightarrow> (int \<times> 'a fs_kern_scheme) option" where
  "inodewrite f va len k = do {
     k \<leftarrow> ivalid (f_ip (the_file k f)) k;
     (r, k) \<leftarrow> writei (f_ip (the_file k f)) (User_src va) (f_off (the_file k f)) (ucast len) k;
     Some (r, if 0 < r then map_file f (\<lambda>x. x\<lparr>f_off := f_off x + word_of_int r\<rparr>) k else k) }"

definition inoderead :: "nat \<Rightarrow> u64 \<Rightarrow> u64 \<Rightarrow> 'a fs_kern_scheme \<Rightarrow> (int \<times> 'a fs_kern_scheme) option" where
  "inoderead f va len k = do {
     k \<leftarrow> ivalid (f_ip (the_file k f)) k;
     (r, xs, k) \<leftarrow> readi (f_ip (the_file k f)) (User_dst va) (f_off (the_file k f)) (ucast len) k;
     Some (r, if 0 < r then map_file f (\<lambda>x. x\<lparr>f_off := f_off x + word_of_int r\<rparr>) k else k) }"

end
