(* ===== verification/Process.thy ===== *)
theory Process
  imports Files
begin

text \<open>
  The life of processes and threads: the rest of \<^verbatim>\<open>os/proc.c\<close>, and \<^verbatim>\<open>os/loader.c\<close>.

  \<open>symbols\<close> holds the addresses the linker gives: the array of kernel stacks, the array of
  trap frame pages, the boot stack and \<^verbatim>\<open>usertrapret\<close>. The trap frame of a thread is a field
  of the thread; its page is mapped into the process at its address in that array.
  \<open>None\<close> is a \<^verbatim>\<open>panic\<close>. \<^verbatim>\<open>wait\<close> stops at each switch with the resume point \<open>Wait_child\<close>.
\<close>

record symbols =
  sym_kstack :: u64
  sym_trapframe :: u64
  sym_boot_stack_top :: u64
  sym_usertrapret :: u64

definition USTACK_SIZE :: u64 where "USTACK_SIZE = PAGE_SIZE"
definition KSTACK_SIZE :: u64 where "KSTACK_SIZE = PAGE_SIZE"
definition TRAP_PAGE_SIZE :: u64 where "TRAP_PAGE_SIZE = PAGE_SIZE"
definition BASE_ADDRESS :: u64 where "BASE_ADDRESS = 0x1000"
definition MAX_ARG_NUM :: nat where "MAX_ARG_NUM = 32"
definition IDLE_PID :: int where "IDLE_PID = 0"

datatype proc_resume = Wait_child int u64

section \<open>Tables\<close>

definition proc_init :: "'a kern_scheme \<Rightarrow> 'a kern_scheme" where
  "proc_init k = k\<lparr>
     pool := map (\<lambda>p. p\<lparr>p_state := P_UNUSED,
       p_threads := map (\<lambda>t. t\<lparr>th_state := T_UNUSED\<rparr>) (p_threads p)\<rparr>) (pool k),
     current := None,
     task_queue := init_queue QUEUE_SIZE (qdata (task_queue k))\<rparr>"

definition procid :: "'a kern_scheme \<Rightarrow> int" where
  "procid k = p_pid (the_proc k (curr_proc k))"

text \<open>The idle thread has the identifier -1.\<close>

definition threadid :: "'a kern_scheme \<Rightarrow> int" where
  "threadid k = (case current k of None \<Rightarrow> - 1 | Some t \<Rightarrow> th_tid (the_thread k t))"

definition allocpid :: "'a kern_scheme \<Rightarrow> int \<times> 'a kern_scheme" where
  "allocpid k = (next_pid k, k\<lparr>next_pid := next_pid k + 1\<rparr>)"

definition alloctid :: "proc \<Rightarrow> int" where
  "alloctid p = (case first_idx (\<lambda>t. th_state t = T_UNUSED) (p_threads p) of
     None \<Rightarrow> - 1 | Some i \<Rightarrow> int i)"

definition allocproc :: "'a kern_scheme \<Rightarrow> (nat option \<times> 'a kern_scheme) option" where
  "allocproc k =
     (case first_idx (\<lambda>p. p_state p = P_UNUSED) (pool k) of
        None \<Rightarrow> Some (None, k)
      | Some i \<Rightarrow> do {
          let (pid, k) = allocpid k;
          let k = map_proc i (\<lambda>p. p\<lparr>p_pid := pid, p_state := P_USED, p_max_page := 0,
            p_parent := None, p_exit_code := 0\<rparr>) k;
          (pagetable, k) \<leftarrow> uvmcreate k;
          Some (Some i, map_proc i (\<lambda>p. p\<lparr>p_pagetable := pagetable,
            p_files := replicate FD_BUFFER_SIZE None,
            p_next_mutex_id := 0, p_next_semaphore_id := 0, p_next_condvar_id := 0,
            p_deadlock_detect_enable := 0,
            p_mutex_allocation := zero_table, p_mutex_request := zero_table,
            p_sem_allocation := zero_table, p_sem_request := zero_table,
            p_syscall_count := replicate MAX_SYSCALL_NUM 0,
            p_stride := 0, p_priority := 16,
            p_npc_id := - 1, p_dynamic_prio := 0, p_ipc_rx_bytes := 0\<rparr>) k) })"

section \<open>Threads\<close>

definition get_thread_trapframe_va :: "int \<Rightarrow> u64" where
  "get_thread_trapframe_va tid = TRAPFRAME - word_of_int tid * TRAP_PAGE_SIZE"

definition get_thread_ustack_base_va :: "nat \<Rightarrow> int \<Rightarrow> 'a kern_scheme \<Rightarrow> u64" where
  "get_thread_ustack_base_va p tid k = p_ustack_base (the_proc k p) + word_of_int tid * USTACK_SIZE"

definition slot_page :: "u64 \<Rightarrow> nat \<Rightarrow> nat \<Rightarrow> u64" where
  "slot_page base p tid = base + of_nat (p * NTHREAD + tid) * PAGE_SIZE"

text \<open>The user stack of a new thread, when it is to be mapped.\<close>

definition map_ustack :: "nat \<Rightarrow> u64 \<Rightarrow> 'a kern_scheme \<Rightarrow> 'a kern_scheme option" where
  "map_ustack p ustack k = do {
     (r, k) \<leftarrow> uvmmap (p_pagetable (the_proc k p)) ustack (USTACK_SIZE div PAGE_SIZE)
       (PTE_U OR PTE_R OR PTE_W) k;
     if r < 0 then None
     else Some (map_proc p (\<lambda>x. x\<lparr>p_max_page :=
       max (p_max_page x) (PGROUNDUP (ustack + USTACK_SIZE - 1) div PAGE_SIZE)\<rparr>) k) }"

definition allocthread :: "'b symbols_scheme \<Rightarrow> nat \<Rightarrow> u64 \<Rightarrow> bool \<Rightarrow> 'a kern_scheme \<Rightarrow> (int \<times> 'a kern_scheme) option" where
  "allocthread L p entry alloc_user_res k =
     (case first_idx (\<lambda>t. th_state t = T_UNUSED) (p_threads (the_proc k p)) of
        None \<Rightarrow> Some (- 1, k)
      | Some tid \<Rightarrow> do {
          let ustack = get_thread_ustack_base_va p (int tid) k;
          let kst = slot_page (sym_kstack L) p tid;
          let k = map_thread (p, tid) (\<lambda>t. t\<lparr>th_tid := int tid, th_state := T_USED, th_exit_code := 0,
            th_kstack := kst, th_ustack := ustack\<rparr>) k;
          k \<leftarrow> (if alloc_user_res then map_ustack p ustack k else Some k);
          (r, k) \<leftarrow> mappages (p_pagetable (the_proc k p)) (get_thread_trapframe_va (int tid)) TRAP_PAGE_SIZE
            (slot_page (sym_trapframe L) p tid) (PTE_R OR PTE_W) k;
          if r < 0 then None
          else Some (int tid, map_thread (p, tid) (\<lambda>t. t\<lparr>
            th_trapframe := (\<lambda>_. 0)(SP := ustack + USTACK_SIZE, Epc := entry),
            th_ctx_ra := sym_usertrapret L, th_ctx_sp := kst + KSTACK_SIZE\<rparr>) k) })"

definition freethread :: "task \<Rightarrow> 'a kern_scheme \<Rightarrow> 'a kern_scheme option" where
  "freethread t k = do {
     let pt = p_pagetable (the_proc k (fst t));
     let tid = th_tid (the_thread k t);
     let k = map_thread t (\<lambda>t. t\<lparr>th_trapframe := (\<lambda>_. 0x0606060606060606),
       th_ctx_ra := 0x0606060606060606, th_ctx_sp := 0x0606060606060606\<rparr>) k;
     k \<leftarrow> uvmunmap pt (get_thread_trapframe_va tid) 1 False k;
     uvmunmap pt (get_thread_ustack_base_va (fst t) tid k) (USTACK_SIZE div PAGE_SIZE) True k }"

section \<open>The end of a process\<close>

definition freepagetable :: "u64 \<Rightarrow> u64 \<Rightarrow> 'a phys_scheme \<Rightarrow> 'a phys_scheme option" where
  "freepagetable pagetable max_page s = do {
     s \<leftarrow> uvmunmap pagetable TRAMPOLINE 1 False s;
     uvmfree pagetable max_page s }"

fun free_threads :: "nat \<Rightarrow> nat list \<Rightarrow> 'a kern_scheme \<Rightarrow> 'a kern_scheme option" where
  "free_threads p [] k = Some k"
| "free_threads p (tid # tids) k = do {
     let st = th_state (the_thread k (p, tid));
     k \<leftarrow> (if st \<noteq> T_UNUSED \<and> st \<noteq> EXITED then freethread (p, tid) k else Some k);
     free_threads p tids (set_state (p, tid) T_UNUSED k) }"

text \<open>The loop over the files has the condition \<^verbatim>\<open>i > FD_BUFFER_SIZE\<close> from \<^verbatim>\<open>i = 0\<close>: no round.\<close>

definition freeproc :: "nat \<Rightarrow> 'a kern_scheme \<Rightarrow> 'a kern_scheme option" where
  "freeproc p k = do {
     k \<leftarrow> free_threads p [0..<NTHREAD] k;
     let pr = the_proc k p;
     k \<leftarrow> (if p_pagetable pr \<noteq> 0 then freepagetable (p_pagetable pr) (p_max_page pr) k else Some k);
     Some (map_proc p (\<lambda>x. x\<lparr>p_pagetable := 0, p_max_page := 0, p_ustack_base := 0,
       p_state := P_UNUSED\<rparr>) k) }"

definition exit :: "int \<Rightarrow> 'a kern_scheme \<Rightarrow> 'a kern_scheme option" where
  "exit code k = (case current k of None \<Rightarrow> None | Some t \<Rightarrow> do {
     let p = fst t;
     let k = map_thread t (\<lambda>x. x\<lparr>th_exit_code := word_of_int code, th_state := EXITED\<rparr>) k;
     let tid = th_tid (the_thread k t);
     k \<leftarrow> freethread t k;
     k \<leftarrow> (if tid = 0 then do {
         k \<leftarrow> freeproc p (map_proc p (\<lambda>x. x\<lparr>p_exit_code := word_of_int code\<rparr>) k);
         let k = (if p_parent (the_proc k p) \<noteq> None then map_proc p (\<lambda>x. x\<lparr>p_state := ZOMBIE\<rparr>) k else k);
         Some (k\<lparr>pool := map (\<lambda>x. if p_parent x = Some p then x\<lparr>p_parent := None\<rparr> else x) (pool k)\<rparr>) }
       else Some k);
     sched k })"

text \<open>The children \<^verbatim>\<open>wait(pid, ...)\<close> of process \<open>p\<close> looks for.\<close>

definition waited :: "nat \<Rightarrow> int \<Rightarrow> proc \<Rightarrow> bool" where
  "waited p pid x \<longleftrightarrow> p_state x \<noteq> P_UNUSED \<and> p_parent x = Some p \<and> (pid \<le> 0 \<or> p_pid x = pid)"

text \<open>One round of the loop of \<^verbatim>\<open>wait\<close>. The code is written through the kernel address \<open>code\<close>.\<close>

definition wait :: "int \<Rightarrow> u64 \<Rightarrow> 'a kern_scheme \<Rightarrow> ((int + proc_resume) \<times> 'a kern_scheme) option" where
  "wait pid code k = (case current k of None \<Rightarrow> None | Some t \<Rightarrow>
     case first_idx (\<lambda>x. waited (fst t) pid x \<and> p_state x = ZOMBIE) (pool k) of
       Some np \<Rightarrow>
         if code = 0 then None
         else let x = the_proc k np;
                  k = map_proc np (\<lambda>x. x\<lparr>p_state := P_UNUSED\<rparr>) k;
                  m = write_bytes (mem k) code (le_bytes 4 (p_exit_code x))
           in Some (Inl (p_pid x), k\<lparr>mem := memset m (th_kstack (p_threads x ! 0)) 9 (unat KSTACK_SIZE)\<rparr>)
     | None \<Rightarrow>
         if list_ex (waited (fst t) pid) (pool k) then do {
           k \<leftarrow> add_task t (set_state t RUNNABLE k);
           k \<leftarrow> sched k;
           Some (Inr (Wait_child pid code), k) }
         else Some (Inl (- 1), k))"

section \<open>New processes\<close>

text \<open>The loops of \<^verbatim>\<open>fork\<close> and \<^verbatim>\<open>sys_spawn\<close> that copy the file table, over descriptors \<open>is\<close>.\<close>

fun share_files :: "nat \<Rightarrow> nat \<Rightarrow> nat list \<Rightarrow> 'a fs_kern_scheme \<Rightarrow> 'a fs_kern_scheme" where
  "share_files p np [] k = k"
| "share_files p np (i # is) k =
     share_files p np is
       (case p_files (the_proc k p) ! i of
          None \<Rightarrow> k
        | Some f \<Rightarrow> set_fd np i (Some f) (map_file f (\<lambda>x. x\<lparr>f_ref := f_ref x + 1\<rparr>) k))"

definition fork :: "'b symbols_scheme \<Rightarrow> 'a fs_kern_scheme \<Rightarrow> (int \<times> 'a fs_kern_scheme) option" where
  "fork L k = do {
     let p = curr_proc k;
     (np, k) \<leftarrow> allocproc k;
     np \<leftarrow> np;
     let pr = the_proc k p;
     (r, k) \<leftarrow> uvmcopy (p_pagetable pr) (p_pagetable (the_proc k np)) (p_max_page pr) k;
     if r < 0 then None
     else do {
       let k = map_proc np (\<lambda>x. x\<lparr>p_max_page := p_max_page pr, p_ustack_base := p_ustack_base pr\<rparr>) k;
       let k = share_files p np [0..<FD_BUFFER_SIZE] k;
       let k = map_proc np (\<lambda>x. x\<lparr>p_parent := Some p\<rparr>) k;
       (tid, k) \<leftarrow> allocthread L np 0 False k;
       if tid < 0 then None
       else do {
         let nt = (np, nat tid);
         let k = map_thread nt (\<lambda>x. x\<lparr>th_trapframe := (th_trapframe (the_thread k (p, 0)))(A0 := 0),
           th_state := RUNNABLE\<rparr>) k;
         k \<leftarrow> add_task nt k;
         Some (p_pid (the_proc k np), k) } } }"

section \<open>Program arguments\<close>

text \<open>The strings of \<^verbatim>\<open>argv\<close> from number \<open>argc\<close> on: the stack pointer and the addresses pushed.\<close>

fun push_strings :: "u64 \<Rightarrow> u64 \<Rightarrow> nat \<Rightarrow> u8 list list \<Rightarrow> u64 \<Rightarrow> 'a phys_scheme \<Rightarrow>
    (u64 \<times> u64 list \<times> 'a phys_scheme) option" where
  "push_strings pt spb argc [] sp s = Some (sp, [], s)"
| "push_strings pt spb argc (a # as) sp s =
     (if MAX_ARG_NUM \<le> argc then None
      else let sp = sp - of_nat (length a + 1); sp = sp - sp mod 16 in
        if sp < spb then None
        else let (r, s) = copyout pt sp (a @ [0]) s in
          if r < 0 then None
          else do {
            (sp', us, s) \<leftarrow> push_strings pt spb (Suc argc) as sp s;
            Some (sp', sp # us, s) })"

definition push_argv :: "nat \<Rightarrow> u8 list list \<Rightarrow> 'a kern_scheme \<Rightarrow> (int \<times> 'a kern_scheme) option" where
  "push_argv p argv k = do {
     let spb = th_ustack (the_thread k (p, 0));
     let pt = p_pagetable (the_proc k p);
     (sp, us, k) \<leftarrow> push_strings pt spb 0 argv (spb + USTACK_SIZE) k;
     let sp = sp - of_nat ((length argv + 1) * 8);
     let sp = sp - sp mod 16;
     if sp < spb then None
     else let (r, k) = copyout pt sp (concat (map (le_bytes 8) (us @ [0]))) k in
       if r < 0 then None
       else Some (int (length argv), map_thread (p, 0)
         (\<lambda>t. t\<lparr>th_trapframe := (th_trapframe t)(A1 := sp, SP := sp)\<rparr>) k) }"

section \<open>Loading programs\<close>

text \<open>\<^verbatim>\<open>memset(page + (length - off), 0, PAGE_SIZE - (length - off))\<close> on the last page.\<close>

definition clear_tail :: "u64 \<Rightarrow> u64 \<Rightarrow> u64 \<Rightarrow> 'a phys_scheme \<Rightarrow> 'a phys_scheme" where
  "clear_tail page len off s =
     (if len < off + PAGE_SIZE
      then s\<lparr>mem := memset (mem s) (page + (len - off)) 0 (unat (PAGE_SIZE - (len - off)))\<rparr> else s)"

text \<open>The rounds of the loop of \<^verbatim>\<open>bin_loader\<close>, by page number.\<close>

fun load_pages :: "nat \<Rightarrow> nat \<Rightarrow> u64 \<Rightarrow> nat list \<Rightarrow> 'a fs_kern_scheme \<Rightarrow> 'a fs_kern_scheme option" where
  "load_pages ip p len [] k = Some k"
| "load_pages ip p len (n # ns) k =
     (let off = of_nat n * PAGE_SIZE; (page, k) = kalloc k in
      if page = 0 then None
      else do {
        (r, xs, k) \<leftarrow> readi ip (Kernel_dst page) (ucast off) (ucast PAGE_SIZE) k;
        (r, k) \<leftarrow> mappages (p_pagetable (the_proc k p)) (BASE_ADDRESS + off) PGSIZE page
          (PTE_U OR PTE_R OR PTE_W OR PTE_X) (clear_tail page len off k);
        if r \<noteq> 0 then None else load_pages ip p len ns k })"

definition bin_loader :: "'b symbols_scheme \<Rightarrow> nat \<Rightarrow> nat \<Rightarrow> 'a fs_kern_scheme \<Rightarrow> (int \<times> 'a fs_kern_scheme) option" where
  "bin_loader L ip p k = do {
     k \<leftarrow> ivalid ip k;
     let len = (ucast (i_size (the_inode k ip)) :: u64);
     let va_end = PGROUNDUP (BASE_ADDRESS + len);
     k \<leftarrow> load_pages ip p len [0..<unat ((va_end - BASE_ADDRESS) div PGSIZE)] k;
     (r, k) \<leftarrow> allocthread L p BASE_ADDRESS True (map_proc p (\<lambda>x. x\<lparr>p_max_page := va_end div PAGE_SIZE,
       p_ustack_base := va_end + PAGE_SIZE\<rparr>) k);
     if r \<noteq> 0 then None else Some (0, k) }"

definition exec :: "'b symbols_scheme \<Rightarrow> (nat \<Rightarrow> u8) \<Rightarrow> u8 list list \<Rightarrow> 'a fs_kern_scheme \<Rightarrow> (int \<times> 'a fs_kern_scheme) option" where
  "exec L path argv k = (case current k of None \<Rightarrow> None | Some t \<Rightarrow> do {
     let p = fst t;
     (ip, k) \<leftarrow> namei path k;
     case ip of
       None \<Rightarrow> Some (- 1, k)
     | Some ip \<Rightarrow> do {
         k \<leftarrow> freethread t k;
         let k = set_state t T_UNUSED k;
         k \<leftarrow> uvmunmap (p_pagetable (the_proc k p)) 0 (p_max_page (the_proc k p)) True k;
         (r, k) \<leftarrow> bin_loader L ip p k;
         k \<leftarrow> iput ip k;
         push_argv p argv (set_state t RUNNING k) } })"

text \<open>\<open>init\<close> is the name of the first program, \<^verbatim>\<open>INIT_PROC\<close>, which the build links in.\<close>

definition start_program :: "nat \<Rightarrow> u8 list \<Rightarrow> 'a fs_kern_scheme \<Rightarrow> 'a fs_kern_scheme option" where
  "start_program p path k = do {
     (argc, k) \<leftarrow> push_argv p [path] k;
     add_task (p, 0) (map_thread (p, 0) (\<lambda>t. t\<lparr>th_trapframe := (th_trapframe t)(A0 := word_of_int argc),
       th_state := RUNNABLE\<rparr>) k) }"

definition load_init_app :: "'b symbols_scheme \<Rightarrow> u8 list \<Rightarrow> 'a fs_kern_scheme \<Rightarrow> (int \<times> 'a fs_kern_scheme) option" where
  "load_init_app L init k = do {
     (p, k) \<leftarrow> allocproc k;
     p \<leftarrow> p;
     (r, k) \<leftarrow> init_stdio p k;
     (ip, k) \<leftarrow> namei (\<lambda>i. (init @ [0]) ! i) k;
     case ip of
       None \<Rightarrow> Some (- 1, k)
     | Some ip \<Rightarrow> do {
         (r, k) \<leftarrow> bin_loader L ip p k;
         k \<leftarrow> iput ip k;
         k \<leftarrow> start_program p init k;
         Some (0, k) } }"

end
