(* ===== verification/Syscalls.thy ===== *)
theory Syscalls
  imports Process Deadlock
begin

text \<open>
  The system calls of \<^verbatim>\<open>os/syscall.c\<close> on files, processes, threads and memory (those on locks
  are in \<open>Deadlock\<close>, those on NPCs in \<open>NpcSched\<close>).

  A call that may give the CPU away returns \<open>Waits\<close> with the point its caller goes on from;
  \<open>None\<close> is a \<^verbatim>\<open>panic\<close>, a trap on a null pointer, or an access outside an array.
  \<open>env\<close> adds to the linker's symbols what a call reads from outside the kernel state: the
  cycle counter, the content of uninitialised stack buffers, and the answer of the AI service.
\<close>

datatype kresume = R_sync resume | R_pipe pipe_resume | R_proc proc_resume | R_yield

datatype outcome = Done int | Waits kresume | Gone

record env = symbols +
  env_cycle :: u64
  env_junk :: "nat \<Rightarrow> u8"
  env_ai :: "u8 list \<Rightarrow> (bool \<times> u8 list) option"

definition MAX_STR_LEN :: nat where "MAX_STR_LEN = 300"
definition CPU_FREQ :: u64 where "CPU_FREQ = 12500000"

text \<open>A stack buffer after \<open>xs\<close> were stored at its start, and the C string in it.\<close>

definition in_buffer :: "'b env_scheme \<Rightarrow> u8 list \<Rightarrow> nat \<Rightarrow> u8" where
  "in_buffer E xs = (\<lambda>i. if i < length xs then xs ! i else env_junk E i)"

definition c_string :: "u8 list \<Rightarrow> u8 list option" where
  "c_string xs = (if 0 \<in> set xs then Some (takeWhile (\<lambda>c. c \<noteq> 0) xs) else None)"

definition my_pagetable :: "'a kern_scheme \<Rightarrow> u64" where
  "my_pagetable k = p_pagetable (the_proc k (curr_proc k))"

definition wrap_pipe :: "((int + pipe_resume) \<times> 'a fs_kern_scheme) option \<Rightarrow> (outcome \<times> 'a fs_kern_scheme) option" where
  "wrap_pipe r = map_option (\<lambda>(x, k). (case x of Inl v \<Rightarrow> Done v | Inr q \<Rightarrow> Waits (R_pipe q), k)) r"

section \<open>Console\<close>

definition console_getchar :: "'a fs_kern_scheme \<Rightarrow> int \<times> 'a fs_kern_scheme" where
  "console_getchar k = (case con_in k of [] \<Rightarrow> (- 1, k) | c # cs \<Rightarrow> (c, k\<lparr>con_in := cs\<rparr>))"

definition console_write :: "u64 \<Rightarrow> u64 \<Rightarrow> 'a fs_kern_scheme \<Rightarrow> u64 \<times> 'a fs_kern_scheme" where
  "console_write va len k =
     (let (sz, xs) = copyinstr (my_pagetable k) va (min (unat len) MAX_STR_LEN) k in
      (len, k\<lparr>con_out := con_out k @ take (nat sz) xs\<rparr>))"

fun read_chars :: "nat \<Rightarrow> 'a fs_kern_scheme \<Rightarrow> u8 list \<times> 'a fs_kern_scheme" where
  "read_chars 0 k = ([], k)"
| "read_chars (Suc n) k =
     (let (c, k) = console_getchar k; (cs, k) = read_chars n k in (word_of_int c # cs, k))"

definition console_read :: "u64 \<Rightarrow> u64 \<Rightarrow> 'a fs_kern_scheme \<Rightarrow> (u64 \<times> 'a fs_kern_scheme) option" where
  "console_read va len k =
     (if MAX_STR_LEN < unat len then None
      else let (cs, k) = read_chars (unat len) k; (r, k) = copyout (my_pagetable k) va cs k
        in Some (len, k))"

section \<open>Files\<close>

text \<open>\<^verbatim>\<open>p->files[fd]\<close> behind the test \<^verbatim>\<open>fd < 0 || fd > FD_BUFFER_SIZE\<close>: descriptor 16 passes it.\<close>

definition fd_file :: "int \<Rightarrow> 'a kern_scheme \<Rightarrow> nat option option" where
  "fd_file fd k =
     (if fd < 0 \<or> int FD_BUFFER_SIZE < fd then Some None
      else if int FD_BUFFER_SIZE \<le> fd then None
      else Some (p_files (the_proc k (curr_proc k)) ! nat fd))"

definition sys_write :: "int \<Rightarrow> u64 \<Rightarrow> u64 \<Rightarrow> 'a fs_kern_scheme \<Rightarrow> (outcome \<times> 'a fs_kern_scheme) option" where
  "sys_write fd va len k = do {
     f \<leftarrow> fd_file fd k;
     case f of
       None \<Rightarrow> Some (Done (- 1), k)
     | Some f \<Rightarrow> (case f_type (the_file k f) of
           FD_STDIO \<Rightarrow> (let (r, k) = console_write va len k in Some (Done (to_int r), k))
         | FD_PIPE \<Rightarrow> wrap_pipe (pipewrite (f_pipe (the_file k f)) va (to_int len) k)
         | FD_INODE \<Rightarrow> do { (r, k) \<leftarrow> inodewrite f va len k; Some (Done r, k) }
         | FD_NONE \<Rightarrow> None) }"

definition sys_read :: "int \<Rightarrow> u64 \<Rightarrow> u64 \<Rightarrow> 'a fs_kern_scheme \<Rightarrow> (outcome \<times> 'a fs_kern_scheme) option" where
  "sys_read fd va len k = do {
     f \<leftarrow> fd_file fd k;
     case f of
       None \<Rightarrow> Some (Done (- 1), k)
     | Some f \<Rightarrow> (case f_type (the_file k f) of
           FD_STDIO \<Rightarrow> do { (r, k) \<leftarrow> console_read va len k; Some (Done (to_int r), k) }
         | FD_PIPE \<Rightarrow> wrap_pipe (piperead (f_pipe (the_file k f)) va (to_int len) k)
         | FD_INODE \<Rightarrow> do { (r, k) \<leftarrow> inoderead f va len k; Some (Done r, k) }
         | FD_NONE \<Rightarrow> None) }"

definition sys_close :: "int \<Rightarrow> 'a fs_kern_scheme \<Rightarrow> (int \<times> 'a fs_kern_scheme) option" where
  "sys_close fd k = do {
     f \<leftarrow> fd_file fd k;
     case f of
       None \<Rightarrow> Some (- 1, k)
     | Some f \<Rightarrow> do {
         k \<leftarrow> fileclose f k;
         Some (0, set_fd (curr_proc k) (nat fd) None k) } }"

definition sys_openat :: "'b env_scheme \<Rightarrow> u64 \<Rightarrow> u64 \<Rightarrow> 'a fs_kern_scheme \<Rightarrow> (int \<times> 'a fs_kern_scheme) option" where
  "sys_openat E va omode k =
     (let (r, xs) = copyinstr (my_pagetable k) va 200 k in fileopen (in_buffer E xs) omode k)"

text \<open>
  \<^verbatim>\<open>fd0 < 0 || fd1 < 0\<close> compares unsigned numbers and is never true: a descriptor that could
  not be allocated is handed to the caller as -1. The label \<^verbatim>\<open>err1\<close> then stores outside the table.
\<close>

definition close_both :: "nat \<Rightarrow> nat \<Rightarrow> 'a fs_kern_scheme \<Rightarrow> (int \<times> 'a fs_kern_scheme) option" where
  "close_both f0 f1 k = do { k \<leftarrow> fileclose f0 k; k \<leftarrow> fileclose f1 k; Some (- 1, k) }"

definition sys_pipe :: "u64 \<Rightarrow> 'a fs_kern_scheme \<Rightarrow> (int \<times> 'a fs_kern_scheme) option" where
  "sys_pipe fdarray k =
     (let p = curr_proc k; (f0, k) = filealloc k; (f1, k) = filealloc k in
      case (f0, f1) of
        (Some f0, Some f1) \<Rightarrow>
          (let (r, k) = pipealloc f0 f1 k in
           if r < 0 then close_both f0 f1 k
           else let (fd0, k) = fdalloc f0 k; (fd1, k) = fdalloc f1 k;
                    (r, k) = copyout (my_pagetable k) fdarray (le_bytes 4 (word_of_int fd0 :: u32)) k;
                    (r, k) = (if r < 0 then (r, k)
                      else copyout (my_pagetable k) (fdarray + 4) (le_bytes 4 (word_of_int fd1 :: u32)) k)
             in if r < 0 then
                  if fd0 < 0 \<or> fd1 < 0 then None
                  else close_both f0 f1 (set_fd p (nat fd1) None (set_fd p (nat fd0) None k))
                else Some (0, k))
      | (Some f0, None) \<Rightarrow> do { k \<leftarrow> fileclose f0 k; Some (- 1, k) }
      | (None, Some f1) \<Rightarrow> do { k \<leftarrow> fileclose f1 k; Some (- 1, k) }
      | (None, None) \<Rightarrow> Some (- 1, k))"

text \<open>The link calls look the file up, refuse directories, and keep the link count on disk.\<close>

definition add_nlink :: "u16 \<Rightarrow> nat \<Rightarrow> 'a fs_kern_scheme \<Rightarrow> 'a fs_kern_scheme" where
  "add_nlink d i = map_inode i (\<lambda>ip. ip\<lparr>i_nlink := i_nlink ip + d\<rparr>)"

definition sys_linkat :: "'b env_scheme \<Rightarrow> u64 \<Rightarrow> u64 \<Rightarrow> 'a fs_kern_scheme \<Rightarrow> (int \<times> 'a fs_kern_scheme) option" where
  "sys_linkat E oldpath_va newpath_va k =
     (let (r, xs) = copyinstr (my_pagetable k) oldpath_va MAX_STR_LEN k;
          (r', ys) = copyinstr (my_pagetable k) newpath_va MAX_STR_LEN k;
          oldpath = in_buffer E xs; newpath = in_buffer E ys in
      if r < 0 then Some (- 1, k)
      else if r' < 0 then Some (- 1, k)
      else if strncmp oldpath newpath MAX_STR_LEN = 0 then Some (- 1, k)
      else do {
        (ip, k) \<leftarrow> namei oldpath k;
        case ip of
          None \<Rightarrow> Some (- 1, k)
        | Some ip \<Rightarrow> do {
            k \<leftarrow> ivalid ip k;
            if i_type (the_inode k ip) = T_DIR then do { k \<leftarrow> iput ip k; Some (- 1, k) }
            else do {
              k \<leftarrow> iupdate ip (add_nlink 1 ip k);
              (dp, k) \<leftarrow> root_dir k;
              (r, k) \<leftarrow> dirlink dp newpath (i_inum (the_inode k ip)) k;
              if r < 0 then do {
                k \<leftarrow> iupdate ip (add_nlink (- 1) ip k);
                k \<leftarrow> iput ip k;
                k \<leftarrow> iput dp k;
                Some (- 1, k) }
              else do { k \<leftarrow> iput dp k; k \<leftarrow> iput ip k; Some (0, k) } } } })"

definition sys_unlinkat :: "'b env_scheme \<Rightarrow> u64 \<Rightarrow> 'a fs_kern_scheme \<Rightarrow> (int \<times> 'a fs_kern_scheme) option" where
  "sys_unlinkat E path_va k =
     (let (r, xs) = copyinstr (my_pagetable k) path_va MAX_STR_LEN k; path = in_buffer E xs in
      if r < 0 then Some (- 1, k)
      else do {
        (ip, k) \<leftarrow> namei path k;
        case ip of
          None \<Rightarrow> Some (- 1, k)
        | Some ip \<Rightarrow> do {
            k \<leftarrow> ivalid ip k;
            if i_type (the_inode k ip) = T_DIR then do { k \<leftarrow> iput ip k; Some (- 1, k) }
            else do {
              (dp, k) \<leftarrow> root_dir k;
              (r, k) \<leftarrow> dirunlink dp path k;
              if r < 0 then do { k \<leftarrow> iput ip k; k \<leftarrow> iput dp k; Some (- 1, k) }
              else do {
                k \<leftarrow> iput dp k;
                k \<leftarrow> iupdate ip (add_nlink (- 1) ip k);
                k \<leftarrow> iput ip k;
                Some (0, k) } } } })"

text \<open>The bytes of \<^verbatim>\<open>struct Stat\<close>.\<close>

definition stat_bytes :: "inode \<Rightarrow> u8 list" where
  "stat_bytes ip = le_bytes 8 (0 :: u64) @ le_bytes 8 (ucast (i_inum ip) :: u64) @
     le_bytes 4 (if i_type ip = T_DIR then 0x040000 else 0x100000 :: u32) @
     le_bytes 4 (scast (i_nlink ip) :: u32) @ replicate 56 0"

definition sys_fstat :: "int \<Rightarrow> u64 \<Rightarrow> 'a fs_kern_scheme \<Rightarrow> (int \<times> 'a fs_kern_scheme) option" where
  "sys_fstat fd st_va k =
     (if fd < 0 \<or> int FD_BUFFER_SIZE \<le> fd then Some (- 1, k)
      else case p_files (the_proc k (curr_proc k)) ! nat fd of
        None \<Rightarrow> Some (- 1, k)
      | Some f \<Rightarrow>
          if f_type (the_file k f) \<noteq> FD_INODE then Some (- 1, k)
          else do {
            let ip = f_ip (the_file k f);
            k \<leftarrow> ivalid ip k;
            let (r, k) = copyout (my_pagetable k) st_va (stat_bytes (the_inode k ip)) k;
            Some (if r < 0 then - 1 else 0, k) })"

section \<open>Processes and threads\<close>

definition sys_gettimeofday :: "'b env_scheme \<Rightarrow> u64 \<Rightarrow> 'a kern_scheme \<Rightarrow> int \<times> 'a kern_scheme" where
  "sys_gettimeofday E val k =
     (let cycle = env_cycle E;
          (r, k) = copyout (my_pagetable k) val
            (le_bytes 8 (cycle div CPU_FREQ) @ le_bytes 8 (cycle mod CPU_FREQ * 1000000 div CPU_FREQ)) k
      in (0, k))"

definition sys_getpid :: "'a kern_scheme \<Rightarrow> int" where
  "sys_getpid k = p_pid (the_proc k (curr_proc k))"

definition sys_getppid :: "'a kern_scheme \<Rightarrow> int" where
  "sys_getppid k = (case p_parent (the_proc k (curr_proc k)) of
     None \<Rightarrow> IDLE_PID | Some pp \<Rightarrow> p_pid (the_proc k pp))"

definition sys_clone :: "'b env_scheme \<Rightarrow> 'a fs_kern_scheme \<Rightarrow> (int \<times> 'a fs_kern_scheme) option" where
  "sys_clone E k = fork E k"

text \<open>
  The loop of \<^verbatim>\<open>sys_exec\<close> over the argument vector, from entry \<open>i\<close>: it has no test against
  \<^verbatim>\<open>MAX_ARG_NUM\<close>, and \<^verbatim>\<open>argv[i] = NULL\<close> behind it needs an entry too.
\<close>

function copy_args :: "u64 \<Rightarrow> nat \<Rightarrow> 'a fs_kern_scheme \<Rightarrow> (nat \<times> 'a fs_kern_scheme) option" where
  "copy_args uargv i k =
     (if MAX_ARG_NUM \<le> i then None
      else if uargv = 0 then Some (i, k)
      else let a = useraddr (my_pagetable k) uargv k in
        if a = 0 then None
        else if load64 (mem k) a = 0 then Some (i, k)
        else let (r, xs) = copyinstr (my_pagetable k) (load64 (mem k) a) MAX_STR_LEN k
          in copy_args (uargv + 8) (Suc i) (k\<lparr>strpool := upd_at i (splice 0 xs) (strpool k)\<rparr>))"
  by pat_completeness auto
termination by (relation "measure (\<lambda>(uargv, i, k). MAX_ARG_NUM - i)") auto

declare copy_args.simps [simp del]

definition arg_string :: "'a fs_kern_scheme \<Rightarrow> nat \<Rightarrow> u8 list option" where
  "arg_string k i = c_string (concat (drop i (strpool k)))"

definition sys_exec :: "'b env_scheme \<Rightarrow> u64 \<Rightarrow> u64 \<Rightarrow> 'a fs_kern_scheme \<Rightarrow> (int \<times> 'a fs_kern_scheme) option" where
  "sys_exec E path uargv k = do {
     let (r, xs) = copyinstr (my_pagetable k) path MAX_STR_LEN k;
     (n, k) \<leftarrow> copy_args uargv 0 k;
     let argv = map (arg_string k) [0..<n];
     if None \<in> set argv then None else exec E (in_buffer E xs) (map the argv) k }"

definition sys_wait :: "int \<Rightarrow> u64 \<Rightarrow> 'a kern_scheme \<Rightarrow> (outcome \<times> 'a kern_scheme) option" where
  "sys_wait pid va k =
     map_option (\<lambda>(x, k). (case x of Inl v \<Rightarrow> Done v | Inr q \<Rightarrow> Waits (R_proc q), k))
       (wait pid (useraddr (my_pagetable k) va k) k)"

definition sys_thread_create :: "'b env_scheme \<Rightarrow> u64 \<Rightarrow> u64 \<Rightarrow> 'a kern_scheme \<Rightarrow> (int \<times> 'a kern_scheme) option" where
  "sys_thread_create E entry arg k = do {
     let p = curr_proc k;
     (tid, k) \<leftarrow> allocthread E p entry True k;
     if tid < 0 then Some (- 1, k)
     else do {
       k \<leftarrow> add_task (p, nat tid) (map_thread (p, nat tid)
         (\<lambda>t. t\<lparr>th_trapframe := (th_trapframe t)(A0 := arg), th_state := RUNNABLE\<rparr>) k);
       Some (tid, k) } }"

definition sys_gettid :: "'a kern_scheme \<Rightarrow> int" where
  "sys_gettid k = threadid k"

definition sys_waittid :: "int \<Rightarrow> 'a kern_scheme \<Rightarrow> int \<times> 'a kern_scheme" where
  "sys_waittid tid k =
     (if tid < 0 \<or> int NTHREAD \<le> tid then (- 1, k)
      else let t = (curr_proc k, nat tid); x = the_thread k t in
        if th_state x = T_UNUSED \<or> tid = threadid k then (- 1, k)
        else if th_state x \<noteq> EXITED then (- 2, k)
        else let k = k\<lparr>mem := memset (mem k) (th_kstack x) 7 (unat KSTACK_SIZE)\<rparr>
          in (to_int (th_exit_code x), map_thread t (\<lambda>x. x\<lparr>th_tid := - 1, th_state := T_UNUSED\<rparr>) k))"

definition sys_spawn :: "'b env_scheme \<Rightarrow> u64 \<Rightarrow> 'a fs_kern_scheme \<Rightarrow> (int \<times> 'a fs_kern_scheme) option" where
  "sys_spawn E path_va k =
     (let p = curr_proc k; (r, xs) = copyinstr (my_pagetable k) path_va MAX_STR_LEN k in
      if r < 0 then Some (- 1, k)
      else do {
        (ip, k) \<leftarrow> namei (in_buffer E xs) k;
        case ip of
          None \<Rightarrow> Some (- 1, k)
        | Some ip \<Rightarrow> do {
            (np, k) \<leftarrow> allocproc k;
            case np of
              None \<Rightarrow> do { k \<leftarrow> iput ip k; Some (- 1, k) }
            | Some np \<Rightarrow> do {
                (r, k) \<leftarrow> init_stdio np (map_proc np (\<lambda>x. x\<lparr>p_parent := Some p\<rparr>) k);
                (r, k) \<leftarrow> bin_loader E ip np (share_files p np [3..<FD_BUFFER_SIZE] k);
                k \<leftarrow> iput ip k;
                path \<leftarrow> c_string xs;
                k \<leftarrow> start_program np path k;
                Some (p_pid (the_proc k np), k) } } })"

section \<open>Tracing and memory\<close>

definition trace_allowed :: "u64 \<Rightarrow> u64 \<Rightarrow> u64 \<Rightarrow> 'a kern_scheme \<Rightarrow> bool" where
  "trace_allowed perm va pte k \<longleftrightarrow>
     \<not> (pte = 0 \<or> load64 (mem k) pte AND PTE_V = 0 \<or> load64 (mem k) pte AND PTE_U = 0 \<or>
        load64 (mem k) pte AND perm = 0) \<and> useraddr (my_pagetable k) va k \<noteq> 0"

definition sys_trace :: "int \<Rightarrow> u64 \<Rightarrow> u8 \<Rightarrow> 'a kern_scheme \<Rightarrow> (int \<times> 'a kern_scheme) option" where
  "sys_trace trace_request n data k =
     (if trace_request = 0 then do {
        (pte, k) \<leftarrow> walk (my_pagetable k) n False k;
        Some (if trace_allowed PTE_R n pte k
              then uint (mem k (useraddr (my_pagetable k) n k)) else - 1, k) }
      else if trace_request = 1 then do {
        (pte, k) \<leftarrow> walk (my_pagetable k) n False k;
        Some (if trace_allowed PTE_W n pte k
              then (0, k\<lparr>mem := (mem k)(useraddr (my_pagetable k) n k := data)\<rparr>) else (- 1, k)) }
      else if trace_request = 2 then
        Some (if of_nat MAX_SYSCALL_NUM \<le> n then - 1
              else p_syscall_count (the_proc k (curr_proc k)) ! unat n, k)
      else Some (- 1, k))"

text \<open>The checking loops of \<^verbatim>\<open>sys_mmap\<close> and \<^verbatim>\<open>sys_munmap\<close>: whether every page from \<open>va\<close> up to
  \<open>stop\<close> is mapped (\<open>want\<close>) or unmapped.\<close>

partial_function (option) all_pages :: "bool \<Rightarrow> u64 \<Rightarrow> u64 \<Rightarrow> u64 \<Rightarrow> 'a phys_scheme \<Rightarrow> bool option" where
  "all_pages want pt va stop s =
     (if va < stop then do {
        (pte, s) \<leftarrow> walk pt va False s;
        if (pte \<noteq> 0 \<and> load64 (mem s) pte AND PTE_V \<noteq> 0) \<noteq> want then Some False
        else all_pages want pt (va + PGSIZE) stop s }
      else Some True)"

declare all_pages.simps [code]

definition prot_perm :: "int \<Rightarrow> u64" where
  "prot_perm prot = PTE_U OR (if bit prot 0 then PTE_R else 0) OR (if bit prot 1 then PTE_W else 0) OR
     (if bit prot 2 then PTE_X else 0)"

fun mmap_pages :: "u64 \<Rightarrow> u64 \<Rightarrow> nat \<Rightarrow> nat \<Rightarrow> u64 \<Rightarrow> 'a phys_scheme \<Rightarrow> (int \<times> 'a phys_scheme) option" where
  "mmap_pages pt start i 0 perm s = Some (0, s)"
| "mmap_pages pt start i (Suc n) perm s = (let (pg, s) = kalloc s in
     if pg = 0 then Some (- 1, s)
     else do {
       (r, s) \<leftarrow> mappages pt (start + of_nat i * PGSIZE) PGSIZE pg perm
         (s\<lparr>mem := memset (mem s) pg 0 (unat PGSIZE)\<rparr>);
       if r \<noteq> 0 then do { s \<leftarrow> kfree pg s; Some (- 1, s) }
       else mmap_pages pt start (Suc i) n perm s })"

definition sys_mmap :: "u64 \<Rightarrow> u64 \<Rightarrow> int \<Rightarrow> 'a kern_scheme \<Rightarrow> (int \<times> 'a kern_scheme) option" where
  "sys_mmap start len prot k =
     (let npages = (len + PGSIZE - 1) div PGSIZE in
      if \<not> PGALIGNED start then Some (- 1, k)
      else if prot AND NOT 7 \<noteq> 0 then Some (- 1, k)
      else if prot AND 7 = 0 then Some (- 1, k)
      else if len = 0 then Some (0, k)
      else do {
        unmapped \<leftarrow> all_pages False (my_pagetable k) start (start + npages * PGSIZE) k;
        if \<not> unmapped then Some (- 1, k)
        else mmap_pages (my_pagetable k) start 0 (unat npages) (prot_perm prot) k })"

definition sys_munmap :: "u64 \<Rightarrow> u64 \<Rightarrow> 'a kern_scheme \<Rightarrow> (int \<times> 'a kern_scheme) option" where
  "sys_munmap start len k =
     (let npages = (len + PGSIZE - 1) div PGSIZE in
      if \<not> PGALIGNED start then Some (- 1, k)
      else if len = 0 then Some (0, k)
      else do {
        mapped \<leftarrow> all_pages True (my_pagetable k) start (start + npages * PGSIZE) k;
        if \<not> mapped then Some (- 1, k)
        else do {
          k \<leftarrow> uvmunmap (my_pagetable k) start npages True k;
          Some (0, k) } })"

section \<open>NPC calls that copy memory\<close>

definition status_bytes :: "npc_status \<Rightarrow> u8 list" where
  "status_bytes st = concat (map (\<lambda>x. le_bytes 4 (word_of_int x :: u32))
     [st_npc_id st, st_prio st, st_memory st, st_load st, st_alive st, st_tick st])"

definition sys_npc_get_status :: "u64 \<Rightarrow> 'a npc_kern_scheme \<Rightarrow> int \<times> 'a npc_kern_scheme" where
  "sys_npc_get_status st_va k =
     (let (r, k) = copyout (my_pagetable k) st_va (status_bytes (ai_sched_get_status k)) k
      in (if r < 0 then - 1 else 0, k))"

definition sys_npc_memory_save :: "int \<Rightarrow> u64 \<Rightarrow> int \<Rightarrow> 'a npc_kern_scheme \<Rightarrow> int \<times> 'a npc_kern_scheme" where
  "sys_npc_memory_save npc_id content_va len k =
     (if len \<le> 0 \<or> NPC_MEMORY_L2_SIZE \<le> len then (- 1, k)
      else let (r, xs) = copyin (my_pagetable k) content_va (nat len) k in
        if r < 0 then (- 1, k)
        else let (n, ms) = npc_memory_save npc_id (xs @ [0]) len (memories k)
          in (n, k\<lparr>memories := ms\<rparr>))"

definition sys_npc_memory_load :: "int \<Rightarrow> u64 \<Rightarrow> int \<Rightarrow> 'a npc_kern_scheme \<Rightarrow> int \<times> 'a npc_kern_scheme" where
  "sys_npc_memory_load npc_id buf_va maxlen k =
     (let maxlen = (if maxlen \<le> 0 \<or> NPC_MEMORY_L2_SIZE < maxlen then NPC_MEMORY_L2_SIZE else maxlen);
          (len, buf) = npc_memory_load npc_id maxlen (memories k) in
      if len < 0 then (- 1, k)
      else let (r, k) = copyout (my_pagetable k) buf_va (if 0 < len then take (nat len + 1) buf else [0]) k
        in (if r < 0 then - 1 else len, k))"

text \<open>A \<open>resp_maxlen\<close> of 0 or less makes \<^verbatim>\<open>copy_len\<close> negative: the copy runs out of the answer.\<close>

definition sys_npc_ai_chat :: "'b env_scheme \<Rightarrow> u64 \<Rightarrow> u64 \<Rightarrow> int \<Rightarrow> 'a kern_scheme \<Rightarrow> (int \<times> 'a kern_scheme) option" where
  "sys_npc_ai_chat E prompt_va resp_va resp_maxlen k =
     (let (r, xs) = copyinstr (my_pagetable k) prompt_va 1024 k in
      if r < 0 then Some (- 1, k)
      else do {
        prompt \<leftarrow> c_string xs;
        case env_ai E prompt of
          None \<Rightarrow> Some (- 1, k)
        | Some (success, content) \<Rightarrow>
            if \<not> success then Some (- 1, k)
            else let n = (if resp_maxlen \<le> int (length content) then resp_maxlen - 1
                          else int (length content)) in
              if n < 0 then None
              else let (r, k) = copyout (my_pagetable k) resp_va (take (nat n) content) k in
                if r < 0 then Some (- 1, k)
                else let (r, k) = copyout (my_pagetable k) (resp_va + word_of_int n) [0] k in
                  Some (if r < 0 then - 1 else n, k) })"

end
