(* ===== verification/Syscall.thy ===== *)
theory Syscall
  imports Syscalls
begin

text \<open>
  The dispatcher \<^verbatim>\<open>syscall\<close> of \<^verbatim>\<open>os/syscall.c\<close>: it counts the call, reads the arguments from
  the trap frame of the current thread, runs the handler and stores its result in \<^verbatim>\<open>a0\<close>.
  A handler that gave the CPU away stores its result when it is resumed: \<open>resume_call\<close>.
\<close>

definition SYS_unlinkat :: int where "SYS_unlinkat = 35"
definition SYS_linkat :: int where "SYS_linkat = 37"
definition SYS_openat :: int where "SYS_openat = 56"
definition SYS_close :: int where "SYS_close = 57"
definition SYS_pipe2 :: int where "SYS_pipe2 = 59"
definition SYS_read :: int where "SYS_read = 63"
definition SYS_write :: int where "SYS_write = 64"
definition SYS_fstat :: int where "SYS_fstat = 80"
definition SYS_exit :: int where "SYS_exit = 93"
definition SYS_sched_yield :: int where "SYS_sched_yield = 124"
definition SYS_setpriority :: int where "SYS_setpriority = 140"
definition SYS_gettimeofday :: int where "SYS_gettimeofday = 169"
definition SYS_getpid :: int where "SYS_getpid = 172"
definition SYS_getppid :: int where "SYS_getppid = 173"
definition SYS_gettid :: int where "SYS_gettid = 178"
definition SYS_munmap :: int where "SYS_munmap = 215"
definition SYS_clone :: int where "SYS_clone = 220"
definition SYS_execve :: int where "SYS_execve = 221"
definition SYS_mmap :: int where "SYS_mmap = 222"
definition SYS_wait4 :: int where "SYS_wait4 = 260"
definition SYS_spawn :: int where "SYS_spawn = 400"
definition SYS_trace :: int where "SYS_trace = 410"
definition SYS_thread_create :: int where "SYS_thread_create = 460"
definition SYS_waittid :: int where "SYS_waittid = 462"
definition SYS_mutex_create :: int where "SYS_mutex_create = 463"
definition SYS_mutex_lock :: int where "SYS_mutex_lock = 464"
definition SYS_mutex_unlock :: int where "SYS_mutex_unlock = 466"
definition SYS_semaphore_create :: int where "SYS_semaphore_create = 467"
definition SYS_semaphore_up :: int where "SYS_semaphore_up = 468"
definition SYS_enable_deadlock_detect :: int where "SYS_enable_deadlock_detect = 469"
definition SYS_semaphore_down :: int where "SYS_semaphore_down = 470"
definition SYS_condvar_create :: int where "SYS_condvar_create = 471"
definition SYS_condvar_signal :: int where "SYS_condvar_signal = 472"
definition SYS_condvar_wait :: int where "SYS_condvar_wait = 473"
definition SYS_npc_register :: int where "SYS_npc_register = 483"
definition SYS_npc_get_status :: int where "SYS_npc_get_status = 484"
definition SYS_npc_yield :: int where "SYS_npc_yield = 485"
definition SYS_npc_ipc_notify :: int where "SYS_npc_ipc_notify = 486"
definition SYS_npc_ai_chat :: int where "SYS_npc_ai_chat = 487"
definition SYS_npc_memory_save :: int where "SYS_npc_memory_save = 488"
definition SYS_npc_memory_load :: int where "SYS_npc_memory_load = 489"

section \<open>Results of handlers\<close>

definition ret :: "int \<times> 'a kern_scheme \<Rightarrow> (outcome \<times> 'a kern_scheme) option" where
  "ret r = Some (Done (fst r), snd r)"

definition ret_opt :: "(int \<times> 'a kern_scheme) option \<Rightarrow> (outcome \<times> 'a kern_scheme) option" where
  "ret_opt r = map_option (\<lambda>(v, k). (Done v, k)) r"

definition ret_sync :: "(int \<times> resume option \<times> 'a kern_scheme) option \<Rightarrow> (outcome \<times> 'a kern_scheme) option" where
  "ret_sync r = map_option (\<lambda>(v, q, k). (case q of None \<Rightarrow> Done v | Some q \<Rightarrow> Waits (R_sync q), k)) r"

definition yield_call :: "'a kern_scheme option \<Rightarrow> (outcome \<times> 'a kern_scheme) option" where
  "yield_call r = map_option (\<lambda>k. (Waits R_yield, k)) r"

section \<open>The dispatcher\<close>

definition dispatch :: "'b env_scheme \<Rightarrow> int \<Rightarrow> (tfreg \<Rightarrow> u64) \<Rightarrow> 'a fs_kern_scheme \<Rightarrow>
    (outcome \<times> 'a fs_kern_scheme) option" where
  "dispatch E n r k = (
     if n = SYS_write then sys_write (to_int (r A0)) (r A1) (r A2) k
     else if n = SYS_read then sys_read (to_int (r A0)) (r A1) (r A2) k
     else if n = SYS_openat then ret_opt (sys_openat E (r A0) (r A1) k)
     else if n = SYS_close then ret_opt (sys_close (to_int (r A0)) k)
     else if n = SYS_exit then map_option (\<lambda>k. (Gone, k)) (exit (to_int (r A0)) k)
     else if n = SYS_sched_yield then yield_call (yield k)
     else if n = SYS_gettimeofday then ret (sys_gettimeofday E (r A0) k)
     else if n = SYS_getpid then ret (sys_getpid k, k)
     else if n = SYS_getppid then ret (sys_getppid k, k)
     else if n = SYS_clone then ret_opt (sys_clone E k)
     else if n = SYS_execve then ret_opt (sys_exec E (r A0) (r A1) k)
     else if n = SYS_wait4 then sys_wait (to_int (r A0)) (r A1) k
     else if n = SYS_pipe2 then ret_opt (sys_pipe (r A0) k)
     else if n = SYS_thread_create then ret_opt (sys_thread_create E (r A0) (r A1) k)
     else if n = SYS_gettid then ret (sys_gettid k, k)
     else if n = SYS_waittid then ret (sys_waittid (to_int (r A0)) k)
     else if n = SYS_mutex_create then ret (sys_mutex_create (to_int (r A0)) k)
     else if n = SYS_mutex_lock then ret_sync (sys_mutex_lock (to_int (r A0)) k)
     else if n = SYS_mutex_unlock then ret_opt (sys_mutex_unlock (to_int (r A0)) k)
     else if n = SYS_semaphore_create then ret (sys_semaphore_create (to_int (r A0)) k)
     else if n = SYS_semaphore_up then ret_opt (sys_semaphore_up (to_int (r A0)) k)
     else if n = SYS_semaphore_down then ret_sync (sys_semaphore_down (to_int (r A0)) k)
     else if n = SYS_condvar_create then ret (sys_condvar_create k)
     else if n = SYS_condvar_signal then ret_opt (sys_condvar_signal (to_int (r A0)) k)
     else if n = SYS_condvar_wait then ret_sync (sys_condvar_wait (to_int (r A0)) (to_int (r A1)) k)
     else if n = SYS_enable_deadlock_detect then ret (sys_enable_deadlock_detect (to_int (r A0)) k)
     else if n = SYS_trace then ret_opt (sys_trace (to_int (r A0)) (r A1) (ucast (r A2)) k)
     else if n = SYS_mmap then ret_opt (sys_mmap (r A0) (r A1) (to_int (r A2)) k)
     else if n = SYS_munmap then ret_opt (sys_munmap (r A0) (r A1) k)
     else if n = SYS_spawn then ret_opt (sys_spawn E (r A0) k)
     else if n = SYS_setpriority then ret (sys_set_priority (r A0) k)
     else if n = SYS_linkat then ret_opt (sys_linkat E (r A1) (r A3) k)
     else if n = SYS_unlinkat then ret_opt (sys_unlinkat E (r A1) k)
     else if n = SYS_fstat then ret_opt (sys_fstat (to_int (r A0)) (r A1) k)
     else if n = SYS_npc_register then ret (sys_npc_register (to_int (r A0)) k)
     else if n = SYS_npc_get_status then ret (sys_npc_get_status (r A0) k)
     else if n = SYS_npc_yield then yield_call (sys_npc_yield k)
     else if n = SYS_npc_ipc_notify then ret (sys_npc_ipc_notify (to_int (r A0)) (to_int (r A1)) k)
     else if n = SYS_npc_ai_chat then ret_opt (sys_npc_ai_chat E (r A0) (r A1) (to_int (r A2)) k)
     else if n = SYS_npc_memory_save then ret (sys_npc_memory_save (to_int (r A0)) (r A1) (to_int (r A2)) k)
     else if n = SYS_npc_memory_load then ret (sys_npc_memory_load (to_int (r A0)) (r A1) (to_int (r A2)) k)
     else ret (- 1, k))"

text \<open>\<^verbatim>\<open>trapframe->a0 = ret\<close>, with \<^verbatim>\<open>ret\<close> an \<^verbatim>\<open>int\<close>.\<close>

definition store_ret :: "task \<Rightarrow> outcome \<Rightarrow> 'a kern_scheme \<Rightarrow> 'a kern_scheme" where
  "store_ret t out k = (case out of
     Done v \<Rightarrow> map_thread t (\<lambda>x. x\<lparr>th_trapframe := (th_trapframe x)(A0 := word_of_int (wrap32 v))\<rparr>) k
   | _ \<Rightarrow> k)"

definition count_call :: "int \<Rightarrow> 'a kern_scheme \<Rightarrow> 'a kern_scheme" where
  "count_call n k =
     (if 0 \<le> n \<and> n < int MAX_SYSCALL_NUM
      then map_proc (curr_proc k) (\<lambda>p. p\<lparr>p_syscall_count := upd_at (nat n) (\<lambda>c. c + 1) (p_syscall_count p)\<rparr>) k
      else k)"

definition syscall :: "'b env_scheme \<Rightarrow> 'a fs_kern_scheme \<Rightarrow> (outcome \<times> 'a fs_kern_scheme) option" where
  "syscall E k = (case current k of None \<Rightarrow> None | Some t \<Rightarrow> do {
     let r = th_trapframe (the_thread k t);
     let n = to_int (r A7);
     (out, k) \<leftarrow> dispatch E n r (count_call n k);
     Some (out, store_ret t out k) })"

text \<open>The code behind a switch, up to the next switch or the end of the call. The lock calls
  and the yields return 0 in the end.\<close>

definition resume_call :: "kresume \<Rightarrow> 'a fs_kern_scheme \<Rightarrow> (outcome \<times> 'a fs_kern_scheme) option" where
  "resume_call q k = (case current k of None \<Rightarrow> None | Some t \<Rightarrow> do {
     (out, k) \<leftarrow> (case q of
         R_sync s \<Rightarrow> map_option (\<lambda>(s', k). (case s' of None \<Rightarrow> Done 0 | Some s' \<Rightarrow> Waits (R_sync s'), k)) (resume_sync s k)
       | R_pipe s \<Rightarrow> wrap_pipe (resume_pipe s k)
       | R_proc (Wait_child pid code) \<Rightarrow>
           map_option (\<lambda>(x, k). (case x of Inl v \<Rightarrow> Done v | Inr s' \<Rightarrow> Waits (R_proc s'), k)) (wait pid code k)
       | R_yield \<Rightarrow> Some (Done 0, k));
     Some (out, store_ret t out k) })"

end
