(* ===== verification/CacheSpec.thy ===== *)
theory CacheSpec
  imports BlockIO
begin

text \<open>
  What the buffer cache promises to the file system. \<open>block_store\<close> is the interface:
  blocks are acquired, changed and written through, and released, and \<open>content\<close> is what the
  store holds. Its lemmas give the two patterns of \<^verbatim>\<open>os/fs.c\<close>: look into a block, and change a
  block. The interpretation shows that \<^verbatim>\<open>bread\<close>, \<^verbatim>\<open>bwrite\<close> and \<^verbatim>\<open>brelse\<close> keep the promises, with
  the device itself as the content: the cache is transparent, and it never runs out of
  buffers as long as fewer than \<open>NBUF\<close> references are held.
\<close>

section \<open>The interface\<close>

locale block_store =
  fixes good :: "'s \<Rightarrow> 'b list \<Rightarrow> bool"
    and content :: "'s \<Rightarrow> u32 \<Rightarrow> u8 list"
    and holds :: "'s \<Rightarrow> 'b \<Rightarrow> u32 \<Rightarrow> bool"
    and acquire :: "u32 \<Rightarrow> 's \<Rightarrow> ('b \<times> 's) option"
    and put :: "'b \<Rightarrow> (u8 list \<Rightarrow> u8 list) \<Rightarrow> 's \<Rightarrow> 's"
    and release :: "'b \<Rightarrow> 's \<Rightarrow> 's"
    and data :: "'s \<Rightarrow> 'b \<Rightarrow> u8 list"
    and same :: "'s \<Rightarrow> 's \<Rightarrow> bool"
    and cap :: nat
  assumes acquire_ok: "good s hs \<Longrightarrow> length hs < cap \<Longrightarrow>
      \<exists>b s'. acquire n s = Some (b, s') \<and> good s' (b # hs) \<and> holds s' b n \<and>
        content s' = content s \<and> same s s'"
    and holds_data: "good s hs \<Longrightarrow> holds s b n \<Longrightarrow> data s b = content s n"
    and put_ok: "good s hs \<Longrightarrow> holds s b n \<Longrightarrow> length (f (content s n)) = length (content s n) \<Longrightarrow>
      good (put b f s) hs \<and> holds (put b f s) b n \<and>
      content (put b f s) = (content s)(n := f (content s n)) \<and> same s (put b f s)"
    and release_ok: "good s (b # hs) \<Longrightarrow>
      good (release b s) hs \<and> content (release b s) = content s \<and> same s (release b s)"
    and same_trans: "same s s' \<Longrightarrow> same s' s'' \<Longrightarrow> same s s''"
begin

lemma look:
  assumes "good s hs" "length hs < cap"
  obtains b s' where "acquire n s = Some (b, s')" "data s' b = content s n" "holds s' b n"
    "good s' (b # hs)" "content s' = content s" "same s s'"
    "good (release b s') hs" "content (release b s') = content s" "same s (release b s')"
proof -
  obtain b s' where a: "acquire n s = Some (b, s')" "good s' (b # hs)" "holds s' b n"
      "content s' = content s" "same s s'"
    using acquire_ok [OF assms, of n] by blast
  have r: "good (release b s') hs" "content (release b s') = content s'" "same s' (release b s')"
    using release_ok [OF a(2)] by blast+
  show thesis
    using that [OF a(1) _ a(3,2,4,5) r(1)] holds_data [OF a(2,3)] a(4) r(2)
      same_trans [OF a(5) r(3)] by simp
qed

lemma change:
  assumes s: "good s hs" "length hs < cap" and f: "length (f (content s n)) = length (content s n)"
  obtains b s' where "acquire n s = Some (b, s')" "data s' b = content s n" "same s s'"
    "good (release b (put b f s')) hs"
    "content (release b (put b f s')) = (content s)(n := f (content s n))"
    "same s (release b (put b f s'))"
proof -
  obtain b s' where a: "acquire n s = Some (b, s')" "data s' b = content s n" "holds s' b n"
      "good s' (b # hs)" "content s' = content s" "same s s'"
    using look [OF s, of n] by blast
  have w: "good (put b f s') (b # hs)" "content (put b f s') = (content s)(n := f (content s n))"
      "same s' (put b f s')"
    using put_ok [OF a(4,3), of f] f by (simp_all add: a(5))
  have r: "good (release b (put b f s')) hs"
      "content (release b (put b f s')) = content (put b f s')"
      "same (put b f s') (release b (put b f s'))"
    using release_ok [OF w(1)] by blast+
  show thesis
    using that [OF a(1,2,6) r(1)] r(2) w(2) same_trans [OF a(6) same_trans [OF w(3) r(3)]] by simp
qed

end

section \<open>The state of the cache\<close>

text \<open>Buffers that were never used have device 0. \<open>hs\<close> lists the references that are held.\<close>

definition bufs_ok :: "'a fs_kern_scheme \<Rightarrow> bool" where
  "bufs_ok k \<longleftrightarrow> length (bufs k) = NBUF \<and> distinct (lru k) \<and> set (lru k) = {..<NBUF} \<and>
     (\<forall>n. length (disk k n) = BSIZE) \<and>
     (\<forall>b < NBUF. b_dev (the_buf k b) = 0 \<or> b_dev (the_buf k b) = ROOTDEV \<and>
        b_valid (the_buf k b) \<and> b_data (the_buf k b) = disk k (b_blockno (the_buf k b))) \<and>
     (\<forall>b < NBUF. \<forall>c < NBUF. b_dev (the_buf k b) = ROOTDEV \<longrightarrow> b_dev (the_buf k c) = ROOTDEV \<longrightarrow>
        b_blockno (the_buf k b) = b_blockno (the_buf k c) \<longrightarrow> b = c)"

definition refs_ok :: "'a fs_kern_scheme \<Rightarrow> nat list \<Rightarrow> bool" where
  "refs_ok k hs \<longleftrightarrow> set hs \<subseteq> {..<NBUF} \<and> length hs < 2 ^ 32 \<and>
     (\<forall>b < NBUF. b_refcnt (the_buf k b) = of_nat (count_list hs b))"

definition cache_ok :: "'a fs_kern_scheme \<Rightarrow> nat list \<Rightarrow> bool" where
  "cache_ok k hs \<longleftrightarrow> bufs_ok k \<and> refs_ok k hs"

definition buf_holds :: "'a fs_kern_scheme \<Rightarrow> nat \<Rightarrow> u32 \<Rightarrow> bool" where
  "buf_holds k b n \<longleftrightarrow> b < NBUF \<and> b_dev (the_buf k b) = ROOTDEV \<and> b_blockno (the_buf k b) = n"

definition rewrite_buf :: "nat \<Rightarrow> (u8 list \<Rightarrow> u8 list) \<Rightarrow> 'a fs_kern_scheme \<Rightarrow> 'a fs_kern_scheme" where
  "rewrite_buf b f k = bwrite b (map_buf b (\<lambda>x. x\<lparr>b_data := f (b_data x)\<rparr>) k)"

text \<open>Only the cache and the device may differ.\<close>

definition same_files :: "'a fs_kern_scheme \<Rightarrow> 'a fs_kern_scheme \<Rightarrow> bool" where
  "same_files k k' \<longleftrightarrow> k' = k\<lparr>disk := disk k', bufs := bufs k', lru := lru k'\<rparr>"

lemma same_files_refl [simp]: "same_files k k"
  by (simp add: same_files_def)

lemma same_files_trans: "same_files k k' \<Longrightarrow> same_files k' k'' \<Longrightarrow> same_files k k''"
  by (cases k; cases k'; cases k'') (simp add: same_files_def)

lemma same_files_fields:
  assumes "same_files k k'"
  shows "sb k' = sb k" "itable k' = itable k" "filepool k' = filepool k" "pipes k' = pipes k"
    "mem k' = mem k" "freelist k' = freelist k" "pool k' = pool k" "current k' = current k"
    "task_queue k' = task_queue k" "con_in k' = con_in k" "con_out k' = con_out k"
    by (subst assms [unfolded same_files_def], simp)+

lemma the_buf_map_buf:
  "b < length (bufs k) \<Longrightarrow> the_buf (map_buf b f k) c = (if c = b then f (the_buf k b) else the_buf k c)"
  by (auto simp: the_buf_def map_buf_def upd_at_def nth_list_update)

lemma map_buf_fields [simp]:
  "length (bufs (map_buf b f k)) = length (bufs k)" "lru (map_buf b f k) = lru k" "disk (map_buf b f k) = disk k"
  "sb (map_buf b f k) = sb k" "itable (map_buf b f k) = itable k"
  by (simp_all add: map_buf_def)

lemma same_files_map_buf [simp]: "same_files k (map_buf b f k)"
  by (simp add: same_files_def map_buf_def)

lemma bufs_okD:
  assumes "bufs_ok k"
  shows "length (bufs k) = NBUF" "distinct (lru k)" "set (lru k) = {..<NBUF}" "length (disk k n) = BSIZE"
    "b < NBUF \<Longrightarrow> b_dev (the_buf k b) = 0 \<or> b_dev (the_buf k b) = ROOTDEV \<and>
       b_valid (the_buf k b) \<and> b_data (the_buf k b) = disk k (b_blockno (the_buf k b))"
    "b < NBUF \<Longrightarrow> c < NBUF \<Longrightarrow> b_dev (the_buf k b) = ROOTDEV \<Longrightarrow> b_dev (the_buf k c) = ROOTDEV \<Longrightarrow>
       b_blockno (the_buf k b) = b_blockno (the_buf k c) \<Longrightarrow> b = c"
  using assms unfolding bufs_ok_def by blast+

lemma bufs_okI:
  assumes "length (bufs k) = NBUF" "distinct (lru k)" "set (lru k) = {..<NBUF}" "\<And>n. length (disk k n) = BSIZE"
    "\<And>b. b < NBUF \<Longrightarrow> b_dev (the_buf k b) = 0 \<or> b_dev (the_buf k b) = ROOTDEV \<and>
       b_valid (the_buf k b) \<and> b_data (the_buf k b) = disk k (b_blockno (the_buf k b))"
    "\<And>b c. b < NBUF \<Longrightarrow> c < NBUF \<Longrightarrow> b_dev (the_buf k b) = ROOTDEV \<Longrightarrow> b_dev (the_buf k c) = ROOTDEV \<Longrightarrow>
       b_blockno (the_buf k b) = b_blockno (the_buf k c) \<Longrightarrow> b = c"
  shows "bufs_ok k"
  using assms unfolding bufs_ok_def by blast

lemma bufs_ok_map_buf:
  assumes ok: "bufs_ok k" and b: "b < NBUF"
    and x: "b_dev (f (the_buf k b)) = ROOTDEV" "b_valid (f (the_buf k b))"
      "b_data (f (the_buf k b)) = disk k (b_blockno (f (the_buf k b)))"
    and u: "\<And>c. c < NBUF \<Longrightarrow> c \<noteq> b \<Longrightarrow> b_dev (the_buf k c) = ROOTDEV \<Longrightarrow>
      b_blockno (the_buf k c) \<noteq> b_blockno (f (the_buf k b))"
  shows "bufs_ok (map_buf b f k)"
proof -
  have len: "length (bufs k) = NBUF" using ok by (simp add: bufs_ok_def)
  note at = the_buf_map_buf [of b k f, unfolded len, OF b]
  have "\<forall>c < NBUF. \<forall>d < NBUF. b_dev (the_buf (map_buf b f k) c) = ROOTDEV \<longrightarrow>
      b_dev (the_buf (map_buf b f k) d) = ROOTDEV \<longrightarrow>
      b_blockno (the_buf (map_buf b f k) c) = b_blockno (the_buf (map_buf b f k) d) \<longrightarrow> c = d"
  proof (intro allI impI)
    fix c d
    assume "c < NBUF" "d < NBUF" "b_dev (the_buf (map_buf b f k) c) = ROOTDEV"
      "b_dev (the_buf (map_buf b f k) d) = ROOTDEV"
      "b_blockno (the_buf (map_buf b f k) c) = b_blockno (the_buf (map_buf b f k) d)"
    then show "c = d"
      using u [of c] u [of d] bufs_okD(6) [OF ok, of c d]
      unfolding at by (cases "c = b"; cases "d = b") simp_all
  qed
  then show ?thesis
    using bufs_okD(1-5) [OF ok] x len by (intro bufs_okI) (auto simp: at)
qed

lemma refs_ok_map_buf:
  assumes "refs_ok k hs" "length (bufs k) = NBUF" "b < NBUF" "set hs' \<subseteq> {..<NBUF}" "length hs' < 2 ^ 32"
    and "b_refcnt (f (the_buf k b)) = of_nat (count_list hs' b)"
    and "\<And>c. c \<noteq> b \<Longrightarrow> count_list hs' c = count_list hs c"
  shows "refs_ok (map_buf b f k) hs'"
  using assms by (auto simp: refs_ok_def the_buf_map_buf)

lemma NBUF_val: "NBUF = 30"
  by (simp add: NBUF_def MAXOPBLOCKS_def)

lemma of_nat_count_eq_0:
  "length hs < 2 ^ 32 \<Longrightarrow> (of_nat (count_list hs b) :: u32) = 0 \<longleftrightarrow> b \<notin> set hs"
  using count_le_length [of hs b] of_nat_inj_lt [of "count_list hs b" "0 :: u32"]
  by (auto simp: count_list_0_iff)

lemma unused_buffer:
  assumes "length hs < NBUF"
  obtains b where "b < NBUF" "b \<notin> set hs"
proof -
  have "\<not> {..<NBUF} \<subseteq> set hs"
    using card_mono [of "set hs" "{..<NBUF}"] card_length [of hs] assms by auto
  then show thesis using that by auto
qed

lemma bread_ok:
  assumes ok: "cache_ok k hs" and room: "length hs < NBUF"
  shows "\<exists>b k'. bread ROOTDEV n k = Some (b, k') \<and> cache_ok k' (b # hs) \<and> buf_holds k' b n \<and>
    disk k' = disk k \<and> same_files k k'"
proof -
  have b_ok: "bufs_ok k" and r_ok: "refs_ok k hs" using ok by (simp_all add: cache_ok_def)
  have len: "length (bufs k) = NBUF" and lru: "set (lru k) = {..<NBUF}"
    using b_ok by (simp_all add: bufs_ok_def)
  have short: "length (b # hs) < 2 ^ 32" for b using room by (simp add: NBUF_val)
  let ?hit = "\<lambda>b. b_dev (the_buf k b) = ROOTDEV \<and> b_blockno (the_buf k b) = n"
  show ?thesis
  proof (cases "find ?hit (lru k)")
    case (Some b)
    then have b: "b < NBUF" "?hit b"
      using lru by (auto simp: find_Some_iff)
    let ?k = "map_buf b (\<lambda>x. x\<lparr>b_refcnt := b_refcnt x + 1\<rparr>) k"
    have valid: "b_valid (the_buf k b)" "b_data (the_buf k b) = disk k n"
      using b_ok b by (auto simp: bufs_ok_def ROOTDEV_def)
    have "bufs_ok ?k"
      by (rule bufs_ok_map_buf [OF b_ok b(1)])
        (use b valid b_ok in \<open>auto simp: bufs_ok_def\<close>)
    moreover have "refs_ok ?k (b # hs)"
      by (rule refs_ok_map_buf [OF r_ok len b(1)])
        (use r_ok b short in \<open>auto simp: refs_ok_def\<close>)
    moreover have "bread ROOTDEV n k = Some (b, ?k)"
      using Some valid len b by (simp add: bread_def bget_def the_buf_map_buf)
    moreover have "buf_holds ?k b n"
      using b len by (simp add: buf_holds_def the_buf_map_buf)
    ultimately show ?thesis by (auto simp: cache_ok_def)
  next
    case None
    then have miss: "\<not> ?hit c" if "c < NBUF" for c
      using that lru by (auto simp: find_None_iff)
    obtain c where c: "c < NBUF" "c \<notin> set hs" using unused_buffer [OF room] .
    then have "b_refcnt (the_buf k c) = 0" using r_ok by (simp add: refs_ok_def count_list_0_iff)
    then have "find (\<lambda>b. b_refcnt (the_buf k b) = 0) (rev (lru k)) \<noteq> None"
      using c lru by (auto simp: find_None_iff)
    then obtain b where fb: "find (\<lambda>b. b_refcnt (the_buf k b) = 0) (rev (lru k)) = Some b" by blast
    have "b \<in> set (rev (lru k))" "b_refcnt (the_buf k b) = 0"
      using fb unfolding find_Some_iff by (blast intro: nth_mem)+
    then have b: "b < NBUF" "b_refcnt (the_buf k b) = 0"
      using lru by simp_all
    then have free: "b \<notin> set hs" using r_ok by (simp add: refs_ok_def of_nat_count_eq_0)
    define f :: "buf \<Rightarrow> buf" where "f = (\<lambda>x. x\<lparr>b_dev := ROOTDEV, b_blockno := n, b_refcnt := 1, b_data := disk k n, b_valid := True\<rparr>)"
    have f_fields: "b_dev (f x) = ROOTDEV" "b_blockno (f x) = n" "b_valid (f x)" "b_refcnt (f x) = 1"
      "b_data (f x) = disk k n" for x by (simp_all add: f_def)
    have "bufs_ok (map_buf b f k)"
      by (rule bufs_ok_map_buf [OF b_ok b(1)]) (use miss in \<open>auto simp: f_fields\<close>)
    moreover have "refs_ok (map_buf b f k) (b # hs)"
      by (rule refs_ok_map_buf [OF r_ok len b(1)])
        (use r_ok b free short in \<open>auto simp: refs_ok_def count_list_0_iff f_fields\<close>)
    moreover have "bread ROOTDEV n k = Some (b, map_buf b f k)"
      using None fb len b
      by (simp add: bread_def bget_def the_buf_map_buf virtio_disk_rw_def)
        (simp add: map_buf_def upd_at_def f_def)
    moreover have "buf_holds (map_buf b f k) b n"
      using b len by (simp add: buf_holds_def the_buf_map_buf f_fields)
    ultimately show ?thesis by (auto simp: cache_ok_def)
  qed
qed

lemma rewrite_buf_ok:
  assumes ok: "cache_ok k hs" and h: "buf_holds k b n" and f: "length (f (disk k n)) = length (disk k n)"
  shows "cache_ok (rewrite_buf b f k) hs \<and> buf_holds (rewrite_buf b f k) b n \<and>
    disk (rewrite_buf b f k) = (disk k)(n := f (disk k n)) \<and> same_files k (rewrite_buf b f k)"
proof -
  let ?g = "\<lambda>x. x\<lparr>b_data := f (b_data x)\<rparr>"
  have len: "length (bufs k) = NBUF" using ok by (simp add: cache_ok_def bufs_ok_def)
  have b: "b < NBUF" "b_dev (the_buf k b) = ROOTDEV" "b_blockno (the_buf k b) = n"
    using h by (simp_all add: buf_holds_def)
  have data: "b_valid (the_buf k b)" "b_data (the_buf k b) = disk k n"
    using ok b by (auto simp: cache_ok_def bufs_ok_def ROOTDEV_def)
  note at = the_buf_map_buf [of b k ?g, unfolded len, OF b(1)]
  have eq: "rewrite_buf b f k = (map_buf b ?g k)\<lparr>disk := (disk k)(n := f (disk k n))\<rparr>"
    using b data by (simp add: rewrite_buf_def bwrite_def virtio_disk_rw_def at)
  have the: "the_buf (rewrite_buf b f k) c = (if c = b then ?g (the_buf k b) else the_buf k c)" for c
    using at [of c] by (simp add: eq the_buf_def)
  have d: "disk (rewrite_buf b f k) = (disk k)(n := f (disk k n))" by (simp add: eq)
  have others: "b_blockno (the_buf k c) \<noteq> n" if "c < NBUF" "c \<noteq> b" "b_dev (the_buf k c) = ROOTDEV" for c
    using ok that b by (auto simp: cache_ok_def bufs_ok_def)
  have "b_dev (the_buf (rewrite_buf b f k) c) = b_dev (the_buf k c)"
    "b_blockno (the_buf (rewrite_buf b f k) c) = b_blockno (the_buf k c)"
    "b_valid (the_buf (rewrite_buf b f k) c) = b_valid (the_buf k c)" for c
    by (simp_all add: the)
  note same = this
  have dat: "b_data (the_buf (rewrite_buf b f k) c) =
      (if c = b then f (disk k n) else b_data (the_buf k c))" for c
    using data by (simp add: the)
  have "bufs_ok (rewrite_buf b f k)"
    using ok others f b len unfolding bufs_ok_def cache_ok_def same d dat
    by (auto simp: eq)
  moreover have "refs_ok (rewrite_buf b f k) hs"
    using ok b by (auto simp: cache_ok_def refs_ok_def the)
  moreover have "same_files k (rewrite_buf b f k)"
    by (simp add: eq same_files_def map_buf_def)
  ultimately show ?thesis using b by (auto simp: cache_ok_def buf_holds_def the d)
qed

lemma brelse_ok:
  assumes ok: "cache_ok k (b # hs)"
  shows "cache_ok (brelse b k) hs \<and> disk (brelse b k) = disk k \<and> same_files k (brelse b k)"
proof -
  let ?g = "\<lambda>x. x\<lparr>b_refcnt := b_refcnt x - 1\<rparr>"
  let ?k = "map_buf b ?g k"
  have b_ok: "bufs_ok k" and r_ok: "refs_ok k (b # hs)" using ok by (simp_all add: cache_ok_def)
  have len: "length (bufs k) = NBUF" and b: "b < NBUF"
    using b_ok r_ok by (simp_all add: bufs_ok_def refs_ok_def)
  note at = the_buf_map_buf [of b k ?g, unfolded len, OF b]
  have b1: "bufs_ok ?k"
    using b_ok len unfolding bufs_ok_def by (auto simp: at)
  have r1: "refs_ok ?k hs"
    by (rule refs_ok_map_buf [OF r_ok len b]) (use r_ok b in \<open>auto simp: refs_ok_def\<close>)
  show ?thesis
  proof (cases "b_refcnt (the_buf ?k b) = 0")
    case True
    then have eq: "brelse b k = ?k\<lparr>lru := b # remove1 b (lru k)\<rparr>"
      by (simp add: brelse_def)
    have "bufs_ok (brelse b k)"
      using b1 b unfolding bufs_ok_def eq by (auto simp: the_buf_def)
    moreover have "refs_ok (brelse b k) hs"
      using r1 unfolding refs_ok_def eq by (auto simp: the_buf_def)
    moreover have "same_files k (brelse b k)"
      by (simp add: eq same_files_def map_buf_def)
    moreover have "disk (brelse b k) = disk k" by (simp add: eq)
    ultimately show ?thesis by (simp add: cache_ok_def)
  next
    case False
    then have "brelse b k = ?k" by (simp add: brelse_def)
    with b1 r1 show ?thesis by (simp add: cache_ok_def)
  qed
qed

section \<open>The cache keeps the promises\<close>

interpretation bc: block_store cache_ok disk buf_holds "bread ROOTDEV" rewrite_buf brelse
  "\<lambda>k b. b_data (the_buf k b)" same_files NBUF
proof
  fix k :: "'a fs_kern_scheme" and hs and n
  assume "cache_ok k hs" "length hs < NBUF"
  then show "\<exists>b k'. bread ROOTDEV n k = Some (b, k') \<and> cache_ok k' (b # hs) \<and> buf_holds k' b n \<and>
      disk k' = disk k \<and> same_files k k'" by (rule bread_ok)
next
  fix k :: "'a fs_kern_scheme" and hs b n
  assume "cache_ok k hs" "buf_holds k b n"
  then show "b_data (the_buf k b) = disk k n"
    by (auto simp: cache_ok_def bufs_ok_def buf_holds_def ROOTDEV_def)
qed (use rewrite_buf_ok brelse_ok same_files_trans in blast)+

end
