(* ===== verification/FileSpec.thy ===== *)
theory FileSpec
  imports CacheSpec FileSys
begin

text \<open>
  What the block and inode layers of \<^verbatim>\<open>os/fs.c\<close> do, over the content of the device. The proofs
  use the cache only through the facts of the interface \<open>block_store\<close> (prefix \<open>bc\<close>): no
  buffer, no reference count appears below.
\<close>

section \<open>Zeroing, allocating and freeing blocks\<close>

definition block_free :: "'a fs_kern_scheme \<Rightarrow> nat \<Rightarrow> bool" where
  "block_free k b \<longleftrightarrow> bit_free (disk k (BBLOCK (of_nat b) (sb k))) (b mod BPB)"

definition set_bit_at :: "nat \<Rightarrow> u8 list \<Rightarrow> u8 list" where
  "set_bit_at bi d = upd_at (bi div 8) (\<lambda>c. c OR push_bit (bi mod 8) 1) d"

definition clear_bit_at :: "nat \<Rightarrow> u8 list \<Rightarrow> u8 list" where
  "clear_bit_at bi d = upd_at (bi div 8) (\<lambda>c. c AND NOT (push_bit (bi mod 8) 1)) d"

lemma length_bit_at [simp]: "length (set_bit_at bi d) = length d" "length (clear_bit_at bi d) = length d"
  by (simp_all add: set_bit_at_def clear_bit_at_def)

lemma disk_length: "cache_ok k hs \<Longrightarrow> length (disk k n) = BSIZE"
  by (simp add: cache_ok_def bufs_ok_def)

lemma bzero_ok:
  assumes "cache_ok k hs" "length hs < NBUF"
  shows "\<exists>k'. bzero ROOTDEV n k = Some k' \<and> cache_ok k' hs \<and>
    disk k' = (disk k)(n := replicate BSIZE 0) \<and> same_files k k'"
  by (rule bc.change [OF assms, where f = "\<lambda>_. replicate BSIZE 0" and n = n])
    (use disk_length [OF assms(1)] in \<open>auto simp: bzero_def rewrite_buf_def\<close>)

lemma BBLOCK_of_nat:
  assumes "b < 2 ^ 32"
  shows "BBLOCK (of_nat b) s = of_nat (b div BPB) + sb_bmapstart s"
proof -
  have "unat (of_nat b :: u32) = b" "unat (of_nat BPB :: u32) = BPB"
    using assms by (simp_all add: unat_of_nat BPB_def BSIZE_def)
  then show ?thesis by (simp add: BBLOCK_def word_arith_nat_div)
qed

lemma BPB_pos [simp]: "0 < BPB"
  by (simp add: BPB_def BSIZE_def)

text \<open>The blocks that one bitmap block describes.\<close>

lemma balloc_find_free:
  assumes "c * BPB < 2 ^ 32" "sz \<le> 2 ^ 32"
  shows "balloc_find (disk k (BBLOCK (of_nat (c * BPB)) (sb k))) (c * BPB) sz = Some bi \<longleftrightarrow>
      bi < BPB \<and> c * BPB + bi < sz \<and> block_free k (c * BPB + bi) \<and>
      (\<forall>j < bi. \<not> block_free k (c * BPB + j))"
    and "balloc_find (disk k (BBLOCK (of_nat (c * BPB)) (sb k))) (c * BPB) sz = None \<longleftrightarrow>
      (\<forall>j < BPB. c * BPB + j < sz \<longrightarrow> \<not> block_free k (c * BPB + j))"
proof -
  have eq: "block_free k (c * BPB + j) = bit_free (disk k (BBLOCK (of_nat (c * BPB)) (sb k))) j"
    if "j < BPB" "c * BPB + j < sz" for j
  proof -
    have "(c * BPB + j) div BPB = c" "(c * BPB + j) mod BPB = j" using that by simp_all
    then show ?thesis
      using that assms BBLOCK_of_nat [of "c * BPB + j" "sb k"] BBLOCK_of_nat [of "c * BPB" "sb k"]
      by (simp add: block_free_def del: of_nat_add of_nat_mult)
  qed
  show "balloc_find (disk k (BBLOCK (of_nat (c * BPB)) (sb k))) (c * BPB) sz = Some bi \<longleftrightarrow>
      bi < BPB \<and> c * BPB + bi < sz \<and> block_free k (c * BPB + bi) \<and>
      (\<forall>j < bi. \<not> block_free k (c * BPB + j))"
    unfolding balloc_find_def find_Some_iff using eq by fastforce
  show "balloc_find (disk k (BBLOCK (of_nat (c * BPB)) (sb k))) (c * BPB) sz = None \<longleftrightarrow>
      (\<forall>j < BPB. c * BPB + j < sz \<longrightarrow> \<not> block_free k (c * BPB + j))"
    unfolding balloc_find_def find_None_iff using eq by fastforce
qed

text \<open>The state after block \<open>b\<close> was taken: its bit set, then its content cleared.\<close>

definition take_block :: "nat \<Rightarrow> superblock \<Rightarrow> (u32 \<Rightarrow> u8 list) \<Rightarrow> u32 \<Rightarrow> u8 list" where
  "take_block b s d = (d(BBLOCK (of_nat b) s := set_bit_at (b mod BPB) (d (BBLOCK (of_nat b) s))))
     (of_nat b := replicate BSIZE 0)"

lemma balloc_in_ok:
  assumes "cache_ok k hs" "length hs < NBUF"
  shows "case find (\<lambda>b. balloc_find (disk k (BBLOCK (of_nat b) (sb k))) b (unat (sb_size (sb k))) \<noteq> None) bs of
      None \<Rightarrow> balloc_in ROOTDEV bs k = None
    | Some b \<Rightarrow> \<exists>k' bi. balloc_find (disk k (BBLOCK (of_nat b) (sb k))) b (unat (sb_size (sb k))) = Some bi \<and>
        balloc_in ROOTDEV bs k = Some (of_nat (b + bi), k') \<and> cache_ok k' hs \<and> same_files k k' \<and>
        disk k' = (let n = BBLOCK (of_nat b) (sb k) in
          ((disk k)(n := set_bit_at bi (disk k n)))(of_nat (b + bi) := replicate BSIZE 0))"
  using assms
proof (induction bs arbitrary: k)
  case Nil
  then show ?case by simp
next
  case (Cons b bs)
  let ?n = "BBLOCK (of_nat b) (sb k)"
  let ?find = "balloc_find (disk k ?n) b (unat (sb_size (sb k)))"
  show ?case
  proof (cases ?find)
    case None
    obtain bp k1 where r: "bread ROOTDEV ?n k = Some (bp, k1)" "b_data (the_buf k1 bp) = disk k ?n"
        "same_files k k1" "cache_ok (brelse bp k1) hs" "disk (brelse bp k1) = disk k"
        "same_files k (brelse bp k1)"
      by (rule bc.look [OF Cons.prems, where n = ?n])
    note f = same_files_fields [OF r(3)] and g = same_files_fields [OF r(6)]
    have step: "balloc_in ROOTDEV (b # bs) k = balloc_in ROOTDEV bs (brelse bp k1)"
      using r(1,2) None f by simp
    show ?thesis
      using Cons.IH [OF r(4) Cons.prems(2)] None r(5,6) g
      unfolding step by (auto split: option.splits intro: same_files_trans)
  next
    case (Some bi)
    define k2 where "k2 = (\<lambda>bp (k1 :: 'a fs_kern_scheme). brelse bp (rewrite_buf bp (set_bit_at bi) k1))"
    obtain bp k1 where r: "bread ROOTDEV ?n k = Some (bp, k1)" "b_data (the_buf k1 bp) = disk k ?n"
        "same_files k k1" "cache_ok (k2 bp k1) hs"
        "disk (k2 bp k1) = (disk k)(?n := set_bit_at bi (disk k ?n))" "same_files k (k2 bp k1)"
      unfolding k2_def by (rule bc.change [OF Cons.prems, where n = ?n and f = "set_bit_at bi"]) auto
    note f = same_files_fields [OF r(3)]
    obtain k3 where z: "bzero ROOTDEV (of_nat (b + bi)) (k2 bp k1) = Some k3" "cache_ok k3 hs"
        "disk k3 = (disk (k2 bp k1))(of_nat (b + bi) := replicate BSIZE 0)" "same_files (k2 bp k1) k3"
      using bzero_ok [OF r(4) Cons.prems(2)] by blast
    have upd: "brelse bp (bwrite bp (map_buf bp (\<lambda>x. x\<lparr>b_data :=
        upd_at (bi div 8) (\<lambda>c. c OR push_bit (bi mod 8) 1) (b_data x)\<rparr>) k1)) = k2 bp k1"
      by (simp add: k2_def rewrite_buf_def set_bit_at_def)
    have "balloc_in ROOTDEV (b # bs) k = Some (of_nat (b + bi), k3)"
      using r(1,2) Some f z(1) upd by (simp add: Let_def)
    then show ?thesis
      using Some z(2,3) r(5) same_files_trans [OF r(6) z(4)] by (simp add: Let_def)
  qed
qed

lemma balloc_blocks:
  fixes sz :: nat
  shows "b < sz \<Longrightarrow> b div BPB < (sz + (BPB - 1)) div BPB"
    and "c < (sz + (BPB - 1)) div BPB \<Longrightarrow> c * BPB < sz"
proof -
  show "b div BPB < (sz + (BPB - 1)) div BPB" if "b < sz"
  proof -
    have "Suc (b div BPB) = (b + BPB) div BPB" by (simp add: div_add_self2)
    also have "\<dots> \<le> (sz + (BPB - 1)) div BPB" using that by (intro div_le_mono) (simp add: BPB_def BSIZE_def)
    finally show ?thesis by simp
  qed
  show "c * BPB < sz" if "c < (sz + (BPB - 1)) div BPB"
  proof -
    have "Suc c * BPB \<le> (sz + (BPB - 1)) div BPB * BPB" using that by (intro mult_le_mono1) simp
    also have "\<dots> \<le> sz + (BPB - 1)" by simp
    finally show ?thesis by (simp add: BPB_def BSIZE_def)
  qed
qed

lemma balloc_ok:
  assumes ok: "cache_ok k hs" and room: "length hs < NBUF"
  shows "case find (block_free k) [0..<unat (sb_size (sb k))] of
      None \<Rightarrow> balloc ROOTDEV k = None
    | Some b \<Rightarrow> \<exists>k'. balloc ROOTDEV k = Some (of_nat b, k') \<and> cache_ok k' hs \<and> same_files k k' \<and>
        disk k' = take_block b (sb k) (disk k)"
proof -
  let ?sz = "unat (sb_size (sb k))"
  let ?N = "(?sz + (BPB - 1)) div BPB"
  let ?bs = "map (\<lambda>i. i * BPB) [0..<?N]"
  let ?some = "\<lambda>b. balloc_find (disk k (BBLOCK (of_nat b) (sb k))) b ?sz \<noteq> None"
  have sz: "?sz \<le> 2 ^ 32" using unat_less_len [of "sb_size (sb k)"] by simp
  have small: "c * BPB < 2 ^ 32" if "c < ?N" for c using balloc_blocks(2) [OF that] sz by simp
  note at = balloc_find_free [OF small sz]
  have size_nat: "?bs ! c = c * BPB" if "c < ?N" for c using that by simp
  note in_ok = balloc_in_ok [OF ok room, of ?bs]
  show ?thesis
  proof (cases "find ?some ?bs")
    case None
    then have "balloc_find (disk k (BBLOCK (of_nat (c * BPB)) (sb k))) (c * BPB) ?sz = None" if "c < ?N" for c
      using that by (auto simp: find_None_iff simp del: of_nat_mult)
    then have free: "\<not> block_free k (c * BPB + j)" if "c < ?N" "j < BPB" "c * BPB + j < ?sz" for c j
      using at(2) that by blast
    have "\<not> block_free k b" if "b < ?sz" for b
      using free [OF balloc_blocks(1) [OF that], of "b mod BPB"] that by simp
    then have "find (block_free k) [0..<?sz] = None" by (auto simp: find_None_iff)
    moreover have "balloc ROOTDEV k = None" using in_ok None by (simp add: balloc_def)
    ultimately show ?thesis by simp
  next
    case (Some b)
    then obtain c where c: "c < ?N" "b = c * BPB"
        "\<And>e. e < c \<Longrightarrow> balloc_find (disk k (BBLOCK (of_nat (e * BPB)) (sb k))) (e * BPB) ?sz = None"
      by (auto simp: find_Some_iff simp del: of_nat_mult)
    obtain bi k' where b: "balloc_find (disk k (BBLOCK (of_nat b) (sb k))) b ?sz = Some bi"
        "balloc ROOTDEV k = Some (of_nat (b + bi), k')" "cache_ok k' hs" "same_files k k'"
        "disk k' = (let n = BBLOCK (of_nat b) (sb k) in
          ((disk k)(n := set_bit_at bi (disk k n)))(of_nat (b + bi) := replicate BSIZE 0))"
      using in_ok Some by (auto simp: balloc_def)
    have bi: "bi < BPB" "b + bi < ?sz" "block_free k (b + bi)" "\<forall>j < bi. \<not> block_free k (b + j)"
      using at(1) [OF c(1), THEN iffD1, OF b(1) [unfolded c(2)]] unfolding c(2) by blast+
    have "\<not> block_free k j" if "j < b + bi" for j
    proof (cases "j div BPB < c")
      case True
      then have "j div BPB < ?N" using c(1) by simp
      note none = at(2) [OF this, THEN iffD1, OF c(3) [OF True], rule_format, of "j mod BPB"]
      show ?thesis using none bi(2) that by simp
    next
      case False
      have "j div BPB = c"
      proof -
        have "j div BPB \<le> (c * BPB + bi) div BPB" using that c(2) by (intro div_le_mono) simp
        also have "\<dots> = c" using bi(1) by simp
        finally show ?thesis using False by simp
      qed
      then have "j = b + j mod BPB" using c(2) by (metis div_mult_mod_eq)
      with bi(4) that show ?thesis by (metis add_less_cancel_left)
    qed
    then have "find (block_free k) [0..<?sz] = Some (b + bi)"
      using bi(2,3) by (auto simp: find_Some_iff intro!: exI [of _ "b + bi"])
    moreover have "disk k' = take_block (b + bi) (sb k) (disk k)"
    proof -
      have "(b + bi) div BPB = c" "(b + bi) mod BPB = bi" "b div BPB = c"
        using c(2) bi(1) by simp_all
      then have "BBLOCK (of_nat (b + bi)) (sb k) = BBLOCK (of_nat b) (sb k)"
        using bi(2) sz BBLOCK_of_nat [of "b + bi" "sb k"] BBLOCK_of_nat [of b "sb k"] by simp
      with \<open>(b + bi) mod BPB = bi\<close> show ?thesis
        unfolding take_block_def b(5) Let_def by simp
    qed
    ultimately show ?thesis using b(2-4) by auto
  qed
qed

lemma bfree_ok:
  assumes ok: "cache_ok k hs" and room: "length hs < NBUF"
  shows "if block_free k (unat b) then bfree ROOTDEV b k = None
    else \<exists>k'. bfree ROOTDEV b k = Some k' \<and> cache_ok k' hs \<and> same_files k k' \<and>
      disk k' = (disk k)(BBLOCK b (sb k) := clear_bit_at (unat b mod BPB) (disk k (BBLOCK b (sb k))))"
proof -
  let ?f = "clear_bit_at (unat b mod BPB)"
  define k2 where "k2 = (\<lambda>bp (k1 :: 'a fs_kern_scheme). brelse bp (rewrite_buf bp ?f k1))"
  obtain bp k1 where r: "bread ROOTDEV (BBLOCK b (sb k)) k = Some (bp, k1)"
      "b_data (the_buf k1 bp) = disk k (BBLOCK b (sb k))" "cache_ok (k2 bp k1) hs"
      "disk (k2 bp k1) = (disk k)(BBLOCK b (sb k) := ?f (disk k (BBLOCK b (sb k))))"
      "same_files k (k2 bp k1)"
    unfolding k2_def by (rule bc.change [OF ok room, where n = "BBLOCK b (sb k)" and f = ?f]) auto
  have upd: "brelse bp (bwrite bp (map_buf bp (\<lambda>x. x\<lparr>b_data :=
      upd_at (unat b mod BPB div 8) (\<lambda>c. c AND NOT (push_bit (unat b mod BPB mod 8) 1)) (b_data x)\<rparr>) k1)) = k2 bp k1"
    by (simp add: k2_def rewrite_buf_def clear_bit_at_def)
  have "bfree ROOTDEV b k = (if block_free k (unat b) then None else Some (k2 bp k1))"
    using r(1,2) upd by (simp add: bfree_def block_free_def Let_def)
  with r(3-5) show ?thesis by simp
qed

lemma clear_set_bit:
  assumes "bit_free d bi" "bi div 8 < length d"
  shows "clear_bit_at bi (set_bit_at bi d) = d"
proof -
  have "(c OR m) AND NOT m = c" if "c AND m = 0" for c m :: u8
  proof (rule bit_word_eqI)
    fix n
    have "\<not> bit (c AND m) n" using that by simp
    then show "bit ((c OR m) AND NOT m) n = bit c n" if "n < LENGTH(8)"
      using that by (auto simp: bit_and_iff bit_or_iff bit_not_iff)
  qed
  with assms show ?thesis
    by (simp add: clear_bit_at_def set_bit_at_def upd_at_def bit_free_def)
qed

lemma set_bit_not_free:
  assumes "bi div 8 < length d"
  shows "\<not> bit_free (set_bit_at bi d) bi"
proof -
  have "(c OR push_bit n 1) AND push_bit n 1 \<noteq> 0" if "n < 8" for c :: u8 and n
  proof
    assume z: "(c OR push_bit n 1) AND push_bit n 1 = 0"
    have "bit ((c OR push_bit n 1) AND push_bit n 1) n" using that by (simp add: bit_simps)
    then show False unfolding z by simp
  qed
  with assms show ?thesis by (simp add: bit_free_def set_bit_at_def upd_at_def)
qed

lemma bit_index_less: "n mod BPB div 8 < BSIZE"
  using mod_less_divisor [OF BPB_pos, of n] by (simp add: BPB_def less_mult_imp_div_less)

text \<open>A block that was just allocated can be freed again, and only its content is lost.\<close>

lemma balloc_bfree:
  assumes ok: "cache_ok k hs" and room: "length hs < NBUF"
    and alloc: "balloc ROOTDEV k = Some (b, k1)" and b: "BBLOCK b (sb k) \<noteq> b"
  shows "\<exists>k2. bfree ROOTDEV b k1 = Some k2 \<and> cache_ok k2 hs \<and> same_files k k2 \<and>
    disk k2 = (disk k)(b := replicate BSIZE 0)"
proof -
  obtain n where n: "find (block_free k) [0..<unat (sb_size (sb k))] = Some n" "b = of_nat n"
      "cache_ok k1 hs" "same_files k k1" "disk k1 = take_block n (sb k) (disk k)"
    using balloc_ok [OF ok room] alloc by (auto split: option.splits)
  have lt: "n < 2 ^ 32" "block_free k n"
    using n(1) unat_less_len [of "sb_size (sb k)"] by (auto simp: find_Some_iff)
  then have u: "unat b = n" by (simp add: n(2) unat_of_nat)
  let ?bb = "BBLOCK b (sb k)"
  have sb1: "sb k1 = sb k" using same_files_fields(1) [OF n(4)] .
  have len: "n mod BPB div 8 < length (disk k m)" for m
    using bit_index_less [of n] disk_length [OF ok] by simp
  have d1: "disk k1 = ((disk k)(?bb := set_bit_at (n mod BPB) (disk k ?bb)))(b := replicate BSIZE 0)"
    by (simp add: n(5) take_block_def n(2) Let_def)
  then have bb1: "disk k1 ?bb = set_bit_at (n mod BPB) (disk k ?bb)" using b by simp
  have "\<not> block_free k1 (unat b)"
    using set_bit_not_free [OF len] by (simp add: block_free_def sb1 u bb1 flip: n(2))
  then obtain k2 where k2: "bfree ROOTDEV b k1 = Some k2" "cache_ok k2 hs" "same_files k1 k2"
      "disk k2 = (disk k1)(?bb := clear_bit_at (n mod BPB) (disk k1 ?bb))"
    using bfree_ok [OF n(3) room, of b] sb1 u by auto
  have "clear_bit_at (n mod BPB) (disk k1 ?bb) = disk k ?bb"
    unfolding bb1 using lt(2) len by (intro clear_set_bit) (simp_all add: block_free_def n(2))
  then have "disk k2 = (disk k)(b := replicate BSIZE 0)"
    unfolding k2(4) using b by (intro ext) (simp add: d1)
  then show ?thesis using k2(1,2) same_files_trans [OF n(4) k2(3)] by auto
qed

section \<open>Inodes on disk\<close>

lemma length_put_addrs:
  "o' + 12 + 4 * length as \<le> length d \<Longrightarrow> length (put_addrs o' as d) = length d"
  by (simp add: put_addrs_def length_concat_items [of as "le_bytes 4" 4])

lemma put_dinode:
  assumes d: "dip + DINODE_SIZE \<le> length d" and as: "length (i_addrs ip) = NDIRECT + 1"
  shows "length (put_dinode dip ip d) = length d"
    "get16 dip (put_dinode dip ip d) = i_type ip" "get16 (dip + 2) (put_dinode dip ip d) = i_nlink ip"
    "get32 (dip + 8) (put_dinode dip ip d) = i_size ip" "dinode_addrs dip (put_dinode dip ip d) = i_addrs ip"
proof -
  let ?as = "i_addrs ip"
  have len: "length (concat (map (le_bytes 4) ?as)) = 52"
    using as length_concat_items [of ?as "le_bytes 4" 4] by (simp add: NDIRECT_def)
  have room: "dip + 64 \<le> length d" using d by (simp add: DINODE_SIZE_def)
  note defs = put_dinode_def put_addrs_def put16_def put32_def
  show "length (put_dinode dip ip d) = length d"
    using room len by (simp add: defs)
  show "get16 dip (put_dinode dip ip d) = i_type ip"
    using room len by (simp add: get16_def defs slice_splice_other slice_splice_same le_word_le_bytes)
  show "get16 (dip + 2) (put_dinode dip ip d) = i_nlink ip"
    using room len by (simp add: get16_def defs slice_splice_other slice_splice_same le_word_le_bytes)
  show "get32 (dip + 8) (put_dinode dip ip d) = i_size ip"
    using room len by (simp add: get32_def defs slice_splice_other slice_splice_same le_word_le_bytes)
  show "dinode_addrs dip (put_dinode dip ip d) = ?as"
  proof (rule nth_equalityI)
    fix i assume "i < length (dinode_addrs dip (put_dinode dip ip d))"
    then have i: "i < 13" by (simp add: dinode_addrs_def NDIRECT_def)
    have "slice (dip + 12 + 4 * i) 4 (put_dinode dip ip d) = slice (4 * i) 4 (concat (map (le_bytes 4) ?as))"
      using room len i by (simp add: defs slice_splice_inside)
    also have "\<dots> = le_bytes 4 (?as ! i)"
      using i as by (intro slice_concat) (simp_all add: NDIRECT_def)
    finally show "dinode_addrs dip (put_dinode dip ip d) ! i = ?as ! i"
      using i by (simp add: dinode_addrs_def NDIRECT_def get32_def le_word_le_bytes del: upt_Suc)
  qed (simp add: dinode_addrs_def as)
qed

lemma dinode_off_room: "dinode_off inum + DINODE_SIZE \<le> BSIZE"
proof -
  have "unat inum mod 16 < 16" by simp
  then show ?thesis by (simp add: dinode_off_def IPB_def DINODE_SIZE_def BSIZE_def)
qed

lemma iupdate_ok:
  assumes ok: "cache_ok k hs" and room: "length hs < NBUF"
    and i: "i_dev (the_inode k i) = ROOTDEV" "length (i_addrs (the_inode k i)) = NDIRECT + 1"
  shows "\<exists>k'. iupdate i k = Some k' \<and> cache_ok k' hs \<and> same_files k k' \<and>
    disk k' = (let ip = the_inode k i; n = IBLOCK (i_inum ip) (sb k) in
      (disk k)(n := put_dinode (dinode_off (i_inum ip)) ip (disk k n)))"
proof -
  let ?ip = "the_inode k i"
  let ?n = "IBLOCK (i_inum ?ip) (sb k)"
  let ?f = "put_dinode (dinode_off (i_inum ?ip)) ?ip"
  have len: "length (?f (disk k ?n)) = length (disk k ?n)"
    using put_dinode(1) [OF _ i(2), of "dinode_off (i_inum ?ip)" "disk k ?n"]
      dinode_off_room [of "i_inum ?ip"] disk_length [OF ok] by simp
  show ?thesis
    by (rule bc.change [OF ok room, where n = ?n and f = ?f, OF len])
      (auto simp: iupdate_def i(1) rewrite_buf_def Let_def)
qed

lemma the_inode_map_inode:
  "i < length (itable k) \<Longrightarrow> the_inode (map_inode i f k) j = (if j = i then f (the_inode k i) else the_inode k j)"
  by (auto simp: the_inode_def map_inode_def upd_at_def nth_list_update)

lemma map_inode_fields [simp]:
  "disk (map_inode i f k) = disk k" "bufs (map_inode i f k) = bufs k" "lru (map_inode i f k) = lru k"
  "sb (map_inode i f k) = sb k" "the_buf (map_inode i f k) b = the_buf k b"
  "cache_ok (map_inode i f k) hs = cache_ok k hs"
  by (simp_all add: map_inode_def cache_ok_def bufs_ok_def refs_ok_def the_buf_def)

lemma brelse_map_inode: "brelse b (map_inode i f k) = map_inode i f (brelse b k)"
  by (simp add: brelse_def map_inode_def map_buf_def the_buf_def Let_def)

lemma same_files_map_inode:
  "same_files k k' \<Longrightarrow> same_files (map_inode i f k) (map_inode i f k')"
  by (cases k; cases k') (simp add: same_files_def map_inode_def)

lemma ivalid_ok:
  assumes ok: "cache_ok k hs" and room: "length hs < NBUF"
    and i: "i < length (itable k)" "i_dev (the_inode k i) = ROOTDEV" "\<not> i_valid (the_inode k i)"
    and d: "d = disk k (IBLOCK (i_inum (the_inode k i)) (sb k))" "dip = dinode_off (i_inum (the_inode k i))"
  shows "if get16 dip d = 0 then ivalid i k = None
    else \<exists>k'. ivalid i k = Some k' \<and> cache_ok k' hs \<and> disk k' = disk k \<and>
      same_files (map_inode i (load_dinode dip d) k) k'"
proof -
  obtain bp k1 where r: "bread ROOTDEV (IBLOCK (i_inum (the_inode k i)) (sb k)) k = Some (bp, k1)"
      "b_data (the_buf k1 bp) = d" "same_files k k1" "cache_ok (brelse bp k1) hs"
      "disk (brelse bp k1) = disk k" "same_files k (brelse bp k1)"
    unfolding d(1) by (rule bc.look [OF ok room, where n = "IBLOCK (i_inum (the_inode k i)) (sb k)"])
  let ?k = "map_inode i (load_dinode dip d) (brelse bp k1)"
  have "i_type (the_inode ?k i) = get16 dip d"
    using i(1) same_files_fields(2) [OF r(6)] by (simp add: the_inode_map_inode load_dinode_def)
  then have "ivalid i k = (if get16 dip d = 0 then None else Some ?k)"
    using r(1,2) i(2,3) by (simp add: ivalid_def Let_def brelse_map_inode flip: d(2))
  then show ?thesis
    using r(4,5) same_files_map_inode [OF r(6)] by auto
qed

text \<open>What \<^verbatim>\<open>iupdate\<close> stored, \<^verbatim>\<open>ivalid\<close> reads back, through any other slot of the table.\<close>

lemma iupdate_ivalid_trip:
  assumes ok: "cache_ok k hs" and room: "length hs < NBUF"
    and i: "i_dev (the_inode k i) = ROOTDEV" "length (i_addrs (the_inode k i)) = NDIRECT + 1"
      "i_type (the_inode k i) \<noteq> 0"
    and j: "j < length (itable k)" "i_dev (the_inode k j) = ROOTDEV" "\<not> i_valid (the_inode k j)"
      "i_inum (the_inode k j) = i_inum (the_inode k i)"
  shows "\<exists>k1 k2. iupdate i k = Some k1 \<and> ivalid j k1 = Some k2 \<and> cache_ok k2 hs \<and>
    the_inode k2 j = (the_inode k j)\<lparr>i_type := i_type (the_inode k i), i_nlink := i_nlink (the_inode k i),
      i_size := i_size (the_inode k i), i_addrs := i_addrs (the_inode k i), i_valid := True\<rparr>"
proof -
  let ?ip = "the_inode k i"
  let ?n = "IBLOCK (i_inum ?ip) (sb k)" and ?dip = "dinode_off (i_inum ?ip)"
  obtain k1 where k1: "iupdate i k = Some k1" "cache_ok k1 hs" "same_files k k1"
      "disk k1 ?n = put_dinode ?dip ?ip (disk k ?n)"
    using iupdate_ok [OF ok room i(1,2)] by (auto simp: Let_def)
  note f = same_files_fields [OF k1(3)]
  have eq: "the_inode k1 m = the_inode k m" for m by (simp add: the_inode_def f)
  note p = put_dinode(2-) [OF _ i(2), of ?dip "disk k ?n"]
  have rm: "?dip + DINODE_SIZE \<le> length (disk k ?n)"
    using dinode_off_room [of "i_inum ?ip"] disk_length [OF ok] by simp
  have ne: "get16 ?dip (disk k1 ?n) \<noteq> 0" unfolding k1(4) p(1) [OF rm] by (rule i(3))
  have jk: "j < length (itable k1)" "i_dev (the_inode k1 j) = ROOTDEV" "\<not> i_valid (the_inode k1 j)"
    unfolding eq f by (rule j)+
  have args: "disk k1 ?n = disk k1 (IBLOCK (i_inum (the_inode k1 j)) (sb k1))"
      "?dip = dinode_off (i_inum (the_inode k1 j))"
    by (simp_all only: eq f j(4))
  obtain k2 where k2: "ivalid j k1 = Some k2" "cache_ok k2 hs"
      "same_files (map_inode j (load_dinode ?dip (disk k1 ?n)) k1) k2"
    using ivalid_ok [OF k1(2) room jk args] ne by (simp only: if_False) blast
  have "the_inode k2 j = load_dinode ?dip (disk k1 ?n) (the_inode k j)"
    using same_files_fields(2) [OF k2(3)] j(1) the_inode_map_inode [of j k1] by (simp add: the_inode_def f)
  then have "the_inode k2 j = (the_inode k j)\<lparr>i_type := i_type ?ip, i_nlink := i_nlink ?ip,
      i_size := i_size ?ip, i_addrs := i_addrs ?ip, i_valid := True\<rparr>"
    by (simp only: load_dinode_def k1(4) p [OF rm])
  with k1(1) k2(1,2) show ?thesis by blast
qed

end
