(* ===== verification/FileData.thy ===== *)
theory FileData
  imports FileSpec
begin

text \<open>
  Files as byte sequences. \<open>file_byte\<close> is byte \<open>x\<close> of a file through its block map, direct or
  indirect; \<^verbatim>\<open>readi\<close> is shown to return a range of it and \<^verbatim>\<open>writei\<close> to replace one, for files
  whose blocks are all allocated (\<open>mapped\<close>) and, for writing, distinct.
\<close>

section \<open>The block map\<close>

definition file_block :: "'a fs_kern_scheme \<Rightarrow> nat \<Rightarrow> nat \<Rightarrow> u32" where
  "file_block k i n = (let as = i_addrs (the_inode k i) in
     if n < NDIRECT then as ! n else get32 (4 * (n - NDIRECT)) (disk k (as ! NDIRECT)))"

definition mapped :: "'a fs_kern_scheme \<Rightarrow> nat \<Rightarrow> nat \<Rightarrow> bool" where
  "mapped k i n \<longleftrightarrow> n < MAXFILE \<and> file_block k i n \<noteq> 0 \<and>
     (NDIRECT \<le> n \<longrightarrow> i_addrs (the_inode k i) ! NDIRECT \<noteq> 0)"

definition file_byte :: "'a fs_kern_scheme \<Rightarrow> nat \<Rightarrow> nat \<Rightarrow> u8" where
  "file_byte k i x = disk k (file_block k i (x div BSIZE)) ! (x mod BSIZE)"

lemma file_block_cong:
  "disk k' = disk k \<Longrightarrow> itable k' = itable k \<Longrightarrow>
     file_block k' i = file_block k i \<and> mapped k' i = mapped k i \<and> file_byte k' i = file_byte k i"
  by (intro conjI ext) (simp_all add: file_block_def mapped_def file_byte_def the_inode_def Let_def)

lemma same_files_block:
  "same_files k k' \<Longrightarrow> disk k' = disk k \<Longrightarrow>
     file_block k' i = file_block k i \<and> mapped k' i = mapped k i \<and> file_byte k' i = file_byte k i"
  by (rule file_block_cong) (simp_all add: same_files_fields)

lemma bmap_ok:
  assumes ok: "cache_ok k hs" and room: "length hs < NBUF"
    and i: "i_dev (the_inode k i) = ROOTDEV" and m: "mapped k i (unat bn)"
  shows "\<exists>k'. bmap i bn k = Some (file_block k i (unat bn), k') \<and> cache_ok k' hs \<and>
    disk k' = disk k \<and> same_files k k'"
proof (cases "unat bn < NDIRECT")
  case True
  then have "bmap i bn k = Some (file_block k i (unat bn), k)"
    using m by (simp add: bmap_def addr_or_alloc_def mapped_def file_block_def Let_def)
  with ok show ?thesis by auto
next
  case False
  let ?ind = "i_addrs (the_inode k i) ! NDIRECT" and ?n = "unat bn - NDIRECT"
  have b: "?ind \<noteq> 0" "?n < NINDIRECT" "file_block k i (unat bn) \<noteq> 0"
      "file_block k i (unat bn) = get32 (4 * ?n) (disk k ?ind)"
    using m False by (auto simp: mapped_def file_block_def MAXFILE_def Let_def)
  obtain bp k1 where r: "bread ROOTDEV ?ind k = Some (bp, k1)" "b_data (the_buf k1 bp) = disk k ?ind"
      "cache_ok (brelse bp k1) hs" "disk (brelse bp k1) = disk k" "same_files k (brelse bp k1)"
    by (rule bc.look [OF ok room, where n = ?ind])
  have "bmap i bn k = Some (file_block k i (unat bn), brelse bp k1)"
    using False b r(1,2) i by (simp add: bmap_def addr_or_alloc_def Let_def)
  with r(3-5) show ?thesis by auto
qed

section \<open>Reading\<close>

lemma block_room_le: "block_room off \<le> BSIZE"
  by (simp add: block_room_def)

lemma slice_file_bytes:
  assumes "length (disk k (file_block k i (x div BSIZE))) = BSIZE" "m \<le> BSIZE - x mod BSIZE"
  shows "slice (x mod BSIZE) m (disk k (file_block k i (x div BSIZE))) = map (file_byte k i) [x..<x + m]"
proof (rule nth_equalityI)
  have pos: "x mod BSIZE < BSIZE" by (simp add: BSIZE_def)
  then show "length (slice (x mod BSIZE) m (disk k (file_block k i (x div BSIZE)))) =
      length (map (file_byte k i) [x..<x + m])"
    using assms by simp
  fix j
  assume "j < length (slice (x mod BSIZE) m (disk k (file_block k i (x div BSIZE))))"
  then have j: "j < m" using assms pos by simp
  then have lt: "x mod BSIZE + j < BSIZE" using assms(2) by simp
  have "x + j = BSIZE * (x div BSIZE) + (x mod BSIZE + j)" by simp
  then have "(x + j) div BSIZE = x div BSIZE" "(x + j) mod BSIZE = x mod BSIZE + j"
    using lt by (metis div_mult_self4 BSIZE_def zero_neq_numeral div_less add.right_neutral,
      metis mod_mult_self4 mod_less)
  then show "slice (x mod BSIZE) m (disk k (file_block k i (x div BSIZE))) ! j =
      map (file_byte k i) [x..<x + m] ! j"
    using assms pos j by (simp add: nth_slice file_byte_def)
qed

lemma off_arith:
  fixes off sz :: u32
  assumes "unat off + rem \<le> unat sz" "m \<le> rem"
  shows "unat (off div of_nat BSIZE) = unat off div BSIZE" "unat (off + of_nat m) = unat off + m"
proof -
  have "unat (of_nat BSIZE :: u32) = BSIZE" by (simp add: BSIZE_def)
  then show "unat (off div of_nat BSIZE) = unat off div BSIZE" by (simp add: unat_div)
  show "unat (off + of_nat m) = unat off + m"
    using assms unat_less_len [of sz] by (simp add: unat_word_ariths unat_of_nat)
qed

lemma readi_loop_local:
  assumes "cache_ok k hs" "length hs < NBUF" "i_dev (the_inode k i) = ROOTDEV"
    and "unat off + rem \<le> unat (sz :: u32)" "\<forall>n. n * BSIZE < unat off + rem \<longrightarrow> mapped k i n"
  shows "\<exists>k'. readi_loop i Local_dst off rem k =
      Some (True, map (file_byte k i) [unat off..<unat off + rem], k') \<and>
    cache_ok k' hs \<and> disk k' = disk k \<and> same_files k k'"
  using assms
proof (induction rem arbitrary: off k rule: less_induct)
  case (less rem)
  show ?case
  proof (cases "rem = 0")
    case True
    then show ?thesis using less.prems(1) by (auto simp: readi_loop.simps)
  next
    case False
    let ?bn = "off div of_nat BSIZE" and ?m = "min rem (block_room off)"
    note ar = off_arith [OF less.prems(4), of ?m, OF min.cobounded1]
    have "unat off div BSIZE * BSIZE \<le> unat off" by simp
    then have "unat off div BSIZE * BSIZE < unat off + rem" using False by linarith
    then have mp: "mapped k i (unat ?bn)" unfolding ar(1) using less.prems(5) by blast
    obtain k1 where k1: "bmap i ?bn k = Some (file_block k i (unat ?bn), k1)" "cache_ok k1 hs"
        "disk k1 = disk k" "same_files k k1"
      using bmap_ok [OF less.prems(1-3) mp] by blast
    have dev1: "i_dev (the_inode k1 i) = ROOTDEV"
      using less.prems(3) same_files_fields(2) [OF k1(4)] by (simp add: the_inode_def)
    obtain bp k2 where k2: "bread ROOTDEV (file_block k i (unat ?bn)) k1 = Some (bp, k2)"
        "b_data (the_buf k2 bp) = disk k1 (file_block k i (unat ?bn))"
        "cache_ok (brelse bp k2) hs" "disk (brelse bp k2) = disk k1" "same_files k1 (brelse bp k2)"
      by (rule bc.look [OF k1(2) less.prems(2), where n = "file_block k i (unat ?bn)"])
    have m: "0 < ?m" "?m \<le> BSIZE - unat off mod BSIZE" "?m \<le> rem"
      using False by (auto simp: block_room_def BSIZE_def)
    have xs: "slice (unat off mod BSIZE) ?m (b_data (the_buf k2 bp)) =
        map (file_byte k i) [unat off..<unat off + ?m]"
      unfolding k2(2) k1(3) ar(1)
      using slice_file_bytes [OF disk_length [OF less.prems(1)] m(2)] .
    let ?k = "brelse bp k2"
    have sf: "same_files k ?k" using same_files_trans [OF k1(4) k2(5)] .
    have dk: "disk ?k = disk k" using k2(4) k1(3) by simp
    note same = same_files_block [OF sf dk, of i]
    have dev: "i_dev (the_inode ?k i) = ROOTDEV"
      using less.prems(3) same_files_fields(2) [OF sf] by (simp add: the_inode_def)
    have nxt: "unat (off + of_nat ?m) + (rem - ?m) = unat off + rem" using ar(2) m(3) by simp
    obtain k3 where k3: "readi_loop i Local_dst (off + of_nat ?m) (rem - ?m) ?k =
        Some (True, map (file_byte ?k i) [unat (off + of_nat ?m)..<unat (off + of_nat ?m) + (rem - ?m)], k3)"
        "cache_ok k3 hs" "disk k3 = disk ?k" "same_files ?k k3"
      using less.IH [of "rem - ?m" ?k "off + of_nat ?m"] m k2(3) less.prems(2,4,5) dev nxt same False
      by auto
    have up: "[unat off..<unat off + rem] = [unat off..<unat off + ?m] @ [unat off + ?m..<unat off + rem]"
      using upt_add_eq_append [of "unat off" "unat off + ?m" "rem - ?m"] m(3) by simp
    have "readi_loop i Local_dst off rem k = Some (True, map (file_byte k i) [unat off..<unat off + rem], k3)"
      unfolding readi_loop.simps [of i Local_dst off rem k]
      using False k1(1) dev1 k2(1) xs k3(1) same nxt ar(2)
      by (simp add: copy_out_to_def Let_def up)
    then show ?thesis
      using k3(2-4) dk same_files_trans [OF sf k3(4)] by auto
  qed
qed

text \<open>A file on the root device whose blocks up to its size are all there.\<close>

definition file_ok :: "'a fs_kern_scheme \<Rightarrow> nat \<Rightarrow> bool" where
  "file_ok k i \<longleftrightarrow> i_dev (the_inode k i) = ROOTDEV \<and> unat (i_size (the_inode k i)) < 2 ^ 31 \<and>
     (\<forall>n. n * BSIZE < unat (i_size (the_inode k i)) \<longrightarrow> mapped k i n)"

lemma file_ok_same: "same_files k k' \<Longrightarrow> disk k' = disk k \<Longrightarrow> file_ok k' i = file_ok k i"
  using same_files_block [of k k' i] same_files_fields(2) [of k k'] by (simp add: file_ok_def the_inode_def)

lemma sint_small: "unat (w :: u32) < 2 ^ 31 \<Longrightarrow> sint w = int (unat w)"
proof -
  assume w: "unat w < 2 ^ 31"
  have u: "uint w = int (unat w)" by (rule uint_nat)
  have lt: "int (unat w) < 2 ^ 31" using w of_nat_less_iff [where 'a = int, of "unat w" "2 ^ 31"] by (simp only: of_nat_power of_nat_numeral)
  have ge: "- (2 ^ 31) \<le> int (unat w)" by (rule order_trans [of _ 0]) (simp, rule of_nat_0_le_iff)
  have "sint w = signed_take_bit 31 (uint w)" by (simp add: sint_uint)
  also have "\<dots> = int (unat w)" unfolding u by (rule signed_take_bit_int_eq_self [OF ge lt])
  finally show ?thesis .
qed

lemma readi_local:
  fixes off n :: u32
  assumes ok: "cache_ok k hs" and room: "length hs < NBUF" and f: "file_ok k i"
    and off: "off \<le> i_size (the_inode k i)" "unat off + unat n < 2 ^ 32"
    and m: "m = min (unat n) (unat (i_size (the_inode k i)) - unat off)"
  shows "\<exists>k'. readi i Local_dst off n k = Some (int m, map (file_byte k i) [unat off..<unat off + m], k') \<and>
    cache_ok k' hs \<and> disk k' = disk k \<and> same_files k k'"
proof -
  let ?sz = "i_size (the_inode k i)"
  let ?n = "if ?sz < off + n then ?sz - off else n"
  have le: "unat off \<le> unat ?sz" using off(1) by (simp add: word_le_nat_alt)
  have sum: "unat (off + n) = unat off + unat n" using off(2) by (simp add: unat_word_ariths)
  have n: "unat ?n = m"
    using le unat_sub [OF off(1)] by (auto simp: m word_less_nat_alt sum min_def)
  have bounds: "unat off + m \<le> unat ?sz" "m < 2 ^ 31"
    using le f by (auto simp: m file_ok_def min_def)
  have mp: "\<forall>b. b * BSIZE < unat off + m \<longrightarrow> mapped k i b"
    using f bounds(1) by (auto simp: file_ok_def)
  obtain k' where k': "readi_loop i Local_dst off m k = Some (True, map (file_byte k i) [unat off..<unat off + m], k')"
      "cache_ok k' hs" "disk k' = disk k" "same_files k k'"
    using readi_loop_local [OF ok room _ bounds(1) mp] f by (auto simp: file_ok_def)
  have "sint ?n = int (unat ?n)" using bounds(2) unfolding n [symmetric] by (rule sint_small)
  then have "sint ?n = int m" unfolding n .
  then have "readi i Local_dst off n k = Some (int m, map (file_byte k i) [unat off..<unat off + m], k')"
    using off(1) sum k'(1) n by (simp add: readi_def Let_def not_less word_less_nat_alt word_le_nat_alt)
  with k'(2-4) show ?thesis by auto
qed

section \<open>Directories\<close>

definition dir_ok :: "'a fs_kern_scheme \<Rightarrow> nat \<Rightarrow> bool" where
  "dir_ok k dp \<longleftrightarrow> file_ok k dp \<and> i_type (the_inode k dp) = T_DIR \<and>
     unat (i_size (the_inode k dp)) mod DIRENT_SIZE = 0"

definition dirent_at :: "'a fs_kern_scheme \<Rightarrow> nat \<Rightarrow> nat \<Rightarrow> u8 list" where
  "dirent_at k dp e = map (file_byte k dp) [DIRENT_SIZE * e..<DIRENT_SIZE * e + DIRENT_SIZE]"

definition dirents :: "'a fs_kern_scheme \<Rightarrow> nat \<Rightarrow> u8 list list" where
  "dirents k dp = map (dirent_at k dp) [0..<unat (i_size (the_inode k dp)) div DIRENT_SIZE]"

definition de_matches :: "(nat \<Rightarrow> u8) \<Rightarrow> u8 list \<Rightarrow> bool" where
  "de_matches name de \<longleftrightarrow> de_inum de \<noteq> 0 \<and> strncmp name (de_name de) DIRSIZ = 0"

lemma dir_ok_same:
  assumes "same_files k k'" "disk k' = disk k"
  shows "dir_ok k' dp = dir_ok k dp" "dirents k' dp = dirents k dp" "dirent_at k' dp = dirent_at k dp"
    "the_inode k' dp = the_inode k dp"
  using same_files_block [OF assms, of dp] same_files_fields(2) [OF assms(1)] file_ok_same [OF assms]
  by (simp_all add: dir_ok_def dirents_def dirent_at_def the_inode_def fun_eq_iff)

text \<open>The whole number of entries, and one of them read by \<^verbatim>\<open>readi\<close>.\<close>

lemma dir_size: "dir_ok k dp \<Longrightarrow> unat (i_size (the_inode k dp)) = DIRENT_SIZE * length (dirents k dp)"
  by (auto simp: dir_ok_def dirents_def)

lemma read_dirent:
  assumes ok: "cache_ok k hs" and room: "length hs < NBUF" and d: "dir_ok k dp"
    and off: "unat (off :: u32) = DIRENT_SIZE * e" "e < length (dirents k dp)"
  shows "\<exists>k'. readi dp Local_dst off (of_nat DIRENT_SIZE) k = Some (int DIRENT_SIZE, dirents k dp ! e, k') \<and>
    cache_ok k' hs \<and> disk k' = disk k \<and> same_files k k'"
proof -
  have n: "unat (of_nat DIRENT_SIZE :: u32) = DIRENT_SIZE" by (simp add: DIRENT_SIZE_def)
  have "DIRENT_SIZE * Suc e \<le> DIRENT_SIZE * length (dirents k dp)" using off(2) by (intro mult_le_mono2) simp
  then have le: "unat off + DIRENT_SIZE \<le> unat (i_size (the_inode k dp))"
    using dir_size [OF d] off(1) by simp
  then have m: "DIRENT_SIZE = min (unat (of_nat DIRENT_SIZE :: u32)) (unat (i_size (the_inode k dp)) - unat off)"
    unfolding n by simp
  have "off \<le> i_size (the_inode k dp)" using le by (simp add: word_le_nat_alt)
  moreover have "unat off + unat (of_nat DIRENT_SIZE :: u32) < 2 ^ 32"
    using le unat_less_len [of "i_size (the_inode k dp)"] unfolding n by simp
  moreover have "file_ok k dp" using d by (simp add: dir_ok_def)
  moreover have "dirents k dp ! e = map (file_byte k dp) [unat off..<unat off + DIRENT_SIZE]"
    using off by (simp add: dirents_def dirent_at_def)
  ultimately show ?thesis
    using readi_local [OF ok room _ _ _ m] by simp
qed

lemma dirlookup_from_ok:
  assumes "cache_ok k hs" "length hs < NBUF" "dir_ok k dp" "unat (off :: u32) = DIRENT_SIZE * e"
    "e \<le> length (dirents k dp)"
  shows "\<exists>k1. cache_ok k1 hs \<and> disk k1 = disk k \<and> same_files k k1 \<and>
    dirlookup_from dp name off k =
      (case first_idx (de_matches name) (drop e (dirents k dp)) of
         None \<Rightarrow> Some (None, k1)
       | Some j \<Rightarrow> do {
           (ip, k2) \<leftarrow> iget ROOTDEV (ucast (de_inum (dirents k dp ! (e + j)))) k1;
           Some (Some (ip, of_nat (DIRENT_SIZE * (e + j))), k2) })"
  using assms
proof (induction "length (dirents k dp) - e" arbitrary: e off k)
  case 0
  then have "\<not> off < i_size (the_inode k dp)" "drop e (dirents k dp) = []"
    using dir_size [OF 0(4)] by (simp_all add: word_less_nat_alt)
  with 0(2) show ?case by (intro exI [of _ k]) (simp add: dirlookup_from.simps)
next
  case (Suc n)
  then have e: "e < length (dirents k dp)" by simp
  have less: "off < i_size (the_inode k dp)"
    using dir_size [OF Suc(5)] Suc(6) e by (simp add: word_less_nat_alt DIRENT_SIZE_def)
  obtain k1 where k1: "readi dp Local_dst off (of_nat DIRENT_SIZE) k = Some (int DIRENT_SIZE, dirents k dp ! e, k1)"
      "cache_ok k1 hs" "disk k1 = disk k" "same_files k k1"
    using read_dirent [OF Suc(3-6) e] by blast
  note same = dir_ok_same [OF k1(4,3), of dp]
  have dr: "drop e (dirents k dp) = dirents k dp ! e # drop (Suc e) (dirents k dp)"
    using e by (simp add: Cons_nth_drop_Suc)
  have o: "off = of_nat (DIRENT_SIZE * e)" using Suc(6) by (simp flip: Suc(6))
  have dev: "i_dev (the_inode k dp) = ROOTDEV" using Suc(5) by (simp add: dir_ok_def file_ok_def)
  show ?case
  proof (cases "de_matches name (dirents k dp ! e)")
    case True
    then have "dirlookup_from dp name off k = do {
        (ip, k2) \<leftarrow> iget ROOTDEV (ucast (de_inum (dirents k dp ! e))) k1; Some (Some (ip, off), k2) }"
      using less k1(1) same(4) dev by (simp add: dirlookup_from.simps [of dp name off k] de_matches_def)
    with True dr o k1(2-4) show ?thesis by (intro exI [of _ k1]) simp
  next
    case False
    let ?off = "off + of_nat DIRENT_SIZE"
    have step: "dirlookup_from dp name off k = dirlookup_from dp name ?off k1"
      using False less k1(1) by (simp add: dirlookup_from.simps [of dp name off k] de_matches_def) auto
    have "DIRENT_SIZE * Suc e \<le> DIRENT_SIZE * length (dirents k dp)" using e by (intro mult_le_mono2) simp
    then have "unat off + DIRENT_SIZE < 2 ^ 32"
      using dir_size [OF Suc(5)] unat_less_len [of "i_size (the_inode k dp)"] Suc(6) by simp
    then have off: "unat ?off = DIRENT_SIZE * Suc e"
      using Suc(6) by (simp add: unat_word_ariths DIRENT_SIZE_def)
    obtain k2 where k2: "cache_ok k2 hs" "disk k2 = disk k1" "same_files k1 k2"
        "dirlookup_from dp name ?off k1 =
          (case first_idx (de_matches name) (drop (Suc e) (dirents k dp)) of
             None \<Rightarrow> Some (None, k2)
           | Some j \<Rightarrow> do {
                 (ip, k3) \<leftarrow> iget ROOTDEV (ucast (de_inum (dirents k dp ! (Suc e + j)))) k2;
                 Some (Some (ip, of_nat (DIRENT_SIZE * (Suc e + j))), k3) })"
      using Suc(1) [of k1 "Suc e" ?off, unfolded same, OF _ k1(2) Suc(4,5) off] Suc(2) e by force
    show ?thesis
      using k2(1-3) k1(3) same_files_trans [OF k1(4) k2(3)] False
      by (intro exI [of _ k2], cases "first_idx (de_matches name) (drop (Suc e) (dirents k dp))")
        (simp_all add: step k2(4) dr del: first_idx_None_iff of_nat_mult of_nat_add of_nat_Suc)
  qed
qed

lemma dirlookup_ok:
  assumes "cache_ok k hs" "length hs < NBUF" "dir_ok k dp"
  shows "\<exists>k1. cache_ok k1 hs \<and> disk k1 = disk k \<and> same_files k k1 \<and>
    dirlookup dp name k =
      (case first_idx (de_matches name) (dirents k dp) of
         None \<Rightarrow> Some (None, k1)
       | Some j \<Rightarrow> do {
           (ip, k2) \<leftarrow> iget ROOTDEV (ucast (de_inum (dirents k dp ! j))) k1;
           Some (Some (ip, of_nat (DIRENT_SIZE * j)), k2) })"
  using dirlookup_from_ok [OF assms, of 0 0 name] assms(3)
  by (simp add: dirlookup_def dir_ok_def cong: option.case_cong)

end
