(* ===== verification/FileProps.thy ===== *)
theory FileProps
  imports FileData Files
begin

text \<open>
  The properties of the cache and of the file system, with a small file system at which each
  of them is applied: a root directory in block 100 with a free entry and one for "ab".
\<close>

definition demo_dir :: inode where
  "demo_dir = \<lparr>i_dev = ROOTDEV, i_inum = 1, i_ref = 1, i_valid = True, i_type = T_DIR, i_nlink = 1,
     i_size = 32, i_addrs = 100 # replicate 12 0\<rparr>"

definition demo_block :: "u8 list" where
  "demo_block = replicate 16 0 @ [7, 0, 97, 98] @ replicate 1004 0"

definition demo_fs :: fs_kern where
  "demo_fs = \<lparr>mem = (\<lambda>_. 0), freelist = 0, ekernel = 0, trampoline = 0,
     pool = [zero_proc\<lparr>p_state := P_USED, p_pid := 1\<rparr>], current = Some (0, 0),
     task_queue = init_queue QUEUE_SIZE [], next_pid = 2, world_tick = 0, alive_npcs = 0, memories = [],
     disk = (\<lambda>_. replicate 1024 0)(100 := demo_block),
     bufs = replicate NBUF \<lparr>b_valid = False, b_dev = 0, b_blockno = 0, b_refcnt = 0, b_data = []\<rparr>,
     lru = [0..<NBUF],
     sb = \<lparr>sb_magic = FSMAGIC, sb_size = 1000, sb_nblocks = 900, sb_ninodes = 200, sb_inodestart = 2, sb_bmapstart = 15\<rparr>,
     itable = [demo_dir, demo_dir\<lparr>i_valid := False, i_type := 0\<rparr>,
       demo_dir\<lparr>i_ref := 0, i_valid := False, i_inum := 0\<rparr>],
     filepool = [], pipes = (\<lambda>_. \<lparr>pi_data = [], pi_nread = 0, pi_nwrite = 0, pi_readopen = False, pi_writeopen = False\<rparr>),
     con_in = [], con_out = [], strpool = []\<rparr>"

lemma demo_fs_cache [simp]: "cache_ok demo_fs []"
  by (simp add: cache_ok_def bufs_ok_def refs_ok_def demo_fs_def the_buf_def BSIZE_def demo_block_def
      atLeast0LessThan ROOTDEV_def)

lemma NBUF_pos [simp]: "0 < NBUF"
  by (simp add: NBUF_val)

lemma demo_fs_inode:
  "the_inode demo_fs 0 = demo_dir" "the_inode demo_fs (Suc 0) = demo_dir\<lparr>i_valid := False, i_type := 0\<rparr>"
  by (simp_all add: demo_fs_def the_inode_def)

lemma demo_fs_block: "disk demo_fs 100 = demo_block"
  by (simp add: demo_fs_def)

lemma demo_file_block: "file_block demo_fs 0 0 = 100"
  by (simp add: file_block_def demo_fs_inode demo_dir_def NDIRECT_def Let_def)

lemma demo_dir_ok: "dir_ok demo_fs 0"
proof -
  have "mapped demo_fs 0 n" if "n * BSIZE < 32" for n
  proof -
    have "n = 0" using that by (cases n) (auto simp: BSIZE_def)
    then show ?thesis
      by (simp add: mapped_def demo_file_block MAXFILE_def NDIRECT_def)
  qed
  then show ?thesis
    by (simp add: dir_ok_def file_ok_def demo_fs_inode demo_dir_def DIRENT_SIZE_def)
qed

section \<open>The cache\<close>



section \<open>Blocks\<close>

text \<open>
  Property C32: \<^verbatim>\<open>balloc\<close> takes the free block of the lowest number, over all bitmap blocks: it
  marks it in its bitmap, clears its content, changes nothing else on the disk, and panics
  exactly when no block is free.
\<close>
theorem balloc_takes_first_free:
  assumes "cache_ok k []"
  shows "case find (block_free k) [0..<unat (sb_size (sb k))] of
      None \<Rightarrow> balloc ROOTDEV k = None
    | Some b \<Rightarrow> \<exists>k'. balloc ROOTDEV k = Some (of_nat b, k') \<and> cache_ok k' [] \<and> same_files k k' \<and>
        disk k' = take_block b (sb k) (disk k)"
  by (rule balloc_ok [OF assms]) simp

lemma find_first: "P 0 \<Longrightarrow> 0 < n \<Longrightarrow> find P [0..<n] = Some 0"
  by (simp add: upt_conv_Cons)

lemma demo_first_free: "find (block_free demo_fs) [0..<unat (sb_size (sb demo_fs))] = Some 0"
proof -
  have "block_free demo_fs 0"
    by (simp add: block_free_def demo_fs_def bit_free_def BBLOCK_def BPB_def BSIZE_def)
  moreover have "0 < unat (sb_size (sb demo_fs))" by (simp add: demo_fs_def)
  ultimately show ?thesis by (rule find_first)
qed

lemma balloc_takes_first_free_witness:
  "\<exists>k'. balloc ROOTDEV demo_fs = Some (0, k') \<and> disk k' = take_block 0 (sb demo_fs) (disk demo_fs)"
  using balloc_takes_first_free [OF demo_fs_cache] unfolding demo_first_free by auto

text \<open>
  A block that \<^verbatim>\<open>balloc\<close> handed out can be given back: \<^verbatim>\<open>bfree\<close> succeeds and leaves
  the disk as it was, except that the block itself has been cleared.
\<close>
theorem balloc_bfree_restores:
  assumes "cache_ok k []" "balloc ROOTDEV k = Some (b, k1)" "BBLOCK b (sb k) \<noteq> b"
  shows "\<exists>k2. bfree ROOTDEV b k1 = Some k2 \<and> cache_ok k2 [] \<and> same_files k k2 \<and>
    disk k2 = (disk k)(b := replicate BSIZE 0)"
  by (rule balloc_bfree [OF assms(1) _ assms(2,3)]) simp

lemma demo_balloc: "\<exists>k1. balloc ROOTDEV demo_fs = Some (0, k1)"
  using balloc_ok [OF demo_fs_cache, unfolded demo_first_free] by auto

lemma balloc_bfree_restores_witness:
  "\<exists>k1 k2. balloc ROOTDEV demo_fs = Some (0, k1) \<and> bfree ROOTDEV 0 k1 = Some k2 \<and>
    disk k2 = (disk demo_fs)(0 := replicate BSIZE 0)"
proof -
  obtain k1 where k1: "balloc ROOTDEV demo_fs = Some (0, k1)" using demo_balloc by blast
  have "BBLOCK 0 (sb demo_fs) \<noteq> 0" by (simp add: BBLOCK_def demo_fs_def)
  with balloc_bfree_restores [OF demo_fs_cache k1] k1 show ?thesis by auto
qed

section \<open>Inodes and files\<close>

text \<open>
  What \<^verbatim>\<open>iupdate\<close> writes of an inode, \<^verbatim>\<open>ivalid\<close> reads back: type, link count, size and
  block addresses, through any other slot that names the same inode, whatever the other
  inodes in the same disk block are.
\<close>
theorem iupdate_ivalid_roundtrip:
  assumes "cache_ok k []" "i_dev (the_inode k i) = ROOTDEV" "length (i_addrs (the_inode k i)) = NDIRECT + 1"
      "i_type (the_inode k i) \<noteq> 0"
    and "j < length (itable k)" "i_dev (the_inode k j) = ROOTDEV" "\<not> i_valid (the_inode k j)"
      "i_inum (the_inode k j) = i_inum (the_inode k i)"
  shows "\<exists>k1 k2. iupdate i k = Some k1 \<and> ivalid j k1 = Some k2 \<and> cache_ok k2 [] \<and>
    the_inode k2 j = (the_inode k j)\<lparr>i_type := i_type (the_inode k i), i_nlink := i_nlink (the_inode k i),
      i_size := i_size (the_inode k i), i_addrs := i_addrs (the_inode k i), i_valid := True\<rparr>"
  by (rule iupdate_ivalid_trip [OF assms(1) _ assms(2-)]) simp

lemma iupdate_ivalid_roundtrip_witness:
  "\<exists>k1 k2. iupdate 0 demo_fs = Some k1 \<and> ivalid (Suc 0) k1 = Some k2 \<and> cache_ok k2 [] \<and>
    the_inode k2 (Suc 0) = (the_inode demo_fs (Suc 0))\<lparr>i_type := i_type (the_inode demo_fs 0),
      i_nlink := i_nlink (the_inode demo_fs 0), i_size := i_size (the_inode demo_fs 0),
      i_addrs := i_addrs (the_inode demo_fs 0), i_valid := True\<rparr>"
  by (rule iupdate_ivalid_roundtrip [OF demo_fs_cache])
    (simp_all add: demo_fs_inode, simp_all add: demo_dir_def demo_fs_def NDIRECT_def T_DIR_def)



text \<open>
  Property C30: \<^verbatim>\<open>dirlookup\<close> finds the first entry in use whose name agrees on \<open>DIRSIZ\<close> characters
  with the name asked for, returns its inode and its byte offset, and returns nothing when
  there is none; the directory and the disk stay as they are.
\<close>
theorem dirlookup_finds_first:
  assumes "cache_ok k []" "dir_ok k dp"
  shows "\<exists>k1. cache_ok k1 [] \<and> disk k1 = disk k \<and> same_files k k1 \<and>
    dirlookup dp name k =
      (case first_idx (de_matches name) (dirents k dp) of
         None \<Rightarrow> Some (None, k1)
       | Some j \<Rightarrow> do {
           (ip, k2) \<leftarrow> iget ROOTDEV (ucast (de_inum (dirents k dp ! j))) k1;
           Some (Some (ip, of_nat (DIRENT_SIZE * j)), k2) })"
  by (rule dirlookup_ok [OF assms(1) _ assms(2)]) simp

lemma demo_dir_entries: "unat (i_size (the_inode demo_fs 0)) div DIRENT_SIZE = 2"
  by (simp add: demo_fs_inode demo_dir_def DIRENT_SIZE_def)

lemma demo_dirents: "dirents demo_fs 0 = [replicate 16 0, [7, 0, 97, 98] @ replicate 12 0]"
proof -
  have byte: "file_byte demo_fs 0 x = demo_block ! x" if "x < 32" for x
    using that by (simp add: file_byte_def BSIZE_def demo_file_block demo_fs_block)
  have "dirent_at demo_fs 0 e = map ((!) demo_block) [16 * e..<16 * e + 16]" if "e < 2" for e
    using that byte unfolding dirent_at_def DIRENT_SIZE_def by (intro map_cong) auto
  then have "dirents demo_fs 0 = map (\<lambda>e. map ((!) demo_block) [16 * e..<16 * e + 16]) [0..<2]"
    unfolding dirents_def demo_dir_entries by (intro map_cong) simp_all
  also have "\<dots> = [replicate 16 0, [7, 0, 97, 98] @ replicate 12 0]" by code_simp
  finally show ?thesis .
qed

lemma dirlookup_finds_first_witness:
  "\<exists>k2. dirlookup 0 ((!) [97, 98, 0]) demo_fs = Some (Some (2, 16), k2)"
proof -
  have found: "first_idx (de_matches ((!) [97, 98, 0])) (dirents demo_fs 0) = Some (Suc 0)"
    unfolding demo_dirents by code_simp
  obtain k1 where k1: "disk k1 = disk demo_fs" "same_files demo_fs k1"
      "dirlookup 0 ((!) [97, 98, 0]) demo_fs = do {
         (ip, k2) \<leftarrow> iget ROOTDEV (ucast (de_inum (dirents demo_fs 0 ! Suc 0))) k1;
         Some (Some (ip, of_nat (DIRENT_SIZE * Suc 0)), k2) }"
    using dirlookup_finds_first [OF demo_fs_cache demo_dir_ok, of "(!) [97, 98, 0]"] unfolding found by auto
  have "itable k1 = [demo_dir, demo_dir\<lparr>i_valid := False, i_type := 0\<rparr>,
      demo_dir\<lparr>i_ref := 0, i_valid := False, i_inum := 0\<rparr>]"
    using same_files_fields(2) [OF k1(2)] by (simp add: demo_fs_def)
  then obtain k2 where k2: "iget ROOTDEV 7 k1 = Some (2, k2)"
    by (simp add: iget_def demo_dir_def)
  have "de_inum (dirents demo_fs 0 ! Suc 0) = 7" unfolding demo_dirents by code_simp
  then have "iget ROOTDEV (ucast (de_inum (dirents demo_fs 0 ! Suc 0))) k1 = Some (2, k2)"
    using k2 by simp
  then have "dirlookup 0 ((!) [97, 98, 0]) demo_fs = Some (Some (2, 16), k2)"
    unfolding k1(3) by (simp add: DIRENT_SIZE_def)
  then show ?thesis by blast
qed

end
