(* ===== verification/PipeSpec.thy ===== *)
theory PipeSpec
  imports Pipe VMSpec
begin

text \<open>
  A pipe is a bounded first-in first-out byte stream. The counters \<^verbatim>\<open>nread\<close> and \<^verbatim>\<open>nwrite\<close> are
  32-bit and wrap around; \<open>PIPESIZE\<close> divides \<open>2 ^ 32\<close>, so positions in the ring survive it.
\<close>

definition pipe_len :: "pipe \<Rightarrow> nat" where
  "pipe_len x = unat (pi_nwrite x - pi_nread x)"

definition pipe_ok :: "pipe \<Rightarrow> bool" where
  "pipe_ok x \<longleftrightarrow> length (pi_data x) = PIPESIZE \<and> pipe_len x \<le> PIPESIZE"

definition pipe_seq :: "pipe \<Rightarrow> u8 list" where
  "pipe_seq x = map (\<lambda>j. pi_data x ! ((unat (pi_nread x) + j) mod PIPESIZE)) [0..<pipe_len x]"

lemma PIPESIZE_pos [simp]: "0 < PIPESIZE"
  by (simp add: PIPESIZE_def)

lemma length_pipe_seq [simp]: "length (pipe_seq x) = pipe_len x"
  by (simp add: pipe_seq_def)

lemma unat_plus_mod: "unat ((a :: u32) + of_nat n) mod PIPESIZE = (unat a + n) mod PIPESIZE"
proof -
  have "unat (a + of_nat n) = (unat a + n mod 2 ^ 32) mod 2 ^ 32"
    by (simp add: unat_word_ariths unat_of_nat)
  also have "\<dots> = (unat a + n) mod 2 ^ 32" by (simp add: mod_simps)
  finally show ?thesis by (simp add: PIPESIZE_def mod_mod_cancel)
qed

lemma write_pos: "unat (pi_nwrite x) mod PIPESIZE = (unat (pi_nread x) + pipe_len x) mod PIPESIZE"
proof -
  have "pi_nwrite x = pi_nread x + of_nat (pipe_len x)" by (simp add: pipe_len_def)
  then show ?thesis using unat_plus_mod by metis
qed

section \<open>One round of writing\<close>

lemma pipe_free: "pipe_ok x \<Longrightarrow> unat (pi_nread x + of_nat PIPESIZE - pi_nwrite x) = PIPESIZE - pipe_len x"
proof -
  assume ok: "pipe_ok x"
  have eq: "pi_nread x + of_nat PIPESIZE - pi_nwrite x = of_nat PIPESIZE - (pi_nwrite x - pi_nread x)"
    by simp
  have le: "pi_nwrite x - pi_nread x \<le> of_nat PIPESIZE"
    using ok by (simp add: pipe_ok_def pipe_len_def word_le_nat_alt PIPESIZE_def)
  show ?thesis unfolding eq unat_sub [OF le] by (simp add: pipe_len_def PIPESIZE_def)
qed

lemma pipe_full_iff: "pipe_ok x \<Longrightarrow> pipe_full x \<longleftrightarrow> pipe_len x = PIPESIZE"
proof
  assume "pipe_ok x" "pipe_full x"
  then have "pi_nwrite x - pi_nread x = of_nat PIPESIZE" by (simp add: pipe_full_def)
  then show "pipe_len x = PIPESIZE" by (simp add: pipe_len_def PIPESIZE_def)
next
  assume "pipe_ok x" "pipe_len x = PIPESIZE"
  then have "pi_nwrite x - pi_nread x = of_nat PIPESIZE"
    by (simp add: pipe_len_def word_unat_eq_iff PIPESIZE_def)
  then show "pipe_full x" by (simp add: pipe_full_def algebra_simps)
qed

lemma pipe_len_put:
  assumes "pipe_len x + length xs \<le> PIPESIZE"
  shows "pipe_len (put_chunk xs x) = pipe_len x + length xs"
proof -
  have eq: "pi_nwrite x + of_nat (length xs) - pi_nread x = (pi_nwrite x - pi_nread x) + of_nat (length xs)"
    by simp
  have "unat ((pi_nwrite x - pi_nread x) + of_nat (length xs)) = pipe_len x + length xs"
    using assms by (simp add: unat_word_ariths unat_of_nat pipe_len_def PIPESIZE_def)
  then show ?thesis unfolding eq [symmetric] by (simp add: pipe_len_def put_chunk_def)
qed

lemma ring_index_apart:
  fixes a j l t N :: nat
  assumes "j < l" "l + t < N"
  shows "(a + j) mod N \<noteq> (a + (l + t)) mod N"
proof
  assume eq: "(a + j) mod N = (a + (l + t)) mod N"
  have "N dvd (a + (l + t)) - (a + j)"
    using eq assms(1) by (metis mod_eq_dvd_iff_nat add_le_cancel_left less_imp_le_nat trans_le_add1)
  then have "N dvd l + t - j" by simp
  moreover have "0 < l + t - j" "l + t - j < N" using assms by auto
  ultimately show False by (auto dest: nat_dvd_not_less)
qed

lemma put_chunk_seq:
  assumes ok: "pipe_ok x" and n: "length xs \<le> write_size x rem"
  shows "pipe_ok (put_chunk xs x)" "pipe_seq (put_chunk xs x) = pipe_seq x @ xs"
proof -
  let ?p = "unat (pi_nwrite x) mod PIPESIZE" and ?l = "pipe_len x"
  have lt: "?p < PIPESIZE" by simp
  have "length xs \<le> PIPESIZE - ?l" "length xs \<le> PIPESIZE - ?p" "?l \<le> PIPESIZE"
    using n ok pipe_free [OF ok] by (auto simp: write_size_def pipe_ok_def)
  with lt have room: "?l + length xs \<le> PIPESIZE" and fit: "?p + length xs \<le> PIPESIZE"
    by linarith+
  have len: "length (pi_data x) = PIPESIZE" using ok by (simp add: pipe_ok_def)
  note pl = pipe_len_put [OF room]
  have rd: "pi_nread (put_chunk xs x) = pi_nread x" "pi_data (put_chunk xs x) = splice ?p xs (pi_data x)"
    by (simp_all add: put_chunk_def)
  show "pipe_ok (put_chunk xs x)"
    using room fit len by (simp add: pipe_ok_def pl rd(2))
  have old: "splice ?p xs (pi_data x) ! ((unat (pi_nread x) + j) mod PIPESIZE) =
      pi_data x ! ((unat (pi_nread x) + j) mod PIPESIZE)" if j: "j < ?l" for j
  proof -
    have "\<not> (?p \<le> (unat (pi_nread x) + j) mod PIPESIZE \<and>
        (unat (pi_nread x) + j) mod PIPESIZE < ?p + length xs)"
    proof
      assume a: "?p \<le> (unat (pi_nread x) + j) mod PIPESIZE \<and>
        (unat (pi_nread x) + j) mod PIPESIZE < ?p + length xs"
      define t where "t = (unat (pi_nread x) + j) mod PIPESIZE - ?p"
      have t: "t < length xs" "(unat (pi_nread x) + j) mod PIPESIZE = ?p + t" using a by (auto simp: t_def)
      have "?p + t = (?p + t) mod PIPESIZE" using fit t(1) by simp
      also have "\<dots> = (unat (pi_nread x) + (?l + t)) mod PIPESIZE"
        unfolding write_pos by (simp add: mod_simps add.assoc)
      finally show False using ring_index_apart [OF j, of t PIPESIZE "unat (pi_nread x)"] room t by simp
    qed
    then show ?thesis using fit len by (subst nth_splice) auto
  qed
  have new: "splice ?p xs (pi_data x) ! ((unat (pi_nread x) + (?l + t)) mod PIPESIZE) = xs ! t"
    if t: "t < length xs" for t
  proof -
    have "(unat (pi_nread x) + (?l + t)) mod PIPESIZE = (?p + t) mod PIPESIZE"
      unfolding write_pos by (simp add: mod_simps add.assoc)
    also have "\<dots> = ?p + t" using fit t by simp
    finally show ?thesis using fit len t by (simp add: nth_splice)
  qed
  show "pipe_seq (put_chunk xs x) = pipe_seq x @ xs"
  proof (rule nth_equalityI)
    show "length (pipe_seq (put_chunk xs x)) = length (pipe_seq x @ xs)" by (simp add: pl)
    fix j
    assume "j < length (pipe_seq (put_chunk xs x))"
    then have j: "j < ?l + length xs" by (simp add: pl)
    show "pipe_seq (put_chunk xs x) ! j = (pipe_seq x @ xs) ! j"
    proof (cases "j < ?l")
      case True
      then show ?thesis using old [OF True] j by (simp add: pipe_seq_def pl rd nth_append)
    next
      case False
      then obtain t where t: "j = ?l + t" "t < length xs" using j by (metis add_less_cancel_left le_add_diff_inverse not_less)
      show ?thesis using new [OF t(2)] j unfolding t(1) by (simp add: pipe_seq_def pl rd nth_append)
    qed
  qed
qed

section \<open>One round of reading\<close>

lemma get_chunk_seq:
  assumes ok: "pipe_ok x" and n: "n \<le> read_size x rem"
  shows "fst (get_chunk n x) = take n (pipe_seq x)" "pipe_ok (snd (get_chunk n x))"
    "pipe_seq (snd (get_chunk n x)) = drop n (pipe_seq x)"
proof -
  let ?r = "unat (pi_nread x) mod PIPESIZE"
  have lt: "?r < PIPESIZE" by simp
  have l: "n \<le> pipe_len x" and "n \<le> PIPESIZE - ?r"
    using n by (auto simp: read_size_def pipe_len_def)
  with lt have fit: "?r + n \<le> PIPESIZE" by linarith
  have len: "length (pi_data x) = PIPESIZE" and le: "pipe_len x \<le> PIPESIZE" using ok by (simp_all add: pipe_ok_def)
  have pl: "pipe_len (snd (get_chunk n x)) = pipe_len x - n"
  proof -
    have eq: "pi_nwrite x - (pi_nread x + of_nat n) = (pi_nwrite x - pi_nread x) - of_nat n" by simp
    have nn: "unat (of_nat n :: u32) = n" using l le by (simp add: unat_of_nat PIPESIZE_def)
    have "of_nat n \<le> pi_nwrite x - pi_nread x"
      using l by (simp add: word_le_nat_alt nn pipe_len_def)
    from unat_sub [OF this] show ?thesis by (simp add: pipe_len_def get_chunk_def eq nn)
  qed
  show "fst (get_chunk n x) = take n (pipe_seq x)"
  proof (rule nth_equalityI)
    show "length (fst (get_chunk n x)) = length (take n (pipe_seq x))"
      using fit len l by (simp add: get_chunk_def)
    fix j
    assume "j < length (fst (get_chunk n x))"
    then have j: "j < n" using fit len by (simp add: get_chunk_def)
    have "(unat (pi_nread x) + j) mod PIPESIZE = (?r + j) mod PIPESIZE" by (simp add: mod_simps)
    then have "(unat (pi_nread x) + j) mod PIPESIZE = ?r + j" using fit j by simp
    then show "fst (get_chunk n x) ! j = take n (pipe_seq x) ! j"
      using fit len l j by (simp add: get_chunk_def nth_slice pipe_seq_def)
  qed
  show "pipe_ok (snd (get_chunk n x))"
    using len le by (simp add: pipe_ok_def pl) (simp add: get_chunk_def)
  show "pipe_seq (snd (get_chunk n x)) = drop n (pipe_seq x)"
  proof (rule nth_equalityI)
    show "length (pipe_seq (snd (get_chunk n x))) = length (drop n (pipe_seq x))" by (simp add: pl)
    fix j
    assume "j < length (pipe_seq (snd (get_chunk n x)))"
    then have j: "n + j < pipe_len x" using l by (simp add: pl)
    have "(unat (pi_nread x + of_nat n) + j) mod PIPESIZE = (unat (pi_nread x) + (n + j)) mod PIPESIZE"
      using unat_plus_mod [of "pi_nread x" n] by (metis mod_add_left_eq add.assoc)
    then show "pipe_seq (snd (get_chunk n x)) ! j = drop n (pipe_seq x) ! j"
      using j l by (simp add: pipe_seq_def pl) (simp add: get_chunk_def)
  qed
qed

section \<open>A pipe is a queue\<close>

text \<open>One byte at a time, a pipe meets the contract of \<open>Prelude.fifo\<close>.\<close>

definition push_byte :: "pipe \<Rightarrow> u8 \<Rightarrow> pipe option" where
  "push_byte x b = (if pipe_full x then None else Some (put_chunk [b] x))"

definition pop_byte :: "pipe \<Rightarrow> u8 option \<times> pipe" where
  "pop_byte x = (if pi_nread x = pi_nwrite x then (None, x)
     else let (xs, x') = get_chunk 1 x in (Some (hd xs), x'))"

lemma pipe_len_0: "pipe_len x = 0 \<longleftrightarrow> pi_nread x = pi_nwrite x"
  by (auto simp: pipe_len_def unat_eq_0)

lemma pipe_seq_Nil: "pipe_seq x = [] \<longleftrightarrow> pi_nread x = pi_nwrite x"
  using pipe_len_0 [of x] by (metis length_0_conv length_pipe_seq)

interpretation pipe_q: fifo pipe_ok pipe_seq "\<lambda>x. \<not> pipe_full x" push_byte pop_byte
proof
  fix x and b :: u8
  assume "pipe_ok x" "\<not> pipe_full x"
  moreover from this(2) have "length [b] \<le> write_size x 1" using write_size_pos [of 1 x] by simp
  ultimately show "\<exists>x'. push_byte x b = Some x' \<and> pipe_ok x' \<and> pipe_seq x' = pipe_seq x @ [b]"
    using put_chunk_seq [of x "[b]" 1] by (simp add: push_byte_def)
next
  fix x
  assume ok: "pipe_ok x"
  show "case pipe_seq x of [] \<Rightarrow> pop_byte x = (None, x)
    | b # xs \<Rightarrow> \<exists>x'. pop_byte x = (Some b, x') \<and> pipe_ok x' \<and> pipe_seq x' = xs"
  proof (cases "pipe_seq x")
    case Nil
    then show ?thesis using pipe_seq_Nil [of x] by (simp add: pop_byte_def)
  next
    case (Cons b xs)
    then have ne: "pi_nread x \<noteq> pi_nwrite x" using pipe_seq_Nil [of x] by simp
    then have "1 \<le> read_size x 1" using read_size_pos [of 1 x] by simp
    from get_chunk_seq [OF ok this] Cons ne show ?thesis by (simp add: pop_byte_def split_def)
  qed
qed

section \<open>The loops\<close>

lemma copyin_result: "copyin pt va n s = (r, xs) \<Longrightarrow> r = 0 \<and> length xs = n \<or> r = - 1"
proof (induction pt va n s arbitrary: r xs rule: copyin.induct)
  case (1 pt va n s)
  show ?case
  proof (cases "n = 0 \<or> walkaddr pt (PGROUNDDOWN va) s = 0")
    case True
    then show ?thesis using 1(2) by (subst (asm) copyin.simps) (auto simp: Let_def split: if_splits)
  next
    case False
    define c where "c = chunk va n"
    obtain r' ys where rec: "copyin pt (PGROUNDDOWN va + PGSIZE) (n - c) s = (r', ys)" by fastforce
    have "r' = 0 \<and> length ys = n - c \<or> r' = - 1"
      using 1(1) [OF _ refl refl _ refl, of r' ys] rec False by (simp add: c_def)
    moreover have "c \<le> n" by (simp add: c_def chunk_size)
    moreover have "copyin pt va n s = (r', read_bytes (mem s)
        (walkaddr pt (PGROUNDDOWN va) s + (va - PGROUNDDOWN va)) c @ ys)"
      by (subst copyin.simps) (use False rec in \<open>simp add: Let_def flip: c_def\<close>)
    then have "r = r'" "length xs = c + length ys"
      using 1(2) by (auto simp: read_bytes_def)
    ultimately show ?thesis by auto
  qed
qed

lemma pipes_map_pipe [simp]: "pipes (map_pipe pi f k) = (pipes k)(pi := f (pipes k pi))"
  by (simp add: map_pipe_def)

lemma fetch_task_more: "fetch_task k = Some (t, k') \<Longrightarrow> kern.more k' = kern.more k"
  by (auto simp: fetch_task_def Let_def map_proc_def split: if_splits option.splits prod.splits bind_splits)

lemma scheduler_more:
  assumes "scheduler k = Some k'"
  shows "kern.more k' = kern.more k"
proof (rule scheduler.raw_induct [where P = "\<lambda>k k'. kern.more k' = kern.more k", OF _ assms])
  fix f and k k' :: "'a kern_scheme"
  assume IH: "\<And>k k'. f k = Some k' \<Longrightarrow> kern.more k' = kern.more k"
    and eq: "(case fetch_task k of None \<Rightarrow> None | Some (None, k') \<Rightarrow> None
      | Some (Some t, k') \<Rightarrow> if th_state (the_thread k' t) \<noteq> RUNNABLE then f k'
          else Some ((set_state t RUNNING k')\<lparr>current := Some t\<rparr>)) = Some k'"
  then obtain t k1 where "fetch_task k = Some (Some t, k1)" "kern.more k' = kern.more k1"
    by (auto simp: set_state_def map_thread_def map_proc_def split: option.splits prod.splits if_splits)
  then show "kern.more k' = kern.more k" using fetch_task_more [of k "Some t" k1] by simp
qed

lemma yield_more: "yield k = Some k' \<Longrightarrow> kern.more k' = kern.more k"
  by (auto simp: yield_def sched_def add_task_def set_state_def map_thread_def map_proc_def
      split: option.splits bind_splits if_splits dest!: scheduler_more)

lemma more_fs_fields:
  assumes "kern.more (k' :: 'a fs_kern_scheme) = kern.more k"
  shows "pipes k' = pipes k" "filepool k' = filepool k" "itable k' = itable k" "disk k' = disk k"
    "bufs k' = bufs k" "lru k' = lru k" "sb k' = sb k"
  using assms by (cases k; cases k'; simp)+

text \<open>What a call of \<^verbatim>\<open>pipewrite\<close> on a pipe with a reader has done when it returns or stops: it
  appended bytes, all of them if it returns, and it stops only at a full pipe.\<close>

definition wrote :: "nat \<Rightarrow> u64 \<Rightarrow> u64 \<Rightarrow> int \<Rightarrow> int \<Rightarrow> pipe \<Rightarrow> int + pipe_resume \<Rightarrow> pipe \<Rightarrow> bool" where
  "wrote p pi addr n w x out x' \<longleftrightarrow> (\<exists>xs. pipe_ok x' \<and> pi_readopen x' \<and> pipe_seq x' = pipe_seq x @ xs \<and>
     (out = Inl n \<and> int (length xs) = n - w \<or>
      out = Inr (Pipe_writing p pi addr n (w + int (length xs))) \<and> w + int (length xs) < n \<and>
        pipe_len x' = PIPESIZE))"

lemma wroteI:
  "pipe_ok x' \<Longrightarrow> pi_readopen x' \<Longrightarrow> pipe_seq x' = pipe_seq x @ xs \<Longrightarrow>
   (out = Inl n \<and> int (length xs) = n - w \<or>
    out = Inr (Pipe_writing p pi addr n (w + int (length xs))) \<and> w + int (length xs) < n \<and>
      pipe_len x' = PIPESIZE) \<Longrightarrow> wrote p pi addr n w x out x'"
  unfolding wrote_def by blast

lemma wrote_step:
  assumes "wrote p pi addr n (w + int (length xs)) y out x'" "pipe_seq y = pipe_seq x @ xs"
  shows "wrote p pi addr n w x out x'"
proof -
  from assms(1) obtain ys where ys: "pipe_ok x'" "pi_readopen x'" "pipe_seq x' = pipe_seq y @ ys"
      "out = Inl n \<and> int (length ys) = n - (w + int (length xs)) \<or>
       out = Inr (Pipe_writing p pi addr n (w + int (length xs) + int (length ys))) \<and>
         w + int (length xs) + int (length ys) < n \<and> pipe_len x' = PIPESIZE"
    unfolding wrote_def by blast
  have "pipe_seq x' = pipe_seq x @ (xs @ ys)" using ys(3) assms(2) by simp
  then show ?thesis
    by (rule wroteI [OF ys(1,2)]) (use ys(4) in \<open>auto simp: algebra_simps\<close>)
qed

lemma pipewrite_from_ok:
  assumes "pipewrite_from p pi addr n w k = Some (out, k')" "pipe_ok (pipes k pi)" "pi_readopen (pipes k pi)" "w \<le> n"
  shows "wrote p pi addr n w (pipes k pi) out (pipes k' pi)"
  using assms
proof (induction p pi addr n w k rule: pipewrite_from.induct)
  case (1 p pi addr n w k)
  let ?x = "pipes k pi"
  note run = 1(2) [unfolded pipewrite_from.simps [of p pi addr n w k]]
  show ?case
  proof (cases "w < n")
    case False
    then have "out = Inl w" "k' = k" "w = n" using run 1(5) by simp_all
    then show ?thesis using 1(3,4) by (intro wroteI [of _ _ "[]"]) simp_all
  next
    case lt: True
    show ?thesis
    proof (cases "pipe_full ?x")
      case True
      then obtain k1 where "yield k = Some k1" "out = Inr (Pipe_writing p pi addr n w)" "k' = k1"
        using run lt 1(4) by (auto simp: Let_def split: bind_splits)
      moreover from this have "pipes k' = pipes k" using yield_more more_fs_fields(1) by blast
      ultimately show ?thesis
        using 1(3,4) True lt by (intro wroteI [of _ _ "[]"]) (simp_all add: pipe_full_iff)
    next
      case notfull: False
      let ?sz = "write_size ?x (nat (n - w))"
      obtain r xs where c: "copyin (p_pagetable (the_proc k p)) (addr + word_of_int w) ?sz k = (r, xs)"
        by fastforce
      have go: "\<not> r < 0" "pipewrite_from p pi addr n (w + int ?sz) (map_pipe pi (put_chunk xs) k) = Some (out, k')"
        using run lt notfull 1(4) c by (auto simp: Let_def split: if_splits)
      then have len: "length xs = ?sz" using copyin_result [OF c] by auto
      note put = put_chunk_seq [OF 1(3), of xs "nat (n - w)", unfolded len, OF order_refl]
      have le: "w + int ?sz \<le> n" using write_size_le [of ?x "nat (n - w)"] lt by linarith
      have "wrote p pi addr n (w + int ?sz) (put_chunk xs ?x) out (pipes k' pi)"
        using 1(1) [OF lt refl _ notfull refl c [symmetric] refl go(1) go(2)] put 1(4) le
        by (simp add: put_chunk_def)
      then show ?thesis
        using wrote_step [of p pi addr n w xs "put_chunk xs ?x" out "pipes k' pi" ?x] put(2) len by simp
    qed
  qed
qed

lemma piperead_copy_ok:
  assumes "piperead_copy p pi addr n r k = Some (r', k')" "pipe_ok (pipes k pi)" "r \<le> n"
  shows "pipe_ok (pipes k' pi) \<and> r' = r + int (min (nat (n - r)) (pipe_len (pipes k pi))) \<and>
    pipe_seq (pipes k' pi) = drop (nat (r' - r)) (pipe_seq (pipes k pi)) \<and>
    pi_writeopen (pipes k' pi) = pi_writeopen (pipes k pi)"
  using assms
proof (induction p pi addr n r k rule: piperead_copy.induct)
  case (1 p pi addr n r k)
  let ?x = "pipes k pi"
  note run = 1(2) [unfolded piperead_copy.simps [of p pi addr n r k]]
  show ?case
  proof (cases "r < n \<and> pi_nread ?x \<noteq> pi_nwrite ?x")
    case False
    then have "r' = r" "k' = k" using run by (auto simp: Let_def split: if_splits)
    with False 1(3,4) pipe_len_0 [of ?x] show ?thesis by auto
  next
    case True
    let ?sz = "read_size ?x (nat (n - r))"
    obtain xs x' where g: "get_chunk ?sz ?x = (xs, x')" by fastforce
    obtain e k1 where c: "copyout (p_pagetable (the_proc k p)) (addr + word_of_int r) xs k = (e, k1)"
      by fastforce
    have go: "\<not> e < 0" "piperead_copy p pi addr n (r + int ?sz) (map_pipe pi (\<lambda>_. x') k1) = Some (r', k')"
      using run True g c by (auto simp: Let_def split: if_splits)
    note gc = get_chunk_seq [OF 1(3) order_refl, of "nat (n - r)", unfolded g, simplified]
    have sz: "?sz \<le> nat (n - r)" "?sz \<le> pipe_len ?x"
      by (auto simp: read_size_def pipe_len_def)
    have len: "pipe_len x' = pipe_len ?x - ?sz"
      using gc(3) by (metis length_pipe_seq length_drop)
    have wo: "pi_writeopen x' = pi_writeopen ?x" using g by (auto simp: get_chunk_def)
    have le: "r + int ?sz \<le> n" using sz(1) True by linarith
    from 1(1) [of ?x ?sz _ xs x' _ e k1] True g c go gc(2) le
    have IH: "pipe_ok (pipes k' pi) \<and>
        r' = r + int ?sz + int (min (nat (n - (r + int ?sz))) (pipe_len x')) \<and>
        pipe_seq (pipes k' pi) = drop (nat (r' - (r + int ?sz))) (pipe_seq x') \<and>
        pi_writeopen (pipes k' pi) = pi_writeopen x'"
      by simp
    have "r' = r + int (min (nat (n - r)) (pipe_len ?x))"
      using IH len sz le by (auto simp: min_def)
    moreover have sum: "nat (r' - (r + int ?sz)) + ?sz = nat (r' - r)" using IH by linarith
    have "pipe_seq (pipes k' pi) = drop (nat (r' - r)) (pipe_seq ?x)"
      using IH unfolding gc(3) drop_drop sum by blast
    ultimately show ?thesis using IH wo by simp
  qed
qed

end
