(* ===== verification/PipeProps.thy ===== *)
theory PipeProps
  imports PipeSpec FileProps
begin

text \<open>
  The properties of pipes, and a kernel state in which a process with one mapped page writes
  to a pipe whose counters are about to wrap around.
\<close>

lemma walk_from_mem: "mem s = mem s' \<Longrightarrow> fst (walk_from l p va False s) = fst (walk_from l p va False s')"
  by (induction l arbitrary: p) (simp_all add: Let_def)

lemma walkaddr_mem: "mem s = mem s' \<Longrightarrow> walkaddr pt va s = walkaddr pt va s'"
  using walk_from_mem [of s s' 2 pt va] by (simp add: walkaddr_def Let_def)

definition demo_pipe :: pipe where
  "demo_pipe = \<lparr>pi_data = replicate 512 7, pi_nread = 0xFFFFFFFD, pi_nwrite = 0xFFFFFFFE,
     pi_readopen = True, pi_writeopen = True\<rparr>"

definition demo_writer :: fs_kern where
  "demo_writer = demo_fs\<lparr>mem := mem demo_user, pool := [zero_proc\<lparr>p_pagetable := demo_root\<rparr>],
     pipes := (\<lambda>_. demo_pipe)\<rparr>"

lemma demo_pipe_ok [simp]: "pipe_ok demo_pipe" "pi_readopen demo_pipe" "pi_writeopen demo_pipe"
  by (simp_all add: pipe_ok_def pipe_len_def demo_pipe_def PIPESIZE_def)

lemma demo_pipe_len: "pipe_len demo_pipe = 1"
  by (simp add: pipe_len_def demo_pipe_def)

lemma demo_writer_fields:
  "pipes demo_writer pi = demo_pipe" "curr_proc demo_writer = 0"
  "p_pagetable (the_proc demo_writer 0) = demo_root" "mem demo_writer = mem demo_user"
  by (simp_all add: demo_writer_def demo_fs_def curr_proc_def the_proc_def)

lemma demo_copyin:
  fixes k :: "'a phys_scheme"
  assumes "mem k = mem demo_user" "in_one_page va n" "PGROUNDDOWN va = 0x1000"
  obtains xs where "copyin demo_root va n k = (0, xs)" "length xs = n"
proof -
  have "walkaddr demo_root 0x1000 k = walkaddr demo_root 0x1000 demo_user"
    by (rule walkaddr_mem) (rule assms(1))
  also have "\<dots> = 0x80403000"
    using walkaddr_map [OF demo_user_ok, of "0x1000"] demo_user_map
    by (simp add: MAXVA_def demo_user_entries)
  finally have "walkaddr demo_root (PGROUNDDOWN va) k \<noteq> 0" unfolding assms(3) by simp
  from copyin_one_page [OF assms(2) this] show thesis by (rule that) (simp add: read_bytes_def)
qed

lemma demo_pages:
  "PGROUNDDOWN 0x1010 = 0x1000" "PGROUNDDOWN 0x1012 = 0x1000" "in_one_page 0x1010 2" "in_one_page 0x1012 (Suc 0)"
  by (simp_all add: PGROUNDDOWN_def PGSIZE_def in_one_page_def)

lemma demo_sizes:
  "write_size demo_pipe 3 = 2" "length xs = 2 \<Longrightarrow> write_size (put_chunk xs demo_pipe) (Suc 0) = 1"
  "\<not> pipe_full demo_pipe" "length xs = 2 \<Longrightarrow> \<not> pipe_full (put_chunk xs demo_pipe)"
  by (simp_all add: write_size_def demo_pipe_def PIPESIZE_def put_chunk_def pipe_full_def)

lemma demo_write_runs: "\<exists>out k'. pipewrite 0 0x1010 3 demo_writer = Some (out, k')"
proof -
  obtain xs where xs: "copyin demo_root 0x1010 2 demo_writer = (0, xs)" "length xs = 2"
    by (rule demo_copyin [of demo_writer "0x1010" 2]) (simp_all add: demo_writer_fields demo_pages)
  let ?k = "map_pipe 0 (put_chunk xs) demo_writer"
  have k: "the_proc ?k 0 = the_proc demo_writer 0" "pipes ?k 0 = put_chunk xs demo_pipe" "mem ?k = mem demo_user"
    by (simp_all add: map_pipe_def the_proc_def demo_writer_fields)
  obtain ys where ys: "copyin demo_root 0x1012 1 ?k = (0, ys)"
    by (rule demo_copyin [of ?k "0x1012" 1]) (simp_all add: k demo_pages)
  have open_pipe: "pi_readopen (put_chunk xs demo_pipe)" by (simp add: put_chunk_def)
  have "pipewrite_from 0 0 0x1010 3 2 ?k = pipewrite_from 0 0 0x1010 3 3 (map_pipe 0 (put_chunk ys) ?k)"
    using xs(2) open_pipe ys
    by (subst pipewrite_from.simps) (simp add: k demo_writer_fields demo_sizes Let_def)
  also have "\<dots> = Some (Inl 3, map_pipe 0 (put_chunk ys) ?k)"
    by (subst pipewrite_from.simps) simp
  finally have second: "pipewrite_from 0 0 0x1010 3 2 ?k = Some (Inl 3, map_pipe 0 (put_chunk ys) ?k)" .
  have "pipewrite 0 0x1010 3 demo_writer = pipewrite_from 0 0 0x1010 3 2 ?k"
    unfolding pipewrite_def
    by (subst pipewrite_from.simps) (simp add: demo_writer_fields demo_sizes xs Let_def)
  with second show ?thesis by simp
qed

section \<open>Properties\<close>





end
