(* ===== verification/NetUtil.thy ===== *)
theory NetUtil
  imports Bytes
begin

text \<open>
  \<^verbatim>\<open>net/util.c\<close> and \<^verbatim>\<open>net/platform.c\<close>: queues, byte order, number parsing, time and random
  numbers of the network stack. \<open>plat\<close> is the state of the platform layer: the number of
  free pages (all the stack relies on of the page allocator: \<^verbatim>\<open>memory_alloc\<close> takes one whole
  page and fails when none is left), the value of the cycle counter (constant within one
  operation; it moves between operations), the random seed, the pending software interrupts
  and the error number. C strings are lists of characters up to the NUL.
  The locks of \<^verbatim>\<open>platform.h\<close> are not part of the state: with one hart each critical section
  is one step of the model.
\<close>

section \<open>Platform\<close>

record plat =
  n_pages :: nat
  n_clock :: u64
  n_seed :: u32
  n_pending :: u32
  n_errno :: int

definition INTR_IRQ_SOFTIRQ :: u32 where "INTR_IRQ_SOFTIRQ = 0x01"
definition INTR_IRQ_EVENT :: u32 where "INTR_IRQ_EVENT = 0x02"
definition EINTR :: int where "EINTR = 4"
definition PAGE_BYTES :: nat where "PAGE_BYTES = 4096"

definition memory_alloc :: "nat \<Rightarrow> 'a plat_scheme \<Rightarrow> bool \<times> 'a plat_scheme" where
  "memory_alloc n s = (if PAGE_BYTES < n \<or> n_pages s = 0 then (False, s)
     else (True, s\<lparr>n_pages := n_pages s - 1\<rparr>))"

definition memory_free :: "'a plat_scheme \<Rightarrow> 'a plat_scheme" where
  "memory_free s = s\<lparr>n_pages := n_pages s + 1\<rparr>"

definition intr_raise_irq :: "u32 \<Rightarrow> 'a plat_scheme \<Rightarrow> 'a plat_scheme" where
  "intr_raise_irq irq s = s\<lparr>n_pending := n_pending s OR irq\<rparr>"

definition srand :: "u32 \<Rightarrow> 'a plat_scheme \<Rightarrow> 'a plat_scheme" where
  "srand seed s = s\<lparr>n_seed := seed\<rparr>"

definition random :: "'a plat_scheme \<Rightarrow> u32 \<times> 'a plat_scheme" where
  "random s = (let v = (n_seed s * 1103515245 + 12345) mod 0x7fffffff in (v, s\<lparr>n_seed := v\<rparr>))"

definition net_platform_init :: "'a plat_scheme \<Rightarrow> 'a plat_scheme" where
  "net_platform_init s = srand (ucast (n_clock s)) (s\<lparr>n_pending := 0\<rparr>)"

subsection \<open>Time\<close>

record timeval =
  tv_sec :: int
  tv_usec :: int

definition gettimeofday :: "'a plat_scheme \<Rightarrow> timeval" where
  "gettimeofday s = \<lparr>tv_sec = uint (n_clock s div 10000000), tv_usec = uint (n_clock s mod 10000000 div 10)\<rparr>"

definition timersub :: "timeval \<Rightarrow> timeval \<Rightarrow> timeval" where
  "timersub a b = (let sec = tv_sec a - tv_sec b; usec = tv_usec a - tv_usec b in
     if usec < 0 then \<lparr>tv_sec = sec - 1, tv_usec = usec + 1000 * 1000\<rparr>
     else \<lparr>tv_sec = sec, tv_usec = usec\<rparr>)"

definition timerclear :: timeval where
  "timerclear = \<lparr>tv_sec = 0, tv_usec = 0\<rparr>"

text \<open>The macro of \<^verbatim>\<open>util.h\<close>, which hides the function of \<^verbatim>\<open>platform.h\<close>.\<close>

definition timeval_add_usec :: "timeval \<Rightarrow> u32 \<Rightarrow> timeval" where
  "timeval_add_usec x y = (let sec = tv_sec x + uint (y div 1000000); usec = tv_usec x + uint (y mod 1000000) in
     if 1000000 \<le> usec then \<lparr>tv_sec = sec + 1, tv_usec = usec - 1000000\<rparr>
     else \<lparr>tv_sec = sec, tv_usec = usec\<rparr>)"

text \<open>\<^verbatim>\<open>timercmp(a, b, <)\<close>\<close>

definition timer_less :: "timeval \<Rightarrow> timeval \<Rightarrow> bool" where
  "timer_less a b \<longleftrightarrow> (if tv_sec a = tv_sec b then tv_usec a < tv_usec b else tv_sec a < tv_sec b)"

section \<open>Byte order\<close>

definition BIG_ENDIAN :: int where "BIG_ENDIAN = 4321"
definition LITTLE_ENDIAN :: int where "LITTLE_ENDIAN = 1234"

text \<open>The first byte in memory of the word 1, on the little-endian machine.\<close>

definition byteorder :: int where
  "byteorder = (if le_bytes 4 (1 :: u32) ! 0 \<noteq> 0 then LITTLE_ENDIAN else BIG_ENDIAN)"

definition byteswap16 :: "u16 \<Rightarrow> u16" where
  "byteswap16 v = push_bit 8 (v AND 0x00ff) OR drop_bit 8 (v AND 0xff00)"

definition byteswap32 :: "u32 \<Rightarrow> u32" where
  "byteswap32 v = push_bit 24 (v AND 0x000000ff) OR push_bit 8 (v AND 0x0000ff00) OR
     drop_bit 8 (v AND 0x00ff0000) OR drop_bit 24 (v AND 0xff000000)"

definition hton16 :: "u16 \<Rightarrow> u16" where
  "hton16 h = (if byteorder = LITTLE_ENDIAN then byteswap16 h else h)"

definition ntoh16 :: "u16 \<Rightarrow> u16" where
  "ntoh16 n = (if byteorder = LITTLE_ENDIAN then byteswap16 n else n)"

definition hton32 :: "u32 \<Rightarrow> u32" where
  "hton32 h = (if byteorder = LITTLE_ENDIAN then byteswap32 h else h)"

definition ntoh32 :: "u32 \<Rightarrow> u32" where
  "ntoh32 n = (if byteorder = LITTLE_ENDIAN then byteswap32 n else n)"

lemma byteorder_little [simp]: "byteorder = LITTLE_ENDIAN"
  by (simp add: byteorder_def le_bytes_def)

text \<open>Masks of the swaps as shifted runs of ones.\<close>

lemma swap_masks:
  "(0x00ff :: u16) = mask 8" "(0xff00 :: u16) = push_bit 8 (mask 8)"
  "(0x000000ff :: u32) = mask 8" "(0x0000ff00 :: u32) = push_bit 8 (mask 8)"
  "(0x00ff0000 :: u32) = push_bit 16 (mask 8)" "(0xff000000 :: u32) = push_bit 24 (mask 8)"
  by (simp_all add: mask_eq_exp_minus_1 push_bit_eq_mult)

lemma bit_byteswap16: "bit (byteswap16 v) i \<longleftrightarrow> i < 16 \<and> bit v (if i < 8 then i + 8 else i - 8)"
  unfolding byteswap16_def swap_masks
  using bit_imp_le_length [of v "i + 8"] by (auto simp: bit_simps add.commute)

lemma bit_byteswap32: "bit (byteswap32 v) i \<longleftrightarrow> i < 32 \<and>
    bit v (if i < 8 then i + 24 else if i < 16 then i + 8 else if i < 24 then i - 8 else i - 24)"
proof -
  have "\<not> bit v (i + 24)" if "8 \<le> i" using bit_imp_le_length [of v "i + 24"] that by auto
  moreover have "\<not> bit v (i + 8)" if "24 \<le> i" using bit_imp_le_length [of v "i + 8"] that by auto
  ultimately show ?thesis unfolding byteswap32_def swap_masks by (auto simp: bit_simps add.commute)
qed

lemma byteswap_involution [simp]: "byteswap16 (byteswap16 v) = v" "byteswap32 (byteswap32 w) = w"
proof -
  show "byteswap16 (byteswap16 v) = v"
    by (rule bit_word_eqI) (auto simp: bit_byteswap16)
  show "byteswap32 (byteswap32 w) = w"
    by (rule bit_word_eqI) (auto simp: bit_byteswap32)
qed

lemma ntoh_hton [simp]: "ntoh16 (hton16 v) = v" "ntoh32 (hton32 w) = w"
  by (simp_all add: ntoh16_def hton16_def ntoh32_def hton32_def)

text \<open>The bytes of a converted word, as they stand in a packet, are in big-endian order.\<close>

lemma two_bytes: "le_bytes 2 v = [ucast v, ucast (drop_bit 8 v)]"
  by (simp add: le_bytes_def upt_rec)

lemma hton16_bytes: "le_bytes 2 (hton16 v) = be_bytes 2 v"
proof -
  have "ucast (byteswap16 v) = (ucast (drop_bit 8 v) :: u8)" "ucast (drop_bit 8 (byteswap16 v)) = (ucast v :: u8)"
    by (rule bit_word_eqI, auto simp: bit_simps bit_byteswap16 add.commute)+
  then show ?thesis by (simp add: be_bytes_def two_bytes hton16_def)
qed

section \<open>Strings\<close>

definition char_at :: "u8 list \<Rightarrow> nat \<Rightarrow> u8" where
  "char_at s i = (if i < length s then s ! i else 0)"

fun skip_blanks :: "u8 list \<Rightarrow> u8 list" where
  "skip_blanks (c # s) = (if c = 32 \<or> c = 9 then skip_blanks s else c # s)"
| "skip_blanks [] = []"

text \<open>The value of a digit: 0-9, a-z, A-Z.\<close>

definition digit_value :: "u8 \<Rightarrow> int option" where
  "digit_value c =
     (if 48 \<le> c \<and> c \<le> 57 then Some (uint c - 48)
      else if 97 \<le> c \<and> c \<le> 122 then Some (uint c - 97 + 10)
      else if 65 \<le> c \<and> c \<le> 90 then Some (uint c - 65 + 10)
      else None)"

fun strtol_digits :: "int \<Rightarrow> int \<Rightarrow> u8 list \<Rightarrow> int \<times> u8 list" where
  "strtol_digits base v [] = (v, [])"
| "strtol_digits base v (c # s) = (case digit_value c of
     None \<Rightarrow> (v, c # s)
   | Some d \<Rightarrow> if base \<le> d then (v, c # s) else strtol_digits base (v * base + d) s)"

text \<open>The value and the rest of the string, where \<^verbatim>\<open>*endptr\<close> points.\<close>

definition strtol :: "u8 list \<Rightarrow> int \<Rightarrow> int \<times> u8 list" where
  "strtol s base = (let
     s = skip_blanks s;
     (neg, s) = (if char_at s 0 = 43 then (False, drop 1 s)
       else if char_at s 0 = 45 then (True, drop 1 s) else (False, s));
     (base, s) = (if (base = 0 \<or> base = 16) \<and> char_at s 0 = 48 \<and> char_at s 1 = 120 then (16, drop 2 s)
       else if base = 0 \<and> char_at s 0 = 48 then (8, drop 1 s)
       else if base = 0 then (10, s) else (base, s));
     (v, s) = strtol_digits base 0 s
   in (if neg then - v else v, s))"

text \<open>The position of the last \<open>ch\<close> in a string.\<close>

fun strrchr_from :: "nat \<Rightarrow> nat option \<Rightarrow> u8 \<Rightarrow> u8 list \<Rightarrow> nat option" where
  "strrchr_from i save ch [] = save"
| "strrchr_from i save ch (c # s) = strrchr_from (Suc i) (if c = ch then Some i else save) ch s"

definition strrchr :: "u8 list \<Rightarrow> u8 \<Rightarrow> nat option" where
  "strrchr s ch = strrchr_from 0 None ch s"

section \<open>Linked queues\<close>

text \<open>
  A queue is a chain of heap cells. \<open>lq_cells\<close> is the heap, \<open>lq_free\<close> the cells that
  \<^verbatim>\<open>memory_alloc\<close> can still hand out; a null pointer is \<open>None\<close>.
\<close>

record 'a queue_entry =
  qe_next :: "nat option"
  qe_data :: 'a

record 'a queue_head =
  lq_head :: "nat option"
  lq_tail :: "nat option"
  lq_num :: u32
  lq_cells :: "nat \<Rightarrow> 'a queue_entry"
  lq_free :: "nat list"

definition queue_init :: "'a queue_head \<Rightarrow> 'a queue_head" where
  "queue_init q = q\<lparr>lq_head := None, lq_tail := None, lq_num := 0\<rparr>"

definition queue_push :: "'a queue_head \<Rightarrow> 'a \<Rightarrow> 'a queue_head option" where
  "queue_push q d = (case lq_free q of
     [] \<Rightarrow> None
   | e # free \<Rightarrow> let
       cells = (lq_cells q)(e := \<lparr>qe_next = None, qe_data = d\<rparr>);
       cells = (case lq_tail q of Some t \<Rightarrow> cells(t := (cells t)\<lparr>qe_next := Some e\<rparr>) | None \<Rightarrow> cells)
     in Some (q\<lparr>lq_head := (if lq_head q = None then Some e else lq_head q), lq_tail := Some e,
          lq_num := lq_num q + 1, lq_cells := cells, lq_free := free\<rparr>))"

definition queue_pop :: "'a queue_head \<Rightarrow> 'a option \<times> 'a queue_head" where
  "queue_pop q = (case lq_head q of
     None \<Rightarrow> (None, q)
   | Some e \<Rightarrow> let nxt = qe_next (lq_cells q e) in
       (Some (qe_data (lq_cells q e)), q\<lparr>lq_head := nxt, lq_tail := (if nxt = None then None else lq_tail q),
          lq_num := lq_num q - 1, lq_free := e # lq_free q\<rparr>))"

definition queue_peek :: "'a queue_head \<Rightarrow> 'a option" where
  "queue_peek q = map_option (\<lambda>e. qe_data (lq_cells q e)) (lq_head q)"

text \<open>The chain from a pointer on, over at most \<open>n\<close> cells, and the content of a queue.\<close>

fun chain_from :: "nat \<Rightarrow> (nat \<Rightarrow> 'a queue_entry) \<Rightarrow> nat option \<Rightarrow> nat list" where
  "chain_from (Suc n) h (Some c) = c # chain_from n h (qe_next (h c))"
| "chain_from n h a = []"

definition queue_cells :: "'a queue_head \<Rightarrow> nat list" where
  "queue_cells q = chain_from (unat (lq_num q)) (lq_cells q) (lq_head q)"

definition queue_list :: "'a queue_head \<Rightarrow> 'a list" where
  "queue_list q = map (\<lambda>c. qe_data (lq_cells q c)) (queue_cells q)"

definition queue_foreach :: "('a \<Rightarrow> 's \<Rightarrow> 's) \<Rightarrow> 'a queue_head \<Rightarrow> 's \<Rightarrow> 's" where
  "queue_foreach f q s = fold f (queue_list q) s"

fun linked :: "(nat \<Rightarrow> 'a queue_entry) \<Rightarrow> nat option \<Rightarrow> nat list \<Rightarrow> bool" where
  "linked h a [] \<longleftrightarrow> a = None"
| "linked h a (c # cs) \<longleftrightarrow> a = Some c \<and> linked h (qe_next (h c)) cs"

definition lq_ok :: "'a queue_head \<Rightarrow> bool" where
  "lq_ok q \<longleftrightarrow> linked (lq_cells q) (lq_head q) (queue_cells q) \<and> length (queue_cells q) = unat (lq_num q) \<and>
     distinct (queue_cells q @ lq_free q) \<and>
     lq_tail q = (if queue_cells q = [] then None else Some (List.last (queue_cells q)))"

definition lq_room :: "'a queue_head \<Rightarrow> bool" where
  "lq_room q \<longleftrightarrow> lq_free q \<noteq> [] \<and> lq_num q + 1 \<noteq> 0"

lemma chain_linked: "linked h a cs \<Longrightarrow> chain_from (length cs) h a = cs"
  by (induction cs arbitrary: a) auto

lemma linked_upd: "c \<notin> set cs \<Longrightarrow> linked (h(c := e)) a cs \<longleftrightarrow> linked h a cs"
  by (induction cs arbitrary: a) auto

lemma linked_snoc:
  assumes "linked h a cs" "cs \<noteq> []" "distinct (cs @ [e])"
  shows "linked (h(e := \<lparr>qe_next = None, qe_data = d\<rparr>, List.last cs := (h (List.last cs))\<lparr>qe_next := Some e\<rparr>)) a (cs @ [e])"
  using assms
proof (induction cs arbitrary: a)
  case (Cons c cs)
  show ?case
  proof (cases "cs = []")
    case True
    with Cons.prems show ?thesis by auto
  next
    case False
    then have "List.last cs \<in> set cs" by simp
    with Cons.prems have "c \<noteq> List.last cs" "c \<noteq> e" by auto
    with False Cons show ?thesis by auto
  qed
qed simp

lemma lq_okI:
  assumes "linked (lq_cells q) (lq_head q) cs" "length cs = unat (lq_num q)" "distinct (cs @ lq_free q)"
    "lq_tail q = (if cs = [] then None else Some (List.last cs))"
  shows "lq_ok q \<and> queue_cells q = cs"
  using chain_linked [OF assms(1)] assms by (simp add: lq_ok_def queue_cells_def)

lemma lq_init_ok: "distinct (lq_free q) \<Longrightarrow> lq_ok (queue_init q) \<and> queue_list (queue_init q) = []"
  using lq_okI [of "queue_init q" "[]"] by (simp add: queue_init_def queue_list_def)

lemma queue_push_ok:
  assumes ok: "lq_ok q" and room: "lq_room q"
  shows "\<exists>q'. queue_push q d = Some q' \<and> lq_ok q' \<and> queue_list q' = queue_list q @ [d]"
proof -
  from room obtain e free where free: "lq_free q = e # free" by (cases "lq_free q") (auto simp: lq_room_def)
  let ?cs = "queue_cells q"
  let ?h = "(lq_cells q)(e := \<lparr>qe_next = None, qe_data = d\<rparr>)"
  let ?h' = "if ?cs = [] then ?h else ?h(List.last ?cs := (lq_cells q (List.last ?cs))\<lparr>qe_next := Some e\<rparr>)"
  have dist: "distinct (?cs @ e # free)" using ok free by (simp add: lq_ok_def)
  have head: "lq_head q = None \<longleftrightarrow> ?cs = []" using ok by (cases ?cs) (auto simp: lq_ok_def)
  have last_e: "?cs \<noteq> [] \<Longrightarrow> List.last ?cs \<noteq> e" using dist last_in_set [of ?cs] by auto
  let ?q = "q\<lparr>lq_head := (if ?cs = [] then Some e else lq_head q), lq_tail := Some e, lq_num := lq_num q + 1,
    lq_cells := ?h', lq_free := free\<rparr>"
  have push: "queue_push q d = Some ?q"
    using ok last_e unfolding queue_push_def head [symmetric]
    by (auto simp: free head lq_ok_def Let_def)
  have "linked ?h' (lq_head ?q) (?cs @ [e])"
  proof (cases "?cs = []")
    case False
    then show ?thesis using ok dist linked_snoc [of "lq_cells q" "lq_head q" ?cs e d] by (simp add: lq_ok_def)
  qed simp
  moreover have "length (?cs @ [e]) = unat (lq_num q + 1)"
    using ok room unatSuc [of "lq_num q"] by (simp add: lq_ok_def lq_room_def add.commute)
  ultimately have ok': "lq_ok ?q \<and> queue_cells ?q = ?cs @ [e]"
    using dist by (intro lq_okI) (simp_all del: fun_upd_apply)
  have "qe_data (?h' c) = (if c = e then d else qe_data (lq_cells q c))" for c
    using last_e by simp
  moreover have "e \<notin> set ?cs" using dist by simp
  ultimately have "queue_list ?q = queue_list q @ [d]"
    using ok' by (simp add: queue_list_def del: fun_upd_apply cong: map_cong)
  then show ?thesis using push ok' by blast
qed

lemma queue_pop_ok:
  assumes ok: "lq_ok q"
  shows "case queue_list q of [] \<Rightarrow> queue_pop q = (None, q)
    | x # xs \<Rightarrow> \<exists>q'. queue_pop q = (Some x, q') \<and> lq_ok q' \<and> queue_list q' = xs"
proof (cases "queue_cells q")
  case Nil
  then have "lq_head q = None" using ok by (simp add: lq_ok_def)
  with Nil show ?thesis by (simp add: queue_list_def queue_pop_def)
next
  case (Cons c cs)
  let ?q = "snd (queue_pop q)"
  have c: "lq_head q = Some c" "linked (lq_cells q) (qe_next (lq_cells q c)) cs" "unat (lq_num q) = Suc (length cs)"
      "distinct (c # cs @ lq_free q)" "lq_tail q = Some (List.last (c # cs))"
    using ok by (simp_all add: lq_ok_def Cons)
  have nxt: "qe_next (lq_cells q c) = None \<longleftrightarrow> cs = []" using c(2) by (cases cs) auto
  have "lq_num q \<noteq> 0" using c(3) by auto
  then have num: "length cs = unat (lq_num q - 1)" using c(3) by (simp add: unat_minus_one)
  have "lq_ok ?q \<and> queue_cells ?q = cs"
    by (rule lq_okI) (use c nxt num in \<open>auto simp: queue_pop_def Let_def\<close>)
  then show ?thesis
    using c(1) by (auto simp: queue_list_def Cons queue_pop_def Let_def)
qed

interpretation lq: fifo lq_ok queue_list lq_room queue_push queue_pop
  by unfold_locales (auto intro: queue_push_ok queue_pop_ok)

text \<open>
  The queues inside the network stack are kept as this content. An entry takes one page from
  the allocator, and gives it back when it is popped.
\<close>

definition push_entry :: "'b \<Rightarrow> 'b list \<Rightarrow> 'a plat_scheme \<Rightarrow> 'b list option \<times> 'a plat_scheme" where
  "push_entry x q s = (let (ok, s) = memory_alloc 16 s in (if ok then Some (q @ [x]) else None, s))"

end
