(* ===== verification/Checksum.thy ===== *)
theory Checksum
  imports NetUtil
begin

text \<open>
  \<^verbatim>\<open>cksum16\<close> of \<^verbatim>\<open>net/util.c\<close>: the one's complement checksum of the Internet protocols. The
  bytes are read as little-endian words, as the machine does. The file computes its value as
  a residue modulo 65535, from which follows that a packet whose checksum field was filled
  with the checksum of the rest is accepted by whoever checks it.
\<close>

fun cksum_words :: "u8 list \<Rightarrow> u32 \<Rightarrow> u32" where
  "cksum_words [] s = s"
| "cksum_words [x] s = s + ucast x"
| "cksum_words (x # y # xs) s = cksum_words xs (s + ucast (le_word [x, y] :: u16))"

lemma fold_less: "drop_bit 16 s \<noteq> 0 \<Longrightarrow> unat ((s AND 0xffff) + drop_bit 16 (s :: u32)) < unat s"
  and fold_unat: "unat ((s AND 0xffff) + drop_bit 16 (s :: u32)) = unat s mod 65536 + unat s div 65536"
proof -
  have m: "unat (s AND 0xffff) = unat s mod 65536"
  proof -
    have "s AND 0xffff = s mod 65536" using take_bit_eq_mask [of 16 s] by (simp add: mask_eq_exp_minus_1 take_bit_eq_mod)
    then show ?thesis by (simp add: unat_mod)
  qed
  have d: "unat (drop_bit 16 s) = unat s div 65536"
    by (simp add: drop_bit_eq_div unat_div)
  have "unat s < 2 ^ 32" using unat_less_len [of s] by simp
  then have small: "unat s mod 65536 + unat s div 65536 < 2 ^ 32" by simp
  then show v: "unat ((s AND 0xffff) + drop_bit 16 s) = unat s mod 65536 + unat s div 65536"
    by (simp add: unat_word_ariths m d)
  assume "drop_bit 16 s \<noteq> 0"
  then have "0 < unat (drop_bit 16 s)" by (simp add: unat_gt_0)
  then have "0 < unat s div 65536" unfolding d .
  then show "unat ((s AND 0xffff) + drop_bit 16 s) < unat s" unfolding v
    using div_mult_mod_eq [of "unat s" 65536] by linarith
qed

function cksum_fold :: "u32 \<Rightarrow> u32" where
  "cksum_fold s = (if drop_bit 16 s \<noteq> 0 then cksum_fold ((s AND 0xffff) + drop_bit 16 s) else s)"
  by pat_completeness auto
termination
  by (relation "measure unat") (auto intro: fold_less)

declare cksum_fold.simps [simp del]

definition cksum16 :: "u8 list \<Rightarrow> u16 \<Rightarrow> u32 \<Rightarrow> u16" where
  "cksum16 xs count init = NOT (ucast (cksum_fold (cksum_words (take (unat count) xs) init)))"

section \<open>The value of a checksum\<close>

definition ones_sum :: "nat \<Rightarrow> nat" where
  "ones_sum n = (if n = 0 then 0 else if n mod 65535 = 0 then 65535 else n mod 65535)"

lemma ones_sum_less: "ones_sum n < 65536"
  using mod_less_divisor [of 65535 n] by (auto simp: ones_sum_def)

lemma ones_sum_fold: "ones_sum (n mod 65536 + n div 65536) = ones_sum n"
proof -
  have "n = 65535 * (n div 65536) + (n mod 65536 + n div 65536)"
    using div_mult_mod_eq [of n 65536] by simp
  then have "n mod 65535 = (65535 * (n div 65536) + (n mod 65536 + n div 65536)) mod 65535" by (rule arg_cong)
  then have r: "(n mod 65536 + n div 65536) mod 65535 = n mod 65535" unfolding mod_mult_self4 by (rule sym)
  have "n mod 65536 + n div 65536 = 0 \<longleftrightarrow> n = 0"
    using div_mult_mod_eq [of n 65536] by auto
  with r show ?thesis by (simp add: ones_sum_def)
qed

lemma unat_cksum_fold: "unat (cksum_fold s) = ones_sum (unat s)"
proof (induction s rule: cksum_fold.induct)
  case (1 s)
  have d: "unat (drop_bit 16 s) = unat s div 65536"
    by (simp add: drop_bit_eq_div unat_div)
  show ?case
  proof (cases "drop_bit 16 s = 0")
    case True
    then have "unat s div 65536 = 0" using d by simp
    then have "unat s < 65536" by (simp add: div_eq_0_iff)
    moreover have "n < 65536 \<Longrightarrow> ones_sum n = n" for n
      by (cases "n = 65535") (auto simp: ones_sum_def)
    ultimately show ?thesis using True by (simp add: cksum_fold.simps)
  next
    case False
    then show ?thesis using 1 by (subst cksum_fold.simps) (simp add: fold_unat ones_sum_fold)
  qed
qed

text \<open>The sum of the words of a byte string.\<close>

fun word_sum :: "u8 list \<Rightarrow> nat" where
  "word_sum [] = 0"
| "word_sum [x] = unat x"
| "word_sum (x # y # xs) = unat (le_word [x, y] :: u16) + word_sum xs"

lemma word_sum_le: "word_sum xs \<le> 65535 * ((length xs + 1) div 2)"
proof (induction xs rule: word_sum.induct)
  case (2 x)
  then show ?case using unat_less_len [of x] by simp
next
  case (3 x y xs)
  then show ?case using unat_less_len [of "le_word [x, y] :: u16"] by simp
qed simp

lemma word_sum_append: "even (length xs) \<Longrightarrow> word_sum (xs @ ys) = word_sum xs + word_sum ys"
  by (induction xs rule: word_sum.induct) auto

lemma unat_ucast_up: "LENGTH('a) \<le> LENGTH('b) \<Longrightarrow> unat (ucast (w :: 'a::len word) :: 'b::len word) = unat w"
proof -
  assume "LENGTH('a) \<le> LENGTH('b)"
  then have "(2 :: nat) ^ LENGTH('a) \<le> 2 ^ LENGTH('b)" by (rule power_increasing) simp
  with unat_less_len [of w] have "unat w < 2 ^ LENGTH('b)" by (rule less_le_trans)
  then show ?thesis by (simp only: unsigned_ucast_eq take_bit_nat_eq_self_iff)
qed

lemma unat_cksum_words:
  "unat s + word_sum xs < 2 ^ 32 \<Longrightarrow> unat (cksum_words xs s) = unat s + word_sum xs"
proof (induction xs s rule: cksum_words.induct)
  case (2 x s)
  then show ?case by (simp add: unat_word_ariths unat_ucast_up)
next
  case (3 x y xs s)
  let ?w = "le_word [x, y] :: u16"
  have "unat (s + ucast ?w) = unat s + unat ?w"
    using 3(2) by (simp add: unat_word_ariths unat_ucast_up)
  with 3 show ?case by simp
qed simp

lemma unat_not16: "unat (NOT (w :: u16)) = 65535 - unat w"
proof -
  have "NOT w = - 1 - w" by (simp add: not_eq_complement)
  moreover have "unat (- 1 - w) = unat (- 1 :: u16) - unat w" by (rule unat_sub) (rule word_order.extremum)
  ultimately show ?thesis by (simp add: unsigned_minus_1_eq_mask mask_eq_exp_minus_1)
qed

lemma unat_cksum16:
  assumes "length xs = unat count" "unat init \<le> 65535"
  shows "unat (cksum16 xs count init) = 65535 - ones_sum (unat init + word_sum xs)"
proof -
  have "word_sum xs \<le> 65535 * 32768"
    using word_sum_le [of xs] assms(1) unat_less_len [of count] by (simp add: order_trans)
  then have "unat init + word_sum xs < 2 ^ 32" using assms(2) by simp
  then have f: "unat (cksum_fold (cksum_words xs init)) = ones_sum (unat init + word_sum xs)"
    by (simp add: unat_cksum_fold unat_cksum_words)
  have "unat (ucast (cksum_fold (cksum_words xs init)) :: u16) = ones_sum (unat init + word_sum xs)"
    using ones_sum_less f by (simp add: unsigned_ucast_eq take_bit_nat_eq_self)
  then show ?thesis using assms(1) by (simp add: cksum16_def unat_not16)
qed

lemma word_sum_put16:
  assumes "even off" "off + 2 \<le> length xs" "get16 off xs = 0"
  shows "word_sum (put16 off v xs) = word_sum xs + unat v"
proof -
  let ?a = "take off xs" and ?b = "slice off 2 xs" and ?c = "drop (off + 2) xs"
  have "drop off xs = take 2 (drop off xs) @ drop 2 (drop off xs)" by (rule append_take_drop_id [symmetric])
  then have xs: "xs = ?a @ ?b @ ?c" using append_take_drop_id [of off xs] by (simp add: slice_def add.commute)
  have two: "word_sum zs = unat (le_word zs :: u16)" if "length zs = 2" for zs
    using that by (cases zs rule: word_sum.cases) auto
  have a: "even (length ?a)" using assms by simp
  have b: "length ?b = 2" using assms by simp
  have "word_sum (?a @ zs @ ?c) = word_sum ?a + unat (le_word zs :: u16) + word_sum ?c" if "length zs = 2" for zs
    using word_sum_append [OF a] word_sum_append [of zs ?c] two [OF that] that by simp
  from this [of "le_bytes 2 v"] this [OF b] show ?thesis
    using assms(3) xs by (simp add: put16_def splice_def get16_def le_word_le_bytes)
qed

lemma complement_mod: "0 < k \<Longrightarrow> (n + (k - n mod k)) mod k = 0" for n k :: nat
proof -
  assume "0 < k"
  then have "n mod k \<le> k" by (auto intro: less_imp_le)
  then have "n + (k - n mod k) = k * (n div k) + k" using mult_div_mod_eq [of k n] by linarith
  then show ?thesis by simp
qed

lemma cksum16_accepts:
  assumes "even off" "off + 2 \<le> length xs" "get16 off xs = 0" "length xs = unat count" "unat init \<le> 65535"
  shows "cksum16 (put16 off (cksum16 xs count init) xs) count init = 0"
proof -
  let ?n = "unat init + word_sum xs"
  have "unat (cksum16 (put16 off (cksum16 xs count init) xs) count init) =
      65535 - ones_sum (?n + (65535 - ones_sum ?n))"
    using assms by (simp add: unat_cksum16 word_sum_put16 add.assoc)
  also have "ones_sum (?n + (65535 - ones_sum ?n)) = 65535"
  proof -
    have "(?n + (65535 - ones_sum ?n)) mod 65535 = 0"
      using complement_mod [of 65535 ?n]
      by (cases "?n mod 65535 = 0"; cases "?n = 0") (simp_all add: ones_sum_def del: add_is_0)
    moreover have "?n + (65535 - ones_sum ?n) \<noteq> 0" by (auto simp: ones_sum_def)
    ultimately show ?thesis by (simp add: ones_sum_def)
  qed
  finally have "unat (cksum16 (put16 off (cksum16 xs count init) xs) count init) = 0" by simp
  then show ?thesis by (rule unat_eq_zero [THEN iffD1])
qed

end
