(* ===== verification/NetState.thy ===== *)
theory NetState
  imports Checksum
begin

text \<open>
  The data of the network stack (\<^verbatim>\<open>net/\<close>): devices, the rings of the network card, interfaces,
  routes, caches and protocol control blocks, and the record \<open>net\<close> that holds them all.
  A pointer to an object of a table or to an allocated object is its index in the list of
  such objects; a linked list of registered objects is the list of these indices, newest
  first, as the code pushes at the head. A pointer to a handler is a constructor.
  Operations return \<open>None\<close> where the kernel panics and where the code accesses memory outside
  of the object it means to access.
\<close>

record endpoint =
  ep_addr :: u32
  ep_port :: u16

record sched_ctx =
  c_interrupted :: bool
  c_wc :: int
  c_ready :: bool

definition sched_ctx_init :: sched_ctx where
  "sched_ctx_init = \<lparr>c_interrupted = False, c_wc = 0, c_ready = False\<rparr>"

section \<open>Devices\<close>

definition IFNAMSIZ :: nat where "IFNAMSIZ = 16"
definition NET_DEVICE_ADDR_LEN :: nat where "NET_DEVICE_ADDR_LEN = 16"
definition NET_DEVICE_TYPE_ETHERNET :: u16 where "NET_DEVICE_TYPE_ETHERNET = 0x0002"
definition NET_DEVICE_FLAG_UP :: u16 where "NET_DEVICE_FLAG_UP = 0x0001"
definition NET_DEVICE_FLAG_BROADCAST :: u16 where "NET_DEVICE_FLAG_BROADCAST = 0x0002"
definition NET_DEVICE_FLAG_NEED_ARP :: u16 where "NET_DEVICE_FLAG_NEED_ARP = 0x0080"
definition NET_PROTOCOL_TYPE_IP :: u16 where "NET_PROTOCOL_TYPE_IP = 0x0800"
definition NET_PROTOCOL_TYPE_ARP :: u16 where "NET_PROTOCOL_TYPE_ARP = 0x0806"
definition NET_IFACE_FAMILY_IP :: int where "NET_IFACE_FAMILY_IP = 1"

record net_device =
  d_index :: u32
  d_name :: "u8 list"
  d_type :: u16
  d_mtu :: u16
  d_flags :: u16
  d_hlen :: u16
  d_alen :: u16
  d_addr :: "u8 list"
  d_broadcast :: "u8 list"
  d_ifaces :: "nat list"

record virtq_desc =
  vd_addr :: u64
  vd_len :: u32
  vd_flags :: u16
  vd_next :: u16

text \<open>The available and the used ring of a queue are shared with the device.\<close>

record virtq =
  vq_desc :: "virtq_desc list"
  vq_avail_idx :: u16
  vq_avail :: "u16 list"
  vq_used_idx :: u16
  vq_used :: "(u32 \<times> u32) list"
  vq_num :: int
  vq_last_used :: int
  vq_free :: "bool list"

text \<open>\<open>nic_rx_at\<close> and \<open>nic_tx_at\<close> give the addresses of the buffers, which the linker decides.\<close>

record virtio_net =
  nic_dev :: nat
  nic_status :: u32
  nic_features :: u64
  nic_rx :: virtq
  nic_tx :: virtq
  nic_rx_bufs :: "u8 list list"
  nic_tx_bufs :: "u8 list list"
  nic_rx_at :: "nat \<Rightarrow> u64"
  nic_tx_at :: "nat \<Rightarrow> u64"

datatype net_handler = Arp_input | Ip_input
datatype ip_handler = Icmp_input | Udp_input | Tcp_input
datatype timer_handler = Arp_timer | Tcp_timer
datatype event_handler = Udp_event | Tcp_event

record net_protocol =
  pr_type :: u16
  pr_queue :: "(nat \<times> u8 list) list"
  pr_handler :: net_handler

record net_timer =
  ti_interval :: timeval
  ti_last :: timeval
  ti_handler :: timer_handler

section \<open>ARP and IP\<close>

datatype arp_state = ARP_FREE | ARP_INCOMPLETE | ARP_RESOLVED | ARP_STATIC

record arp_cache =
  arp_state :: arp_state
  arp_pa :: u32
  arp_ha :: "u8 list"
  arp_timestamp :: timeval

record ip_iface =
  if_dev :: nat
  if_family :: int
  if_unicast :: u32
  if_netmask :: u32
  if_broadcast :: u32

record ip_route =
  rt_network :: u32
  rt_netmask :: u32
  rt_nexthop :: u32
  rt_iface :: nat

section \<open>UDP and TCP\<close>

datatype udp_state = UDP_FREE | UDP_OPEN | UDP_CLOSING

record udp_pcb =
  u_state :: udp_state
  u_local :: endpoint
  u_queue :: "(endpoint \<times> u8 list) list"
  u_ctx :: sched_ctx

datatype tcp_state = TCP_FREE | TCP_CLOSED | TCP_LISTEN | TCP_SYN_SENT | TCP_SYN_RECEIVED |
  TCP_ESTABLISHED | TCP_FIN_WAIT1 | TCP_FIN_WAIT2 | TCP_CLOSING | TCP_TIME_WAIT | TCP_CLOSE_WAIT | TCP_LAST_ACK

datatype tcp_mode = RFC793 | SOCKET

record tcp_queue_entry =
  te_first :: timeval
  te_last :: timeval
  te_rto :: u32
  te_seq :: u32
  te_flg :: u8
  te_data :: "u8 list"

record tcp_pcb =
  t_state :: tcp_state
  t_mode :: tcp_mode
  t_local :: endpoint
  t_foreign :: endpoint
  t_snd_nxt :: u32
  t_snd_una :: u32
  t_snd_wnd :: u16
  t_snd_wl1 :: u32
  t_snd_wl2 :: u32
  t_iss :: u32
  t_rcv_nxt :: u32
  t_rcv_wnd :: u16
  t_irs :: u32
  t_buf :: "u8 list"
  t_ctx :: sched_ctx
  t_queue :: "tcp_queue_entry list"
  t_parent :: "nat option"
  t_backlog :: "nat list"

section \<open>The state of the stack\<close>

record net = plat +
  n_devs :: "net_device list"
  n_devlist :: "nat list"
  n_dev_index :: u32
  n_nic :: virtio_net
  n_protos :: "net_protocol list"
  n_timers :: "net_timer list"
  n_events :: "event_handler list"
  n_arp :: "arp_cache list"
  n_ifs :: "ip_iface list"
  n_iflist :: "nat list"
  n_routes :: "ip_route list"
  n_ipprotos :: "(u8 \<times> ip_handler) list"
  n_ipid :: u16
  n_udp :: "udp_pcb list"
  n_tcp :: "tcp_pcb list"

definition the_dev :: "'a net_scheme \<Rightarrow> nat \<Rightarrow> net_device" where
  "the_dev s d = n_devs s ! d"

definition map_dev :: "nat \<Rightarrow> (net_device \<Rightarrow> net_device) \<Rightarrow> 'a net_scheme \<Rightarrow> 'a net_scheme" where
  "map_dev d f s = s\<lparr>n_devs := upd_at d f (n_devs s)\<rparr>"

definition the_if :: "'a net_scheme \<Rightarrow> nat \<Rightarrow> ip_iface" where
  "the_if s i = n_ifs s ! i"

definition if_device :: "'a net_scheme \<Rightarrow> nat \<Rightarrow> net_device" where
  "if_device s i = the_dev s (if_dev (the_if s i))"

definition map_nic :: "(virtio_net \<Rightarrow> virtio_net) \<Rightarrow> 'a net_scheme \<Rightarrow> 'a net_scheme" where
  "map_nic f s = s\<lparr>n_nic := f (n_nic s)\<rparr>"

definition map_arp :: "nat \<Rightarrow> (arp_cache \<Rightarrow> arp_cache) \<Rightarrow> 'a net_scheme \<Rightarrow> 'a net_scheme" where
  "map_arp i f s = s\<lparr>n_arp := upd_at i f (n_arp s)\<rparr>"

definition map_udp :: "nat \<Rightarrow> (udp_pcb \<Rightarrow> udp_pcb) \<Rightarrow> 'a net_scheme \<Rightarrow> 'a net_scheme" where
  "map_udp i f s = s\<lparr>n_udp := upd_at i f (n_udp s)\<rparr>"

definition map_tcp :: "nat \<Rightarrow> (tcp_pcb \<Rightarrow> tcp_pcb) \<Rightarrow> 'a net_scheme \<Rightarrow> 'a net_scheme" where
  "map_tcp i f s = s\<lparr>n_tcp := upd_at i f (n_tcp s)\<rparr>"

definition the_udp :: "'a net_scheme \<Rightarrow> nat \<Rightarrow> udp_pcb" where
  "the_udp s i = n_udp s ! i"

definition the_tcp :: "'a net_scheme \<Rightarrow> nat \<Rightarrow> tcp_pcb" where
  "the_tcp s i = n_tcp s ! i"

end
