(* ===== verification/VirtioNet.thy ===== *)
theory VirtioNet
  imports NetState
begin

text \<open>
  \<^verbatim>\<open>net/ether.c\<close>, the device functions of \<^verbatim>\<open>net/net.c\<close> and \<^verbatim>\<open>net/virtio_net.c\<close>: the path of a
  packet to and from the network card. The card is the only driver, so the operations of a
  \<^verbatim>\<open>struct net_device\<close> are those of \<^verbatim>\<open>virtio_net_ops\<close>. What the card itself does, taking
  frames from the transmit ring and putting frames on the receive ring, is not code of the
  repository: an interrupt finds the used rings as the card left them.
  The registers of the card that the code only writes are not kept.
\<close>

section \<open>Text of addresses and names\<close>

text \<open>Decimal digits, collected from the last to the first and then reversed.\<close>

fun digits_rev :: "nat \<Rightarrow> u8 list" where
  "digits_rev n = (if n = 0 then [] else of_nat (48 + n mod 10) # digits_rev (n div 10))"

declare digits_rev.simps [simp del]

definition net_itoa :: "u32 \<Rightarrow> u8 list" where
  "net_itoa num = (if num = 0 then [48] else rev (digits_rev (unat num)))"

definition ETHER_ADDR_LEN :: nat where "ETHER_ADDR_LEN = 6"
definition ETHER_ADDR_STR_LEN :: nat where "ETHER_ADDR_STR_LEN = 18"
definition ETHER_HDR_SIZE :: nat where "ETHER_HDR_SIZE = 14"
definition ETHER_FRAME_SIZE_MAX :: nat where "ETHER_FRAME_SIZE_MAX = 1514"
definition ETHER_PAYLOAD_SIZE_MIN :: nat where "ETHER_PAYLOAD_SIZE_MIN = 60 - ETHER_HDR_SIZE"
definition ETHER_PAYLOAD_SIZE_MAX :: nat where "ETHER_PAYLOAD_SIZE_MAX = ETHER_FRAME_SIZE_MAX - ETHER_HDR_SIZE"
definition ETHER_ADDR_BROADCAST :: "u8 list" where "ETHER_ADDR_BROADCAST = replicate ETHER_ADDR_LEN 0xff"

definition hex_char :: "u8 \<Rightarrow> u8" where
  "hex_char v = (if v < 10 then 48 + v else 97 + (v - 10))"

definition byte_to_hex :: "u8 \<Rightarrow> u8 list" where
  "byte_to_hex b = [hex_char (drop_bit 4 b AND 0x0f), hex_char (b AND 0x0f)]"

text \<open>The loop of \<^verbatim>\<open>ether_addr_pton\<close> with \<open>n\<close> bytes to go: the bytes, or failure.\<close>

fun ether_pton_from :: "nat \<Rightarrow> u8 list \<Rightarrow> u8 list option" where
  "ether_pton_from 0 p = Some []"
| "ether_pton_from (Suc n) p = (let (val, ep) = strtol p 16 in
     if length ep = length p \<or> val < 0 \<or> 0xff < val \<or> (0 < n \<and> char_at ep 0 \<noteq> 58) then None
     else if n = 0 \<and> char_at ep 0 \<noteq> 0 then None
     else map_option (\<lambda>bs. of_int val # bs) (ether_pton_from n (drop 1 ep)))"

definition ether_addr_pton :: "u8 list \<Rightarrow> u8 list option" where
  "ether_addr_pton p = ether_pton_from ETHER_ADDR_LEN p"

definition ether_addr_ntop :: "u8 list \<Rightarrow> nat \<Rightarrow> u8 list option" where
  "ether_addr_ntop n sz = (if sz < ETHER_ADDR_STR_LEN then None
     else Some (byte_to_hex (n ! 0) @ 58 # byte_to_hex (n ! 1) @ 58 # byte_to_hex (n ! 2) @ 58 #
       byte_to_hex (n ! 3) @ 58 # byte_to_hex (n ! 4) @ 58 # byte_to_hex (n ! 5)))"

section \<open>Queues of the card\<close>

definition NUM :: nat where "NUM = 8"
definition RX_BUF_SIZE :: nat where "RX_BUF_SIZE = 2048"
definition VRING_DESC_F_WRITE :: u16 where "VRING_DESC_F_WRITE = 2"
definition VIRTIO_CONFIG_S_DRIVER_OK :: u32 where "VIRTIO_CONFIG_S_DRIVER_OK = 4"
definition VIRTIO_NET_HDR_SIZE :: nat where "VIRTIO_NET_HDR_SIZE = 12"

definition zero_desc :: virtq_desc where
  "zero_desc = \<lparr>vd_addr = 0, vd_len = 0, vd_flags = 0, vd_next = 0\<rparr>"

text \<open>\<open>qmax\<close> is the maximal queue size the card reports.\<close>

definition virtq_init :: "u32 \<Rightarrow> int \<Rightarrow> virtq \<Rightarrow> virtq option" where
  "virtq_init qmax num vq = (if qmax = 0 then None else if uint qmax < num then None
     else Some \<lparr>vq_desc = replicate NUM zero_desc, vq_avail_idx = 0, vq_avail = replicate NUM 0,
       vq_used_idx = 0, vq_used = replicate NUM (0, 0), vq_num = num, vq_last_used = 0,
       vq_free = replicate (nat num) True\<rparr>)"

definition virtq_alloc_desc :: "virtq \<Rightarrow> int \<times> virtq" where
  "virtq_alloc_desc vq = (case first_idx (\<lambda>f. f) (take (nat (vq_num vq)) (vq_free vq)) of
     Some i \<Rightarrow> (int i, vq\<lparr>vq_free := (vq_free vq)[i := False]\<rparr>)
   | None \<Rightarrow> (- 1, vq))"

definition virtq_free_desc :: "virtq \<Rightarrow> int \<Rightarrow> virtq option" where
  "virtq_free_desc vq i = (if vq_num vq \<le> i \<or> i < 0 \<or> length (vq_free vq) \<le> nat i then None
     else if vq_free vq ! nat i then None
     else Some (vq\<lparr>vq_desc := (vq_desc vq)[nat i := zero_desc], vq_free := (vq_free vq)[nat i := True]\<rparr>))"

definition set_desc :: "nat \<Rightarrow> u64 \<Rightarrow> u32 \<Rightarrow> u16 \<Rightarrow> virtq \<Rightarrow> virtq" where
  "set_desc i a n flags vq =
     vq\<lparr>vq_desc := upd_at i (\<lambda>d. d\<lparr>vd_addr := a, vd_len := n, vd_flags := flags\<rparr>) (vq_desc vq)\<rparr>"

definition put_avail :: "nat \<Rightarrow> virtq \<Rightarrow> virtq" where
  "put_avail i vq = vq\<lparr>vq_avail := (vq_avail vq)[nat (uint (vq_avail_idx vq) mod vq_num vq) := of_nat i]\<rparr>"

text \<open>Receive descriptors: every one offers its buffer to the card.\<close>

definition offer_rx :: "virtio_net \<Rightarrow> virtq \<Rightarrow> virtq" where
  "offer_rx nic vq = (fold (\<lambda>i q. (set_desc i (nic_rx_at nic i) (of_nat RX_BUF_SIZE) VRING_DESC_F_WRITE q)
       \<lparr>vq_avail := (vq_avail q)[i := of_nat i], vq_free := (vq_free q)[i := False]\<rparr>) [0..<NUM] vq)
     \<lparr>vq_avail_idx := of_nat NUM\<rparr>"

definition virtio_net_open :: "'a net_scheme \<Rightarrow> 'a net_scheme" where
  "virtio_net_open = map_nic (\<lambda>nic. nic\<lparr>nic_rx := (offer_rx nic (nic_rx nic))\<lparr>vq_last_used := 0\<rparr>,
     nic_status := nic_status nic OR VIRTIO_CONFIG_S_DRIVER_OK\<rparr>)"

text \<open>\<open>status\<close> is the status register as the card shows it.\<close>

definition virtio_net_close :: "u32 \<Rightarrow> 'a net_scheme \<Rightarrow> 'a net_scheme" where
  "virtio_net_close status = map_nic (\<lambda>nic. nic\<lparr>nic_status := status AND NOT VIRTIO_CONFIG_S_DRIVER_OK\<rparr>)"

definition virtio_net_write :: "u8 list \<Rightarrow> 'a net_scheme \<Rightarrow> (int \<times> 'a net_scheme) option" where
  "virtio_net_write data s = (let nic = n_nic s; (idx, tx) = virtq_alloc_desc (nic_tx nic) in
     if RX_BUF_SIZE < length data then Some (- 1, s)
     else if idx = - 1 then Some (- 1, s)
     else if RX_BUF_SIZE < VIRTIO_NET_HDR_SIZE + length data then None
     else let i = nat idx;
       buf = splice 0 (replicate VIRTIO_NET_HDR_SIZE 0 @ data) (nic_tx_bufs nic ! i);
       tx = set_desc i (nic_tx_at nic i) (of_nat (VIRTIO_NET_HDR_SIZE + length data)) 0 tx;
       tx = (put_avail i tx)\<lparr>vq_avail_idx := vq_avail_idx tx + 1\<rparr>
     in Some (int (length data), map_nic (\<lambda>nic. nic\<lparr>nic_tx := tx, nic_tx_bufs := (nic_tx_bufs nic)[i := buf]\<rparr>) s))"

section \<open>Ethernet output\<close>

definition ether_frame :: "u8 list \<Rightarrow> u8 list \<Rightarrow> u16 \<Rightarrow> u8 list \<Rightarrow> u8 list" where
  "ether_frame dst src ty data = take ETHER_ADDR_LEN dst @ take ETHER_ADDR_LEN src @ le_bytes 2 (hton16 ty) @ data @
     replicate (ETHER_PAYLOAD_SIZE_MIN - length data) 0"

definition ether_transmit_helper :: "nat \<Rightarrow> u16 \<Rightarrow> u8 list \<Rightarrow> u8 list \<Rightarrow> 'a net_scheme \<Rightarrow> (int \<times> 'a net_scheme) option" where
  "ether_transmit_helper dev ty data dst s = (let (ok, s) = memory_alloc ETHER_FRAME_SIZE_MAX s in
     if \<not> ok then Some (- 1, s)
     else let frame = ether_frame dst (d_addr (the_dev s dev)) ty data in do {
       (r, s) \<leftarrow> virtio_net_write frame s;
       Some (if r = int (length frame) then 0 else - 1, memory_free s) })"

definition virtio_net_transmit :: "nat \<Rightarrow> u16 \<Rightarrow> u8 list \<Rightarrow> u8 list \<Rightarrow> 'a net_scheme \<Rightarrow> (int \<times> 'a net_scheme) option" where
  "virtio_net_transmit = ether_transmit_helper"

definition dev_is_up :: "net_device \<Rightarrow> bool" where
  "dev_is_up d \<longleftrightarrow> d_flags d AND NET_DEVICE_FLAG_UP \<noteq> 0"

definition net_device_output :: "nat \<Rightarrow> u16 \<Rightarrow> u8 list \<Rightarrow> u8 list \<Rightarrow> 'a net_scheme \<Rightarrow> (int \<times> 'a net_scheme) option" where
  "net_device_output dev ty data dst s =
     (if \<not> dev_is_up (the_dev s dev) then Some (- 1, s)
      else if unat (d_mtu (the_dev s dev)) < length data then Some (- 1, s)
      else do {
        (r, s) \<leftarrow> virtio_net_transmit dev ty data dst s;
        Some (if r = - 1 then - 1 else 0, s) })"

section \<open>Ethernet input\<close>

definition net_input_handler :: "u16 \<Rightarrow> u8 list \<Rightarrow> nat \<Rightarrow> 'a net_scheme \<Rightarrow> int \<times> 'a net_scheme" where
  "net_input_handler ty data dev s = (case first_idx (\<lambda>p. pr_type p = ty) (n_protos s) of
     None \<Rightarrow> (0, s)
   | Some i \<Rightarrow> let (ok, s) = memory_alloc (16 + length data) s in
       if \<not> ok then (- 1, s)
       else (case push_entry (dev, data) (pr_queue (n_protos s ! i)) s of
         (None, s) \<Rightarrow> (- 1, memory_free s)
       | (Some q, s) \<Rightarrow> (0, intr_raise_irq INTR_IRQ_SOFTIRQ
           (s\<lparr>n_protos := upd_at i (\<lambda>p. p\<lparr>pr_queue := q\<rparr>) (n_protos s)\<rparr>))))"

text \<open>
  The frame at the next used receive descriptor, which goes back to the available ring.
  A length shorter than the header would be a huge count for \<^verbatim>\<open>memmove\<close>.
\<close>

definition virtio_net_read :: "'a net_scheme \<Rightarrow> (int \<times> u8 list \<times> 'a net_scheme) option" where
  "virtio_net_read s = (let nic = n_nic s; rx = nic_rx nic;
     (id, n) = vq_used rx ! nat (vq_last_used rx mod vq_num rx);
     i = unat id; len = unat n
   in if NUM \<le> i \<or> len < VIRTIO_NET_HDR_SIZE \<or> RX_BUF_SIZE < len then None
     else let frame = slice VIRTIO_NET_HDR_SIZE (len - VIRTIO_NET_HDR_SIZE) (nic_rx_bufs nic ! i);
       rx = rx\<lparr>vq_desc := upd_at i (\<lambda>d. d\<lparr>vd_addr := nic_rx_at nic i, vd_len := of_nat RX_BUF_SIZE\<rparr>) (vq_desc rx)\<rparr>
     in Some (int (len - VIRTIO_NET_HDR_SIZE), frame, map_nic (\<lambda>nic. nic\<lparr>nic_rx := put_avail i rx\<rparr>) s))"

definition ether_input_helper :: "nat \<Rightarrow> 'a net_scheme \<Rightarrow> (int \<times> 'a net_scheme) option" where
  "ether_input_helper dev s = (let (ok, s) = memory_alloc ETHER_FRAME_SIZE_MAX s in
     if \<not> ok then Some (- 1, s)
     else do {
       (flen, frame, s) \<leftarrow> virtio_net_read s;
       if flen < int ETHER_HDR_SIZE then Some (- 1, memory_free s)
       else if take ETHER_ADDR_LEN (d_addr (the_dev s dev)) \<noteq> take ETHER_ADDR_LEN frame \<and>
         ETHER_ADDR_BROADCAST \<noteq> take ETHER_ADDR_LEN frame then Some (- 1, memory_free s)
       else let (r, s) = net_input_handler (ntoh16 (get16 12 frame)) (drop ETHER_HDR_SIZE frame) dev s in
         Some (r, memory_free s) })"

text \<open>
  The loop over completed transmissions. Each round frees a descriptor that was in use, or
  panics, so the loop ends.
\<close>

definition in_use :: "virtq \<Rightarrow> nat" where
  "in_use vq = length (filter Not (vq_free vq))"

lemma in_use_free:
  assumes "virtq_free_desc vq i = Some vq'"
  shows "in_use vq' < in_use vq"
proof -
  have "length (filter Not (xs[j := True])) < length (filter Not xs)" if "j < length xs" "\<not> xs ! j" for xs :: "bool list" and j
    using that
  proof (induction xs arbitrary: j)
    case (Cons x xs)
    then show ?case by (cases j) fastforce+
  qed simp
  then show ?thesis using assms by (auto simp: virtq_free_desc_def in_use_def split: if_splits)
qed

function tx_done :: "virtq \<Rightarrow> virtq option" where
  "tx_done vq =
     (if vq_last_used vq = uint (vq_used_idx vq) then Some vq
      else case virtq_free_desc vq (sint (fst (vq_used vq ! nat (vq_last_used vq mod vq_num vq)))) of
        None \<Rightarrow> None
      | Some vq' \<Rightarrow> tx_done (vq'\<lparr>vq_last_used := vq_last_used vq' + 1\<rparr>))"
  by pat_completeness auto
termination
  by (relation "measure in_use") (auto dest: in_use_free simp: in_use_def not_le)

declare tx_done.simps [simp del]

partial_function (option) rx_frames :: "'a net_scheme \<Rightarrow> 'a net_scheme option" where
  "rx_frames s =
     (if vq_last_used (nic_rx (n_nic s)) = uint (vq_used_idx (nic_rx (n_nic s))) then Some s
      else do {
        (r, s) \<leftarrow> ether_input_helper (nic_dev (n_nic s)) s;
        rx_frames (map_nic (\<lambda>nic. nic\<lparr>nic_rx := (nic_rx nic)\<lparr>vq_avail_idx := vq_avail_idx (nic_rx nic) + 1,
          vq_last_used := vq_last_used (nic_rx nic) + 1\<rparr>\<rparr>) s) })"

definition virtio_net_intr :: "'a net_scheme \<Rightarrow> 'a net_scheme option" where
  "virtio_net_intr s = do {
     tx \<leftarrow> tx_done (nic_tx (n_nic s));
     s \<leftarrow> rx_frames (map_nic (\<lambda>nic. nic\<lparr>nic_tx := tx\<rparr>) s);
     Some (intr_raise_irq INTR_IRQ_SOFTIRQ s) }"

end
