(* ===== verification/NetDev.thy ===== *)
theory NetDev
  imports VirtioNet
begin

text \<open>
  The tables of \<^verbatim>\<open>net/net.c\<close> (devices, interfaces, protocols, timers, events) and
  \<^verbatim>\<open>virtio_net_init\<close> up to the registration of the device.
\<close>

section \<open>Devices\<close>

definition zero_device :: net_device where
  "zero_device = \<lparr>d_index = 0, d_name = [], d_type = 0, d_mtu = 0, d_flags = 0, d_hlen = 0, d_alen = 0,
     d_addr = replicate NET_DEVICE_ADDR_LEN 0, d_broadcast = replicate NET_DEVICE_ADDR_LEN 0, d_ifaces = []\<rparr>"

definition net_device_alloc :: "'a net_scheme \<Rightarrow> nat option \<times> 'a net_scheme" where
  "net_device_alloc s = (let (ok, s) = memory_alloc 96 s in
     if \<not> ok then (None, s) else (Some (length (n_devs s)), s\<lparr>n_devs := n_devs s @ [zero_device]\<rparr>))"

definition net_device_register :: "nat \<Rightarrow> 'a net_scheme \<Rightarrow> int \<times> 'a net_scheme" where
  "net_device_register dev s = (let index = n_dev_index s;
     s = map_dev dev (\<lambda>d. d\<lparr>d_index := index, d_name := [110, 101, 116] @ net_itoa index\<rparr>) s
   in (0, s\<lparr>n_devlist := dev # n_devlist s, n_dev_index := index + 1\<rparr>))"

definition net_device_open :: "nat \<Rightarrow> 'a net_scheme \<Rightarrow> int \<times> 'a net_scheme" where
  "net_device_open dev s = (if dev_is_up (the_dev s dev) then (- 1, s)
     else (0, map_dev dev (\<lambda>d. d\<lparr>d_flags := d_flags d OR NET_DEVICE_FLAG_UP\<rparr>) (virtio_net_open s)))"

definition net_device_close :: "u32 \<Rightarrow> nat \<Rightarrow> 'a net_scheme \<Rightarrow> int \<times> 'a net_scheme" where
  "net_device_close status dev s = (if \<not> dev_is_up (the_dev s dev) then (- 1, s)
     else (0, map_dev dev (\<lambda>d. d\<lparr>d_flags := d_flags d AND NOT NET_DEVICE_FLAG_UP\<rparr>) (virtio_net_close status s)))"

definition net_device_by_index :: "u32 \<Rightarrow> 'a net_scheme \<Rightarrow> nat option" where
  "net_device_by_index i s = find (\<lambda>d. d_index (the_dev s d) = i) (n_devlist s)"

text \<open>Names shorter than \<^verbatim>\<open>IFNAMSIZ\<close> compare equal exactly if they are the same string.\<close>

definition net_device_by_name :: "u8 list \<Rightarrow> 'a net_scheme \<Rightarrow> nat option" where
  "net_device_by_name name s =
     find (\<lambda>d. take IFNAMSIZ (d_name (the_dev s d)) = take IFNAMSIZ name) (n_devlist s)"

definition net_device_add_iface :: "nat \<Rightarrow> nat \<Rightarrow> 'a net_scheme \<Rightarrow> int \<times> 'a net_scheme" where
  "net_device_add_iface dev i s =
     (if \<exists>e \<in> set (d_ifaces (the_dev s dev)). if_family (the_if s e) = if_family (the_if s i) then (- 1, s)
      else (0, map_dev dev (\<lambda>d. d\<lparr>d_ifaces := i # d_ifaces d\<rparr>)
        (s\<lparr>n_ifs := upd_at i (\<lambda>f. f\<lparr>if_dev := dev\<rparr>) (n_ifs s)\<rparr>)))"

definition net_device_get_iface :: "nat \<Rightarrow> int \<Rightarrow> 'a net_scheme \<Rightarrow> nat option" where
  "net_device_get_iface dev family s = find (\<lambda>e. if_family (the_if s e) = family) (d_ifaces (the_dev s dev))"

definition ether_setup_helper :: "net_device \<Rightarrow> net_device" where
  "ether_setup_helper d = d\<lparr>d_type := NET_DEVICE_TYPE_ETHERNET, d_mtu := of_nat ETHER_PAYLOAD_SIZE_MAX,
     d_flags := NET_DEVICE_FLAG_BROADCAST OR NET_DEVICE_FLAG_NEED_ARP, d_hlen := of_nat ETHER_HDR_SIZE,
     d_alen := of_nat ETHER_ADDR_LEN, d_broadcast := splice 0 ETHER_ADDR_BROADCAST (d_broadcast d)\<rparr>"

section \<open>Protocols, timers and events\<close>

definition net_protocol_register :: "u16 \<Rightarrow> net_handler \<Rightarrow> 'a net_scheme \<Rightarrow> int \<times> 'a net_scheme" where
  "net_protocol_register ty h s = (if \<exists>p \<in> set (n_protos s). pr_type p = ty then (- 1, s)
     else let (ok, s) = memory_alloc 48 s in
       if \<not> ok then (- 1, s)
       else (0, s\<lparr>n_protos := \<lparr>pr_type = ty, pr_queue = [], pr_handler = h\<rparr> # n_protos s\<rparr>))"

definition net_timer_register :: "timeval \<Rightarrow> timer_handler \<Rightarrow> 'a net_scheme \<Rightarrow> int \<times> 'a net_scheme" where
  "net_timer_register interval h s = (let (ok, s) = memory_alloc 48 s in
     if \<not> ok then (- 1, s)
     else (0, s\<lparr>n_timers := \<lparr>ti_interval = interval, ti_last = gettimeofday s, ti_handler = h\<rparr> # n_timers s\<rparr>))"

definition net_event_subscribe :: "event_handler \<Rightarrow> 'a net_scheme \<Rightarrow> int \<times> 'a net_scheme" where
  "net_event_subscribe h s = (let (ok, s) = memory_alloc 24 s in
     if \<not> ok then (- 1, s) else (0, s\<lparr>n_events := h # n_events s\<rparr>))"

definition net_raise_event :: "'a net_scheme \<Rightarrow> 'a net_scheme" where
  "net_raise_event = intr_raise_irq INTR_IRQ_EVENT"

definition net_run :: "'a net_scheme \<Rightarrow> int \<times> 'a net_scheme" where
  "net_run s = (0, fold (\<lambda>d s. snd (net_device_open d s)) (n_devlist s) s)"

definition net_shutdown :: "u32 \<Rightarrow> 'a net_scheme \<Rightarrow> 'a net_scheme" where
  "net_shutdown status s = fold (\<lambda>d s. snd (net_device_close status d s)) (n_devlist s) s"

end
