(* ===== verification/Arp.thy ===== *)
theory Arp
  imports NetDev
begin

text \<open>
  \<^verbatim>\<open>net/arp.c\<close>: the cache of hardware addresses and the exchange of ARP messages.
  A \<^verbatim>\<open>struct arp_cache *\<close> is an index into \<open>n_arp\<close>.
\<close>

definition ARP_HRD_ETHER :: u16 where "ARP_HRD_ETHER = 0x0001"
definition ARP_PRO_IP :: u16 where "ARP_PRO_IP = 0x0800"
definition ARP_OP_REQUEST :: u16 where "ARP_OP_REQUEST = 1"
definition ARP_OP_REPLY :: u16 where "ARP_OP_REPLY = 2"
definition ARP_CACHE_SIZE :: nat where "ARP_CACHE_SIZE = 32"
definition ARP_CACHE_TIMEOUT :: int where "ARP_CACHE_TIMEOUT = 30"
definition ARP_RESOLVE_ERROR :: int where "ARP_RESOLVE_ERROR = - 1"
definition ARP_RESOLVE_INCOMPLETE :: int where "ARP_RESOLVE_INCOMPLETE = 0"
definition ARP_RESOLVE_FOUND :: int where "ARP_RESOLVE_FOUND = 1"
definition IP_ADDR_LEN :: nat where "IP_ADDR_LEN = 4"

section \<open>The cache\<close>

definition arp_cache_delete :: "nat \<Rightarrow> 'a net_scheme \<Rightarrow> 'a net_scheme" where
  "arp_cache_delete i = map_arp i (\<lambda>_. \<lparr>arp_state = ARP_FREE, arp_pa = 0,
     arp_ha = replicate ETHER_ADDR_LEN 0, arp_timestamp = timerclear\<rparr>)"

text \<open>The first entry whose time stamp no other entry's is before.\<close>

definition arp_oldest :: "arp_cache list \<Rightarrow> nat option" where
  "arp_oldest cs = fold (\<lambda>i oldest. case oldest of None \<Rightarrow> Some i
     | Some j \<Rightarrow> if timer_less (arp_timestamp (cs ! i)) (arp_timestamp (cs ! j)) then Some i else oldest)
     [0..<length cs] None"

definition arp_cache_alloc :: "'a net_scheme \<Rightarrow> (nat \<times> 'a net_scheme) option" where
  "arp_cache_alloc s = (case first_idx (\<lambda>c. arp_state c = ARP_FREE) (n_arp s) of
     Some i \<Rightarrow> Some (i, s)
   | None \<Rightarrow> map_option (\<lambda>i. (i, arp_cache_delete i s)) (arp_oldest (n_arp s)))"

definition arp_cache_select :: "u32 \<Rightarrow> 'a net_scheme \<Rightarrow> nat option" where
  "arp_cache_select pa s = first_idx (\<lambda>c. arp_state c \<noteq> ARP_FREE \<and> arp_pa c = pa) (n_arp s)"

definition arp_cache_update :: "u32 \<Rightarrow> u8 list \<Rightarrow> 'a net_scheme \<Rightarrow> nat option \<times> 'a net_scheme" where
  "arp_cache_update pa ha s = (case arp_cache_select pa s of
     None \<Rightarrow> (None, s)
   | Some i \<Rightarrow> (Some i, map_arp i (\<lambda>c. c\<lparr>arp_state := ARP_RESOLVED, arp_ha := take ETHER_ADDR_LEN ha,
       arp_timestamp := gettimeofday s\<rparr>) s))"

definition arp_cache_insert :: "u32 \<Rightarrow> u8 list \<Rightarrow> 'a net_scheme \<Rightarrow> (nat \<times> 'a net_scheme) option" where
  "arp_cache_insert pa ha s = do {
     (i, s) \<leftarrow> arp_cache_alloc s;
     Some (i, map_arp i (\<lambda>_. \<lparr>arp_state = ARP_RESOLVED, arp_pa = pa, arp_ha = take ETHER_ADDR_LEN ha,
       arp_timestamp = gettimeofday s\<rparr>) s) }"

section \<open>Messages\<close>

text \<open>The 28 bytes of a \<^verbatim>\<open>struct arp_ether_ip\<close>.\<close>

definition arp_message :: "u16 \<Rightarrow> u8 list \<Rightarrow> u32 \<Rightarrow> u8 list \<Rightarrow> u32 \<Rightarrow> u8 list" where
  "arp_message op' sha spa tha tpa = le_bytes 2 (hton16 ARP_HRD_ETHER) @ le_bytes 2 (hton16 ARP_PRO_IP) @
     [of_nat ETHER_ADDR_LEN, of_nat IP_ADDR_LEN] @ le_bytes 2 (hton16 op') @
     take ETHER_ADDR_LEN sha @ le_bytes 4 spa @ take ETHER_ADDR_LEN tha @ le_bytes 4 tpa"

definition arp_request :: "nat \<Rightarrow> u32 \<Rightarrow> 'a net_scheme \<Rightarrow> (int \<times> 'a net_scheme) option" where
  "arp_request i tpa s = (let d = if_device s i in
     net_device_output (if_dev (the_if s i)) NET_PROTOCOL_TYPE_ARP
       (arp_message ARP_OP_REQUEST (d_addr d) (if_unicast (the_if s i)) (replicate ETHER_ADDR_LEN 0) tpa)
       (d_broadcast d) s)"

definition arp_reply :: "nat \<Rightarrow> u8 list \<Rightarrow> u32 \<Rightarrow> u8 list \<Rightarrow> 'a net_scheme \<Rightarrow> (int \<times> 'a net_scheme) option" where
  "arp_reply i tha tpa dst s =
     net_device_output (if_dev (the_if s i)) NET_PROTOCOL_TYPE_ARP
       (arp_message ARP_OP_REPLY (d_addr (if_device s i)) (if_unicast (the_if s i)) tha tpa) dst s"

definition arp_input :: "u8 list \<Rightarrow> nat \<Rightarrow> 'a net_scheme \<Rightarrow> 'a net_scheme option" where
  "arp_input data dev s =
     (if length data < 28 then Some s
      else if ntoh16 (get16 0 data) \<noteq> ARP_HRD_ETHER \<or> unat (data ! 4) \<noteq> ETHER_ADDR_LEN then Some s
      else if ntoh16 (get16 2 data) \<noteq> ARP_PRO_IP \<or> unat (data ! 5) \<noteq> IP_ADDR_LEN then Some s
      else let sha = slice 8 6 data; spa = get32 14 data; tpa = get32 24 data;
        (updated, s) = arp_cache_update spa sha s
      in case net_device_get_iface dev NET_IFACE_FAMILY_IP s of
        None \<Rightarrow> Some s
      | Some i \<Rightarrow> if if_unicast (the_if s i) \<noteq> tpa then Some s
          else do {
            s \<leftarrow> (if updated = None then map_option snd (arp_cache_insert spa sha s) else Some s);
            if ntoh16 (get16 6 data) = ARP_OP_REQUEST then map_option snd (arp_reply i sha spa sha s)
            else Some s })"

text \<open>The status, and the hardware address if it was found.\<close>

definition arp_resolve :: "nat \<Rightarrow> u32 \<Rightarrow> 'a net_scheme \<Rightarrow> (int \<times> u8 list \<times> 'a net_scheme) option" where
  "arp_resolve i pa s =
     (if d_type (if_device s i) \<noteq> NET_DEVICE_TYPE_ETHERNET then Some (ARP_RESOLVE_ERROR, [], s)
      else if if_family (the_if s i) \<noteq> NET_IFACE_FAMILY_IP then Some (ARP_RESOLVE_ERROR, [], s)
      else case arp_cache_select pa s of
        None \<Rightarrow> do {
          (c, s) \<leftarrow> arp_cache_alloc s;
          (_, s) \<leftarrow> arp_request i pa (map_arp c (\<lambda>c. c\<lparr>arp_state := ARP_INCOMPLETE, arp_pa := pa,
            arp_timestamp := gettimeofday s\<rparr>) s);
          Some (ARP_RESOLVE_INCOMPLETE, [], s) }
      | Some c \<Rightarrow> if arp_state (n_arp s ! c) = ARP_INCOMPLETE then do {
            (_, s) \<leftarrow> arp_request i pa s;
            Some (ARP_RESOLVE_INCOMPLETE, [], s) }
          else Some (ARP_RESOLVE_FOUND, arp_ha (n_arp s ! c), s))"

definition arp_timer_handler :: "'a net_scheme \<Rightarrow> 'a net_scheme" where
  "arp_timer_handler s = fold (\<lambda>i s.
     let c = n_arp s ! i; diff = timersub (gettimeofday s) (arp_timestamp c) in
     if arp_state c \<noteq> ARP_FREE \<and> arp_state c \<noteq> ARP_STATIC \<and> ARP_CACHE_TIMEOUT < tv_sec diff
     then arp_cache_delete i s else s) [0..<length (n_arp s)] s"

definition arp_init :: "'a net_scheme \<Rightarrow> int \<times> 'a net_scheme" where
  "arp_init s = (let (r, s) = net_protocol_register NET_PROTOCOL_TYPE_ARP Arp_input s in
     if r = - 1 then (- 1, s)
     else let (r, s) = net_timer_register \<lparr>tv_sec = 1, tv_usec = 0\<rparr> Arp_timer s in
       if r = - 1 then (- 1, s) else (0, s))"

end
