(* ===== verification/IpAddr.thy ===== *)
theory IpAddr
  imports VirtioNet
begin

text \<open>
  The address functions of \<^verbatim>\<open>net/ip.c\<close>. An address is the word at which its four bytes are
  stored, so its first octet is the low byte.
\<close>

definition IP_ADDR_STR_LEN :: nat where "IP_ADDR_STR_LEN = 16"
definition IP_ADDR_ANY :: u32 where "IP_ADDR_ANY = 0"
definition IP_ADDR_BROADCAST :: u32 where "IP_ADDR_BROADCAST = 0xffffffff"
definition UINT16_MAX :: int where "UINT16_MAX = 65535"

text \<open>The digits go through an array of four bytes: a number of five digits overruns it.\<close>

definition ip_itoa :: "nat \<Rightarrow> u8 list option" where
  "ip_itoa num = (if num = 0 then Some [48]
     else if 4 < length (digits_rev num) then None else Some (rev (digits_rev num)))"

text \<open>The loop of \<^verbatim>\<open>ip_addr_pton\<close> with \<open>n\<close> octets to go.\<close>

fun ip_pton_from :: "nat \<Rightarrow> u8 list \<Rightarrow> u8 list option" where
  "ip_pton_from 0 sp = Some []"
| "ip_pton_from (Suc n) sp = (let (ret, ep) = strtol sp 10 in
     if ret < 0 \<or> 255 < ret then None
     else if length ep = length sp then None
     else if (n = 0 \<and> char_at ep 0 \<noteq> 0) \<or> (n \<noteq> 0 \<and> char_at ep 0 \<noteq> 46) then None
     else map_option (\<lambda>bs. of_int ret # bs) (ip_pton_from n (drop 1 ep)))"

definition ip_addr_pton :: "u8 list \<Rightarrow> u32 option" where
  "ip_addr_pton p = map_option le_word (ip_pton_from 4 p)"

text \<open>\<open>None\<close> is the null pointer for a buffer that is too small.\<close>

definition ip_addr_ntop :: "u32 \<Rightarrow> nat \<Rightarrow> u8 list option" where
  "ip_addr_ntop n sz = (if sz < IP_ADDR_STR_LEN then None
     else let b = le_bytes 4 n in do {
       t0 \<leftarrow> ip_itoa (unat (b ! 0));
       t1 \<leftarrow> ip_itoa (unat (b ! 1));
       t2 \<leftarrow> ip_itoa (unat (b ! 2));
       t3 \<leftarrow> ip_itoa (unat (b ! 3));
       Some (t0 @ 46 # t1 @ 46 # t2 @ 46 # t3) })"

definition ip_endpoint_pton :: "u8 list \<Rightarrow> endpoint option" where
  "ip_endpoint_pton p = (case strrchr p 58 of
     None \<Rightarrow> None
   | Some sep \<Rightarrow> if IP_ADDR_STR_LEN \<le> sep then None
       else (case ip_addr_pton (take sep p) of
         None \<Rightarrow> None
       | Some a \<Rightarrow> let port = fst (strtol (drop (sep + 1) p) 10) in
           if port \<le> 0 \<or> UINT16_MAX < port then None
           else Some \<lparr>ep_addr = a, ep_port = hton16 (of_int port)\<rparr>))"

definition ip_endpoint_ntop :: "endpoint \<Rightarrow> nat \<Rightarrow> u8 list option" where
  "ip_endpoint_ntop n sz = do {
     p \<leftarrow> ip_addr_ntop (ep_addr n) sz;
     if sz \<le> length p + 6 then Some p
     else do {
       t \<leftarrow> ip_itoa (unat (ntoh16 (ep_port n)));
       Some (p @ 58 # t) } }"

section \<open>Printing and reading\<close>

lemma digit_char: "d < 10 \<Longrightarrow> digit_value (of_nat (48 + d)) = Some (int d)"
  "d < 10 \<Longrightarrow> of_nat (48 + d) \<noteq> (32 :: u8) \<and> of_nat (48 + d) \<noteq> (9 :: u8) \<and> of_nat (48 + d) \<noteq> (43 :: u8) \<and>
     of_nat (48 + d) \<noteq> (45 :: u8)"
proof -
  assume "d < 10"
  then have "d \<in> {0, 1, 2, 3, 4, 5, 6, 7, 8, 9}" by auto
  then show "digit_value (of_nat (48 + d)) = Some (int d)"
    "of_nat (48 + d) \<noteq> (32 :: u8) \<and> of_nat (48 + d) \<noteq> (9 :: u8) \<and> of_nat (48 + d) \<noteq> (43 :: u8) \<and>
       of_nat (48 + d) \<noteq> (45 :: u8)"
    by (auto simp: digit_value_def)
qed

definition not_digit :: "u8 list \<Rightarrow> bool" where
  "not_digit r \<longleftrightarrow> (case r of [] \<Rightarrow> True | c # _ \<Rightarrow> digit_value c = None)"

lemma strtol_digits_stop: "not_digit r \<Longrightarrow> strtol_digits base v r = (v, r)"
  by (cases r) (auto simp: not_digit_def)

lemma strtol_digits_rev:
  "strtol_digits 10 0 (rev (digits_rev n) @ r) = strtol_digits 10 (int n) r"
proof (induction n arbitrary: r rule: digits_rev.induct)
  case (1 n)
  show ?case
  proof (cases "n = 0")
    case False
    have m: "\<not> 10 \<le> n mod 10" by (simp add: not_le)
    have "strtol_digits 10 0 (rev (digits_rev n) @ r) =
        strtol_digits 10 (int (n div 10)) (of_nat (48 + n mod 10) # r)"
      using 1 [OF False] False by (subst digits_rev.simps) (simp del: of_nat_add of_nat_Suc)
    also have "\<dots> = strtol_digits 10 (int (n div 10) * 10 + int (n mod 10)) r"
      using digit_char(1) [of "n mod 10"] m by (simp add: m del: of_nat_add of_nat_Suc)
    also have "int (n div 10) * 10 + int (n mod 10) = int n" by (simp add: zdiv_int zmod_int)
    finally show ?thesis .
  qed (simp add: digits_rev.simps)
qed

lemma strtol_no_prefix:
  assumes "t = c # cs" "c \<noteq> 32" "c \<noteq> 9" "c \<noteq> 43" "c \<noteq> 45"
  shows "strtol t 10 = strtol_digits 10 0 t"
  using assms by (simp add: strtol_def char_at_def Let_def split_beta)

lemma hd_digits: "n \<noteq> 0 \<Longrightarrow> \<exists>d cs. d < 10 \<and> rev (digits_rev n) = of_nat (48 + d) # cs"
proof (induction n rule: digits_rev.induct)
  case (1 n)
  show ?case
  proof (cases "n div 10 = 0")
    case True
    then have "rev (digits_rev n) = [of_nat (48 + n mod 10)]"
      using 1(2) by (simp add: digits_rev.simps del: of_nat_add of_nat_Suc)
    then show ?thesis by (intro exI [of _ "n mod 10"] exI [of _ "[]"]) simp
  next
    case False
    from 1(1) [OF 1(2) False] obtain d cs where d: "d < 10" "rev (digits_rev (n div 10)) = of_nat (48 + d) # cs"
      by blast
    have "rev (digits_rev n) = of_nat (48 + d) # cs @ [of_nat (48 + n mod 10)]"
      using 1(2) d(2) by (subst digits_rev.simps) (simp del: of_nat_add of_nat_Suc)
    with d(1) show ?thesis by blast
  qed
qed

lemma strtol_printed:
  assumes "not_digit r"
  shows "strtol ((if n = 0 then [48] else rev (digits_rev n)) @ r) 10 = (int n, r)"
proof (cases "n = 0")
  case True
  then show ?thesis
    using assms strtol_no_prefix [of "48 # r" 48 r] by (simp add: digit_value_def strtol_digits_stop)
next
  case False
  then obtain d cs where d: "d < 10" "rev (digits_rev n) = of_nat (48 + d) # cs" using hd_digits by blast
  have "strtol (rev (digits_rev n) @ r) 10 = strtol_digits 10 0 (rev (digits_rev n) @ r)"
    unfolding d(2) by (rule strtol_no_prefix [OF append_Cons]) (use digit_char(2) [OF d(1)] in blast)+
  with False show ?thesis using assms by (simp add: strtol_digits_rev strtol_digits_stop)
qed

lemma digits_rev_length: "n < 10 ^ k \<Longrightarrow> length (digits_rev n) \<le> k"
proof (induction k arbitrary: n)
  case (Suc k)
  then have "n div 10 < 10 ^ k" by auto
  from Suc.IH [OF this] show ?case by (subst digits_rev.simps) simp
qed (simp add: digits_rev.simps)

lemma digits_rev_length_ge: "10 ^ k \<le> n \<Longrightarrow> k < length (digits_rev n)"
proof (induction k arbitrary: n)
  case (Suc k)
  then have "10 ^ k \<le> n div 10" by auto
  moreover have "0 < n" using Suc.prems by (rule less_le_trans [rotated]) simp
  ultimately show ?case using Suc.IH [of "n div 10"] by (subst digits_rev.simps) simp
qed (simp add: digits_rev.simps)

lemma ip_itoa_None: "ip_itoa n = None \<longleftrightarrow> 10000 \<le> n"
  using digits_rev_length [of n 4] digits_rev_length_ge [of 4 n] by (cases "n < 10000") (auto simp: ip_itoa_def not_le not_less)

lemma ip_itoa_read:
  assumes "n < 10000"
  obtains t where "ip_itoa n = Some t" "t \<noteq> []" "length t \<le> 4"
    "\<And>r. not_digit r \<Longrightarrow> strtol (t @ r) 10 = (int n, r)"
proof (rule that)
  let ?t = "if n = 0 then [48] else rev (digits_rev n)"
  show "ip_itoa n = Some ?t" "length ?t \<le> 4"
    using assms digits_rev_length [of n 4] by (auto simp: ip_itoa_def)
  show "?t \<noteq> []" using hd_digits [of n] by (cases "n = 0") auto
qed (rule strtol_printed)

lemma not_digit_dot: "not_digit (46 # r)" "not_digit []"
  by (simp_all add: not_digit_def digit_value_def)

lemma ip_pton_from_step:
  assumes "\<And>r. not_digit r \<Longrightarrow> strtol (t @ r) 10 = (int (unat b), r)" "t \<noteq> []"
  shows "ip_pton_from (Suc (Suc n)) (t @ 46 # r) = map_option (\<lambda>bs. b # bs) (ip_pton_from (Suc n) r)"
    "ip_pton_from (Suc 0) t = Some [b :: u8]"
proof -
  have b: "uint b < 256" "0 \<le> uint b" using uint_lt2p [of b] by simp_all
  have [simp]: "word_of_int (int (unat b)) = b" by simp
  show "ip_pton_from (Suc (Suc n)) (t @ 46 # r) = map_option (\<lambda>bs. b # bs) (ip_pton_from (Suc n) r)"
    using b assms(2) assms(1) [OF not_digit_dot(1)]
    by (subst ip_pton_from.simps) (simp add: char_at_def Let_def del: ip_pton_from.simps)
  show "ip_pton_from (Suc 0) t = Some [b]"
    using b assms(2) assms(1) [OF not_digit_dot(2)] by (simp add: char_at_def)
qed

lemma four_bytes: "le_bytes 4 (n :: u32) = [le_bytes 4 n ! 0, le_bytes 4 n ! 1, le_bytes 4 n ! 2, le_bytes 4 n ! 3]"
  by (simp add: le_bytes_def upt_rec)

lemma ip_ntop_pton:
  assumes "IP_ADDR_STR_LEN \<le> sz"
  shows "\<exists>t. ip_addr_ntop n sz = Some t \<and> ip_addr_pton t = Some n"
proof -
  let ?b = "le_bytes 4 n"
  have small: "unat (?b ! i) < 10000" for i using unat_less_len [of "?b ! i"] by simp
  obtain t0 where t0: "ip_itoa (unat (?b ! 0)) = Some t0" "t0 \<noteq> []"
    "\<And>r. not_digit r \<Longrightarrow> strtol (t0 @ r) 10 = (int (unat (?b ! 0)), r)" using ip_itoa_read [OF small] by blast
  obtain t1 where t1: "ip_itoa (unat (?b ! 1)) = Some t1" "t1 \<noteq> []"
    "\<And>r. not_digit r \<Longrightarrow> strtol (t1 @ r) 10 = (int (unat (?b ! 1)), r)" using ip_itoa_read [OF small] by blast
  obtain t2 where t2: "ip_itoa (unat (?b ! 2)) = Some t2" "t2 \<noteq> []"
    "\<And>r. not_digit r \<Longrightarrow> strtol (t2 @ r) 10 = (int (unat (?b ! 2)), r)" using ip_itoa_read [OF small] by blast
  obtain t3 where t3: "ip_itoa (unat (?b ! 3)) = Some t3" "t3 \<noteq> []"
    "\<And>r. not_digit r \<Longrightarrow> strtol (t3 @ r) 10 = (int (unat (?b ! 3)), r)" using ip_itoa_read [OF small] by blast
  let ?t = "t0 @ 46 # t1 @ 46 # t2 @ 46 # t3"
  have "ip_pton_from (Suc (Suc (Suc (Suc 0)))) ?t = Some [?b ! 0, ?b ! 1, ?b ! 2, ?b ! 3]"
    by (simp only: ip_pton_from_step [OF t0(3,2)] ip_pton_from_step [OF t1(3,2)] ip_pton_from_step [OF t2(3,2)]
        ip_pton_from_step [OF t3(3,2)] option.map)
  then have "ip_addr_pton ?t = Some (le_word ?b)"
    unfolding ip_addr_pton_def using four_bytes [of n] by (simp only: numeral_eq_Suc pred_numeral_simps BitM.simps option.map)
  then have "ip_addr_pton ?t = Some n" by (simp add: le_word_le_bytes)
  moreover have "ip_addr_ntop n sz = Some ?t"
    using assms t0(1) t1(1) t2(1) t3(1) unfolding ip_addr_ntop_def Let_def by simp
  ultimately show ?thesis by blast
qed

end
