(* ===== verification/Ip.thy ===== *)
theory Ip
  imports Arp IpAddr
begin

text \<open>
  \<^verbatim>\<open>net/ip.c\<close> (all but the text of addresses) and \<^verbatim>\<open>net/icmp.c\<close>. A \<^verbatim>\<open>struct ip_iface *\<close> is an
  index into \<open>n_ifs\<close>. A packet is the list of its bytes, so its length is that of the list.
  \<^verbatim>\<open>ip_input\<close> calls the handler of the protocol through a pointer: it takes the meaning of
  handlers as its first argument, which \<open>NetStack\<close> supplies.
\<close>

definition IP_VERSION_IPV4 :: u8 where "IP_VERSION_IPV4 = 4"
definition IP_HDR_SIZE_MIN :: nat where "IP_HDR_SIZE_MIN = 20"
definition IP_TOTAL_SIZE_MAX :: nat where "IP_TOTAL_SIZE_MAX = 1500"
definition IP_PAYLOAD_SIZE_MAX :: nat where "IP_PAYLOAD_SIZE_MAX = IP_TOTAL_SIZE_MAX - IP_HDR_SIZE_MIN"
definition IP_PROTOCOL_ICMP :: u8 where "IP_PROTOCOL_ICMP = 1"
definition IP_PROTOCOL_TCP :: u8 where "IP_PROTOCOL_TCP = 6"
definition IP_PROTOCOL_UDP :: u8 where "IP_PROTOCOL_UDP = 17"

section \<open>Routes and interfaces\<close>

definition ip_route_add :: "u32 \<Rightarrow> u32 \<Rightarrow> u32 \<Rightarrow> nat \<Rightarrow> 'a net_scheme \<Rightarrow> bool \<times> 'a net_scheme" where
  "ip_route_add network netmask nexthop i s = (let (ok, s) = memory_alloc 32 s in
     if \<not> ok then (False, s)
     else (True, s\<lparr>n_routes := \<lparr>rt_network = network, rt_netmask = netmask, rt_nexthop = nexthop, rt_iface = i\<rparr>
       # n_routes s\<rparr>))"

definition better_route :: "u32 \<Rightarrow> ip_route \<Rightarrow> ip_route option \<Rightarrow> ip_route option" where
  "better_route dst r candidate =
     (if dst AND rt_netmask r = rt_network r then
        (case candidate of None \<Rightarrow> Some r
         | Some c \<Rightarrow> if ntoh32 (rt_netmask c) < ntoh32 (rt_netmask r) then Some r else candidate)
      else candidate)"

definition ip_route_lookup :: "u32 \<Rightarrow> 'a net_scheme \<Rightarrow> ip_route option" where
  "ip_route_lookup dst s = fold (better_route dst) (n_routes s) None"

definition ip_route_set_default_gateway :: "nat \<Rightarrow> u8 list \<Rightarrow> 'a net_scheme \<Rightarrow> int \<times> 'a net_scheme" where
  "ip_route_set_default_gateway i gateway s = (case ip_addr_pton gateway of
     None \<Rightarrow> (- 1, s)
   | Some gw \<Rightarrow> let (ok, s) = ip_route_add IP_ADDR_ANY IP_ADDR_ANY gw i s in (if ok then 0 else - 1, s))"

definition ip_route_get_iface :: "u32 \<Rightarrow> 'a net_scheme \<Rightarrow> nat option" where
  "ip_route_get_iface dst s = map_option rt_iface (ip_route_lookup dst s)"

definition ip_iface_alloc :: "u8 list \<Rightarrow> u8 list \<Rightarrow> 'a net_scheme \<Rightarrow> nat option \<times> 'a net_scheme" where
  "ip_iface_alloc unicast netmask s = (let (ok, s) = memory_alloc 48 s in
     if \<not> ok then (None, s)
     else case ip_addr_pton unicast of
       None \<Rightarrow> (None, memory_free s)
     | Some u \<Rightarrow> (case ip_addr_pton netmask of
         None \<Rightarrow> (None, memory_free s)
       | Some m \<Rightarrow> (Some (length (n_ifs s)), s\<lparr>n_ifs := n_ifs s @
           [\<lparr>if_dev = 0, if_family = NET_IFACE_FAMILY_IP, if_unicast = u, if_netmask = m,
             if_broadcast = (u AND m) OR NOT m\<rparr>]\<rparr>)))"

definition ip_iface_register :: "nat \<Rightarrow> nat \<Rightarrow> 'a net_scheme \<Rightarrow> int \<times> 'a net_scheme" where
  "ip_iface_register dev i s = (let (r, s) = net_device_add_iface dev i s in
     if r = - 1 then (- 1, s)
     else let f = the_if s i;
       (ok, s) = ip_route_add (if_unicast f AND if_netmask f) (if_netmask f) IP_ADDR_ANY i s
     in if \<not> ok then (- 1, s) else (0, s\<lparr>n_iflist := i # n_iflist s\<rparr>))"

definition ip_iface_reconfigure :: "nat \<Rightarrow> u32 \<Rightarrow> u32 \<Rightarrow> 'a net_scheme \<Rightarrow> int \<times> 'a net_scheme" where
  "ip_iface_reconfigure i unicast netmask s =
     (0, s\<lparr>n_ifs := upd_at i (\<lambda>f. f\<lparr>if_unicast := unicast, if_netmask := netmask,
            if_broadcast := (unicast AND netmask) OR NOT netmask\<rparr>) (n_ifs s),
          n_routes := map (\<lambda>r. if rt_iface r = i
            then r\<lparr>rt_network := unicast AND netmask, rt_netmask := netmask\<rparr> else r) (n_routes s)\<rparr>)"

definition ip_iface_select :: "u32 \<Rightarrow> 'a net_scheme \<Rightarrow> nat option" where
  "ip_iface_select addr s = find (\<lambda>i. if_unicast (the_if s i) = addr) (n_iflist s)"

definition ip_protocol_register :: "u8 \<Rightarrow> ip_handler \<Rightarrow> 'a net_scheme \<Rightarrow> int \<times> 'a net_scheme" where
  "ip_protocol_register ty h s = (if \<exists>p \<in> set (n_ipprotos s). fst p = ty then (- 1, s)
     else let (ok, s) = memory_alloc 24 s in
       if \<not> ok then (- 1, s) else (0, s\<lparr>n_ipprotos := (ty, h) # n_ipprotos s\<rparr>))"

section \<open>Input\<close>

definition ip_hlen :: "u8 list \<Rightarrow> nat" where
  "ip_hlen data = unat (data ! 0 AND 0x0f) * 4"

definition ip_input :: "(ip_handler \<Rightarrow> u8 list \<Rightarrow> u32 \<Rightarrow> u32 \<Rightarrow> nat \<Rightarrow> 'a net_scheme \<Rightarrow> 'a net_scheme option) \<Rightarrow>
    u8 list \<Rightarrow> nat \<Rightarrow> 'a net_scheme \<Rightarrow> 'a net_scheme option" where
  "ip_input call data dev s =
     (if length data < IP_HDR_SIZE_MIN then Some s
      else if drop_bit 4 (data ! 0) \<noteq> IP_VERSION_IPV4 then Some s
      else let hlen = ip_hlen data; tot = unat (ntoh16 (get16 2 data)); offset = ntoh16 (get16 6 data) in
        if length data < hlen then Some s
        else if length data < tot then Some s
        else if cksum16 data (of_nat hlen) 0 \<noteq> 0 then Some s
        else if offset AND 0x2000 \<noteq> 0 \<or> offset AND 0x1fff \<noteq> 0 then Some s
        else case net_device_get_iface dev NET_IFACE_FAMILY_IP s of
          None \<Rightarrow> Some s
        | Some i \<Rightarrow> let dst = get32 16 data in
            if dst \<noteq> if_unicast (the_if s i) \<and> dst \<noteq> if_broadcast (the_if s i) \<and> dst \<noteq> IP_ADDR_BROADCAST
            then Some s
            else case find (\<lambda>p. fst p = data ! 9) (n_ipprotos s) of
              None \<Rightarrow> Some s
            | Some p \<Rightarrow> if tot < hlen then None
                else call (snd p) (slice hlen (tot - hlen) data) (get32 12 data) dst i s)"

section \<open>Output\<close>

definition ip_output_device :: "nat \<Rightarrow> u8 list \<Rightarrow> u32 \<Rightarrow> 'a net_scheme \<Rightarrow> (int \<times> 'a net_scheme) option" where
  "ip_output_device i data dst s = (let d = if_device s i; zeros = replicate NET_DEVICE_ADDR_LEN 0 in
     if d_flags d AND NET_DEVICE_FLAG_NEED_ARP \<noteq> 0 then
       if dst = if_broadcast (the_if s i) \<or> dst = IP_ADDR_BROADCAST
       then net_device_output (if_dev (the_if s i)) NET_PROTOCOL_TYPE_IP data
         (splice 0 (take (unat (d_alen d)) (d_broadcast d)) zeros) s
       else do {
         (ret, ha, s) \<leftarrow> arp_resolve i dst s;
         if ret \<noteq> ARP_RESOLVE_FOUND then Some (ret, s)
         else net_device_output (if_dev (the_if s i)) NET_PROTOCOL_TYPE_IP data (splice 0 ha zeros) s }
     else net_device_output (if_dev (the_if s i)) NET_PROTOCOL_TYPE_IP data zeros s)"

text \<open>The header with the checksum field still zero, and the packet.\<close>

definition ip_header :: "u8 \<Rightarrow> u16 \<Rightarrow> u32 \<Rightarrow> u32 \<Rightarrow> u16 \<Rightarrow> u16 \<Rightarrow> u8 list" where
  "ip_header protocol tot src dst id' offset =
     [push_bit 4 IP_VERSION_IPV4 OR of_nat (IP_HDR_SIZE_MIN div 4), 0] @ le_bytes 2 (hton16 tot) @
     le_bytes 2 (hton16 id') @ le_bytes 2 (hton16 offset) @ [0xff, protocol, 0, 0] @ le_bytes 4 src @ le_bytes 4 dst"

definition ip_packet :: "u8 \<Rightarrow> u8 list \<Rightarrow> u32 \<Rightarrow> u32 \<Rightarrow> u16 \<Rightarrow> u16 \<Rightarrow> u8 list" where
  "ip_packet protocol data src dst id' offset =
     (let hdr = ip_header protocol (of_nat (IP_HDR_SIZE_MIN + length data)) src dst id' offset in
      put16 10 (cksum16 hdr (of_nat IP_HDR_SIZE_MIN) 0) hdr @ data)"

definition ip_output_core :: "nat \<Rightarrow> u8 \<Rightarrow> u8 list \<Rightarrow> u32 \<Rightarrow> u32 \<Rightarrow> u32 \<Rightarrow> u16 \<Rightarrow> u16 \<Rightarrow> 'a net_scheme \<Rightarrow>
    (int \<times> 'a net_scheme) option" where
  "ip_output_core i protocol data src dst nexthop id' offset s =
     (let (ok, s) = memory_alloc IP_TOTAL_SIZE_MAX s in
      if \<not> ok then Some (- 1, s)
      else if PAGE_BYTES < IP_HDR_SIZE_MIN + length data then None
      else do {
        (ret, s) \<leftarrow> ip_output_device i (ip_packet protocol data src dst id' offset) nexthop s;
        Some (ret, memory_free s) })"

definition ip_generate_id :: "'a net_scheme \<Rightarrow> u16 \<times> 'a net_scheme" where
  "ip_generate_id s = (n_ipid s, s\<lparr>n_ipid := n_ipid s + 1\<rparr>)"

definition ip_output :: "u8 \<Rightarrow> u8 list \<Rightarrow> u32 \<Rightarrow> u32 \<Rightarrow> 'a net_scheme \<Rightarrow> (int \<times> 'a net_scheme) option" where
  "ip_output protocol data src dst s =
     (if src = IP_ADDR_ANY \<and> dst = IP_ADDR_BROADCAST then Some (- 1, s)
      else case ip_route_lookup dst s of
        None \<Rightarrow> Some (- 1, s)
      | Some route \<Rightarrow> let i = rt_iface route in
          if src \<noteq> IP_ADDR_ANY \<and> src \<noteq> if_unicast (the_if s i) then Some (- 1, s)
          else if unat (d_mtu (if_device s i)) < IP_HDR_SIZE_MIN + length data then Some (- 1, s)
          else let nexthop = (if rt_nexthop route \<noteq> IP_ADDR_ANY then rt_nexthop route else dst);
            (id', s) = ip_generate_id s
          in do {
            (ret, s) \<leftarrow> ip_output_core i protocol data (if_unicast (the_if s i)) dst nexthop id' 0 s;
            Some (if ret = - 1 then - 1 else int (length data), s) })"

definition ip_init :: "'a net_scheme \<Rightarrow> int \<times> 'a net_scheme" where
  "ip_init s = (let (r, s) = net_protocol_register NET_PROTOCOL_TYPE_IP Ip_input s in
     if r = - 1 then (- 1, s) else (0, s))"

section \<open>ICMP\<close>

definition ICMP_TYPE_ECHOREPLY :: u8 where "ICMP_TYPE_ECHOREPLY = 0"
definition ICMP_TYPE_ECHO :: u8 where "ICMP_TYPE_ECHO = 8"
definition ICMP_HDR_SIZE :: nat where "ICMP_HDR_SIZE = 8"

definition icmp_message :: "u8 \<Rightarrow> u8 \<Rightarrow> u32 \<Rightarrow> u8 list \<Rightarrow> u8 list" where
  "icmp_message ty code values data = (let msg = [ty, code, 0, 0] @ le_bytes 4 values @ data in
     put16 2 (cksum16 msg (of_nat (length msg)) 0) msg)"

definition icmp_output :: "u8 \<Rightarrow> u8 \<Rightarrow> u32 \<Rightarrow> u8 list \<Rightarrow> u32 \<Rightarrow> u32 \<Rightarrow> 'a net_scheme \<Rightarrow> (int \<times> 'a net_scheme) option" where
  "icmp_output ty code values data src dst s = (let (ok, s) = memory_alloc IP_PAYLOAD_SIZE_MAX s in
     if \<not> ok then Some (- 1, s)
     else if PAGE_BYTES < ICMP_HDR_SIZE + length data then None
     else do {
       (ret, s) \<leftarrow> ip_output IP_PROTOCOL_ICMP (icmp_message ty code values data) src dst s;
       Some (ret, memory_free s) })"

definition icmp_input :: "u8 list \<Rightarrow> u32 \<Rightarrow> u32 \<Rightarrow> nat \<Rightarrow> 'a net_scheme \<Rightarrow> 'a net_scheme option" where
  "icmp_input data src dst i s =
     (if length data < ICMP_HDR_SIZE then Some s
      else if cksum16 data (of_nat (length data)) 0 \<noteq> 0 then Some s
      else if data ! 0 = ICMP_TYPE_ECHO then
        map_option snd (icmp_output ICMP_TYPE_ECHOREPLY (data ! 1) (get32 4 data) (drop 8 data)
          (if_unicast (the_if s i)) src s)
      else Some s)"

definition icmp_init :: "'a net_scheme \<Rightarrow> int \<times> 'a net_scheme" where
  "icmp_init s = (let (r, s) = ip_protocol_register IP_PROTOCOL_ICMP Icmp_input s in
     if r = - 1 then (- 1, s) else (0, s))"

end
