(* ===== verification/Udp.thy ===== *)
theory Udp
  imports Ip
begin

text \<open>
  \<^verbatim>\<open>net/udp.c\<close> but \<^verbatim>\<open>udp_recvfrom\<close>, which sleeps (\<open>NetUser\<close>). A \<^verbatim>\<open>struct udp_pcb *\<close> is an index
  into \<open>n_udp\<close>, as the identifiers given to the user are. Ports are kept in network byte
  order.
\<close>

definition UDP_PCB_SIZE :: nat where "UDP_PCB_SIZE = 16"
definition UDP_SOURCE_PORT_MIN :: nat where "UDP_SOURCE_PORT_MIN = 49152"
definition UDP_SOURCE_PORT_MAX :: nat where "UDP_SOURCE_PORT_MAX = 65535"
definition UDP_HDR_SIZE :: nat where "UDP_HDR_SIZE = 8"

definition sched_wakeup :: "sched_ctx \<Rightarrow> sched_ctx" where
  "sched_wakeup c = c\<lparr>c_ready := True\<rparr>"

definition sched_interrupt :: "sched_ctx \<Rightarrow> sched_ctx" where
  "sched_interrupt c = c\<lparr>c_interrupted := True\<rparr>"

definition sched_ctx_destroy :: "sched_ctx \<Rightarrow> int" where
  "sched_ctx_destroy c = (if c_wc c \<noteq> 0 then - 1 else 0)"

section \<open>Control blocks\<close>

definition udp_pcb_alloc :: "'a net_scheme \<Rightarrow> nat option \<times> 'a net_scheme" where
  "udp_pcb_alloc s = (case first_idx (\<lambda>p. u_state p = UDP_FREE) (n_udp s) of
     None \<Rightarrow> (None, s)
   | Some i \<Rightarrow> (Some i, map_udp i (\<lambda>p. p\<lparr>u_state := UDP_OPEN, u_ctx := sched_ctx_init\<rparr>) s))"

text \<open>Each queue entry gives back its page and that of its data.\<close>

definition udp_pcb_release :: "nat \<Rightarrow> 'a net_scheme \<Rightarrow> 'a net_scheme" where
  "udp_pcb_release i s = (let s = map_udp i (\<lambda>p. p\<lparr>u_state := UDP_CLOSING\<rparr>) s in
     if sched_ctx_destroy (u_ctx (the_udp s i)) = - 1
     then map_udp i (\<lambda>p. p\<lparr>u_ctx := sched_wakeup (u_ctx p)\<rparr>) s
     else map_udp i (\<lambda>p. p\<lparr>u_state := UDP_FREE, u_local := \<lparr>ep_addr = IP_ADDR_ANY, ep_port = 0\<rparr>, u_queue := []\<rparr>)
       (s\<lparr>n_pages := n_pages s + 2 * length (u_queue (the_udp s i))\<rparr>))"

definition udp_pcb_select :: "u32 \<Rightarrow> u16 \<Rightarrow> 'a net_scheme \<Rightarrow> nat option" where
  "udp_pcb_select addr port s = first_idx (\<lambda>p. u_state p = UDP_OPEN \<and>
     (ep_addr (u_local p) = IP_ADDR_ANY \<or> ep_addr (u_local p) = addr) \<and> ep_port (u_local p) = port) (n_udp s)"

definition udp_pcb_get :: "int \<Rightarrow> 'a net_scheme \<Rightarrow> nat option" where
  "udp_pcb_get id' s = (if id' < 0 \<or> int (length (n_udp s)) \<le> id' then None
     else if u_state (the_udp s (nat id')) \<noteq> UDP_OPEN then None else Some (nat id'))"

section \<open>Datagrams\<close>

text \<open>The pseudo header of UDP and TCP, and its sum, from which the checksum goes on.\<close>

definition pseudo_hdr :: "u8 \<Rightarrow> u32 \<Rightarrow> u32 \<Rightarrow> u16 \<Rightarrow> u8 list" where
  "pseudo_hdr protocol src dst len =
     le_bytes 4 src @ le_bytes 4 dst @ [0, protocol] @ le_bytes 2 (hton16 len)"

definition pseudo_sum :: "u8 \<Rightarrow> u32 \<Rightarrow> u32 \<Rightarrow> u16 \<Rightarrow> u16" where
  "pseudo_sum protocol src dst len = NOT (cksum16 (pseudo_hdr protocol src dst len) 12 0)"

definition udp_datagram :: "endpoint \<Rightarrow> endpoint \<Rightarrow> u8 list \<Rightarrow> u8 list" where
  "udp_datagram src dst data = (let tot = of_nat (UDP_HDR_SIZE + length data);
     msg = le_bytes 2 (ep_port src) @ le_bytes 2 (ep_port dst) @ le_bytes 2 (hton16 tot) @ [0, 0] @ data in
     put16 6 (cksum16 msg tot (ucast (pseudo_sum IP_PROTOCOL_UDP (ep_addr src) (ep_addr dst) tot))) msg)"

definition udp_input :: "u8 list \<Rightarrow> u32 \<Rightarrow> u32 \<Rightarrow> nat \<Rightarrow> 'a net_scheme \<Rightarrow> 'a net_scheme option" where
  "udp_input data src dst i s =
     (if length data < UDP_HDR_SIZE then Some s
      else if length data \<noteq> unat (ntoh16 (get16 4 data)) then Some s
      else let len = of_nat (length data) in
        if cksum16 data len (ucast (pseudo_sum IP_PROTOCOL_UDP src dst len)) \<noteq> 0 then Some s
        else case udp_pcb_select dst (get16 2 data) s of
          None \<Rightarrow> Some s
        | Some p \<Rightarrow> let (ok, s) = memory_alloc (12 + (length data - UDP_HDR_SIZE)) s in
            if \<not> ok then Some s
            else case push_entry (\<lparr>ep_addr = src, ep_port = get16 0 data\<rparr>, drop UDP_HDR_SIZE data) (u_queue (the_udp s p)) s of
              (None, s) \<Rightarrow> Some s
            | (Some q, s) \<Rightarrow> Some (map_udp p (\<lambda>u. u\<lparr>u_queue := q, u_ctx := sched_wakeup (u_ctx u)\<rparr>) s))"

definition udp_output :: "endpoint \<Rightarrow> endpoint \<Rightarrow> u8 list \<Rightarrow> 'a net_scheme \<Rightarrow> (int \<times> 'a net_scheme) option" where
  "udp_output src dst data s = (let (ok, s) = memory_alloc IP_PAYLOAD_SIZE_MAX s in
     if \<not> ok then Some (- 1, s)
     else if IP_PAYLOAD_SIZE_MAX - UDP_HDR_SIZE < length data then Some (- 1, memory_free s)
     else do {
       (r, s) \<leftarrow> ip_output IP_PROTOCOL_UDP (udp_datagram src dst data) (ep_addr src) (ep_addr dst) s;
       Some (if r = - 1 then - 1 else int (length data), memory_free s) })"

definition udp_event_handler :: "'a net_scheme \<Rightarrow> 'a net_scheme" where
  "udp_event_handler s = s\<lparr>n_udp := map (\<lambda>p. if u_state p = UDP_OPEN
     then p\<lparr>u_ctx := sched_interrupt (u_ctx p)\<rparr> else p) (n_udp s)\<rparr>"

definition udp_init :: "'a net_scheme \<Rightarrow> int \<times> 'a net_scheme" where
  "udp_init s = (let (r, s) = ip_protocol_register IP_PROTOCOL_UDP Udp_input s in
     if r = - 1 then (- 1, s) else (0, snd (net_event_subscribe Udp_event s)))"

section \<open>User commands\<close>

definition udp_open :: "'a net_scheme \<Rightarrow> int \<times> 'a net_scheme" where
  "udp_open s = (case udp_pcb_alloc s of (None, s) \<Rightarrow> (- 1, s) | (Some i, s) \<Rightarrow> (int i, s))"

definition udp_close :: "int \<Rightarrow> 'a net_scheme \<Rightarrow> int \<times> 'a net_scheme" where
  "udp_close id' s = (case udp_pcb_get id' s of None \<Rightarrow> (- 1, s) | Some i \<Rightarrow> (0, udp_pcb_release i s))"

definition udp_bind :: "int \<Rightarrow> endpoint \<Rightarrow> 'a net_scheme \<Rightarrow> int \<times> 'a net_scheme" where
  "udp_bind id' local s = (case udp_pcb_get id' s of
     None \<Rightarrow> (- 1, s)
   | Some i \<Rightarrow> (case udp_pcb_select (ep_addr local) (ep_port local) s of
       Some _ \<Rightarrow> (- 1, s)
     | None \<Rightarrow> (0, map_udp i (\<lambda>p. p\<lparr>u_local := local\<rparr>) s)))"

text \<open>The first port of the dynamic range that no open block uses for the address.\<close>

definition udp_free_port :: "u32 \<Rightarrow> 'a net_scheme \<Rightarrow> u16 option" where
  "udp_free_port addr s = map_option (\<lambda>p. hton16 (of_nat p))
     (find (\<lambda>p. udp_pcb_select addr (hton16 (of_nat p)) s = None) [UDP_SOURCE_PORT_MIN..<UDP_SOURCE_PORT_MAX + 1])"

definition udp_sendto :: "int \<Rightarrow> u8 list \<Rightarrow> endpoint \<Rightarrow> 'a net_scheme \<Rightarrow> (int \<times> 'a net_scheme) option" where
  "udp_sendto id' data foreign s = (case udp_pcb_get id' s of
     None \<Rightarrow> Some (- 1, s)
   | Some i \<Rightarrow>
       (case (if ep_addr (u_local (the_udp s i)) = IP_ADDR_ANY
              then map_option (\<lambda>f. if_unicast (the_if s f)) (ip_route_get_iface (ep_addr foreign) s)
              else Some (ep_addr (u_local (the_udp s i)))) of
          None \<Rightarrow> Some (- 1, s)
        | Some addr \<Rightarrow>
            if ep_port (u_local (the_udp s i)) \<noteq> 0
            then udp_output \<lparr>ep_addr = addr, ep_port = ep_port (u_local (the_udp s i))\<rparr> foreign data s
            else (case udp_free_port addr s of
              None \<Rightarrow> Some (- 1, s)
            | Some port \<Rightarrow> udp_output \<lparr>ep_addr = addr, ep_port = port\<rparr> foreign data
                (map_udp i (\<lambda>p. p\<lparr>u_local := (u_local p)\<lparr>ep_port := port\<rparr>\<rparr>) s))))"

end
