(* ===== verification/Tcp.thy ===== *)
theory Tcp
  imports Udp
begin

text \<open>
  \<^verbatim>\<open>net/tcp.c\<close> but the user commands that sleep (\<open>NetUser\<close>). A \<^verbatim>\<open>struct tcp_pcb *\<close> is an index
  into \<open>n_tcp\<close>. The long function \<^verbatim>\<open>tcp_segment_arrives\<close> is split at its numbered checks; a
  part that may end the processing of the segment returns whether to go on.
  Comparisons of sequence numbers are those of the code, plain comparisons of 32-bit words.
\<close>

definition TCP_FLG_FIN :: u8 where "TCP_FLG_FIN = 0x01"
definition TCP_FLG_SYN :: u8 where "TCP_FLG_SYN = 0x02"
definition TCP_FLG_RST :: u8 where "TCP_FLG_RST = 0x04"
definition TCP_FLG_PSH :: u8 where "TCP_FLG_PSH = 0x08"
definition TCP_FLG_ACK :: u8 where "TCP_FLG_ACK = 0x10"

definition TCP_FLG_ISSET :: "u8 \<Rightarrow> u8 \<Rightarrow> bool" where
  "TCP_FLG_ISSET x y \<longleftrightarrow> (x AND 0x3f) AND y \<noteq> 0"

definition TCP_PCB_SIZE :: nat where "TCP_PCB_SIZE = 16"
definition TCP_BUF_SIZE :: nat where "TCP_BUF_SIZE = 65535"
definition TCP_HDR_SIZE :: nat where "TCP_HDR_SIZE = 20"
definition TCP_DEFAULT_RTO :: u32 where "TCP_DEFAULT_RTO = 200000"
definition TCP_RETRANSMIT_DEADLINE :: int where "TCP_RETRANSMIT_DEADLINE = 12"
definition TCP_SOURCE_PORT_MIN :: nat where "TCP_SOURCE_PORT_MIN = 49152"
definition TCP_SOURCE_PORT_MAX :: nat where "TCP_SOURCE_PORT_MAX = 65535"

record tcp_segment_info =
  seg_seq :: u32
  seg_ack :: u32
  seg_len :: u16
  seg_wnd :: u16

definition zero_pcb :: tcp_pcb where
  "zero_pcb = \<lparr>t_state = TCP_FREE, t_mode = RFC793, t_local = \<lparr>ep_addr = 0, ep_port = 0\<rparr>,
     t_foreign = \<lparr>ep_addr = 0, ep_port = 0\<rparr>, t_snd_nxt = 0, t_snd_una = 0, t_snd_wnd = 0, t_snd_wl1 = 0,
     t_snd_wl2 = 0, t_iss = 0, t_rcv_nxt = 0, t_rcv_wnd = 0, t_irs = 0, t_buf = replicate TCP_BUF_SIZE 0,
     t_ctx = sched_ctx_init, t_queue = [], t_parent = None, t_backlog = []\<rparr>"

section \<open>Control blocks\<close>

definition tcp_pcb_alloc :: "'a net_scheme \<Rightarrow> nat option \<times> 'a net_scheme" where
  "tcp_pcb_alloc s = (case first_idx (\<lambda>p. t_state p = TCP_FREE) (n_tcp s) of
     None \<Rightarrow> (None, s)
   | Some i \<Rightarrow> (Some i, map_tcp i (\<lambda>p. p\<lparr>t_state := TCP_CLOSED, t_ctx := sched_ctx_init\<rparr>) s))"

definition tcp_wakeup :: "nat \<Rightarrow> 'a net_scheme \<Rightarrow> 'a net_scheme" where
  "tcp_wakeup p = map_tcp p (\<lambda>t. t\<lparr>t_ctx := sched_wakeup (t_ctx t)\<rparr>)"

definition tcp_drop_queue :: "nat \<Rightarrow> 'a net_scheme \<Rightarrow> 'a net_scheme" where
  "tcp_drop_queue p s = map_tcp p (\<lambda>t. t\<lparr>t_queue := []\<rparr>)
     (s\<lparr>n_pages := n_pages s + 2 * length (t_queue (the_tcp s p))\<rparr>)"

text \<open>
  \<^verbatim>\<open>tcp_pcb_release\<close> calls itself on the connections in the backlog. The first argument is the
  stack of the calls that have freed their retransmission queue and are in the loop over
  their backlog.
\<close>

definition backlog_sum :: "tcp_pcb list \<Rightarrow> nat" where
  "backlog_sum ps = sum_list (map (\<lambda>p. length (t_backlog p)) ps)"

lemma backlog_sum_upd:
  "i < length ps \<Longrightarrow> backlog_sum (upd_at i f ps) + length (t_backlog (ps ! i)) =
     backlog_sum ps + length (t_backlog (f (ps ! i)))"
proof (induction ps arbitrary: i)
  case (Cons p ps)
  then show ?case by (cases i) (auto simp: backlog_sum_def)
qed simp

lemma backlog_sum_same:
  "(\<And>p. t_backlog (f p) = t_backlog p) \<Longrightarrow> backlog_sum (upd_at i f ps) = backlog_sum ps"
  by (simp add: backlog_sum_def map_upd_at)

function tcp_release :: "nat list \<Rightarrow> 'a net_scheme \<Rightarrow> 'a net_scheme option" where
  "tcp_release [] s = Some s"
| "tcp_release (p # stack) s =
     (if length (n_tcp s) \<le> p then None
      else case t_backlog (the_tcp s p) of
        [] \<Rightarrow> tcp_release stack (map_tcp p (\<lambda>_. zero_pcb) s)
      | e # es \<Rightarrow> let s = memory_free (map_tcp p (\<lambda>t. t\<lparr>t_backlog := es\<rparr>) s) in
          if sched_ctx_destroy (t_ctx (the_tcp s e)) = - 1 then tcp_release (p # stack) (tcp_wakeup e s)
          else tcp_release (e # p # stack) (tcp_drop_queue e s))"
  by pat_completeness auto
termination
proof (relation "measure (\<lambda>(stack, s). 2 * backlog_sum (n_tcp s) + length stack)", goal_cases)
  case (2 p stack s)
  then show ?case
    using backlog_sum_upd [of p "n_tcp s" "\<lambda>_. zero_pcb"] by (simp add: map_tcp_def zero_pcb_def the_tcp_def)
next
  case (3 p stack s e es s')
  then have "backlog_sum (n_tcp s') < backlog_sum (n_tcp s)"
    using backlog_sum_upd [of p "n_tcp s" "\<lambda>t. t\<lparr>t_backlog := es\<rparr>"] by (simp add: map_tcp_def the_tcp_def memory_free_def)
  then show ?case by (simp add: tcp_wakeup_def map_tcp_def backlog_sum_same)
next
  case (4 p stack s e es s')
  then have "backlog_sum (n_tcp s') < backlog_sum (n_tcp s)"
    using backlog_sum_upd [of p "n_tcp s" "\<lambda>t. t\<lparr>t_backlog := es\<rparr>"] by (simp add: map_tcp_def the_tcp_def memory_free_def)
  then show ?case by (simp add: tcp_drop_queue_def map_tcp_def backlog_sum_same)
qed simp

definition tcp_pcb_release :: "nat \<Rightarrow> 'a net_scheme \<Rightarrow> 'a net_scheme option" where
  "tcp_pcb_release p s = (if sched_ctx_destroy (t_ctx (the_tcp s p)) = - 1 then Some (tcp_wakeup p s)
     else tcp_release [p] (tcp_drop_queue p s))"

text \<open>The loop of \<^verbatim>\<open>tcp_pcb_select\<close> from slot \<open>i\<close> on, with the listener found so far.\<close>

fun tcp_select_from :: "endpoint \<Rightarrow> endpoint option \<Rightarrow> nat option \<Rightarrow> nat \<Rightarrow> tcp_pcb list \<Rightarrow> nat option" where
  "tcp_select_from local foreign listen i [] = listen"
| "tcp_select_from local foreign listen i (p # ps) =
     (if (ep_addr (t_local p) = IP_ADDR_ANY \<or> ep_addr (t_local p) = ep_addr local) \<and>
         ep_port (t_local p) = ep_port local then
        (case foreign of None \<Rightarrow> Some i
         | Some f \<Rightarrow>
             if ep_addr (t_foreign p) = ep_addr f \<and> ep_port (t_foreign p) = ep_port f then Some i
             else tcp_select_from local foreign
               (if t_state p = TCP_LISTEN \<and> ep_addr (t_foreign p) = IP_ADDR_ANY \<and> ep_port (t_foreign p) = 0
                then Some i else listen) (Suc i) ps)
      else tcp_select_from local foreign listen (Suc i) ps)"

definition tcp_pcb_select :: "endpoint \<Rightarrow> endpoint option \<Rightarrow> 'a net_scheme \<Rightarrow> nat option" where
  "tcp_pcb_select local foreign s = tcp_select_from local foreign None 0 (n_tcp s)"

definition tcp_pcb_get :: "int \<Rightarrow> 'a net_scheme \<Rightarrow> nat option" where
  "tcp_pcb_get id' s = (if id' < 0 \<or> int (length (n_tcp s)) \<le> id' then None
     else if t_state (the_tcp s (nat id')) = TCP_FREE then None else Some (nat id'))"

section \<open>Output\<close>

definition tcp_segment :: "u32 \<Rightarrow> u32 \<Rightarrow> u8 \<Rightarrow> u16 \<Rightarrow> u8 list \<Rightarrow> endpoint \<Rightarrow> endpoint \<Rightarrow> u8 list" where
  "tcp_segment seq' ack flg wnd data local foreign = (let
     msg = le_bytes 2 (ep_port local) @ le_bytes 2 (ep_port foreign) @ le_bytes 4 (hton32 seq') @
       le_bytes 4 (hton32 ack) @ [push_bit 4 (of_nat (TCP_HDR_SIZE div 4)), flg] @ le_bytes 2 (hton16 wnd) @
       [0, 0, 0, 0] @ data;
     tot = of_nat (TCP_HDR_SIZE + length data)
   in put16 16 (cksum16 msg tot (ucast (pseudo_sum IP_PROTOCOL_TCP (ep_addr local) (ep_addr foreign) tot))) msg)"

definition tcp_output_segment :: "u32 \<Rightarrow> u32 \<Rightarrow> u8 \<Rightarrow> u16 \<Rightarrow> u8 list \<Rightarrow> endpoint \<Rightarrow> endpoint \<Rightarrow> 'a net_scheme \<Rightarrow>
    (int \<times> 'a net_scheme) option" where
  "tcp_output_segment seq' ack flg wnd data local foreign s =
     (let (ok, s) = memory_alloc IP_PAYLOAD_SIZE_MAX s in
      if \<not> ok then Some (- 1, s)
      else if PAGE_BYTES < TCP_HDR_SIZE + length data then None
      else do {
        (r, s) \<leftarrow> ip_output IP_PROTOCOL_TCP (tcp_segment seq' ack flg wnd data local foreign)
          (ep_addr local) (ep_addr foreign) s;
        Some (if r = - 1 then - 1 else int (length data), memory_free s) })"

definition tcp_retransmit_queue_add :: "nat \<Rightarrow> u32 \<Rightarrow> u8 \<Rightarrow> u8 list \<Rightarrow> 'a net_scheme \<Rightarrow> int \<times> 'a net_scheme" where
  "tcp_retransmit_queue_add p seq' flg data s = (let (ok, s) = memory_alloc (48 + length data) s in
     if \<not> ok then (- 1, s)
     else (case push_entry \<lparr>te_first = gettimeofday s, te_last = gettimeofday s, te_rto = TCP_DEFAULT_RTO,
             te_seq = seq', te_flg = flg, te_data = data\<rparr> (t_queue (the_tcp s p)) s of
         (None, s) \<Rightarrow> (- 1, memory_free s)
       | (Some q, s) \<Rightarrow> (0, map_tcp p (\<lambda>t. t\<lparr>t_queue := q\<rparr>) s)))"

text \<open>The entries from the oldest on that lie before \<open>una\<close>, each two pages.\<close>

definition tcp_retransmit_queue_cleanup :: "nat \<Rightarrow> 'a net_scheme \<Rightarrow> 'a net_scheme" where
  "tcp_retransmit_queue_cleanup p s = (let t = the_tcp s p; old = (\<lambda>e. te_seq e < t_snd_una t) in
     map_tcp p (\<lambda>t. t\<lparr>t_queue := dropWhile old (t_queue t)\<rparr>)
       (s\<lparr>n_pages := n_pages s + 2 * length (takeWhile old (t_queue t))\<rparr>))"

definition tcp_retransmit_queue_emit :: "nat \<Rightarrow> nat \<Rightarrow> 'a net_scheme \<Rightarrow> 'a net_scheme option" where
  "tcp_retransmit_queue_emit p j s = (let t = the_tcp s p; e = t_queue t ! j; now = gettimeofday s;
       diff = timersub now (te_first e) in
     if TCP_RETRANSMIT_DEADLINE \<le> tv_sec diff
     then Some (tcp_wakeup p (map_tcp p (\<lambda>t. t\<lparr>t_state := TCP_CLOSED\<rparr>) s))
     else if timer_less (timeval_add_usec (te_last e) (te_rto e)) now then do {
       (_, s) \<leftarrow> tcp_output_segment (te_seq e) (t_rcv_nxt t) (te_flg e) (t_rcv_wnd t) (te_data e)
         (t_local t) (t_foreign t) s;
       Some (map_tcp p (\<lambda>t. t\<lparr>t_queue := upd_at j (\<lambda>e. e\<lparr>te_last := now, te_rto := te_rto e * 2\<rparr>) (t_queue t)\<rparr>) s) }
     else Some s)"

definition tcp_output :: "nat \<Rightarrow> u8 \<Rightarrow> u8 list \<Rightarrow> 'a net_scheme \<Rightarrow> (int \<times> 'a net_scheme) option" where
  "tcp_output p flg data s = (let t = the_tcp s p;
     seq' = (if TCP_FLG_ISSET flg TCP_FLG_SYN then t_iss t else t_snd_nxt t);
     s = (if TCP_FLG_ISSET flg (TCP_FLG_SYN OR TCP_FLG_FIN) \<or> data \<noteq> []
          then snd (tcp_retransmit_queue_add p seq' flg data s) else s)
   in tcp_output_segment seq' (t_rcv_nxt t) flg (t_rcv_wnd t) data (t_local t) (t_foreign t) s)"

definition tcp_send_ack :: "nat \<Rightarrow> 'a net_scheme \<Rightarrow> 'a net_scheme option" where
  "tcp_send_ack p s = map_option snd (tcp_output p TCP_FLG_ACK [] s)"

text \<open>\<^verbatim>\<open>tcp_output_segment(seg->ack, 0, TCP_FLG_RST, 0, 0, 0, local, foreign)\<close>\<close>

definition tcp_send_rst :: "tcp_segment_info \<Rightarrow> endpoint \<Rightarrow> endpoint \<Rightarrow> 'a net_scheme \<Rightarrow> 'a net_scheme option" where
  "tcp_send_rst seg local foreign s =
     map_option snd (tcp_output_segment (seg_ack seg) 0 TCP_FLG_RST 0 [] local foreign s)"

end
