(* ===== verification/TcpInput.thy ===== *)
theory TcpInput
  imports Tcp
begin

text \<open>
  \<^verbatim>\<open>tcp_segment_arrives\<close>, \<^verbatim>\<open>tcp_input\<close>, the timer, and the user commands of \<^verbatim>\<open>net/tcp.c\<close> that do
  not sleep. The count \<open>len\<close> of text bytes is a 32-bit word, as in the code: a header longer
  than the segment makes it huge.
\<close>

section \<open>Segment arrives\<close>

text \<open>No connection, or a closed one.\<close>

definition tcp_refuse :: "tcp_segment_info \<Rightarrow> u8 \<Rightarrow> endpoint \<Rightarrow> endpoint \<Rightarrow> 'a net_scheme \<Rightarrow> 'a net_scheme option" where
  "tcp_refuse seg flags local foreign s =
     (if TCP_FLG_ISSET flags TCP_FLG_RST then Some s
      else if \<not> TCP_FLG_ISSET flags TCP_FLG_ACK then
        map_option snd (tcp_output_segment 0 (seg_seq seg + ucast (seg_len seg)) (TCP_FLG_RST OR TCP_FLG_ACK) 0 []
          local foreign s)
      else tcp_send_rst seg local foreign s)"

definition tcp_accept_syn :: "nat \<Rightarrow> tcp_segment_info \<Rightarrow> endpoint \<Rightarrow> endpoint \<Rightarrow> 'a net_scheme \<Rightarrow> 'a net_scheme option" where
  "tcp_accept_syn p seg local foreign s = (let (iss, s) = random s;
     s = map_tcp p (\<lambda>t. t\<lparr>t_local := local, t_foreign := foreign, t_iss := iss, t_rcv_nxt := seg_seq seg + 1,
       t_rcv_wnd := of_nat TCP_BUF_SIZE, t_irs := seg_seq seg\<rparr>) s
   in do {
     (_, s) \<leftarrow> tcp_output p (TCP_FLG_SYN OR TCP_FLG_ACK) [] s;
     Some (map_tcp p (\<lambda>t. t\<lparr>t_state := TCP_SYN_RECEIVED, t_snd_nxt := t_iss t + 1, t_snd_una := t_iss t\<rparr>) s) })"

definition tcp_listen_arrives :: "nat \<Rightarrow> tcp_segment_info \<Rightarrow> u8 \<Rightarrow> endpoint \<Rightarrow> endpoint \<Rightarrow> 'a net_scheme \<Rightarrow> 'a net_scheme option" where
  "tcp_listen_arrives p seg flags local foreign s =
     (if TCP_FLG_ISSET flags TCP_FLG_RST then Some s
      else if TCP_FLG_ISSET flags TCP_FLG_ACK then tcp_send_rst seg local foreign s
      else if TCP_FLG_ISSET flags TCP_FLG_SYN then
        (if t_mode (the_tcp s p) = SOCKET then
           (case tcp_pcb_alloc s of
              (None, s) \<Rightarrow> Some s
            | (Some q, s) \<Rightarrow> tcp_accept_syn q seg local foreign
                (map_tcp q (\<lambda>t. t\<lparr>t_mode := SOCKET, t_parent := Some p\<rparr>) s))
         else tcp_accept_syn p seg local foreign s)
      else Some s)"

definition tcp_syn_sent_arrives :: "nat \<Rightarrow> tcp_segment_info \<Rightarrow> u8 \<Rightarrow> endpoint \<Rightarrow> endpoint \<Rightarrow> 'a net_scheme \<Rightarrow> 'a net_scheme option" where
  "tcp_syn_sent_arrives p seg flags local foreign s = (let t = the_tcp s p; ack = seg_ack seg in
     if TCP_FLG_ISSET flags TCP_FLG_ACK \<and> (ack \<le> t_iss t \<or> t_snd_nxt t < ack)
     then tcp_send_rst seg local foreign s
     else let acceptable = TCP_FLG_ISSET flags TCP_FLG_ACK \<and> t_snd_una t \<le> ack \<and> ack \<le> t_snd_nxt t in
       if TCP_FLG_ISSET flags TCP_FLG_SYN then
         let s = map_tcp p (\<lambda>t. t\<lparr>t_rcv_nxt := seg_seq seg + 1, t_irs := seg_seq seg\<rparr>) s;
           s = (if acceptable then tcp_retransmit_queue_cleanup p (map_tcp p (\<lambda>t. t\<lparr>t_snd_una := ack\<rparr>) s) else s)
         in if t_iss (the_tcp s p) < t_snd_una (the_tcp s p) then do {
              s \<leftarrow> tcp_send_ack p (map_tcp p (\<lambda>t. t\<lparr>t_state := TCP_ESTABLISHED\<rparr>) s);
              Some (tcp_wakeup p (map_tcp p (\<lambda>t. t\<lparr>t_snd_wnd := seg_wnd seg, t_snd_wl1 := seg_seq seg,
                t_snd_wl2 := ack\<rparr>) s)) }
            else map_option snd (tcp_output p (TCP_FLG_SYN OR TCP_FLG_ACK) []
              (map_tcp p (\<lambda>t. t\<lparr>t_state := TCP_SYN_RECEIVED\<rparr>) s))
       else Some s)"

text \<open>1st, the sequence number.\<close>

definition tcp_in_window :: "tcp_pcb \<Rightarrow> u32 \<Rightarrow> bool" where
  "tcp_in_window t n \<longleftrightarrow> t_rcv_nxt t \<le> n \<and> n < t_rcv_nxt t + ucast (t_rcv_wnd t)"

definition tcp_acceptable :: "tcp_pcb \<Rightarrow> tcp_segment_info \<Rightarrow> bool" where
  "tcp_acceptable t seg \<longleftrightarrow>
     (if seg_len seg = 0 then
        (if t_rcv_wnd t = 0 then seg_seq seg = t_rcv_nxt t else tcp_in_window t (seg_seq seg))
      else t_rcv_wnd t \<noteq> 0 \<and>
        (tcp_in_window t (seg_seq seg) \<or> tcp_in_window t (seg_seq seg + ucast (seg_len seg) - 1)))"

definition tcp_checks_sequence :: "tcp_state \<Rightarrow> bool" where
  "tcp_checks_sequence st \<longleftrightarrow> st \<in> {TCP_SYN_RECEIVED, TCP_ESTABLISHED, TCP_FIN_WAIT1, TCP_FIN_WAIT2,
     TCP_CLOSE_WAIT, TCP_LAST_ACK}"

text \<open>5th, the ACK field: the case shared by the connected states, and the whole check.\<close>

definition tcp_ack_connected :: "nat \<Rightarrow> tcp_segment_info \<Rightarrow> 'a net_scheme \<Rightarrow> (bool \<times> 'a net_scheme) option" where
  "tcp_ack_connected p seg s = (let t = the_tcp s p; ack = seg_ack seg;
     fin_wait = (\<lambda>s. if t_state (the_tcp s p) = TCP_FIN_WAIT1 \<and> ack = t_snd_nxt (the_tcp s p)
       then map_tcp p (\<lambda>t. t\<lparr>t_state := TCP_FIN_WAIT2\<rparr>) s else s)
   in if t_snd_una t < ack \<and> ack \<le> t_snd_nxt t then
        let s = tcp_retransmit_queue_cleanup p (map_tcp p (\<lambda>t. t\<lparr>t_snd_una := ack\<rparr>) s);
          s = (if t_snd_wl1 t < seg_seq seg \<or> (t_snd_wl1 t = seg_seq seg \<and> t_snd_wl2 t \<le> ack)
            then map_tcp p (\<lambda>t. t\<lparr>t_snd_wnd := seg_wnd seg, t_snd_wl1 := seg_seq seg, t_snd_wl2 := ack\<rparr>) s else s)
        in Some (True, fin_wait s)
      else if ack < t_snd_una t then Some (True, fin_wait s)
      else if t_snd_nxt t < ack then map_option (\<lambda>s. (False, s)) (tcp_send_ack p s)
      else Some (True, fin_wait s))"

text \<open>\<^verbatim>\<open>queue_push(&pcb->parent->backlog, pcb)\<close>; the code does not look at its result.\<close>

definition tcp_push_backlog :: "nat \<Rightarrow> nat \<Rightarrow> 'a net_scheme \<Rightarrow> 'a net_scheme" where
  "tcp_push_backlog par p s = (case push_entry p (t_backlog (the_tcp s par)) s of
     (None, s) \<Rightarrow> s
   | (Some q, s) \<Rightarrow> map_tcp par (\<lambda>t. t\<lparr>t_backlog := q\<rparr>) s)"

definition tcp_ack_arrives :: "nat \<Rightarrow> tcp_segment_info \<Rightarrow> endpoint \<Rightarrow> endpoint \<Rightarrow> 'a net_scheme \<Rightarrow>
    (bool \<times> 'a net_scheme) option" where
  "tcp_ack_arrives p seg local foreign s = (let t = the_tcp s p; ack = seg_ack seg in
     if t_state t = TCP_SYN_RECEIVED then
       if t_snd_una t \<le> ack \<and> ack \<le> t_snd_nxt t then
         let s = tcp_wakeup p (map_tcp p (\<lambda>t. t\<lparr>t_state := TCP_ESTABLISHED\<rparr>) s);
           s = (case t_parent t of None \<Rightarrow> s | Some par \<Rightarrow> tcp_wakeup par (tcp_push_backlog par p s))
         in tcp_ack_connected p seg s
       else map_option (\<lambda>s. (False, s)) (tcp_send_rst seg local foreign s)
     else if t_state t \<in> {TCP_ESTABLISHED, TCP_FIN_WAIT1, TCP_FIN_WAIT2, TCP_CLOSE_WAIT}
     then tcp_ack_connected p seg s
     else if t_state t = TCP_LAST_ACK then
       if ack = t_snd_nxt t
       then map_option (\<lambda>s. (False, s)) (tcp_pcb_release p (map_tcp p (\<lambda>t. t\<lparr>t_state := TCP_CLOSED\<rparr>) s))
       else Some (False, s)
     else Some (True, s))"

text \<open>7th, the text, copied behind the bytes that the buffer holds.\<close>

definition tcp_text_arrives :: "nat \<Rightarrow> tcp_segment_info \<Rightarrow> u8 list \<Rightarrow> u32 \<Rightarrow> 'a net_scheme \<Rightarrow> 'a net_scheme option" where
  "tcp_text_arrives p seg data len s = (let t = the_tcp s p in
     if t_state t \<in> {TCP_ESTABLISHED, TCP_FIN_WAIT1, TCP_FIN_WAIT2} \<and> len \<noteq> 0 then
       if unat (t_rcv_wnd t) < unat len then None
       else do {
         s \<leftarrow> tcp_send_ack p (map_tcp p (\<lambda>t. t
           \<lparr>t_rcv_nxt := seg_seq seg + ucast (seg_len seg), t_rcv_wnd := t_rcv_wnd t - ucast len,
            t_buf := splice (TCP_BUF_SIZE - unat (t_rcv_wnd t)) (take (unat len) data) (t_buf t)\<rparr>) s);
         Some (tcp_wakeup p s) }
     else Some s)"

text \<open>8th, the FIN bit.\<close>

definition tcp_fin_arrives :: "nat \<Rightarrow> tcp_segment_info \<Rightarrow> u8 \<Rightarrow> 'a net_scheme \<Rightarrow> 'a net_scheme option" where
  "tcp_fin_arrives p seg flags s =
     (if \<not> TCP_FLG_ISSET flags TCP_FLG_FIN then Some s
      else if t_state (the_tcp s p) \<in> {TCP_CLOSED, TCP_LISTEN} then Some s
      else do {
        s \<leftarrow> tcp_send_ack p (map_tcp p (\<lambda>t. t\<lparr>t_rcv_nxt := seg_seq seg + 1\<rparr>) s);
        Some (case t_state (the_tcp s p) of
          TCP_SYN_RECEIVED \<Rightarrow> tcp_wakeup p (map_tcp p (\<lambda>t. t\<lparr>t_state := TCP_CLOSE_WAIT\<rparr>) s)
        | TCP_ESTABLISHED \<Rightarrow> tcp_wakeup p (map_tcp p (\<lambda>t. t\<lparr>t_state := TCP_CLOSE_WAIT\<rparr>) s)
        | TCP_FIN_WAIT1 \<Rightarrow> map_tcp p (\<lambda>t. t\<lparr>t_state :=
            (if seg_ack seg = t_snd_nxt t then TCP_TIME_WAIT else TCP_CLOSING)\<rparr>) s
        | TCP_FIN_WAIT2 \<Rightarrow> map_tcp p (\<lambda>t. t\<lparr>t_state := TCP_TIME_WAIT\<rparr>) s
        | _ \<Rightarrow> s) })"

definition tcp_segment_arrives :: "tcp_segment_info \<Rightarrow> u8 \<Rightarrow> u8 list \<Rightarrow> u32 \<Rightarrow> endpoint \<Rightarrow> endpoint \<Rightarrow> 'a net_scheme \<Rightarrow>
    'a net_scheme option" where
  "tcp_segment_arrives seg flags data len local foreign s =
     (case tcp_pcb_select local (Some foreign) s of
        None \<Rightarrow> tcp_refuse seg flags local foreign s
      | Some p \<Rightarrow> let st = t_state (the_tcp s p) in
          if st = TCP_CLOSED then tcp_refuse seg flags local foreign s
          else if st = TCP_LISTEN then tcp_listen_arrives p seg flags local foreign s
          else if st = TCP_SYN_SENT then tcp_syn_sent_arrives p seg flags local foreign s
          else if tcp_checks_sequence st \<and> \<not> tcp_acceptable (the_tcp s p) seg
          then (if TCP_FLG_ISSET flags TCP_FLG_RST then Some s else tcp_send_ack p s)
          else if \<not> TCP_FLG_ISSET flags TCP_FLG_ACK then Some s
          else do {
            (go, s) \<leftarrow> tcp_ack_arrives p seg local foreign s;
            if \<not> go then Some s
            else do {
              s \<leftarrow> tcp_text_arrives p seg data len s;
              tcp_fin_arrives p seg flags s } })"

section \<open>Input, timer, events\<close>

definition tcp_seg_info :: "u8 list \<Rightarrow> u16 \<Rightarrow> tcp_segment_info" where
  "tcp_seg_info data hlen = \<lparr>seg_seq = ntoh32 (get32 4 data), seg_ack = ntoh32 (get32 8 data),
     seg_len = of_nat (length data) - hlen + (if TCP_FLG_ISSET (data ! 13) TCP_FLG_SYN then 1 else 0) +
       (if TCP_FLG_ISSET (data ! 13) TCP_FLG_FIN then 1 else 0),
     seg_wnd = ntoh16 (get16 14 data)\<rparr>"

definition tcp_input :: "u8 list \<Rightarrow> u32 \<Rightarrow> u32 \<Rightarrow> nat \<Rightarrow> 'a net_scheme \<Rightarrow> 'a net_scheme option" where
  "tcp_input data src dst i s =
     (if length data < TCP_HDR_SIZE then Some s
      else let len = of_nat (length data); bcast = if_broadcast (the_if s i) in
        if cksum16 data len (ucast (pseudo_sum IP_PROTOCOL_TCP src dst len)) \<noteq> 0 then Some s
        else if src = IP_ADDR_BROADCAST \<or> src = bcast \<or> dst = IP_ADDR_BROADCAST \<or> dst = bcast then Some s
        else let hlen = push_bit 2 (ucast (drop_bit 4 (data ! 12))) :: u16 in
          tcp_segment_arrives (tcp_seg_info data hlen) (data ! 13) (drop (unat hlen) data)
            (of_nat (length data) - ucast hlen)
            \<lparr>ep_addr = dst, ep_port = get16 2 data\<rparr> \<lparr>ep_addr = src, ep_port = get16 0 data\<rparr> s)"

text \<open>The entries of one queue, and all control blocks.\<close>

fun tcp_emit_all :: "nat \<Rightarrow> nat list \<Rightarrow> 'a net_scheme \<Rightarrow> 'a net_scheme option" where
  "tcp_emit_all p [] s = Some s"
| "tcp_emit_all p (j # js) s = do { s \<leftarrow> tcp_retransmit_queue_emit p j s; tcp_emit_all p js s }"

fun tcp_timer_from :: "nat list \<Rightarrow> 'a net_scheme \<Rightarrow> 'a net_scheme option" where
  "tcp_timer_from [] s = Some s"
| "tcp_timer_from (p # ps) s =
     (if t_state (the_tcp s p) = TCP_FREE then tcp_timer_from ps s
      else do { s \<leftarrow> tcp_emit_all p [0..<length (t_queue (the_tcp s p))] s; tcp_timer_from ps s })"

definition tcp_timer :: "'a net_scheme \<Rightarrow> 'a net_scheme option" where
  "tcp_timer s = tcp_timer_from [0..<length (n_tcp s)] s"

definition tcp_event_handler :: "'a net_scheme \<Rightarrow> 'a net_scheme" where
  "tcp_event_handler s = s\<lparr>n_tcp := map (\<lambda>t. if t_state t \<noteq> TCP_FREE
     then t\<lparr>t_ctx := sched_interrupt (t_ctx t)\<rparr> else t) (n_tcp s)\<rparr>"

definition tcp_init :: "'a net_scheme \<Rightarrow> int \<times> 'a net_scheme" where
  "tcp_init s = (let (r, s) = ip_protocol_register IP_PROTOCOL_TCP Tcp_input s in
     if r = - 1 then (- 1, s)
     else let (r, s) = net_timer_register \<lparr>tv_sec = 0, tv_usec = 100000\<rparr> Tcp_timer s in
       if r = - 1 then (- 1, s) else (0, snd (net_event_subscribe Tcp_event s)))"

section \<open>User commands\<close>

definition tcp_open :: "'a net_scheme \<Rightarrow> int \<times> 'a net_scheme" where
  "tcp_open s = (case tcp_pcb_alloc s of
     (None, s) \<Rightarrow> (- 1, s)
   | (Some i, s) \<Rightarrow> (int i, map_tcp i (\<lambda>t. t\<lparr>t_mode := SOCKET\<rparr>) s))"

text \<open>\<open>tcp_output(...FIN...); snd.nxt++; state = st; sched_wakeup\<close>\<close>

definition tcp_send_fin :: "nat \<Rightarrow> tcp_state \<Rightarrow> 'a net_scheme \<Rightarrow> 'a net_scheme option" where
  "tcp_send_fin p st s = do {
     (_, s) \<leftarrow> tcp_output p (TCP_FLG_ACK OR TCP_FLG_FIN) [] s;
     Some (tcp_wakeup p (map_tcp p (\<lambda>t. t\<lparr>t_state := st, t_snd_nxt := t_snd_nxt t + 1\<rparr>) s)) }"

definition tcp_close :: "int \<Rightarrow> 'a net_scheme \<Rightarrow> (int \<times> 'a net_scheme) option" where
  "tcp_close id' s = (case tcp_pcb_get id' s of
     None \<Rightarrow> Some (- 1, s)
   | Some p \<Rightarrow> (case t_state (the_tcp s p) of
       TCP_LISTEN \<Rightarrow> map_option (\<lambda>s. (0, s)) (tcp_pcb_release p (map_tcp p (\<lambda>t. t\<lparr>t_state := TCP_CLOSED\<rparr>) s))
     | TCP_ESTABLISHED \<Rightarrow> map_option (\<lambda>s. (0, s)) (tcp_send_fin p TCP_FIN_WAIT1 s)
     | TCP_CLOSE_WAIT \<Rightarrow> map_option (\<lambda>s. (0, s)) (tcp_send_fin p TCP_LAST_ACK s)
     | _ \<Rightarrow> Some (- 1, s)))"

definition tcp_bind :: "int \<Rightarrow> endpoint \<Rightarrow> 'a net_scheme \<Rightarrow> int \<times> 'a net_scheme" where
  "tcp_bind id' local s = (case tcp_pcb_get id' s of
     None \<Rightarrow> (- 1, s)
   | Some p \<Rightarrow> if t_mode (the_tcp s p) \<noteq> SOCKET then (- 1, s)
       else if tcp_pcb_select local None s \<noteq> None then (- 1, s)
       else (0, map_tcp p (\<lambda>t. t\<lparr>t_local := local\<rparr>) s))"

definition tcp_listen :: "int \<Rightarrow> 'a net_scheme \<Rightarrow> int \<times> 'a net_scheme" where
  "tcp_listen id' s = (case tcp_pcb_get id' s of
     None \<Rightarrow> (- 1, s)
   | Some p \<Rightarrow> if t_mode (the_tcp s p) \<noteq> SOCKET then (- 1, s)
       else (0, map_tcp p (\<lambda>t. t\<lparr>t_state := TCP_LISTEN\<rparr>) s))"

end
