(* ===== verification/NetStack.thy ===== *)
theory NetStack
  imports TcpInput
begin

text \<open>
  The rest of \<^verbatim>\<open>net/net.c\<close>: the software interrupt that hands received packets to the protocols,
  the timers and events, and the initialisation of the stack, with \<^verbatim>\<open>virtio_net_init\<close>.
  Handlers stored as pointers get their meaning here.
\<close>

section \<open>Dispatch\<close>

definition ip_call :: "ip_handler \<Rightarrow> u8 list \<Rightarrow> u32 \<Rightarrow> u32 \<Rightarrow> nat \<Rightarrow> 'a net_scheme \<Rightarrow> 'a net_scheme option" where
  "ip_call h = (case h of Icmp_input \<Rightarrow> icmp_input | Udp_input \<Rightarrow> udp_input | Tcp_input \<Rightarrow> tcp_input)"

definition net_call :: "net_handler \<Rightarrow> u8 list \<Rightarrow> nat \<Rightarrow> 'a net_scheme \<Rightarrow> 'a net_scheme option" where
  "net_call h = (case h of Arp_input \<Rightarrow> arp_input | Ip_input \<Rightarrow> ip_input ip_call)"

text \<open>The loop over the queue of protocol \<open>i\<close>: a popped entry gives back two pages.\<close>

partial_function (option) softirq_queue :: "nat \<Rightarrow> 'a net_scheme \<Rightarrow> 'a net_scheme option" where
  "softirq_queue i s = (case pr_queue (n_protos s ! i) of
     [] \<Rightarrow> Some s
   | e # q \<Rightarrow> do {
       s \<leftarrow> net_call (pr_handler (n_protos s ! i)) (snd e) (fst e)
         (memory_free (s\<lparr>n_protos := upd_at i (\<lambda>p. p\<lparr>pr_queue := q\<rparr>) (n_protos s)\<rparr>));
       softirq_queue i (memory_free s) })"

fun softirq_from :: "nat list \<Rightarrow> 'a net_scheme \<Rightarrow> 'a net_scheme option" where
  "softirq_from [] s = Some s"
| "softirq_from (i # is) s = do { s \<leftarrow> softirq_queue i s; softirq_from is s }"

definition net_softirq_handler :: "'a net_scheme \<Rightarrow> 'a net_scheme option" where
  "net_softirq_handler s = softirq_from [0..<length (n_protos s)] s"

definition timer_call :: "timer_handler \<Rightarrow> 'a net_scheme \<Rightarrow> 'a net_scheme option" where
  "timer_call h s = (case h of Arp_timer \<Rightarrow> Some (arp_timer_handler s) | Tcp_timer \<Rightarrow> tcp_timer s)"

fun timers_from :: "nat list \<Rightarrow> 'a net_scheme \<Rightarrow> 'a net_scheme option" where
  "timers_from [] s = Some s"
| "timers_from (i # is) s = (let t = n_timers s ! i; now = gettimeofday s in
     if timer_less (ti_interval t) (timersub now (ti_last t)) then do {
       s \<leftarrow> timer_call (ti_handler t) s;
       timers_from is (s\<lparr>n_timers := upd_at i (\<lambda>t. t\<lparr>ti_last := now\<rparr>) (n_timers s)\<rparr>) }
     else timers_from is s)"

definition net_timer_handler :: "'a net_scheme \<Rightarrow> 'a net_scheme option" where
  "net_timer_handler s = timers_from [0..<length (n_timers s)] s"

definition event_call :: "event_handler \<Rightarrow> 'a net_scheme \<Rightarrow> 'a net_scheme" where
  "event_call h = (case h of Udp_event \<Rightarrow> udp_event_handler | Tcp_event \<Rightarrow> tcp_event_handler)"

definition net_event_handler :: "'a net_scheme \<Rightarrow> 'a net_scheme" where
  "net_event_handler s = fold event_call (n_events s) s"

section \<open>Initialisation\<close>

definition net_init :: "'a net_scheme \<Rightarrow> int \<times> 'a net_scheme" where
  "net_init s = (let (r, s) = ip_init (net_platform_init s) in
     if r = - 1 then (- 1, s) else let (r, s) = arp_init s in
     if r = - 1 then (- 1, s) else let (r, s) = icmp_init s in
     if r = - 1 then (- 1, s) else let (r, s) = udp_init s in
     if r = - 1 then (- 1, s) else let (r, s) = tcp_init s in
     if r = - 1 then (- 1, s) else (0, s))"

text \<open>What the registers of the card say when the driver probes it.\<close>

record virtio_regs =
  vr_magic :: u32
  vr_version :: u32
  vr_device_id :: u32
  vr_vendor_id :: u32
  vr_features :: u32
  vr_mac :: "u8 list"
  vr_queue_max :: u32

definition VIRTIO_NET_F_MAC :: nat where "VIRTIO_NET_F_MAC = 5"
definition VIRTIO_NET_F_CSUM :: nat where "VIRTIO_NET_F_CSUM = 0"
definition VIRTIO_RING_F_EVENT_IDX :: nat where "VIRTIO_RING_F_EVENT_IDX = 29"

definition virtio_net_found :: "virtio_regs \<Rightarrow> bool" where
  "virtio_net_found r \<longleftrightarrow> \<not> (vr_magic r \<noteq> 0x74726976 \<or> (vr_version r \<noteq> 1 \<and> vr_version r \<noteq> 2) \<or>
     vr_device_id r \<noteq> 1 \<or> vr_vendor_id r \<noteq> 0x554d4551)"

definition negotiated :: "virtio_regs \<Rightarrow> u64" where
  "negotiated r = ucast (vr_features r) AND NOT (push_bit VIRTIO_RING_F_EVENT_IDX 1) AND
     NOT (push_bit VIRTIO_NET_F_CSUM 1)"

definition mac_address :: "virtio_regs \<Rightarrow> u8 list" where
  "mac_address r = (if negotiated r AND push_bit VIRTIO_NET_F_MAC 1 \<noteq> 0 then take ETHER_ADDR_LEN (vr_mac r)
     else [0x52, 0x54, 0x00, 0x12, 0x34, 0x56])"

text \<open>The static configuration: 10.0.2.15/255.255.255.0 and gateway 10.0.2.2, as the strings of the code.\<close>

definition configure_ip :: "nat \<Rightarrow> 'a net_scheme \<Rightarrow> 'a net_scheme" where
  "configure_ip dev s = (case ip_iface_alloc [49,48,46,48,46,50,46,49,53]
       [50,53,53,46,50,53,53,46,50,53,53,46,48] s of
     (None, s) \<Rightarrow> s
   | (Some i, s) \<Rightarrow> let (r, s) = ip_iface_register dev i s in
       if r = - 1 then s else snd (ip_route_set_default_gateway i [49,48,46,48,46,50,46,50] s))"

definition virtio_net_init :: "virtio_regs \<Rightarrow> 'a net_scheme \<Rightarrow> 'a net_scheme option" where
  "virtio_net_init r s =
     (if \<not> virtio_net_found r then Some s
      else do {
        tx \<leftarrow> virtq_init (vr_queue_max r) (int NUM) (nic_tx (n_nic s));
        rx \<leftarrow> virtq_init (vr_queue_max r) (int NUM) (nic_rx (n_nic s));
        let s = map_nic (\<lambda>nic. nic\<lparr>nic_status := 1 OR 2 OR VIRTIO_CONFIG_S_DRIVER_OK,
          nic_features := negotiated r, nic_rx := offer_rx nic rx, nic_tx := tx\<rparr>) s;
        Some (case net_device_alloc s of
          (None, s) \<Rightarrow> s
        | (Some dev, s) \<Rightarrow> let
            s = map_dev dev (\<lambda>d. (ether_setup_helper d)\<lparr>d_addr := splice 0 (mac_address r) (d_addr d)\<rparr>) s;
            (_, s) = net_device_register dev s
          in configure_ip dev (map_nic (\<lambda>nic. nic\<lparr>nic_dev := dev\<rparr>) s)) })"

end
