(* ===== verification/NetUser.thy ===== *)
theory NetUser
  imports NetStack
begin

text \<open>
  Sleeping, and the user commands that sleep. \<^verbatim>\<open>sched_sleep\<close> polls: in each round interrupts are
  on, so the card may deliver its interrupt, and then pending packets and timers are served.
  A schedule lists the rounds of one sleep: the value of the cycle counter, and, where
  an interrupt arrives, what the card has done to the rings. The end of a schedule is the end
  of \<^verbatim>\<open>timeout_loops\<close>, which the code treats as a wake-up. A command takes the schedules of the
  sleeps it may fall into; \<open>Blocked\<close> is the state in which it still sleeps when they are used up.
\<close>

record poll =
  po_clock :: u64
  po_intr :: "(virtio_net \<Rightarrow> virtio_net) option"

datatype sleeper = Udp_ctx nat | Tcp_ctx nat

definition the_ctx :: "'a net_scheme \<Rightarrow> sleeper \<Rightarrow> sched_ctx" where
  "the_ctx s w = (case w of Udp_ctx i \<Rightarrow> u_ctx (the_udp s i) | Tcp_ctx i \<Rightarrow> t_ctx (the_tcp s i))"

definition map_ctx :: "sleeper \<Rightarrow> (sched_ctx \<Rightarrow> sched_ctx) \<Rightarrow> 'a net_scheme \<Rightarrow> 'a net_scheme" where
  "map_ctx w f = (case w of
     Udp_ctx i \<Rightarrow> map_udp i (\<lambda>p. p\<lparr>u_ctx := f (u_ctx p)\<rparr>)
   | Tcp_ctx i \<Rightarrow> map_tcp i (\<lambda>t. t\<lparr>t_ctx := f (t_ctx t)\<rparr>))"

fun sleep_loop :: "sleeper \<Rightarrow> poll list \<Rightarrow> 'a net_scheme \<Rightarrow> 'a net_scheme option" where
  "sleep_loop w [] s = Some s"
| "sleep_loop w (p # ps) s =
     (if c_ready (the_ctx s w) \<or> c_interrupted (the_ctx s w) then Some s
      else do {
        let s = s\<lparr>n_clock := po_clock p\<rparr>;
        s \<leftarrow> (case po_intr p of None \<Rightarrow> Some s | Some f \<Rightarrow> virtio_net_intr (map_nic f s));
        s \<leftarrow> (if n_pending s AND INTR_IRQ_SOFTIRQ \<noteq> 0
             then net_softirq_handler (s\<lparr>n_pending := n_pending s AND NOT INTR_IRQ_SOFTIRQ\<rparr>) else Some s);
        s \<leftarrow> net_timer_handler s;
        sleep_loop w ps s })"

definition sched_sleep :: "sleeper \<Rightarrow> poll list \<Rightarrow> 'a net_scheme \<Rightarrow> (int \<times> 'a net_scheme) option" where
  "sched_sleep w ps s =
     (if c_interrupted (the_ctx s w) then Some (- 1, s\<lparr>n_errno := EINTR\<rparr>)
      else do {
        s \<leftarrow> sleep_loop w ps (map_ctx w (\<lambda>c. c\<lparr>c_wc := c_wc c + 1, c_ready := False\<rparr>) s);
        let s = map_ctx w (\<lambda>c. c\<lparr>c_wc := c_wc c - 1\<rparr>) s;
        if c_interrupted (the_ctx s w) then
          Some (- 1, (if c_wc (the_ctx s w) = 0 then map_ctx w (\<lambda>c. c\<lparr>c_interrupted := False\<rparr>) s else s)
            \<lparr>n_errno := EINTR\<rparr>)
        else Some (0, s) })"

datatype 'r call_result = Return 'r | Blocked

type_synonym 's user_call = "(int call_result \<times> 's) option"

definition interrupted :: "'a net_scheme \<Rightarrow> 'a net_scheme" where
  "interrupted s = s\<lparr>n_errno := EINTR\<rparr>"

section \<open>UDP\<close>

text \<open>The bytes received and the sender come with the result.\<close>

fun udp_recv_loop :: "nat \<Rightarrow> poll list list \<Rightarrow> nat \<Rightarrow> 'a net_scheme \<Rightarrow>
    ((int \<times> u8 list \<times> endpoint option) call_result \<times> 'a net_scheme) option" where
  "udp_recv_loop i ws sz s = (case u_queue (the_udp s i) of
     e # q \<Rightarrow> Some (Return (int (min sz (length (snd e))), take sz (snd e), Some (fst e)),
       memory_free (memory_free (map_udp i (\<lambda>p. p\<lparr>u_queue := q\<rparr>) s)))
   | [] \<Rightarrow> (case ws of
       [] \<Rightarrow> Some (Blocked, s)
     | w # ws \<Rightarrow> do {
         (err, s) \<leftarrow> sched_sleep (Udp_ctx i) w s;
         if err \<noteq> 0 then Some (Return (- 1, [], None), interrupted s)
         else if u_state (the_udp s i) = UDP_CLOSING then Some (Return (- 1, [], None), udp_pcb_release i s)
         else udp_recv_loop i ws sz s }))"

definition udp_recvfrom :: "int \<Rightarrow> nat \<Rightarrow> poll list list \<Rightarrow> 'a net_scheme \<Rightarrow>
    ((int \<times> u8 list \<times> endpoint option) call_result \<times> 'a net_scheme) option" where
  "udp_recvfrom id' sz ws s = (case udp_pcb_get id' s of
     None \<Rightarrow> Some (Return (- 1, [], None), s)
   | Some i \<Rightarrow> udp_recv_loop i ws sz s)"

section \<open>TCP: opening\<close>

definition tcp_fail :: "nat \<Rightarrow> 'a net_scheme \<Rightarrow> (int \<times> 'a net_scheme) option" where
  "tcp_fail p s = map_option (\<lambda>s. (- 1, s)) (tcp_pcb_release p (map_tcp p (\<lambda>t. t\<lparr>t_state := TCP_CLOSED\<rparr>) s))"

text \<open>The loop from the label \<^verbatim>\<open>AGAIN\<close> on; \<open>st\<close> is the state it waits to change.\<close>

fun tcp_wait_open :: "nat \<Rightarrow> tcp_state \<Rightarrow> poll list list \<Rightarrow> 'a net_scheme \<Rightarrow> 'a net_scheme user_call" where
  "tcp_wait_open p st ws s =
     (if t_state (the_tcp s p) = st then (case ws of
        [] \<Rightarrow> Some (Blocked, s)
      | w # ws \<Rightarrow> do {
          (err, s) \<leftarrow> sched_sleep (Tcp_ctx p) w s;
          if err = - 1 then map_option (\<lambda>(r, s). (Return r, interrupted s)) (tcp_fail p s)
          else tcp_wait_open p st ws s })
      else if t_state (the_tcp s p) \<noteq> TCP_ESTABLISHED then
        if t_state (the_tcp s p) = TCP_SYN_RECEIVED then (case ws of
            [] \<Rightarrow> Some (Blocked, s)
          | w # ws \<Rightarrow> do {
              (err, s) \<leftarrow> sched_sleep (Tcp_ctx p) w s;
              if err = - 1 then map_option (\<lambda>(r, s). (Return r, interrupted s)) (tcp_fail p s)
              else tcp_wait_open p TCP_SYN_RECEIVED ws s })
        else map_option (\<lambda>(r, s). (Return r, s)) (tcp_fail p s)
      else Some (Return (int p), s))"

declare tcp_wait_open.simps [simp del] udp_recv_loop.simps [simp del]

text \<open>The active part of an open: send SYN and go to \<open>SYN_SENT\<close>; \<open>False\<close> if the output failed.\<close>

definition tcp_send_syn :: "nat \<Rightarrow> endpoint \<Rightarrow> endpoint \<Rightarrow> 'a net_scheme \<Rightarrow> (bool \<times> 'a net_scheme) option" where
  "tcp_send_syn p local foreign s = (let
     s = map_tcp p (\<lambda>t. t\<lparr>t_local := local, t_foreign := foreign, t_rcv_wnd := of_nat TCP_BUF_SIZE\<rparr>) s;
     (iss, s) = random s
   in do {
     (r, s) \<leftarrow> tcp_output p TCP_FLG_SYN [] (map_tcp p (\<lambda>t. t\<lparr>t_iss := iss\<rparr>) s);
     if r = - 1 then map_option (\<lambda>(_, s). (False, s)) (tcp_fail p s)
     else Some (True, map_tcp p (\<lambda>t. t\<lparr>t_state := TCP_SYN_SENT, t_snd_nxt := t_iss t + 1, t_snd_una := t_iss t\<rparr>) s) })"

definition tcp_open_rfc793 :: "endpoint \<Rightarrow> endpoint option \<Rightarrow> bool \<Rightarrow> poll list list \<Rightarrow> 'a net_scheme \<Rightarrow> 'a net_scheme user_call" where
  "tcp_open_rfc793 local foreign active ws s = (case tcp_pcb_alloc s of
     (None, s) \<Rightarrow> Some (Return (- 1), s)
   | (Some p, s) \<Rightarrow>
       if active then (case foreign of
         None \<Rightarrow> None
       | Some f \<Rightarrow> do {
           (ok, s) \<leftarrow> tcp_send_syn p local f s;
           if \<not> ok then Some (Return (- 1), s) else tcp_wait_open p TCP_SYN_SENT ws s })
       else tcp_wait_open p TCP_LISTEN ws (map_tcp p (\<lambda>t. t\<lparr>t_state := TCP_LISTEN, t_local := local,
         t_foreign := (case foreign of None \<Rightarrow> t_foreign t | Some f \<Rightarrow> f)\<rparr>) s))"

text \<open>
  The first port of the dynamic range, in host byte order as the code assigns it, that no
  block uses with the peer; the last one tried if every one is used.
\<close>

definition tcp_free_port :: "u32 \<Rightarrow> endpoint \<Rightarrow> 'a net_scheme \<Rightarrow> u16" where
  "tcp_free_port addr foreign s = (case find (\<lambda>p. tcp_pcb_select \<lparr>ep_addr = addr, ep_port = of_nat p\<rparr> (Some foreign) s = None)
     [TCP_SOURCE_PORT_MIN..<TCP_SOURCE_PORT_MAX + 1] of
       Some p \<Rightarrow> of_nat p | None \<Rightarrow> of_nat TCP_SOURCE_PORT_MAX)"

definition tcp_connect :: "int \<Rightarrow> endpoint \<Rightarrow> poll list list \<Rightarrow> 'a net_scheme \<Rightarrow> 'a net_scheme user_call" where
  "tcp_connect id' foreign ws s = (case tcp_pcb_get id' s of
     None \<Rightarrow> Some (Return (- 1), s)
   | Some p \<Rightarrow> let l = t_local (the_tcp s p) in
       if t_mode (the_tcp s p) \<noteq> SOCKET then Some (Return (- 1), s)
       else (case (if ep_addr l = IP_ADDR_ANY
                   then map_option (\<lambda>f. if_unicast (the_if s f)) (ip_route_get_iface (ep_addr foreign) s)
                   else Some (ep_addr l)) of
           None \<Rightarrow> Some (Return (- 1), s)
         | Some addr \<Rightarrow> let port = (if ep_port l = 0 then tcp_free_port addr foreign s else ep_port l) in do {
             (ok, s) \<leftarrow> tcp_send_syn p \<lparr>ep_addr = addr, ep_port = port\<rparr> foreign s;
             if \<not> ok then Some (Return (- 1), s) else tcp_wait_open p TCP_SYN_SENT ws s }))"

fun tcp_accept_loop :: "nat \<Rightarrow> poll list list \<Rightarrow> 'a net_scheme \<Rightarrow> 'a net_scheme user_call" where
  "tcp_accept_loop p ws s = (case t_backlog (the_tcp s p) of
     q # qs \<Rightarrow> Some (Return (int q), memory_free (map_tcp p (\<lambda>t. t\<lparr>t_backlog := qs\<rparr>) s))
   | [] \<Rightarrow> (case ws of
       [] \<Rightarrow> Some (Blocked, s)
     | w # ws \<Rightarrow> do {
         (err, s) \<leftarrow> sched_sleep (Tcp_ctx p) w s;
         if err = - 1 then Some (Return (- 1), interrupted s)
         else if t_state (the_tcp s p) = TCP_CLOSED then map_option (\<lambda>s. (Return (- 1), s)) (tcp_pcb_release p s)
         else tcp_accept_loop p ws s }))"

text \<open>The identifier of the connection; its peer is \<open>t_foreign\<close> of that block.\<close>

definition tcp_accept :: "int \<Rightarrow> poll list list \<Rightarrow> 'a net_scheme \<Rightarrow> 'a net_scheme user_call" where
  "tcp_accept id' ws s = (case tcp_pcb_get id' s of
     None \<Rightarrow> Some (Return (- 1), s)
   | Some p \<Rightarrow> if t_mode (the_tcp s p) \<noteq> SOCKET then Some (Return (- 1), s)
       else if t_state (the_tcp s p) \<noteq> TCP_LISTEN then Some (Return (- 1), s)
       else tcp_accept_loop p ws s)"

section \<open>TCP: data\<close>

text \<open>\<open>cap\<close>: what the window of the peer still allows, computed on 32-bit words.\<close>

definition tcp_cap :: "tcp_pcb \<Rightarrow> u32" where
  "tcp_cap t = ucast (t_snd_wnd t) - (t_snd_nxt t - t_snd_una t)"

function tcp_send_loop :: "nat \<Rightarrow> u8 list \<Rightarrow> nat \<Rightarrow> poll list list \<Rightarrow> 'a net_scheme \<Rightarrow> 'a net_scheme user_call" where
  "tcp_send_loop p data sent ws s =
     (if t_state (the_tcp s p) \<in> {TCP_ESTABLISHED, TCP_CLOSE_WAIT} then
        (case ip_route_get_iface (ep_addr (t_foreign (the_tcp s p))) s of
           None \<Rightarrow> Some (Return (- 1), s)
         | Some f \<Rightarrow> if length data \<le> sent then Some (Return (int sent), s)
             else let mss = ucast (d_mtu (if_device s f)) - of_nat (IP_HDR_SIZE_MIN + TCP_HDR_SIZE) :: u32;
               cap = tcp_cap (the_tcp s p);
               slen = min (min (unat mss) (length data - sent)) (unat cap)
             in if cap = 0 then (case ws of
                  [] \<Rightarrow> Some (Blocked, s)
                | w # ws \<Rightarrow> do {
                    (err, s) \<leftarrow> sched_sleep (Tcp_ctx p) w s;
                    if err = - 1 then Some (if sent = 0 then (Return (- 1), interrupted s) else (Return (int sent), s))
                    else tcp_send_loop p data sent ws s })
                else if slen = 0 then None
                else do {
                  (r, s) \<leftarrow> tcp_output p (TCP_FLG_ACK OR TCP_FLG_PSH) (slice sent slen data) s;
                  if r = - 1 then map_option (\<lambda>(r, s). (Return r, s)) (tcp_fail p s)
                  else tcp_send_loop p data (sent + slen) ws
                    (map_tcp p (\<lambda>t. t\<lparr>t_snd_nxt := t_snd_nxt t + of_nat slen\<rparr>) s) })
      else Some (Return (- 1), s))"
  by pat_completeness auto
termination
  by (relation "measure (\<lambda>(p, data, sent, ws, s). length ws + (length data - sent))") (auto simp: min_def)

declare tcp_send_loop.simps [simp del]

definition tcp_send :: "int \<Rightarrow> u8 list \<Rightarrow> poll list list \<Rightarrow> 'a net_scheme \<Rightarrow> 'a net_scheme user_call" where
  "tcp_send id' data ws s = (case tcp_pcb_get id' s of
     None \<Rightarrow> Some (Return (- 1), s)
   | Some p \<Rightarrow> tcp_send_loop p data 0 ws s)"

definition tcp_take_text :: "nat \<Rightarrow> nat \<Rightarrow> 'a net_scheme \<Rightarrow> u8 list \<times> 'a net_scheme" where
  "tcp_take_text p sz s = (let t = the_tcp s p; remain = TCP_BUF_SIZE - unat (t_rcv_wnd t); len = min sz remain in
     (take len (t_buf t), map_tcp p (\<lambda>t. t
       \<lparr>t_rcv_wnd := t_rcv_wnd t + of_nat len,
        t_buf := splice 0 (slice len (remain - len) (t_buf t)) (t_buf t)\<rparr>) s))"

fun tcp_receive_loop :: "nat \<Rightarrow> nat \<Rightarrow> poll list list \<Rightarrow> 'a net_scheme \<Rightarrow> ((int \<times> u8 list) call_result \<times> 'a net_scheme) option" where
  "tcp_receive_loop p sz ws s = (let remain = TCP_BUF_SIZE - unat (t_rcv_wnd (the_tcp s p));
     taken = (let (xs, s) = tcp_take_text p sz s in Some (Return (int (length xs), xs), s)) in
     case t_state (the_tcp s p) of
       TCP_ESTABLISHED \<Rightarrow>
         if remain = 0 then (case ws of
           [] \<Rightarrow> Some (Blocked, s)
         | w # ws \<Rightarrow> do {
             (err, s) \<leftarrow> sched_sleep (Tcp_ctx p) w s;
             if err = - 1 then Some (Return (- 1, []), interrupted s) else tcp_receive_loop p sz ws s })
         else taken
     | TCP_CLOSE_WAIT \<Rightarrow> if remain \<noteq> 0 then taken else Some (Return (0, []), s)
     | _ \<Rightarrow> Some (Return (- 1, []), s))"

declare tcp_receive_loop.simps [simp del] tcp_accept_loop.simps [simp del]

definition tcp_receive :: "int \<Rightarrow> nat \<Rightarrow> poll list list \<Rightarrow> 'a net_scheme \<Rightarrow> ((int \<times> u8 list) call_result \<times> 'a net_scheme) option" where
  "tcp_receive id' sz ws s = (case tcp_pcb_get id' s of
     None \<Rightarrow> Some (Return (- 1, []), s)
   | Some p \<Rightarrow> tcp_receive_loop p sz ws s)"

end
