(* ===== verification/Http.thy ===== *)
theory Http
  imports NetUser
begin

text \<open>
  \<^verbatim>\<open>net/http.c\<close>. A string buffer that is being filled is the list of the characters in it,
  without the NUL that the code keeps behind them; a string that is read is the list of its
  characters, and reading behind its end gives the NUL. Numbers parsed with \<^verbatim>\<open>int\<close> variables
  are integers of any size.
\<close>

section \<open>Strings\<close>

definition to_lower :: "u8 \<Rightarrow> u8" where
  "to_lower c = (if 65 \<le> c \<and> c \<le> 90 then c + 32 else c)"

fun strcasecmp_n :: "u8 list \<Rightarrow> u8 list \<Rightarrow> nat \<Rightarrow> int" where
  "strcasecmp_n s1 s2 0 = 0"
| "strcasecmp_n s1 s2 (Suc n) = (let c1 = to_lower (char_at s1 0); c2 = to_lower (char_at s2 0) in
     if c1 \<noteq> c2 then uint c1 - uint c2
     else if c1 = 0 then 0 else strcasecmp_n (drop 1 s1) (drop 1 s2) n)"

definition itoa_simple :: "int \<Rightarrow> nat \<Rightarrow> u8 list" where
  "itoa_simple num bufsize = (let neg = num < 0; n = nat (abs num);
     digits = (if n = 0 then [48] else rev (digits_rev n)) in
     take (bufsize - 1) ((if neg then [45] else []) @ digits))"

fun strappend :: "u8 list \<Rightarrow> nat \<Rightarrow> u8 list \<Rightarrow> u8 list" where
  "strappend buf bufsize [] = buf"
| "strappend buf bufsize (c # s) = (if length buf < bufsize - 1 then strappend (buf @ [c]) bufsize s else buf)"

lemma strappend_take: "strappend buf bufsize s = buf @ take (bufsize - 1 - length buf) s"
proof (induction s arbitrary: buf)
  case (Cons c s)
  have "bufsize - 1 - length buf = Suc (bufsize - 1 - length (buf @ [c]))" if "length buf < bufsize - 1"
    using that by simp
  with Cons show ?case by simp
qed simp

definition appendnum :: "u8 list \<Rightarrow> nat \<Rightarrow> int \<Rightarrow> u8 list" where
  "appendnum buf bufsize num = strappend buf bufsize (itoa_simple num 16)"

fun digits_u16 :: "u16 \<Rightarrow> u8 list \<Rightarrow> u16 \<times> u8 list" where
  "digits_u16 v (c # p) = (if 48 \<le> c \<and> c \<le> 57 then digits_u16 (v * 10 + ucast (c - 48)) p else (v, c # p))"
| "digits_u16 v [] = (v, [])"

fun digits_int :: "int \<Rightarrow> u8 list \<Rightarrow> int \<times> u8 list" where
  "digits_int v (c # p) = (if 48 \<le> c \<and> c \<le> 57 then digits_int (v * 10 + (uint c - 48)) p else (v, c # p))"
| "digits_int v [] = (v, [])"

section \<open>URLs and addresses\<close>

definition skip_char :: "u8 \<Rightarrow> u8 list \<Rightarrow> u8 list" where
  "skip_char c p = (if p \<noteq> [] \<and> hd p = c then tl p else p)"

definition skip_scheme :: "u8 list \<Rightarrow> u8 list" where
  "skip_scheme p = (if take 4 p = [104, 116, 116, 112]
     then skip_char 47 (skip_char 47 (skip_char 58 (skip_char 115 (drop 4 p)))) else p)"

fun url_host :: "nat \<Rightarrow> u8 list \<Rightarrow> u8 list \<times> u8 list" where
  "url_host (Suc n) (c # p) = (if c \<noteq> 58 \<and> c \<noteq> 47 then (let (h, q) = url_host n p in (c # h, q)) else ([], c # p))"
| "url_host n p = ([], p)"

text \<open>Host, port and path.\<close>

definition http_parse_url :: "u8 list \<Rightarrow> nat \<Rightarrow> nat \<Rightarrow> u8 list \<times> u16 \<times> u8 list" where
  "http_parse_url url host_size path_size = (let
     (host, p) = url_host (host_size - 1) (skip_scheme url);
     (port, p) = (if char_at p 0 = 58 then digits_u16 0 (drop 1 p) else (80, p));
     path = (if char_at p 0 = 47 then take (path_size - 1) p else [47])
   in (host, port, path))"

fun parse_ip_from :: "nat \<Rightarrow> u8 list \<Rightarrow> u8 list" where
  "parse_ip_from 0 sp = []"
| "parse_ip_from (Suc n) sp = (let (val, sp) = digits_int 0 sp in
     of_int val # parse_ip_from n (skip_char 46 sp))"

definition parse_ip :: "u8 list \<Rightarrow> u32" where
  "parse_ip s = le_word (parse_ip_from 4 s)"

section \<open>Requests\<close>

datatype http_method = HTTP_GET | HTTP_POST

record http_request =
  h_method :: http_method
  h_host :: "u8 list"
  h_port :: u16
  h_path :: "u8 list"
  h_body :: "u8 list option"
  h_body_len :: int
  h_content_type :: "u8 list"
  h_authorization :: "u8 list"

text \<open>The fixed strings of a request.\<close>

definition txt_post :: "u8 list" where "txt_post = [80,79,83,84]"
definition txt_get :: "u8 list" where "txt_get = [71,69,84]"
definition txt_version :: "u8 list" where "txt_version = [32,72,84,84,80,47,49,46,49,13,10]"
definition txt_crlf :: "u8 list" where "txt_crlf = [13,10]"
definition txt_host :: "u8 list" where "txt_host = [72,111,115,116,58,32]"
definition txt_agent :: "u8 list" where "txt_agent =
  [85,115,101,114,45,65,103,101,110,116,58,32,117,67,111,114,101,45,72,84,84,80,47,49,46,48,13,10]"
definition txt_close :: "u8 list" where "txt_close =
  [67,111,110,110,101,99,116,105,111,110,58,32,99,108,111,115,101,13,10]"
definition txt_type :: "u8 list" where "txt_type = [67,111,110,116,101,110,116,45,84,121,112,101,58]"
definition txt_length :: "u8 list" where "txt_length = [67,111,110,116,101,110,116,45,76,101,110,103,116,104,58]"
definition txt_json :: "u8 list" where "txt_json = [97,112,112,108,105,99,97,116,105,111,110,47,106,115,111,110]"
definition txt_auth :: "u8 list" where "txt_auth = [65,117,116,104,111,114,105,122,97,116,105,111,110,58,32]"

definition http_build_request :: "http_request \<Rightarrow> nat \<Rightarrow> u8 list" where
  "http_build_request req n = (let
     add = (\<lambda>s buf. strappend buf n s);
     buf = add (if h_method req = HTTP_POST then txt_post else txt_get) [];
     buf = add txt_version (add (h_path req) (add [32] buf));
     buf = add txt_crlf (add (h_host req) (add txt_host buf));
     buf = add txt_close (add txt_agent buf);
     buf = (if h_method req = HTTP_POST \<and> 0 < h_body_len req then
         (let buf = add (if h_content_type req \<noteq> [] then h_content_type req else txt_json) (add (txt_type @ [32]) buf);
            buf = appendnum (add (txt_length @ [32]) (add txt_crlf buf)) n (h_body_len req)
          in add txt_crlf buf)
       else buf);
     buf = (if h_authorization req \<noteq> [] then add txt_crlf (add (h_authorization req) (add txt_auth buf)) else buf);
     buf = add txt_crlf buf
   in case h_body req of
        None \<Rightarrow> buf
      | Some body \<Rightarrow> if h_method req = HTTP_POST \<and> 0 < h_body_len req \<and> int (length buf) + h_body_len req < int n
          then buf @ take (nat (h_body_len req)) body else buf)"

section \<open>Responses\<close>

record http_response =
  r_status_code :: int
  r_content_type :: "u8 list"
  r_content_length :: int
  r_body :: "u8 list option"
  r_body_len :: int

definition empty_response :: http_response where
  "empty_response = \<lparr>r_status_code = 0, r_content_type = [], r_content_length = 0, r_body = None, r_body_len = 0\<rparr>"

definition skip_spaces :: "u8 list \<Rightarrow> u8 list" where
  "skip_spaces = dropWhile (\<lambda>c. c = 32)"

text \<open>One header line, \<open>p\<close> being the rest of the data from its beginning on.\<close>

definition header_line :: "u8 list \<Rightarrow> http_response \<Rightarrow> http_response" where
  "header_line p resp = (let
     resp = (if strcasecmp_n p txt_length 15 = 0
       then resp\<lparr>r_content_length := fst (digits_int 0 (skip_spaces (drop 15 p)))\<rparr> else resp)
   in if strcasecmp_n p txt_type 13 = 0
      then resp\<lparr>r_content_type := take 63 (takeWhile (\<lambda>c. c \<noteq> 0 \<and> c \<noteq> 13 \<and> c \<noteq> 10 \<and> c \<noteq> 59) (skip_spaces (drop 13 p)))\<rparr>
      else resp)"

function parse_headers :: "u8 list \<Rightarrow> http_response \<Rightarrow> u8 list \<times> http_response" where
  "parse_headers p resp =
     (if p = [] then ([], resp)
      else let n = length (takeWhile (\<lambda>c. c \<noteq> 10) p) in
        if n \<le> 1 \<or> (n = 2 \<and> hd p = 13) then (drop (n + 1) p, resp)
        else parse_headers (drop (n + 1) p) (header_line p resp))"
  by pat_completeness auto
termination
  by (relation "measure (length \<circ> fst)") auto

declare parse_headers.simps [simp del]

text \<open>\<open>-1\<close> or \<open>0\<close>, the response, and the state after the allocation of the body.\<close>

definition http_parse_response :: "u8 list \<Rightarrow> 'a net_scheme \<Rightarrow> int \<times> http_response \<times> 'a net_scheme" where
  "http_parse_response data s = (
     if length data < 12 then (- 1, empty_response, s)
     else let p = dropWhile (\<lambda>c. c \<noteq> 32) data in
       if p = [] then (- 1, empty_response, s)
       else let (code, p) = digits_int 0 (drop 1 p); resp = empty_response\<lparr>r_status_code := code\<rparr>;
              p = dropWhile (\<lambda>c. c \<noteq> 10) p in
         if p = [] then (- 1, resp, s)
         else let (body, resp) = parse_headers (drop 1 p) resp in
           if body = [] then (0, resp, s)
           else let resp = resp\<lparr>r_body_len := int (length body)\<rparr>; (ok, s) = memory_alloc (length body + 1) s in
             (0, (if ok then resp\<lparr>r_body := Some body\<rparr> else resp), s))"

definition http_response_free :: "http_response \<Rightarrow> 'a net_scheme \<Rightarrow> http_response \<times> 'a net_scheme" where
  "http_response_free resp s = (if r_body resp \<noteq> None then (resp\<lparr>r_body := None\<rparr>, memory_free s) else (resp, s))"

section \<open>Exchanges\<close>

text \<open>
  The schedules of the sleeps of the exchange: those of \<^verbatim>\<open>tcp_connect\<close>, of \<^verbatim>\<open>tcp_send\<close>, and of
  each \<^verbatim>\<open>tcp_receive\<close>.
\<close>

record http_sleeps =
  hs_connect :: "poll list list"
  hs_send :: "poll list list"
  hs_receive :: "poll list list list"

text \<open>The receive loop, with the bytes received so far.\<close>

function receive_all :: "int \<Rightarrow> u8 list \<Rightarrow> poll list list list \<Rightarrow> 'a net_scheme \<Rightarrow> (u8 list call_result \<times> 'a net_scheme) option" where
  "receive_all sock got wss s =
     (if length got < PAGE_BYTES - 1 then (case wss of
        [] \<Rightarrow> Some (Blocked, s)
      | ws # wss \<Rightarrow> do {
          (r, s) \<leftarrow> tcp_receive sock (PAGE_BYTES - 1 - length got) ws s;
          case r of Blocked \<Rightarrow> Some (Blocked, s)
          | Return (n, xs) \<Rightarrow> if n \<le> 0 then Some (Return got, s) else receive_all sock (got @ xs) wss s })
      else Some (Return got, s))"
  by pat_completeness auto
termination
  by (relation "measure (\<lambda>(sock, got, wss, s). length wss)") auto

declare receive_all.simps [simp del]

definition free_buffers :: "'r \<Rightarrow> 'a net_scheme \<Rightarrow> 'r \<times> 'a net_scheme" where
  "free_buffers r s = (r, memory_free (memory_free s))"

definition http_execute :: "http_request \<Rightarrow> http_response \<Rightarrow> http_sleeps \<Rightarrow> 'a net_scheme \<Rightarrow>
    ((int \<times> http_response) call_result \<times> 'a net_scheme) option" where
  "http_execute req resp hs s = (let
     (ok1, s) = memory_alloc PAGE_BYTES s;
     (ok2, s) = memory_alloc PAGE_BYTES s
   in if \<not> ok1 \<or> \<not> ok2 then Some (Return (- 1, resp), if ok1 then memory_free s else s)
      else let foreign = \<lparr>ep_addr = parse_ip (h_host req), ep_port = hton16 (h_port req)\<rparr>;
               (sock, s) = tcp_open s in
        if sock < 0 then Some (free_buffers (Return (- 1, resp)) s)
        else do {
          (r, s) \<leftarrow> tcp_connect sock foreign (hs_connect hs) s;
          case r of Blocked \<Rightarrow> Some (Blocked, s)
          | Return r \<Rightarrow>
              if r < 0 then do { (_, s) \<leftarrow> tcp_close sock s; Some (free_buffers (Return (- 1, resp)) s) }
              else do {
                (r, s) \<leftarrow> tcp_send sock (http_build_request req PAGE_BYTES) (hs_send hs) s;
                case r of Blocked \<Rightarrow> Some (Blocked, s)
                | Return r \<Rightarrow>
                    if r < 0 then do { (_, s) \<leftarrow> tcp_close sock s; Some (free_buffers (Return (- 1, resp)) s) }
                    else do {
                      (r, s) \<leftarrow> receive_all sock [] (hs_receive hs) s;
                      case r of Blocked \<Rightarrow> Some (Blocked, s)
                      | Return got \<Rightarrow> do {
                          (_, s) \<leftarrow> tcp_close sock s;
                          if got = [] then Some (free_buffers (Return (- 1, resp)) s)
                          else let (ret, resp, s) = http_parse_response got s in
                            Some (free_buffers (Return (ret, resp)) s) } } } })"

definition http_request_for :: "http_method \<Rightarrow> u8 list \<Rightarrow> http_request" where
  "http_request_for m url = (let (host, port, path) = http_parse_url url 64 128 in
     \<lparr>h_method = m, h_host = host, h_port = port, h_path = path, h_body = None, h_body_len = 0,
      h_content_type = [], h_authorization = []\<rparr>)"

definition http_get :: "u8 list \<Rightarrow> http_response \<Rightarrow> http_sleeps \<Rightarrow> 'a net_scheme \<Rightarrow>
    ((int \<times> http_response) call_result \<times> 'a net_scheme) option" where
  "http_get url resp hs s = http_execute (http_request_for HTTP_GET url) resp hs s"

definition http_post :: "u8 list \<Rightarrow> u8 list \<Rightarrow> u8 list \<Rightarrow> http_response \<Rightarrow> http_sleeps \<Rightarrow> 'a net_scheme \<Rightarrow>
    ((int \<times> http_response) call_result \<times> 'a net_scheme) option" where
  "http_post url content_type body resp hs s = http_execute ((http_request_for HTTP_POST url)
     \<lparr>h_body := Some body, h_body_len := int (length body), h_content_type := take 63 content_type\<rparr>) resp hs s"

definition http_post_with_auth :: "u8 list \<Rightarrow> u8 list \<Rightarrow> u8 list \<Rightarrow> u8 list \<Rightarrow> http_response \<Rightarrow> http_sleeps \<Rightarrow>
    'a net_scheme \<Rightarrow> ((int \<times> http_response) call_result \<times> 'a net_scheme) option" where
  "http_post_with_auth url content_type body auth resp hs s = http_execute ((http_request_for HTTP_POST url)
     \<lparr>h_body := Some body, h_body_len := int (length body), h_content_type := take 63 content_type,
      h_authorization := take 255 auth\<rparr>) resp hs s"

end
