(* ===== verification/AiApi.thy ===== *)
theory AiApi
  imports Http
begin

text \<open>
  \<^verbatim>\<open>net/ai_api.c\<close>: the chat client, with its escaping of JSON strings and its decoding of the
  answer. The configuration and the flag \<^verbatim>\<open>g_initialized\<close> extend the state of the stack.
\<close>

definition AI_API_MAX_RESPONSE :: nat where "AI_API_MAX_RESPONSE = 4096"

record ai_api_config =
  cf_host :: "u8 list"
  cf_port :: u16
  cf_api_key :: "u8 list"
  cf_model :: "u8 list"

record ai_net = net +
  g_config :: ai_api_config
  g_initialized :: bool

record ai_chat_response =
  a_success :: int
  a_content :: "u8 list option"
  a_content_len :: int
  a_error_code :: int

section \<open>JSON\<close>

fun ai_strappend :: "u8 list \<Rightarrow> nat \<Rightarrow> u8 list \<Rightarrow> u8 list" where
  "ai_strappend buf bufsize [] = buf"
| "ai_strappend buf bufsize (c # s) = (if length buf < bufsize - 1 then ai_strappend (buf @ [c]) bufsize s else buf)"

text \<open>The rest of the haystack from the first occurrence on.\<close>

fun ai_strstr :: "u8 list \<Rightarrow> u8 list \<Rightarrow> u8 list option" where
  "ai_strstr [] needle = (if needle = [] then Some [] else None)"
| "ai_strstr (c # h) needle = (if take (length needle) (c # h) = needle then Some (c # h) else ai_strstr h needle)"

definition json_escape_char :: "u8 \<Rightarrow> u8 list" where
  "json_escape_char c = (if c = 34 \<or> c = 92 then [92, c] else if c = 10 then [92, 110]
     else if c = 13 then [92, 114] else if c = 9 then [92, 116] else [c])"

fun json_escape_string :: "u8 list \<Rightarrow> nat \<Rightarrow> u8 list \<Rightarrow> u8 list" where
  "json_escape_string buf bufsize [] = buf"
| "json_escape_string buf bufsize (c # s) =
     (if length buf < bufsize - 2 then json_escape_string (buf @ json_escape_char c) bufsize s else buf)"

definition txt_model :: "u8 list" where "txt_model = [123,34,109,111,100,101,108,34,58,34]"
definition txt_messages :: "u8 list" where "txt_messages = [34,44,34,109,101,115,115,97,103,101,115,34,58,91,123,34,
  114,111,108,101,34,58,34,117,115,101,114,34,44,34,99,111,110,116,101,110,116,34,58,34]"
definition txt_end :: "u8 list" where "txt_end = [34,125,93,125]"
definition txt_content :: "u8 list" where "txt_content = [34,99,111,110,116,101,110,116,34,58]"
definition txt_http :: "u8 list" where "txt_http = [104,116,116,112,58,47,47]"
definition txt_chat_path :: "u8 list" where "txt_chat_path =
  [47,118,49,47,99,104,97,116,47,99,111,109,112,108,101,116,105,111,110,115]"
definition txt_bearer :: "u8 list" where "txt_bearer = [66,101,97,114,101,114,32]"

definition build_chat_request :: "ai_api_config \<Rightarrow> u8 list \<Rightarrow> nat \<Rightarrow> u8 list" where
  "build_chat_request cf prompt n = ai_strappend (json_escape_string
     (ai_strappend (ai_strappend (ai_strappend [] n txt_model) n (cf_model cf)) n txt_messages) n prompt) n txt_end"

definition hex_digit :: "u8 \<Rightarrow> int" where
  "hex_digit c = (if 48 \<le> c \<and> c \<le> 57 then uint c - 48 else if 97 \<le> c \<and> c \<le> 102 then uint c - 97 + 10
     else if 65 \<le> c \<and> c \<le> 70 then uint c - 65 + 10 else - 1)"

fun hex_value :: "nat \<Rightarrow> u32 \<Rightarrow> u8 list \<Rightarrow> u32 option" where
  "hex_value 0 v p = Some v"
| "hex_value (Suc n) v p = (let d = hex_digit (char_at p 0) in
     if d < 0 then None else hex_value n (push_bit 4 v OR of_int d) (drop 1 p))"

definition parse_unicode_escape :: "u8 list \<Rightarrow> u32 option" where
  "parse_unicode_escape p = hex_value 4 0 p"

definition encode_utf8 :: "u32 \<Rightarrow> int \<Rightarrow> u8 list" where
  "encode_utf8 cp bufsize =
     (if cp < 0x80 then if bufsize < 1 then [] else [ucast cp]
      else if cp < 0x800 then if bufsize < 2 then [] else
        [ucast (0xC0 OR drop_bit 6 cp), ucast (0x80 OR (cp AND 0x3F))]
      else if cp < 0x10000 then if bufsize < 3 then [] else
        [ucast (0xE0 OR drop_bit 12 cp), ucast (0x80 OR (drop_bit 6 cp AND 0x3F)), ucast (0x80 OR (cp AND 0x3F))]
      else if cp < 0x110000 then if bufsize < 4 then [] else
        [ucast (0xF0 OR drop_bit 18 cp), ucast (0x80 OR (drop_bit 12 cp AND 0x3F)),
         ucast (0x80 OR (drop_bit 6 cp AND 0x3F)), ucast (0x80 OR (cp AND 0x3F))]
      else [])"

text \<open>
  The escape \<^verbatim>\<open>\uXXXX\<close>, \<open>p\<close> being what follows the \<open>u\<close>: the code point, joined with a low
  surrogate that follows, and how many characters it takes.
\<close>

definition unicode_escape :: "u8 list \<Rightarrow> (u32 \<times> nat) option" where
  "unicode_escape p = (case parse_unicode_escape p of
     None \<Rightarrow> None
   | Some cp \<Rightarrow> Some (
       if 0xD800 \<le> cp \<and> cp \<le> 0xDBFF \<and> char_at p 4 = 92 \<and> char_at p 5 = 117 then
         (case parse_unicode_escape (drop 6 p) of
            None \<Rightarrow> (cp, 4)
          | Some low \<Rightarrow> if 0xDC00 \<le> low \<and> low \<le> 0xDFFF
              then (0x10000 + push_bit 10 (cp - 0xD800) + (low - 0xDC00), 10) else (cp, 4))
       else (cp, 4)))"

definition escaped_char :: "u8 \<Rightarrow> u8" where
  "escaped_char c = (if c = 110 then 10 else if c = 114 then 13 else if c = 116 then 9 else c)"

function extract_loop :: "nat \<Rightarrow> u8 list \<Rightarrow> bool \<Rightarrow> u8 list \<Rightarrow> u8 list" where
  "extract_loop sz content esc p =
     (case p of [] \<Rightarrow> content
      | c # p \<Rightarrow> if sz \<le> length content + 4 then content
        else if esc then
          (if c = 117 then (case unicode_escape p of
             Some (cp, n) \<Rightarrow> extract_loop sz (content @ encode_utf8 cp (int sz - int (length content))) False (drop n p)
           | None \<Rightarrow> extract_loop sz (content @ [117]) False p)
           else extract_loop sz (content @ [escaped_char c]) False p)
        else if c = 92 then extract_loop sz content True p
        else if c = 34 then content
        else extract_loop sz (content @ [c]) False p)"
  by pat_completeness auto
termination
  by (relation "measure (\<lambda>(sz, content, esc, p). length p)") auto

declare extract_loop.simps [simp del]

text \<open>The content of the first field \<^verbatim>\<open>"content"\<close> that is a string; \<open>None\<close> is the result -1.\<close>

definition extract_content :: "u8 list \<Rightarrow> nat \<Rightarrow> u8 list option" where
  "extract_content json sz = (case ai_strstr json txt_content of
     None \<Rightarrow> None
   | Some p \<Rightarrow> let p = dropWhile (\<lambda>c. c = 32 \<or> c = 9 \<or> c = 10 \<or> c = 13) (drop 10 p) in
       if char_at p 0 \<noteq> 34 then None else Some (extract_loop sz [] False (drop 1 p)))"

section \<open>The client\<close>

definition ai_api_init :: "ai_api_config \<Rightarrow> 'a ai_net_scheme \<Rightarrow> int \<times> 'a ai_net_scheme" where
  "ai_api_init cf s = (0, s\<lparr>g_config := \<lparr>cf_host = take 63 (cf_host cf), cf_port = cf_port cf,
     cf_api_key = take 127 (cf_api_key cf), cf_model = take 31 (cf_model cf)\<rparr>, g_initialized := True\<rparr>)"

definition chat_url :: "ai_api_config \<Rightarrow> u8 list" where
  "chat_url cf = (let port = (if cf_port cf = 0 then [48] else rev (digits_rev (unat (cf_port cf)))) in
     ai_strappend (ai_strappend (ai_strappend (ai_strappend (ai_strappend [] 256 txt_http) 256 (cf_host cf)) 256 [58])
       256 port) 256 txt_chat_path)"

definition failed_chat :: "int \<Rightarrow> ai_chat_response" where
  "failed_chat e = \<lparr>a_success = 0, a_content = None, a_content_len = 0, a_error_code = e\<rparr>"

definition free_pages :: "nat \<Rightarrow> 'a plat_scheme \<Rightarrow> 'a plat_scheme" where
  "free_pages n s = s\<lparr>n_pages := n_pages s + n\<rparr>"

text \<open>The answer to a response of status 200; a body ends at its first NUL.\<close>

definition chat_answer :: "http_response \<Rightarrow> 'a ai_net_scheme \<Rightarrow> ai_chat_response \<times> 'a ai_net_scheme" where
  "chat_answer resp s = (case r_body resp of
     None \<Rightarrow> (failed_chat 0, s)
   | Some body \<Rightarrow>
       if r_body_len resp \<le> 0 then (failed_chat 0, s)
       else let (ok, s) = memory_alloc AI_API_MAX_RESPONSE s in
         if \<not> ok then (failed_chat 0, s)
         else (case extract_content (takeWhile (\<lambda>c. c \<noteq> 0) body) AI_API_MAX_RESPONSE of
            Some (c # cs) \<Rightarrow> (\<lparr>a_success = 1, a_content = Some (c # cs), a_content_len = int (length (c # cs)),
              a_error_code = 0\<rparr>, s)
          | _ \<Rightarrow> (failed_chat (- 2), memory_free s)))"

definition ai_chat :: "u8 list \<Rightarrow> ai_chat_response \<Rightarrow> http_sleeps \<Rightarrow> 'a ai_net_scheme \<Rightarrow>
    ((int \<times> ai_chat_response) call_result \<times> 'a ai_net_scheme) option" where
  "ai_chat prompt old hs s =
     (if \<not> g_initialized s then Some (Return (- 1, old), s)
      else let (ok1, s) = memory_alloc 256 s; (ok2, s) = memory_alloc 2048 s; (ok3, s) = memory_alloc 256 s;
        n = length (filter (\<lambda>b. b) [ok1, ok2, ok3])
      in if n < 3 then Some (Return (- 1, failed_chat 0), free_pages n s)
        else do {
          (r, s) \<leftarrow> http_post_with_auth (chat_url (g_config s)) txt_json (build_chat_request (g_config s) prompt 2048)
            (ai_strappend (ai_strappend [] 256 txt_bearer) 256 (cf_api_key (g_config s))) empty_response hs s;
          case r of Blocked \<Rightarrow> Some (Blocked, s)
          | Return (ret, resp) \<Rightarrow>
              if ret < 0 then Some (Return (ret, failed_chat (- 1)), free_pages 3 s)
              else if r_status_code resp \<noteq> 200 then
                Some (Return (ret, failed_chat (r_status_code resp)), free_pages 3 (snd (http_response_free resp s)))
              else let (a, s) = chat_answer resp s in
                Some (Return (ret, a), free_pages 3 (snd (http_response_free resp s))) })"

definition ai_chat_response_free :: "ai_chat_response \<Rightarrow> 'a ai_net_scheme \<Rightarrow> ai_chat_response \<times> 'a ai_net_scheme" where
  "ai_chat_response_free resp s =
     (if a_content resp \<noteq> None then (resp\<lparr>a_content := None\<rparr>, memory_free s) else (resp, s))"

definition ai_api_test :: "http_sleeps \<Rightarrow> 'a ai_net_scheme \<Rightarrow> (int call_result \<times> 'a ai_net_scheme) option" where
  "ai_api_test hs s = do {
     (r, s) \<leftarrow> ai_chat [104,101,108,108,111] (failed_chat 0) hs s;
     case r of Blocked \<Rightarrow> Some (Blocked, s)
     | Return (ret, resp) \<Rightarrow> let (_, s) = ai_chat_response_free resp s in
         Some (Return (if ret = 0 \<and> a_success resp \<noteq> 0 then 0 else - 1), s) }"

end
