(* ===== verification/VirtioDisk.thy ===== *)
theory VirtioDisk
  imports BlockIO VirtioNet
begin

text \<open>
  \<^verbatim>\<open>os/virtio_disk.c\<close>: the queue of descriptors that carries requests to the disk. A
  \<^verbatim>\<open>struct buf *\<close> is an index, as in \<open>BlockIO\<close>; \<open>dk_busy\<close> holds the flags \<^verbatim>\<open>b->disk\<close>.
  The addresses of the command headers, the status bytes and the data of buffers are given by
  \<open>dk_ops_at\<close>, \<open>dk_status_at\<close> and \<open>dk_data_at\<close>, which the linker decides.
  \<open>dk_used\<close> and \<open>dk_used_dev\<close> are the used ring, which the disk writes. What the disk does is
  not code of the repository: it is a function that the properties take as an argument.
  \<^verbatim>\<open>virtio_disk_rw\<close> is split at its two waits: \<open>disk_start\<close> ends where the descriptors are
  missing (the caller yields and tries again) or where the code spins on \<^verbatim>\<open>b->disk\<close>, and
  \<open>disk_finish\<close> is the rest.
\<close>

definition VRING_DESC_F_NEXT :: u16 where "VRING_DESC_F_NEXT = 1"
definition VIRTIO_BLK_T_IN :: u32 where "VIRTIO_BLK_T_IN = 0"
definition VIRTIO_BLK_T_OUT :: u32 where "VIRTIO_BLK_T_OUT = 1"
definition VIRTIO_CONFIG_S_ACKNOWLEDGE :: u32 where "VIRTIO_CONFIG_S_ACKNOWLEDGE = 1"
definition VIRTIO_CONFIG_S_DRIVER :: u32 where "VIRTIO_CONFIG_S_DRIVER = 2"
definition VIRTIO_CONFIG_S_FEATURES_OK :: u32 where "VIRTIO_CONFIG_S_FEATURES_OK = 8"
definition VIRTIO_BLK_F_RO :: nat where "VIRTIO_BLK_F_RO = 5"
definition VIRTIO_BLK_F_SCSI :: nat where "VIRTIO_BLK_F_SCSI = 7"
definition VIRTIO_BLK_F_CONFIG_WCE :: nat where "VIRTIO_BLK_F_CONFIG_WCE = 11"
definition VIRTIO_BLK_F_MQ :: nat where "VIRTIO_BLK_F_MQ = 12"
definition VIRTIO_F_ANY_LAYOUT :: nat where "VIRTIO_F_ANY_LAYOUT = 27"
definition VIRTIO_RING_F_INDIRECT_DESC :: nat where "VIRTIO_RING_F_INDIRECT_DESC = 28"
definition VIRTIO_RING_F_EVENT_IDX :: nat where "VIRTIO_RING_F_EVENT_IDX = 29"

record virtio_blk_req =
  rq_type :: u32
  rq_reserved :: u32
  rq_sector :: u64

record disk_info =
  di_buf :: "nat option"
  di_status :: u8

record vdisk =
  dk_desc :: "virtq_desc list"
  dk_avail_idx :: u16
  dk_avail :: "u16 list"
  dk_used_dev :: u16
  dk_used :: "(u32 \<times> u32) list"
  dk_free :: "bool list"
  dk_used_idx :: u16
  dk_info :: "disk_info list"
  dk_ops :: "virtio_blk_req list"
  dk_busy :: "nat \<Rightarrow> bool"
  dk_status :: u32
  dk_ops_at :: "nat \<Rightarrow> u64"
  dk_status_at :: "nat \<Rightarrow> u64"
  dk_data_at :: "nat \<Rightarrow> u64"

section \<open>Initialisation\<close>

text \<open>What the registers of the disk say.\<close>

record disk_regs =
  dr_magic :: u32
  dr_version :: u32
  dr_device_id :: u32
  dr_vendor_id :: u32
  dr_features :: u32
  dr_queue_max :: u32

definition disk_features :: "disk_regs \<Rightarrow> u64" where
  "disk_features r = ucast (dr_features r) AND NOT (push_bit VIRTIO_BLK_F_RO 1) AND NOT (push_bit VIRTIO_BLK_F_SCSI 1) AND
     NOT (push_bit VIRTIO_BLK_F_CONFIG_WCE 1) AND NOT (push_bit VIRTIO_BLK_F_MQ 1) AND NOT (push_bit VIRTIO_F_ANY_LAYOUT 1) AND
     NOT (push_bit VIRTIO_RING_F_EVENT_IDX 1) AND NOT (push_bit VIRTIO_RING_F_INDIRECT_DESC 1)"

text \<open>The features the driver accepts, and the state of the driver.\<close>

definition virtio_disk_init :: "disk_regs \<Rightarrow> vdisk \<Rightarrow> (u32 \<times> vdisk) option" where
  "virtio_disk_init r d =
     (if dr_magic r \<noteq> 0x74726976 \<or> dr_version r \<noteq> 1 \<or> dr_device_id r \<noteq> 2 \<or> dr_vendor_id r \<noteq> 0x554d4551 then None
      else let status = VIRTIO_CONFIG_S_ACKNOWLEDGE;
        status = status OR VIRTIO_CONFIG_S_DRIVER;
        features = disk_features r;
        status = status OR VIRTIO_CONFIG_S_FEATURES_OK;
        status = status OR VIRTIO_CONFIG_S_DRIVER_OK
      in if dr_queue_max r = 0 then None
        else if dr_queue_max r < of_nat NUM then None
        else Some (ucast features, d\<lparr>dk_desc := replicate NUM zero_desc, dk_avail_idx := 0, dk_avail := replicate NUM 0,
          dk_used_dev := 0, dk_used := replicate NUM (0, 0), dk_free := replicate NUM True, dk_status := status\<rparr>))"

section \<open>Descriptors\<close>

definition alloc_desc :: "vdisk \<Rightarrow> nat option \<times> vdisk" where
  "alloc_desc d = (case first_idx (\<lambda>f. f) (dk_free d) of
     Some i \<Rightarrow> (Some i, d\<lparr>dk_free := (dk_free d)[i := False]\<rparr>)
   | None \<Rightarrow> (None, d))"

definition free_desc :: "nat \<Rightarrow> vdisk \<Rightarrow> vdisk option" where
  "free_desc i d = (if NUM \<le> i \<or> length (dk_free d) \<le> i then None
     else if dk_free d ! i then None
     else Some (d\<lparr>dk_desc := (dk_desc d)[i := zero_desc], dk_free := (dk_free d)[i := True]\<rparr>))"

text \<open>Each round frees a descriptor that was in use, or panics, so the walk along the chain ends.\<close>

definition descs_in_use :: "vdisk \<Rightarrow> nat" where
  "descs_in_use d = length (filter Not (dk_free d))"

lemma filter_not_upd: "j < length xs \<Longrightarrow> \<not> xs ! j \<Longrightarrow> length (filter Not (xs[j := True])) < length (filter Not xs)"
proof (induction xs arbitrary: j)
  case (Cons x xs)
  then show ?case by (cases j) fastforce+
qed simp

lemma free_desc_less: "free_desc i d = Some d' \<Longrightarrow> descs_in_use d' < descs_in_use d"
  by (auto simp: free_desc_def descs_in_use_def filter_not_upd split: if_splits)

function free_chain :: "nat \<Rightarrow> vdisk \<Rightarrow> vdisk option" where
  "free_chain i d = (let flag = vd_flags (dk_desc d ! i); nxt = vd_next (dk_desc d ! i) in
     case free_desc i d of
       None \<Rightarrow> None
     | Some d' \<Rightarrow> if flag AND VRING_DESC_F_NEXT \<noteq> 0 then free_chain (unat nxt) d' else Some d')"
  by pat_completeness auto
termination
  by (relation "measure (\<lambda>(i, d). descs_in_use d)") (auto dest: free_desc_less)

declare free_chain.simps [simp del]

fun free_descs :: "nat list \<Rightarrow> vdisk \<Rightarrow> vdisk option" where
  "free_descs [] d = Some d"
| "free_descs (i # is) d = do { d \<leftarrow> free_desc i d; free_descs is d }"

text \<open>\<open>alloc_descs\<close> with \<open>n\<close> descriptors to go and those in \<open>got\<close> taken.\<close>

fun alloc_descs :: "nat \<Rightarrow> nat list \<Rightarrow> vdisk \<Rightarrow> (nat list option \<times> vdisk) option" where
  "alloc_descs 0 got d = Some (Some got, d)"
| "alloc_descs (Suc n) got d = (case alloc_desc d of
     (Some i, d) \<Rightarrow> alloc_descs n (got @ [i]) d
   | (None, d) \<Rightarrow> map_option (\<lambda>d. (None, d)) (free_descs got d))"

definition alloc3_desc :: "vdisk \<Rightarrow> (nat list option \<times> vdisk) option" where
  "alloc3_desc = alloc_descs 3 []"

section \<open>Requests\<close>

definition disk_desc :: "nat \<Rightarrow> u64 \<Rightarrow> u32 \<Rightarrow> u16 \<Rightarrow> u16 \<Rightarrow> vdisk \<Rightarrow> vdisk" where
  "disk_desc i a len flags nxt d =
     d\<lparr>dk_desc := (dk_desc d)[i := \<lparr>vd_addr = a, vd_len = len, vd_flags = flags, vd_next = nxt\<rparr>]\<rparr>"

definition format_request :: "nat \<Rightarrow> u32 \<Rightarrow> bool \<Rightarrow> nat \<Rightarrow> nat \<Rightarrow> nat \<Rightarrow> vdisk \<Rightarrow> vdisk" where
  "format_request b blockno wr i0 i1 i2 d = (let
     sector = ucast (blockno * of_nat (BSIZE div 512));
     d = d\<lparr>dk_ops := (dk_ops d)[i0 := \<lparr>rq_type = (if wr then VIRTIO_BLK_T_OUT else VIRTIO_BLK_T_IN), rq_reserved = 0, rq_sector = sector\<rparr>]\<rparr>;
     d = disk_desc i0 (dk_ops_at d i0) 16 VRING_DESC_F_NEXT (of_nat i1) d;
     d = disk_desc i1 (dk_data_at d b) (of_nat BSIZE) ((if wr then 0 else VRING_DESC_F_WRITE) OR VRING_DESC_F_NEXT) (of_nat i2) d;
     d = d\<lparr>dk_info := upd_at i0 (\<lambda>x. x\<lparr>di_status := 0xfb\<rparr>) (dk_info d)\<rparr>;
     d = disk_desc i2 (dk_status_at d i0) 1 VRING_DESC_F_WRITE 0 d;
     d = d\<lparr>dk_busy := (dk_busy d)(b := True), dk_info := upd_at i0 (\<lambda>x. x\<lparr>di_buf := Some b\<rparr>) (dk_info d)\<rparr>
   in d\<lparr>dk_avail := (dk_avail d)[unat (dk_avail_idx d) mod NUM := of_nat i0], dk_avail_idx := dk_avail_idx d + 1\<rparr>)"

text \<open>The head of the chain that is now waited for, or nothing if the caller has to yield first.\<close>

definition disk_start :: "nat \<Rightarrow> u32 \<Rightarrow> bool \<Rightarrow> vdisk \<Rightarrow> (nat option \<times> vdisk) option" where
  "disk_start b blockno wr d = do {
     (idx, d) \<leftarrow> alloc3_desc d;
     Some (case idx of
       None \<Rightarrow> (None, d)
     | Some is \<Rightarrow> (Some (is ! 0), format_request b blockno wr (is ! 0) (is ! 1) (is ! 2) d)) }"

definition disk_finish :: "nat \<Rightarrow> vdisk \<Rightarrow> vdisk option" where
  "disk_finish head d = free_chain head (d\<lparr>dk_info := upd_at head (\<lambda>x. x\<lparr>di_buf := None\<rparr>) (dk_info d)\<rparr>)"

text \<open>Each round brings the two 16-bit indices one step closer, around the end if need be.\<close>

lemma u16_step: "a \<noteq> b \<Longrightarrow> unat (b - (a + 1)) < unat (b - (a :: u16))"
proof -
  assume "a \<noteq> b"
  then have "b - a \<noteq> 0" by simp
  then have "unat (b - a - 1) = unat (b - a) - 1" "0 < unat (b - a)" by (simp_all add: unat_minus_one unat_gt_0)
  then show ?thesis by (simp add: diff_diff_eq)
qed

function virtio_disk_intr :: "vdisk \<Rightarrow> vdisk option" where
  "virtio_disk_intr d =
     (if dk_used_idx d = dk_used_dev d then Some d
      else let id' = unat (fst (dk_used d ! (unat (dk_used_idx d) mod NUM))) in
        if NUM \<le> id' then None
        else if di_status (dk_info d ! id') \<noteq> 0 then None
        else case di_buf (dk_info d ! id') of
          None \<Rightarrow> None
        | Some b \<Rightarrow> virtio_disk_intr (d\<lparr>dk_busy := (dk_busy d)(b := False), dk_used_idx := dk_used_idx d + 1\<rparr>))"
  by pat_completeness auto
termination
  by (relation "measure (\<lambda>d. unat (dk_used_dev d - dk_used_idx d))") (auto intro: u16_step)

declare virtio_disk_intr.simps [simp del]

end
