(* ===== verification/Trap.thy ===== *)
theory Trap
  imports Syscall VirtioDisk
begin

text \<open>
  Traps and interrupts: \<^verbatim>\<open>os/trap.c\<close>, \<^verbatim>\<open>os/timer.c\<close>, \<^verbatim>\<open>os/plic.c\<close> and the interrupt switch
  of \<^verbatim>\<open>os/riscv.h\<close>.

  \<open>hart\<close> holds the control registers of the hart that this code reads or writes, with \<open>h_time\<close>
  the cycle counter, \<open>h_timer\<close> the time the firmware was last asked to interrupt at (\<^verbatim>\<open>set_timer\<close>),
  \<open>h_plic\<close> the registers of the interrupt controller that are only written, by address,
  \<open>h_claims\<close> the interrupts the controller will hand out, and \<open>h_done\<close> those completed.
  \<open>machine\<close> puts the hart beside the kernel, the network stack and the disk driver.

  A trap ends by going to user space (\<open>To_user\<close>: the address jumped to and its two arguments), by
  giving the CPU to another thread, with what the thread does when it runs again, or with the
  end of the thread. \<open>None\<close> is a \<^verbatim>\<open>panic\<close>.
\<close>

record hart =
  h_scause :: u64
  h_stval :: u64
  h_sepc :: u64
  h_sstatus :: u64
  h_sie :: u64
  h_stvec :: u64
  h_satp :: u64
  h_tp :: u64
  h_time :: u64
  h_timer :: u64
  h_plic :: "u64 \<Rightarrow> u32"
  h_claims :: "u32 list"
  h_done :: "u32 list"

record machine = hart +
  m_kern :: fs_kern
  m_net :: net
  m_disk :: vdisk

text \<open>\<open>te_uservec\<close> and \<open>te_userret\<close> are offsets in the trampoline.\<close>

record trap_env = env +
  te_uservec :: u64
  te_userret :: u64
  te_kernelvec :: u64
  te_usertrap :: u64

datatype trap_resume = After_intr | After_call kresume
datatype trap_end = To_user u64 u64 u64 | Switched trap_resume | Ended

section \<open>Registers\<close>

definition SSTATUS_SPP :: u64 where "SSTATUS_SPP = push_bit 8 1"
definition SSTATUS_SPIE :: u64 where "SSTATUS_SPIE = push_bit 5 1"
definition SSTATUS_SIE :: u64 where "SSTATUS_SIE = push_bit 1 1"
definition SIE_SEIE :: u64 where "SIE_SEIE = push_bit 9 1"
definition SIE_STIE :: u64 where "SIE_STIE = push_bit 5 1"
definition SIE_SSIE :: u64 where "SIE_SSIE = push_bit 1 1"
definition SATP_SV39 :: u64 where "SATP_SV39 = push_bit 60 8"

definition MAKE_SATP :: "u64 \<Rightarrow> u64" where
  "MAKE_SATP pagetable = SATP_SV39 OR drop_bit 12 pagetable"

definition intr_on :: "'a hart_scheme \<Rightarrow> 'a hart_scheme" where
  "intr_on m = m\<lparr>h_sstatus := h_sstatus m OR SSTATUS_SIE\<rparr>"

definition intr_off :: "'a hart_scheme \<Rightarrow> 'a hart_scheme" where
  "intr_off m = m\<lparr>h_sstatus := h_sstatus m AND NOT SSTATUS_SIE\<rparr>"

definition intr_get :: "'a hart_scheme \<Rightarrow> bool" where
  "intr_get m \<longleftrightarrow> h_sstatus m AND SSTATUS_SIE \<noteq> 0"

definition set_usertrap :: "'b trap_env_scheme \<Rightarrow> 'a hart_scheme \<Rightarrow> 'a hart_scheme" where
  "set_usertrap E m = m\<lparr>h_stvec := (TRAMPOLINE + te_uservec E) AND NOT 3\<rparr>"

definition set_kerneltrap :: "'b trap_env_scheme \<Rightarrow> 'a hart_scheme \<Rightarrow> 'a hart_scheme" where
  "set_kerneltrap E m = m\<lparr>h_stvec := te_kernelvec E AND NOT 3\<rparr>"

definition trap_init :: "'b trap_env_scheme \<Rightarrow> 'a hart_scheme \<Rightarrow> 'a hart_scheme" where
  "trap_init E m = (let m = set_kerneltrap E m in
     m\<lparr>h_sie := h_sie m OR SIE_SEIE OR SIE_STIE OR SIE_SSIE\<rparr>)"

section \<open>Timer\<close>

definition TICKS_PER_SEC :: u64 where "TICKS_PER_SEC = 100"

definition get_cycle :: "'a hart_scheme \<Rightarrow> u64" where
  "get_cycle m = h_time m"

definition set_next_timer :: "'a hart_scheme \<Rightarrow> 'a hart_scheme" where
  "set_next_timer m = (let timebase = CPU_FREQ div TICKS_PER_SEC in m\<lparr>h_timer := get_cycle m + timebase\<rparr>)"

definition timer_init :: "'a hart_scheme \<Rightarrow> 'a hart_scheme" where
  "timer_init m = set_next_timer (m\<lparr>h_sie := h_sie m OR SIE_STIE\<rparr>)"

section \<open>Interrupt controller\<close>

definition UART0_IRQ :: int where "UART0_IRQ = 10"
definition VIRTIO0_IRQ :: int where "VIRTIO0_IRQ = 1"
definition VIRTIO1_IRQ :: int where "VIRTIO1_IRQ = 2"
definition PLIC :: u64 where "PLIC = 0x0c000000"
definition PLIC_SENABLE :: "u64 \<Rightarrow> u64" where "PLIC_SENABLE hart = PLIC + 0x2080 + hart * 0x100"
definition PLIC_SPRIORITY :: "u64 \<Rightarrow> u64" where "PLIC_SPRIORITY hart = PLIC + 0x201000 + hart * 0x2000"

definition cpuid :: u64 where "cpuid = 0"

definition plicinit :: "'a hart_scheme \<Rightarrow> 'a hart_scheme" where
  "plicinit m = m\<lparr>h_plic := (h_plic m)(
     PLIC + word_of_int VIRTIO0_IRQ * 4 := 1,
     PLIC + word_of_int VIRTIO1_IRQ * 4 := 1,
     PLIC_SENABLE cpuid := push_bit (nat VIRTIO0_IRQ) 1 OR push_bit (nat VIRTIO1_IRQ) 1,
     PLIC_SPRIORITY cpuid := 0)\<rparr>"

text \<open>Reading the claim register takes the interrupt; it reads 0 when there is none.\<close>

definition plic_claim :: "'a hart_scheme \<Rightarrow> int \<times> 'a hart_scheme" where
  "plic_claim m = (case h_claims m of [] \<Rightarrow> (0, m) | c # cs \<Rightarrow> (sint c, m\<lparr>h_claims := cs\<rparr>))"

definition plic_complete :: "int \<Rightarrow> 'a hart_scheme \<Rightarrow> 'a hart_scheme" where
  "plic_complete irq m = m\<lparr>h_done := h_done m @ [word_of_int irq]\<rparr>"

section \<open>Interrupts\<close>

definition Interrupt_bit :: u64 where "Interrupt_bit = push_bit 63 1"
definition SupervisorTimer :: u64 where "SupervisorTimer = 5"
definition SupervisorExternal :: u64 where "SupervisorExternal = 9"

text \<open>How \<^verbatim>\<open>devintr\<close> leaves the CPU: it returns, \<^verbatim>\<open>yield\<close> has switched, or the thread is gone.\<close>

datatype intr_end = Handled | Yielded | Killed

definition die :: "int \<Rightarrow> 'a machine_scheme \<Rightarrow> 'a machine_scheme option" where
  "die code m = map_option (\<lambda>k. m\<lparr>m_kern := k\<rparr>) (exit code (m_kern m))"

definition unknown_trap :: "'a machine_scheme \<Rightarrow> 'a machine_scheme option" where
  "unknown_trap m = die (- 1) m"

definition external_intr :: "int \<Rightarrow> 'a machine_scheme \<Rightarrow> 'a machine_scheme option" where
  "external_intr irq m =
     (if irq = UART0_IRQ then Some m
      else if irq = VIRTIO0_IRQ then map_option (\<lambda>d. m\<lparr>m_disk := d\<rparr>) (virtio_disk_intr (m_disk m))
      else if irq = VIRTIO1_IRQ then map_option (\<lambda>s. m\<lparr>m_net := s\<rparr>) (virtio_net_intr (m_net m))
      else Some m)"

definition devintr :: "u64 \<Rightarrow> 'a machine_scheme \<Rightarrow> (intr_end \<times> 'a machine_scheme) option" where
  "devintr cause m =
     (if cause = SupervisorTimer then
        (let m = set_next_timer m in
         if h_sstatus m AND SSTATUS_SPP = 0
         then map_option (\<lambda>k. (Yielded, m\<lparr>m_kern := k\<rparr>)) (yield (m_kern m))
         else Some (Handled, m))
      else if cause = SupervisorExternal then
        (let (irq, m) = plic_claim m in
         map_option (\<lambda>m. (Handled, if irq \<noteq> 0 then plic_complete irq m else m)) (external_intr irq m))
      else map_option (\<lambda>m. (Killed, m)) (unknown_trap m))"

section \<open>To and from user space\<close>

definition usertrapret :: "'b trap_env_scheme \<Rightarrow> 'a machine_scheme \<Rightarrow> (trap_end \<times> 'a machine_scheme) option" where
  "usertrapret E m = (case current (m_kern m) of None \<Rightarrow> None | Some t \<Rightarrow>
     (let m = set_usertrap E m;
          th = the_thread (m_kern m) t;
          m = m\<lparr>m_kern := map_thread t (\<lambda>x. x\<lparr>th_trapframe := (th_trapframe x)(
            Kernel_satp := h_satp m, Kernel_sp := th_kstack th + KSTACK_SIZE,
            Kernel_trap := te_usertrap E, Kernel_hartid := h_tp m)\<rparr>) (m_kern m)\<rparr>;
          m = m\<lparr>h_sepc := th_trapframe th Epc\<rparr>;
          x = h_sstatus m AND NOT SSTATUS_SPP OR SSTATUS_SPIE;
          m = m\<lparr>h_sstatus := x\<rparr>;
          satp = MAKE_SATP (p_pagetable (the_proc (m_kern m) (fst t)));
          fn = TRAMPOLINE + te_userret E;
          trapframe_va = get_thread_trapframe_va (th_tid th)
      in Some (To_user fn trapframe_va satp, m)))"

definition IllegalInstruction :: u64 where "IllegalInstruction = 2"
definition UserEnvCall :: u64 where "UserEnvCall = 8"

text \<open>\<^verbatim>\<open>StoreMisaligned\<close>, \<^verbatim>\<open>StorePageFault\<close>, \<^verbatim>\<open>InstructionMisaligned\<close>, \<^verbatim>\<open>InstructionPageFault\<close>,
  \<^verbatim>\<open>LoadMisaligned\<close> and \<^verbatim>\<open>LoadPageFault\<close>.\<close>

definition fault_causes :: "u64 list" where
  "fault_causes = [6, 15, 0, 12, 4, 13]"

text \<open>What a thread does with the CPU when a call has run: it returns, or waits, or is gone.\<close>

definition after_call :: "'b trap_env_scheme \<Rightarrow> outcome \<Rightarrow> 'a machine_scheme \<Rightarrow> (trap_end \<times> 'a machine_scheme) option" where
  "after_call E out m = (case out of
     Done v \<Rightarrow> usertrapret E m
   | Waits q \<Rightarrow> Some (Switched (After_call q), m)
   | Gone \<Rightarrow> Some (Ended, m))"

definition usertrap :: "'b trap_env_scheme \<Rightarrow> 'a machine_scheme \<Rightarrow> (trap_end \<times> 'a machine_scheme) option" where
  "usertrap E m = (let m = set_kerneltrap E m; cause = h_scause m in
     case current (m_kern m) of None \<Rightarrow> None | Some t \<Rightarrow>
     if h_sstatus m AND SSTATUS_SPP \<noteq> 0 then None
     else if cause AND Interrupt_bit \<noteq> 0 then do {
       (e, m) \<leftarrow> devintr (cause AND 0xff) m;
       case e of Handled \<Rightarrow> usertrapret E m | Yielded \<Rightarrow> Some (Switched After_intr, m) | Killed \<Rightarrow> Some (Ended, m) }
     else if cause = UserEnvCall then do {
       let k = map_thread t (\<lambda>x. x\<lparr>th_trapframe := (th_trapframe x)(Epc := th_trapframe x Epc + 4)\<rparr>) (m_kern m);
       (out, k) \<leftarrow> syscall (E\<lparr>env_cycle := get_cycle m\<rparr>) k;
       after_call E out (m\<lparr>m_kern := k\<rparr>) }
     else if cause \<in> set fault_causes then map_option (\<lambda>m. (Ended, m)) (die (- 2) m)
     else if cause = IllegalInstruction then map_option (\<lambda>m. (Ended, m)) (die (- 3) m)
     else map_option (\<lambda>m. (Ended, m)) (unknown_trap m))"

text \<open>The rest of \<^verbatim>\<open>usertrap\<close>, when the thread that gave the CPU away is the current one again.\<close>

definition resume_trap :: "'b trap_env_scheme \<Rightarrow> trap_resume \<Rightarrow> 'a machine_scheme \<Rightarrow> (trap_end \<times> 'a machine_scheme) option" where
  "resume_trap E r m = (case r of
     After_intr \<Rightarrow> usertrapret E m
   | After_call q \<Rightarrow> do {
       (out, k) \<leftarrow> resume_call q (m_kern m);
       after_call E out (m\<lparr>m_kern := k\<rparr>) })"

definition kerneltrap :: "'a machine_scheme \<Rightarrow> (intr_end \<times> 'a machine_scheme) option" where
  "kerneltrap m = (let sepc = h_sepc m; sstatus = h_sstatus m; scause = h_scause m in
     if sstatus AND SSTATUS_SPP = 0 then None
     else if scause AND Interrupt_bit \<noteq> 0 then do {
       (e, m) \<leftarrow> devintr (scause AND 0xff) m;
       Some (e, if e = Killed then m else m\<lparr>h_sepc := sepc, h_sstatus := sstatus\<rparr>) }
     else map_option (\<lambda>m. (Killed, m)) (die (- 1) m))"

end
