(* ===== verification/DiskProps.thy ===== *)
theory DiskProps
  imports VirtioDisk FileProps
begin

text \<open>
  A request to the disk, from \<^verbatim>\<open>virtio_disk_rw\<close> over the device and its interrupt back to
  \<^verbatim>\<open>virtio_disk_rw\<close>, against the transfer of one block that \<open>BlockIO\<close> takes it for.
\<close>

section \<open>What the disk is documented to do\<close>

text \<open>
  The chain that starts at descriptor \<open>h\<close>: the header of the request, the data of buffer \<open>b\<close>,
  writable by the disk exactly if the disk is read, and the status byte.
\<close>

definition request_chain :: "vdisk \<Rightarrow> nat \<Rightarrow> nat \<Rightarrow> nat \<Rightarrow> nat \<Rightarrow> bool" where
  "request_chain d h m t b \<longleftrightarrow> h < NUM \<and> m < NUM \<and> t < NUM \<and>
     dk_desc d ! h = \<lparr>vd_addr = dk_ops_at d h, vd_len = 16, vd_flags = VRING_DESC_F_NEXT, vd_next = of_nat m\<rparr> \<and>
     dk_desc d ! m = \<lparr>vd_addr = dk_data_at d b, vd_len = of_nat BSIZE,
       vd_flags = (if rq_type (dk_ops d ! h) = VIRTIO_BLK_T_OUT then 0 else VRING_DESC_F_WRITE) OR VRING_DESC_F_NEXT, vd_next = of_nat t\<rparr> \<and>
     dk_desc d ! t = \<lparr>vd_addr = dk_status_at d h, vd_len = 1, vd_flags = VRING_DESC_F_WRITE, vd_next = 0\<rparr>"

text \<open>Two sectors of 512 bytes are one block.\<close>

definition transfer :: "virtio_blk_req \<Rightarrow> nat \<Rightarrow> 'a fs_kern_scheme \<Rightarrow> 'a fs_kern_scheme" where
  "transfer q b k = (let block = ucast (rq_sector q div 2) in
     if rq_type q = VIRTIO_BLK_T_OUT then k\<lparr>disk := (disk k)(block := b_data (the_buf k b))\<rparr>
     else map_buf b (\<lambda>x. x\<lparr>b_data := disk k block\<rparr>) k)"

definition complete :: "nat \<Rightarrow> u32 \<Rightarrow> vdisk \<Rightarrow> vdisk" where
  "complete h n d = d\<lparr>dk_info := upd_at h (\<lambda>x. x\<lparr>di_status := 0\<rparr>) (dk_info d),
     dk_used := (dk_used d)[unat (dk_used_dev d) mod NUM := (of_nat h, n)], dk_used_dev := dk_used_dev d + 1\<rparr>"

text \<open>
  Section 5.2.6 of the specification of virtio: the disk takes the one chain that is new in the
  available ring, does the transfer, writes the status 0 and puts the chain in the used ring.
\<close>

definition disk_serves :: "(vdisk \<times> 'a fs_kern_scheme \<Rightarrow> vdisk \<times> 'a fs_kern_scheme) \<Rightarrow> bool" where
  "disk_serves device \<longleftrightarrow> (\<forall>d k h m t b. inj_on (dk_data_at d) {..<length (bufs k)} \<longrightarrow> dk_avail_idx d = dk_used_dev d + 1 \<longrightarrow>
     dk_avail d ! (unat (dk_used_dev d) mod NUM) = of_nat h \<longrightarrow> request_chain d h m t b \<longrightarrow> b < length (bufs k) \<longrightarrow>
     (\<exists>n. device (d, k) = (complete h n d, transfer (dk_ops d ! h) b k)))"

section \<open>A request\<close>

text \<open>No request is under way.\<close>

definition disk_idle :: "vdisk \<Rightarrow> bool" where
  "disk_idle d \<longleftrightarrow> dk_free d = replicate NUM True \<and> length (dk_desc d) = NUM \<and> length (dk_avail d) = NUM \<and>
     length (dk_used d) = NUM \<and> length (dk_info d) = NUM \<and> length (dk_ops d) = NUM \<and>
     dk_used_idx d = dk_used_dev d \<and> dk_avail_idx d = dk_used_dev d \<and> inj_on (dk_data_at d) {..<NBUF}"

lemma alloc3_idle:
  "dk_free d = replicate NUM True \<Longrightarrow>
     alloc3_desc d = Some (Some [0, 1, 2], d\<lparr>dk_free := [False, False, False, True, True, True, True, True]\<rparr>)"
  by (simp add: alloc3_desc_def alloc_desc_def NUM_def numeral_eq_Suc)

lemma sector_block:
  assumes "unat n < 2 ^ 31"
  shows "ucast ((ucast (n * of_nat (BSIZE div 512)) :: u64) div 2) = (n :: u32)"
proof -
  have "unat (n * 2) = unat n * 2" using assms by (simp add: unat_word_ariths)
  then have "unat ((ucast (n * 2) :: u64) div 2) = unat n" by (simp add: unat_div unat_ucast_up)
  then have "unat (ucast ((ucast (n * 2) :: u64) div 2) :: u32) = unat n"
    using unat_less_len [of n] by (simp add: unsigned_ucast_eq take_bit_nat_eq_self)
  then have "ucast ((ucast (n * 2) :: u64) div 2) = n" by (simp add: word_unat_eq_iff)
  then show ?thesis by (simp add: BSIZE_def)
qed

lemma format_request_chain:
  assumes "length (dk_desc d) = NUM" "length (dk_ops d) = NUM"
  shows "request_chain (format_request b n wr 0 1 2 d) 0 1 2 b"
  using assms by (simp add: request_chain_def format_request_def disk_desc_def Let_def NUM_def VIRTIO_BLK_T_OUT_def VIRTIO_BLK_T_IN_def)

lemma format_request_fields [simp]:
  "dk_free (format_request b n wr i j l d) = dk_free d" "dk_used_dev (format_request b n wr i j l d) = dk_used_dev d"
  "dk_used_idx (format_request b n wr i j l d) = dk_used_idx d" "dk_used (format_request b n wr i j l d) = dk_used d"
  "dk_data_at (format_request b n wr i j l d) = dk_data_at d" "dk_avail_idx (format_request b n wr i j l d) = dk_avail_idx d + 1"
  "length (dk_desc (format_request b n wr i j l d)) = length (dk_desc d)" "length (dk_ops (format_request b n wr i j l d)) = length (dk_ops d)"
  "length (dk_avail (format_request b n wr i j l d)) = length (dk_avail d)" "length (dk_info (format_request b n wr i j l d)) = length (dk_info d)"
  "dk_busy (format_request b n wr i j l d) = (dk_busy d)(b := True)"
  by (simp_all add: format_request_def disk_desc_def Let_def)

lemma complete_fields [simp]:
  "dk_free (complete h n d) = dk_free d" "dk_used_dev (complete h n d) = dk_used_dev d + 1" "dk_used_idx (complete h n d) = dk_used_idx d"
  "dk_data_at (complete h n d) = dk_data_at d" "dk_avail_idx (complete h n d) = dk_avail_idx d" "dk_desc (complete h n d) = dk_desc d"
  "dk_ops (complete h n d) = dk_ops d" "dk_avail (complete h n d) = dk_avail d" "length (dk_info (complete h n d)) = length (dk_info d)"
  "length (dk_used (complete h n d)) = length (dk_used d)" "dk_busy (complete h n d) = dk_busy d"
  by (simp_all add: complete_def)

lemma u16_mod_NUM: "unat (u :: u16) mod NUM < NUM"
  by (simp add: NUM_def)

lemma free_chain_3:
  assumes "request_chain d 0 1 2 b" "dk_free d = [False, False, False, True, True, True, True, True]" "length (dk_desc d) = NUM"
  shows "\<exists>d'. free_chain 0 d = Some d' \<and> dk_free d' = replicate NUM True \<and> length (dk_desc d') = NUM \<and>
    d' = d\<lparr>dk_desc := dk_desc d', dk_free := dk_free d'\<rparr>"
proof -
  let ?d1 = "d\<lparr>dk_desc := (dk_desc d)[0 := zero_desc], dk_free := [True, False, False, True, True, True, True, True]\<rparr>"
  let ?d2 = "?d1\<lparr>dk_desc := (dk_desc ?d1)[1 := zero_desc], dk_free := [True, True, False, True, True, True, True, True]\<rparr>"
  let ?d3 = "?d2\<lparr>dk_desc := (dk_desc ?d2)[2 := zero_desc], dk_free := [True, True, True, True, True, True, True, True]\<rparr>"
  have f: "free_desc 0 d = Some ?d1" "free_desc 1 ?d1 = Some ?d2" "free_desc 2 ?d2 = Some ?d3"
    using assms by (simp_all add: free_desc_def NUM_def)
  have c: "dk_desc d ! 0 = \<lparr>vd_addr = dk_ops_at d 0, vd_len = 16, vd_flags = 1, vd_next = 1\<rparr>"
    "vd_flags (dk_desc d ! 1) AND 1 \<noteq> 0" "vd_next (dk_desc d ! 1) = 2" "vd_flags (dk_desc d ! 2) = 2"
    using assms(1) by (simp_all add: request_chain_def VRING_DESC_F_NEXT_def VRING_DESC_F_WRITE_def)
  have e: "free_chain 2 ?d2 = Some ?d3"
    using f(3) c by (subst free_chain.simps) (simp add: VRING_DESC_F_NEXT_def)
  then have "free_chain 1 ?d1 = Some ?d3"
    using f(2) c by (subst free_chain.simps) (simp add: VRING_DESC_F_NEXT_def)
  then have "free_chain 0 d = Some ?d3"
    using f(1) c by (subst free_chain.simps) (simp add: VRING_DESC_F_NEXT_def)
  then show ?thesis using assms(3) by (intro exI [of _ ?d3]) (simp add: NUM_def numeral_eq_Suc)
qed

text \<open>The whole of \<^verbatim>\<open>virtio_disk_rw\<close>, with the disk and its interrupt at the place where the code spins.\<close>

definition disk_request :: "(vdisk \<times> 'a fs_kern_scheme \<Rightarrow> vdisk \<times> 'a fs_kern_scheme) \<Rightarrow> nat \<Rightarrow> bool \<Rightarrow>
    vdisk \<times> 'a fs_kern_scheme \<Rightarrow> (vdisk \<times> 'a fs_kern_scheme) option" where
  "disk_request device b wr = (\<lambda>(d, k). do {
     (h, d1) \<leftarrow> disk_start b (b_blockno (the_buf k b)) wr d;
     h \<leftarrow> h;
     let (d2, k2) = device (d1, k);
     d3 \<leftarrow> virtio_disk_intr d2;
     if dk_busy d3 b then None else do {
       d4 \<leftarrow> disk_finish h d3;
       Some (d4, k2) } })"

lemma transfer_rw:
  assumes "unat (b_blockno (the_buf k b)) < 2 ^ 31" "length (dk_ops d) = NUM"
  shows "transfer (dk_ops (format_request b (b_blockno (the_buf k b)) wr 0 1 2 d) ! 0) b k = virtio_disk_rw b wr k"
proof -
  have q: "dk_ops (format_request b (b_blockno (the_buf k b)) wr 0 1 2 d) ! 0 = \<lparr>rq_type = (if wr then VIRTIO_BLK_T_OUT else VIRTIO_BLK_T_IN),
      rq_reserved = 0, rq_sector = ucast (b_blockno (the_buf k b) * of_nat (BSIZE div 512))\<rparr>"
    using assms(2) by (simp add: format_request_def disk_desc_def Let_def NUM_def)
  have "map_buf b (\<lambda>x. x\<lparr>b_data := disk k (b_blockno (the_buf k b))\<rparr>) k = map_buf b (\<lambda>x. x\<lparr>b_data := disk k (b_blockno x)\<rparr>) k"
    by (simp add: map_buf_def upd_at_def the_buf_def)
  then show ?thesis
    unfolding q transfer_def virtio_disk_rw_def Let_def virtio_blk_req.select_convs sector_block [OF assms(1)]
    by (simp add: VIRTIO_BLK_T_IN_def VIRTIO_BLK_T_OUT_def)
qed

lemma disk_request_ok:
  assumes idle: "disk_idle d" and serves: "disk_serves device" and n: "length (bufs k) = NBUF" and b: "b < NBUF"
    and small: "unat (b_blockno (the_buf k b)) < 2 ^ 31"
  shows "\<exists>d'. disk_request device b wr (d, k) = Some (d', virtio_disk_rw b wr k) \<and> disk_idle d' \<and>
    dk_busy d' = (dk_busy d)(b := False)"
proof -
  let ?n = "b_blockno (the_buf k b)"
  let ?d0 = "d\<lparr>dk_free := [False, False, False, True, True, True, True, True]\<rparr>"
  let ?d1 = "format_request b ?n wr 0 1 2 ?d0"
  let ?u = "dk_used_dev d"
  have idx: "dk_used_idx d = ?u" "dk_avail_idx d = ?u" and inj: "inj_on (dk_data_at d) {..<NBUF}"
    and len: "length (dk_desc d) = NUM" "length (dk_ops d) = NUM" "length (dk_avail d) = NUM" "length (dk_info d) = NUM" "length (dk_used d) = NUM"
    using idle by (simp_all add: disk_idle_def)
  have start: "disk_start b ?n wr d = Some (Some 0, ?d1)"
    using idle by (simp add: disk_start_def alloc3_idle disk_idle_def)
  have av: "dk_avail ?d1 ! (unat ?u mod NUM) = of_nat 0"
    using idx len u16_mod_NUM [of ?u] by (simp add: format_request_def disk_desc_def Let_def)
  have chain: "request_chain ?d1 0 1 2 b" by (rule format_request_chain) (simp_all add: len)
  obtain n where dev: "device (?d1, k) = (complete 0 n ?d1, transfer (dk_ops ?d1 ! 0) b k)"
    using serves [unfolded disk_serves_def, rule_format, of ?d1 k 0 1 2 b] inj idx av chain b n by auto
  let ?d2 = "complete 0 n ?d1"
  have info: "dk_info ?d2 ! 0 = \<lparr>di_buf = Some b, di_status = 0\<rparr>"
    using len by (simp add: complete_def format_request_def disk_desc_def Let_def NUM_def)
  have used: "fst (dk_used ?d2 ! (unat ?u mod NUM)) = 0" using len u16_mod_NUM [of ?u] by (simp add: complete_def)
  let ?d3 = "?d2\<lparr>dk_busy := (dk_busy ?d2)(b := False), dk_used_idx := dk_used_idx ?d2 + 1\<rparr>"
  have "virtio_disk_intr ?d3 = Some ?d3" using idx by (subst virtio_disk_intr.simps) simp
  moreover have "?u \<noteq> ?u + 1" by simp
  moreover have "\<not> NUM \<le> 0" by (simp add: NUM_def)
  ultimately have intr: "virtio_disk_intr ?d2 = Some ?d3"
    using idx used info by (subst virtio_disk_intr.simps) (simp add: Let_def)
  let ?d4 = "?d3\<lparr>dk_info := upd_at 0 (\<lambda>x. x\<lparr>di_buf := None\<rparr>) (dk_info ?d3)\<rparr>"
  have "request_chain ?d4 0 1 2 b"
    using chain by (simp add: request_chain_def complete_def)
  then obtain d' where d': "free_chain 0 ?d4 = Some d'" "dk_free d' = replicate NUM True" "length (dk_desc d') = NUM"
    "d' = ?d4\<lparr>dk_desc := dk_desc d', dk_free := dk_free d'\<rparr>"
    using free_chain_3 [of ?d4 b] len by auto
  have "dk_avail d' = dk_avail ?d4" "dk_used d' = dk_used ?d4" "dk_info d' = dk_info ?d4" "dk_ops d' = dk_ops ?d4"
    "dk_used_idx d' = dk_used_idx ?d4" "dk_used_dev d' = dk_used_dev ?d4" "dk_avail_idx d' = dk_avail_idx ?d4"
    "dk_data_at d' = dk_data_at ?d4" "dk_busy d' = dk_busy ?d4"
    by (subst d'(4), simp)+
  then have "disk_idle d'" "dk_busy d' = (dk_busy d)(b := False)"
    using d'(2,3) len idx inj by (simp_all add: disk_idle_def)
  moreover have "disk_request device b wr (d, k) = Some (d', virtio_disk_rw b wr k)"
    using start dev intr d'(1) transfer_rw [OF small, of ?d0 wr] len by (simp add: disk_request_def disk_finish_def)
  ultimately show ?thesis by blast
qed

fun disk_requests :: "(vdisk \<times> 'a fs_kern_scheme \<Rightarrow> vdisk \<times> 'a fs_kern_scheme) \<Rightarrow> (nat \<times> bool) list \<Rightarrow>
    vdisk \<times> 'a fs_kern_scheme \<Rightarrow> (vdisk \<times> 'a fs_kern_scheme) option" where
  "disk_requests device [] s = Some s"
| "disk_requests device ((b, wr) # rs) s = do { s \<leftarrow> disk_request device b wr s; disk_requests device rs s }"

lemma virtio_disk_rw_bufs:
  "length (bufs (virtio_disk_rw b wr k)) = length (bufs k)"
  "b_blockno (the_buf (virtio_disk_rw b wr k) c) = b_blockno (the_buf k c)"
  by (simp_all add: virtio_disk_rw_def map_buf_def the_buf_def field_upd_at)


text \<open>A disk that serves its requests at once: it finds the buffer by its address.\<close>

definition demo_device :: "vdisk \<times> fs_kern \<Rightarrow> vdisk \<times> fs_kern" where
  "demo_device = (\<lambda>(d, k). let
     h = unat (dk_avail d ! (unat (dk_used_dev d) mod NUM));
     m = unat (vd_next (dk_desc d ! h))
   in case find (\<lambda>b. dk_data_at d b = vd_addr (dk_desc d ! m)) [0..<length (bufs k)] of
        None \<Rightarrow> (d, k)
      | Some b \<Rightarrow> (complete h 0 d, transfer (dk_ops d ! h) b k))"

lemma demo_device_serves: "disk_serves demo_device"
  unfolding disk_serves_def
proof (intro allI impI)
  fix d :: vdisk and k :: fs_kern and h m t b
  assume inj: "inj_on (dk_data_at d) {..<length (bufs k)}" and av: "dk_avail d ! (unat (dk_used_dev d) mod NUM) = of_nat h"
    and chain: "request_chain d h m t b" and b: "b < length (bufs k)"
  have h: "unat (of_nat h :: u16) = h" and m: "unat (of_nat m :: u16) = m"
    using chain by (simp_all add: request_chain_def NUM_def unat_of_nat)
  have ne: "dk_data_at d j \<noteq> dk_data_at d b" if "j < b" for j using inj_onD [OF inj, of j b] that b by auto
  have "find (\<lambda>c. dk_data_at d c = dk_data_at d b) [0..<length (bufs k)] = Some b"
    using b ne by (auto simp: find_Some_iff intro!: exI [of _ b])
  then have "demo_device (d, k) = (complete h 0 d, transfer (dk_ops d ! h) b k)"
    using chain by (simp add: demo_device_def av h m request_chain_def)
  then show "\<exists>n. demo_device (d, k) = (complete h n d, transfer (dk_ops d ! h) b k)" by blast
qed

text \<open>A queue whose indices are about to go around the end.\<close>

definition demo_disk :: vdisk where
  "demo_disk = \<lparr>dk_desc = replicate NUM zero_desc, dk_avail_idx = 0xffff, dk_avail = replicate NUM 0, dk_used_dev = 0xffff,
     dk_used = replicate NUM (0, 0), dk_free = replicate NUM True, dk_used_idx = 0xffff,
     dk_info = replicate NUM \<lparr>di_buf = None, di_status = 0\<rparr>, dk_ops = replicate NUM \<lparr>rq_type = 0, rq_reserved = 0, rq_sector = 0\<rparr>,
     dk_busy = (\<lambda>_. False), dk_status = 15, dk_ops_at = (\<lambda>i. of_nat i), dk_status_at = (\<lambda>i. of_nat i), dk_data_at = (\<lambda>b. of_nat (1024 * b))\<rparr>"

lemma demo_disk_idle: "disk_idle demo_disk"
proof -
  have "inj_on (\<lambda>b. of_nat (1024 * b) :: u64) {..<NBUF}"
  proof (rule inj_onI)
    fix a b assume ab: "a \<in> {..<NBUF}" "b \<in> {..<NBUF}" and "of_nat (1024 * a) = (of_nat (1024 * b) :: u64)"
    then have "unat (of_nat (1024 * a) :: u64) = unat (of_nat (1024 * b) :: u64)" by simp
    then show "a = b" using ab by (simp add: unat_of_nat NBUF_def MAXOPBLOCKS_def del: of_nat_mult)
  qed
  then show ?thesis by (simp add: disk_idle_def demo_disk_def)
qed


end
