(* ===== verification/NetPackets.thy ===== *)
theory NetPackets
  imports NetStack
begin

text \<open>
  Packets of the stack on their way from one host to another: each layer's input takes apart
  what the same layer's output has put together.
\<close>

section \<open>Reading fields of a packet\<close>

lemma slice_append_left: "off + n \<le> length xs \<Longrightarrow> slice off n (xs @ ys) = slice off n xs"
  by (simp add: slice_def)

lemma slice_append_right: "length xs \<le> off \<Longrightarrow> slice off n (xs @ ys) = slice (off - length xs) n ys"
  by (simp add: slice_def)

lemma slice_all: "n = length xs \<Longrightarrow> slice 0 n xs = xs"
  by (simp add: slice_def)

lemma slice_first: "n = length xs \<Longrightarrow> slice 0 n (xs @ ys) = xs"
  by (simp add: slice_def)

lemma slice_Cons: "0 < off \<Longrightarrow> slice off n (x # xs) = slice (off - 1) n xs"
  by (cases off) (simp_all add: slice_def)

lemma slice_zeros: "le_word (slice 0 2 (0 # 0 # xs)) = (0 :: u16)"
  by (simp add: slice_def)

lemmas slices = slice_append_right slice_first slice_all slice_Cons slice_zeros

lemma get_append:
  "off + 2 \<le> length xs \<Longrightarrow> get16 off (xs @ ys) = get16 off xs"
  "off + 4 \<le> length xs \<Longrightarrow> get32 off (xs @ ys) = get32 off xs"
  by (simp_all add: get16_def get32_def slice_append_left)

lemma get_put16_other:
  "off + 2 \<le> length d \<Longrightarrow> off' + 2 \<le> length d \<Longrightarrow> off' + 2 \<le> off \<or> off + 2 \<le> off' \<Longrightarrow>
     get16 off' (put16 off v d) = get16 off' d"
  "off + 2 \<le> length d \<Longrightarrow> off' + 4 \<le> length d \<Longrightarrow> off' + 4 \<le> off \<or> off + 2 \<le> off' \<Longrightarrow>
     get32 off' (put16 off v d) = get32 off' d"
  by (simp_all add: get16_def get32_def put16_def slice_splice_other)

lemma nth_put16:
  "off + 2 \<le> length d \<Longrightarrow> i < length d \<Longrightarrow> i < off \<or> off + 2 \<le> i \<Longrightarrow> put16 off v d ! i = d ! i"
  by (auto simp: put16_def nth_splice)

lemma drop_put16: "off + 2 \<le> n \<Longrightarrow> n \<le> length d \<Longrightarrow> drop n (put16 off v d) = drop n d"
  by (rule nth_equalityI) (simp_all add: nth_put16)

lemma unat_of_nat_u16: "n < 65536 \<Longrightarrow> unat (of_nat n :: u16) = n"
  by (simp add: unat_of_nat)

section \<open>IP\<close>

lemma length_ip_header [simp]: "length (ip_header p t src dst i off) = 20"
  by (simp add: ip_header_def)

lemma ip_header_fields:
  "ip_header p t src dst i off ! 0 = 0x45" "get16 2 (ip_header p t src dst i off) = hton16 t"
  "get16 6 (ip_header p t src dst i off) = hton16 off" "ip_header p t src dst i off ! 9 = p"
  "get16 10 (ip_header p t src dst i off) = 0" "get32 12 (ip_header p t src dst i off) = src"
  "get32 16 (ip_header p t src dst i off) = dst"
  unfolding ip_header_def IP_VERSION_IPV4_def IP_HDR_SIZE_MIN_def get16_def get32_def
  by (simp_all add: slices le_word_le_bytes nth_append nth_Cons')

lemma ip_packet_fields:
  assumes "length data \<le> 65515" and h_def: "h = ip_packet p data src dst i off"
  shows "length h = 20 + length data" "h ! 0 = 0x45" "get16 2 h = hton16 (of_nat (20 + length data))"
    "get16 6 h = hton16 off" "h ! 9 = p" "get32 12 h = src" "get32 16 h = dst" "drop 20 h = data"
    "cksum16 h 20 0 = 0"
proof -
  let ?hd = "ip_header p (of_nat (20 + length data)) src dst i off"
  let ?h = "put16 10 (cksum16 ?hd 20 0) ?hd"
  have h: "h = ?h @ data" unfolding h_def ip_packet_def Let_def IP_HDR_SIZE_MIN_def by simp
  have l: "length ?h = 20" by simp
  show "length h = 20 + length data" "drop 20 h = data" using l by (simp_all add: h)
  show "h ! 0 = 0x45" "h ! 9 = p" by (simp_all add: h nth_append nth_put16 ip_header_fields)
  show "get16 2 h = hton16 (of_nat (20 + length data))" "get16 6 h = hton16 off" "get32 12 h = src" "get32 16 h = dst"
    by (simp_all add: h get_append get_put16_other ip_header_fields del: of_nat_add)
  have "cksum16 ?h 20 0 = 0"
    by (rule cksum16_accepts) (simp_all add: ip_header_fields)
  moreover have "cksum16 h 20 0 = cksum16 ?h 20 0" using l by (simp add: h cksum16_def)
  ultimately show "cksum16 h 20 0 = 0" by simp
qed

lemma ip_input_packet:
  assumes len: "length data \<le> 65515"
    and i: "net_device_get_iface dev NET_IFACE_FAMILY_IP s = Some i"
    and dst: "dst \<in> {if_unicast (the_if s i), if_broadcast (the_if s i), IP_ADDR_BROADCAST}"
    and h: "find (\<lambda>p. fst p = protocol) (n_ipprotos s) = Some (protocol, h)"
  shows "ip_input call (ip_packet protocol data src dst id' 0 @ pad) dev s = call h data src dst i s"
proof -
  let ?h = "ip_packet protocol data src dst id' 0"
  note f = ip_packet_fields [OF len refl, of protocol src dst id' 0]
  have size: "unat (of_nat (20 + length data) :: u16) = 20 + length data"
    using len by (intro unat_of_nat_u16) simp
  have hlen: "ip_hlen (?h @ pad) = 20" using f(1,2) by (simp add: ip_hlen_def nth_append)
  have ck: "cksum16 (?h @ pad) 20 0 = 0" using f(1,9) by (simp add: cksum16_def)
  have payload: "slice 20 (length data) (?h @ pad) = data" using f(1,8) by (simp add: slice_def)
  have fields: "(?h @ pad) ! 0 = 0x45" "(?h @ pad) ! 9 = protocol" "get16 2 (?h @ pad) = hton16 (of_nat (20 + length data))"
      "get16 6 (?h @ pad) = hton16 0" "get32 12 (?h @ pad) = src" "get32 16 (?h @ pad) = dst"
    using f by (simp_all add: nth_append get_append del: of_nat_add)
  have nd: "(dst \<noteq> if_unicast (the_if s i) \<and> dst \<noteq> if_broadcast (the_if s i) \<and> dst \<noteq> IP_ADDR_BROADCAST) = False"
    using dst by blast
  show ?thesis
    unfolding ip_input_def Let_def hlen fields ntoh_hton size
    using f(1) ck i h payload by (simp add: nd IP_HDR_SIZE_MIN_def IP_VERSION_IPV4_def del: of_nat_add)
qed

section \<open>UDP and TCP\<close>

lemma pseudo_sum_le: "unat (ucast (pseudo_sum p src dst len) :: u32) \<le> 65535"
  using unat_less_len [of "pseudo_sum p src dst len"] by (simp add: unat_ucast_up)

lemma udp_datagram_fields:
  assumes len: "length data \<le> 65527" and h_def: "h = udp_datagram src dst data"
  shows "length h = 8 + length data" "get16 0 h = ep_port src" "get16 2 h = ep_port dst"
    "get16 4 h = hton16 (of_nat (8 + length data))" "drop 8 h = data"
    "cksum16 h (of_nat (8 + length data)) (ucast (pseudo_sum IP_PROTOCOL_UDP (ep_addr src) (ep_addr dst) (of_nat (8 + length data)))) = 0"
proof -
  let ?n = "of_nat (8 + length data) :: u16"
  let ?init = "ucast (pseudo_sum IP_PROTOCOL_UDP (ep_addr src) (ep_addr dst) ?n) :: u32"
  let ?m = "le_bytes 2 (ep_port src) @ le_bytes 2 (ep_port dst) @ le_bytes 2 (hton16 ?n) @ [0, 0] @ data"
  have h: "h = put16 6 (cksum16 ?m ?n ?init) ?m" unfolding h_def udp_datagram_def Let_def UDP_HDR_SIZE_def ..
  have l: "length ?m = 8 + length data" by simp
  have m: "get16 0 ?m = ep_port src" "get16 2 ?m = ep_port dst" "get16 4 ?m = hton16 ?n" "get16 6 ?m = 0" "drop 8 ?m = data"
    unfolding get16_def by (simp_all add: slices slice_append_left le_word_le_bytes del: of_nat_add)
  show "length h = 8 + length data" using l by (simp add: h)
  show "get16 0 h = ep_port src" "get16 2 h = ep_port dst" "get16 4 h = hton16 ?n"
    unfolding h using l m by (simp_all add: get_put16_other del: of_nat_add append.simps)
  show "drop 8 h = data" unfolding h using l m(5) by (simp add: drop_put16 del: of_nat_add append.simps drop_append)
  have "length ?m = unat ?n" unfolding l using len by (intro unat_of_nat_u16 [symmetric]) simp
  then show "cksum16 h ?n ?init = 0"
    unfolding h by (intro cksum16_accepts m pseudo_sum_le) (use l in simp_all)
qed

lemma tcp_segment_fields:
  assumes len: "length data \<le> 65515" and h_def: "h = tcp_segment seq' ack flg wnd data local foreign"
  shows "length h = 20 + length data" "get16 0 h = ep_port local" "get16 2 h = ep_port foreign"
    "get32 4 h = hton32 seq'" "get32 8 h = hton32 ack" "h ! 12 = 0x50" "h ! 13 = flg" "get16 14 h = hton16 wnd"
    "drop 20 h = data"
    "cksum16 h (of_nat (20 + length data)) (ucast (pseudo_sum IP_PROTOCOL_TCP (ep_addr local) (ep_addr foreign) (of_nat (20 + length data)))) = 0"
proof -
  let ?n = "of_nat (20 + length data) :: u16"
  let ?init = "ucast (pseudo_sum IP_PROTOCOL_TCP (ep_addr local) (ep_addr foreign) ?n) :: u32"
  let ?m = "le_bytes 2 (ep_port local) @ le_bytes 2 (ep_port foreign) @ le_bytes 4 (hton32 seq') @
       le_bytes 4 (hton32 ack) @ [0x50, flg] @ le_bytes 2 (hton16 wnd) @ [0, 0, 0, 0] @ data"
  have h: "h = put16 16 (cksum16 ?m ?n ?init) ?m"
    unfolding h_def tcp_segment_def Let_def TCP_HDR_SIZE_def by (simp del: of_nat_add)
  have l: "length ?m = 20 + length data" by simp
  have m: "get16 0 ?m = ep_port local" "get16 2 ?m = ep_port foreign" "get32 4 ?m = hton32 seq'" "get32 8 ?m = hton32 ack"
      "get16 14 ?m = hton16 wnd" "get16 16 ?m = 0" "drop 20 ?m = data"
    unfolding get16_def get32_def by (simp_all add: slices slice_append_left le_word_le_bytes del: of_nat_add)
  have b: "?m ! 12 = 0x50" "?m ! 13 = flg" by (simp_all add: nth_append)
  show "length h = 20 + length data" using l by (simp add: h)
  show "get16 0 h = ep_port local" "get16 2 h = ep_port foreign" "get32 4 h = hton32 seq'" "get32 8 h = hton32 ack"
      "get16 14 h = hton16 wnd"
    unfolding h using l m by (simp_all add: get_put16_other del: of_nat_add append.simps)
  show "h ! 12 = 0x50" "h ! 13 = flg"
    unfolding h using l b by (simp_all add: nth_put16 del: of_nat_add append.simps)
  show "drop 20 h = data" unfolding h using l m(7) by (simp add: drop_put16 del: of_nat_add append.simps drop_append)
  have "length ?m = unat ?n" unfolding l using len by (intro unat_of_nat_u16 [symmetric]) simp
  then show "cksum16 h ?n ?init = 0"
    unfolding h by (intro cksum16_accepts m pseudo_sum_le) (use l in simp_all)
qed

end
