(* ===== verification/NetFrame.thy ===== *)
theory NetFrame
  imports NetPackets
begin

text \<open>
  Output of a packet, from the protocols down to the ring of the card: it always returns, gives
  back every page it takes, and leaves everything alone but the card, the cache of hardware
  addresses and the counter of packet identifiers.
\<close>

definition sent :: "'a net_scheme \<Rightarrow> 'a net_scheme \<Rightarrow> bool" where
  "sent s s' \<longleftrightarrow> n_tcp s' = n_tcp s \<and> n_udp s' = n_udp s \<and> n_ifs s' = n_ifs s \<and> n_devs s' = n_devs s \<and>
     n_routes s' = n_routes s \<and> n_pages s' = n_pages s \<and> n_clock s' = n_clock s \<and> n_seed s' = n_seed s \<and>
     n_protos s' = n_protos s \<and> n_ipprotos s' = n_ipprotos s \<and> n_timers s' = n_timers s \<and>
     length (n_arp s') = length (n_arp s)"

lemma sent_refl [simp]: "sent s s"
  by (simp add: sent_def)

lemma sent_trans: "sent s t \<Longrightarrow> sent t u \<Longrightarrow> sent s u"
  by (simp add: sent_def)

lemma sent_map [simp]: "sent s (map_nic f t) = sent s t" "sent s (map_arp i g t) = sent s t"
  "sent s (t\<lparr>n_ipid := v\<rparr>) = sent s t"
  "sent (map_nic f s) t = sent s t" "sent (map_arp i g s) t = sent s t" "sent (s\<lparr>n_ipid := v\<rparr>) t = sent s t"
  by (simp_all add: sent_def map_nic_def map_arp_def)

lemma sent_alloc:
  assumes "memory_alloc n s = (ok, s1)"
  shows "\<not> ok \<Longrightarrow> s1 = s" "ok \<Longrightarrow> sent s1 s2 \<Longrightarrow> sent s (memory_free s2)"
  using assms by (auto simp: memory_alloc_def memory_free_def sent_def split: if_splits)

text \<open>An operation that returns some result and has only sent something.\<close>

definition sends :: "'a net_scheme \<Rightarrow> (int \<times> 'a net_scheme) option \<Rightarrow> bool" where
  "sends s m \<longleftrightarrow> (\<exists>r s'. m = Some (r, s') \<and> sent s s')"

lemma sendsI [intro]: "sent s s' \<Longrightarrow> sends s (Some (r, s'))"
  by (simp add: sends_def)

lemma sendsE:
  assumes "sends s m"
  obtains r s' where "m = Some (r, s')" "sent s s'"
  using assms by (auto simp: sends_def)

lemma sends_bind:
  assumes "sends s m" "\<And>r s'. m = Some (r, s') \<Longrightarrow> sent s s' \<Longrightarrow> sends s (f (r, s'))"
  shows "sends s (m \<bind> f)"
  using assms by (auto elim!: sendsE)

lemma sends_trans: "sends t m \<Longrightarrow> sent s t \<Longrightarrow> sends s m"
  by (auto simp: sends_def intro: sent_trans)

lemma sends_alloc:
  assumes "\<And>s1. memory_alloc n s = (True, s1) \<Longrightarrow> sends s1 (f s1)"
  shows "sends s (case memory_alloc n s of (ok, s1) \<Rightarrow> if \<not> ok then Some (r, s1)
    else do { (x, s2) \<leftarrow> f s1; Some (g s1 x, memory_free s2) })"
proof (cases "memory_alloc n s")
  case (Pair ok s1)
  note a = sent_alloc [OF Pair]
  show ?thesis
  proof (cases ok)
    case True
    with Pair assms have "sends s1 (f s1)" by simp
    then obtain r' s' where "f s1 = Some (r', s')" "sent s1 s'" by (rule sendsE)
    then show ?thesis using True a(2) [OF True, of s'] by (simp add: Pair sendsI)
  qed (use a(1) in \<open>auto simp: Pair\<close>)
qed

section \<open>The card and Ethernet\<close>

lemma virtio_net_write_sends:
  assumes "length data \<le> 2036"
  shows "sends s (virtio_net_write data s)"
  using assms by (auto simp: virtio_net_write_def split_beta Let_def RX_BUF_SIZE_def VIRTIO_NET_HDR_SIZE_def)

lemma length_ether_frame: "length (ether_frame dst src ty data) \<le> 14 + max 46 (length data)"
  by (simp add: ether_frame_def ETHER_ADDR_LEN_def ETHER_PAYLOAD_SIZE_MIN_def ETHER_HDR_SIZE_def)

lemma ether_transmit_sends:
  assumes "length data \<le> 2022"
  shows "sends s (ether_transmit_helper dev ty data dst s)"
  unfolding ether_transmit_helper_def Let_def
proof (rule sends_alloc)
  fix s1 :: "'a net_scheme"
  have "length (ether_frame dst (d_addr (the_dev s1 dev)) ty data) \<le> 2036"
    using assms length_ether_frame [of dst "d_addr (the_dev s1 dev)" ty data] by simp
  then show "sends s1 (virtio_net_write (ether_frame dst (d_addr (the_dev s1 dev)) ty data) s1)"
    by (rule virtio_net_write_sends)
qed

lemma net_device_output_sends:
  assumes "length data \<le> 2022"
  shows "sends s (net_device_output dev ty data dst s)"
  unfolding net_device_output_def virtio_net_transmit_def
  by (auto intro!: sends_bind ether_transmit_sends assms)

section \<open>Address resolution\<close>

lemma arp_oldest_Some: "cs \<noteq> [] \<Longrightarrow> \<exists>i. arp_oldest cs = Some i"
proof -
  have "fold (\<lambda>i oldest. case oldest of None \<Rightarrow> Some i
      | Some j \<Rightarrow> if timer_less (arp_timestamp (cs ! i)) (arp_timestamp (cs ! j)) then Some i else oldest) is (Some j) \<noteq> None" for "is" j
    by (induction "is" arbitrary: j) auto
  then show "cs \<noteq> [] \<Longrightarrow> \<exists>i. arp_oldest cs = Some i"
    by (cases cs) (auto simp: arp_oldest_def upt_conv_Cons simp del: upt_Suc)
qed

lemma arp_cache_alloc_sent:
  assumes "n_arp s \<noteq> []"
  obtains i s' where "arp_cache_alloc s = Some (i, s')" "sent s s'"
  using arp_oldest_Some [OF assms] that
  by (cases "first_idx (\<lambda>c. arp_state c = ARP_FREE) (n_arp s)") (auto simp: arp_cache_alloc_def arp_cache_delete_def)

lemma length_arp_message: "length (arp_message op' sha spa tha tpa) \<le> 28"
  by (simp add: arp_message_def ETHER_ADDR_LEN_def)

lemma arp_request_sends: "sends s (arp_request i tpa s)"
  unfolding arp_request_def Let_def
  by (intro net_device_output_sends order.trans [OF length_arp_message]) simp

lemma arp_reply_sends: "sends s (arp_reply i tha tpa dst s)"
  unfolding arp_reply_def
  by (intro net_device_output_sends order.trans [OF length_arp_message]) simp

lemma arp_resolve_sent:
  assumes "n_arp s \<noteq> []"
  obtains r ha s' where "arp_resolve i pa s = Some (r, ha, s')" "sent s s'"
proof -
  obtain c t where c: "arp_cache_alloc s = Some (c, t)" "sent s t" using arp_cache_alloc_sent [OF assms] .
  let ?t = "map_arp c (\<lambda>c. c\<lparr>arp_state := ARP_INCOMPLETE, arp_pa := pa, arp_timestamp := gettimeofday t\<rparr>) t"
  obtain r t' where "arp_request i pa ?t = Some (r, t')" "sent ?t t'" by (rule sendsE [OF arp_request_sends])
  moreover from this(2) c(2) have "sent s t'" by (auto intro: sent_trans)
  moreover obtain r2 t2 where "arp_request i pa s = Some (r2, t2)" "sent s t2" by (rule sendsE [OF arp_request_sends])
  ultimately have "\<exists>r ha s'. arp_resolve i pa s = Some (r, ha, s') \<and> sent s s'"
    using c(1) unfolding arp_resolve_def by (auto split: option.split)
  then show ?thesis using that by blast
qed

section \<open>IP\<close>

lemma ip_output_device_sends:
  assumes "n_arp s \<noteq> []" "length data \<le> 2022"
  shows "sends s (ip_output_device i data dst s)"
proof -
  obtain r ha s' where "arp_resolve i dst s = Some (r, ha, s')" "sent s s'" by (rule arp_resolve_sent [OF assms(1)])
  then show ?thesis unfolding ip_output_device_def Let_def
    by (auto intro: net_device_output_sends [OF assms(2)] sends_trans [OF net_device_output_sends [OF assms(2)]])
qed

lemma length_ip_packet: "length (ip_packet p data src dst i off) = 20 + length data"
  by (simp add: ip_packet_def IP_HDR_SIZE_MIN_def Let_def)

lemma ip_output_core_sends:
  assumes "n_arp s \<noteq> []" "length data \<le> 2002"
  shows "sends s (ip_output_core i protocol data src dst nexthop id' offset s)"
proof -
  have "\<not> PAGE_BYTES < IP_HDR_SIZE_MIN + length data" using assms(2) by (simp add: PAGE_BYTES_def IP_HDR_SIZE_MIN_def)
  moreover have "n_arp s1 \<noteq> []" if "memory_alloc n s = (True, s1)" for n s1
    using that assms(1) by (auto simp: memory_alloc_def split: if_splits)
  ultimately show ?thesis unfolding ip_output_core_def Let_def
    using assms(2) by (simp only: if_False) (rule sends_alloc, rule ip_output_device_sends, auto simp: length_ip_packet)
qed

lemma ip_output_sends:
  assumes "n_arp s \<noteq> []" "length data \<le> 2002"
  shows "sends s (ip_output protocol data src dst s)"
  using assms unfolding ip_output_def ip_generate_id_def Let_def
  by (auto intro!: sends_bind split: option.split intro: sends_trans [OF ip_output_core_sends])

end
