(* ===== verification/NetProps.thy ===== *)
theory NetProps
  imports NetFrame
begin

text \<open>
  What the network layers promise: the checksum against the definition of its standard, the
  text of addresses, the queues, the choice of a route, and the delivery of packets.
\<close>

section \<open>The checksum of the standard\<close>

text \<open>
  RFC 1071: the one's complement sum of the big-endian words, an odd last byte padded with
  a zero; every carry is added at once.
\<close>

definition carry_add :: "nat \<Rightarrow> nat \<Rightarrow> nat" where
  "carry_add a b = (if a + b < 65536 then a + b else a + b - 65535)"

fun be_words :: "u8 list \<Rightarrow> nat list" where
  "be_words [] = []"
| "be_words [x] = [256 * unat x]"
| "be_words (x # y # xs) = (256 * unat x + unat y) # be_words xs"

definition rfc1071 :: "u8 list \<Rightarrow> u16" where
  "rfc1071 xs = of_nat (65535 - fold carry_add (be_words xs) 0)"

lemma ones_sum_cong:
  assumes "m mod 65535 = n mod 65535" "m = 0 \<longleftrightarrow> n = 0"
  shows "ones_sum m = ones_sum n"
  using assms by (simp add: ones_sum_def)

lemma ones_sum_mod: "ones_sum n mod 65535 = n mod 65535" "ones_sum n = 0 \<longleftrightarrow> n = 0"
  by (auto simp: ones_sum_def)

lemma ones_sum_small: "n < 65536 \<Longrightarrow> ones_sum n = n"
  by (cases "n = 65535") (auto simp: ones_sum_def)

lemma carry_add_ones: "b < 65536 \<Longrightarrow> carry_add (ones_sum a) b = ones_sum (a + b)"
proof -
  assume b: "b < 65536"
  have c: "carry_add (ones_sum a) b < 65536" using ones_sum_less [of a] b by (auto simp: carry_add_def)
  have "carry_add (ones_sum a) b mod 65535 = (ones_sum a + b) mod 65535"
    using le_mod_geq [of 65535 "ones_sum a + b"] by (auto simp: carry_add_def)
  also have "\<dots> = (a + b) mod 65535" by (metis mod_add_left_eq ones_sum_mod(1))
  finally have "ones_sum (carry_add (ones_sum a) b) = ones_sum (a + b)"
    by (rule ones_sum_cong) (use ones_sum_mod(2) [of a] in \<open>auto simp: carry_add_def\<close>)
  then show ?thesis using c by (simp add: ones_sum_small)
qed

lemma be_words_less: "w \<in> set (be_words xs) \<Longrightarrow> w < 65536"
proof (induction xs rule: be_words.induct)
  case (2 x)
  then show ?case using unat_less_len [of x] by simp
next
  case (3 x y xs)
  then show ?case using unat_less_len [of x] unat_less_len [of y] by auto
qed simp

lemma carry_add_comm: "carry_add b (ones_sum a) = carry_add (ones_sum a) b"
  by (simp add: carry_add_def add.commute)

lemma fold_carry: "\<forall>w \<in> set ws. w < 65536 \<Longrightarrow> fold carry_add ws (ones_sum a) = ones_sum (a + sum_list ws)"
  by (induction ws arbitrary: a) (simp_all add: carry_add_comm carry_add_ones add.assoc)

lemma unat_rfc1071: "unat (rfc1071 xs) = 65535 - ones_sum (sum_list (be_words xs))"
proof -
  have "fold carry_add (be_words xs) (ones_sum 0) = ones_sum (0 + sum_list (be_words xs))"
    using be_words_less by (intro fold_carry) blast
  then show ?thesis by (simp add: rfc1071_def ones_sum_def [of 0] unat_of_nat)
qed

lemma unat_le_word2: "unat (le_word [x, y] :: u16) = unat x + 256 * unat y"
proof -
  have "le_word [x, y] = (ucast x + push_bit 8 (ucast y) :: u16)"
    unfolding le_word.simps by (subst disjunctive_add_eq_or) (auto simp: bit_eq_iff bit_simps dest: bit_imp_le_length)
  also have "\<dots> = ucast x + 256 * ucast y" by (simp add: push_bit_eq_mult mult.commute)
  finally show ?thesis
    using unat_less_len [of x] unat_less_len [of y] by (simp add: unat_word_ariths unat_ucast_up)
qed

text \<open>Reading the bytes in the other order multiplies the sum by 256, modulo 65535.\<close>

lemma be_words_mod: "sum_list (be_words xs) mod 65535 = 256 * word_sum xs mod 65535"
proof (induction xs rule: be_words.induct)
  case (3 x y xs)
  let ?a = "256 * unat x + unat y"
  have e: "256 * word_sum (x # y # xs) = ?a + 256 * word_sum xs + 65535 * unat y"
    by (simp add: unat_le_word2 del: le_word.simps)
  have "(?a + sum_list (be_words xs)) mod 65535 = (?a + 256 * word_sum xs) mod 65535"
    by (rule mod_add_cong [OF refl 3])
  also have "\<dots> = 256 * word_sum (x # y # xs) mod 65535" unfolding e mod_mult_self2 ..
  finally show ?case by simp
qed simp_all

lemma be_words_zero: "sum_list (be_words xs) = 0 \<longleftrightarrow> word_sum xs = 0"
proof (induction xs rule: be_words.induct)
  case (3 x y xs)
  show ?case using 3 by (auto simp: unat_le_word2 simp del: le_word.simps)
qed simp_all

lemma unat_byteswap16: "unat (byteswap16 v) = ones_sum (256 * unat v)"
proof -
  obtain x y where v: "le_bytes 2 v = [x, y]" by (simp add: two_bytes)
  have "le_word (le_bytes 2 v) = v" by (rule le_word_le_bytes) simp
  then have uv: "unat v = unat x + 256 * unat y" unfolding v using unat_le_word2 [of x y] by simp
  have "le_word (le_bytes 2 (hton16 v)) = hton16 v" by (rule le_word_le_bytes) simp
  moreover have "le_bytes 2 (hton16 v) = [y, x]" by (simp add: hton16_bytes be_bytes_def v)
  ultimately have "hton16 v = le_word [y, x]" by simp
  then have uh: "unat (byteswap16 v) = unat y + 256 * unat x" by (simp add: hton16_def unat_le_word2 del: le_word.simps)
  have "ones_sum (unat y + 256 * unat x) = ones_sum (256 * unat v)"
  proof (rule ones_sum_cong)
    have "256 * unat v = unat y + 256 * unat x + 65535 * unat y" by (simp add: uv)
    then show "(unat y + 256 * unat x) mod 65535 = 256 * unat v mod 65535"
      by (simp only: mod_mult_self2)
  qed (auto simp: uv)
  moreover have "unat y + 256 * unat x < 65536" using unat_less_len [of x] unat_less_len [of y] by simp
  ultimately show ?thesis by (simp add: uh ones_sum_small)
qed

lemma byteswap16_not: "byteswap16 (NOT v) = NOT (byteswap16 v)"
  by (rule bit_word_eqI) (auto simp: bit_byteswap16 bit_simps)

lemma ones_sum_mult: "ones_sum (256 * ones_sum n) = ones_sum (256 * n)"
  by (rule ones_sum_cong) (metis mod_mult_right_eq ones_sum_mod(1), simp add: ones_sum_mod)

text \<open>
  Property C16: the checksum routine is the Internet checksum of RFC 1071. \<^verbatim>\<open>cksum16\<close> of \<open>xs\<close>,
  started from the complement of the checksum of a prefix \<open>ph\<close> of even length (as TCP and UDP
  start from their pseudo header) and written to memory, is the complement of the one's
  complement sum of the big-endian words of \<open>ph\<close> and \<open>xs\<close>, although the code adds words in
  machine order with 32-bit partial sums and folds the carries at the end.
\<close>

theorem cksum16_rfc1071:
  assumes "even (length ph)" "length ph < 65536" "length xs < 65536"
  shows "hton16 (cksum16 xs (of_nat (length xs)) (ucast (NOT (cksum16 ph (of_nat (length ph)) 0)))) = rfc1071 (ph @ xs)"
proof (rule word_unat_eq_iff [THEN iffD2])
  let ?init = "ucast (NOT (cksum16 ph (of_nat (length ph)) 0)) :: u32"
  let ?n = "word_sum ph + word_sum xs"
  have "unat (cksum16 ph (of_nat (length ph)) 0) = 65535 - ones_sum (word_sum ph)"
    using assms unat_cksum16 [of ph "of_nat (length ph)" 0] by (simp add: unat_of_nat_u16)
  then have init: "unat ?init = ones_sum (word_sum ph)"
    using ones_sum_less [of "word_sum ph"] by (simp add: unat_ucast_up unat_not16)
  have "unat (cksum16 xs (of_nat (length xs)) ?init) = 65535 - ones_sum (ones_sum (word_sum ph) + word_sum xs)"
    using assms ones_sum_less [of "word_sum ph"] init unat_cksum16 [of xs "of_nat (length xs)" ?init]
    by (simp add: unat_of_nat_u16)
  also have "ones_sum (ones_sum (word_sum ph) + word_sum xs) = ones_sum ?n"
  proof (rule ones_sum_cong)
    show "(ones_sum (word_sum ph) + word_sum xs) mod 65535 = ?n mod 65535"
      by (metis mod_add_left_eq ones_sum_mod(1))
  qed (simp add: ones_sum_mod)
  finally have c: "unat (cksum16 xs (of_nat (length xs)) ?init) = 65535 - ones_sum ?n" .
  have "unat (NOT (cksum16 xs (of_nat (length xs)) ?init)) = ones_sum ?n"
    using ones_sum_less [of ?n] by (simp add: unat_not16 c)
  then have "unat (byteswap16 (NOT (cksum16 xs (of_nat (length xs)) ?init))) = ones_sum (256 * ?n)"
    by (simp add: unat_byteswap16 ones_sum_mult)
  also have "ones_sum (256 * ?n) = ones_sum (sum_list (be_words (ph @ xs)))"
    using assms(1) by (intro ones_sum_cong) (simp_all add: be_words_mod be_words_zero word_sum_append del: sum_list_eq_0_iff)
  finally have b: "65535 - unat (byteswap16 (cksum16 xs (of_nat (length xs)) ?init)) = ones_sum (sum_list (be_words (ph @ xs)))"
    by (simp add: byteswap16_not unat_not16)
  have "unat (byteswap16 (cksum16 xs (of_nat (length xs)) ?init)) \<le> 65535"
    using unat_less_len [of "byteswap16 (cksum16 xs (of_nat (length xs)) ?init)"] by simp
  then show "unat (hton16 (cksum16 xs (of_nat (length xs)) ?init)) = unat (rfc1071 (ph @ xs))"
    unfolding unat_rfc1071 b [symmetric] by (simp add: hton16_def)
qed

theorem cksum16_rfc1071_witness:
  "hton16 (cksum16 [0x45, 3, 0xff] 3 (ucast (NOT (cksum16 [0xfe, 2] 2 0)))) = rfc1071 [0xfe, 2, 0x45, 3, 0xff]"
  using cksum16_rfc1071 [of "[0xfe, 2]" "[0x45, 3, 0xff]"] by simp

section \<open>The text of addresses\<close>

lemma ip_itoa_octet: "ip_itoa (unat (b :: u8)) = Some t \<Longrightarrow> length t \<le> 3"
  using digits_rev_length [of "unat b" 3] unat_less_len [of b] by (auto simp: ip_itoa_def split: if_splits)

lemma ip_addr_ntop_length: "ip_addr_ntop n sz = Some t \<Longrightarrow> length t < IP_ADDR_STR_LEN"
  by (auto simp: ip_addr_ntop_def IP_ADDR_STR_LEN_def Let_def bind_eq_Some_conv split: if_splits dest!: ip_itoa_octet)

text \<open>
  Property C33: an address that is printed and read again is the same address, and the text with
  its NUL fits the smallest buffer that \<^verbatim>\<open>ip_addr_ntop\<close> accepts.
\<close>

theorem ip_addr_text_roundtrip:
  assumes "IP_ADDR_STR_LEN \<le> sz"
  shows "\<exists>t. ip_addr_ntop n sz = Some t \<and> ip_addr_pton t = Some n \<and> length t < sz"
  using ip_ntop_pton [OF assms] ip_addr_ntop_length assms by (blast intro: less_le_trans)

theorem ip_addr_text_roundtrip_witness:
  "\<exists>t. ip_addr_ntop 0x0f02000a 16 = Some t \<and> ip_addr_pton t = Some 0x0f02000a \<and> length t < 16"
  using ip_addr_text_roundtrip [of 16] by (simp add: IP_ADDR_STR_LEN_def)

section \<open>Queues of the stack\<close>

text \<open>
  The linked queues are first-in first-out. On a well-formed queue with a free cell
  \<^verbatim>\<open>queue_push\<close> succeeds, keeps the links, the tail pointer and the count consistent, and taking
  everything out again with \<^verbatim>\<open>queue_pop\<close> yields the old content followed by the new element.
\<close>

theorem queue_push_pop_order:
  assumes "lq_ok q" "lq_room q"
  shows "\<exists>q'. queue_push q x = Some q' \<and> lq_ok q' \<and> fst (lq.pop_n (Suc (length (queue_list q))) q') = queue_list q @ [x]"
  using lq.push_ok [OF assms] lq.push_pop_order [OF assms] by blast

definition demo_queue :: "nat queue_head" where
  "demo_queue = \<lparr>lq_head = Some 4, lq_tail = Some 2, lq_num = 2,
     lq_cells = (\<lambda>_. \<lparr>qe_next = None, qe_data = 0\<rparr>)(4 := \<lparr>qe_next = Some 2, qe_data = 7\<rparr>, 2 := \<lparr>qe_next = None, qe_data = 8\<rparr>),
     lq_free = [5, 6]\<rparr>"

theorem queue_push_pop_order_witness:
  "\<exists>q'. queue_push demo_queue 9 = Some q' \<and> lq_ok q' \<and> fst (lq.pop_n 3 q') = [7, 8, 9]"
proof -
  have c: "queue_cells demo_queue = [4, 2]"  by code_simp
  have "lq_ok demo_queue" unfolding lq_ok_def c by (simp add: demo_queue_def)
  moreover have "lq_room demo_queue" by (simp add: lq_room_def demo_queue_def)
  moreover have "queue_list demo_queue = [7, 8]" unfolding queue_list_def c by (simp add: demo_queue_def)
  ultimately show ?thesis using queue_push_pop_order [of demo_queue 9] by (simp add: numeral_eq_Suc)
qed

section \<open>Routes\<close>

definition route_matches :: "u32 \<Rightarrow> ip_route \<Rightarrow> bool" where
  "route_matches dst r \<longleftrightarrow> dst AND rt_netmask r = rt_network r"

definition prefix_of :: "ip_route \<Rightarrow> u32" where
  "prefix_of r = ntoh32 (rt_netmask r)"

text \<open>The route \<open>r\<close> of the list wins: the longest mask, and the first among those of this length.\<close>

definition longest_match :: "u32 \<Rightarrow> ip_route list \<Rightarrow> ip_route \<Rightarrow> bool" where
  "longest_match dst rs r \<longleftrightarrow> (\<exists>as bs. rs = as @ r # bs \<and> route_matches dst r \<and>
     (\<forall>q \<in> set as. route_matches dst q \<longrightarrow> prefix_of q < prefix_of r) \<and>
     (\<forall>q \<in> set bs. route_matches dst q \<longrightarrow> prefix_of q \<le> prefix_of r))"

lemma longest_match_le:
  "longest_match dst rs r \<Longrightarrow> q \<in> set rs \<Longrightarrow> route_matches dst q \<Longrightarrow> prefix_of q \<le> prefix_of r"
  by (auto simp: longest_match_def) (blast intro: less_imp_le)

lemma longest_match_snoc:
  assumes "longest_match dst rs r" "route_matches dst x \<Longrightarrow> prefix_of x \<le> prefix_of r"
  shows "longest_match dst (rs @ [x]) r"
proof -
  from assms(1) obtain as bs where "rs = as @ r # bs" "route_matches dst r"
    "\<forall>q \<in> set as. route_matches dst q \<longrightarrow> prefix_of q < prefix_of r"
    "\<forall>q \<in> set bs. route_matches dst q \<longrightarrow> prefix_of q \<le> prefix_of r" unfolding longest_match_def by blast
  then show ?thesis unfolding longest_match_def using assms(2)
    by (intro exI [of _ as] exI [of _ "bs @ [x]"]) auto
qed

lemma longest_match_new:
  assumes "\<And>q. q \<in> set rs \<Longrightarrow> route_matches dst q \<Longrightarrow> prefix_of q < prefix_of x" "route_matches dst x"
  shows "longest_match dst (rs @ [x]) x"
  unfolding longest_match_def by (intro exI [of _ rs] exI [of _ "[]"]) (use assms in auto)

lemma longest_match_unique:
  assumes "longest_match dst rs r" "longest_match dst rs r'"
  shows "r = r'"
proof -
  obtain as bs where r: "rs = as @ r # bs" "route_matches dst r"
    "\<forall>q \<in> set as. route_matches dst q \<longrightarrow> prefix_of q < prefix_of r"
    "\<forall>q \<in> set bs. route_matches dst q \<longrightarrow> prefix_of q \<le> prefix_of r" using assms(1) unfolding longest_match_def by blast
  obtain as' bs' where r': "rs = as' @ r' # bs'" "route_matches dst r'"
    "\<forall>q \<in> set as'. route_matches dst q \<longrightarrow> prefix_of q < prefix_of r'"
    "\<forall>q \<in> set bs'. route_matches dst q \<longrightarrow> prefix_of q \<le> prefix_of r'" using assms(2) unfolding longest_match_def by blast
  have "r \<notin> set as'" using r'(3) r(2) longest_match_le [OF assms(1), of r'] r' by (auto simp: not_less [symmetric])
  moreover have "r' \<notin> set as" using r(3) r'(2) longest_match_le [OF assms(2), of r] r by (auto simp: not_less [symmetric])
  ultimately show ?thesis using r(1) r'(1) by (auto simp: append_eq_append_conv2 append_eq_Cons_conv Cons_eq_append_conv)
qed

lemma longest_match_matches: "longest_match dst rs r \<Longrightarrow> r \<in> set rs \<and> route_matches dst r"
  by (auto simp: longest_match_def)

lemma fold_better_route:
  "case fold (better_route dst) rs None of
     None \<Rightarrow> \<forall>r \<in> set rs. \<not> route_matches dst r
   | Some r \<Rightarrow> longest_match dst rs r"
proof (induction rs rule: rev_induct)
  case (snoc x rs)
  have b: "better_route dst x c = (if route_matches dst x then
      (case c of None \<Rightarrow> Some x | Some r \<Rightarrow> if prefix_of r < prefix_of x then Some x else c) else c)" for c
    by (cases c) (simp_all add: better_route_def route_matches_def prefix_of_def)
  show ?case
  proof (cases "fold (better_route dst) rs None")
    case None
    with snoc show ?thesis by (auto simp: b intro: longest_match_new)
  next
    case (Some r)
    with snoc have r: "longest_match dst rs r" by simp
    show ?thesis
    proof (cases "route_matches dst x \<and> prefix_of r < prefix_of x")
      case True
      then have "longest_match dst (rs @ [x]) x"
        by (intro longest_match_new) (auto dest: longest_match_le [OF r] intro: le_less_trans)
      with True Some show ?thesis by (simp add: b)
    next
      case False
      with r have "longest_match dst (rs @ [x]) r" by (intro longest_match_snoc) (auto simp: not_less)
      with False Some show ?thesis by (auto simp: b)
    qed
  qed
qed simp

text \<open>
  \<^verbatim>\<open>ip_route_lookup\<close> is longest prefix match. It fails exactly if no route matches
  the destination; otherwise it returns the matching route of the longest mask, and of several
  such routes the one registered last, which stands first in the list.
\<close>

theorem ip_route_lookup_longest:
  "(ip_route_lookup dst s = None \<longleftrightarrow> (\<forall>r \<in> set (n_routes s). \<not> route_matches dst r)) \<and>
   (ip_route_lookup dst s = Some r \<longleftrightarrow> longest_match dst (n_routes s) r)"
  using fold_better_route [of "n_routes s" dst]
  by (auto simp: ip_route_lookup_def dest: longest_match_unique longest_match_matches split: option.splits)

section \<open>Delivery\<close>

definition udp_enqueue :: "nat \<Rightarrow> endpoint \<Rightarrow> u8 list \<Rightarrow> 'a net_scheme \<Rightarrow> 'a net_scheme" where
  "udp_enqueue p src data s =
     map_udp p (\<lambda>u. u\<lparr>u_queue := u_queue u @ [(src, data)], u_ctx := sched_wakeup (u_ctx u)\<rparr>) (s\<lparr>n_pages := n_pages s - 2\<rparr>)"

lemma push_entry_room: "0 < n_pages s \<Longrightarrow> push_entry x q s = (Some (q @ [x]), s\<lparr>n_pages := n_pages s - 1\<rparr>)"
  by (simp add: push_entry_def memory_alloc_def PAGE_BYTES_def)

lemma udp_input_datagram:
  assumes len: "length data \<le> 4084" and p: "udp_pcb_select (ep_addr dst) (ep_port dst) s = Some p" and pages: "2 \<le> n_pages s"
  shows "udp_input (udp_datagram src dst data) (ep_addr src) (ep_addr dst) i s = Some (udp_enqueue p src data s)"
proof -
  let ?h = "udp_datagram src dst data"
  have l: "length data \<le> 65527" using len by simp
  note f = udp_datagram_fields [OF l refl, of src dst]
  have n: "unat (of_nat (8 + length data) :: u16) = 8 + length data" using len by (intro unat_of_nat_u16) simp
  have hd: "\<not> length ?h < UDP_HDR_SIZE" "\<not> length ?h \<noteq> unat (ntoh16 (get16 4 ?h))"
    unfolding f(1) f(4) ntoh_hton n by (simp_all add: UDP_HDR_SIZE_def)
  have ck: "\<not> cksum16 ?h (of_nat (length ?h)) (ucast (pseudo_sum IP_PROTOCOL_UDP (ep_addr src) (ep_addr dst) (of_nat (length ?h)))) \<noteq> 0"
    unfolding f(1) f(6) by simp
  have alloc: "memory_alloc (12 + (length ?h - UDP_HDR_SIZE)) s = (True, s\<lparr>n_pages := n_pages s - 1\<rparr>)"
    unfolding f(1) using len pages by (simp add: memory_alloc_def PAGE_BYTES_def UDP_HDR_SIZE_def)
  let ?s = "s\<lparr>n_pages := n_pages s - 1\<rparr>"
  have push: "push_entry (src, data) (u_queue (the_udp ?s p)) ?s = (Some (u_queue (the_udp s p) @ [(src, data)]), s\<lparr>n_pages := n_pages s - 2\<rparr>)"
    using pages by (simp add: push_entry_room the_udp_def)
  have src: "\<lparr>ep_addr = ep_addr src, ep_port = ep_port src\<rparr> = src" by simp
  have "udp_input ?h (ep_addr src) (ep_addr dst) i s = Some (map_udp p (\<lambda>u. u\<lparr>u_queue := u_queue (the_udp s p) @ [(src, data)],
      u_ctx := sched_wakeup (u_ctx u)\<rparr>) (s\<lparr>n_pages := n_pages s - 2\<rparr>))"
    by (simp only: udp_input_def Let_def hd ck if_False f(2,3) p option.case alloc prod.case not_True_eq_False
        f(5) [folded UDP_HDR_SIZE_def] push src)
  then show ?thesis by (simp add: udp_enqueue_def map_udp_def the_udp_def upd_at_def)
qed

text \<open>
  Property C17: a datagram arrives. The IP packet around a UDP datagram, as the sending host
  builds them, followed by any padding of the link layer, passes all checks of the receiving
  host and is appended, with the sender's endpoint and unchanged data, to the queue of the
  control block open on the destination port, whose sleeper is woken; nothing else changes
  but the two pages that the entry takes.
\<close>

theorem udp_datagram_delivered:
  assumes "length data \<le> 4084"
    and "net_device_get_iface dev NET_IFACE_FAMILY_IP s = Some i"
    and "ep_addr dst \<in> {if_unicast (the_if s i), if_broadcast (the_if s i), IP_ADDR_BROADCAST}"
    and "find (\<lambda>p. fst p = IP_PROTOCOL_UDP) (n_ipprotos s) = Some (IP_PROTOCOL_UDP, Udp_input)"
    and "udp_pcb_select (ep_addr dst) (ep_port dst) s = Some p"
    and "2 \<le> n_pages s"
  shows "net_call Ip_input (ip_packet IP_PROTOCOL_UDP (udp_datagram src dst data) (ep_addr src) (ep_addr dst) id' 0 @ pad) dev s =
    Some (udp_enqueue p src data s)"
proof -
  have l: "length data \<le> 65527" using assms(1) by simp
  have n: "length (udp_datagram src dst data) \<le> 65515" unfolding udp_datagram_fields(1) [OF l refl] using assms(1) by simp
  show ?thesis
    using ip_input_packet [OF n assms(2,3,4), of ip_call] udp_input_datagram [OF assms(1,5,6)]
    by (simp add: net_call_def ip_call_def)
qed

definition demo_nic :: virtio_net where
  "demo_nic = \<lparr>nic_dev = 0, nic_status = 0, nic_features = 0,
     nic_rx = \<lparr>vq_desc = [], vq_avail_idx = 0, vq_avail = [], vq_used_idx = 0, vq_used = [], vq_num = 8, vq_last_used = 0, vq_free = []\<rparr>,
     nic_tx = \<lparr>vq_desc = [], vq_avail_idx = 0, vq_avail = [], vq_used_idx = 0, vq_used = [], vq_num = 8, vq_last_used = 0, vq_free = []\<rparr>,
     nic_rx_bufs = [], nic_tx_bufs = [], nic_rx_at = (\<lambda>_. 0), nic_tx_at = (\<lambda>_. 0)\<rparr>"

definition demo_host :: net where
  "demo_host = \<lparr>n_pages = 20, n_clock = 0, n_seed = 1, n_pending = 0, n_errno = 0,
     n_devs = [(ether_setup_helper zero_device)\<lparr>d_ifaces := [0], d_flags := 0x83\<rparr>], n_devlist = [0], n_dev_index = 1, n_nic = demo_nic,
     n_protos = [], n_timers = [], n_events = [],
     n_arp = [\<lparr>arp_state = ARP_FREE, arp_pa = 0, arp_ha = replicate 6 0, arp_timestamp = timerclear\<rparr>],
     n_ifs = [\<lparr>if_dev = 0, if_family = NET_IFACE_FAMILY_IP, if_unicast = 0x0f02000a, if_netmask = 0x00ffffff, if_broadcast = 0xff02000a\<rparr>],
     n_iflist = [0], n_routes = [], n_ipprotos = [(6, Tcp_input), (17, Udp_input)], n_ipid = 0,
     n_udp = [\<lparr>u_state = UDP_OPEN, u_local = \<lparr>ep_addr = IP_ADDR_ANY, ep_port = 53\<rparr>, u_queue = [], u_ctx = sched_ctx_init\<rparr>],
     n_tcp = []\<rparr>"

lemma demo_host_iface: "net_device_get_iface 0 NET_IFACE_FAMILY_IP demo_host = Some 0"
  "if_unicast (the_if demo_host 0) = 0x0f02000a"
  by (simp_all add: demo_host_def net_device_get_iface_def the_dev_def the_if_def)

theorem udp_datagram_delivered_witness:
  "net_call Ip_input (ip_packet IP_PROTOCOL_UDP (udp_datagram \<lparr>ep_addr = 0x0202000a, ep_port = 7\<rparr> \<lparr>ep_addr = 0x0f02000a, ep_port = 53\<rparr> [104, 105])
      0x0202000a 0x0f02000a 1 0 @ [0, 0, 0]) 0 demo_host =
    Some (udp_enqueue 0 \<lparr>ep_addr = 0x0202000a, ep_port = 7\<rparr> [104, 105] demo_host)"
proof -
  have "find (\<lambda>p. fst p = IP_PROTOCOL_UDP) (n_ipprotos demo_host) = Some (IP_PROTOCOL_UDP, Udp_input)"
    "udp_pcb_select 0x0f02000a 53 demo_host = Some 0" "2 \<le> n_pages demo_host"
    by (simp_all add: demo_host_def IP_PROTOCOL_UDP_def udp_pcb_select_def IP_ADDR_ANY_def)
  then show ?thesis
    using udp_datagram_delivered [of "[104, 105]" 0 demo_host 0 "\<lparr>ep_addr = 0x0f02000a, ep_port = 53\<rparr>" 0
        "\<lparr>ep_addr = 0x0202000a, ep_port = 7\<rparr>" 1 "[0, 0, 0]"] demo_host_iface
    by (simp del: net_call_def)
qed

section \<open>Output\<close>

lemma ip_output_result:
  "ip_output protocol data src dst s = Some (r, s') \<Longrightarrow> r = - 1 \<or> r = int (length data)"
  unfolding ip_output_def Let_def
  by (auto split: option.splits if_splits simp: bind_eq_Some_conv ip_generate_id_def)

text \<open>
  Property C29: sending is safe and leaks nothing. For every packet of at most 2002 bytes, whatever
  the routes, the interface, the cache of hardware addresses and the free pages are,
  \<^verbatim>\<open>ip_output\<close> returns, with an error or the length of the data; it gives back every page it took
  on the way down and leaves the protocols, the devices, the routes and all control blocks alone.
\<close>

theorem ip_output_conserves:
  assumes "n_arp s \<noteq> []" "length data \<le> 2002"
  shows "\<exists>r s'. ip_output protocol data src dst s = Some (r, s') \<and> (r = - 1 \<or> r = int (length data)) \<and>
    n_pages s' = n_pages s \<and> n_udp s' = n_udp s \<and> n_tcp s' = n_tcp s \<and> n_devs s' = n_devs s \<and> n_ifs s' = n_ifs s \<and>
    n_routes s' = n_routes s \<and> n_protos s' = n_protos s \<and> length (n_arp s') = length (n_arp s)"
proof -
  obtain r s' where "ip_output protocol data src dst s = Some (r, s')" "sent s s'"
    by (rule sendsE [OF ip_output_sends [OF assms]])
  then show ?thesis using ip_output_result [of protocol data src dst s r s'] by (auto simp: sent_def)
qed

theorem ip_output_conserves_witness:
  "\<exists>r s'. ip_output IP_PROTOCOL_ICMP [8, 0, 0, 0] IP_ADDR_ANY 0x0202000a demo_host = Some (r, s') \<and> n_pages s' = 20"
proof -
  have "n_arp demo_host \<noteq> []" "n_pages demo_host = 20" by (simp_all add: demo_host_def)
  then show ?thesis using ip_output_conserves [of demo_host "[8, 0, 0, 0]" IP_PROTOCOL_ICMP IP_ADDR_ANY "0x0202000a"] by auto
qed

text \<open>A default route, the route of a network, and the route of a part of this network.\<close>

definition demo_route :: "u32 \<Rightarrow> u32 \<Rightarrow> nat \<Rightarrow> ip_route" where
  "demo_route net netmask i = \<lparr>rt_network = net, rt_netmask = netmask, rt_nexthop = 0, rt_iface = i\<rparr>"

theorem ip_route_lookup_longest_witness:
  "ip_route_lookup 0x0202000a (demo_host\<lparr>n_routes := [demo_route 0 0 1, demo_route 0x0002000a 0x00ffffff 2, demo_route 0x0000000a 0x000000ff 3]\<rparr>) =
     Some (demo_route 0x0002000a 0x00ffffff 2)"
proof -
  let ?s = "demo_host\<lparr>n_routes := [demo_route 0 0 1, demo_route 0x0002000a 0x00ffffff 2, demo_route 0x0000000a 0x000000ff 3]\<rparr>"
  have "prefix_of (demo_route 0 0 1) = 0" "prefix_of (demo_route 0x0002000a 0x00ffffff 2) = 0xffffff00"
    "prefix_of (demo_route 0x0000000a 0x000000ff 3) = 0xff000000"
    by (simp_all add: prefix_of_def demo_route_def ntoh32_def byteswap32_def)
  then have "longest_match 0x0202000a (n_routes ?s) (demo_route 0x0002000a 0x00ffffff 2)"
    unfolding longest_match_def
    by (intro exI [of _ "[demo_route 0 0 1]"] exI [of _ "[demo_route 0x0000000a 0x000000ff 3]"]) (simp add: route_matches_def demo_route_def)
  then show ?thesis using ip_route_lookup_longest [of "0x0202000a" ?s "demo_route 0x0002000a 0x00ffffff 2"] by blast
qed

end
