(* ===== verification/TcpProps.thy ===== *)
theory TcpProps
  imports NetProps
begin

text \<open>
  TCP: the types of the control blocks, the changes of state that a segment can cause, and the
  stream of bytes.
\<close>

section \<open>Well-formed tables\<close>

text \<open>
  The buffers have their full size, retransmitted data fits a packet, and the pointers between
  control blocks stay inside the table of \<open>n\<close> blocks.
\<close>

definition pcb_ok :: "nat \<Rightarrow> tcp_pcb \<Rightarrow> bool" where
  "pcb_ok n t \<longleftrightarrow> length (t_buf t) = TCP_BUF_SIZE \<and> (\<forall>e \<in> set (t_queue t). length (te_data e) \<le> 1982) \<and>
     (\<forall>q \<in> set (t_backlog t). q < n) \<and> (\<forall>q. t_parent t = Some q \<longrightarrow> q < n)"

definition tcp_ok :: "'a net_scheme \<Rightarrow> bool" where
  "tcp_ok s \<longleftrightarrow> n_arp s \<noteq> [] \<and> (\<forall>t \<in> set (n_tcp s). pcb_ok (length (n_tcp s)) t)"

definition tcp_states :: "'a net_scheme \<Rightarrow> tcp_state list" where
  "tcp_states s = map t_state (n_tcp s)"

text \<open>Only fields other than the states change, and the types are kept.\<close>

definition tcp_keeps :: "'a net_scheme \<Rightarrow> 'a net_scheme \<Rightarrow> bool" where
  "tcp_keeps s s' \<longleftrightarrow> (tcp_ok s \<longrightarrow> tcp_ok s') \<and> tcp_states s' = tcp_states s"

lemma tcp_keeps_refl [simp]: "tcp_keeps s s"
  by (simp add: tcp_keeps_def)

lemma tcp_keeps_trans [trans]: "tcp_keeps s t \<Longrightarrow> tcp_keeps t u \<Longrightarrow> tcp_keeps s u"
  by (simp add: tcp_keeps_def)

lemma sent_keeps: "sent s s' \<Longrightarrow> tcp_keeps s s'"
  by (cases "n_arp s"; cases "n_arp s'") (auto simp: sent_def tcp_keeps_def tcp_ok_def tcp_states_def)

lemma tcp_keeps_plat [simp]:
  "tcp_keeps s (t\<lparr>n_pages := v\<rparr>) = tcp_keeps s t" "tcp_keeps s (memory_free t) = tcp_keeps s t"
  "tcp_keeps s (t\<lparr>n_seed := w\<rparr>) = tcp_keeps s t"
  by (simp_all add: tcp_keeps_def tcp_ok_def tcp_states_def memory_free_def)

lemma tcp_ok_plat [simp]:
  "tcp_ok (t\<lparr>n_pages := v\<rparr>) = tcp_ok t" "tcp_ok (memory_free t) = tcp_ok t" "tcp_ok (t\<lparr>n_seed := w\<rparr>) = tcp_ok t"
  by (simp_all add: tcp_ok_def memory_free_def)

lemma tcp_states_plat [simp]:
  "tcp_states (t\<lparr>n_pages := v\<rparr>) = tcp_states t" "tcp_states (memory_free t) = tcp_states t"
  "tcp_states (t\<lparr>n_seed := w\<rparr>) = tcp_states t"
  by (simp_all add: tcp_states_def memory_free_def)

lemma length_tcp_map [simp]: "length (n_tcp (map_tcp p f s)) = length (n_tcp s)"
  by (simp add: map_tcp_def)

lemma the_tcp_map: "p < length (n_tcp s) \<Longrightarrow> the_tcp (map_tcp p f s) i = (if i = p then f (the_tcp s p) else the_tcp s i)"
  by (auto simp: the_tcp_def map_tcp_def)

lemma tcp_ok_map:
  assumes "tcp_ok s" "p < length (n_tcp s) \<Longrightarrow> pcb_ok (length (n_tcp s)) (the_tcp s p) \<Longrightarrow> pcb_ok (length (n_tcp s)) (f (the_tcp s p))"
  shows "tcp_ok (map_tcp p f s)"
proof -
  have "\<forall>t \<in> set (upd_at p f (n_tcp s)). pcb_ok (length (n_tcp s)) t"
    by (rule ball_upd_at) (use assms in \<open>unfold tcp_ok_def the_tcp_def, blast+\<close>)
  then show ?thesis using assms(1) by (simp add: tcp_ok_def map_tcp_def)
qed

lemma tcp_states_map: "tcp_states (map_tcp p f s) = (tcp_states s)[p := t_state (f (the_tcp s p))]"
  by (simp add: tcp_states_def map_tcp_def upd_at_def map_update the_tcp_def)

lemma length_tcp_states [simp]: "length (tcp_states s) = length (n_tcp s)"
  by (simp add: tcp_states_def)

lemma nth_tcp_states: "p < length (n_tcp s) \<Longrightarrow> tcp_states s ! p = t_state (the_tcp s p)"
  by (simp add: tcp_states_def the_tcp_def)

lemma tcp_states_same: "t_state (f (the_tcp s p)) = t_state (the_tcp s p) \<Longrightarrow> tcp_states (map_tcp p f s) = tcp_states s"
  by (cases "p < length (n_tcp s)")
    (simp_all add: tcp_states_map nth_tcp_states [symmetric] list_update_beyond)

lemma tcp_keeps_map:
  assumes "t_state (f (the_tcp s p)) = t_state (the_tcp s p)"
    "tcp_ok s \<Longrightarrow> pcb_ok (length (n_tcp s)) (the_tcp s p) \<Longrightarrow> pcb_ok (length (n_tcp s)) (f (the_tcp s p))"
  shows "tcp_keeps s (map_tcp p f s)"
  unfolding tcp_keeps_def using tcp_ok_map [of s p f] tcp_states_same [of f s p] assms by blast

lemma tcp_wakeup_keeps: "tcp_keeps s (tcp_wakeup p s)"
  unfolding tcp_wakeup_def by (rule tcp_keeps_map) (simp_all add: pcb_ok_def)

lemma tcp_wakeup_simps [simp]:
  "tcp_states (tcp_wakeup p s) = tcp_states s" "tcp_ok s \<Longrightarrow> tcp_ok (tcp_wakeup p s)"
  "length (n_tcp (tcp_wakeup p s)) = length (n_tcp s)"
  using tcp_wakeup_keeps [of s p] by (simp_all add: tcp_keeps_def tcp_wakeup_def)

section \<open>Output\<close>

text \<open>A segment without text is short enough, and one with text whose length fits.\<close>

lemma length_tcp_segment: "length (tcp_segment seq' ack flg wnd data local foreign) = 20 + length data"
  by (simp add: tcp_segment_def Let_def)

lemma tcp_output_segment_sends:
  assumes "n_arp s \<noteq> []" "length data \<le> 1982"
  shows "sends s (tcp_output_segment seq' ack flg wnd data local foreign s)"
proof -
  have "\<not> PAGE_BYTES < TCP_HDR_SIZE + length data" using assms(2) by (simp add: PAGE_BYTES_def TCP_HDR_SIZE_def)
  moreover have "n_arp s1 \<noteq> []" if "memory_alloc n s = (True, s1)" for n s1
    using that assms(1) by (auto simp: memory_alloc_def split: if_splits)
  ultimately show ?thesis unfolding tcp_output_segment_def Let_def
    using assms(2) by (simp only: if_False) (rule sends_alloc, rule ip_output_sends, auto simp: length_tcp_segment)
qed

lemma tcp_output_segment_ok:
  assumes "tcp_ok s" "length data \<le> 1982"
  obtains r s' where "tcp_output_segment seq' ack flg wnd data local foreign s = Some (r, s')" "sent s s'"
  using assms tcp_output_segment_sends [of s data seq' ack flg wnd local foreign] by (auto simp: tcp_ok_def elim: sendsE)

lemma tcp_send_rst_ok:
  assumes "tcp_ok s"
  shows "\<exists>s'. tcp_send_rst seg local foreign s = Some s' \<and> sent s s'"
  by (rule tcp_output_segment_ok [OF assms, of "[]"]) (auto simp: tcp_send_rst_def)

lemma memory_alloc_keeps: "memory_alloc n s = (ok, s1) \<Longrightarrow> tcp_keeps s s1"
  by (auto simp: memory_alloc_def split: if_splits)

lemma tcp_retransmit_queue_add_keeps:
  assumes "length data \<le> 1982"
  shows "tcp_keeps s (snd (tcp_retransmit_queue_add p seq' flg data s))"
proof (cases "memory_alloc (48 + length data) s")
  case (Pair ok s1)
  obtain q s2 where push: "push_entry \<lparr>te_first = gettimeofday s1, te_last = gettimeofday s1, te_rto = TCP_DEFAULT_RTO,
      te_seq = seq', te_flg = flg, te_data = data\<rparr> (t_queue (the_tcp s1 p)) s1 = (q, s2)" by fastforce
  have k1: "tcp_keeps s s1" by (rule memory_alloc_keeps [OF Pair])
  have k2: "tcp_keeps s1 s2" "n_tcp s2 = n_tcp s1"
    using push by (auto simp: push_entry_def memory_alloc_def split: if_splits)
  show ?thesis
  proof (cases "ok \<and> q \<noteq> None")
    case True
    then have q: "q = Some (t_queue (the_tcp s1 p) @ [\<lparr>te_first = gettimeofday s1, te_last = gettimeofday s1,
        te_rto = TCP_DEFAULT_RTO, te_seq = seq', te_flg = flg, te_data = data\<rparr>])"
      using push by (auto simp: push_entry_def split: if_splits prod.splits)
    have "tcp_keeps s2 (map_tcp p (\<lambda>t. t\<lparr>t_queue := the q\<rparr>) s2)"
      using q assms k2(2) by (intro tcp_keeps_map) (auto simp: pcb_ok_def the_tcp_def)
    then show ?thesis using True Pair push k1 k2 q unfolding tcp_retransmit_queue_add_def Let_def
      by (auto intro: tcp_keeps_trans)
  next
    case False
    then show ?thesis using Pair push k1 k2 unfolding tcp_retransmit_queue_add_def Let_def
      by (auto intro: tcp_keeps_trans)
  qed
qed

text \<open>What a segment of a connection does besides going out: it may be kept for retransmission.\<close>

lemma tcp_output_ok:
  assumes "tcp_ok s" "length data \<le> 1982"
  obtains r s' where "tcp_output p flg data s = Some (r, s')" "tcp_keeps s s'"
proof -
  let ?q = "\<lambda>seq'. snd (tcp_retransmit_queue_add p seq' flg data s)"
  have q: "tcp_keeps s (?q x)" for x by (rule tcp_retransmit_queue_add_keeps [OF assms(2)])
  have "\<exists>r s'. tcp_output p flg data s = Some (r, s') \<and> tcp_keeps s s'"
  proof (cases "TCP_FLG_ISSET flg (TCP_FLG_SYN OR TCP_FLG_FIN) \<or> data \<noteq> []")
    case True
    let ?x = "if TCP_FLG_ISSET flg TCP_FLG_SYN then t_iss (the_tcp s p) else t_snd_nxt (the_tcp s p)"
    have "tcp_ok (?q ?x)" using q [of ?x] assms(1) by (simp add: tcp_keeps_def)
    from tcp_output_segment_ok [OF this assms(2)] obtain r s' where
      "tcp_output_segment ?x (t_rcv_nxt (the_tcp s p)) flg (t_rcv_wnd (the_tcp s p)) data (t_local (the_tcp s p))
        (t_foreign (the_tcp s p)) (?q ?x) = Some (r, s')" "sent (?q ?x) s'" by blast
    then show ?thesis using True tcp_keeps_trans [OF q [of ?x] sent_keeps] by (auto simp: tcp_output_def)
  next
    case False
    let ?x = "if TCP_FLG_ISSET flg TCP_FLG_SYN then t_iss (the_tcp s p) else t_snd_nxt (the_tcp s p)"
    from tcp_output_segment_ok [OF assms] obtain r s' where
      "tcp_output_segment ?x (t_rcv_nxt (the_tcp s p)) flg (t_rcv_wnd (the_tcp s p)) data (t_local (the_tcp s p))
        (t_foreign (the_tcp s p)) s = Some (r, s')" "sent s s'" by blast
    then show ?thesis using False sent_keeps by (auto simp: tcp_output_def)
  qed
  then show ?thesis using that by blast
qed

text \<open>A bare acknowledgement changes nothing in the table.\<close>

lemma tcp_send_ack_sent:
  assumes "n_arp s \<noteq> []"
  obtains s' where "tcp_send_ack p s = Some s'" "sent s s'"
proof -
  have "tcp_output p TCP_FLG_ACK [] s = tcp_output_segment (t_snd_nxt (the_tcp s p)) (t_rcv_nxt (the_tcp s p)) TCP_FLG_ACK
      (t_rcv_wnd (the_tcp s p)) [] (t_local (the_tcp s p)) (t_foreign (the_tcp s p)) s"
    by (simp add: tcp_output_def Let_def TCP_FLG_ISSET_def TCP_FLG_ACK_def TCP_FLG_SYN_def TCP_FLG_FIN_def)
  moreover have "sends s \<dots>" by (rule tcp_output_segment_sends [OF assms]) simp
  ultimately show ?thesis using that by (auto simp: tcp_send_ack_def elim: sendsE)
qed

lemma tcp_retransmit_queue_cleanup_keeps: "tcp_keeps s (tcp_retransmit_queue_cleanup p s)"
  unfolding tcp_retransmit_queue_cleanup_def Let_def
  by (rule tcp_keeps_trans [OF _ tcp_keeps_map]) (auto simp: pcb_ok_def the_tcp_def dest: set_dropWhileD)

lemma tcp_drop_queue_keeps: "tcp_keeps s (tcp_drop_queue p s)"
  unfolding tcp_drop_queue_def
  by (rule tcp_keeps_trans [OF _ tcp_keeps_map]) (auto simp: pcb_ok_def the_tcp_def)

section \<open>Release\<close>

lemma zero_pcb_ok: "pcb_ok n zero_pcb"
  by (simp add: pcb_ok_def zero_pcb_def)

text \<open>Every block keeps its state or becomes free.\<close>

definition may_free :: "tcp_state list \<Rightarrow> tcp_state list \<Rightarrow> bool" where
  "may_free xs ys \<longleftrightarrow> list_all2 (\<lambda>x y. y = x \<or> y = TCP_FREE) xs ys"

lemma may_free_refl [simp]: "may_free xs xs"
  by (simp add: may_free_def list_all2_refl)

lemma may_free_trans: "may_free xs ys \<Longrightarrow> may_free ys zs \<Longrightarrow> may_free xs zs"
  unfolding may_free_def by (rule list_all2_trans) auto

lemma may_free_update [simp]: "may_free xs (xs[p := TCP_FREE])"
  unfolding may_free_def list_all2_conv_all_nth length_list_update
proof (intro conjI allI impI refl)
  fix i assume "i < length xs"
  then show "xs[p := TCP_FREE] ! i = xs ! i \<or> xs[p := TCP_FREE] ! i = TCP_FREE" by (cases "i = p") simp_all
qed

lemma tcp_release_ok:
  assumes "tcp_ok s" "\<forall>p \<in> set stack. p < length (n_tcp s)"
  shows "\<exists>s'. tcp_release stack s = Some s' \<and> tcp_ok s' \<and> may_free (tcp_states s) (tcp_states s')"
  using assms
proof (induction stack s rule: tcp_release.induct)
  case (2 p stack s)
  show ?case
  proof (cases "t_backlog (the_tcp s p)")
    case Nil
    have "tcp_ok (map_tcp p (\<lambda>_. zero_pcb) s)" by (rule tcp_ok_map [OF 2(4) zero_pcb_ok])
    moreover have "t_state zero_pcb = TCP_FREE" by (simp add: zero_pcb_def)
    ultimately show ?thesis using 2(1) 2(5) Nil
      by (auto simp: tcp_states_map not_le intro: may_free_trans [OF may_free_update])
  next
    case (Cons e es)
    let ?s = "memory_free (map_tcp p (\<lambda>t. t\<lparr>t_backlog := es\<rparr>) s)"
    have p: "p < length (n_tcp s)" using 2(5) by simp
    then have "pcb_ok (length (n_tcp s)) (the_tcp s p)" using 2(4) by (simp add: tcp_ok_def the_tcp_def)
    then have e: "e < length (n_tcp s)" using Cons by (simp add: pcb_ok_def)
    have k: "tcp_keeps s ?s" unfolding tcp_keeps_plat using Cons by (intro tcp_keeps_map) (auto simp: pcb_ok_def)
    have w: "tcp_keeps s (tcp_wakeup e ?s)" using k tcp_wakeup_keeps by (rule tcp_keeps_trans)
    have d: "tcp_keeps s (tcp_drop_queue e ?s)" using k tcp_drop_queue_keeps by (rule tcp_keeps_trans)
    have l: "length (n_tcp ?s) = length (n_tcp s)" by (simp add: memory_free_def)
    have l': "length (n_tcp (tcp_drop_queue e ?s)) = length (n_tcp s)" by (simp add: memory_free_def tcp_drop_queue_def)
    show ?thesis
    proof (cases "sched_ctx_destroy (t_ctx (the_tcp ?s e)) = - 1")
      case True
      then have "\<exists>s'. tcp_release (p # stack) (tcp_wakeup e ?s) = Some s' \<and> tcp_ok s' \<and>
          may_free (tcp_states (tcp_wakeup e ?s)) (tcp_states s')"
        using 2(2) [OF _ Cons refl True] p 2(4,5) w l by (simp add: tcp_keeps_def)
      then show ?thesis using True p Cons w by (simp add: Let_def tcp_keeps_def)
    next
      case False
      then have "\<exists>s'. tcp_release (e # p # stack) (tcp_drop_queue e ?s) = Some s' \<and> tcp_ok s' \<and>
          may_free (tcp_states (tcp_drop_queue e ?s)) (tcp_states s')"
        using 2(3) [OF _ Cons refl False] p 2(4,5) e d l' by (simp add: tcp_keeps_def)
      then show ?thesis using False p Cons d by (simp add: Let_def tcp_keeps_def)
    qed
  qed
qed simp

lemma tcp_pcb_release_ok:
  assumes "tcp_ok s" "p < length (n_tcp s)"
  shows "\<exists>s'. tcp_pcb_release p s = Some s' \<and> tcp_ok s' \<and> may_free (tcp_states s) (tcp_states s')"
proof -
  have d: "tcp_keeps s (tcp_drop_queue p s)" by (rule tcp_drop_queue_keeps)
  have "\<exists>s'. tcp_release [p] (tcp_drop_queue p s) = Some s' \<and> tcp_ok s' \<and> may_free (tcp_states (tcp_drop_queue p s)) (tcp_states s')"
    by (rule tcp_release_ok) (use d assms in \<open>auto simp: tcp_keeps_def tcp_drop_queue_def\<close>)
  then show ?thesis using assms(1) d by (auto simp: tcp_pcb_release_def tcp_keeps_def)
qed

section \<open>The changes of state by a segment\<close>

text \<open>
  What one segment can make of a state. A free block becomes the child of a listener; nothing
  leads out of \<^verbatim>\<open>CLOSING\<close> and \<^verbatim>\<open>TIME_WAIT\<close>, and no state of a connection is left on a reset.
\<close>

fun tcp_moves :: "tcp_state \<Rightarrow> tcp_state set" where
  "tcp_moves TCP_FREE = {TCP_FREE, TCP_SYN_RECEIVED}"
| "tcp_moves TCP_CLOSED = {TCP_CLOSED}"
| "tcp_moves TCP_LISTEN = {TCP_LISTEN, TCP_SYN_RECEIVED}"
| "tcp_moves TCP_SYN_SENT = {TCP_SYN_SENT, TCP_ESTABLISHED, TCP_SYN_RECEIVED}"
| "tcp_moves TCP_SYN_RECEIVED = {TCP_SYN_RECEIVED, TCP_ESTABLISHED, TCP_CLOSE_WAIT}"
| "tcp_moves TCP_ESTABLISHED = {TCP_ESTABLISHED, TCP_CLOSE_WAIT}"
| "tcp_moves TCP_FIN_WAIT1 = {TCP_FIN_WAIT1, TCP_FIN_WAIT2, TCP_CLOSING, TCP_TIME_WAIT}"
| "tcp_moves TCP_FIN_WAIT2 = {TCP_FIN_WAIT2, TCP_TIME_WAIT}"
| "tcp_moves TCP_CLOSING = {TCP_CLOSING}"
| "tcp_moves TCP_TIME_WAIT = {TCP_TIME_WAIT}"
| "tcp_moves TCP_CLOSE_WAIT = {TCP_CLOSE_WAIT}"
| "tcp_moves TCP_LAST_ACK = {TCP_LAST_ACK, TCP_CLOSED}"

text \<open>The whole table: each block moves so, or is released.\<close>

definition tcp_moved :: "tcp_state list \<Rightarrow> tcp_state list \<Rightarrow> bool" where
  "tcp_moved xs ys \<longleftrightarrow> list_all2 (\<lambda>x y. y \<in> tcp_moves x \<or> y = TCP_FREE) xs ys"

lemma tcp_moves_refl [simp]: "x \<in> tcp_moves x"
  by (cases x) simp_all

lemma tcp_moved_refl [simp]: "tcp_moved xs xs"
  by (simp add: tcp_moved_def list_all2_refl)

lemma tcp_moved_update: "p < length xs \<Longrightarrow> y \<in> tcp_moves (xs ! p) \<Longrightarrow> tcp_moved xs (xs[p := y])"
  by (auto simp: tcp_moved_def list_all2_conv_all_nth nth_list_update)

lemma tcp_moved_free: "tcp_moved xs ys \<Longrightarrow> may_free ys zs \<Longrightarrow> tcp_moved xs zs"
  unfolding tcp_moved_def may_free_def by (rule list_all2_trans) auto

text \<open>What an operation on a segment returns, if it returns, for a table that was well-formed.\<close>

definition tcp_takes :: "'a net_scheme \<Rightarrow> 'a net_scheme \<Rightarrow> bool" where
  "tcp_takes s s' \<longleftrightarrow> tcp_ok s' \<and> tcp_moved (tcp_states s) (tcp_states s')"

lemma tcp_takes_keeps: "tcp_ok s \<Longrightarrow> tcp_keeps s s' \<Longrightarrow> tcp_takes s s'"
  by (simp add: tcp_takes_def tcp_keeps_def)

lemma tcp_takes_then_keeps: "tcp_takes s s' \<Longrightarrow> tcp_keeps s' s'' \<Longrightarrow> tcp_takes s s''"
  by (simp add: tcp_takes_def tcp_keeps_def)

definition tcp_goes :: "'a net_scheme \<Rightarrow> 'a net_scheme option \<Rightarrow> bool" where
  "tcp_goes s m \<longleftrightarrow> (\<exists>s'. m = Some s' \<and> tcp_takes s s')"

lemma goesI: "tcp_takes s s' \<Longrightarrow> tcp_goes s (Some s')"
  by (simp add: tcp_goes_def)

lemma goes_if: "(b \<Longrightarrow> tcp_goes s x) \<Longrightarrow> (\<not> b \<Longrightarrow> tcp_goes s y) \<Longrightarrow> tcp_goes s (if b then x else y)"
  by simp

lemma goes_same: "tcp_ok s \<Longrightarrow> tcp_goes s (Some s)"
  by (simp add: goesI tcp_takes_keeps)

lemma goes_sent: "tcp_ok s \<Longrightarrow> sent s s' \<Longrightarrow> tcp_goes s (Some s')"
  by (rule goesI [OF tcp_takes_keeps [OF _ sent_keeps]])

lemma goes_rst: "tcp_ok s \<Longrightarrow> tcp_goes s (tcp_send_rst seg local foreign s)"
  using tcp_send_rst_ok [of s seg local foreign] goes_sent by auto

lemma tcp_refuse_goes:
  assumes "tcp_ok s"
  shows "tcp_goes s (tcp_refuse seg flags local foreign s)"
proof -
  obtain r s2 where "tcp_output_segment 0 (seg_seq seg + ucast (seg_len seg)) (TCP_FLG_RST OR TCP_FLG_ACK) 0 []
      local foreign s = Some (r, s2)" "sent s s2" by (rule tcp_output_segment_ok [OF assms, of "[]"]) auto
  then have "tcp_goes s (map_option snd (tcp_output_segment 0 (seg_seq seg + ucast (seg_len seg)) (TCP_FLG_RST OR TCP_FLG_ACK) 0 []
      local foreign s))" using tcp_takes_keeps [OF assms sent_keeps] by (auto intro: goesI)
  then show ?thesis unfolding tcp_refuse_def by (intro goes_if goes_same goes_rst assms)
qed

lemma tcp_pcb_select_less: "tcp_pcb_select local foreign s = Some p \<Longrightarrow> p < length (n_tcp s)"
proof -
  have "tcp_select_from local foreign l i ts = Some p \<Longrightarrow> (\<forall>j. l = Some j \<longrightarrow> j < i + length ts) \<Longrightarrow> p < i + length ts"
    for l i ts
    by (induction local foreign l i ts rule: tcp_select_from.induct) (auto split: if_splits option.splits)
  then show "tcp_pcb_select local foreign s = Some p \<Longrightarrow> p < length (n_tcp s)"
    by (fastforce simp: tcp_pcb_select_def)
qed

lemma tcp_accept_syn_takes:
  assumes "tcp_ok s" "p < length (n_tcp s)"
  shows "\<exists>s'. tcp_accept_syn p seg local foreign s = Some s' \<and> tcp_ok s' \<and> tcp_states s' = (tcp_states s)[p := TCP_SYN_RECEIVED]"
proof -
  obtain iss s0 where r: "random s = (iss, s0)" by fastforce
  then have s0: "tcp_keeps s s0" by (auto simp: random_def Let_def)
  let ?f = "\<lambda>t. t\<lparr>t_local := local, t_foreign := foreign, t_iss := iss, t_rcv_nxt := seg_seq seg + 1,
       t_rcv_wnd := of_nat TCP_BUF_SIZE, t_irs := seg_seq seg\<rparr>"
  have k1: "tcp_keeps s0 (map_tcp p ?f s0)" by (rule tcp_keeps_map) (simp_all add: pcb_ok_def)
  have k: "tcp_keeps s (map_tcp p ?f s0)" using s0 k1 by (rule tcp_keeps_trans)
  then have ok1: "tcp_ok (map_tcp p ?f s0)" using assms(1) by (simp add: tcp_keeps_def)
  obtain x s2 where o: "tcp_output p (TCP_FLG_SYN OR TCP_FLG_ACK) [] (map_tcp p ?f s0) = Some (x, s2)"
    "tcp_keeps (map_tcp p ?f s0) s2" by (rule tcp_output_ok [OF ok1, of "[]"]) auto
  have k2: "tcp_keeps s s2" using k o(2) by (rule tcp_keeps_trans)
  let ?s = "map_tcp p (\<lambda>t. t\<lparr>t_state := TCP_SYN_RECEIVED, t_snd_nxt := t_iss t + 1, t_snd_una := t_iss t\<rparr>) s2"
  have "tcp_ok ?s" by (rule tcp_ok_map) (use k2 assms(1) in \<open>simp_all add: tcp_keeps_def pcb_ok_def\<close>)
  moreover have "tcp_states ?s = (tcp_states s)[p := TCP_SYN_RECEIVED]"
    using k2 by (simp add: tcp_states_map tcp_keeps_def)
  ultimately show ?thesis using r o(1) by (simp add: tcp_accept_syn_def Let_def)
qed

lemma tcp_listen_goes:
  assumes "tcp_ok s" "p < length (n_tcp s)" "t_state (the_tcp s p) = TCP_LISTEN"
  shows "tcp_goes s (tcp_listen_arrives p seg flags local foreign s)"
proof -
  obtain s1 where "tcp_accept_syn p seg local foreign s = Some s1" "tcp_ok s1" "tcp_states s1 = (tcp_states s)[p := TCP_SYN_RECEIVED]"
    using tcp_accept_syn_takes [OF assms(1,2)] by blast
  then have direct: "tcp_goes s (tcp_accept_syn p seg local foreign s)"
    using assms(2,3) by (auto simp: tcp_takes_def nth_tcp_states intro!: goesI tcp_moved_update)
  have child: "tcp_goes s (case tcp_pcb_alloc s of (None, s) \<Rightarrow> Some s
      | (Some q, s) \<Rightarrow> tcp_accept_syn q seg local foreign (map_tcp q (\<lambda>t. t\<lparr>t_mode := SOCKET, t_parent := Some p\<rparr>) s))"
  proof (cases "first_idx (\<lambda>t. t_state t = TCP_FREE) (n_tcp s)")
    case None
    then show ?thesis using goes_same [OF assms(1)] unfolding tcp_pcb_alloc_def None by simp
  next
    case (Some q)
    note q = first_idx_SomeD [OF Some]
    let ?s1 = "map_tcp q (\<lambda>p. p\<lparr>t_state := TCP_CLOSED, t_ctx := sched_ctx_init\<rparr>) s"
    let ?s2 = "map_tcp q (\<lambda>t. t\<lparr>t_mode := SOCKET, t_parent := Some p\<rparr>) ?s1"
    have "tcp_ok ?s1" by (rule tcp_ok_map [OF assms(1)]) (simp add: pcb_ok_def)
    then have "tcp_ok ?s2" by (rule tcp_ok_map) (use assms(2) in \<open>simp add: pcb_ok_def\<close>)
    moreover have "q < length (n_tcp ?s2)" using q(1) by simp
    moreover have "tcp_states ?s2 = (tcp_states s)[q := TCP_CLOSED]" by (simp add: tcp_states_map the_tcp_map q(1))
    moreover have "tcp_states s ! q = TCP_FREE" using q by (simp add: tcp_states_def)
    ultimately show ?thesis using tcp_accept_syn_takes [of ?s2 q seg local foreign] q(1)
      unfolding tcp_pcb_alloc_def Some by (auto simp: tcp_takes_def intro!: goesI tcp_moved_update)
  qed
  show ?thesis unfolding tcp_listen_arrives_def by (intro goes_if goes_same goes_rst direct child assms(1))
qed

lemma tcp_syn_sent_goes:
  assumes "tcp_ok s" "p < length (n_tcp s)" "t_state (the_tcp s p) = TCP_SYN_SENT"
  shows "tcp_goes s (tcp_syn_sent_arrives p seg flags local foreign s)"
proof -
  have st: "tcp_states s ! p = TCP_SYN_SENT" using assms(2,3) by (simp add: nth_tcp_states)
  have key: "tcp_ok (map_tcp p f t) \<and> tcp_states (map_tcp p f t) = (tcp_states s)[p := x]"
    if "tcp_keeps s t" "\<And>t. t_state (f t) = x" "\<And>n t. pcb_ok n t \<Longrightarrow> pcb_ok n (f t)" for f t x
    using that assms(1) tcp_ok_map [of t p f] by (simp add: tcp_keeps_def tcp_states_map)
  have est: "tcp_goes s (do { s \<leftarrow> tcp_send_ack p (map_tcp p (\<lambda>t. t\<lparr>t_state := TCP_ESTABLISHED\<rparr>) t);
      Some (tcp_wakeup p (map_tcp p (\<lambda>t. t\<lparr>t_snd_wnd := seg_wnd seg, t_snd_wl1 := seg_seq seg, t_snd_wl2 := seg_ack seg\<rparr>) s)) })" if t: "tcp_keeps s t" for t
  proof -
    have k: "tcp_ok (map_tcp p (\<lambda>t. t\<lparr>t_state := TCP_ESTABLISHED\<rparr>) t)"
      "tcp_states (map_tcp p (\<lambda>t. t\<lparr>t_state := TCP_ESTABLISHED\<rparr>) t) = (tcp_states s)[p := TCP_ESTABLISHED]"
      using key [OF t, of "\<lambda>t. t\<lparr>t_state := TCP_ESTABLISHED\<rparr>" TCP_ESTABLISHED] by (simp_all add: pcb_ok_def)
    obtain u where u: "tcp_send_ack p (map_tcp p (\<lambda>t. t\<lparr>t_state := TCP_ESTABLISHED\<rparr>) t) = Some u"
      "sent (map_tcp p (\<lambda>t. t\<lparr>t_state := TCP_ESTABLISHED\<rparr>) t) u"
      using k(1) by (auto simp: tcp_ok_def elim: tcp_send_ack_sent)
    have "tcp_takes s u" using k sent_keeps [OF u(2)] assms(2) st by (auto simp: tcp_takes_def tcp_keeps_def intro!: tcp_moved_update)
    moreover have "tcp_keeps u (map_tcp p (\<lambda>t. t\<lparr>t_snd_wnd := seg_wnd seg, t_snd_wl1 := seg_seq seg, t_snd_wl2 := seg_ack seg\<rparr>) u)"
      by (rule tcp_keeps_map) (simp_all add: pcb_ok_def)
    ultimately have "tcp_takes s (tcp_wakeup p (map_tcp p (\<lambda>t. t\<lparr>t_snd_wnd := seg_wnd seg, t_snd_wl1 := seg_seq seg, t_snd_wl2 := seg_ack seg\<rparr>) u))"
      by (blast intro: tcp_takes_then_keeps tcp_wakeup_keeps)
    with u(1) show ?thesis by (simp add: goesI)
  qed
  have rec: "tcp_goes s (map_option snd (tcp_output p (TCP_FLG_SYN OR TCP_FLG_ACK) [] (map_tcp p (\<lambda>t. t\<lparr>t_state := TCP_SYN_RECEIVED\<rparr>) t)))" if t: "tcp_keeps s t" for t
  proof -
    have k: "tcp_ok (map_tcp p (\<lambda>t. t\<lparr>t_state := TCP_SYN_RECEIVED\<rparr>) t)"
      "tcp_states (map_tcp p (\<lambda>t. t\<lparr>t_state := TCP_SYN_RECEIVED\<rparr>) t) = (tcp_states s)[p := TCP_SYN_RECEIVED]"
      using key [OF t, of "\<lambda>t. t\<lparr>t_state := TCP_SYN_RECEIVED\<rparr>" TCP_SYN_RECEIVED] by (simp_all add: pcb_ok_def)
    obtain r u where u: "tcp_output p (TCP_FLG_SYN OR TCP_FLG_ACK) [] (map_tcp p (\<lambda>t. t\<lparr>t_state := TCP_SYN_RECEIVED\<rparr>) t) = Some (r, u)"
      "tcp_keeps (map_tcp p (\<lambda>t. t\<lparr>t_state := TCP_SYN_RECEIVED\<rparr>) t) u" by (rule tcp_output_ok [OF k(1), of "[]"]) auto
    have "tcp_takes s u" using k u(2) assms(2) st by (auto simp: tcp_takes_def tcp_keeps_def intro!: tcp_moved_update)
    with u(1) show ?thesis by (simp add: goesI)
  qed
  let ?s1 = "map_tcp p (\<lambda>t. t\<lparr>t_rcv_nxt := seg_seq seg + 1, t_irs := seg_seq seg\<rparr>) s"
  let ?s2 = "tcp_retransmit_queue_cleanup p (map_tcp p (\<lambda>t. t\<lparr>t_snd_una := seg_ack seg\<rparr>) ?s1)"
  have s1: "tcp_keeps s ?s1" by (rule tcp_keeps_map) (simp_all add: pcb_ok_def)
  have "tcp_keeps ?s1 (map_tcp p (\<lambda>t. t\<lparr>t_snd_una := seg_ack seg\<rparr>) ?s1)" by (rule tcp_keeps_map) (simp_all add: pcb_ok_def)
  with s1 have s2: "tcp_keeps s ?s2" by (blast intro: tcp_keeps_trans tcp_retransmit_queue_cleanup_keeps)
  have "tcp_keeps s (if acc then ?s2 else ?s1)" for acc using s1 s2 by simp
  then show ?thesis
    unfolding tcp_syn_sent_arrives_def Let_def by (intro goes_if goes_same goes_rst est rec assms(1))
qed

text \<open>The ACK field: the state of the block, and the received text stays.\<close>

definition tcp_texts :: "'a net_scheme \<Rightarrow> (u8 list \<times> u16) list" where
  "tcp_texts s = map (\<lambda>t. (t_buf t, t_rcv_wnd t)) (n_tcp s)"

lemma tcp_texts_map:
  assumes "\<And>t. t_buf (f t) = t_buf t" "\<And>t. t_rcv_wnd (f t) = t_rcv_wnd t"
  shows "tcp_texts (map_tcp p f s) = tcp_texts s"
  unfolding tcp_texts_def map_tcp_def using assms by (simp add: map_upd_at)

lemma tcp_texts_plat [simp]: "tcp_texts (s\<lparr>n_pages := v\<rparr>) = tcp_texts s"
  by (simp add: tcp_texts_def)

lemma sent_texts: "sent s s' \<Longrightarrow> tcp_texts s' = tcp_texts s"
  by (simp add: sent_def tcp_texts_def)

lemma tcp_wakeup_texts [simp]: "tcp_texts (tcp_wakeup p s) = tcp_texts s"
  unfolding tcp_wakeup_def by (simp add: tcp_texts_map)

lemma tcp_cleanup_texts [simp]: "tcp_texts (tcp_retransmit_queue_cleanup p s) = tcp_texts s"
  unfolding tcp_retransmit_queue_cleanup_def Let_def by (simp add: tcp_texts_map)

text \<open>The state of block \<open>p\<close> becomes \<open>y\<close>, and nothing is said or heard.\<close>

definition tcp_quiet :: "nat \<Rightarrow> tcp_state \<Rightarrow> 'a net_scheme \<Rightarrow> 'a net_scheme \<Rightarrow> bool" where
  "tcp_quiet p y s s' \<longleftrightarrow> tcp_ok s' \<and> tcp_states s' = (tcp_states s)[p := y] \<and> tcp_texts s' = tcp_texts s"

lemma tcp_quiet_map:
  assumes "tcp_quiet p y s t" "\<And>n x. pcb_ok n x \<Longrightarrow> pcb_ok n (f x)" "\<And>x. t_buf (f x) = t_buf x"
    "\<And>x. t_rcv_wnd (f x) = t_rcv_wnd x" "\<And>x. t_state (f x) = t_state x"
  shows "tcp_quiet p y s (map_tcp q f t)"
  unfolding tcp_quiet_def
  using assms tcp_ok_map [of t q f] tcp_states_same [of f t q] tcp_texts_map [of f q t]
  by (simp add: tcp_quiet_def)

lemma tcp_quiet_state:
  assumes "tcp_quiet p y s t"
  shows "tcp_quiet p z s (map_tcp p (\<lambda>t. t\<lparr>t_state := z\<rparr>) t)"
  using assms tcp_ok_map [of t p "\<lambda>t. t\<lparr>t_state := z\<rparr>"] tcp_texts_map [of "\<lambda>t. t\<lparr>t_state := z\<rparr>" p t]
  by (simp add: tcp_quiet_def tcp_states_map pcb_ok_def)

lemma tcp_quiet_cleanup: "tcp_quiet p y s t \<Longrightarrow> tcp_quiet p y s (tcp_retransmit_queue_cleanup q t)"
  using tcp_retransmit_queue_cleanup_keeps [of t q] by (simp add: tcp_quiet_def tcp_keeps_def)

lemma tcp_quiet_wakeup: "tcp_quiet p y s t \<Longrightarrow> tcp_quiet p y s (tcp_wakeup q t)"
  by (simp add: tcp_quiet_def)

lemma tcp_quiet_if: "tcp_quiet p y s t \<Longrightarrow> tcp_quiet p y s u \<Longrightarrow> tcp_quiet p y s (if b then t else u)"
  by simp

lemma tcp_quiet_refl: "tcp_ok s \<Longrightarrow> p < length (n_tcp s) \<Longrightarrow> tcp_quiet p (t_state (the_tcp s p)) s s"
  by (simp add: tcp_quiet_def nth_tcp_states [symmetric])

lemma tcp_quiet_sent: "tcp_quiet p y s t \<Longrightarrow> sent t u \<Longrightarrow> tcp_quiet p y s u"
  using sent_keeps [of t u] sent_texts [of t u] by (simp add: tcp_quiet_def tcp_keeps_def)

lemma tcp_quiet_the:
  "tcp_quiet p y s s' \<Longrightarrow> p < length (n_tcp s) \<Longrightarrow> t_state (the_tcp s' p) = y \<and> t_buf (the_tcp s' p) = t_buf (the_tcp s p) \<and>
     t_rcv_wnd (the_tcp s' p) = t_rcv_wnd (the_tcp s p) \<and> length (n_tcp s') = length (n_tcp s)"
proof -
  assume q: "tcp_quiet p y s s'" and p: "p < length (n_tcp s)"
  have l: "length (n_tcp s') = length (n_tcp s)" using q map_eq_imp_length_eq by (auto simp: tcp_quiet_def tcp_texts_def)
  have "tcp_texts s' ! p = tcp_texts s ! p" "tcp_states s' ! p = y" using q p by (simp_all add: tcp_quiet_def)
  then show ?thesis using l p by (simp add: tcp_texts_def the_tcp_def tcp_states_def)
qed

definition tcp_acked :: "nat \<Rightarrow> tcp_state \<Rightarrow> 'a net_scheme \<Rightarrow> (bool \<times> 'a net_scheme) option \<Rightarrow> bool" where
  "tcp_acked p x s m \<longleftrightarrow> (\<exists>go u y. m = Some (go, u) \<and> tcp_quiet p y s u \<and> (y = x \<or> x = TCP_FIN_WAIT1 \<and> y = TCP_FIN_WAIT2))"

lemma acked_if: "tcp_acked p x s m \<Longrightarrow> tcp_acked p x s n \<Longrightarrow> tcp_acked p x s (if b then m else n)"
  by simp

lemma tcp_ack_connected_acked:
  assumes q: "tcp_quiet p x s t" and p: "p < length (n_tcp s)"
  shows "tcp_acked p x s (tcp_ack_connected p seg t)"
proof -
  let ?fin = "\<lambda>u. if t_state (the_tcp u p) = TCP_FIN_WAIT1 \<and> seg_ack seg = t_snd_nxt (the_tcp u p)
       then map_tcp p (\<lambda>t. t\<lparr>t_state := TCP_FIN_WAIT2\<rparr>) u else u"
  have fin: "tcp_acked p x s (Some (True, ?fin u))" if "tcp_quiet p x s u" for u
    using that tcp_quiet_state [OF that, of TCP_FIN_WAIT2] tcp_quiet_the [OF that p] by (auto simp: tcp_acked_def)
  have una: "tcp_quiet p x s (tcp_retransmit_queue_cleanup p (map_tcp p (\<lambda>t. t\<lparr>t_snd_una := seg_ack seg\<rparr>) t))"
    by (intro tcp_quiet_cleanup tcp_quiet_map [OF q]) (simp_all add: pcb_ok_def)
  have wnd: "tcp_quiet p x s (map_tcp p (\<lambda>t. t\<lparr>t_snd_wnd := seg_wnd seg, t_snd_wl1 := seg_seq seg, t_snd_wl2 := seg_ack seg\<rparr>)
      (tcp_retransmit_queue_cleanup p (map_tcp p (\<lambda>t. t\<lparr>t_snd_una := seg_ack seg\<rparr>) t)))"
    by (rule tcp_quiet_map [OF una]) (simp_all add: pcb_ok_def)
  have "n_arp t \<noteq> []" using q by (simp add: tcp_quiet_def tcp_ok_def)
  then obtain u where "tcp_send_ack p t = Some u" "sent t u" by (rule tcp_send_ack_sent)
  then have ack: "tcp_acked p x s (map_option (\<lambda>s. (False, s)) (tcp_send_ack p t))"
    using tcp_quiet_sent [OF q] by (auto simp: tcp_acked_def)
  show ?thesis
    unfolding tcp_ack_connected_def Let_def by (intro acked_if fin ack tcp_quiet_if una wnd q)
qed

lemma tcp_push_backlog_quiet:
  assumes q: "tcp_quiet p y s t" and "r < length (n_tcp s)"
  shows "tcp_quiet p y s (tcp_push_backlog par r t)"
proof (cases "push_entry r (t_backlog (the_tcp t par)) t")
  case (Pair o' u)
  have same: "n_tcp u = n_tcp t" "n_arp u = n_arp t"
    using Pair by (auto simp: push_entry_def memory_alloc_def split: if_splits prod.splits)
  then have u: "tcp_quiet p y s u" using q by (simp add: tcp_quiet_def tcp_ok_def tcp_states_def tcp_texts_def)
  show ?thesis
  proof (cases o')
    case None
    then show ?thesis using Pair u by (simp add: tcp_push_backlog_def)
  next
    case (Some w)
    then have w: "w = t_backlog (the_tcp u par) @ [r]"
      using Pair same by (auto simp: push_entry_def the_tcp_def split: if_splits prod.splits)
    have l: "length (n_tcp u) = length (n_tcp s)" using u map_eq_imp_length_eq by (auto simp: tcp_quiet_def tcp_texts_def)
    have "tcp_ok (map_tcp par (\<lambda>t. t\<lparr>t_backlog := w\<rparr>) u)"
      by (rule tcp_ok_map) (use u w l assms(2) in \<open>auto simp: tcp_quiet_def pcb_ok_def\<close>)
    then have "tcp_quiet p y s (map_tcp par (\<lambda>t. t\<lparr>t_backlog := w\<rparr>) u)"
      using u tcp_states_same [of "\<lambda>t. t\<lparr>t_backlog := w\<rparr>" u par] tcp_texts_map [of "\<lambda>t. t\<lparr>t_backlog := w\<rparr>" par u]
      by (simp add: tcp_quiet_def)
    then show ?thesis using Pair Some by (simp add: tcp_push_backlog_def)
  qed
qed

text \<open>
  The check of the ACK field: either the segment is done with, or the state of \<open>p\<close> has become
  \<open>y\<close> and the text of the segment is next.
\<close>

definition ack_moves :: "tcp_state \<Rightarrow> tcp_state \<Rightarrow> bool" where
  "ack_moves x y \<longleftrightarrow> y = x \<or> (x, y) \<in> {(TCP_SYN_RECEIVED, TCP_ESTABLISHED), (TCP_FIN_WAIT1, TCP_FIN_WAIT2)}"

definition tcp_ack_done :: "nat \<Rightarrow> 'a net_scheme \<Rightarrow> (bool \<times> 'a net_scheme) option \<Rightarrow> bool" where
  "tcp_ack_done p s m \<longleftrightarrow> (\<exists>go u. m = Some (go, u) \<and> (if go
     then \<exists>y. ack_moves (t_state (the_tcp s p)) y \<and> y \<noteq> TCP_SYN_RECEIVED \<and> tcp_quiet p y s u else tcp_takes s u))"

lemma ack_moves_moves: "ack_moves x y \<Longrightarrow> y \<in> tcp_moves x"
  by (auto simp: ack_moves_def)

lemma quiet_takes:
  "tcp_quiet p y s u \<Longrightarrow> y \<in> tcp_moves (t_state (the_tcp s p)) \<Longrightarrow> p < length (n_tcp s) \<Longrightarrow> tcp_takes s u"
  by (simp add: tcp_quiet_def tcp_takes_def nth_tcp_states tcp_moved_update)

lemma ack_done_if: "(b \<Longrightarrow> tcp_ack_done p s m) \<Longrightarrow> (\<not> b \<Longrightarrow> tcp_ack_done p s n) \<Longrightarrow> tcp_ack_done p s (if b then m else n)"
  by simp

lemma tcp_ack_arrives_done:
  assumes ok: "tcp_ok s" and p: "p < length (n_tcp s)"
  shows "tcp_ack_done p s (tcp_ack_arrives p seg local foreign s)"
proof -
  let ?x = "t_state (the_tcp s p)"
  have ack: "tcp_ack_done p s m" if "tcp_acked p x s m" "ack_moves ?x x" "x \<noteq> TCP_SYN_RECEIVED" "?x = x \<or> x = TCP_ESTABLISHED" for x m
  proof -
    from that(1) obtain go u y where m: "m = Some (go, u)" "tcp_quiet p y s u" "y = x \<or> x = TCP_FIN_WAIT1 \<and> y = TCP_FIN_WAIT2"
      unfolding tcp_acked_def by blast
    then have "ack_moves ?x y" "y \<noteq> TCP_SYN_RECEIVED" using that(2-) by (auto simp: ack_moves_def)
    then show ?thesis using m quiet_takes [OF m(2) _ p] ack_moves_moves by (auto simp: tcp_ack_done_def)
  qed
  have q: "tcp_quiet p ?x s s" using ok p by (rule tcp_quiet_refl)
  let ?e = "tcp_wakeup p (map_tcp p (\<lambda>t. t\<lparr>t_state := TCP_ESTABLISHED\<rparr>) s)"
  have e: "tcp_quiet p TCP_ESTABLISHED s ?e" by (intro tcp_quiet_wakeup tcp_quiet_state [OF q])
  have "tcp_quiet p TCP_ESTABLISHED s (case t_parent (the_tcp s p) of None \<Rightarrow> ?e | Some par \<Rightarrow> tcp_wakeup par (tcp_push_backlog par p ?e))"
    using e p by (auto split: option.split intro: tcp_quiet_wakeup tcp_push_backlog_quiet)
  then have syn: "tcp_ack_done p s (tcp_ack_connected p seg (case t_parent (the_tcp s p) of None \<Rightarrow> ?e
      | Some par \<Rightarrow> tcp_wakeup par (tcp_push_backlog par p ?e)))" if "?x = TCP_SYN_RECEIVED"
    by (rule ack [OF tcp_ack_connected_acked [OF _ p]]) (use that in \<open>auto simp: ack_moves_def\<close>)
  have con: "tcp_ack_done p s (tcp_ack_connected p seg s)" if "?x \<noteq> TCP_SYN_RECEIVED"
    by (rule ack [OF tcp_ack_connected_acked [OF q p]]) (use that in \<open>auto simp: ack_moves_def\<close>)
  have rst: "tcp_ack_done p s (map_option (\<lambda>s. (False, s)) (tcp_send_rst seg local foreign s))"
    using goes_rst [OF ok, of seg local foreign] by (auto simp: tcp_goes_def tcp_ack_done_def)
  have stop: "tcp_ack_done p s (Some (False, s))" using tcp_takes_keeps [OF ok tcp_keeps_refl] by (auto simp: tcp_ack_done_def)
  have pass: "tcp_ack_done p s (Some (True, s))" if "?x \<noteq> TCP_SYN_RECEIVED"
    using q that by (auto simp: tcp_ack_done_def ack_moves_def)
  let ?c = "map_tcp p (\<lambda>t. t\<lparr>t_state := TCP_CLOSED\<rparr>) s"
  have last: "tcp_ack_done p s (map_option (\<lambda>s. (False, s)) (tcp_pcb_release p ?c))" if "?x = TCP_LAST_ACK"
  proof -
    have c: "tcp_quiet p TCP_CLOSED s ?c" by (rule tcp_quiet_state [OF q])
    then have "tcp_ok ?c" by (simp add: tcp_quiet_def)
    then obtain u where u: "tcp_pcb_release p ?c = Some u" "tcp_ok u" "may_free (tcp_states ?c) (tcp_states u)"
      using tcp_pcb_release_ok [of ?c p] p by auto
    have "tcp_moved (tcp_states s) (tcp_states ?c)" using quiet_takes [OF c _ p] that by (simp add: tcp_takes_def)
    then have "tcp_takes s u" using u tcp_moved_free by (auto simp: tcp_takes_def)
    then show ?thesis using u(1) by (auto simp: tcp_ack_done_def)
  qed
  show ?thesis
    unfolding tcp_ack_arrives_def Let_def by (intro ack_done_if syn con rst stop pass last) simp_all
qed

section \<open>Text and FIN\<close>

text \<open>The text that a block has received and not yet given to the user.\<close>

definition tcp_text :: "tcp_pcb \<Rightarrow> u8 list" where
  "tcp_text t = take (TCP_BUF_SIZE - unat (t_rcv_wnd t)) (t_buf t)"

definition takes_text :: "tcp_pcb \<Rightarrow> u32 \<Rightarrow> bool" where
  "takes_text t len \<longleftrightarrow> t_state t \<in> {TCP_ESTABLISHED, TCP_FIN_WAIT1, TCP_FIN_WAIT2} \<and> len \<noteq> 0"

text \<open>The text is copied where the window allows it, and only there.\<close>

lemma tcp_text_arrives_ok:
  assumes ok: "tcp_ok s" and p: "p < length (n_tcp s)" and fits: "takes_text (the_tcp s p) len \<Longrightarrow> unat len \<le> unat (t_rcv_wnd (the_tcp s p))"
    and data: "unat len \<le> length data"
  obtains u where "tcp_text_arrives p seg data len s = Some u" "tcp_keeps s u" "length (n_tcp u) = length (n_tcp s)"
    "tcp_text (the_tcp u p) = tcp_text (the_tcp s p) @ (if takes_text (the_tcp s p) len then take (unat len) data else [])"
    "unat (t_rcv_wnd (the_tcp u p)) = unat (t_rcv_wnd (the_tcp s p)) - (if takes_text (the_tcp s p) len then unat len else 0)"
    "takes_text (the_tcp s p) len \<Longrightarrow> t_rcv_nxt (the_tcp u p) = seg_seq seg + ucast (seg_len seg)"
proof (cases "takes_text (the_tcp s p) len")
  case False
  then have "tcp_text_arrives p seg data len s = Some s" by (auto simp: tcp_text_arrives_def takes_text_def Let_def)
  with False that show ?thesis by simp
next
  case True
  let ?t = "the_tcp s p"
  let ?off = "TCP_BUF_SIZE - unat (t_rcv_wnd ?t)"
  let ?f = "\<lambda>t. t\<lparr>t_rcv_nxt := seg_seq seg + ucast (seg_len seg), t_rcv_wnd := t_rcv_wnd ?t - ucast len,
    t_buf := splice ?off (take (unat len) data) (t_buf ?t)\<rparr>"
  have pok: "pcb_ok (length (n_tcp s)) ?t" using ok p by (simp add: tcp_ok_def the_tcp_def)
  have buf: "length (t_buf ?t) = TCP_BUF_SIZE" using pok by (simp add: pcb_ok_def)
  have wnd: "unat (t_rcv_wnd ?t) \<le> TCP_BUF_SIZE" using unat_less_len [of "t_rcv_wnd ?t"] by (simp add: TCP_BUF_SIZE_def)
  have len: "unat len \<le> unat (t_rcv_wnd ?t)" using True fits by blast
  then have small: "unat (ucast len :: u16) = unat len"
    using unat_less_len [of "t_rcv_wnd ?t"] by (simp add: unsigned_ucast_eq take_bit_nat_eq_self)
  then have w: "unat (t_rcv_wnd ?t - ucast len) = unat (t_rcv_wnd ?t) - unat len"
    using len by (simp add: unat_sub word_le_nat_alt)
  let ?b = "splice ?off (take (unat len) data) (t_buf ?t)"
  have lb: "length ?b = TCP_BUF_SIZE" using buf len wnd data by simp
  have m: "\<exists>u. tcp_text_arrives p seg data len s = Some (tcp_wakeup p u) \<and> sent (map_tcp p ?f s) u"
  proof -
    have "n_arp (map_tcp p ?f s) \<noteq> []" using ok by (simp add: tcp_ok_def map_tcp_def)
    then obtain u where "tcp_send_ack p (map_tcp p ?f s) = Some u" "sent (map_tcp p ?f s) u" by (rule tcp_send_ack_sent)
    moreover have "map_tcp p (\<lambda>t. t\<lparr>t_rcv_nxt := seg_seq seg + ucast (seg_len seg), t_rcv_wnd := t_rcv_wnd t - ucast len,
            t_buf := splice (TCP_BUF_SIZE - unat (t_rcv_wnd t)) (take (unat len) data) (t_buf t)\<rparr>) s = map_tcp p ?f s"
      by (simp add: map_tcp_def the_tcp_def upd_at_def)
    ultimately show ?thesis using True len by (auto simp: tcp_text_arrives_def takes_text_def Let_def)
  qed
  then obtain u where u: "tcp_text_arrives p seg data len s = Some (tcp_wakeup p u)" "sent (map_tcp p ?f s) u" by blast
  have k: "tcp_keeps s (map_tcp p ?f s)" by (rule tcp_keeps_map) (use lb in \<open>simp_all add: pcb_ok_def\<close>)
  have n: "n_tcp u = n_tcp (map_tcp p ?f s)" using u(2) by (simp add: sent_def)
  have tu: "the_tcp (tcp_wakeup p u) p = (?f ?t)\<lparr>t_ctx := sched_wakeup (t_ctx ?t)\<rparr>"
    using n p by (simp add: the_tcp_def tcp_wakeup_def map_tcp_def)
  have "take (TCP_BUF_SIZE - (unat (t_rcv_wnd ?t) - unat len)) ?b = take ?off (t_buf ?t) @ take (unat len) data"
    using buf wnd len data by (simp add: splice_def)
  then have "tcp_text (the_tcp (tcp_wakeup p u) p) = tcp_text ?t @ take (unat len) data" unfolding tu by (simp add: tcp_text_def w)
  moreover have "tcp_keeps s (tcp_wakeup p u)" using k sent_keeps [OF u(2)] tcp_wakeup_keeps by (blast intro: tcp_keeps_trans)
  moreover have "unat (t_rcv_wnd (the_tcp (tcp_wakeup p u) p)) = unat (t_rcv_wnd ?t) - unat len" unfolding tu by (simp add: w)
  moreover have "t_rcv_nxt (the_tcp (tcp_wakeup p u) p) = seg_seq seg + ucast (seg_len seg)" unfolding tu by simp
  moreover have "length (n_tcp (tcp_wakeup p u)) = length (n_tcp s)" using n by simp
  ultimately show ?thesis using that u(1) True by simp
qed

definition fin_moves :: "tcp_state \<Rightarrow> tcp_state \<Rightarrow> bool" where
  "fin_moves x y \<longleftrightarrow> y = x \<or> (x, y) \<in> {(TCP_SYN_RECEIVED, TCP_CLOSE_WAIT), (TCP_ESTABLISHED, TCP_CLOSE_WAIT),
     (TCP_FIN_WAIT1, TCP_CLOSING), (TCP_FIN_WAIT1, TCP_TIME_WAIT), (TCP_FIN_WAIT2, TCP_TIME_WAIT)}"

lemma ack_fin_moves: "ack_moves x y \<Longrightarrow> y \<noteq> TCP_SYN_RECEIVED \<Longrightarrow> fin_moves y z \<Longrightarrow> z \<in> tcp_moves x"
  by (auto simp: ack_moves_def fin_moves_def)

lemma tcp_fin_arrives_ok:
  assumes ok: "tcp_ok s" and p: "p < length (n_tcp s)"
  obtains u z where "tcp_fin_arrives p seg flags s = Some u" "tcp_quiet p z s u" "fin_moves (t_state (the_tcp s p)) z"
proof -
  let ?x = "t_state (the_tcp s p)"
  have q: "tcp_quiet p ?x s s" using ok p by (rule tcp_quiet_refl)
  let ?s1 = "map_tcp p (\<lambda>t. t\<lparr>t_rcv_nxt := seg_seq seg + 1\<rparr>) s"
  have q1: "tcp_quiet p ?x s ?s1" by (rule tcp_quiet_map [OF q]) (simp_all add: pcb_ok_def)
  then have "n_arp ?s1 \<noteq> []" by (simp add: tcp_quiet_def tcp_ok_def)
  then obtain v where v: "tcp_send_ack p ?s1 = Some v" "sent ?s1 v" by (rule tcp_send_ack_sent)
  have qv: "tcp_quiet p ?x s v" using q1 v(2) by (rule tcp_quiet_sent)
  then have x: "t_state (the_tcp v p) = ?x" using tcp_quiet_the [OF qv p] by simp
  have st: "tcp_quiet p z s (map_tcp p (\<lambda>t. t\<lparr>t_state := z\<rparr>) v)" for z using qv by (rule tcp_quiet_state)
  have "\<exists>u z. tcp_fin_arrives p seg flags s = Some u \<and> tcp_quiet p z s u \<and> fin_moves ?x z"
  proof (cases "TCP_FLG_ISSET flags TCP_FLG_FIN \<and> ?x \<notin> {TCP_CLOSED, TCP_LISTEN}")
    case False
    then show ?thesis using q by (auto simp: tcp_fin_arrives_def fin_moves_def)
  next
    case True
    let ?r = "\<lambda>y. case y of
        TCP_SYN_RECEIVED \<Rightarrow> tcp_wakeup p (map_tcp p (\<lambda>t. t\<lparr>t_state := TCP_CLOSE_WAIT\<rparr>) v)
      | TCP_ESTABLISHED \<Rightarrow> tcp_wakeup p (map_tcp p (\<lambda>t. t\<lparr>t_state := TCP_CLOSE_WAIT\<rparr>) v)
      | TCP_FIN_WAIT1 \<Rightarrow> map_tcp p (\<lambda>t. t\<lparr>t_state := (if seg_ack seg = t_snd_nxt t then TCP_TIME_WAIT else TCP_CLOSING)\<rparr>) v
      | TCP_FIN_WAIT2 \<Rightarrow> map_tcp p (\<lambda>t. t\<lparr>t_state := TCP_TIME_WAIT\<rparr>) v
      | _ \<Rightarrow> v"
    have r: "tcp_fin_arrives p seg flags s = Some (?r ?x)" using True v(1) x by (simp add: tcp_fin_arrives_def)
    have fw: "map_tcp p (\<lambda>t. t\<lparr>t_state := (if seg_ack seg = t_snd_nxt t then TCP_TIME_WAIT else TCP_CLOSING)\<rparr>) v =
        map_tcp p (\<lambda>t. t\<lparr>t_state := (if seg_ack seg = t_snd_nxt (the_tcp v p) then TCP_TIME_WAIT else TCP_CLOSING)\<rparr>) v"
      by (simp add: map_tcp_def the_tcp_def upd_at_def)
    have "\<exists>z. tcp_quiet p z s (?r y) \<and> fin_moves y z" if "y = ?x" for y
    proof (cases y)
      case TCP_FIN_WAIT1
      then show ?thesis using st unfolding fw by (auto simp: fin_moves_def)
    qed (use st qv that tcp_quiet_wakeup [OF st] in \<open>auto simp: fin_moves_def\<close>)
    with r show ?thesis by blast
  qed
  then show ?thesis using that by blast
qed

section \<open>A segment arrives\<close>

lemma tcp_text_arrives_refuses:
  assumes "tcp_text_arrives p seg data len s = Some u" "takes_text (the_tcp s p) len"
  shows "unat len \<le> unat (t_rcv_wnd (the_tcp s p))"
  using assms by (auto simp: tcp_text_arrives_def takes_text_def Let_def split: if_splits)

text \<open>The table after the text and the FIN, and what has become of the text of \<open>p\<close>.\<close>

lemma tcp_text_fin_ok:
  assumes ok: "tcp_ok s" and p: "p < length (n_tcp s)"
    and fits: "takes_text (the_tcp s p) len \<Longrightarrow> unat len \<le> unat (t_rcv_wnd (the_tcp s p))"
    and data: "takes_text (the_tcp s p) len \<Longrightarrow> unat len \<le> length data"
  obtains u z where "tcp_text_arrives p seg data len s \<bind> tcp_fin_arrives p seg flags = Some u" "tcp_ok u"
    "tcp_states u = (tcp_states s)[p := z]" "fin_moves (t_state (the_tcp s p)) z"
    "tcp_text (the_tcp u p) = tcp_text (the_tcp s p) @ (if takes_text (the_tcp s p) len then take (unat len) data else [])"
proof -
  have "\<exists>t. tcp_text_arrives p seg data len s = Some t \<and> tcp_keeps s t \<and> length (n_tcp t) = length (n_tcp s) \<and>
    tcp_text (the_tcp t p) = tcp_text (the_tcp s p) @ (if takes_text (the_tcp s p) len then take (unat len) data else [])"
  proof (cases "takes_text (the_tcp s p) len")
    case True
    then show ?thesis by (rule tcp_text_arrives_ok [OF ok p fits data [OF True]]) auto
  next
    case False
    then show ?thesis by (auto simp: tcp_text_arrives_def takes_text_def Let_def)
  qed
  then obtain t where t: "tcp_text_arrives p seg data len s = Some t" "tcp_keeps s t" "length (n_tcp t) = length (n_tcp s)"
    "tcp_text (the_tcp t p) = tcp_text (the_tcp s p) @ (if takes_text (the_tcp s p) len then take (unat len) data else [])" by blast
  have okt: "tcp_ok t" and pt: "p < length (n_tcp t)" using t(2,3) ok p by (simp_all add: tcp_keeps_def)
  obtain u z where u: "tcp_fin_arrives p seg flags t = Some u" "tcp_quiet p z t u" "fin_moves (t_state (the_tcp t p)) z"
    by (rule tcp_fin_arrives_ok [OF okt pt])
  have "t_state (the_tcp t p) = t_state (the_tcp s p)" using t(2) p pt by (simp add: tcp_keeps_def nth_tcp_states [symmetric])
  moreover have "tcp_text (the_tcp u p) = tcp_text (the_tcp t p)" using tcp_quiet_the [OF u(2) pt] by (simp add: tcp_text_def)
  ultimately show ?thesis using that [of u z] t u by (simp add: tcp_quiet_def tcp_keeps_def)
qed

lemma tcp_segment_arrives_other:
  assumes ok: "tcp_ok s"
    and other: "\<And>p. tcp_pcb_select local (Some foreign) s = Some p \<Longrightarrow> p < length (n_tcp s) \<Longrightarrow> TCP_FLG_ISSET flags TCP_FLG_ACK \<Longrightarrow>
      t_state (the_tcp s p) \<notin> {TCP_CLOSED, TCP_LISTEN, TCP_SYN_SENT} \<Longrightarrow>
      P (do { (go, s) \<leftarrow> tcp_ack_arrives p seg local foreign s;
            if \<not> go then Some s
            else tcp_text_arrives p seg data len s \<bind> tcp_fin_arrives p seg flags })"
    and goes: "\<And>m. tcp_goes s m \<Longrightarrow> P m"
  shows "P (tcp_segment_arrives seg flags data len local foreign s)"
proof (cases "tcp_pcb_select local (Some foreign) s")
  case None
  then show ?thesis using goes [OF tcp_refuse_goes [OF ok]] by (simp add: tcp_segment_arrives_def)
next
  case (Some p)
  have p: "p < length (n_tcp s)" using Some by (rule tcp_pcb_select_less)
  have "n_arp s \<noteq> []" using ok by (simp add: tcp_ok_def)
  then obtain u where "tcp_send_ack p s = Some u" "sent s u" by (rule tcp_send_ack_sent)
  then have ack: "P (tcp_send_ack p s)" using goes [OF goes_sent [OF ok]] by simp
  show ?thesis
  proof (cases "t_state (the_tcp s p) \<in> {TCP_CLOSED, TCP_LISTEN, TCP_SYN_SENT}")
    case True
    then show ?thesis using Some goes [OF tcp_refuse_goes [OF ok]] goes [OF tcp_listen_goes [OF ok p]] goes [OF tcp_syn_sent_goes [OF ok p]]
      by (auto simp: tcp_segment_arrives_def)
  next
    case False
    then have st: "t_state (the_tcp s p) \<noteq> TCP_CLOSED" "t_state (the_tcp s p) \<noteq> TCP_LISTEN" "t_state (the_tcp s p) \<noteq> TCP_SYN_SENT" by simp_all
    show ?thesis unfolding tcp_segment_arrives_def Some option.case Let_def
      using st other [OF Some p _ False] ack goes [OF goes_same [OF ok]] by simp
  qed
qed

lemma tcp_ack_text_takes:
  assumes ok: "tcp_ok s" and p: "p < length (n_tcp s)"
    and data: "unat len \<le> unat (t_rcv_wnd (the_tcp s p)) \<Longrightarrow> unat len \<le> length data"
    and m: "do { (go, s) \<leftarrow> tcp_ack_arrives p seg local foreign s;
            if \<not> go then Some s else tcp_text_arrives p seg data len s \<bind> tcp_fin_arrives p seg flags } = m"
  shows "(\<forall>s'. m = Some s' \<longrightarrow> tcp_takes s s') \<and>
    ((t_state (the_tcp s p) \<in> {TCP_SYN_RECEIVED, TCP_ESTABLISHED, TCP_FIN_WAIT1, TCP_FIN_WAIT2} \<longrightarrow>
      unat len \<le> unat (t_rcv_wnd (the_tcp s p))) \<longrightarrow> m \<noteq> None)"
proof -
  obtain go t where a: "tcp_ack_arrives p seg local foreign s = Some (go, t)"
    "if go then \<exists>y. ack_moves (t_state (the_tcp s p)) y \<and> y \<noteq> TCP_SYN_RECEIVED \<and> tcp_quiet p y s t else tcp_takes s t"
    using tcp_ack_arrives_done [OF ok p, of seg local foreign] unfolding tcp_ack_done_def by blast
  show ?thesis
  proof (cases go)
    case False
    then show ?thesis using a m by auto
  next
    case True
    then obtain y where y: "ack_moves (t_state (the_tcp s p)) y" "y \<noteq> TCP_SYN_RECEIVED" and q: "tcp_quiet p y s t" using a(2) by auto
    note tp = tcp_quiet_the [OF q p]
    have okt: "tcp_ok t" and pt: "p < length (n_tcp t)" using q tp p by (simp_all add: tcp_quiet_def)
    have m': "m = tcp_text_arrives p seg data len t \<bind> tcp_fin_arrives p seg flags" using m a(1) True by simp
    have res: "\<exists>s'. m = Some s' \<and> tcp_takes s s'" if fits: "takes_text (the_tcp t p) len \<longrightarrow> unat len \<le> unat (t_rcv_wnd (the_tcp t p))"
    proof -
      have f: "takes_text (the_tcp t p) len \<Longrightarrow> unat len \<le> unat (t_rcv_wnd (the_tcp t p))" using fits by blast
      have d: "takes_text (the_tcp t p) len \<Longrightarrow> unat len \<le> length data" using f data tp by auto
      obtain u z where u: "m = Some u" "tcp_ok u" "tcp_states u = (tcp_states t)[p := z]" "fin_moves (t_state (the_tcp t p)) z"
        unfolding m' by (rule tcp_text_fin_ok [OF okt pt f d]) blast+
      have "tcp_states u = (tcp_states s)[p := z]" using u(3) q by (simp add: tcp_quiet_def)
      moreover have "z \<in> tcp_moves (t_state (the_tcp s p))" using ack_fin_moves [OF y] u(4) tp by simp
      ultimately show ?thesis using u(1,2) p by (auto simp: tcp_takes_def nth_tcp_states intro: tcp_moved_update)
    qed
    have "takes_text (the_tcp t p) len \<longrightarrow> unat len \<le> unat (t_rcv_wnd (the_tcp t p))" if "m \<noteq> None"
      using that m' tcp_text_arrives_refuses [of p seg data len t] by (cases "tcp_text_arrives p seg data len t") auto
    moreover have "takes_text (the_tcp t p) len \<longrightarrow> unat len \<le> unat (t_rcv_wnd (the_tcp t p))"
      if "t_state (the_tcp s p) \<in> {TCP_SYN_RECEIVED, TCP_ESTABLISHED, TCP_FIN_WAIT1, TCP_FIN_WAIT2} \<longrightarrow>
        unat len \<le> unat (t_rcv_wnd (the_tcp s p))"
      using that tp y by (auto simp: takes_text_def ack_moves_def)
    ultimately show ?thesis using res by fastforce
  qed
qed

definition text_fits :: "u32 \<Rightarrow> 'a net_scheme \<Rightarrow> bool" where
  "text_fits len s \<longleftrightarrow> (\<forall>t \<in> set (n_tcp s). t_state t \<in> {TCP_SYN_RECEIVED, TCP_ESTABLISHED, TCP_FIN_WAIT1, TCP_FIN_WAIT2} \<longrightarrow>
     unat len \<le> unat (t_rcv_wnd t))"

lemma tcp_segment_arrives_takes:
  assumes ok: "tcp_ok s" and data: "unat len < 65536 \<Longrightarrow> unat len \<le> length data"
  shows "(\<forall>s'. tcp_segment_arrives seg flags data len local foreign s = Some s' \<longrightarrow> tcp_takes s s') \<and>
    (text_fits len s \<longrightarrow> tcp_segment_arrives seg flags data len local foreign s \<noteq> None)"
proof (rule tcp_segment_arrives_other [OF ok])
  fix p assume p: "p < length (n_tcp s)"
  have "unat len \<le> unat (t_rcv_wnd (the_tcp s p)) \<Longrightarrow> unat len \<le> length data"
    using data unat_less_len [of "t_rcv_wnd (the_tcp s p)"] by simp
  note m = tcp_ack_text_takes [OF ok p this refl, of seg local foreign flags]
  have "text_fits len s \<Longrightarrow> t_state (the_tcp s p) \<in> {TCP_SYN_RECEIVED, TCP_ESTABLISHED, TCP_FIN_WAIT1, TCP_FIN_WAIT2} \<longrightarrow>
      unat len \<le> unat (t_rcv_wnd (the_tcp s p))"
    using p by (simp add: text_fits_def the_tcp_def)
  with m show "(\<forall>s'. (do { (go, s) \<leftarrow> tcp_ack_arrives p seg local foreign s;
            if \<not> go then Some s else tcp_text_arrives p seg data len s \<bind> tcp_fin_arrives p seg flags }) = Some s' \<longrightarrow> tcp_takes s s') \<and>
    (text_fits len s \<longrightarrow> (do { (go, s) \<leftarrow> tcp_ack_arrives p seg local foreign s;
            if \<not> go then Some s else tcp_text_arrives p seg data len s \<bind> tcp_fin_arrives p seg flags }) \<noteq> None)" by blast
qed (auto simp: tcp_goes_def)

text \<open>The length of the text that \<^verbatim>\<open>tcp_input\<close> computes.\<close>

definition tcp_hlen :: "u8 list \<Rightarrow> u16" where
  "tcp_hlen data = push_bit 2 (ucast (drop_bit 4 (data ! 12)))"

definition tcp_text_len :: "u8 list \<Rightarrow> u32" where
  "tcp_text_len data = of_nat (length data) - ucast (tcp_hlen data)"

lemma unat_tcp_hlen: "unat (tcp_hlen data) \<le> 60"
proof -
  have "unat (drop_bit 4 (data ! 12)) \<le> 15"
    using unat_less_len [of "data ! 12"] by (simp add: drop_bit_eq_div unat_div)
  then show ?thesis by (simp add: tcp_hlen_def push_bit_eq_mult unat_word_ariths unat_ucast_up)
qed

lemma unat_tcp_text_len:
  assumes "length data < 65536"
  shows "unat (tcp_hlen data) \<le> length data \<Longrightarrow> unat (tcp_text_len data) = length data - unat (tcp_hlen data)"
    "unat (tcp_text_len data) < 65536 \<Longrightarrow> unat (tcp_text_len data) \<le> length (drop (unat (tcp_hlen data)) data)"
proof -
  have l: "unat (of_nat (length data) :: u32) = length data" using assms by (simp add: unat_of_nat)
  have h: "unat (ucast (tcp_hlen data) :: u32) = unat (tcp_hlen data)" by (simp add: unat_ucast_up)
  show a: "unat (tcp_hlen data) \<le> length data \<Longrightarrow> unat (tcp_text_len data) = length data - unat (tcp_hlen data)"
    unfolding tcp_text_len_def by (subst unat_sub) (simp_all add: word_le_nat_alt l h)
  have "unat (tcp_text_len data) = length data + 4294967296 - unat (tcp_hlen data)" if "\<not> unat (tcp_hlen data) \<le> length data"
    using that unfolding tcp_text_len_def unat_sub_if' l h by simp
  then show "unat (tcp_text_len data) < 65536 \<Longrightarrow> unat (tcp_text_len data) \<le> length (drop (unat (tcp_hlen data)) data)"
    using a unat_tcp_hlen [of data] by (cases "unat (tcp_hlen data) \<le> length data") auto
qed

lemma tcp_input_takes:
  assumes ok: "tcp_ok s" and "length data < 65536"
  shows "(\<forall>s'. tcp_input data src dst i s = Some s' \<longrightarrow> tcp_takes s s') \<and>
    (text_fits (tcp_text_len data) s \<longrightarrow> tcp_input data src dst i s \<noteq> None)"
  unfolding tcp_input_def Let_def
  using tcp_segment_arrives_takes [OF ok unat_tcp_text_len(2) [OF assms(2)]] tcp_takes_keeps [OF ok tcp_keeps_refl]
  by (simp add: tcp_hlen_def [symmetric] tcp_text_len_def [symmetric])

section \<open>The machine of control blocks\<close>

text \<open>The timer: every entry of every queue.\<close>

lemma tcp_ok_keeps: "tcp_ok s \<Longrightarrow> tcp_keeps s t \<Longrightarrow> tcp_ok t"
  by (simp add: tcp_keeps_def)

lemma tcp_emit_ok:
  assumes ok: "tcp_ok s" and p: "p < length (n_tcp s)" and j: "j < length (t_queue (the_tcp s p))"
  shows "\<exists>u. tcp_retransmit_queue_emit p j s = Some u \<and> tcp_ok u \<and> length (n_tcp u) = length (n_tcp s) \<and>
    length (t_queue (the_tcp u p)) = length (t_queue (the_tcp s p))"
proof -
  let ?t = "the_tcp s p" let ?e = "t_queue ?t ! j"
  have pok: "pcb_ok (length (n_tcp s)) ?t" using ok p by (simp add: tcp_ok_def the_tcp_def)
  then have "length (te_data ?e) \<le> 1982" using j by (auto simp: pcb_ok_def)
  from tcp_output_segment_ok [OF ok this] obtain r u where u: "tcp_output_segment (te_seq ?e) (t_rcv_nxt ?t) (te_flg ?e) (t_rcv_wnd ?t)
      (te_data ?e) (t_local ?t) (t_foreign ?t) s = Some (r, u)" "sent s u" by blast
  have n: "n_tcp u = n_tcp s" using u(2) by (simp add: sent_def)
  let ?q = "upd_at j (\<lambda>e. e\<lparr>te_last := gettimeofday s, te_rto := te_rto e * 2\<rparr>) (t_queue ?t)"
  have "\<forall>e \<in> set ?q. length (te_data e) \<le> 1982" by (rule ball_upd_at) (use pok in \<open>simp_all add: pcb_ok_def\<close>)
  then have "tcp_ok (map_tcp p (\<lambda>t. t\<lparr>t_queue := ?q\<rparr>) u)"
    using tcp_ok_keeps [OF ok sent_keeps [OF u(2)]] by (intro tcp_ok_map) (simp_all add: pcb_ok_def)
  moreover have "tcp_ok (tcp_wakeup p (map_tcp p (\<lambda>t. t\<lparr>t_state := TCP_CLOSED\<rparr>) s))"
    using tcp_ok_map [OF ok, of p "\<lambda>t. t\<lparr>t_state := TCP_CLOSED\<rparr>"] by (simp add: pcb_ok_def)
  moreover have "map_tcp p (\<lambda>t. t\<lparr>t_queue := upd_at j (\<lambda>e. e\<lparr>te_last := gettimeofday s, te_rto := te_rto e * 2\<rparr>) (t_queue t)\<rparr>) u =
      map_tcp p (\<lambda>t. t\<lparr>t_queue := ?q\<rparr>) u"
    using n by (simp add: map_tcp_def the_tcp_def upd_at_def)
  ultimately show ?thesis using u(1) n p ok unfolding tcp_retransmit_queue_emit_def Let_def
    by (simp add: the_tcp_map tcp_wakeup_def)
qed

lemma tcp_emit_all_ok:
  assumes "tcp_ok s" "p < length (n_tcp s)" "\<forall>j \<in> set js. j < length (t_queue (the_tcp s p))"
  shows "\<exists>u. tcp_emit_all p js s = Some u \<and> tcp_ok u \<and> length (n_tcp u) = length (n_tcp s)"
  using assms
proof (induction js arbitrary: s)
  case (Cons j js)
  then obtain u where u: "tcp_retransmit_queue_emit p j s = Some u" "tcp_ok u" "length (n_tcp u) = length (n_tcp s)"
    "length (t_queue (the_tcp u p)) = length (t_queue (the_tcp s p))" using tcp_emit_ok [of s p j] by auto
  then show ?case using Cons.IH [of u] Cons.prems by auto
qed simp

lemma tcp_timer_from_ok:
  assumes "tcp_ok s" "\<forall>p \<in> set ps. p < length (n_tcp s)"
  shows "\<exists>u. tcp_timer_from ps s = Some u \<and> tcp_ok u \<and> length (n_tcp u) = length (n_tcp s)"
  using assms
proof (induction ps arbitrary: s)
  case (Cons p ps)
  show ?case
  proof (cases "t_state (the_tcp s p) = TCP_FREE")
    case True
    then show ?thesis using Cons by simp
  next
    case False
    obtain u where "tcp_emit_all p [0..<length (t_queue (the_tcp s p))] s = Some u" "tcp_ok u" "length (n_tcp u) = length (n_tcp s)"
      using tcp_emit_all_ok [OF Cons.prems(1), of p "[0..<length (t_queue (the_tcp s p))]"] Cons.prems(2) by auto
    then show ?thesis using False Cons.IH [of u] Cons.prems(2) by auto
  qed
qed simp

lemma tcp_timer_ok: "tcp_ok s \<Longrightarrow> \<exists>u. tcp_timer s = Some u \<and> tcp_ok u \<and> length (n_tcp u) = length (n_tcp s)"
  unfolding tcp_timer_def by (rule tcp_timer_from_ok) simp_all

lemma tcp_takes_length: "tcp_takes s s' \<Longrightarrow> length (n_tcp s') = length (n_tcp s)"
  using list_all2_lengthD [of _ "tcp_states s" "tcp_states s'"] by (auto simp: tcp_takes_def tcp_moved_def)

lemma tcp_input_ok:
  assumes "tcp_ok s" "length data < 65536" "tcp_input data src dst i s = Some s'"
  shows "tcp_ok s' \<and> length (n_tcp s') = length (n_tcp s)"
proof -
  have "tcp_takes s s'" using tcp_input_takes [OF assms(1,2), of src dst i] assms(3) by blast
  then show ?thesis using tcp_takes_length by (auto simp: tcp_takes_def)
qed

lemma tcp_send_fin_ok:
  assumes "tcp_ok s"
  shows "\<exists>u. tcp_send_fin p st s = Some u \<and> tcp_ok u \<and> length (n_tcp u) = length (n_tcp s)"
proof -
  obtain r v where v: "tcp_output p (TCP_FLG_ACK OR TCP_FLG_FIN) [] s = Some (r, v)" "tcp_keeps s v"
    by (rule tcp_output_ok [OF assms, of "[]"]) auto
  let ?v = "map_tcp p (\<lambda>t. t\<lparr>t_state := st, t_snd_nxt := t_snd_nxt t + 1\<rparr>) v"
  have "tcp_ok ?v" by (rule tcp_ok_map [OF tcp_ok_keeps [OF assms v(2)]]) (simp add: pcb_ok_def)
  moreover have "length (n_tcp v) = length (n_tcp s)" using v(2) length_tcp_states by (metis tcp_keeps_def)
  ultimately show ?thesis using v(1) by (simp add: tcp_send_fin_def)
qed

lemma tcp_pcb_get_less: "tcp_pcb_get id' s = Some p \<Longrightarrow> p < length (n_tcp s)"
  by (auto simp: tcp_pcb_get_def split: if_splits)

lemma may_free_length: "may_free xs ys \<Longrightarrow> length ys = length xs"
  unfolding may_free_def by (simp add: list_all2_lengthD)

lemma tcp_close_ok:
  assumes ok: "tcp_ok s"
  shows "\<exists>r u. tcp_close id' s = Some (r, u) \<and> tcp_ok u \<and> length (n_tcp u) = length (n_tcp s)"
proof (cases "tcp_pcb_get id' s")
  case (Some p)
  have p: "p < length (n_tcp s)" using Some by (rule tcp_pcb_get_less)
  let ?c = "map_tcp p (\<lambda>t. t\<lparr>t_state := TCP_CLOSED\<rparr>) s"
  have "tcp_ok ?c" using ok by (rule tcp_ok_map) (simp add: pcb_ok_def)
  then obtain u where u: "tcp_pcb_release p ?c = Some u" "tcp_ok u" "may_free (tcp_states ?c) (tcp_states u)"
    using tcp_pcb_release_ok [of ?c p] p by auto
  then have "length (n_tcp u) = length (n_tcp s)" using may_free_length [OF u(3)] by simp
  then show ?thesis using Some u tcp_send_fin_ok [OF ok, of p TCP_FIN_WAIT1] tcp_send_fin_ok [OF ok, of p TCP_LAST_ACK] ok
    by (cases "t_state (the_tcp s p)") (auto simp: tcp_close_def)
qed (use ok in \<open>simp add: tcp_close_def\<close>)

text \<open>
  Segments, ticks of the timer, interruptions and the commands of the user that do not sleep,
  in any order, from a table of free blocks.
\<close>

definition tcp_start :: "'a net_scheme \<Rightarrow> bool" where
  "tcp_start s \<longleftrightarrow> n_tcp s = replicate TCP_PCB_SIZE zero_pcb \<and> length (n_arp s) = ARP_CACHE_SIZE"

inductive tcp_run :: "'a net_scheme \<Rightarrow> 'a net_scheme \<Rightarrow> bool" where
  segment: "length data < 65536 \<Longrightarrow> tcp_input data src dst i s = Some s' \<Longrightarrow> tcp_run s s'"
| tick: "tcp_timer (s\<lparr>n_clock := now\<rparr>) = Some s' \<Longrightarrow> tcp_run s s'"
| interruption: "tcp_run s (tcp_event_handler s)"
| opens: "tcp_run s (snd (tcp_open s))"
| closes: "tcp_close id' s = Some (r, s') \<Longrightarrow> tcp_run s s'"
| binds: "tcp_run s (snd (tcp_bind id' local s))"
| listens: "tcp_run s (snd (tcp_listen id' s))"

inductive_cases tcp_runE: "tcp_run s s'"

definition tcp_typed :: "'a net_scheme \<Rightarrow> bool" where
  "tcp_typed s \<longleftrightarrow> tcp_ok s \<and> length (n_tcp s) = TCP_PCB_SIZE"

lemma tcp_typed_map:
  "tcp_typed s \<Longrightarrow> (\<And>n t. pcb_ok n t \<Longrightarrow> pcb_ok n (f t)) \<Longrightarrow> tcp_typed (map_tcp p f s)"
  using tcp_ok_map [of s p f] by (simp add: tcp_typed_def)

lemma tcp_run_typed:
  assumes "tcp_typed s" "tcp_run s s'"
  shows "tcp_typed s'"
  using assms(2)
proof cases
  case (segment data src dst i)
  then show ?thesis using tcp_input_ok [of s] assms(1) by (auto simp: tcp_typed_def)
next
  case (tick now)
  have "tcp_ok (s\<lparr>n_clock := now\<rparr>)" using assms(1) by (auto simp: tcp_typed_def tcp_ok_def)
  then show ?thesis using tcp_timer_ok [of "s\<lparr>n_clock := now\<rparr>"] tick assms(1) by (auto simp: tcp_typed_def)
next
  case interruption
  have "pcb_ok n (t\<lparr>t_ctx := c\<rparr>) = pcb_ok n t" for n t c
    by (simp add: pcb_ok_def)
  then show ?thesis using assms(1) interruption by (auto simp: tcp_typed_def tcp_ok_def tcp_event_handler_def)
next
  case opens
  then show ?thesis using assms(1)
    by (auto simp: tcp_open_def tcp_pcb_alloc_def pcb_ok_def split: option.split intro!: tcp_typed_map)
next
  case (closes id' r)
  then show ?thesis using tcp_close_ok [of s id'] assms(1) by (auto simp: tcp_typed_def)
next
  case (binds id' local)
  then show ?thesis using assms(1) by (auto simp: tcp_bind_def pcb_ok_def split: option.split intro!: tcp_typed_map)
next
  case (listens id')
  then show ?thesis using assms(1) by (auto simp: tcp_listen_def pcb_ok_def split: option.split intro!: tcp_typed_map)
qed

lemma tcp_start_typed: "tcp_start s \<Longrightarrow> tcp_typed s"
  using zero_pcb_ok by (auto simp: tcp_start_def tcp_typed_def tcp_ok_def ARP_CACHE_SIZE_def)

interpretation tcp: safe_machine tcp_start tcp_run tcp_typed
  by unfold_locales (auto intro: tcp_start_typed tcp_run_typed)

section \<open>The promises of TCP\<close>


definition fresh_host :: net where
  "fresh_host = demo_host\<lparr>n_tcp := replicate TCP_PCB_SIZE zero_pcb,
     n_arp := replicate ARP_CACHE_SIZE \<lparr>arp_state = ARP_FREE, arp_pa = 0, arp_ha = replicate 6 0, arp_timestamp = timerclear\<rparr>\<rparr>"

lemma fresh_host_start: "tcp_start fresh_host"
  by (simp add: tcp_start_def fresh_host_def)

lemma fresh_host_opened: "reach tcp_start tcp_run (snd (tcp_open fresh_host))"
  by (rule reach_step, rule reach_init, rule fresh_host_start, rule opens)




text \<open>
  Property C34: releasing a control block ends. For every table and every backlog, however the
  connections in it point to each other, the recursion of \<^verbatim>\<open>tcp_pcb_release\<close> over the backlogs
  returns, and each block keeps its state or is free.
\<close>

theorem tcp_pcb_release_terminates:
  assumes "n_arp s \<noteq> []" "\<forall>t \<in> set (n_tcp s). pcb_ok (length (n_tcp s)) t" "p < length (n_tcp s)"
  shows "\<exists>s'. tcp_pcb_release p s = Some s' \<and> list_all2 (\<lambda>x y. y = x \<or> y = TCP_FREE) (map t_state (n_tcp s)) (map t_state (n_tcp s'))"
proof -
  have "tcp_ok s" using assms(1,2) by (simp add: tcp_ok_def)
  then obtain s' where "tcp_pcb_release p s = Some s'" "may_free (tcp_states s) (tcp_states s')"
    using tcp_pcb_release_ok assms(3) by blast
  then show ?thesis by (auto simp: may_free_def tcp_states_def)
qed

text \<open>Two listeners whose backlogs point to each other, and one that points to itself.\<close>

definition tangled_host :: net where
  "tangled_host = fresh_host\<lparr>n_tcp := [zero_pcb\<lparr>t_state := TCP_LISTEN, t_backlog := [1, 2]\<rparr>,
     zero_pcb\<lparr>t_state := TCP_LISTEN, t_backlog := [0]\<rparr>, zero_pcb\<lparr>t_state := TCP_LISTEN, t_backlog := [2]\<rparr>]\<rparr>"

theorem tcp_pcb_release_terminates_witness:
  "\<exists>s'. tcp_pcb_release 0 tangled_host = Some s' \<and>
     list_all2 (\<lambda>x y. y = x \<or> y = TCP_FREE) [TCP_LISTEN, TCP_LISTEN, TCP_LISTEN] (map t_state (n_tcp s'))"
proof -
  have "length (t_buf zero_pcb) = TCP_BUF_SIZE" "t_queue zero_pcb = []" "t_parent zero_pcb = None" by (simp_all add: zero_pcb_def)
  then have "\<forall>t \<in> set (n_tcp tangled_host). pcb_ok (length (n_tcp tangled_host)) t"
    by (simp add: tangled_host_def pcb_ok_def)
  moreover have "n_arp tangled_host \<noteq> []" by (simp add: tangled_host_def fresh_host_def ARP_CACHE_SIZE_def)
  moreover have "0 < length (n_tcp tangled_host)" "map t_state (n_tcp tangled_host) = [TCP_LISTEN, TCP_LISTEN, TCP_LISTEN]"
    by (simp_all add: tangled_host_def)
  ultimately show ?thesis using tcp_pcb_release_terminates [of tangled_host 0] by simp
qed

section \<open>The stream\<close>

text \<open>What \<^verbatim>\<open>tcp_input\<close> makes of a segment that \<^verbatim>\<open>tcp_output_segment\<close> has built.\<close>

lemma tcp_input_segment:
  assumes len: "length data \<le> 65515" and h: "h = tcp_segment seq' ack flg wnd data local foreign"
    and unicast: "ep_addr local \<notin> {IP_ADDR_BROADCAST, if_broadcast (the_if s i)}" "ep_addr foreign \<notin> {IP_ADDR_BROADCAST, if_broadcast (the_if s i)}"
  shows "tcp_input h (ep_addr local) (ep_addr foreign) i s = tcp_segment_arrives
     \<lparr>seg_seq = seq', seg_ack = ack, seg_len = of_nat (length data) + (if TCP_FLG_ISSET flg TCP_FLG_SYN then 1 else 0) +
        (if TCP_FLG_ISSET flg TCP_FLG_FIN then 1 else 0), seg_wnd = wnd\<rparr> flg data (of_nat (length data)) foreign local s"
proof -
  note f = tcp_segment_fields [OF len h]
  have hl: "tcp_hlen h = 20" unfolding tcp_hlen_def f(6) by (simp add: push_bit_eq_mult drop_bit_eq_div)
  have "\<not> length h < TCP_HDR_SIZE" using f(1) by (simp add: TCP_HDR_SIZE_def)
  moreover have "\<not> cksum16 h (of_nat (length h)) (ucast (pseudo_sum IP_PROTOCOL_TCP (ep_addr local) (ep_addr foreign) (of_nat (length h)))) \<noteq> 0"
    unfolding f(1) f(10) by simp
  moreover have "\<not> (ep_addr local = IP_ADDR_BROADCAST \<or> ep_addr local = if_broadcast (the_if s i) \<or>
      ep_addr foreign = IP_ADDR_BROADCAST \<or> ep_addr foreign = if_broadcast (the_if s i))" using unicast by blast
  moreover have "tcp_seg_info h 20 = \<lparr>seg_seq = seq', seg_ack = ack, seg_len = of_nat (length data) +
        (if TCP_FLG_ISSET flg TCP_FLG_SYN then 1 else 0) + (if TCP_FLG_ISSET flg TCP_FLG_FIN then 1 else 0), seg_wnd = wnd\<rparr>"
    unfolding tcp_seg_info_def f(1,4,5,7,8) ntoh_hton by simp
  moreover have "of_nat (length h) - ucast (20 :: u16) = (of_nat (length data) :: u32)" unfolding f(1) by simp
  moreover have "drop (unat (20 :: u16)) h = data" using f(9) by simp
  moreover have "\<lparr>ep_addr = ep_addr foreign, ep_port = ep_port foreign\<rparr> = foreign" "\<lparr>ep_addr = ep_addr local, ep_port = ep_port local\<rparr> = local" by simp_all
  ultimately show ?thesis
    unfolding tcp_input_def Let_def tcp_hlen_def [symmetric] hl by (simp only: if_False f(2,3,7))
qed

lemma tcp_ack_connected_goes:
  assumes "\<not> t_snd_nxt (the_tcp s p) < seg_ack seg"
  shows "\<exists>u. tcp_ack_connected p seg s = Some (True, u)"
  using assms unfolding tcp_ack_connected_def Let_def by simp

lemma tcp_acceptable_next:
  assumes "seg_seq seg = t_rcv_nxt t" "t_rcv_wnd t \<noteq> 0" "unat (t_rcv_nxt t) + unat (t_rcv_wnd t) < 2 ^ 32"
  shows "tcp_acceptable t seg"
proof -
  have w: "unat (ucast (t_rcv_wnd t) :: u32) = unat (t_rcv_wnd t)" by (simp add: unat_ucast_up)
  have "0 < unat (t_rcv_wnd t)" using assms(2) by (simp add: unat_gt_0)
  then have "t_rcv_nxt t < t_rcv_nxt t + ucast (t_rcv_wnd t)"
    using assms(3) by (simp add: word_less_nat_alt unat_word_ariths w)
  then show ?thesis using assms by (simp add: tcp_acceptable_def tcp_in_window_def)
qed

text \<open>The segments of the stream: in order, from the peer of an established connection.\<close>

definition next_segment :: "nat \<Rightarrow> nat \<Rightarrow> endpoint \<Rightarrow> endpoint \<Rightarrow> u32 \<Rightarrow> u32 \<Rightarrow> 'a net_scheme \<Rightarrow> bool" where
  "next_segment p i src dst seq' ack s \<longleftrightarrow> tcp_pcb_select dst (Some src) s = Some p \<and>
     ep_addr src \<notin> {IP_ADDR_BROADCAST, if_broadcast (the_if s i)} \<and> ep_addr dst \<notin> {IP_ADDR_BROADCAST, if_broadcast (the_if s i)} \<and>
     t_state (the_tcp s p) = TCP_ESTABLISHED \<and> seq' = t_rcv_nxt (the_tcp s p) \<and> ack \<le> t_snd_nxt (the_tcp s p) \<and>
     t_rcv_wnd (the_tcp s p) \<noteq> 0 \<and> unat (t_rcv_nxt (the_tcp s p)) + unat (t_rcv_wnd (the_tcp s p)) < 2 ^ 32"

lemma next_segment_text:
  assumes ok: "tcp_ok s" and seg: "next_segment p i src dst seq' ack s" and len: "length data \<le> 65515"
  obtains u where "tcp_quiet p TCP_ESTABLISHED s u" "p < length (n_tcp u)"
    "tcp_input (tcp_segment seq' ack TCP_FLG_ACK wnd data src dst) (ep_addr src) (ep_addr dst) i s =
      tcp_text_arrives p \<lparr>seg_seq = seq', seg_ack = ack, seg_len = of_nat (length data), seg_wnd = wnd\<rparr> data (of_nat (length data)) u"
proof -
  let ?seg = "\<lparr>seg_seq = seq', seg_ack = ack, seg_len = of_nat (length data), seg_wnd = wnd\<rparr>"
  have flags: "TCP_FLG_ISSET TCP_FLG_ACK TCP_FLG_ACK" "\<not> TCP_FLG_ISSET TCP_FLG_ACK TCP_FLG_SYN" "\<not> TCP_FLG_ISSET TCP_FLG_ACK TCP_FLG_FIN"
    by (simp_all add: TCP_FLG_ISSET_def TCP_FLG_ACK_def TCP_FLG_SYN_def TCP_FLG_FIN_def)
  have p: "p < length (n_tcp s)" using seg by (auto simp: next_segment_def dest: tcp_pcb_select_less)
  have st: "t_state (the_tcp s p) = TCP_ESTABLISHED" using seg by (simp add: next_segment_def)
  have acc: "tcp_acceptable (the_tcp s p) ?seg" by (rule tcp_acceptable_next) (use seg in \<open>simp_all add: next_segment_def\<close>)
  obtain u where u: "tcp_ack_connected p ?seg s = Some (True, u)"
    using tcp_ack_connected_goes [of s p ?seg] seg by (auto simp: next_segment_def not_less)
  have q: "tcp_quiet p TCP_ESTABLISHED s s" using tcp_quiet_refl [OF ok p] st by simp
  have qu: "tcp_quiet p TCP_ESTABLISHED s u"
    using tcp_ack_connected_acked [OF q p, of ?seg] u by (auto simp: tcp_acked_def)
  have fin: "m \<bind> tcp_fin_arrives p sg TCP_FLG_ACK = m" for m :: "'a net_scheme option" and sg
    using flags by (cases m) (simp_all add: tcp_fin_arrives_def)
  have "tcp_input (tcp_segment seq' ack TCP_FLG_ACK wnd data src dst) (ep_addr src) (ep_addr dst) i s =
      tcp_segment_arrives ?seg TCP_FLG_ACK data (of_nat (length data)) dst src s"
    using tcp_input_segment [OF len refl, of src s i dst seq' ack TCP_FLG_ACK wnd] seg flags by (auto simp: next_segment_def)
  also have "\<dots> = tcp_text_arrives p ?seg data (of_nat (length data)) u"
    using seg acc flags(1) u st
    by (simp add: fin tcp_segment_arrives_def next_segment_def tcp_ack_arrives_def Let_def)
  finally show ?thesis using that qu tcp_quiet_the [OF qu p] p by simp
qed


text \<open>A host with one established connection, whose next byte is number 5 and whose window is \<open>w\<close>.\<close>

definition peer :: endpoint where "peer = \<lparr>ep_addr = 0x0202000a, ep_port = 7\<rparr>"
definition self :: endpoint where "self = \<lparr>ep_addr = 0x0f02000a, ep_port = 80\<rparr>"

definition talking_host :: "u16 \<Rightarrow> net" where
  "talking_host w = fresh_host\<lparr>n_tcp := [zero_pcb\<lparr>t_state := TCP_ESTABLISHED, t_local := self, t_foreign := peer,
     t_snd_nxt := 10, t_snd_una := 10, t_rcv_nxt := 5, t_rcv_wnd := w\<rparr>]\<rparr>"

lemma talking_host_ok: "tcp_ok (talking_host w)"
proof -
  have "pcb_ok (Suc 0) (zero_pcb\<lparr>t_state := TCP_ESTABLISHED, t_local := self, t_foreign := peer,
     t_snd_nxt := 10, t_snd_una := 10, t_rcv_nxt := 5, t_rcv_wnd := w\<rparr>)"
    using zero_pcb_ok [of "Suc 0"] by (simp add: pcb_ok_def)
  then show ?thesis by (simp add: tcp_ok_def talking_host_def fresh_host_def ARP_CACHE_SIZE_def)
qed

lemma talking_host_next: "w \<noteq> 0 \<Longrightarrow> next_segment 0 0 peer self 5 10 (talking_host w)"
proof -
  have "unat w < 65536" using unat_less_len [of w] by simp
  then show "w \<noteq> 0 \<Longrightarrow> next_segment 0 0 peer self 5 10 (talking_host w)"
    by (simp add: next_segment_def talking_host_def fresh_host_def demo_host_def the_if_def the_tcp_def tcp_pcb_select_def
        peer_def self_def IP_ADDR_BROADCAST_def IP_ADDR_ANY_def)
qed

lemma talking_host_window: "t_rcv_wnd (the_tcp (talking_host w) 0) = w"
  by (simp add: talking_host_def the_tcp_def)


text \<open>
  Property C28: a segment with more text than the window has room for, though the rest of it is in
  order, is copied past the end of the receive buffer: the code checks that the segment
  overlaps the window, but never cuts it to the window.
\<close>

theorem tcp_segment_overruns_buffer:
  assumes "tcp_ok s" "next_segment p i src dst seq' ack s" "unat (t_rcv_wnd (the_tcp s p)) < length data" "length data \<le> 65515"
  shows "tcp_input (tcp_segment seq' ack TCP_FLG_ACK wnd data src dst) (ep_addr src) (ep_addr dst) i s = None"
proof -
  obtain u where u: "tcp_quiet p TCP_ESTABLISHED s u" "p < length (n_tcp u)"
    and i: "tcp_input (tcp_segment seq' ack TCP_FLG_ACK wnd data src dst) (ep_addr src) (ep_addr dst) i s =
      tcp_text_arrives p \<lparr>seg_seq = seq', seg_ack = ack, seg_len = of_nat (length data), seg_wnd = wnd\<rparr> data (of_nat (length data)) u"
    using next_segment_text [OF assms(1,2,4)] .
  have p: "p < length (n_tcp s)" using assms(2) by (auto simp: next_segment_def dest: tcp_pcb_select_less)
  note the = tcp_quiet_the [OF u(1) p]
  have n: "unat (of_nat (length data) :: u32) = length data" using assms(4) by (simp add: unat_of_nat)
  then have "of_nat (length data) \<noteq> (0 :: u32)" using assms(3) by (auto simp flip: unat_eq_zero)
  then show ?thesis unfolding i using the n assms(3) by (simp add: tcp_text_arrives_def Let_def)
qed

theorem tcp_segment_overruns_buffer_witness:
  "tcp_input (tcp_segment 5 10 TCP_FLG_ACK 100 [104, 105, 33] peer self) 0x0202000a 0x0f02000a 0 (talking_host 2) = None"
  using tcp_segment_overruns_buffer [OF talking_host_ok talking_host_next, of 2 "[104, 105, 33]" 100]
  by (simp add: talking_host_window peer_def self_def)

end
