(* ===== verification/TrapProps.thy ===== *)
theory TrapProps
  imports Trap DiskProps TcpProps
begin

text \<open>
  What traps keep: the state in which the hart goes to user space, the result of a system call as
  the program sees it, and that an interrupt of the kernel is invisible to the kernel.
\<close>

section \<open>Returning to user space\<close>

text \<open>
  The hart and the trap frame of the current thread are ready for user mode: the previous mode is
  user, with interrupts on; the program goes on at its saved counter, in the address space of its
  process; and the next trap enters \<^verbatim>\<open>usertrap\<close> on the kernel stack of the thread.
\<close>

definition ready_for_user :: "'b trap_env_scheme \<Rightarrow> u64 \<Rightarrow> u64 \<Rightarrow> u64 \<Rightarrow> 'a machine_scheme \<Rightarrow> bool" where
  "ready_for_user E fn va satp m \<longleftrightarrow> (case current (m_kern m) of None \<Rightarrow> False | Some t \<Rightarrow>
     (let th = the_thread (m_kern m) t; tf = th_trapframe th in
      h_sstatus m AND SSTATUS_SPP = 0 \<and> h_sstatus m AND SSTATUS_SPIE \<noteq> 0 \<and>
      h_sepc m = tf Epc \<and> h_stvec m = (TRAMPOLINE + te_uservec E) AND NOT 3 \<and>
      tf Kernel_satp = h_satp m \<and> tf Kernel_sp = th_kstack th + KSTACK_SIZE \<and> tf Kernel_trap = te_usertrap E \<and>
      fn = TRAMPOLINE + te_userret E \<and> va = TRAPFRAME - word_of_int (th_tid th) * PAGE_SIZE \<and>
      satp = MAKE_SATP (p_pagetable (the_proc (m_kern m) (fst t)))))"

definition thread_ok :: "task \<Rightarrow> 'a kern_scheme \<Rightarrow> bool" where
  "thread_ok t k \<longleftrightarrow> fst t < length (pool k) \<and> snd t < length (p_threads (the_proc k (fst t)))"

lemma the_thread_map: "thread_ok t k \<Longrightarrow> the_thread (map_thread t f k) t = f (the_thread k t)"
  by (simp add: thread_ok_def the_thread_map_thread)

lemma sstatus_user:
  "(x AND NOT SSTATUS_SPP OR SSTATUS_SPIE) AND SSTATUS_SPP = 0"
  "(x AND NOT SSTATUS_SPP OR SSTATUS_SPIE) AND SSTATUS_SPIE \<noteq> 0"
proof -
  have off: "SSTATUS_SPIE AND SSTATUS_SPP = 0" "SSTATUS_SPIE \<noteq> 0" by (simp_all add: SSTATUS_SPP_def SSTATUS_SPIE_def)
  show "(x AND NOT SSTATUS_SPP OR SSTATUS_SPIE) AND SSTATUS_SPP = 0"
    using off(1) by (simp add: bit.conj_disj_distrib2 and.assoc)
  have "bit (x AND NOT SSTATUS_SPP OR SSTATUS_SPIE) 5" by (simp add: SSTATUS_SPP_def SSTATUS_SPIE_def bit_simps)
  moreover have "bit SSTATUS_SPIE 5" by (simp add: SSTATUS_SPIE_def bit_simps)
  ultimately have "bit ((x AND NOT SSTATUS_SPP OR SSTATUS_SPIE) AND SSTATUS_SPIE) 5" by (simp add: bit_and_iff)
  then show "(x AND NOT SSTATUS_SPP OR SSTATUS_SPIE) AND SSTATUS_SPIE \<noteq> 0" by (metis bit_0_eq bot_apply bot_boolE)
qed

lemma the_proc_page: "fst t < length (pool k) \<Longrightarrow> p_pagetable (the_proc (map_thread t f k) p) = p_pagetable (the_proc k p)"
  by (simp add: the_proc_map_thread)

lemma mem_map_thread [simp]: "mem (map_thread t f k) = mem k"
  by (simp add: map_thread_def)

lemma thread_ok_map_same: "thread_ok t (map_thread t f k) \<longleftrightarrow> thread_ok t k"
  by (cases "fst t < length (pool k)") (auto simp: thread_ok_def the_proc_map_thread)

lemma usertrapret_ready:
  assumes "usertrapret E m = Some (r, m')"
    and "current (m_kern m) = Some t \<Longrightarrow> thread_ok t (m_kern m')" "current (m_kern m') = Some t"
  shows "\<exists>fn va satp. r = To_user fn va satp \<and> ready_for_user E fn va satp m'"
proof -
  have t: "current (m_kern m) = Some t" using assms(1,3) by (auto simp: usertrapret_def Let_def set_usertrap_def split: option.splits)
  then have ok: "thread_ok t (m_kern m)"
    using assms(1) assms(2) by (auto simp: usertrapret_def Let_def set_usertrap_def thread_ok_map_same)
  then have "fst t < length (pool (m_kern m))" by (simp add: thread_ok_def)
  then show ?thesis
    using assms(1) t sstatus_user
    by (auto simp: usertrapret_def Let_def ready_for_user_def set_usertrap_def the_thread_map [OF ok] the_proc_page
      get_thread_trapframe_va_def TRAP_PAGE_SIZE_def)
qed

lemma after_call_user: "after_call E out m = Some (To_user fn va satp, m') \<Longrightarrow> usertrapret E m = Some (To_user fn va satp, m')"
  by (cases out) (auto simp: after_call_def)

lemma usertrap_user:
  assumes "usertrap E m = Some (To_user fn va satp, m')"
  shows "\<exists>n. usertrapret E n = Some (To_user fn va satp, m')"
  using assms unfolding usertrap_def Let_def
  by (auto simp: bind_eq_Some_conv dest!: after_call_user split: option.splits if_splits intr_end.splits)

lemma resume_user: "resume_trap E q m = Some (To_user fn va satp, m') \<Longrightarrow> \<exists>n. usertrapret E n = Some (To_user fn va satp, m')"
  by (cases q) (auto simp: resume_trap_def bind_eq_Some_conv dest!: after_call_user)

text \<open>
  Property C7: whatever the trap was, an interrupt, a system call, or one that gave the CPU to other
  threads and goes on now, it ends in user space only in a state fit for it: previous mode user,
  interrupts on, the counter, the address space and the trap frame those of the current thread, and
  the trap vector, the kernel stack and the entry point set for its next trap.
\<close>

theorem usertrap_ready_for_user:
  assumes "usertrap E m = Some (To_user fn va satp, m') \<or> resume_trap E q m = Some (To_user fn va satp, m')"
    and "current (m_kern m') = Some t" "thread_ok t (m_kern m')"
  shows "ready_for_user E fn va satp m'"
proof -
  obtain n where n: "usertrapret E n = Some (To_user fn va satp, m')"
    using assms(1) usertrap_user resume_user by blast
  show ?thesis using usertrapret_ready [OF n assms(3,2)] by auto
qed

section \<open>System calls as the program sees them\<close>

lemma usertrap_done:
  assumes "current (m_kern m) = Some t" "h_sstatus m AND SSTATUS_SPP = 0" "h_scause m = UserEnvCall"
    and "k = map_thread t (\<lambda>x. x\<lparr>th_trapframe := (th_trapframe x)(Epc := th_trapframe x Epc + 4)\<rparr>) (m_kern m)"
    and "r = th_trapframe (the_thread k t)" "n = to_int (r A7)"
    and "dispatch (E\<lparr>env_cycle := h_time m\<rparr>) n r (count_call n k) = Some (Done v, k')"
    and "current k' = Some t" "thread_ok t k'"
  shows "\<exists>fn va satp m'. usertrap E m = Some (To_user fn va satp, m') \<and>
    h_sepc m' = th_trapframe (the_thread k' t) Epc \<and> mem (m_kern m') = mem k' \<and>
    (\<forall>g. th_trapframe (the_thread (m_kern m') t) g =
      (if g = A0 then word_of_int (wrap32 v) else if g = Kernel_satp then h_satp m
       else if g = Kernel_sp then th_kstack (the_thread k' t) + KSTACK_SIZE
       else if g = Kernel_trap then te_usertrap E else if g = Kernel_hartid then h_tp m
       else th_trapframe (the_thread k' t) g))"
proof -
  have k: "current k = Some t" using assms(1,4) by simp
  have "syscall (E\<lparr>env_cycle := h_time m\<rparr>) k = Some (Done v, store_ret t (Done v) k')"
    using k assms(5-7) by (simp add: syscall_def)
  moreover have "thread_ok t (store_ret t (Done v) k')" using assms(9) by (simp add: store_ret_def thread_ok_map_same)
  moreover have "current (store_ret t (Done v) k') = Some t" using assms(8) by (simp add: store_ret_def)
  ultimately show ?thesis
    using assms(1-4) the_thread_map [OF assms(9)] mem_map_thread
    by (simp add: usertrap_def set_kerneltrap_def get_cycle_def UserEnvCall_def Interrupt_bit_def after_call_def
      usertrapret_def Let_def set_usertrap_def the_thread_map store_ret_def)
qed

text \<open>
  Property C13: a system call whose handler returns ends in user mode with the result in \<^verbatim>\<open>a0\<close>. The
  handler ran with the counter of the program already moved behind the \<^verbatim>\<open>ecall\<close>, and the call
  counted; of what it left, only \<^verbatim>\<open>a0\<close> and the words of the trap frame the kernel owns are changed.
\<close>

theorem usertrap_syscall_returns:
  assumes "current (m_kern m) = Some t" "h_sstatus m AND SSTATUS_SPP = 0" "h_scause m = UserEnvCall"
    and "k = map_thread t (\<lambda>x. x\<lparr>th_trapframe := (th_trapframe x)(Epc := th_trapframe x Epc + 4)\<rparr>) (m_kern m)"
    and "r = th_trapframe (the_thread k t)" "n = to_int (r A7)"
    and "dispatch (E\<lparr>env_cycle := h_time m\<rparr>) n r (count_call n k) = Some (Done v, k')"
    and "current k' = Some t" "thread_ok t k'"
  shows "\<exists>fn va satp m'. usertrap E m = Some (To_user fn va satp, m') \<and>
    h_sepc m' = th_trapframe (the_thread k' t) Epc \<and> mem (m_kern m') = mem k' \<and>
    (\<forall>g. th_trapframe (the_thread (m_kern m') t) g =
      (if g = A0 then word_of_int (wrap32 v) else if g = Kernel_satp then h_satp m
       else if g = Kernel_sp then th_kstack (the_thread k' t) + KSTACK_SIZE
       else if g = Kernel_trap then te_usertrap E else if g = Kernel_hartid then h_tp m
       else th_trapframe (the_thread k' t) g))"
  by (rule usertrap_done [OF assms])

text \<open>The numbers of the calls that \<^verbatim>\<open>syscall\<close> has a case for.\<close>

definition syscall_numbers :: "int list" where
  "syscall_numbers = [SYS_write, SYS_read, SYS_openat, SYS_close, SYS_exit, SYS_sched_yield, SYS_gettimeofday,
     SYS_getpid, SYS_getppid, SYS_clone, SYS_execve, SYS_wait4, SYS_pipe2, SYS_thread_create, SYS_gettid, SYS_waittid,
     SYS_mutex_create, SYS_mutex_lock, SYS_mutex_unlock, SYS_semaphore_create, SYS_semaphore_up, SYS_semaphore_down,
     SYS_condvar_create, SYS_condvar_signal, SYS_condvar_wait, SYS_enable_deadlock_detect, SYS_trace, SYS_mmap,
     SYS_munmap, SYS_spawn, SYS_setpriority, SYS_linkat, SYS_unlinkat, SYS_fstat, SYS_npc_register,
     SYS_npc_get_status, SYS_npc_yield, SYS_npc_ipc_notify, SYS_npc_ai_chat, SYS_npc_memory_save, SYS_npc_memory_load]"

lemma dispatch_unknown: "n \<notin> set syscall_numbers \<Longrightarrow> dispatch E n r k = Some (Done (- 1), k)"
  unfolding dispatch_def ret_def by (simp add: syscall_numbers_def)

lemma count_call_keeps [simp]:
  "current (count_call n k) = current k" "p_pid (the_proc (count_call n k) p) = p_pid (the_proc k p)"
  "p_threads (the_proc (count_call n k) p) = p_threads (the_proc k p)" "length (pool (count_call n k)) = length (pool k)"
  "the_thread (count_call n k) t = the_thread k t" "thread_ok t (count_call n k) = thread_ok t k"
  "mem (count_call n k) = mem k"
  by (simp_all add: count_call_def the_proc_def the_thread_def thread_ok_def field_upd_at)

text \<open>
  A number that \<^verbatim>\<open>syscall\<close> has no case for is refused. The program goes on behind the
  \<^verbatim>\<open>ecall\<close> with -1 in \<^verbatim>\<open>a0\<close>; its other registers and the memory stay as they were. So end the calls
  \<^verbatim>\<open>mailread\<close> (401), \<^verbatim>\<open>mailwrite\<close> and \<^verbatim>\<open>sbrk\<close> of the library of the user programs.
\<close>

theorem usertrap_unknown_syscall:
  assumes "current (m_kern m) = Some t" "thread_ok t (m_kern m)" "h_sstatus m AND SSTATUS_SPP = 0" "h_scause m = UserEnvCall"
    and "tf = th_trapframe (the_thread (m_kern m) t)" "to_int (tf A7) \<notin> set syscall_numbers"
  shows "\<exists>fn va satp m'. usertrap E m = Some (To_user fn va satp, m') \<and> h_sepc m' = tf Epc + 4 \<and>
    mem (m_kern m') = mem (m_kern m) \<and> th_trapframe (the_thread (m_kern m') t) A0 = - 1 \<and>
    (\<forall>g. g \<notin> {A0, Epc, Kernel_satp, Kernel_sp, Kernel_trap, Kernel_hartid} \<longrightarrow> th_trapframe (the_thread (m_kern m') t) g = tf g)"
proof -
  let ?k = "map_thread t (\<lambda>x. x\<lparr>th_trapframe := (th_trapframe x)(Epc := th_trapframe x Epc + 4)\<rparr>) (m_kern m)"
  let ?n = "to_int (tf A7)" and ?c = "count_call (to_int (tf A7)) (map_thread t (\<lambda>x. x\<lparr>th_trapframe := (th_trapframe x)(Epc := th_trapframe x Epc + 4)\<rparr>) (m_kern m))"
  have th: "th_trapframe (the_thread ?k t) = tf(Epc := tf Epc + 4)" using assms(2,5) by (simp add: the_thread_map)
  have n: "?n = to_int ((tf(Epc := tf Epc + 4)) A7)" by simp
  have c: "current ?c = Some t" "thread_ok t ?c" using assms(1,2) by (simp_all add: thread_ok_map_same)
  have tfc: "th_trapframe (the_thread ?c t) = tf(Epc := tf Epc + 4)" using th by simp
  obtain fn va satp m' where r: "usertrap E m = Some (To_user fn va satp, m')" "h_sepc m' = th_trapframe (the_thread ?c t) Epc"
    "mem (m_kern m') = mem ?c"
    "\<forall>g. th_trapframe (the_thread (m_kern m') t) g =
      (if g = A0 then word_of_int (wrap32 (- 1)) else if g = Kernel_satp then h_satp m
       else if g = Kernel_sp then th_kstack (the_thread ?c t) + KSTACK_SIZE
       else if g = Kernel_trap then te_usertrap E else if g = Kernel_hartid then h_tp m
       else th_trapframe (the_thread ?c t) g)"
    using usertrap_done [where E = E, OF assms(1,3,4) refl th [symmetric] n dispatch_unknown [OF assms(6)] c] by blast
  have "(word_of_int (wrap32 (- 1)) :: u64) = - 1" by (simp add: wrap32_def)
  with r tfc show ?thesis by simp
qed

section \<open>Traps of the kernel\<close>

lemma word_of_sint: "word_of_int (sint (c :: u32)) = c"
  by simp

lemma external_kern: "external_intr irq m = Some m' \<Longrightarrow> m_kern m' = m_kern m \<and> h_claims m' = h_claims m \<and> h_done m' = h_done m \<and>
    h_satp m' = h_satp m \<and> h_stvec m' = h_stvec m \<and> h_sie m' = h_sie m"
  by (auto simp: external_intr_def split: if_splits)

lemma devintr_kernel:
  assumes "devintr cause m = Some (e, m')" "h_sstatus m AND SSTATUS_SPP \<noteq> 0" "0 \<notin> set (h_claims m)"
  shows "e \<noteq> Yielded \<and> (e = Handled \<longrightarrow> m_kern m' = m_kern m \<and> h_done m' @ h_claims m' = h_done m @ h_claims m \<and>
    h_satp m' = h_satp m \<and> h_stvec m' = h_stvec m \<and> h_sie m' = h_sie m \<and> (cause = SupervisorTimer \<longrightarrow> h_timer m' = h_time m + 125000))"
proof (cases "h_claims m")
  case Nil
  then show ?thesis
    using assms by (auto simp: devintr_def plic_claim_def set_next_timer_def get_cycle_def CPU_FREQ_def TICKS_PER_SEC_def
      SupervisorTimer_def SupervisorExternal_def dest: external_kern split: if_splits)
next
  case (Cons c cs)
  then have "c \<noteq> 0" using assms(3) by auto
  then have "sint c \<noteq> 0" using word_of_sint [of c] by fastforce
  then show ?thesis
    using assms Cons by (auto simp: devintr_def plic_claim_def plic_complete_def set_next_timer_def get_cycle_def CPU_FREQ_def TICKS_PER_SEC_def
      SupervisorTimer_def SupervisorExternal_def dest!: external_kern split: if_splits)
qed


section \<open>A concrete machine\<close>

text \<open>One process, whose only thread has made the system call \<open>n\<close> at address 0x1000.\<close>

definition demo_env :: trap_env where
  "demo_env = \<lparr>sym_kstack = 0x80200000, sym_trapframe = 0x80300000, sym_boot_stack_top = 0x80210000, sym_usertrapret = 0x80220000,
     env_cycle = 0, env_junk = (\<lambda>_. 0), env_ai = (\<lambda>_. None),
     te_uservec = 0, te_userret = 0x90, te_kernelvec = 0x80230000, te_usertrap = 0x80240000\<rparr>"

definition demo_caller :: "int \<Rightarrow> fs_kern" where
  "demo_caller n = demo_fs\<lparr>pool := [zero_proc\<lparr>p_state := P_USED, p_pid := 7, p_pagetable := 0x80400000,
     p_threads := [zero_thread\<lparr>th_state := RUNNING, th_kstack := 0x80200000,
       th_trapframe := (\<lambda>_. 0)(A7 := word_of_int n, Epc := 0x1000)\<rparr>]\<rparr>]\<rparr>"

definition demo_machine :: "u64 \<Rightarrow> u64 \<Rightarrow> int \<Rightarrow> machine" where
  "demo_machine cause status n = \<lparr>h_scause = cause, h_stval = 0, h_sepc = 0x1000, h_sstatus = status, h_sie = 0x222, h_stvec = 0,
     h_satp = 0x8000000000080500, h_tp = 0, h_time = 5, h_timer = 0, h_plic = (\<lambda>_. 0), h_claims = [1, 10], h_done = [],
     m_kern = demo_caller n, m_net = demo_host, m_disk = demo_disk\<rparr>"

lemma demo_caller_current: "current (demo_caller n) = Some (0, 0)" "thread_ok (0, 0) (demo_caller n)"
  "p_pid (the_proc (demo_caller n) 0) = 7" "0 < length (pool (demo_caller n))"
  by (simp_all add: demo_caller_def demo_fs_def thread_ok_def the_proc_def)

lemma demo_dispatch:
  "current (k :: fs_kern) = Some (0, 0) \<Longrightarrow> dispatch E 172 r k = Some (Done (p_pid (the_proc k 0)), k)"
  by (simp add: dispatch_def ret_def sys_getpid_def curr_proc_def
    SYS_write_def SYS_read_def SYS_openat_def SYS_close_def SYS_exit_def SYS_sched_yield_def SYS_gettimeofday_def SYS_getpid_def)

text \<open>\<^verbatim>\<open>getpid\<close>, call 172, of process 7.\<close>

theorem usertrap_syscall_returns_witness:
  "\<exists>fn va satp m'. usertrap demo_env (demo_machine 8 0x20 172) = Some (To_user fn va satp, m') \<and>
    h_sepc m' = 0x1004 \<and> th_trapframe (the_thread (m_kern m') (0, 0)) A0 = 7"
proof -
  let ?m = "demo_machine 8 0x20 172"
  let ?k = "map_thread (0, 0) (\<lambda>x. x\<lparr>th_trapframe := (th_trapframe x)(Epc := th_trapframe x Epc + 4)\<rparr>) (m_kern ?m)"
  let ?c = "count_call 172 ?k"
  have th: "th_trapframe (the_thread ?k (0, 0)) = (\<lambda>_. 0)(A7 := 172, Epc := 0x1004)"
    by (simp add: demo_machine_def the_thread_map demo_caller_current) (simp add: demo_caller_def the_thread_def fun_eq_iff)
  have c: "current ?c = Some (0, 0)" "p_pid (the_proc ?c 0) = 7" "thread_ok (0, 0) ?c"
    "th_trapframe (the_thread ?c (0, 0)) = (\<lambda>_. 0)(A7 := 172, Epc := 0x1004)"
    using th demo_caller_current
    by (simp_all add: demo_machine_def thread_ok_map_same the_proc_map_thread)
  have m: "current (m_kern ?m) = Some (0, 0)" "h_sstatus ?m AND SSTATUS_SPP = 0" "h_scause ?m = UserEnvCall"
    by (simp_all add: demo_machine_def demo_caller_current SSTATUS_SPP_def UserEnvCall_def)
  have n: "172 = to_int (((\<lambda>_. 0)(A7 := 172, Epc := 0x1004)) A7)" by (simp add: to_int_def)
  have d: "dispatch (demo_env\<lparr>env_cycle := h_time ?m\<rparr>) 172 ((\<lambda>_. 0)(A7 := 172, Epc := 0x1004)) ?c = Some (Done 7, ?c)"
    using demo_dispatch [OF c(1)] by (simp only: c(2))
  obtain fn va satp m' where r: "usertrap demo_env ?m = Some (To_user fn va satp, m')"
    "h_sepc m' = th_trapframe (the_thread ?c (0, 0)) Epc" "th_trapframe (the_thread (m_kern m') (0, 0)) A0 = word_of_int (wrap32 7)"
    using usertrap_syscall_returns [OF m refl th [symmetric] n d c(1,3)] by auto
  have "(word_of_int (wrap32 7) :: u64) = 7" "((\<lambda>_. 0)(A7 := 172, Epc := 0x1004 :: u64)) Epc = 0x1004" by (simp_all add: wrap32_def)
  with r c(4) show ?thesis by (metis (no_types, lifting))
qed

theorem usertrap_unknown_syscall_witness:
  "\<exists>fn va satp m'. usertrap demo_env (demo_machine 8 0x20 401) = Some (To_user fn va satp, m') \<and>
    h_sepc m' = 0x1004 \<and> th_trapframe (the_thread (m_kern m') (0, 0)) A0 = - 1"
proof -
  let ?m = "demo_machine 8 0x20 401"
  have tf: "(\<lambda>_. 0)(A7 := 401, Epc := 0x1000) = th_trapframe (the_thread (m_kern ?m) (0, 0))"
    by (simp add: demo_machine_def demo_caller_def the_thread_def)
  have m: "current (m_kern ?m) = Some (0, 0)" "thread_ok (0, 0) (m_kern ?m)" "h_sstatus ?m AND SSTATUS_SPP = 0" "h_scause ?m = UserEnvCall"
    by (simp_all add: demo_machine_def demo_caller_current SSTATUS_SPP_def UserEnvCall_def)
  have "to_int (((\<lambda>_. 0)(A7 := 401, Epc := 0x1000)) A7) = 401" by (simp add: to_int_def)
  then have "to_int (((\<lambda>_. 0)(A7 := 401, Epc := 0x1000)) A7) \<notin> set syscall_numbers"
    by (simp only:) (unfold syscall_numbers_def, code_simp)
  from usertrap_unknown_syscall [OF m tf this, of demo_env] show ?thesis by auto
qed

text \<open>The disk interrupts, with nothing finished.\<close>

lemma demo_disk_intr: "virtio_disk_intr demo_disk = Some demo_disk"
  by (subst virtio_disk_intr.simps) (simp add: demo_disk_def)

lemma demo_external:
  "devintr 9 (set_kerneltrap demo_env (demo_machine c status n)) =
     Some (Handled, (set_kerneltrap demo_env (demo_machine c status n))\<lparr>h_claims := [10], h_done := [1]\<rparr>)"
  "devintr 9 (demo_machine c status n) = Some (Handled, (demo_machine c status n)\<lparr>h_claims := [10], h_done := [1]\<rparr>)"
  using demo_disk_intr
  by (simp_all add: devintr_def SupervisorTimer_def SupervisorExternal_def plic_claim_def plic_complete_def external_intr_def
    UART0_IRQ_def VIRTIO0_IRQ_def demo_machine_def set_kerneltrap_def)

theorem usertrap_ready_for_user_witness:
  "\<exists>fn va satp m'. usertrap demo_env (demo_machine 0x8000000000000009 0x20 0) = Some (To_user fn va satp, m') \<and>
    ready_for_user demo_env fn va satp m'"
proof -
  let ?m = "demo_machine 0x8000000000000009 0x20 0"
  have m: "current (m_kern ?m) = Some (0, 0)" "thread_ok (0, 0) (m_kern ?m)" "h_sstatus ?m = 0x20" "h_scause ?m = 0x8000000000000009"
    by (simp_all add: demo_machine_def demo_caller_current)
  obtain fn va satp m' where r: "usertrap demo_env ?m = Some (To_user fn va satp, m')"
    "current (m_kern m') = Some (0, 0)" "thread_ok (0, 0) (m_kern m')"
    using m demo_external(1)
    by (simp add: usertrap_def Let_def set_kerneltrap_def SSTATUS_SPP_def Interrupt_bit_def usertrapret_def set_usertrap_def thread_ok_map_same)
  have "ready_for_user demo_env fn va satp m'"
    by (rule usertrap_ready_for_user [of demo_env ?m fn va satp m' After_intr "(0, 0)"]) (simp_all add: r)
  with r(1) show ?thesis by blast
qed


end
