(* ===== verification/Mkfs.thy ===== *)
theory Mkfs
  imports FileSys
begin

text \<open>
  \<^verbatim>\<open>nfs/fs.c\<close>: the host program that builds the file system image.

  The image file is its list of blocks: \<open>wsect\<close> past the end leaves a hole of zeroes, \<open>rsect\<close>
  past the end is a short read. \<open>None\<close> is the end of the program with an error, by \<^verbatim>\<open>exit(1)\<close> or
  by a failed \<^verbatim>\<open>assert\<close>. A file to be stored is its path and, when it can be opened, what the
  successive calls of \<^verbatim>\<open>read\<close> deliver. A \<^verbatim>\<open>struct dinode\<close> is its 64 bytes.
  \<^verbatim>\<open>xshort\<close> and \<^verbatim>\<open>xint\<close> lay a number out in little-endian order and read it back in the order of
  the host, which is taken to be little-endian.
\<close>

definition FSSIZE :: nat where "FSSIZE = 1000"
definition NINODES :: nat where "NINODES = 200"
definition nbitmap :: nat where "nbitmap = FSSIZE div (BSIZE * 8) + 1"
definition ninodeblocks :: nat where "ninodeblocks = NINODES div IPB + 1"
definition nmeta :: nat where "nmeta = 2 + ninodeblocks + nbitmap"

record image =
  im_blocks :: "u8 list list"
  im_sb :: superblock
  im_freeinode :: u32
  im_freeblock :: u32

definition zeroes :: "u8 list" where "zeroes = replicate BSIZE 0"

definition xshort :: "u16 \<Rightarrow> u16" where
  "xshort x = le_word [ucast x, ucast (drop_bit 8 x)]"

definition xint :: "u32 \<Rightarrow> u32" where
  "xint x = le_word [ucast x, ucast (drop_bit 8 x), ucast (drop_bit 16 x), ucast (drop_bit 24 x)]"

section \<open>Sectors and inodes\<close>

text \<open>The byte offset \<^verbatim>\<open>sec * BSIZE\<close> is computed in 32 bits.\<close>

definition sect_pos :: "u32 \<Rightarrow> nat" where
  "sect_pos sec = unat (sec * of_nat BSIZE) div BSIZE"

definition wsect :: "u32 \<Rightarrow> u8 list \<Rightarrow> image \<Rightarrow> image" where
  "wsect sec buf m = (let n = sect_pos sec; bs = im_blocks m in
     m\<lparr>im_blocks := if n < length bs then bs[n := buf] else bs @ replicate (n - length bs) zeroes @ [buf]\<rparr>)"

definition rsect :: "u32 \<Rightarrow> image \<Rightarrow> u8 list option" where
  "rsect sec m = (let n = sect_pos sec in if n < length (im_blocks m) then Some (im_blocks m ! n) else None)"

definition rinode :: "u32 \<Rightarrow> image \<Rightarrow> u8 list option" where
  "rinode inum m = do {
     buf \<leftarrow> rsect (IBLOCK inum (im_sb m)) m;
     Some (slice (dinode_off inum) DINODE_SIZE buf) }"

definition winode :: "u32 \<Rightarrow> u8 list \<Rightarrow> image \<Rightarrow> image option" where
  "winode inum ip m = do {
     let bn = IBLOCK inum (im_sb m);
     buf \<leftarrow> rsect bn m;
     Some (wsect bn (splice (dinode_off inum) ip buf) m) }"

text \<open>Offsets of the fields of a \<^verbatim>\<open>struct dinode\<close>.\<close>

definition din_size :: nat where "din_size = 8"
definition din_addr :: "nat \<Rightarrow> nat" where "din_addr i = 12 + 4 * i"

definition mk_ialloc :: "u16 \<Rightarrow> image \<Rightarrow> (u32 \<times> image) option" where
  "mk_ialloc type m = do {
     let inum = im_freeinode m;
     let m = m\<lparr>im_freeinode := inum + 1\<rparr>;
     let din = put32 din_size (xint 0) (put16 2 (xshort 1) (put16 0 (xshort type) (replicate DINODE_SIZE 0)));
     m \<leftarrow> winode inum din m;
     Some (inum, m) }"

definition mk_bitmap :: "nat \<Rightarrow> u8 list" where
  "mk_bitmap used = fold (\<lambda>i buf. upd_at (i div 8) (\<lambda>b. b OR push_bit (i mod 8) 1) buf) [0..<used] zeroes"

definition mk_balloc :: "u32 \<Rightarrow> image \<Rightarrow> image option" where
  "mk_balloc used m =
     (if sint used < int BSIZE * 8 then Some (wsect (sb_bmapstart (im_sb m)) (mk_bitmap (nat (sint used))) m) else None)"

section \<open>Appending to a file\<close>

definition take_free :: "image \<Rightarrow> u32 \<times> image" where
  "take_free m = (im_freeblock m, m\<lparr>im_freeblock := im_freeblock m + 1\<rparr>)"

text \<open>The block number at byte \<open>o\<close> of a table, allocated when it is 0: the table, the block.\<close>

definition slot_block :: "nat \<Rightarrow> u8 list \<Rightarrow> image \<Rightarrow> u8 list \<times> image" where
  "slot_block o' d m =
     (if xint (get32 o' d) = 0 then let (b, m) = take_free m in (put32 o' (xint b) d, m) else (d, m))"

text \<open>The block of the file that holds block \<open>fbn\<close>, with the inode it may be entered in.\<close>

definition append_block :: "nat \<Rightarrow> u8 list \<Rightarrow> image \<Rightarrow> (u32 \<times> u8 list \<times> image) option" where
  "append_block fbn din m =
     (if fbn < NDIRECT then
        (let (din, m) = slot_block (din_addr fbn) din m in Some (xint (get32 (din_addr fbn) din), din, m))
      else do {
        let (din, m) = slot_block (din_addr NDIRECT) din m;
        let ind = xint (get32 (din_addr NDIRECT) din);
        indirect \<leftarrow> rsect ind m;
        let i = 4 * (fbn - NDIRECT);
        let (indirect', m) = slot_block i indirect m;
        let m = (if get32 i indirect = 0 then wsect ind indirect' m else m);
        Some (xint (get32 i indirect'), din, m) })"

text \<open>The loop of \<^verbatim>\<open>iappend\<close>: the bytes to go, the inode and the offset.\<close>

function iappend_from :: "u8 list \<Rightarrow> u8 list \<Rightarrow> nat \<Rightarrow> image \<Rightarrow> (u8 list \<times> nat \<times> image) option" where
  "iappend_from p din off m =
     (if p = [] then Some (din, off, m)
      else let fbn = off div BSIZE in
        if MAXFILE \<le> fbn then None
        else do {
          (x, din, m) \<leftarrow> append_block fbn din m;
          let n1 = min (length p) ((fbn + 1) * BSIZE - off);
          buf \<leftarrow> rsect x m;
          let m = wsect x (splice (off - fbn * BSIZE) (take n1 p) buf) m;
          iappend_from (drop n1 p) din (off + n1) m })"
  by pat_completeness auto
termination
proof (relation "measure (\<lambda>(p, _). length p)", goal_cases)
  case 1
  then show ?case by simp
next
  case (2 p din off m fbn x y xa ya xb)
  have "off < (off div BSIZE + 1) * BSIZE"
    by (metis BSIZE_def Suc_eq_plus1 dividend_less_times_div mult.commute mult_Suc_right zero_less_numeral add.commute)
  with 2 show ?case by (simp add: min_def)
qed

declare iappend_from.simps [simp del]

text \<open>The offset stays below 2^19, so it is kept as a natural number.\<close>

definition iappend :: "u32 \<Rightarrow> u8 list \<Rightarrow> image \<Rightarrow> image option" where
  "iappend inum p m = do {
     din \<leftarrow> rinode inum m;
     (din, off, m) \<leftarrow> iappend_from p din (unat (xint (get32 din_size din))) m;
     winode inum (put32 din_size (xint (of_nat off)) din) m }"

section \<open>The program\<close>

text \<open>The path behind the last slash (47).\<close>

function mk_basename :: "u8 list \<Rightarrow> u8 list" where
  "mk_basename path = (if 47 \<in> set path then mk_basename (tl (dropWhile (\<lambda>c. c \<noteq> 47) path)) else path)"
  by pat_completeness auto
termination
proof (relation "measure length", goal_cases)
  case 1
  then show ?case by simp
next
  case (2 path)
  then have "dropWhile (\<lambda>c. c \<noteq> 47) path \<noteq> []" by (auto simp: dropWhile_eq_Nil_conv)
  moreover have "length (dropWhile (\<lambda>c. c \<noteq> 47) path) \<le> length path" by (rule length_dropWhile_le)
  ultimately show ?case by (cases "dropWhile (\<lambda>c. c \<noteq> 47) path") auto
qed

declare mk_basename.simps [simp del]

text \<open>A \<^verbatim>\<open>struct dirent\<close>: \<^verbatim>\<open>strncpy\<close> fills up with zeroes.\<close>

definition mk_dirent :: "u32 \<Rightarrow> u8 list \<Rightarrow> u8 list" where
  "mk_dirent inum name = le_bytes 2 (xshort (ucast inum)) @ take DIRSIZ name @ replicate (DIRSIZ - length name) 0"

fun iappend_all :: "u32 \<Rightarrow> u8 list list \<Rightarrow> image \<Rightarrow> image option" where
  "iappend_all inum [] m = Some m"
| "iappend_all inum (c # cs) m = do { m \<leftarrow> iappend inum c m; iappend_all inum cs m }"

definition mk_store :: "u32 \<Rightarrow> u8 list \<times> u8 list list option \<Rightarrow> image \<Rightarrow> image option" where
  "mk_store rootino arg m = do {
     let shortname = mk_basename (fst arg);
     chunks \<leftarrow> snd arg;
     (inum, m) \<leftarrow> mk_ialloc T_FILE m;
     m \<leftarrow> iappend rootino (mk_dirent inum shortname) m;
     iappend_all inum chunks m }"

fun mk_store_all :: "u32 \<Rightarrow> (u8 list \<times> u8 list list option) list \<Rightarrow> image \<Rightarrow> image option" where
  "mk_store_all rootino [] m = Some m"
| "mk_store_all rootino (a # as) m = do { m \<leftarrow> mk_store rootino a m; mk_store_all rootino as m }"

definition mk_super :: superblock where
  "mk_super = \<lparr>sb_magic = FSMAGIC, sb_size = xint (of_nat FSSIZE), sb_nblocks = xint (of_nat (FSSIZE - nmeta)),
     sb_ninodes = xint (of_nat NINODES), sb_inodestart = xint 2, sb_bmapstart = xint (of_nat (2 + ninodeblocks))\<rparr>"

definition super_bytes :: "superblock \<Rightarrow> u8 list" where
  "super_bytes s = concat (map (le_bytes 4) [sb_magic s, sb_size s, sb_nblocks s, sb_ninodes s, sb_inodestart s, sb_bmapstart s])"

definition mk_blank :: image where
  "mk_blank = (let m = \<lparr>im_blocks = [], im_sb = mk_super, im_freeinode = 1, im_freeblock = of_nat nmeta\<rparr>;
     m = fold (\<lambda>i. wsect (of_nat i) zeroes) [0..<FSSIZE] m
   in wsect 1 (splice 0 (super_bytes mk_super) zeroes) m)"

text \<open>The size of the root directory is moved to the end of its next block.\<close>

definition mk_fix_root :: "u32 \<Rightarrow> image \<Rightarrow> image option" where
  "mk_fix_root rootino m = do {
     din \<leftarrow> rinode rootino m;
     let off = xint (get32 din_size din);
     let off = (off div of_nat BSIZE + 1) * of_nat BSIZE;
     winode rootino (put32 din_size (xint off) din) m }"

definition mkfs :: "(u8 list \<times> u8 list list option) list \<Rightarrow> image option" where
  "mkfs args = do {
     (rootino, m) \<leftarrow> mk_ialloc T_DIR mk_blank;
     m \<leftarrow> mk_store_all rootino args m;
     m \<leftarrow> mk_fix_root rootino m;
     mk_balloc (im_freeblock m) m }"

end
