(* ===== verification/MkfsSpec.thy ===== *)
theory MkfsSpec
  imports Mkfs FileProps
begin

text \<open>
  The image that \<^verbatim>\<open>mkfs\<close> builds, as files. A slot \<open>(i, j)\<close> is a place for a block number: the
  direct entries of inode \<open>i\<close> for \<open>j < NDIRECT\<close>, its indirect block for \<open>j = NDIRECT\<close>, and the
  entries of this block above. \<open>image_ok\<close> says that the numbers in use are below the next free
  block and all different, and that free blocks are blank; \<open>iappend\<close> keeps it, appends to one file
  and leaves the others as they are.
\<close>

section \<open>Slots\<close>

definition NSLOTS :: nat where "NSLOTS = NDIRECT + 1 + NINDIRECT"

definition slot_of :: "nat \<Rightarrow> nat" where
  "slot_of n = (if n < NDIRECT then n else n + 1)"

definition ptr :: "(nat \<Rightarrow> u8 list) \<Rightarrow> u8 list list \<Rightarrow> nat \<times> nat \<Rightarrow> nat" where
  "ptr D B s = (if snd s \<le> NDIRECT then unat (get32 (din_addr (snd s)) (D (fst s)))
     else unat (get32 (4 * (snd s - (NDIRECT + 1))) (B ! unat (get32 (din_addr NDIRECT) (D (fst s))))))"

definition slots :: "(nat \<times> nat) set" where
  "slots = {..<NINODES} \<times> {..<NSLOTS}"

definition image_ok :: "(nat \<Rightarrow> u8 list) \<Rightarrow> u8 list list \<Rightarrow> nat \<Rightarrow> bool" where
  "image_ok D B f \<longleftrightarrow> length B = FSSIZE \<and> (\<forall>b < FSSIZE. length (B ! b) = BSIZE) \<and> nmeta \<le> f \<and> f \<le> FSSIZE \<and>
     B ! 0 = zeroes \<and> (\<forall>b. f \<le> b \<longrightarrow> b < FSSIZE \<longrightarrow> B ! b = zeroes) \<and> (\<forall>i < NINODES. length (D i) = DINODE_SIZE) \<and>
     (\<forall>s \<in> slots. ptr D B s \<noteq> 0 \<longrightarrow> nmeta \<le> ptr D B s \<and> ptr D B s < f) \<and>
     (\<forall>s \<in> slots. \<forall>t \<in> slots. ptr D B s = ptr D B t \<longrightarrow> ptr D B s \<noteq> 0 \<longrightarrow> s = t)"

lemma mk_consts [simp]:
  "FSSIZE = 1000" "NINODES = 200" "nmeta = 16" "NDIRECT = 12" "NINDIRECT = 256" "NSLOTS = 269" "MAXFILE = 268"
  "DINODE_SIZE = 64" "BSIZE = 1024" "IPB = 16" "ninodeblocks = 13" "nbitmap = 1" "din_size = 8"
  by (simp_all add: FSSIZE_def NINODES_def nmeta_def NDIRECT_def NINDIRECT_def NSLOTS_def MAXFILE_def DINODE_SIZE_def
    BSIZE_def IPB_def ninodeblocks_def nbitmap_def din_size_def)

lemma xint_id [simp]: "xint x = x"
proof -
  have "[ucast x, ucast (drop_bit 8 x), ucast (drop_bit 16 x), ucast (drop_bit 24 x)] = le_bytes 4 x"
    by (simp add: le_bytes_def upt_rec numeral_eq_Suc)
  then show ?thesis by (simp add: xint_def le_word_le_bytes del: le_word.simps)
qed

lemma get32_put32_other:
  "a + 4 \<le> length d \<Longrightarrow> b + 4 \<le> length d \<Longrightarrow> a + 4 \<le> b \<or> b + 4 \<le> a \<Longrightarrow> get32 a (put32 b v d) = get32 a d"
  by (simp add: get32_def put32_def slice_splice_other)

lemma get32_zeroes: "a + 4 \<le> 1024 \<Longrightarrow> get32 a zeroes = 0"
proof -
  assume "a + 4 \<le> 1024"
  then have "slice a 4 zeroes = replicate 4 0" by (simp add: slice_def zeroes_def take_replicate drop_replicate)
  then show ?thesis by (simp add: get32_def numeral_eq_Suc)
qed

lemma sect_pos_small: "unat b < 1000 \<Longrightarrow> sect_pos b = unat b"
  by (simp add: sect_pos_def unat_word_ariths)

section \<open>The three changes of an image\<close>

text \<open>A slot gets the next free block.\<close>

lemma image_ok_alloc:
  assumes ok: "image_ok D B f" and f: "f < 1000" and s: "s \<in> slots"
    and D: "\<forall>i < 200. length (D' i) = 64" and B: "length B' = 1000" "\<forall>b < 1000. length (B' ! b) = 1024" "B' ! 0 = zeroes"
      "\<forall>b. f < b \<longrightarrow> b < 1000 \<longrightarrow> B' ! b = zeroes"
    and p: "\<forall>t \<in> slots. ptr D' B' t = (if t = s then f else ptr D B t)"
  shows "image_ok D' B' (Suc f)"
proof -
  have below: "ptr D B t < f" if "t \<in> slots" for t
    using ok that by (cases "ptr D B t = 0") (auto simp: image_ok_def)
  show ?thesis
    unfolding image_ok_def
  proof (intro conjI ballI allI impI)
    fix t assume "t \<in> slots" "ptr D' B' t \<noteq> 0"
    then show "nmeta \<le> ptr D' B' t" "ptr D' B' t < Suc f"
      using ok p below [of t] by (auto simp: image_ok_def split: if_splits)
  next
    fix t u assume "t \<in> slots" "u \<in> slots" "ptr D' B' t = ptr D' B' u" "ptr D' B' t \<noteq> 0"
    then show "t = u" using ok p below [of t] below [of u] by (auto simp: image_ok_def split: if_splits)
  qed (use ok D B f in \<open>auto simp: image_ok_def\<close>)
qed

lemma ptr_direct: "j \<le> 12 \<Longrightarrow> ptr D B (i, j) = unat (get32 (din_addr j) (D i))"
  by (simp add: ptr_def)

lemma ptr_indirect: "12 < j \<Longrightarrow> ptr D B (i, j) = unat (get32 (4 * (j - 13)) (B ! ptr D B (i, 12)))"
  by (simp add: ptr_def)

lemma slots_iff [simp]: "(i, j) \<in> slots \<longleftrightarrow> i < 200 \<and> j < 269"
  by (simp add: slots_def)

lemma image_okD:
  assumes "image_ok D B f"
  shows "length B = 1000" "b < 1000 \<Longrightarrow> length (B ! b) = 1024" "16 \<le> f" "f \<le> 1000" "B ! 0 = zeroes"
    "f \<le> b \<Longrightarrow> b < 1000 \<Longrightarrow> B ! b = zeroes" "i < 200 \<Longrightarrow> length (D i) = 64"
    "s \<in> slots \<Longrightarrow> ptr D B s \<noteq> 0 \<Longrightarrow> 16 \<le> ptr D B s" "s \<in> slots \<Longrightarrow> ptr D B s < f"
    "s \<in> slots \<Longrightarrow> t \<in> slots \<Longrightarrow> ptr D B s = ptr D B t \<Longrightarrow> ptr D B s \<noteq> 0 \<Longrightarrow> s = t"
  using assms by (auto simp: image_ok_def)

lemma unat_small [simp]: "f < 1000 \<Longrightarrow> unat (of_nat f :: u32) = f"
  by (simp add: unat_of_nat)

lemma alloc_direct:
  assumes ok: "image_ok D B f" and f: "f < 1000" and ij: "i < 200" "j \<le> 12" "ptr D B (i, j) = 0"
    and D': "D' = D(i := put32 (din_addr j) (of_nat f) (D i))"
  shows "image_ok D' B (Suc f)" "t \<in> slots \<Longrightarrow> ptr D' B t = (if t = (i, j) then f else ptr D B t)"
proof -
  note ok' = image_okD [OF ok]
  have len: "length (D i) = 64" using ok'(7) ij(1) .
  have pos: "m \<le> 12 \<Longrightarrow> din_addr m + 4 \<le> 64" "m \<noteq> m' \<Longrightarrow> din_addr m + 4 \<le> din_addr m' \<or> din_addr m' + 4 \<le> din_addr m" for m m'
    by (auto simp: din_addr_def)
  have p: "ptr D' B (i', j') = (if (i', j') = (i, j) then f else ptr D B (i', j'))" if t: "j' < 269" for i' j'
  proof (cases "i' = i \<and> 12 < j' \<and> j = 12")
    case True
    have z: "get32 (4 * (j' - 13)) zeroes = 0" using t True by (intro get32_zeroes) simp
    have "ptr D' B (i, 12) = f" using True f len by (simp add: ptr_direct D' din_addr_def)
    then have "ptr D' B (i', j') = 0" using True z ok'(6) [of f] f by (simp add: ptr_indirect)
    moreover have "ptr D B (i', j') = 0" using True z ij(3) ok'(5) by (simp add: ptr_indirect)
    ultimately show ?thesis using True by simp
  next
    case False
    then show ?thesis
      using f len ij pos by (cases "j' \<le> 12") (auto simp: ptr_direct ptr_indirect D' get32_put32_other)
  qed
  then show pt: "t \<in> slots \<Longrightarrow> ptr D' B t = (if t = (i, j) then f else ptr D B t)" for t by (cases t) simp
  have "\<forall>n < 200. length (D' n) = 64" using ok'(7) ij len by (simp add: D' din_addr_def)
  then show "image_ok D' B (Suc f)"
    using image_ok_alloc [OF ok f, of "(i, j)" D' B] ok' pt ij by simp
qed

lemma alloc_indirect:
  assumes ok: "image_ok D B f" and f: "f < 1000" and ij: "i < 200" "12 < j" "j < 269"
    and ind: "ptr D B (i, 12) \<noteq> 0"
    and B': "B' = B[ptr D B (i, 12) := put32 (4 * (j - 13)) (of_nat f) (B ! ptr D B (i, 12))]"
  shows "image_ok D B' (Suc f)" "t \<in> slots \<Longrightarrow> ptr D B' t = (if t = (i, j) then f else ptr D B t)"
proof -
  note ok' = image_okD [OF ok]
  let ?n = "ptr D B (i, 12)"
  have n: "16 \<le> ?n" "?n < f" using ok'(8,9) [of "(i, 12)"] ij ind by auto
  then have len: "length (B ! ?n) = 1024" using ok'(2) f by simp
  have p: "ptr D B' (i', j') = (if (i', j') = (i, j) then f else ptr D B (i', j'))" if t: "i' < 200" "j' < 269" for i' j'
  proof (cases "j' \<le> 12")
    case True
    then show ?thesis using ij by (auto simp: ptr_direct)
  next
    case False
    have same: "ptr D B' (i', 12) = ptr D B (i', 12)" by (simp add: ptr_direct)
    show ?thesis
    proof (cases "i' = i")
      case True
      have m: "4 * (j' - 13) + 4 \<le> 1024" "4 * (j - 13) + 4 \<le> 1024" using t ij by simp_all
      have "j' \<noteq> j \<Longrightarrow> 4 * (j' - 13) + 4 \<le> 4 * (j - 13) \<or> 4 * (j - 13) + 4 \<le> 4 * (j' - 13)"
        using False ij by linarith
      moreover have "B' ! ?n = put32 (4 * (j - 13)) (of_nat f) (B ! ?n)" using n f ok'(1) by (simp add: B')
      moreover have "ptr D B' (i', j') = unat (get32 (4 * (j' - 13)) (B' ! ?n))" using False True same by (simp add: ptr_indirect)
      moreover have "ptr D B (i', j') = unat (get32 (4 * (j' - 13)) (B ! ?n))" using False True by (simp add: ptr_indirect)
      ultimately show ?thesis using True f len m by (cases "j' = j") (simp_all add: get32_put32_other)
    next
      case other: False
      have "ptr D B (i', 12) \<noteq> ?n" using ok'(10) [of "(i, 12)" "(i', 12)"] ij t ind other by auto
      then show ?thesis using False other by (simp add: ptr_indirect same) (simp add: B')
    qed
  qed
  then show pt: "t \<in> slots \<Longrightarrow> ptr D B' t = (if t = (i, j) then f else ptr D B t)" for t by (cases t) simp
  have j: "4 * (j - 13) + 4 \<le> 1024" using ij by simp
  have B: "length B' = 1000" "\<forall>b < 1000. length (B' ! b) = 1024" "B' ! 0 = zeroes" "\<forall>b. f < b \<longrightarrow> b < 1000 \<longrightarrow> B' ! b = zeroes"
    using ok' n len j f by (auto simp: B' nth_list_update)
  show "image_ok D B' (Suc f)"
    by (rule image_ok_alloc [OF ok f, of "(i, j)"]) (use ok'(7) B pt ij in auto)
qed

lemma write_data:
  assumes ok: "image_ok D B f" and s: "s \<in> slots" "snd s \<noteq> 12" "ptr D B s \<noteq> 0" and d: "length d = 1024"
  shows "image_ok D (B[ptr D B s := d]) f" "t \<in> slots \<Longrightarrow> ptr D (B[ptr D B s := d]) t = ptr D B t"
proof -
  note ok' = image_okD [OF ok]
  let ?B = "B[ptr D B s := d]"
  have n: "16 \<le> ptr D B s" "ptr D B s < f" using ok'(8,9) [OF s(1)] s(3) by auto
  show pt: "t \<in> slots \<Longrightarrow> ptr D ?B t = ptr D B t" for t
  proof (cases t)
    case (Pair i j)
    assume t: "t \<in> slots"
    then have i: "(i, 12) \<in> slots" using Pair by simp
    have "ptr D B (i, 12) \<noteq> ptr D B s" by (metis ok'(10) [OF s(1) i] s(2,3) snd_conv)
    moreover have "ptr D ?B (i, 12) = ptr D B (i, 12)" by (simp add: ptr_direct)
    ultimately show ?thesis using Pair by (cases "j \<le> 12") (simp_all add: ptr_direct ptr_indirect)
  qed
  show "image_ok D ?B f"
    unfolding image_ok_def
  proof (intro conjI ballI allI impI)
    fix t u assume "t \<in> slots" "u \<in> slots" "ptr D ?B t = ptr D ?B u" "ptr D ?B t \<noteq> 0"
    then show "t = u" using ok'(10) [of t u] pt by simp
  next
    fix t assume "t \<in> slots" "ptr D ?B t \<noteq> 0"
    then show "nmeta \<le> ptr D ?B t" "ptr D ?B t < f" using ok'(8,9) [of t] pt by simp_all
  next
    fix b assume "b < FSSIZE" then show "length (?B ! b) = BSIZE" using ok'(1,2) d by (cases "b = ptr D B s") simp_all
  next
    fix b assume "f \<le> b" "b < FSSIZE" then show "?B ! b = zeroes" using ok'(6) n by simp
  qed (use ok'(1,3,4,5,7) n in simp_all)
qed

section \<open>Growth\<close>

text \<open>Numbers in use stay, and so do the blocks of data they name, but for those of the slots in \<open>X\<close>,
  and the blocks before the data.\<close>

definition grows_but :: "(nat \<times> nat) set \<Rightarrow> (nat \<Rightarrow> u8 list) \<Rightarrow> u8 list list \<Rightarrow> (nat \<Rightarrow> u8 list) \<Rightarrow> u8 list list \<Rightarrow> bool" where
  "grows_but X D B D' B' \<longleftrightarrow> (\<forall>t \<in> slots. ptr D B t \<noteq> 0 \<longrightarrow> ptr D' B' t = ptr D B t \<and>
       (t \<notin> X \<longrightarrow> snd t \<noteq> 12 \<longrightarrow> B' ! ptr D B t = B ! ptr D B t)) \<and>
     (\<forall>b < 16. B' ! b = B ! b)"

abbreviation grows :: "(nat \<Rightarrow> u8 list) \<Rightarrow> u8 list list \<Rightarrow> (nat \<Rightarrow> u8 list) \<Rightarrow> u8 list list \<Rightarrow> bool" where
  "grows \<equiv> grows_but {}"

lemmas grows_def = grows_but_def [of "{}"]

lemma grows_refl [simp]: "grows_but X D B D B"
  by (simp add: grows_but_def)

lemma grows_but_trans: "grows_but X D B D' B' \<Longrightarrow> grows_but Y D' B' D'' B'' \<Longrightarrow> grows_but (X \<union> Y) D B D'' B''"
  unfolding grows_but_def by (metis Un_iff)

lemma grows_trans: "grows D B D' B' \<Longrightarrow> grows D' B' D'' B'' \<Longrightarrow> grows D B D'' B''"
  using grows_but_trans [of "{}" D B D' B' "{}" D'' B''] by simp

lemma grows_but_mono: "grows_but X D B D' B' \<Longrightarrow> X \<subseteq> Y \<Longrightarrow> grows_but Y D B D' B'"
  by (auto simp: grows_but_def)

lemma slot_block_direct:
  assumes ok: "image_ok (D(i := din)) (im_blocks m) (unat (im_freeblock m))" and ij: "i < 200" "j \<le> 12"
    and room: "ptr (D(i := din)) (im_blocks m) (i, j) = 0 \<Longrightarrow> unat (im_freeblock m) < 1000"
  shows "\<exists>din' m'. slot_block (din_addr j) din m = (din', m') \<and> im_blocks m' = im_blocks m \<and> im_sb m' = im_sb m \<and> im_freeinode m' = im_freeinode m \<and>
    image_ok (D(i := din')) (im_blocks m) (unat (im_freeblock m')) \<and> get32 (din_addr j) din' \<noteq> 0 \<and>
    grows (D(i := din)) (im_blocks m) (D(i := din')) (im_blocks m) \<and> slice 0 12 din' = slice 0 12 din \<and> length din' = 64 \<and>
    unat (im_freeblock m') = unat (im_freeblock m) + (if ptr (D(i := din)) (im_blocks m) (i, j) = 0 then 1 else 0) \<and>
    (\<forall>t \<in> slots. t \<noteq> (i, j) \<longrightarrow> ptr (D(i := din')) (im_blocks m) t = ptr (D(i := din)) (im_blocks m) t)"
proof -
  let ?D = "D(i := din)" and ?B = "im_blocks m" and ?f = "unat (im_freeblock m)"
  have len: "length din = 64" using image_okD(7) [OF ok ij(1)] by simp
  have p: "ptr ?D ?B (i, j) = unat (get32 (din_addr j) din)" using ij by (simp add: ptr_direct)
  show ?thesis
  proof (cases "ptr ?D ?B (i, j) = 0")
    case False
    then show ?thesis using ok len p by (auto simp: slot_block_def)
  next
    case True
    let ?din = "put32 (din_addr j) (im_freeblock m) din"
    have f: "?f < 1000" using room True by simp
    have D': "D(i := ?din) = ?D(i := put32 (din_addr j) (of_nat ?f) (?D i))" by simp
    have suc: "unat (im_freeblock m + 1) = Suc ?f" using f by (simp add: unat_word_ariths)
    note al = alloc_direct [OF ok f ij True D']
    have "slot_block (din_addr j) din m = (?din, m\<lparr>im_freeblock := im_freeblock m + 1\<rparr>)"
      using True p by (simp add: slot_block_def take_free_def unat_eq_0)
    moreover have "grows ?D ?B (D(i := ?din)) ?B" using al(2) True by (auto simp: grows_def)
    moreover have pos: "din_addr j + 4 \<le> length din" using len ij by (simp add: din_addr_def)
    moreover have "slice 0 12 ?din = slice 0 12 din"
      unfolding put32_def using pos by (subst slice_splice_other) (simp_all add: din_addr_def)
    moreover have "im_freeblock m \<noteq> 0" using image_okD(3) [OF ok] by auto
    moreover have "\<forall>t \<in> slots. t \<noteq> (i, j) \<longrightarrow> ptr (D(i := ?din)) ?B t = ptr ?D ?B t" using al(2) by simp
    ultimately show ?thesis using al(1) suc True len by simp
  qed
qed

text \<open>What a step of appending to inode \<open>i\<close> keeps, from inode \<open>din\<close> and image \<open>m\<close> to \<open>din'\<close> and \<open>m'\<close>,
  with at most \<open>n\<close> blocks taken.\<close>

definition appends :: "(nat \<Rightarrow> u8 list) \<Rightarrow> nat \<Rightarrow> u8 list \<Rightarrow> image \<Rightarrow> u8 list \<Rightarrow> image \<Rightarrow> nat \<Rightarrow> bool" where
  "appends D i din m din' m' n \<longleftrightarrow> im_sb m' = im_sb m \<and> im_freeinode m' = im_freeinode m \<and>
     image_ok (D(i := din')) (im_blocks m') (unat (im_freeblock m')) \<and>
     grows (D(i := din)) (im_blocks m) (D(i := din')) (im_blocks m') \<and> slice 0 12 din' = slice 0 12 din \<and>
     unat (im_freeblock m') \<le> unat (im_freeblock m) + n"

lemma wsect_blocks: "unat b < length (im_blocks m) \<Longrightarrow> length (im_blocks m) = 1000 \<Longrightarrow>
    wsect b d m = m\<lparr>im_blocks := (im_blocks m)[unat b := d]\<rparr>"
  by (simp add: wsect_def sect_pos_small)

lemma rsect_blocks: "unat b < length (im_blocks m) \<Longrightarrow> length (im_blocks m) = 1000 \<Longrightarrow> rsect b m = Some (im_blocks m ! unat b)"
  by (simp add: rsect_def sect_pos_small)

lemma append_block_direct:
  assumes ok: "image_ok (D(i := din)) (im_blocks m) (unat (im_freeblock m))" and ij: "i < 200" "fbn < 12"
    and room: "ptr (D(i := din)) (im_blocks m) (i, fbn) = 0 \<Longrightarrow> unat (im_freeblock m) < 1000"
  shows "\<exists>x din' m'. append_block fbn din m = Some (x, din', m') \<and>
    appends D i din m din' m' (if ptr (D(i := din)) (im_blocks m) (i, fbn) = 0 then 1 else 0) \<and>
    unat x = ptr (D(i := din')) (im_blocks m') (i, fbn) \<and> x \<noteq> 0 \<and>
    ptr (D(i := din')) (im_blocks m') (i, 12) = ptr (D(i := din)) (im_blocks m) (i, 12)"
proof -
  have j: "fbn \<le> 12" using ij by simp
  obtain din' m' where s: "slot_block (din_addr fbn) din m = (din', m')" "im_blocks m' = im_blocks m" "im_sb m' = im_sb m" "im_freeinode m' = im_freeinode m"
    "image_ok (D(i := din')) (im_blocks m) (unat (im_freeblock m'))" "get32 (din_addr fbn) din' \<noteq> 0"
    "grows (D(i := din)) (im_blocks m) (D(i := din')) (im_blocks m)" "slice 0 12 din' = slice 0 12 din"
    "unat (im_freeblock m') = unat (im_freeblock m) + (if ptr (D(i := din)) (im_blocks m) (i, fbn) = 0 then 1 else 0)"
    "\<forall>t \<in> slots. t \<noteq> (i, fbn) \<longrightarrow> ptr (D(i := din')) (im_blocks m) t = ptr (D(i := din)) (im_blocks m) t"
    using slot_block_direct [OF ok ij(1) j room] by blast
  have "append_block fbn din m = Some (get32 (din_addr fbn) din', din', m')"
    using ij s(1) by (simp add: append_block_def)
  moreover have "unat (get32 (din_addr fbn) din') = ptr (D(i := din')) (im_blocks m') (i, fbn)" using j by (simp add: ptr_direct)
  moreover have "appends D i din m din' m' (if ptr (D(i := din)) (im_blocks m) (i, fbn) = 0 then 1 else 0)"
    unfolding appends_def s(2) using s(3-9) by simp
  moreover have "ptr (D(i := din')) (im_blocks m') (i, 12) = ptr (D(i := din)) (im_blocks m) (i, 12)"
    unfolding s(2) using s(10) ij by simp
  ultimately show ?thesis using s(6) by blast
qed

text \<open>The second half of an indirect append: the entry \<open>j\<close> of the indirect block, which is there.\<close>

lemma indirect_entry:
  assumes ok: "image_ok (D(i := din)) (im_blocks m) (unat (im_freeblock m))" and ij: "i < 200" "12 < j" "j < 269"
    and ind: "ind = get32 (din_addr 12) din" "ind \<noteq> 0"
    and room: "ptr (D(i := din)) (im_blocks m) (i, j) = 0 \<Longrightarrow> unat (im_freeblock m) < 1000"
    and step: "slot_block (4 * (j - 13)) (im_blocks m ! unat ind) m = (ind', m1)"
      "m' = (if get32 (4 * (j - 13)) (im_blocks m ! unat ind) = 0 then wsect ind ind' m1 else m1)"
  shows "rsect ind m = Some (im_blocks m ! unat ind)"
    "appends D i din m din m' (if ptr (D(i := din)) (im_blocks m) (i, j) = 0 then 1 else 0)"
    "unat (get32 (4 * (j - 13)) ind') = ptr (D(i := din)) (im_blocks m') (i, j)" "get32 (4 * (j - 13)) ind' \<noteq> 0"
proof -
  let ?D = "D(i := din)" and ?B = "im_blocks m" and ?f = "unat (im_freeblock m)"
  have pi: "ptr ?D ?B (i, 12) = unat ind" using ind by (simp add: ptr_direct)
  then have nz: "ptr ?D ?B (i, 12) \<noteq> 0" using ind(2) by (simp add: unat_eq_0)
  have small: "16 \<le> unat ind" "unat ind < ?f" using image_okD(8,9) [OF ok, of "(i, 12)"] ij nz pi by simp_all
  then have lt: "unat ind < 1000" "length ?B = 1000" "length (?B ! unat ind) = 1024"
    using image_okD(1,2,4) [OF ok] by simp_all
  then show "rsect ind m = Some (?B ! unat ind)" by (simp add: rsect_blocks)
  have pj: "ptr ?D ?B (i, j) = unat (get32 (4 * (j - 13)) (?B ! unat ind))" using ij pi by (simp add: ptr_indirect)
  have pos: "4 * (j - 13) + 4 \<le> 1024" using ij by simp
  have "appends D i din m din m' (if ptr ?D ?B (i, j) = 0 then 1 else 0) \<and>
    unat (get32 (4 * (j - 13)) ind') = ptr ?D (im_blocks m') (i, j) \<and> get32 (4 * (j - 13)) ind' \<noteq> 0"
  proof (cases "ptr ?D ?B (i, j) = 0")
    case False
    then have e: "get32 (4 * (j - 13)) (?B ! unat ind) \<noteq> 0" using pj by auto
    then have "ind' = ?B ! unat ind" "m' = m" using step by (auto simp: slot_block_def)
    then show ?thesis using False ok pj e by (simp add: appends_def)
  next
    case True
    have f: "?f < 1000" using room True by simp
    let ?B' = "?B[ptr ?D ?B (i, 12) := put32 (4 * (j - 13)) (of_nat ?f) (?B ! ptr ?D ?B (i, 12))]"
    have suc: "unat (im_freeblock m + 1) = Suc ?f" using f by (simp add: unat_word_ariths)
    have i': "ind' = put32 (4 * (j - 13)) (im_freeblock m) (?B ! unat ind)" "m1 = m\<lparr>im_freeblock := im_freeblock m + 1\<rparr>"
      using step(1) True pj by (simp_all add: slot_block_def take_free_def unat_eq_0)
    have m': "m' = m\<lparr>im_freeblock := im_freeblock m + 1, im_blocks := ?B'\<rparr>"
      using step(2) True pj lt i' by (simp add: unat_eq_0 wsect_blocks pi)
    note al = alloc_indirect [OF ok f ij nz refl]
    have "unat ind \<noteq> ptr ?D ?B t" if "t \<in> slots" "snd t \<noteq> 12" for t
    proof
      assume "unat ind = ptr ?D ?B t"
      then have "t = (i, 12)" using image_okD(10) [OF ok that(1), of "(i, 12)"] ij pi nz by simp
      with that(2) show False by simp
    qed
    then have "grows ?D ?B ?D ?B'" using al(2) True small by (auto simp: grows_def pi)
    then have "appends D i din m din m' (if ptr ?D ?B (i, j) = 0 then 1 else 0)"
      using al(1) suc True m' by (simp add: appends_def)
    moreover have "ptr ?D (im_blocks m') (i, j) = ?f" using al(2) [of "(i, j)"] ij m' by simp
    moreover have "get32 (4 * (j - 13)) ind' = im_freeblock m" using pos lt i' by simp
    moreover have "im_freeblock m \<noteq> 0" using image_okD(3) [OF ok] by auto
    ultimately show ?thesis by simp
  qed
  then show "appends D i din m din m' (if ptr ?D ?B (i, j) = 0 then 1 else 0)"
    "unat (get32 (4 * (j - 13)) ind') = ptr ?D (im_blocks m') (i, j)" "get32 (4 * (j - 13)) ind' \<noteq> 0" by simp_all
qed

definition need :: "(nat \<Rightarrow> u8 list) \<Rightarrow> u8 list list \<Rightarrow> nat \<times> nat \<Rightarrow> nat" where
  "need D B s = (if ptr D B s = 0 then 1 else 0)"

lemma append_block_ok:
  assumes ok: "image_ok (D(i := din)) (im_blocks m) (unat (im_freeblock m))" and i: "i < 200" "fbn < 268"
    and room: "unat (im_freeblock m) + need (D(i := din)) (im_blocks m) (i, slot_of fbn) +
      (if 12 \<le> fbn then need (D(i := din)) (im_blocks m) (i, 12) else 0) \<le> 1000"
  shows "\<exists>x din' m'. append_block fbn din m = Some (x, din', m') \<and>
    appends D i din m din' m' (need (D(i := din)) (im_blocks m) (i, slot_of fbn) + (if 12 \<le> fbn then need (D(i := din)) (im_blocks m) (i, 12) else 0)) \<and>
    unat x = ptr (D(i := din')) (im_blocks m') (i, slot_of fbn) \<and> x \<noteq> 0 \<and>
    (12 \<le> fbn \<longrightarrow> ptr (D(i := din')) (im_blocks m') (i, 12) \<noteq> 0) \<and>
    (fbn < 12 \<longrightarrow> ptr (D(i := din')) (im_blocks m') (i, 12) = ptr (D(i := din)) (im_blocks m) (i, 12))"
proof (cases "fbn < 12")
  case True
  have r: "ptr (D(i := din)) (im_blocks m) (i, fbn) = 0 \<Longrightarrow> unat (im_freeblock m) < 1000"
    using room True by (simp add: need_def slot_of_def)
  show ?thesis
    using append_block_direct [OF ok i(1) True r] True by (simp add: need_def slot_of_def)
next
  case False
  let ?D = "D(i := din)" and ?B = "im_blocks m"
  let ?j = "slot_of fbn"
  have j: "12 < ?j" "?j < 269" "fbn - 12 = ?j - 13" using False i by (simp_all add: slot_of_def)
  have r: "ptr ?D ?B (i, 12) = 0 \<Longrightarrow> unat (im_freeblock m) < 1000" using room False by (simp add: need_def)
  obtain din' m1 where s: "slot_block (din_addr 12) din m = (din', m1)" "im_blocks m1 = ?B" "im_sb m1 = im_sb m" "im_freeinode m1 = im_freeinode m"
    "image_ok (D(i := din')) ?B (unat (im_freeblock m1))" "get32 (din_addr 12) din' \<noteq> 0"
    "grows ?D ?B (D(i := din')) ?B" "slice 0 12 din' = slice 0 12 din"
    "unat (im_freeblock m1) = unat (im_freeblock m) + (if ptr ?D ?B (i, 12) = 0 then 1 else 0)"
    "\<forall>t \<in> slots. t \<noteq> (i, 12) \<longrightarrow> ptr (D(i := din')) ?B t = ptr ?D ?B t"
    using slot_block_direct [OF ok i(1) order_refl r] by blast
  define ind where "ind = get32 (din_addr 12) din'"
  obtain ind' m2 where st: "slot_block (4 * (?j - 13)) (im_blocks m1 ! unat ind) m1 = (ind', m2)"
    by (cases "slot_block (4 * (?j - 13)) (im_blocks m1 ! unat ind) m1")
  define m' where "m' = (if get32 (4 * (?j - 13)) (im_blocks m1 ! unat ind) = 0 then wsect ind ind' m2 else m2)"
  have same: "ptr (D(i := din')) ?B (i, ?j) = ptr ?D ?B (i, ?j)" using s(10) j i(1) by simp
  have ok1: "image_ok (D(i := din')) (im_blocks m1) (unat (im_freeblock m1))" using s(2,5) by simp
  have r1: "ptr (D(i := din')) (im_blocks m1) (i, ?j) = 0 \<Longrightarrow> unat (im_freeblock m1) < 1000"
    using room False s(9) unfolding s(2) same by (simp add: need_def split: if_splits)
  note e = indirect_entry [OF ok1 i(1) j(1,2) ind_def s(6) [folded ind_def] r1 st m'_def]
  have "append_block fbn din m = Some (get32 (4 * (?j - 13)) ind', din', m')"
    using False s(1) st e(1) j(3) by (simp add: append_block_def ind_def [symmetric] m'_def [symmetric])
  moreover have "appends D i din m din' m' (need ?D ?B (i, ?j) + need ?D ?B (i, 12))"
    using e(2) s(3,4,7,8,9) unfolding appends_def s(2) same need_def
    by (auto intro: grows_trans)
  moreover have "ptr (D(i := din')) (im_blocks m') (i, 12) \<noteq> 0" using s(6) by (simp add: ptr_direct unat_eq_0)
  ultimately show ?thesis using False e(3,4) by auto
qed

section \<open>Files\<close>

definition mk_byte :: "(nat \<Rightarrow> u8 list) \<Rightarrow> u8 list list \<Rightarrow> nat \<Rightarrow> nat \<Rightarrow> u8" where
  "mk_byte D B i y = B ! ptr D B (i, slot_of (y div 1024)) ! (y mod 1024)"

definition has_block :: "(nat \<Rightarrow> u8 list) \<Rightarrow> u8 list list \<Rightarrow> nat \<Rightarrow> nat \<Rightarrow> bool" where
  "has_block D B i n \<longleftrightarrow> n < 268 \<and> ptr D B (i, slot_of n) \<noteq> 0 \<and> (12 \<le> n \<longrightarrow> ptr D B (i, 12) \<noteq> 0)"

lemma slot_of_range: "n < 268 \<Longrightarrow> slot_of n < 269" "slot_of n \<noteq> 12" "slot_of n = slot_of k \<longleftrightarrow> n = k"
  by (auto simp: slot_of_def)

lemma has_block_grows:
  assumes "grows_but X D B D' B'" "i < 200" "has_block D B i n"
  shows "has_block D' B' i n" "(i, slot_of n) \<notin> X \<Longrightarrow> y div 1024 = n \<Longrightarrow> mk_byte D' B' i y = mk_byte D B i y"
  using assms slot_of_range [of n] by (auto simp: has_block_def grows_but_def mk_byte_def)

text \<open>One block of data is written.\<close>

lemma write_block:
  assumes ok: "image_ok D (im_blocks m) f" and i: "i < 200" "n < 268"
    and x: "unat x = ptr D (im_blocks m) (i, slot_of n)" "x \<noteq> 0" and d: "length d = 1024"
  shows "rsect x m = Some (im_blocks m ! unat x)" "length (im_blocks m ! unat x) = 1024"
    "wsect x d m = m\<lparr>im_blocks := (im_blocks m)[unat x := d]\<rparr>"
    "image_ok D ((im_blocks m)[unat x := d]) f"
    "grows_but {(i, slot_of n)} D (im_blocks m) D ((im_blocks m)[unat x := d])"
    "t \<in> slots \<Longrightarrow> ptr D ((im_blocks m)[unat x := d]) t = ptr D (im_blocks m) t"
    "y div 1024 = n \<Longrightarrow> mk_byte D ((im_blocks m)[unat x := d]) i y = d ! (y mod 1024)"
proof -
  let ?B = "im_blocks m" and ?s = "(i, slot_of n)"
  have s: "?s \<in> slots" "snd ?s \<noteq> 12" using i slot_of_range [of n] by simp_all
  have nz: "ptr D ?B ?s \<noteq> 0" using x by (simp add: unat_eq_0 [symmetric])
  have small: "16 \<le> unat x" "unat x < 1000" "length ?B = 1000"
    using image_okD(1,4) [OF ok] image_okD(8,9) [OF ok s(1)] nz x(1) by simp_all
  then show "rsect x m = Some (?B ! unat x)" "wsect x d m = m\<lparr>im_blocks := ?B[unat x := d]\<rparr>"
    by (simp_all add: rsect_blocks wsect_blocks)
  show "length (?B ! unat x) = 1024" using image_okD(2) [OF ok small(2)] .
  note w = write_data [OF ok s nz d, folded x(1)]
  show "image_ok D (?B[unat x := d]) f" using w(1) .
  show pt: "t \<in> slots \<Longrightarrow> ptr D (?B[unat x := d]) t = ptr D ?B t" for t using w(2) .
  have "unat x \<noteq> ptr D ?B t" if "t \<in> slots" "t \<noteq> ?s" for t
    using image_okD(10) [OF ok s(1) that(1)] nz x(1) that(2) by auto
  then show "grows_but {?s} D ?B D (?B[unat x := d])" using pt small by (auto simp: grows_but_def)
  show "y div 1024 = n \<Longrightarrow> mk_byte D (?B[unat x := d]) i y = d ! (y mod 1024)"
    using pt [OF s(1)] x(1) small by (simp add: mk_byte_def)
qed

lemma block_mod: "(y :: nat) div 1024 = n \<Longrightarrow> y mod 1024 = y - n * 1024" "n * 1024 \<le> y \<Longrightarrow> y < (n + 1) * 1024 \<Longrightarrow> y div 1024 = n"
  by (auto simp: modulo_nat_def mult.commute)

text \<open>Bytes and blocks of file \<open>i\<close> after the bytes \<open>q\<close> were appended at \<open>off\<close>.\<close>

definition extended :: "(nat \<Rightarrow> u8 list) \<Rightarrow> u8 list list \<Rightarrow> (nat \<Rightarrow> u8 list) \<Rightarrow> u8 list list \<Rightarrow> nat \<Rightarrow> nat \<Rightarrow> u8 list \<Rightarrow> bool" where
  "extended D B D' B' i off q \<longleftrightarrow> (\<forall>n. n * 1024 < off + length q \<longrightarrow> has_block D' B' i n) \<and>
     (\<forall>y < off + length q. mk_byte D' B' i y = (if y < off then mk_byte D B i y else q ! (y - off)))"

lemma append_step:
  assumes ok: "image_ok (D(i := din)) (im_blocks m) (unat (im_freeblock m))" and i: "i < 200"
    and n: "fbn = off div 1024" "fbn < 268" and p: "p \<noteq> []" and n1: "n1 = min (length p) ((fbn + 1) * 1024 - off)"
    and room: "unat (im_freeblock m) + c + need (D(i := din)) (im_blocks m) (i, 12) \<le> 1000"
    and c: "c = (if off mod 1024 = 0 then 1 else 0)"
    and old: "\<forall>n. n * 1024 < off \<longrightarrow> has_block (D(i := din)) (im_blocks m) i n"
  shows "\<exists>din' m'. iappend_from p din off m = iappend_from (drop n1 p) din' (off + n1) m' \<and>
    im_sb m' = im_sb m \<and> im_freeinode m' = im_freeinode m \<and> slice 0 12 din' = slice 0 12 din \<and>
    image_ok (D(i := din')) (im_blocks m') (unat (im_freeblock m')) \<and>
    grows_but ({i} \<times> UNIV) (D(i := din)) (im_blocks m) (D(i := din')) (im_blocks m') \<and>
    unat (im_freeblock m') + need (D(i := din')) (im_blocks m') (i, 12) \<le>
      unat (im_freeblock m) + c + need (D(i := din)) (im_blocks m) (i, 12) \<and>
    extended (D(i := din)) (im_blocks m) (D(i := din')) (im_blocks m') i off (take n1 p)"
proof -
  let ?D = "D(i := din)" and ?B = "im_blocks m" and ?f = "unat (im_freeblock m)"
  have cn: "need ?D ?B (i, slot_of fbn) \<le> c"
  proof (cases "off mod 1024 = 0")
    case False
    then have "fbn * 1024 < off" unfolding n(1) by (metis div_mult_mod_eq less_add_same_cancel1 neq0_conv)
    with old have "has_block ?D ?B i fbn" by blast
    then show ?thesis by (simp add: has_block_def need_def)
  qed (simp add: c need_def)
  then have r: "?f + need ?D ?B (i, slot_of fbn) + (if 12 \<le> fbn then need ?D ?B (i, 12) else 0) \<le> 1000"
    using room by simp
  obtain x din' m1 where s: "append_block fbn din m = Some (x, din', m1)"
    "appends D i din m din' m1 (need ?D ?B (i, slot_of fbn) + (if 12 \<le> fbn then need ?D ?B (i, 12) else 0))"
    "unat x = ptr (D(i := din')) (im_blocks m1) (i, slot_of fbn)" "x \<noteq> 0"
    "12 \<le> fbn \<longrightarrow> ptr (D(i := din')) (im_blocks m1) (i, 12) \<noteq> 0"
    "fbn < 12 \<longrightarrow> ptr (D(i := din')) (im_blocks m1) (i, 12) = ptr ?D ?B (i, 12)"
    using append_block_ok [OF ok i n(2) r] by blast
  let ?D' = "D(i := din')" and ?B1 = "im_blocks m1"
  have ok1: "image_ok ?D' ?B1 (unat (im_freeblock m1))" and g1: "grows ?D ?B ?D' ?B1" using s(2) by (simp_all add: appends_def)
  define d where "d = splice (off - fbn * 1024) (take n1 p) (?B1 ! unat x)"
  let ?B2 = "?B1[unat x := d]"
  have off: "fbn * 1024 \<le> off" "off < (fbn + 1) * 1024" unfolding n(1) by simp_all
  have n1': "0 < n1" "off - fbn * 1024 + n1 \<le> 1024" "n1 \<le> length p" using off p unfolding n1 by (auto simp: min_def)
  have lx: "length (?B1 ! unat x) = 1024" using write_block(2) [OF ok1 i n(2) s(3,4), of zeroes] by (simp add: zeroes_def)
  have ld: "length d = 1024" using n1' lx by (simp add: d_def)
  note w = write_block [OF ok1 i n(2) s(3,4) ld]
  let ?m' = "m1\<lparr>im_blocks := ?B2\<rparr>"
  have e1: "min (length p) (1024 + fbn * 1024 - off) = n1" by (simp add: n1)
  have step: "iappend_from p din off m = iappend_from (drop n1 p) din' (off + n1) ?m'"
    using p n s(1) w(1,3) e1 by (subst iappend_from.simps) (simp add: n(1) [symmetric] d_def [symmetric] Let_def)
  have g: "grows_but ({i} \<times> UNIV) ?D ?B ?D' ?B2"
    by (rule grows_but_mono [OF grows_but_trans [OF g1 w(5)]]) auto
  have i12: "(i, 12) \<in> slots" using i by simp
  have fr: "unat (im_freeblock m1) + need ?D' ?B2 (i, 12) \<le> ?f + c + need ?D ?B (i, 12)"
    using s(2,5,6) w(6) [OF i12] cn unfolding appends_def need_def [of _ _ "(i, 12)"] by (cases "fbn < 12") auto
  have "ptr ?D' ?B1 (i, slot_of fbn) \<noteq> 0" using s(3,4) by (metis unat_eq_0)
  then have new: "has_block ?D' ?B2 i fbn"
    using s(5) n(2) i w(6) slot_of_range [of fbn] unfolding has_block_def by simp
  have blocks: "has_block ?D' ?B2 i k" if "k * 1024 < off + n1" for k
  proof (cases "k * 1024 < off")
    case True
    then show ?thesis using has_block_grows(1) [OF g i] old by blast
  next
    case False
    then have "k = fbn" using that n1' off by linarith
    with new show ?thesis by simp
  qed
  have bytes: "mk_byte ?D' ?B2 i y = (if y < off then mk_byte ?D ?B i y else take n1 p ! (y - off))" if y: "y < off + n1" for y
  proof (cases "y div 1024 = fbn")
    case True
    note ym = block_mod(1) [OF True]
    have le: "fbn * 1024 \<le> y" "y - fbn * 1024 < 1024" using True by (auto simp flip: ym)
    have "mk_byte ?D' ?B2 i y = d ! (y - fbn * 1024)" using w(7) [OF True] ym by simp
    also have "\<dots> = (if off - fbn * 1024 \<le> y - fbn * 1024 \<and> y - fbn * 1024 < off - fbn * 1024 + n1
        then take n1 p ! (y - fbn * 1024 - (off - fbn * 1024)) else ?B1 ! unat x ! (y - fbn * 1024))"
      unfolding d_def using n1' lx le by (subst nth_splice) (simp_all add: min_absorb2)
    finally have b: "mk_byte ?D' ?B2 i y = (if y < off then ?B1 ! unat x ! (y - fbn * 1024) else take n1 p ! (y - off))"
      using y off le by auto
    have "?B1 ! unat x ! (y - fbn * 1024) = mk_byte ?D ?B i y" if "y < off"
    proof -
      have "has_block ?D ?B i fbn" using old le that by auto
      then show ?thesis using has_block_grows(2) [OF g1 i _ _ True] True ym s(3) by (simp add: mk_byte_def)
    qed
    with b show ?thesis by simp
  next
    case False
    have "y < off"
    proof (rule ccontr)
      assume "\<not> y < off"
      then have "y div 1024 = fbn" using off y n1' by (intro block_mod(2)) simp_all
      with False show False by simp
    qed
    moreover have "y div 1024 * 1024 < off" using \<open>y < off\<close> by (meson div_times_less_eq_dividend le_less_trans)
    ultimately have h: "has_block ?D ?B i (y div 1024)" using old by blast
    have "slot_of (y div 1024) \<noteq> slot_of fbn" using False slot_of_range(3) h n(2) by (auto simp: has_block_def)
    then have "mk_byte ?D' ?B2 i y = mk_byte ?D ?B i y"
      using has_block_grows(2) [OF grows_but_trans [OF g1 w(5)] i h] by simp
    with \<open>y < off\<close> show ?thesis by simp
  qed
  have "extended ?D ?B ?D' ?B2 i off (take n1 p)" using blocks bytes n1'(3) by (simp add: extended_def)
  then show ?thesis
    using step s(2) w(4) g fr by (intro exI [of _ din'] exI [of _ ?m']) (simp add: appends_def)
qed

text \<open>The blocks of \<open>n\<close> bytes, and those that \<open>n\<close> bytes at \<open>off\<close> add.\<close>

definition blocks_of :: "nat \<Rightarrow> nat" where
  "blocks_of n = (n + 1023) div 1024"

definition touched :: "nat \<Rightarrow> nat \<Rightarrow> nat" where
  "touched off n = blocks_of (off + n) - blocks_of off"

lemma blocks_of_mono: "a \<le> b \<Longrightarrow> blocks_of a \<le> blocks_of b"
  by (simp add: blocks_of_def div_le_mono)

lemma touched_step:
  assumes "0 < n" "n1 = min n ((off div 1024 + 1) * 1024 - off)"
  shows "(if off mod 1024 = 0 then 1 else 0) + touched (off + n1) (n - n1) = touched off n"
proof -
  have n1: "0 < n1" "n1 \<le> n" "n1 \<le> (off div 1024 + 1) * 1024 - off" using assms by (auto simp: min_def)
  define d r where "d = off div 1024" and "r = off mod 1024"
  have q: "off = 1024 * d + r" "r < 1024" by (simp_all add: d_def r_def)
  have le: "off + n1 \<le> 1024 * (d + 1)" using n1(3) q by (simp add: d_def [symmetric])
  have b: "blocks_of (off + n1) = d + 1"
    unfolding blocks_of_def by (rule div_nat_eqI) (use n1(1) q le in simp_all)
  have a: "blocks_of off + (if off mod 1024 = 0 then 1 else 0) = d + 1"
  proof (cases "r = 0")
    case True
    have "blocks_of off = d" unfolding blocks_of_def by (rule div_nat_eqI) (use True q in simp_all)
    with True show ?thesis by (simp add: r_def)
  next
    case False
    have "blocks_of off = d + 1" unfolding blocks_of_def by (rule div_nat_eqI) (use False q in simp_all)
    with False show ?thesis by (simp add: r_def)
  qed
  have "blocks_of (off + n1) \<le> blocks_of (off + n)" using n1 by (intro blocks_of_mono) simp
  then show ?thesis using a b n1(2) by (simp add: touched_def)
qed

lemma extended_trans:
  assumes "extended D B D1 B1 i off q" "extended D1 B1 D2 B2 i (off + length q) r"
  shows "extended D B D2 B2 i off (q @ r)"
  using assms unfolding extended_def by (auto simp: nth_append)

lemma iappend_from_ok:
  assumes "image_ok (D(i := din)) (im_blocks m) (unat (im_freeblock m))" "i < 200" "off + length p \<le> 268 * 1024"
    and "unat (im_freeblock m) + touched off (length p) + need (D(i := din)) (im_blocks m) (i, 12) \<le> 1000"
    and "\<forall>n. n * 1024 < off \<longrightarrow> has_block (D(i := din)) (im_blocks m) i n"
  shows "\<exists>din' m'. iappend_from p din off m = Some (din', off + length p, m') \<and>
    im_sb m' = im_sb m \<and> im_freeinode m' = im_freeinode m \<and> slice 0 12 din' = slice 0 12 din \<and>
    image_ok (D(i := din')) (im_blocks m') (unat (im_freeblock m')) \<and>
    grows_but ({i} \<times> UNIV) (D(i := din)) (im_blocks m) (D(i := din')) (im_blocks m') \<and>
    unat (im_freeblock m') + need (D(i := din')) (im_blocks m') (i, 12) \<le>
      unat (im_freeblock m) + touched off (length p) + need (D(i := din)) (im_blocks m) (i, 12) \<and>
    extended (D(i := din)) (im_blocks m) (D(i := din')) (im_blocks m') i off p"
  using assms
proof (induction "length p" arbitrary: p din off m rule: less_induct)
  case less
  show ?case
  proof (cases "p = []")
    case True
    then show ?thesis using less.prems by (simp add: iappend_from.simps extended_def)
  next
    case False
    define n1 where "n1 = min (length p) ((off div 1024 + 1) * 1024 - off)"
    have len: "0 < length p" using False by simp
    note ts = touched_step [OF len n1_def]
    have fbn: "off div 1024 < 268" using less.prems(3) len by linarith
    have lt: "off < (off div 1024 + 1) * 1024" by simp
    have n1: "0 < n1" "n1 \<le> length p" using len lt by (simp_all add: n1_def)
    define c where "c = (if off mod 1024 = 0 then 1 else (0 :: nat))"
    have room: "unat (im_freeblock m) + c + need (D(i := din)) (im_blocks m) (i, 12) \<le> 1000"
      using less.prems(4) ts by (simp add: c_def split: if_splits)
    obtain din1 m1 where s: "iappend_from p din off m = iappend_from (drop n1 p) din1 (off + n1) m1"
      "im_sb m1 = im_sb m" "im_freeinode m1 = im_freeinode m" "slice 0 12 din1 = slice 0 12 din"
      "image_ok (D(i := din1)) (im_blocks m1) (unat (im_freeblock m1))"
      "grows_but ({i} \<times> UNIV) (D(i := din)) (im_blocks m) (D(i := din1)) (im_blocks m1)"
      "unat (im_freeblock m1) + need (D(i := din1)) (im_blocks m1) (i, 12) \<le> unat (im_freeblock m) + c + need (D(i := din)) (im_blocks m) (i, 12)"
      "extended (D(i := din)) (im_blocks m) (D(i := din1)) (im_blocks m1) i off (take n1 p)"
      using append_step [OF less.prems(1,2) refl fbn False n1_def room c_def less.prems(5)] by blast
    have l1: "length (drop n1 p) = length p - n1" "length (take n1 p) = n1" using n1 by simp_all
    have h1: "\<forall>n. n * 1024 < off + n1 \<longrightarrow> has_block (D(i := din1)) (im_blocks m1) i n" using s(8) l1(2) by (simp add: extended_def)
    have r1: "unat (im_freeblock m1) + touched (off + n1) (length (drop n1 p)) + need (D(i := din1)) (im_blocks m1) (i, 12) \<le> 1000"
      using s(7) ts [folded c_def] less.prems(4) l1 by simp
    have le1: "off + n1 + length (drop n1 p) \<le> 268 * 1024" "off + n1 + length (drop n1 p) = off + length p" using less.prems(3) n1 by simp_all
    obtain din2 m2 where t: "iappend_from (drop n1 p) din1 (off + n1) m1 = Some (din2, off + length p, m2)"
      "im_sb m2 = im_sb m1" "im_freeinode m2 = im_freeinode m1" "slice 0 12 din2 = slice 0 12 din1"
      "image_ok (D(i := din2)) (im_blocks m2) (unat (im_freeblock m2))"
      "grows_but ({i} \<times> UNIV) (D(i := din1)) (im_blocks m1) (D(i := din2)) (im_blocks m2)"
      "unat (im_freeblock m2) + need (D(i := din2)) (im_blocks m2) (i, 12) \<le>
        unat (im_freeblock m1) + touched (off + n1) (length (drop n1 p)) + need (D(i := din1)) (im_blocks m1) (i, 12)"
      "extended (D(i := din1)) (im_blocks m1) (D(i := din2)) (im_blocks m2) i (off + n1) (drop n1 p)"
      using less.hyps [OF _ s(5) less.prems(2) le1(1) r1 h1] n1 len unfolding le1(2) by auto
    have "extended (D(i := din)) (im_blocks m) (D(i := din2)) (im_blocks m2) i off (take n1 p @ drop n1 p)"
      by (rule extended_trans [OF s(8)]) (use t(8) l1 in simp)
    moreover have "grows_but ({i} \<times> UNIV) (D(i := din)) (im_blocks m) (D(i := din2)) (im_blocks m2)"
      using grows_but_trans [OF s(6) t(6)] by simp
    moreover have "unat (im_freeblock m2) + need (D(i := din2)) (im_blocks m2) (i, 12) \<le>
        unat (im_freeblock m) + touched off (length p) + need (D(i := din)) (im_blocks m) (i, 12)"
      using t(7) s(7) ts [folded c_def] l1 by simp
    ultimately show ?thesis using s(1-4) t(1-5) by simp
  qed
qed

section \<open>Inodes in the image\<close>

definition inode_block :: "nat \<Rightarrow> nat" where
  "inode_block i = 2 + i div 16"

definition dins :: "u8 list list \<Rightarrow> nat \<Rightarrow> u8 list" where
  "dins B i = slice (i mod 16 * 64) 64 (B ! inode_block i)"

definition mk_size :: "u8 list list \<Rightarrow> nat \<Rightarrow> nat" where
  "mk_size B i = unat (get32 8 (dins B i))"

definition mk_content :: "u8 list list \<Rightarrow> nat \<Rightarrow> u8 list" where
  "mk_content B i = map (mk_byte (dins B) B i) [0..<mk_size B i]"

text \<open>An image between two operations of \<^verbatim>\<open>mkfs\<close>.\<close>

definition mk_ok :: "image \<Rightarrow> bool" where
  "mk_ok m \<longleftrightarrow> im_sb m = mk_super \<and> im_blocks m ! 1 = splice 0 (super_bytes mk_super) zeroes \<and> image_ok (dins (im_blocks m)) (im_blocks m) (unat (im_freeblock m)) \<and>
     (\<forall>i < NINODES. mk_size (im_blocks m) i \<le> MAXFILE * BSIZE \<and>
       (\<forall>n. n * BSIZE < mk_size (im_blocks m) i \<longrightarrow> has_block (dins (im_blocks m)) (im_blocks m) i n))"

lemma inode_at:
  assumes "i < 200"
  shows "dinode_off (of_nat i) = i mod 16 * 64" "unat (IBLOCK (of_nat i) mk_super) = inode_block i"
    "2 \<le> inode_block i" "inode_block i < 16" "i mod 16 * 64 + 64 \<le> 1024"
proof -
  have u: "unat (of_nat i :: u32) = i" using assms by (simp add: unat_of_nat)
  show "dinode_off (of_nat i) = i mod 16 * 64" using u by (simp add: dinode_off_def)
  have "unat (of_nat i div of_nat IPB :: u32) = i div 16" using u by (simp add: unat_div)
  moreover have "i div 16 \<le> 12" using assms by simp
  ultimately show "unat (IBLOCK (of_nat i) mk_super) = inode_block i"
    by (simp add: IBLOCK_def mk_super_def inode_block_def unat_word_ariths)
  show "2 \<le> inode_block i" "inode_block i < 16" "i mod 16 * 64 + 64 \<le> 1024" using assms by (simp_all add: inode_block_def)
qed

lemma dins_update:
  assumes "i < 200" "j < 200" "length B = 1000" "length (B ! inode_block i) = 1024" "length d = 64"
  shows "dins (B[inode_block i := splice (i mod 16 * 64) d (B ! inode_block i)]) j = (if j = i then d else dins B j)"
proof (cases "inode_block j = inode_block i")
  case True
  have bl: "inode_block i < length B" using inode_at(4) [OF assms(1)] assms(3) by simp
  have po: "i mod 16 * 64 + 64 \<le> 1024" "j mod 16 * 64 + 64 \<le> 1024" using inode_at(5) assms(1,2) by simp_all
  show ?thesis
  proof (cases "j = i")
    case True
    then show ?thesis using bl po assms(4,5) by (simp add: dins_def slice_splice_same)
  next
    case False
    have "i div 16 = j div 16" using True by (simp add: inode_block_def)
    then have "i mod 16 \<noteq> j mod 16" using False by (metis mod_mult_div_eq)
    then have "j mod 16 * 64 + 64 \<le> i mod 16 * 64 \<or> i mod 16 * 64 + length d \<le> j mod 16 * 64"
      using assms(5) by (cases "i mod 16 < j mod 16") auto
    then show ?thesis using False True bl po assms(4,5) by (simp add: dins_def slice_splice_other)
  qed
next
  case False
  then show ?thesis by (auto simp: dins_def)
qed

text \<open>Writing an inode block, and an inode with the same block numbers, leaves the slots as they are.\<close>

lemma image_ok_inode:
  assumes ok: "image_ok D B f" and b: "2 \<le> b" "b < 16" "length blk = 1024"
    and D': "\<forall>j < 200. length (D' j) = 64 \<and> (\<forall>a \<le> 12. get32 (din_addr a) (D' j) = get32 (din_addr a) (D j))"
  shows "image_ok D' (B[b := blk]) f" "t \<in> slots \<Longrightarrow> ptr D' (B[b := blk]) t = ptr D B t"
    "i < 200 \<Longrightarrow> n < 268 \<Longrightarrow> has_block D' (B[b := blk]) i n = has_block D B i n"
    "i < 200 \<Longrightarrow> has_block D B i (y div 1024) \<Longrightarrow> mk_byte D' (B[b := blk]) i y = mk_byte D B i y"
proof -
  note ok' = image_okD [OF ok]
  have ne: "b \<noteq> ptr D B t" if "t \<in> slots" for t
    using ok'(8) [OF that] b by (cases "ptr D B t = 0") auto
  have p: "ptr D' (B[b := blk]) (i, j) = ptr D B (i, j)" if t: "i < 200" "j < 269" for i j
  proof (cases "j \<le> 12")
    case True
    then show ?thesis using D' t by (simp add: ptr_direct)
  next
    case False
    have "ptr D' (B[b := blk]) (i, 12) = ptr D B (i, 12)" using D' t by (simp add: ptr_direct)
    moreover have "b \<noteq> ptr D B (i, 12)" using ne [of "(i, 12)"] t by simp
    ultimately show ?thesis using False by (simp add: ptr_indirect)
  qed
  then show pt: "t \<in> slots \<Longrightarrow> ptr D' (B[b := blk]) t = ptr D B t" for t by (cases t) simp
  show "image_ok D' (B[b := blk]) f"
    unfolding image_ok_def
  proof (intro conjI ballI allI impI)
    fix t u assume "t \<in> slots" "u \<in> slots" "ptr D' (B[b := blk]) t = ptr D' (B[b := blk]) u" "ptr D' (B[b := blk]) t \<noteq> 0"
    then show "t = u" using ok'(10) [of t u] pt by simp
  next
    fix t assume "t \<in> slots" "ptr D' (B[b := blk]) t \<noteq> 0"
    then show "nmeta \<le> ptr D' (B[b := blk]) t" "ptr D' (B[b := blk]) t < f" using ok'(8,9) [of t] pt by simp_all
  next
    fix c assume "c < FSSIZE" then show "length (B[b := blk] ! c) = BSIZE" using ok'(1,2) b by (cases "c = b") simp_all
  next
    fix c assume "f \<le> c" "c < FSSIZE" then show "B[b := blk] ! c = zeroes" using ok'(3,6) b by simp
  next
    fix j assume "j < NINODES" then show "length (D' j) = DINODE_SIZE" using D' by simp
  qed (use ok'(1,3,4,5) b in simp_all)
  show hb: "i < 200 \<Longrightarrow> n < 268 \<Longrightarrow> has_block D' (B[b := blk]) i n = has_block D B i n"
    using p slot_of_range [of n] by (simp add: has_block_def)
  show "i < 200 \<Longrightarrow> has_block D B i (y div 1024) \<Longrightarrow> mk_byte D' (B[b := blk]) i y = mk_byte D B i y"
    using p slot_of_range [of "y div 1024"] ne [of "(i, slot_of (y div 1024))"] by (simp add: has_block_def mk_byte_def)
qed

lemma rinode_ok:
  assumes "image_ok D (im_blocks m) f" "im_sb m = mk_super" "i < 200"
  shows "rinode (of_nat i) m = Some (dins (im_blocks m) i)"
proof -
  note l = image_okD(1) [OF assms(1)] and a = inode_at [OF assms(3)]
  have "rsect (IBLOCK (of_nat i) mk_super) m = Some (im_blocks m ! inode_block i)"
    using l a by (subst rsect_blocks) simp_all
  then show ?thesis using a(1) assms(2) by (simp add: rinode_def dins_def)
qed

lemma winode_ok:
  assumes "image_ok D (im_blocks m) f" "im_sb m = mk_super" "i < 200"
  shows "winode (of_nat i) d m = Some (m\<lparr>im_blocks := (im_blocks m)[inode_block i :=
    splice (i mod 16 * 64) d (im_blocks m ! inode_block i)]\<rparr>)"
proof -
  note l = image_okD(1) [OF assms(1)] and a = inode_at [OF assms(3)]
  have "rsect (IBLOCK (of_nat i) mk_super) m = Some (im_blocks m ! inode_block i)"
    using l a by (subst rsect_blocks) simp_all
  then show ?thesis using a l assms(2) by (simp add: winode_def wsect_blocks)
qed

lemma put_size:
  assumes "length d = 64"
  shows "length (put32 8 v d) = 64" "get32 8 (put32 8 v d) = v" "get32 (din_addr a) (put32 8 v d) = get32 (din_addr a) d \<or> 12 < a"
    "get16 0 (put32 8 v d) = get16 0 (slice 0 12 d)"
proof -
  show "length (put32 8 v d) = 64" "get32 8 (put32 8 v d) = v" using assms by simp_all
  show "get32 (din_addr a) (put32 8 v d) = get32 (din_addr a) d \<or> 12 < a"
    using assms get32_put32_other [of "din_addr a" d 8 v] by (cases "a \<le> 12") (auto simp: din_addr_def)
  have "slice 0 2 (slice 0 12 d) = slice 0 2 d" using assms by (simp add: slice_def)
  moreover have "slice 0 2 (put32 8 v d) = slice 0 2 d" unfolding put32_def using assms by (subst slice_splice_other) simp_all
  ultimately show "get16 0 (put32 8 v d) = get16 0 (slice 0 12 d)" by (simp add: get16_def)
qed

lemma mk_okD:
  assumes "mk_ok m"
  shows "im_sb m = mk_super" "image_ok (dins (im_blocks m)) (im_blocks m) (unat (im_freeblock m))"
    "i < 200 \<Longrightarrow> mk_size (im_blocks m) i \<le> 268 * 1024"
    "i < 200 \<Longrightarrow> n * 1024 < mk_size (im_blocks m) i \<Longrightarrow> has_block (dins (im_blocks m)) (im_blocks m) i n"
    "im_blocks m ! 1 = splice 0 (super_bytes mk_super) zeroes"
  using assms by (auto simp: mk_ok_def)

lemma byte_has_block: "i < 200 \<Longrightarrow> y < mk_size (im_blocks m) i \<Longrightarrow> mk_ok m \<Longrightarrow> has_block (dins (im_blocks m)) (im_blocks m) i (y div 1024)"
  by (rule mk_okD(4)) (auto intro: le_less_trans [OF div_times_less_eq_dividend])

text \<open>The blocks that appending \<open>n\<close> bytes to file \<open>i\<close> may take.\<close>

definition mk_cost :: "image \<Rightarrow> nat \<Rightarrow> nat \<Rightarrow> nat" where
  "mk_cost m i n = touched (mk_size (im_blocks m) i) n + need (dins (im_blocks m)) (im_blocks m) (i, 12)"

lemma iappend_ok:
  assumes ok: "mk_ok m" and i: "i < 200" and len: "mk_size (im_blocks m) i + length p \<le> 268 * 1024"
    and room: "unat (im_freeblock m) + mk_cost m i (length p) \<le> 1000"
  shows "\<exists>m'. iappend (of_nat i) p m = Some m' \<and> mk_ok m' \<and> im_freeinode m' = im_freeinode m \<and>
    mk_content (im_blocks m') i = mk_content (im_blocks m) i @ p \<and>
    get16 0 (dins (im_blocks m') i) = get16 0 (dins (im_blocks m) i) \<and>
    (\<forall>j < 200. j \<noteq> i \<longrightarrow> mk_content (im_blocks m') j = mk_content (im_blocks m) j \<and> dins (im_blocks m') j = dins (im_blocks m) j) \<and>
    unat (im_freeblock m') + need (dins (im_blocks m')) (im_blocks m') (i, 12) \<le> unat (im_freeblock m) + mk_cost m i (length p) \<and>
    (\<forall>j < 200. need (dins (im_blocks m')) (im_blocks m') (j, 12) \<le> need (dins (im_blocks m)) (im_blocks m) (j, 12))"
proof -
  let ?B = "im_blocks m" and ?D = "dins (im_blocks m)"
  let ?sz = "mk_size ?B i"
  note okm = mk_okD [OF ok]
  have upd: "?D(i := ?D i) = ?D" by simp
  obtain din' m1 where s: "iappend_from p (?D i) ?sz m = Some (din', ?sz + length p, m1)"
    "im_sb m1 = im_sb m" "im_freeinode m1 = im_freeinode m" "slice 0 12 din' = slice 0 12 (?D i)"
    "image_ok (?D(i := din')) (im_blocks m1) (unat (im_freeblock m1))"
    "grows_but ({i} \<times> UNIV) ?D ?B (?D(i := din')) (im_blocks m1)"
    "unat (im_freeblock m1) + need (?D(i := din')) (im_blocks m1) (i, 12) \<le> unat (im_freeblock m) + mk_cost m i (length p)"
    "extended ?D ?B (?D(i := din')) (im_blocks m1) i ?sz p"
    using iappend_from_ok [of ?D i "?D i" m ?sz p, unfolded upd] okm i len room unfolding mk_cost_def by auto
  let ?B1 = "im_blocks m1" and ?D1 = "?D(i := din')"
  define d where "d = put32 8 (of_nat (?sz + length p)) din'"
  have l64: "length din' = 64" using image_okD(7) [OF s(5) i] by simp
  define b where "b = splice (i mod 16 * 64) d (?B1 ! inode_block i)"
  define B2 where "B2 = ?B1[inode_block i := b]"
  note a = inode_at [OF i] and lens = image_okD(1,2) [OF s(5)]
  have l1: "length (?B1 ! inode_block i) = 1024" using lens(2) a(4) by simp
  note pz = put_size [where v = "of_nat (?sz + length p)", OF l64, folded d_def]
  have lb: "length b = 1024" using l1 a(5) pz(1) by (simp add: b_def)
  have low: "?B1 ! c = ?B ! c" if "c < 16" for c using s(6) that by (simp add: grows_but_def)
  have D1: "dins ?B1 j = ?D j" if "j < 200" for j using low [OF inode_at(4) [OF that]] by (simp add: dins_def)
  have D2: "dins B2 j = (if j = i then d else ?D j)" if "j < 200" for j
    using dins_update [OF i that lens(1) l1 pz(1)] D1 [OF that] by (simp add: B2_def b_def)
  have eq12: "get32 (din_addr c) d = get32 (din_addr c) din'" if "c \<le> 12" for c using pz(3) [of c] that by linarith
  have fields: "\<forall>j < 200. length (dins B2 j) = 64 \<and> (\<forall>c \<le> 12. get32 (din_addr c) (dins B2 j) = get32 (din_addr c) (?D1 j))"
    using D2 pz(1) eq12 image_okD(7) [OF okm(2)] by simp
  note io = image_ok_inode [OF s(5) a(3,4) lb, of "dins B2", folded B2_def, OF fields]
  let ?m' = "m1\<lparr>im_blocks := B2\<rparr>"
  have u: "unat (of_nat (?sz + length p) :: u32) = ?sz + length p" using len by (simp add: unat_of_nat del: of_nat_add)
  have res: "iappend (of_nat i) p m = Some ?m'"
    using rinode_ok [OF okm(2,1) i] s(1) winode_ok [OF s(5) _ i, of d] okm(1) s(2)
    by (simp add: iappend_def mk_size_def [symmetric] d_def [symmetric] B2_def b_def del: of_nat_add)
  have sz: "mk_size B2 j = (if j = i then ?sz + length p else mk_size ?B j)" if "j < 200" for j
    using D2 [OF that] pz(2) u by (simp add: mk_size_def)
  have hb2: "has_block (dins B2) B2 j n" if "j < 200" "n * 1024 < mk_size B2 j" for j n
  proof -
    have h: "has_block ?D1 ?B1 j n"
    proof (cases "j = i")
      case True
      then show ?thesis using that sz [OF that(1)] s(8) by (simp add: extended_def)
    next
      case False
      then have "has_block ?D ?B j n" using that sz [OF that(1)] okm(4) by simp
      then show ?thesis using has_block_grows(1) [OF s(6) that(1)] by simp
    qed
    then have "n < 268" by (simp add: has_block_def)
    with h io(3) [OF that(1)] show ?thesis by simp
  qed
  have byte: "mk_byte (dins B2) B2 j y = mk_byte ?D1 ?B1 j y" if "j < 200" "has_block ?D1 ?B1 j (y div 1024)" for j y
    using io(4) [OF that] .
  have mine: "mk_byte (dins B2) B2 i y = (if y < ?sz then mk_byte ?D ?B i y else p ! (y - ?sz))" if "y < ?sz + length p" for y
  proof -
    have "y div 1024 * 1024 < ?sz + length p" using that by (meson div_times_less_eq_dividend le_less_trans)
    then have "has_block ?D1 ?B1 i (y div 1024)" using s(8) by (simp add: extended_def)
    from byte [OF i this] show ?thesis using s(8) that by (simp add: extended_def)
  qed
  have "mk_content B2 i = map (\<lambda>y. if y < ?sz then mk_byte ?D ?B i y else p ! (y - ?sz)) [0..<?sz + length p]"
    unfolding mk_content_def sz [OF i] using mine by simp
  also have "\<dots> = mk_content ?B i @ p"
    by (rule nth_equalityI) (auto simp: mk_content_def nth_append)
  finally have c1: "mk_content B2 i = mk_content ?B i @ p" .
  have c2: "mk_content B2 j = mk_content ?B j" if j: "j < 200" "j \<noteq> i" for j
  proof -
    have "mk_byte (dins B2) B2 j y = mk_byte ?D ?B j y" if "y < mk_size ?B j" for y
    proof -
      have h: "has_block ?D ?B j (y div 1024)" using byte_has_block [OF j(1) that ok] .
      have "(j, slot_of (y div 1024)) \<notin> {i} \<times> UNIV" using j(2) by simp
      then show ?thesis using has_block_grows [OF s(6) j(1) h] byte [OF j(1)] by simp
    qed
    then show ?thesis using sz [OF j(1)] j(2) by (simp add: mk_content_def)
  qed
  have "B2 ! 1 = ?B ! 1" using a(3) low [of 1] by (simp add: B2_def)
  then have "mk_ok ?m'"
    unfolding mk_ok_def using io(1) s(2) okm(1,3,5) sz len hb2 by (auto split: if_splits)
  moreover have "get16 0 (dins B2 i) = get16 0 (?D i)"
  proof -
    have "length (?D i) = 64" using image_okD(7) [OF okm(2) i] .
    then have "slice 0 2 (slice 0 12 (?D i)) = slice 0 2 (?D i)" by (simp add: slice_def)
    then show ?thesis using D2 [OF i] pz(4) s(4) by (simp add: get16_def)
  qed
  moreover have "need (dins B2) B2 (i, 12) = need ?D1 ?B1 (i, 12)" using io(2) [of "(i, 12)"] i by (simp add: need_def)
  moreover have "need (dins B2) B2 (j, 12) \<le> need ?D ?B (j, 12)" if "j < 200" for j
    using io(2) [of "(j, 12)"] s(6) that by (auto simp: need_def grows_but_def)
  ultimately show ?thesis using res c1 c2 D2 s(3,7) i by (intro exI [of _ ?m']) simp
qed

end
