(* ===== verification/MkfsProps.thy ===== *)
theory MkfsProps
  imports MkfsSpec
begin

text \<open>
  The whole of \<^verbatim>\<open>mkfs\<close>: the blank image, new inodes, the files one after the other, the size of
  the root directory and the bitmap; and what the kernel finds in the image.
\<close>

section \<open>The blank image\<close>

lemma wsect_all: "n \<le> 1000 \<Longrightarrow>
    fold (\<lambda>i. wsect (of_nat i) zeroes) [0..<n] (m\<lparr>im_blocks := []\<rparr>) = m\<lparr>im_blocks := replicate n zeroes\<rparr>"
proof (induction n)
  case 0
  then show ?case by simp
next
  case (Suc n)
  then have "sect_pos (of_nat n) = n" by (simp add: sect_pos_small unat_of_nat)
  with Suc show ?case by (simp add: wsect_def replicate_append_same)
qed

lemma blank_blocks:
  "im_blocks mk_blank = (replicate 1000 zeroes)[1 := splice 0 (super_bytes mk_super) zeroes]"
  "im_sb mk_blank = mk_super" "im_freeinode mk_blank = 1" "im_freeblock mk_blank = 16"
proof -
  have z: "fold (\<lambda>i. wsect (of_nat i) zeroes) [0..<1000] \<lparr>im_blocks = [], im_sb = mk_super, im_freeinode = 1, im_freeblock = 16\<rparr> =
      \<lparr>im_blocks = replicate 1000 zeroes, im_sb = mk_super, im_freeinode = 1, im_freeblock = 16\<rparr>"
    using wsect_all [of 1000 "\<lparr>im_blocks = [], im_sb = mk_super, im_freeinode = 1, im_freeblock = 16\<rparr>"] by simp
  have one: "sect_pos 1 = 1" by (simp add: sect_pos_small)
  have e: "mk_blank = \<lparr>im_blocks = (replicate 1000 zeroes)[1 := splice 0 (super_bytes mk_super) zeroes],
      im_sb = mk_super, im_freeinode = 1, im_freeblock = 16\<rparr>"
    unfolding mk_blank_def Let_def mk_consts of_nat_numeral z by (simp add: wsect_def one)
  show "im_blocks mk_blank = (replicate 1000 zeroes)[1 := splice 0 (super_bytes mk_super) zeroes]"
    "im_sb mk_blank = mk_super" "im_freeinode mk_blank = 1" "im_freeblock mk_blank = 16" unfolding e by simp_all
qed

lemma length_super: "length (splice 0 (super_bytes s) zeroes) = 1024"
  by (simp add: super_bytes_def zeroes_def)

lemma blank_block:
  "b < 1000 \<Longrightarrow> b \<noteq> 1 \<Longrightarrow> im_blocks mk_blank ! b = zeroes" "length (im_blocks mk_blank) = 1000"
  "im_blocks mk_blank ! 1 = splice 0 (super_bytes mk_super) zeroes"
  by (simp_all add: blank_blocks)

text \<open>Inodes that have not been handed out are blank.\<close>

definition fresh :: "u8 list list \<Rightarrow> nat \<Rightarrow> bool" where
  "fresh B k \<longleftrightarrow> (\<forall>i < NINODES. k \<le> i \<longrightarrow> dins B i = replicate 64 0)"

lemma blank_dins: "i < 200 \<Longrightarrow> dins (im_blocks mk_blank) i = replicate 64 0"
  using inode_at [of i] blank_block(1) [of "inode_block i"]
  by (simp add: dins_def slice_def zeroes_def min_absorb1)

lemma get32_blank: "a + 4 \<le> 64 \<Longrightarrow> get32 a (replicate 64 0) = 0"
proof -
  assume "a + 4 \<le> 64"
  then have "slice a 4 (replicate 64 0) = replicate 4 (0 :: u8)" by (simp add: slice_def take_replicate drop_replicate)
  then show ?thesis by (simp add: get32_def numeral_eq_Suc)
qed

lemma blank_ptr: "s \<in> slots \<Longrightarrow> ptr (dins (im_blocks mk_blank)) (im_blocks mk_blank) s = 0"
proof (cases s)
  case (Pair i j)
  assume s: "s \<in> slots"
  have d: "a \<le> 12 \<Longrightarrow> get32 (din_addr a) (dins (im_blocks mk_blank) i) = 0" for a
    using s Pair blank_dins [of i] get32_blank [of "din_addr a"] by (simp add: din_addr_def)
  have "j < 269" using s Pair by simp
  then have "get32 (4 * (j - 13)) zeroes = 0" by (intro get32_zeroes) simp
  then show ?thesis
    using s Pair d blank_block(1) [of 0]
    by (cases "j \<le> 12") (simp_all add: ptr_direct ptr_indirect)
qed

lemma mk_size_blank: "dins B i = replicate 64 0 \<Longrightarrow> mk_size B i = 0"
  by (simp add: mk_size_def get32_blank)

lemma mk_blank_ok: "mk_ok mk_blank" "fresh (im_blocks mk_blank) 1"
proof -
  have len: "b < 1000 \<Longrightarrow> length (im_blocks mk_blank ! b) = 1024" for b
    using blank_block(1) [of b] blank_block(3) length_super by (cases "b = 1") (simp_all add: zeroes_def)
  have "image_ok (dins (im_blocks mk_blank)) (im_blocks mk_blank) 16"
    unfolding image_ok_def using blank_ptr blank_block(1,2) len blank_dins by simp
  then show "mk_ok mk_blank"
    using blank_blocks(2,4) blank_dins mk_size_blank blank_block(3) by (simp add: mk_ok_def)
  show "fresh (im_blocks mk_blank) 1" using blank_dins by (simp add: fresh_def)
qed

section \<open>A new inode\<close>

definition blank_din :: "u16 \<Rightarrow> u8 list" where
  "blank_din type = put32 din_size (xint 0) (put16 2 (xshort 1) (put16 0 (xshort type) (replicate DINODE_SIZE 0)))"

lemma get32_put16_other: "a + 4 \<le> length d \<Longrightarrow> b + 2 \<le> length d \<Longrightarrow> b + 2 \<le> a \<Longrightarrow> get32 a (put16 b v d) = get32 a d"
  by (simp add: get32_def put16_def slice_splice_other)

lemma xshort_id [simp]: "xshort x = x"
proof -
  have "[ucast x, ucast (drop_bit 8 x)] = le_bytes 2 x" by (simp add: le_bytes_def upt_rec)
  then show ?thesis by (simp add: xshort_def le_word_le_bytes del: le_word.simps)
qed

lemma blank_din_fields:
  "length (blank_din ty) = 64" "get32 8 (blank_din ty) = 0" "get16 0 (blank_din ty) = ty"
  "a \<le> 12 \<Longrightarrow> get32 (din_addr a) (blank_din ty) = 0"
proof -
  show "length (blank_din ty) = 64" "get32 8 (blank_din ty) = 0" by (simp_all add: blank_din_def)
  have "slice 0 2 (blank_din ty) = le_bytes 2 ty"
    unfolding blank_din_def put32_def put16_def by (simp add: slice_splice_other slice_splice_same)
  then show "get16 0 (blank_din ty) = ty" by (simp add: get16_def le_word_le_bytes)
  show "a \<le> 12 \<Longrightarrow> get32 (din_addr a) (blank_din ty) = 0"
    using get32_blank [of "din_addr a"]
    by (simp add: blank_din_def get32_put32_other get32_put16_other din_addr_def)
qed

lemma mk_ialloc_ok:
  assumes ok: "mk_ok m" and i: "unat (im_freeinode m) = i" "i < 200" and new: "dins (im_blocks m) i = replicate 64 0"
  shows "\<exists>m'. mk_ialloc ty m = Some (of_nat i, m') \<and> mk_ok m' \<and> im_freeinode m' = of_nat (Suc i) \<and>
    im_freeblock m' = im_freeblock m \<and> mk_content (im_blocks m') i = [] \<and> get16 0 (dins (im_blocks m') i) = ty \<and>
    (\<forall>j < 200. j \<noteq> i \<longrightarrow> mk_content (im_blocks m') j = mk_content (im_blocks m) j \<and> dins (im_blocks m') j = dins (im_blocks m) j) \<and>
    (\<forall>j < 200. need (dins (im_blocks m')) (im_blocks m') (j, 12) = need (dins (im_blocks m)) (im_blocks m) (j, 12))"
proof -
  let ?B = "im_blocks m" and ?D = "dins (im_blocks m)"
  note okm = mk_okD [OF ok] and a = inode_at [OF i(2)] and bf = blank_din_fields [where ty = ty]
  have fi: "im_freeinode m = of_nat i" by (simp flip: i(1))
  let ?m1 = "m\<lparr>im_freeinode := im_freeinode m + 1\<rparr>"
  define b where "b = splice (i mod 16 * 64) (blank_din ty) (?B ! inode_block i)"
  define B2 where "B2 = ?B[inode_block i := b]"
  note lens = image_okD(1,2) [OF okm(2)]
  have l1: "length (?B ! inode_block i) = 1024" using lens(2) a(4) by simp
  have lb: "length b = 1024" using l1 a(5) bf(1) by (simp add: b_def)
  have D2: "dins B2 j = (if j = i then blank_din ty else ?D j)" if "j < 200" for j
    using dins_update [OF i(2) that lens(1) l1 bf(1)] by (simp add: B2_def b_def)
  have fields: "\<forall>j < 200. length (dins B2 j) = 64 \<and> (\<forall>c \<le> 12. get32 (din_addr c) (dins B2 j) = get32 (din_addr c) (?D j))"
    using D2 bf(1,4) image_okD(7) [OF okm(2)] new get32_blank by (simp add: din_addr_def)
  note io = image_ok_inode [OF okm(2) a(3,4) lb, of "dins B2", folded B2_def, OF fields]
  have w: "winode (of_nat i) (blank_din ty) ?m1 = Some (?m1\<lparr>im_blocks := B2\<rparr>)"
    using winode_ok [of ?D ?m1 _ i "blank_din ty"] okm(1,2) i(2) by (simp add: B2_def b_def)
  let ?m' = "?m1\<lparr>im_blocks := B2\<rparr>"
  have res: "mk_ialloc ty m = Some (of_nat i, ?m')"
    using w unfolding mk_ialloc_def Let_def blank_din_def [symmetric] fi by simp
  have sz: "mk_size B2 j = (if j = i then 0 else mk_size ?B j)" if "j < 200" for j
    using D2 [OF that] bf(2) by (simp add: mk_size_def)
  have hb: "has_block (dins B2) B2 j n" if "j < 200" "n * 1024 < mk_size B2 j" for j n
  proof -
    have "has_block ?D ?B j n" using that sz [OF that(1)] okm(4) by (simp split: if_splits)
    then show ?thesis using io(3) [OF that(1), of n] by (simp add: has_block_def)
  qed
  have c: "mk_content B2 j = mk_content ?B j" if "j < 200" "j \<noteq> i" for j
    using that sz byte_has_block [OF that(1) _ ok] io(4) [OF that(1)] by (simp add: mk_content_def)
  have n: "need (dins B2) B2 (j, 12) = need ?D ?B (j, 12)" if "j < 200" for j
    using io(2) [of "(j, 12)"] that by (simp add: need_def)
  have "B2 ! 1 = ?B ! 1" using a(3) by (simp add: B2_def)
  then have "mk_ok ?m'" unfolding mk_ok_def using io(1) okm(1,3,5) sz hb by simp
  moreover have "mk_content B2 i = []" using sz [OF i(2)] by (simp add: mk_content_def)
  ultimately show ?thesis using res c n D2 i(2) bf(3) by (intro exI [of _ ?m']) (simp add: fi add.commute)
qed

section \<open>The files\<close>

lemma length_content [simp]: "length (mk_content B i) = mk_size B i"
  by (simp add: mk_content_def)

text \<open>What an operation on file \<open>i\<close> keeps of the others.\<close>

definition others_same :: "image \<Rightarrow> image \<Rightarrow> nat \<Rightarrow> bool" where
  "others_same m m' i \<longleftrightarrow>
     (\<forall>j < 200. j \<noteq> i \<longrightarrow> mk_content (im_blocks m') j = mk_content (im_blocks m) j \<and> dins (im_blocks m') j = dins (im_blocks m) j) \<and>
     (\<forall>j < 200. need (dins (im_blocks m')) (im_blocks m') (j, 12) \<le> need (dins (im_blocks m)) (im_blocks m) (j, 12))"

lemma others_same_refl [simp]: "others_same m m i"
  by (simp add: others_same_def)

lemma others_same_trans: "others_same m m1 i \<Longrightarrow> others_same m1 m2 i \<Longrightarrow> others_same m m2 i"
  unfolding others_same_def by (auto intro: order_trans)

lemma iappend_same:
  assumes "mk_ok m" "i < 200" "mk_size (im_blocks m) i + length p \<le> 268 * 1024"
    and "unat (im_freeblock m) + mk_cost m i (length p) \<le> 1000"
  shows "\<exists>m'. iappend (of_nat i) p m = Some m' \<and> mk_ok m' \<and> im_freeinode m' = im_freeinode m \<and>
    mk_content (im_blocks m') i = mk_content (im_blocks m) i @ p \<and>
    get16 0 (dins (im_blocks m') i) = get16 0 (dins (im_blocks m) i) \<and> others_same m m' i \<and>
    unat (im_freeblock m') + need (dins (im_blocks m')) (im_blocks m') (i, 12) \<le> unat (im_freeblock m) + mk_cost m i (length p)"
  using iappend_ok [OF assms] unfolding others_same_def by blast

lemma touched_add: "touched off (a + b) = touched off a + touched (off + a) b"
  using blocks_of_mono [of off "off + a"] blocks_of_mono [of "off + a" "off + a + b"] by (simp add: touched_def add.assoc)

lemma iappend_all_ok:
  assumes "mk_ok m" "i < 200" "mk_size (im_blocks m) i + length (concat cs) \<le> 268 * 1024"
    and "unat (im_freeblock m) + mk_cost m i (length (concat cs)) \<le> 1000"
  shows "\<exists>m'. iappend_all (of_nat i) cs m = Some m' \<and> mk_ok m' \<and> im_freeinode m' = im_freeinode m \<and>
    mk_content (im_blocks m') i = mk_content (im_blocks m) i @ concat cs \<and>
    get16 0 (dins (im_blocks m') i) = get16 0 (dins (im_blocks m) i) \<and> others_same m m' i \<and>
    unat (im_freeblock m') + need (dins (im_blocks m')) (im_blocks m') (i, 12) \<le> unat (im_freeblock m) + mk_cost m i (length (concat cs))"
  using assms
proof (induction cs arbitrary: m)
  case Nil
  then show ?case by (simp add: mk_cost_def touched_def)
next
  case (Cons c cs)
  let ?s = "mk_size (im_blocks m) i"
  have cost: "mk_cost m i (length (concat (c # cs))) = mk_cost m i (length c) + touched (?s + length c) (length (concat cs))"
    by (simp add: mk_cost_def touched_add)
  have r: "?s + length c \<le> 268 * 1024" "unat (im_freeblock m) + mk_cost m i (length c) \<le> 1000"
    using Cons.prems(3,4) unfolding cost by simp_all
  obtain m1 where m1: "iappend (of_nat i) c m = Some m1" "mk_ok m1" "im_freeinode m1 = im_freeinode m"
    "mk_content (im_blocks m1) i = mk_content (im_blocks m) i @ c" "get16 0 (dins (im_blocks m1) i) = get16 0 (dins (im_blocks m) i)"
    "others_same m m1 i"
    "unat (im_freeblock m1) + need (dins (im_blocks m1)) (im_blocks m1) (i, 12) \<le> unat (im_freeblock m) + mk_cost m i (length c)"
    using iappend_same [OF Cons.prems(1,2) r] by blast
  have s1: "mk_size (im_blocks m1) i = ?s + length c" using m1(4) by (metis length_content length_append)
  have c1: "unat (im_freeblock m1) + mk_cost m1 i (length (concat cs)) \<le> unat (im_freeblock m) + mk_cost m i (length (concat (c # cs)))"
    unfolding cost using m1(7) by (simp add: mk_cost_def [of m1] s1)
  have r1: "mk_size (im_blocks m1) i + length (concat cs) \<le> 268 * 1024" "unat (im_freeblock m1) + mk_cost m1 i (length (concat cs)) \<le> 1000"
    using Cons.prems(3,4) c1 s1 by simp_all
  obtain m2 where m2: "iappend_all (of_nat i) cs m1 = Some m2" "mk_ok m2" "im_freeinode m2 = im_freeinode m1"
    "mk_content (im_blocks m2) i = mk_content (im_blocks m1) i @ concat cs" "get16 0 (dins (im_blocks m2) i) = get16 0 (dins (im_blocks m1) i)"
    "others_same m1 m2 i"
    "unat (im_freeblock m2) + need (dins (im_blocks m2)) (im_blocks m2) (i, 12) \<le> unat (im_freeblock m1) + mk_cost m1 i (length (concat cs))"
    using Cons.IH [OF m1(2) Cons.prems(2) r1] by blast
  show ?case
    using m1(1,3-5) m2(1-5) others_same_trans [OF m1(6) m2(6)] order_trans [OF m2(7) c1]
    by (intro exI [of _ m2]) simp
qed

lemma mk_dirent_length [simp]: "length (mk_dirent inum name) = 16"
  by (simp add: mk_dirent_def DIRSIZ_def)

text \<open>The entries of the root directory for files \<open>fs\<close>, which have the inodes from 2 on.\<close>

definition dir_bytes :: "(u8 list \<times> u8 list) list \<Rightarrow> u8 list" where
  "dir_bytes fs = concat (map (\<lambda>n. mk_dirent (of_nat (n + 2)) (fst (fs ! n))) [0..<length fs])"

lemma dir_bytes_snoc: "dir_bytes (fs @ [a]) = dir_bytes fs @ mk_dirent (of_nat (length fs + 2)) (fst a)"
proof -
  have "map (\<lambda>n. mk_dirent (of_nat (n + 2)) (fst ((fs @ [a]) ! n))) [0..<length fs] =
      map (\<lambda>n. mk_dirent (of_nat (n + 2)) (fst (fs ! n))) [0..<length fs]"
    by (rule map_cong [OF refl]) (simp add: nth_append)
  then show ?thesis by (simp add: dir_bytes_def del: of_nat_add map_eq_conv)
qed

lemma length_dir_bytes: "length (dir_bytes fs) = 16 * length fs"
  unfolding dir_bytes_def by (subst length_concat_items [of _ _ 16]) auto

text \<open>The blocks that storing files of these sizes may take, the 16 blocks before the data included.\<close>

definition mk_room :: "(u8 list \<times> u8 list) list \<Rightarrow> nat" where
  "mk_room fs = 17 + blocks_of (16 * length fs) + sum_list (map (\<lambda>f. blocks_of (length (snd f)) + 1) fs)"

definition built :: "image \<Rightarrow> (u8 list \<times> u8 list) list \<Rightarrow> bool" where
  "built m fs \<longleftrightarrow> mk_ok m \<and> unat (im_freeinode m) = 2 + length fs \<and> fresh (im_blocks m) (2 + length fs) \<and>
     mk_content (im_blocks m) 1 = dir_bytes fs \<and> get16 0 (dins (im_blocks m) 1) = T_DIR \<and>
     (\<forall>n < length fs. mk_content (im_blocks m) (n + 2) = snd (fs ! n) \<and> get16 0 (dins (im_blocks m) (n + 2)) = T_FILE) \<and>
     unat (im_freeblock m) + need (dins (im_blocks m)) (im_blocks m) (1, 12) \<le> mk_room fs"

lemma need_le: "need D B s \<le> 1"
  by (simp add: need_def)

lemma mk_store_ok:
  assumes b: "built m fs" and n: "length fs < 198" and c: "length (concat cs) \<le> 268 * 1024"
    and room: "mk_room (fs @ [(mk_basename path, concat cs)]) \<le> 1000"
  shows "\<exists>m'. mk_store 1 (path, Some cs) m = Some m' \<and> built m' (fs @ [(mk_basename path, concat cs)])"
proof -
  let ?i = "2 + length fs" and ?a = "(mk_basename path, concat cs)" and ?e = "mk_dirent (of_nat (2 + length fs)) (mk_basename path)"
  have i: "?i < 200" "(1 :: nat) < 200" using n by simp_all
  have bm: "mk_ok m" "unat (im_freeinode m) = ?i" "fresh (im_blocks m) ?i" "mk_content (im_blocks m) 1 = dir_bytes fs"
    "get16 0 (dins (im_blocks m) 1) = T_DIR"
    "\<forall>n < length fs. mk_content (im_blocks m) (n + 2) = snd (fs ! n) \<and> get16 0 (dins (im_blocks m) (n + 2)) = T_FILE"
    "unat (im_freeblock m) + need (dins (im_blocks m)) (im_blocks m) (1, 12) \<le> mk_room fs"
    using b by (simp_all add: built_def)
  have mr: "mk_room (fs @ [?a]) = mk_room fs + touched (16 * length fs) 16 + blocks_of (length (concat cs)) + 1"
    using blocks_of_mono [of "16 * length fs" "16 * length fs + 16"] by (simp add: mk_room_def touched_def add.commute)
  have new: "dins (im_blocks m) ?i = replicate 64 0" using bm(3) i(1) by (simp add: fresh_def)
  obtain m1 where m1: "mk_ialloc T_FILE m = Some (of_nat ?i, m1)" "mk_ok m1" "im_freeinode m1 = of_nat (Suc ?i)"
    "im_freeblock m1 = im_freeblock m" "mk_content (im_blocks m1) ?i = []" "get16 0 (dins (im_blocks m1) ?i) = T_FILE"
    "others_same m m1 ?i" "need (dins (im_blocks m1)) (im_blocks m1) (1, 12) = need (dins (im_blocks m)) (im_blocks m) (1, 12)"
    using mk_ialloc_ok [OF bm(1,2) i(1) new, of T_FILE] i(2) unfolding others_same_def by auto
  have c1: "mk_content (im_blocks m1) 1 = dir_bytes fs" using m1(7) bm(4) by (simp add: others_same_def)
  then have s1: "mk_size (im_blocks m1) 1 = 16 * length fs" by (metis length_content length_dir_bytes)
  have cost1: "unat (im_freeblock m1) + mk_cost m1 1 (length ?e) \<le> mk_room fs + touched (16 * length fs) 16"
    using bm(7) m1(4,8) s1 by (simp add: mk_cost_def)
  obtain m2 where m2: "iappend (of_nat 1) ?e m1 = Some m2" "mk_ok m2" "im_freeinode m2 = im_freeinode m1"
    "mk_content (im_blocks m2) 1 = mk_content (im_blocks m1) 1 @ ?e" "get16 0 (dins (im_blocks m2) 1) = get16 0 (dins (im_blocks m1) 1)"
    "others_same m1 m2 1"
    "unat (im_freeblock m2) + need (dins (im_blocks m2)) (im_blocks m2) (1, 12) \<le> unat (im_freeblock m1) + mk_cost m1 1 (length ?e)"
    using iappend_same [OF m1(2) i(2), of ?e] s1 n cost1 room mr by auto
  have c2: "mk_content (im_blocks m2) ?i = []" using m2(6) m1(5) i(1) by (simp add: others_same_def)
  then have s2: "mk_size (im_blocks m2) ?i = 0" by (metis length_content list.size(3))
  have "mk_cost m2 ?i (length (concat cs)) \<le> blocks_of (length (concat cs)) + 1"
    using need_le [of "dins (im_blocks m2)" "im_blocks m2" "(?i, 12)"] unfolding mk_cost_def s2 touched_def by simp
  then have cost2: "unat (im_freeblock m2) + need (dins (im_blocks m2)) (im_blocks m2) (1, 12) + mk_cost m2 ?i (length (concat cs)) \<le> mk_room (fs @ [?a])"
    using m2(7) cost1 mr by linarith
  then have r3: "mk_size (im_blocks m2) ?i + length (concat cs) \<le> 268 * 1024" "unat (im_freeblock m2) + mk_cost m2 ?i (length (concat cs)) \<le> 1000"
    using room c unfolding s2 by linarith+
  obtain m3 where m3: "iappend_all (of_nat ?i) cs m2 = Some m3" "mk_ok m3" "im_freeinode m3 = im_freeinode m2"
    "mk_content (im_blocks m3) ?i = mk_content (im_blocks m2) ?i @ concat cs" "get16 0 (dins (im_blocks m3) ?i) = get16 0 (dins (im_blocks m2) ?i)"
    "others_same m2 m3 ?i"
    "unat (im_freeblock m3) + need (dins (im_blocks m3)) (im_blocks m3) (?i, 12) \<le> unat (im_freeblock m2) + mk_cost m2 ?i (length (concat cs))"
    using iappend_all_ok [OF m2(2) i(1) r3] by blast
  have res: "mk_store 1 (path, Some cs) m = Some m3"
    using m1(1) m2(1) m3(1) by (simp add: mk_store_def)
  have fi: "unat (im_freeinode m3) = Suc ?i" using m3(3) m2(3) m1(3) n by (simp add: unat_of_nat del: of_nat_Suc of_nat_add)
  have keep: "mk_content (im_blocks m3) j = mk_content (im_blocks m) j \<and> dins (im_blocks m3) j = dins (im_blocks m) j"
    if "j < 200" "j \<noteq> 1" "j \<noteq> ?i" for j
    using that m1(7) m2(6) m3(6) by (simp add: others_same_def)
  have "fresh (im_blocks m3) (Suc ?i)" using keep bm(3) by (simp add: fresh_def)
  moreover have "mk_content (im_blocks m3) 1 = dir_bytes (fs @ [?a])"
    using m3(6) m2(4) c1 i(2) by (simp add: others_same_def dir_bytes_snoc add.commute)
  moreover have "get16 0 (dins (im_blocks m3) 1) = T_DIR"
    using m3(6) m2(5) m1(7) bm(5) i(2) by (simp add: others_same_def)
  moreover have "mk_content (im_blocks m3) (k + 2) = snd ((fs @ [?a]) ! k) \<and> get16 0 (dins (im_blocks m3) (k + 2)) = T_FILE"
    if "k < length (fs @ [?a])" for k
  proof (cases "k = length fs")
    case True
    then show ?thesis using m3(4,5) c2 m2(6) m1(6) i(1) by (simp add: others_same_def add.commute)
  next
    case False
    then have "k < length fs" using that by simp
    then show ?thesis using keep [of "k + 2"] bm(6) n False by (simp add: nth_append)
  qed
  moreover have "unat (im_freeblock m3) + need (dins (im_blocks m3)) (im_blocks m3) (1, 12) \<le> mk_room (fs @ [?a])"
  proof -
    have "need (dins (im_blocks m3)) (im_blocks m3) (1, 12) \<le> need (dins (im_blocks m2)) (im_blocks m2) (1, 12)"
      using m3(6) i(2) by (simp add: others_same_def)
    then show ?thesis using m3(7) cost2 by linarith
  qed
  ultimately have "built m3 (fs @ [?a])" using m3(2) fi by (simp add: built_def)
  with res show ?thesis by blast
qed

lemma mk_store_all_ok:
  assumes "built m fs" "\<forall>a \<in> set as. length (concat (snd a)) \<le> 268 * 1024" "length fs + length as \<le> 198"
    and "mk_room (fs @ map (\<lambda>(p, cs). (mk_basename p, concat cs)) as) \<le> 1000"
  shows "\<exists>m'. mk_store_all 1 (map (\<lambda>(p, cs). (p, Some cs)) as) m = Some m' \<and>
    built m' (fs @ map (\<lambda>(p, cs). (mk_basename p, concat cs)) as)"
  using assms
proof (induction as arbitrary: m fs)
  case Nil
  then show ?case by simp
next
  case (Cons a as)
  obtain p cs where a: "a = (p, cs)" by (cases a)
  let ?f = "(mk_basename p, concat cs)"
  have le: "mk_room (fs @ [?f]) \<le> mk_room (fs @ map (\<lambda>(p, cs). (mk_basename p, concat cs)) (a # as))"
    using blocks_of_mono [of "16 + 16 * length fs" "16 * length (fs @ map (\<lambda>(p, cs). (mk_basename p, concat cs)) (a # as))"]
    by (simp add: mk_room_def a)
  obtain m1 where m1: "mk_store 1 (p, Some cs) m = Some m1" "built m1 (fs @ [?f])"
    using mk_store_ok [OF Cons.prems(1), of cs p] Cons.prems(2-4) le a by auto
  show ?case
    using Cons.IH [OF m1(2)] Cons.prems(2-4) m1(1) by (simp add: a)
qed

section \<open>The finished image\<close>

text \<open>The state after the last two steps: the size of the root directory is rounded, the bitmap is there.\<close>

definition finished :: "image \<Rightarrow> (u8 list \<times> u8 list) list \<Rightarrow> bool" where
  "finished m fs \<longleftrightarrow> image_ok (dins (im_blocks m)) (im_blocks m) (unat (im_freeblock m)) \<and>
     im_blocks m ! 1 = splice 0 (super_bytes mk_super) zeroes \<and> im_blocks m ! 15 = mk_bitmap (unat (im_freeblock m)) \<and>
     get16 0 (dins (im_blocks m) 1) = T_DIR \<and>
     (\<forall>y < 16 * length fs. has_block (dins (im_blocks m)) (im_blocks m) 1 (y div 1024) \<and>
        mk_byte (dins (im_blocks m)) (im_blocks m) 1 y = dir_bytes fs ! y) \<and>
     (\<forall>n < length fs. mk_content (im_blocks m) (n + 2) = snd (fs ! n) \<and> get16 0 (dins (im_blocks m) (n + 2)) = T_FILE \<and>
        mk_size (im_blocks m) (n + 2) \<le> 268 * 1024 \<and>
        (\<forall>k. k * 1024 < mk_size (im_blocks m) (n + 2) \<longrightarrow> has_block (dins (im_blocks m)) (im_blocks m) (n + 2) k))"

lemma length_mk_bitmap: "length (mk_bitmap n) = 1024"
proof -
  have "length (fold (\<lambda>i buf. upd_at (i div 8) (\<lambda>b. b OR push_bit (i mod 8) 1) buf) xs b) = length b" for xs and b :: "u8 list"
    by (induction xs arbitrary: b) simp_all
  then show ?thesis by (simp add: mk_bitmap_def zeroes_def)
qed

lemma mk_finish_ok:
  assumes b: "built m fs" and n: "length fs \<le> 198"
  shows "\<exists>m1 m2. mk_fix_root 1 m = Some m1 \<and> mk_balloc (im_freeblock m1) m1 = Some m2 \<and> finished m2 fs"
proof -
  have bm: "mk_ok m" "mk_content (im_blocks m) 1 = dir_bytes fs" "get16 0 (dins (im_blocks m) 1) = T_DIR"
    "\<forall>n < length fs. mk_content (im_blocks m) (n + 2) = snd (fs ! n) \<and> get16 0 (dins (im_blocks m) (n + 2)) = T_FILE"
    using b by (simp_all add: built_def)
  let ?B = "im_blocks m" and ?D = "dins (im_blocks m)" and ?f = "unat (im_freeblock m)"
  have lt: "(1 :: nat) < 200" "2 \<le> (15 :: nat)" "15 < (16 :: nat)" by simp_all
  note okm = mk_okD [OF bm(1)] and a = inode_at [OF lt(1)]
  define off where "off = (get32 8 (?D 1) div of_nat BSIZE + 1) * (of_nat BSIZE :: u32)"
  define d where "d = put32 8 off (?D 1)"
  have l64: "length (?D 1) = 64" using image_okD(7) [OF okm(2)] by simp
  note pz = put_size [OF l64, where v = off, folded d_def]
  note lens = image_okD(1,2) [OF okm(2)]
  have l1: "length (?B ! inode_block 1) = 1024" using lens(2) a(4) by simp
  define blk where "blk = splice 64 d (?B ! inode_block 1)"
  have lb: "length blk = 1024" using l1 pz(1) by (simp add: blk_def)
  define B1 where "B1 = ?B[inode_block 1 := blk]"
  define B2 where "B2 = B1[15 := mk_bitmap ?f]"
  have D1: "dins B1 j = (if j = 1 then d else ?D j)" if "j < 200" for j
    using dins_update [of 1 j ?B d] that lens(1) l1 pz(1) by (simp add: B1_def blk_def)
  have eq12: "get32 (din_addr c) d = get32 (din_addr c) (?D 1)" if "c \<le> 12" for c using pz(3) [of c] that by linarith
  have f1: "\<forall>j < 200. length (dins B1 j) = 64 \<and> (\<forall>c \<le> 12. get32 (din_addr c) (dins B1 j) = get32 (din_addr c) (?D j))"
    using D1 pz(1) eq12 image_okD(7) [OF okm(2)] by simp
  note io1 = image_ok_inode [OF okm(2) a(3,4) lb, of "dins B1", folded B1_def, OF f1]
  have D2: "dins B2 j = dins B1 j" if "j < 200" for j
  proof -
    have "inode_block j < 15" using that by (simp add: inode_block_def)
    then show ?thesis by (simp add: dins_def B2_def)
  qed
  have f2: "\<forall>j < 200. length (dins B2 j) = 64 \<and> (\<forall>c \<le> 12. get32 (din_addr c) (dins B2 j) = get32 (din_addr c) (dins B1 j))"
    using D2 f1 by simp
  note io2 = image_ok_inode [OF io1(1) lt(2,3) length_mk_bitmap [of ?f], of "dins B2", folded B2_def, OF f2]
  let ?m1 = "m\<lparr>im_blocks := B1\<rparr>" and ?m2 = "m\<lparr>im_blocks := B2\<rparr>"
  have offe: "get32 8 (?D (Suc 0)) div 1024 * 1024 + 1024 = off" and de: "put32 8 off (?D (Suc 0)) = d"
    by (simp_all add: off_def d_def)
  have fixed: "mk_fix_root 1 m = Some ?m1"
    using rinode_ok [OF okm(2,1), of 1] winode_ok [OF okm(2,1), of 1 d]
    by (simp add: mk_fix_root_def Let_def offe de B1_def blk_def)
  have f: "?f \<le> 1000" using image_okD(4) [OF okm(2)] .
  have s: "sint (im_freeblock m) = int ?f" by (rule sint_small) (use f in simp)
  have bal: "mk_balloc (im_freeblock ?m1) ?m1 = Some ?m2"
  proof -
    have "unat (sb_bmapstart mk_super) = 15" by (simp add: mk_super_def)
    then have "wsect (sb_bmapstart mk_super) (mk_bitmap ?f) ?m1 = ?m2"
      using lens(1) by (subst wsect_blocks) (simp_all add: B1_def B2_def)
    moreover have "int ?f \<le> int 1000" using f by (simp only: of_nat_le_iff)
    then have "sint (im_freeblock m) < 8192" unfolding s by (rule le_less_trans) simp
    moreover have "nat (sint (im_freeblock m)) = ?f" unfolding s by (rule nat_int)
    ultimately show ?thesis using okm(1) by (simp add: mk_balloc_def)
  qed
  have hb: "has_block (dins B2) B2 j k = has_block ?D ?B j k" if "j < 200" for j k
  proof (cases "k < 268")
    case True
    then show ?thesis using io1(3) io2(3) that by simp
  qed (simp add: has_block_def)
  have by2: "mk_byte (dins B2) B2 j y = mk_byte ?D ?B j y" if "j < 200" "has_block ?D ?B j (y div 1024)" for j y
  proof -
    have "has_block (dins B1) B1 j (y div 1024)" using io1(3) [OF that(1)] that(2) by (simp add: has_block_def)
    then show ?thesis using io1(4) [OF that] io2(4) [OF that(1)] by simp
  qed
  have root: "has_block ?D ?B 1 (y div 1024) \<and> mk_byte ?D ?B 1 y = dir_bytes fs ! y" if "y < 16 * length fs" for y
  proof -
    have sz: "mk_size ?B 1 = 16 * length fs" using bm(2) by (metis length_content length_dir_bytes)
    have "mk_content ?B 1 ! y = mk_byte ?D ?B 1 y" using that sz by (simp add: mk_content_def)
    then show ?thesis using byte_has_block [of 1 y m] bm(1,2) that sz by simp
  qed
  have other: "mk_size B2 j = mk_size ?B j \<and> mk_content B2 j = mk_content ?B j" if "j < 200" "j \<noteq> 1" for j
  proof -
    have "mk_size B2 j = mk_size ?B j" using that D1 D2 by (simp add: mk_size_def)
    moreover have "mk_byte (dins B2) B2 j y = mk_byte ?D ?B j y" if "y < mk_size ?B j" for y
      using by2 [OF \<open>j < 200\<close> byte_has_block [OF \<open>j < 200\<close> that bm(1)]] .
    ultimately show ?thesis by (simp add: mk_content_def)
  qed
  have "get16 0 (dins B2 1) = T_DIR"
    using D1 D2 pz(4) bm(3) l64 by (simp add: get16_def slice_def)
  moreover have "B2 ! 1 = ?B ! 1" "B2 ! 15 = mk_bitmap ?f" using a(3) lens(1) by (simp_all add: B1_def B2_def)
  ultimately have "finished ?m2 fs"
    unfolding finished_def using io2(1) okm(3,4,5) hb by2 root other bm(4) D1 D2 n by simp
  with fixed bal show ?thesis by blast
qed

lemma mkfs_finished:
  assumes "length files \<le> 198" "\<forall>a \<in> set files. length (concat (snd a)) \<le> 268 * 1024"
    and "mk_room (map (\<lambda>(p, cs). (mk_basename p, concat cs)) files) \<le> 1000"
  shows "\<exists>m. mkfs (map (\<lambda>(p, cs). (p, Some cs)) files) = Some m \<and> finished m (map (\<lambda>(p, cs). (mk_basename p, concat cs)) files)"
proof -
  let ?fs = "map (\<lambda>(p, cs). (mk_basename p, concat cs)) files"
  have one: "unat (im_freeinode mk_blank) = 1" "(1 :: nat) < 200" "dins (im_blocks mk_blank) 1 = replicate 64 0"
    using blank_blocks(3) blank_dins by simp_all
  obtain m0 where m0: "mk_ialloc T_DIR mk_blank = Some (of_nat 1, m0)" "mk_ok m0" "im_freeinode m0 = of_nat (Suc 1)"
    "im_freeblock m0 = im_freeblock mk_blank" "mk_content (im_blocks m0) 1 = []" "get16 0 (dins (im_blocks m0) 1) = T_DIR"
    "\<forall>j < 200. j \<noteq> 1 \<longrightarrow> dins (im_blocks m0) j = dins (im_blocks mk_blank) j"
    using mk_ialloc_ok [OF mk_blank_ok(1) one, of T_DIR] by blast
  have "fresh (im_blocks m0) 2" using m0(7) blank_dins by (simp add: fresh_def)
  then have b0: "built m0 []"
    using m0(2-6) blank_blocks(4) need_le [of "dins (im_blocks m0)" "im_blocks m0" "(1, 12)"]
    by (simp add: built_def dir_bytes_def mk_room_def blocks_of_def)
  obtain m1 where m1: "mk_store_all 1 (map (\<lambda>(p, cs). (p, Some cs)) files) m0 = Some m1" "built m1 ?fs"
    using mk_store_all_ok [OF b0, of files] assms by auto
  obtain m2 m3 where "mk_fix_root 1 m1 = Some m2" "mk_balloc (im_freeblock m2) m2 = Some m3" "finished m3 ?fs"
    using mk_finish_ok [OF m1(2)] assms(1) by auto
  with m0(1) m1(1) show ?thesis by (simp add: mkfs_def)
qed

section \<open>The bitmap\<close>

lemma mk_bitmap_bit:
  assumes "n \<le> 1000" "b < 1000"
  shows "bit_free (mk_bitmap n) b \<longleftrightarrow> n \<le> b"
proof -
  have "length (mk_bitmap n) = 1024 \<and> (\<forall>b < 1000. bit (mk_bitmap n ! (b div 8)) (b mod 8) \<longleftrightarrow> b < n)"
    using assms(1)
  proof (induction n)
    case 0
    then show ?case by (simp add: mk_bitmap_def zeroes_def)
  next
    case (Suc n)
    let ?x = "mk_bitmap n"
    have e: "mk_bitmap (Suc n) = upd_at (n div 8) (\<lambda>c. c OR push_bit (n mod 8) 1) ?x" by (simp add: mk_bitmap_def)
    have "bit (mk_bitmap (Suc n) ! (b div 8)) (b mod 8) \<longleftrightarrow> b < Suc n" if "b < 1000" for b
    proof (cases "b div 8 = n div 8")
      case True
      have "bit (push_bit (n mod 8) 1 :: u8) (b mod 8) \<longleftrightarrow> b mod 8 = n mod 8" by (auto simp: bit_simps)
      moreover have "b mod 8 = n mod 8 \<longleftrightarrow> b = n" using True by (metis div_mod_decomp)
      moreover have "b div 8 < length ?x" using Suc that by simp
      ultimately show ?thesis using True Suc that by (auto simp: e bit_or_iff)
    next
      case False
      then have "b \<noteq> n" by auto
      then show ?thesis using False Suc that by (auto simp: e)
    qed
    then show ?case using Suc by (simp add: e)
  qed
  then have "bit (mk_bitmap n ! (b div 8)) (b mod 8) \<longleftrightarrow> b < n" using assms(2) by blast
  moreover have "bit_free (mk_bitmap n) b \<longleftrightarrow> \<not> bit (mk_bitmap n ! (b div 8)) (b mod 8)"
    by (simp add: bit_free_def bit_iff_and_push_bit_not_eq_0)
  ultimately show ?thesis by auto
qed

section \<open>The image in the kernel\<close>

lemma super_word: "i < 6 \<Longrightarrow> get32 (4 * i) (splice 0 (super_bytes s) zeroes) =
    [sb_magic s, sb_size s, sb_nblocks s, sb_ninodes s, sb_inodestart s, sb_bmapstart s] ! i"
proof -
  let ?ws = "[sb_magic s, sb_size s, sb_nblocks s, sb_ninodes s, sb_inodestart s, sb_bmapstart s]"
  assume i: "i < 6"
  have len: "length (super_bytes s) = 24" by (simp add: super_bytes_def)
  have "slice (4 * i) 4 (splice 0 (super_bytes s) zeroes) = slice (4 * i) 4 (super_bytes s)"
    using i len by (subst slice_splice_inside) (simp_all add: zeroes_def)
  also have "\<dots> = le_bytes 4 (?ws ! i)"
    unfolding super_bytes_def using i by (subst slice_concat) simp_all
  finally show ?thesis by (simp add: get32_def le_word_le_bytes)
qed

lemma cache_ok_sb [simp]: "cache_ok (k\<lparr>sb := s\<rparr>) hs = cache_ok k hs"
  by (simp add: cache_ok_def bufs_ok_def refs_ok_def the_buf_def)

lemma brelse_sb: "brelse b (k\<lparr>sb := s\<rparr>) = (brelse b k)\<lparr>sb := s\<rparr>"
  by (simp add: brelse_def map_buf_def the_buf_def Let_def)

lemma fsinit_ok:
  assumes ok: "cache_ok k []" and d: "disk k 1 = splice 0 (super_bytes mk_super) zeroes"
  shows "\<exists>k'. fsinit k = Some k' \<and> cache_ok k' [] \<and> disk k' = disk k \<and> itable k' = itable k \<and> sb k' = mk_super"
proof -
  have room: "length [] < NBUF" by simp
  obtain bp k1 where r: "bread ROOTDEV 1 k = Some (bp, k1)" "b_data (the_buf k1 bp) = disk k 1"
      "cache_ok (brelse bp k1) []" "disk (brelse bp k1) = disk k" "same_files k (brelse bp k1)"
    by (rule bc.look [OF ok room, where n = 1])
  have g: "get32 0 (disk k 1) = sb_magic mk_super" "get32 4 (disk k 1) = sb_size mk_super"
    "get32 8 (disk k 1) = sb_nblocks mk_super" "get32 12 (disk k 1) = sb_ninodes mk_super"
    "get32 16 (disk k 1) = sb_inodestart mk_super" "get32 20 (disk k 1) = sb_bmapstart mk_super"
    unfolding d using super_word [of 0 mk_super] super_word [of 1 mk_super] super_word [of 2 mk_super]
      super_word [of 3 mk_super] super_word [of 4 mk_super] super_word [of 5 mk_super] by simp_all
  have "readsb ROOTDEV k = Some ((brelse bp k1)\<lparr>sb := mk_super\<rparr>)"
    using r(1,2) by (simp add: readsb_def g brelse_sb Let_def)
  then show ?thesis
    using r(3,4) same_files_fields(2) [OF r(5)] by (auto simp: fsinit_def mk_super_def)
qed

lemma get32_slice: "a + 4 \<le> n \<Longrightarrow> off + n \<le> length d \<Longrightarrow> get32 a (slice off n d) = get32 (off + a) d"
proof -
  assume "a + 4 \<le> n" "off + n \<le> length d"
  then have "slice a 4 (slice off n d) = slice (off + a) 4 d"
    by (intro nth_equalityI) (simp_all add: nth_slice add.assoc)
  then show ?thesis by (simp add: get32_def)
qed

lemma get16_slice: "a + 2 \<le> n \<Longrightarrow> off + n \<le> length d \<Longrightarrow> get16 a (slice off n d) = get16 (off + a) d"
proof -
  assume "a + 2 \<le> n" "off + n \<le> length d"
  then have "slice a 2 (slice off n d) = slice (off + a) 2 d"
    by (intro nth_equalityI) (simp_all add: nth_slice add.assoc)
  then show ?thesis by (simp add: get16_def)
qed

text \<open>A kernel on the image, with inode \<open>i\<close> loaded in slot \<open>ip\<close>: the same blocks, the same bytes.\<close>

lemma kernel_file:
  assumes ok: "image_ok (dins B) B f" and i: "i < 200"
    and disk: "\<forall>b < 1000. disk k (of_nat b) = B ! b"
    and ip: "i_addrs (the_inode k ip) = dinode_addrs (i mod 16 * 64) (B ! inode_block i)"
  shows "has_block (dins B) B i n \<Longrightarrow> mapped k ip n"
    "has_block (dins B) B i (y div 1024) \<Longrightarrow> file_byte k ip y = mk_byte (dins B) B i y"
proof -
  note ok' = image_okD [OF ok] and a = inode_at [OF i]
  have l: "length (B ! inode_block i) = 1024" using ok'(2) a(4) by simp
  have addr: "i_addrs (the_inode k ip) ! j = get32 (din_addr j) (dins B i)" if "j \<le> 12" for j
    using that l a(5) get32_slice [of "din_addr j" 64 "i mod 16 * 64" "B ! inode_block i"]
    by (simp add: ip dinode_addrs_def dins_def din_addr_def add.assoc)
  have dk: "disk k x = B ! unat x" if "unat x < 1000" for x
    using disk [rule_format, OF that] by simp
  have fb: "unat (file_block k ip n) = ptr (dins B) B (i, slot_of n) \<and> (12 \<le> n \<longrightarrow> i_addrs (the_inode k ip) ! 12 \<noteq> 0)"
    if h: "has_block (dins B) B i n" for n
  proof (cases "n < 12")
    case True
    then show ?thesis using addr [of n] by (simp add: file_block_def Let_def slot_of_def ptr_direct)
  next
    case False
    have s: "(i, 12) \<in> slots" using i by simp
    have p: "ptr (dins B) B (i, 12) = unat (get32 (din_addr 12) (dins B i))" by (simp add: ptr_direct)
    have "unat (get32 (din_addr 12) (dins B i)) < 1000" using ok'(4) ok'(9) [OF s] p by simp
    moreover have "get32 (din_addr 12) (dins B i) \<noteq> 0" using h False p by (auto simp: has_block_def)
    ultimately show ?thesis
      using False addr [of 12] dk by (simp add: file_block_def Let_def slot_of_def ptr_indirect p)
  qed
  have nz: "file_block k ip n \<noteq> 0" if "has_block (dins B) B i n" for n
    using fb [OF that] that by (auto simp: has_block_def)
  show "has_block (dins B) B i n \<Longrightarrow> mapped k ip n"
    using fb [of n] nz [of n] by (simp add: mapped_def has_block_def)
  show "has_block (dins B) B i (y div 1024) \<Longrightarrow> file_byte k ip y = mk_byte (dins B) B i y"
  proof -
    assume h: "has_block (dins B) B i (y div 1024)"
    then have s: "(i, slot_of (y div 1024)) \<in> slots" using i slot_of_range(1) by (simp add: has_block_def)
    have "unat (file_block k ip (y div 1024)) < 1000" using fb [OF h] ok'(4) ok'(9) [OF s] by simp
    then show ?thesis using dk fb [OF h] by (simp add: file_byte_def mk_byte_def)
  qed
qed

definition on_image :: "'a fs_kern_scheme \<Rightarrow> u8 list list \<Rightarrow> nat \<Rightarrow> u32 \<Rightarrow> bool" where
  "on_image k B ip inum \<longleftrightarrow> cache_ok k [] \<and> (\<forall>b < FSSIZE. disk k (of_nat b) = B ! b) \<and> ip < length (itable k) \<and>
     i_dev (the_inode k ip) = ROOTDEV \<and> \<not> i_valid (the_inode k ip) \<and> i_inum (the_inode k ip) = inum"

lemma kernel_loads:
  assumes ok: "image_ok (dins B) B f" and i: "i < 200" and k: "on_image k B ip (of_nat i)"
    and sb: "B ! 1 = splice 0 (super_bytes mk_super) zeroes" and ty: "get16 0 (dins B i) \<noteq> 0"
    and sz: "mk_size B i \<le> 268 * 1024" "\<forall>n. n * 1024 < mk_size B i \<longrightarrow> has_block (dins B) B i n"
  shows "\<exists>k0 k1 k2. fsinit k = Some k0 \<and> ivalid ip k0 = Some k1 \<and>
    readi ip Local_dst 0 (of_nat (mk_size B i)) k1 = Some (int (mk_size B i), mk_content B i, k2) \<and>
    i_type (the_inode k1 ip) = get16 0 (dins B i)"
proof -
  have kk: "cache_ok k []" "\<forall>b < 1000. disk k (of_nat b) = B ! b" "ip < length (itable k)" "i_dev (the_inode k ip) = ROOTDEV"
    "\<not> i_valid (the_inode k ip)" "i_inum (the_inode k ip) = of_nat i"
    using k by (simp_all add: on_image_def)
  note a = inode_at [OF i]
  have room: "length [] < NBUF" by simp
  have "disk k 1 = splice 0 (super_bytes mk_super) zeroes" using kk(2) [rule_format, of 1] sb by simp
  then obtain k0 where k0: "fsinit k = Some k0" "cache_ok k0 []" "disk k0 = disk k" "itable k0 = itable k" "sb k0 = mk_super"
    using fsinit_ok [OF kk(1)] by blast
  have in0: "the_inode k0 ip = the_inode k ip" using k0(4) by (simp add: the_inode_def)
  let ?bl = "IBLOCK (of_nat i) mk_super" and ?off = "i mod 16 * 64"
  have dk: "disk k x = B ! unat x" if "unat x < 1000" for x using kk(2) [rule_format, OF that] by simp
  have bl: "disk k0 ?bl = B ! inode_block i"
    using dk [of ?bl] a(2,4) k0(3) by simp
  have l: "length (B ! inode_block i) = 1024" using image_okD(2) [OF ok] a(4) by simp
  have t: "get16 ?off (B ! inode_block i) = get16 0 (dins B i)" and s: "get32 (?off + 8) (B ! inode_block i) = get32 8 (dins B i)"
    using get16_slice [of 0 64 ?off "B ! inode_block i"] get32_slice [of 8 64 ?off "B ! inode_block i"] l a(5) by (simp_all add: dins_def)
  obtain k1 where k1: "ivalid ip k0 = Some k1" "cache_ok k1 []" "disk k1 = disk k0"
    "same_files (map_inode ip (load_dinode ?off (B ! inode_block i)) k0) k1"
    using ivalid_ok [OF k0(2) room, of ip "B ! inode_block i" ?off] kk(3-6) k0(4,5) in0 bl a(1) ty t by auto
  have in1: "the_inode k1 ip = load_dinode ?off (B ! inode_block i) (the_inode k ip)"
    using same_files_fields(2) [OF k1(4)] kk(3) k0(4) in0 by (simp add: the_inode_def map_inode_def upd_at_def)
  then have f1: "i_addrs (the_inode k1 ip) = dinode_addrs ?off (B ! inode_block i)" "unat (i_size (the_inode k1 ip)) = mk_size B i"
    "i_dev (the_inode k1 ip) = ROOTDEV" "i_type (the_inode k1 ip) = get16 0 (dins B i)"
    using s t kk(4) by (simp_all add: load_dinode_def mk_size_def)
  have d1: "\<forall>b < 1000. disk k1 (of_nat b) = B ! b" using kk(2) k1(3) k0(3) by simp
  note kf = kernel_file [OF ok i d1 f1(1)]
  have fo: "file_ok k1 ip" using f1(2,3) sz kf(1) by (simp add: file_ok_def)
  have u: "unat (of_nat (mk_size B i) :: u32) = mk_size B i" using sz(1) by (simp add: unat_of_nat)
  have r: "unat (0 :: u32) + unat (of_nat (mk_size B i) :: u32) < 2 ^ 32" using u sz(1) by simp
  have m: "mk_size B i = min (unat (of_nat (mk_size B i) :: u32)) (unat (i_size (the_inode k1 ip)) - unat (0 :: u32))" using u f1(2) by simp
  have "file_byte k1 ip y = mk_byte (dins B) B i y" if "y < mk_size B i" for y
  proof -
    have "y div 1024 * 1024 < mk_size B i" using that by (meson div_times_less_eq_dividend le_less_trans)
    then show ?thesis using kf(2) sz(2) by blast
  qed
  then have c: "map (file_byte k1 ip) [unat (0 :: u32)..<unat (0 :: u32) + mk_size B i] = mk_content B i"
    by (simp add: mk_content_def)
  have "\<exists>k2. readi ip Local_dst 0 (of_nat (mk_size B i)) k1 = Some (int (mk_size B i), mk_content B i, k2)"
    using readi_local [OF k1(2) room fo _ r m] unfolding c by auto
  with k0(1) k1(1) f1(4) show ?thesis by blast
qed

text \<open>
  Property C6: what \<^verbatim>\<open>mkfs\<close> stores, the kernel reads back. For files within the limits of the format
  (198 inodes, 268 blocks each, 1000 blocks in all), \<^verbatim>\<open>mkfs\<close> succeeds, whatever the sizes of the pieces
  its \<^verbatim>\<open>read\<close> delivered; and a kernel that mounts the image, loads the inode of a file and reads it
  gets the bytes of the file, over direct and indirect blocks.
\<close>

theorem mkfs_kernel_reads:
  assumes "length files \<le> 198" "\<forall>a \<in> set files. length (concat (snd a)) \<le> MAXFILE * BSIZE"
    and "mk_room (map (\<lambda>(p, cs). (mk_basename p, concat cs)) files) \<le> FSSIZE"
  shows "\<exists>m. mkfs (map (\<lambda>(p, cs). (p, Some cs)) files) = Some m \<and>
    (\<forall>k ip n. n < length files \<longrightarrow> on_image k (im_blocks m) ip (of_nat (n + 2)) \<longrightarrow>
      (let bytes = concat (snd (files ! n)) in
       \<exists>k0 k1 k2. fsinit k = Some k0 \<and> ivalid ip k0 = Some k1 \<and> i_type (the_inode k1 ip) = T_FILE \<and>
         readi ip Local_dst 0 (of_nat (length bytes)) k1 = Some (int (length bytes), bytes, k2)))"
proof -
  let ?fs = "map (\<lambda>(p, cs). (mk_basename p, concat cs)) files"
  obtain m where m: "mkfs (map (\<lambda>(p, cs). (p, Some cs)) files) = Some m" "finished m ?fs"
    using mkfs_finished [OF assms(1)] assms(2,3) by auto
  have "let bytes = concat (snd (files ! n)) in \<exists>k0 k1 k2. fsinit k = Some k0 \<and> ivalid ip k0 = Some k1 \<and>
      i_type (the_inode k1 ip) = T_FILE \<and> readi ip Local_dst 0 (of_nat (length bytes)) k1 = Some (int (length bytes), bytes, k2)"
    if n: "n < length files" and k: "on_image k (im_blocks m) ip (of_nat (n + 2))" for k :: "'a fs_kern_scheme" and ip n
  proof -
    have c: "mk_content (im_blocks m) (n + 2) = concat (snd (files ! n))" "get16 0 (dins (im_blocks m) (n + 2)) = T_FILE"
      "mk_size (im_blocks m) (n + 2) \<le> 268 * 1024"
      "\<forall>k. k * 1024 < mk_size (im_blocks m) (n + 2) \<longrightarrow> has_block (dins (im_blocks m)) (im_blocks m) (n + 2) k"
      using m(2) n by (simp_all add: finished_def split_beta)
    have sz: "mk_size (im_blocks m) (n + 2) = length (concat (snd (files ! n)))" by (metis c(1) length_content)
    have i: "n + 2 < 200" using n assms(1) by simp
    have ok: "image_ok (dins (im_blocks m)) (im_blocks m) (unat (im_freeblock m))" "im_blocks m ! 1 = splice 0 (super_bytes mk_super) zeroes"
      using m(2) by (simp_all add: finished_def)
    have ty: "get16 0 (dins (im_blocks m) (n + 2)) \<noteq> 0" using c(2) by (simp add: T_FILE_def)
    show ?thesis
      using kernel_loads [OF ok(1) i k ok(2) ty c(3,4)] unfolding sz c(1,2) Let_def by blast
  qed
  with m(1) show ?thesis by blast
qed


text \<open>The file \<^verbatim>\<open>/a\<close>, read in two pieces.\<close>

definition demo_files :: "(u8 list \<times> u8 list list) list" where
  "demo_files = [([47, 97], [[1, 2], [3]])]"

lemma demo_files_fit:
  "length demo_files \<le> 198" "\<forall>a \<in> set demo_files. length (concat (snd a)) \<le> MAXFILE * BSIZE"
  "mk_room (map (\<lambda>(p, cs). (mk_basename p, concat cs)) demo_files) \<le> FSSIZE"
  by (simp_all add: demo_files_def mk_room_def blocks_of_def)

definition demo_mounted :: "u8 list list \<Rightarrow> fs_kern" where
  "demo_mounted B = demo_fs\<lparr>disk := (\<lambda>b. if unat b < 1000 then B ! unat b else zeroes),
     itable := [demo_dir\<lparr>i_valid := False, i_inum := 2\<rparr>]\<rparr>"

lemma demo_mounted_on:
  assumes "image_ok D B f"
  shows "on_image (demo_mounted B) B 0 (of_nat (0 + 2))"
proof -
  have "length (disk (demo_mounted B) b) = 1024" for b
    using image_okD(2) [OF assms] by (simp add: demo_mounted_def zeroes_def)
  moreover have "bufs (demo_mounted B) = bufs demo_fs" "lru (demo_mounted B) = lru demo_fs"
    by (simp_all add: demo_mounted_def)
  ultimately have "cache_ok (demo_mounted B) []"
    using demo_fs_cache by (simp add: cache_ok_def bufs_ok_def refs_ok_def the_buf_def)
      (simp add: demo_fs_def)
  then show ?thesis
    by (simp add: on_image_def demo_mounted_def the_inode_def demo_dir_def unat_of_nat ROOTDEV_def)
qed

theorem mkfs_kernel_reads_witness:
  "\<exists>m (k :: fs_kern) k0 k1 k2. mkfs [([47, 97], Some [[1, 2], [3]])] = Some m \<and> fsinit k = Some k0 \<and> ivalid 0 k0 = Some k1 \<and>
    readi 0 Local_dst 0 3 k1 = Some (3, [1, 2, 3], k2)"
proof -
  have a: "map (\<lambda>(p, cs). (p, Some cs)) demo_files = [([47, 97], Some [[1, 2], [3]])]" "0 < length demo_files"
    "concat (snd (demo_files ! 0)) = [1, 2, 3]" by (simp_all add: demo_files_def)
  obtain m where m: "mkfs (map (\<lambda>(p, cs). (p, Some cs)) demo_files) = Some m"
    "\<And>(k :: fs_kern) ip n. n < length demo_files \<Longrightarrow> on_image k (im_blocks m) ip (of_nat (n + 2)) \<Longrightarrow>
      (let bytes = concat (snd (demo_files ! n)) in
       \<exists>k0 k1 k2. fsinit k = Some k0 \<and> ivalid ip k0 = Some k1 \<and> i_type (the_inode k1 ip) = T_FILE \<and>
         readi ip Local_dst 0 (of_nat (length bytes)) k1 = Some (int (length bytes), bytes, k2))"
    using mkfs_kernel_reads [OF demo_files_fit, where 'a = unit] by auto
  obtain m' where m': "mkfs (map (\<lambda>(p, cs). (p, Some cs)) demo_files) = Some m'"
    "finished m' (map (\<lambda>(p, cs). (mk_basename p, concat cs)) demo_files)"
    using mkfs_finished [of demo_files] demo_files_fit by auto
  have "on_image (demo_mounted (im_blocks m)) (im_blocks m) 0 (of_nat (0 + 2))"
    using m(1) m' by (intro demo_mounted_on) (auto simp: finished_def)
  from m(2) [OF a(2) this] show ?thesis using m(1) unfolding a(1,3) by (auto simp: Let_def)
qed


end
