(* ===== verification/Console.thy ===== *)
theory Console
  imports Prelude
begin

text \<open>
  \<^verbatim>\<open>os/printf.c\<close> and \<^verbatim>\<open>os/console.c\<close>: the messages of the kernel. \<open>kprintf\<close> is the characters that
  \<^verbatim>\<open>printf\<close> hands to \<^verbatim>\<open>consputc\<close> one after the other, and \<^verbatim>\<open>consputc\<close> to the firmware. The variable
  arguments are a list; \<open>None\<close> is an argument that is missing or not of the kind that is asked for.
\<close>

definition digits :: "u8 list" where
  "digits = [48, 49, 50, 51, 52, 53, 54, 55, 56, 57, 97, 98, 99, 100, 101, 102]"

text \<open>The digits of a number in a base from the last one on, as the loop collects them.\<close>

function digits_rev :: "nat \<Rightarrow> nat \<Rightarrow> u8 list" where
  "digits_rev base x =
     digits ! (x mod base) # (if 2 \<le> base \<and> x div base \<noteq> 0 then digits_rev base (x div base) else [])"
  by pat_completeness auto
termination
proof (relation "measure snd", goal_cases)
  case (2 base x)
  then have "0 < x" by (cases x) auto
  with 2 show ?case by simp
qed simp

declare digits_rev.simps [simp del]

text \<open>The bases are 10 and 16; \<^verbatim>\<open>-xx\<close> as an unsigned number is the absolute value.\<close>

definition k_printint :: "int \<Rightarrow> nat \<Rightarrow> bool \<Rightarrow> u8 list" where
  "k_printint xx base sign = (let
     neg = (sign \<and> xx < 0);
     x = unat (word_of_int (if neg then - xx else xx) :: u32);
     buf = digits_rev base x @ (if neg then [45] else [])
   in rev buf)"

definition k_printptr :: "u64 \<Rightarrow> u8 list" where
  "k_printptr x = [48, 120] @ map (\<lambda>i. digits ! unat (drop_bit 60 (push_bit (4 * i) x))) [0..<16]"

text \<open>\<open>P_str None\<close> is a null pointer; it is printed as \<^verbatim>\<open>(null)\<close>.\<close>

datatype parg = P_int int | P_ptr u64 | P_str "u8 list option"

definition null_text :: "u8 list" where "null_text = [40, 110, 117, 108, 108, 41]"

definition k_conversion :: "u8 \<Rightarrow> parg list \<Rightarrow> (u8 list \<times> parg list) option" where
  "k_conversion c args =
     (if c = 100 then (case args of P_int x # args \<Rightarrow> Some (k_printint x 10 True, args) | _ \<Rightarrow> None)
      else if c = 120 then (case args of P_int x # args \<Rightarrow> Some (k_printint x 16 True, args) | _ \<Rightarrow> None)
      else if c = 112 then (case args of P_ptr x # args \<Rightarrow> Some (k_printptr x, args) | _ \<Rightarrow> None)
      else if c = 115 then (case args of
          P_str s # args \<Rightarrow> Some (case s of None \<Rightarrow> null_text | Some s \<Rightarrow> s, args) | _ \<Rightarrow> None)
      else if c = 37 then Some ([37], args)
      else Some ([37, c], args))"

fun kprintf :: "u8 list \<Rightarrow> parg list \<Rightarrow> u8 list option" where
  "kprintf [] args = Some []"
| "kprintf [c] args = Some (if c \<noteq> 37 then [c] else [])"
| "kprintf (c # d # s) args =
     (if c \<noteq> 37 then map_option (Cons c) (kprintf (d # s) args)
      else do {
        (t, args) \<leftarrow> k_conversion d args;
        r \<leftarrow> kprintf s args;
        Some (t @ r) })"

end
