(* ===== verification/UserLib.thy ===== *)
theory UserLib
  imports Syscall Console
begin

text \<open>
  The library of the user programs: \<^verbatim>\<open>user/lib/syscall.c\<close>, \<^verbatim>\<open>ai_sched.c\<close>, \<^verbatim>\<open>stdio.c\<close>, \<^verbatim>\<open>stdlib.c\<close> and
  \<^verbatim>\<open>main.c\<close>.

  A program is seen from outside: its system calls, with what the pointers among the arguments point
  to (\<open>Str\<close>, \<open>Strs\<close>), or \<open>Place\<close> for a buffer or a variable that the kernel is to fill. The kernel is
  an argument \<open>K\<close>: from the calls so far and the new one it gives the register \<^verbatim>\<open>a0\<close> and the bytes
  for the places, or \<open>None\<close> when the call never returns. \<open>ulib\<close> is the state of the library: the
  calls made, the output buffer with its lock, and the seed of the random numbers. An operation is
  \<open>None\<close> when a call in it never returns or an \<^verbatim>\<open>assert\<close> in it fails. Pointers to functions and their
  arguments are numbers. The number of a call is the one of \<^verbatim>\<open>user/lib/syscall_ids.h\<close>, which agrees
  with that of the kernel.
\<close>

datatype uarg = Num int | Str "u8 list" | Strs "u8 list list" | Place
type_synonym ucall = "int \<times> uarg list"
type_synonym ukernel = "ucall list \<Rightarrow> ucall \<Rightarrow> (u64 \<times> u8 list) option"

record ulib =
  ul_calls :: "ucall list"
  ul_buffer :: "u8 list"
  ul_buffer_lock :: int
  ul_buffer_lock_enabled :: bool
  ul_seed :: u32

definition SYS_sbrk :: int where "SYS_sbrk = 214"
definition SYS_mailread :: int where "SYS_mailread = 401"
definition SYS_mailwrite :: int where "SYS_mailwrite = 402"
definition AT_FDCWD :: int where "AT_FDCWD = - 100"
definition TRACE_READ :: int where "TRACE_READ = 0"
definition TRACE_WRITE :: int where "TRACE_WRITE = 1"
definition TRACE_SYSCALL :: int where "TRACE_SYSCALL = 2"

section \<open>System calls\<close>

definition usys :: "ukernel \<Rightarrow> int \<Rightarrow> uarg list \<Rightarrow> ulib \<Rightarrow> (u64 \<times> u8 list \<times> ulib) option" where
  "usys K n args u =
     map_option (\<lambda>(r, bs). (r, bs, u\<lparr>ul_calls := ul_calls u @ [(n, args)]\<rparr>)) (K (ul_calls u) (n, args))"

text \<open>A call whose result is an \<^verbatim>\<open>int\<close>.\<close>

definition ucall_int :: "ukernel \<Rightarrow> int \<Rightarrow> uarg list \<Rightarrow> ulib \<Rightarrow> (int \<times> ulib) option" where
  "ucall_int K n args u = map_option (\<lambda>(r, bs, u). (to_int r, u)) (usys K n args u)"

definition u_open :: "ukernel \<Rightarrow> u8 list \<Rightarrow> int \<Rightarrow> ulib \<Rightarrow> (int \<times> ulib) option" where
  "u_open K path flags = ucall_int K SYS_openat [Str path, Num flags, Num (uint O_RDWR)]"

definition u_read :: "ukernel \<Rightarrow> int \<Rightarrow> nat \<Rightarrow> ulib \<Rightarrow> (int \<times> u8 list \<times> ulib) option" where
  "u_read K fd len u = map_option (\<lambda>(r, bs, u). (sint r, bs, u)) (usys K SYS_read [Num fd, Place, Num (int len)] u)"

definition u_write :: "ukernel \<Rightarrow> int \<Rightarrow> u8 list \<Rightarrow> ulib \<Rightarrow> (int \<times> ulib) option" where
  "u_write K fd bs u =
     map_option (\<lambda>(r, _, u). (sint r, u)) (usys K SYS_write [Num fd, Str bs, Num (int (length bs))] u)"

definition u_getpid :: "ukernel \<Rightarrow> ulib \<Rightarrow> (int \<times> ulib) option" where
  "u_getpid K = ucall_int K SYS_getpid []"

definition u_getppid :: "ukernel \<Rightarrow> ulib \<Rightarrow> (int \<times> ulib) option" where
  "u_getppid K = ucall_int K SYS_getppid []"

definition u_sched_yield :: "ukernel \<Rightarrow> ulib \<Rightarrow> (int \<times> ulib) option" where
  "u_sched_yield K = ucall_int K SYS_sched_yield []"

definition u_fork :: "ukernel \<Rightarrow> ulib \<Rightarrow> (int \<times> ulib) option" where
  "u_fork K = ucall_int K SYS_clone []"

text \<open>The exit status comes with the result.\<close>

definition u_waitpid :: "ukernel \<Rightarrow> int \<Rightarrow> ulib \<Rightarrow> (int \<times> u8 list \<times> ulib) option" where
  "u_waitpid K pid u = map_option (\<lambda>(r, bs, u). (to_int r, bs, u)) (usys K SYS_wait4 [Num pid, Place] u)"

definition u_wait :: "ukernel \<Rightarrow> ulib \<Rightarrow> (int \<times> u8 list \<times> ulib) option" where
  "u_wait K = u_waitpid K (- 1)"

text \<open>A null pointer for the arguments stands for an empty list of them.\<close>

definition u_exec :: "ukernel \<Rightarrow> u8 list \<Rightarrow> u8 list list option \<Rightarrow> ulib \<Rightarrow> (int \<times> ulib) option" where
  "u_exec K name argv = ucall_int K SYS_execve [Str name, Strs (case argv of None \<Rightarrow> [] | Some xs \<Rightarrow> xs)]"

definition u_sys_get_time :: "ukernel \<Rightarrow> int \<Rightarrow> ulib \<Rightarrow> (int \<times> u8 list \<times> ulib) option" where
  "u_sys_get_time K tz u = map_option (\<lambda>(r, bs, u). (to_int r, bs, u)) (usys K SYS_gettimeofday [Place, Num tz] u)"

text \<open>Milliseconds, from the seconds and microseconds of a \<^verbatim>\<open>TimeVal\<close>.\<close>

definition u_get_mtime :: "ukernel \<Rightarrow> ulib \<Rightarrow> (u64 \<times> ulib) option" where
  "u_get_mtime K u = do {
     (err, time, u) \<leftarrow> u_sys_get_time K 0 u;
     Some (if err = 0 then (le_word (slice 0 8 time) * 1000 + le_word (slice 8 8 time) div 1000, u) else (- 1, u)) }"

partial_function (option) sleep_until :: "ukernel \<Rightarrow> u64 \<Rightarrow> ulib \<Rightarrow> ulib option" where
  "sleep_until K t u = do {
     (now, u) \<leftarrow> u_get_mtime K u;
     if now < t then do { (_, u) \<leftarrow> u_sched_yield K u; sleep_until K t u } else Some u }"

definition u_sleep :: "ukernel \<Rightarrow> u64 \<Rightarrow> ulib \<Rightarrow> (int \<times> ulib) option" where
  "u_sleep K time u = do {
     (s, u) \<leftarrow> u_get_mtime K u;
     u \<leftarrow> sleep_until K (s + time) u;
     Some (0, u) }"

definition u_set_priority :: "ukernel \<Rightarrow> int \<Rightarrow> ulib \<Rightarrow> (int \<times> ulib) option" where
  "u_set_priority K prio = ucall_int K SYS_setpriority [Num prio]"

definition u_mmap :: "ukernel \<Rightarrow> u64 \<Rightarrow> u64 \<Rightarrow> int \<Rightarrow> int \<Rightarrow> ulib \<Rightarrow> (int \<times> ulib) option" where
  "u_mmap K start len prot flags = ucall_int K SYS_mmap [Num (uint start), Num (uint len), Num prot, Num flags]"

definition u_munmap :: "ukernel \<Rightarrow> u64 \<Rightarrow> u64 \<Rightarrow> ulib \<Rightarrow> (int \<times> ulib) option" where
  "u_munmap K start len = ucall_int K SYS_munmap [Num (uint start), Num (uint len)]"

definition u_spawn :: "ukernel \<Rightarrow> u8 list \<Rightarrow> ulib \<Rightarrow> (int \<times> ulib) option" where
  "u_spawn K name = ucall_int K SYS_spawn [Str name]"

text \<open>The two descriptors come with the result.\<close>

definition u_pipe :: "ukernel \<Rightarrow> ulib \<Rightarrow> (int \<times> u8 list \<times> ulib) option" where
  "u_pipe K u = map_option (\<lambda>(r, bs, u). (to_int r, bs, u)) (usys K SYS_pipe2 [Place] u)"

definition u_mailread :: "ukernel \<Rightarrow> int \<Rightarrow> ulib \<Rightarrow> (int \<times> u8 list \<times> ulib) option" where
  "u_mailread K len u = map_option (\<lambda>(r, bs, u). (to_int r, bs, u)) (usys K SYS_mailread [Place, Num len] u)"

definition u_mailwrite :: "ukernel \<Rightarrow> int \<Rightarrow> u8 list \<Rightarrow> int \<Rightarrow> ulib \<Rightarrow> (int \<times> ulib) option" where
  "u_mailwrite K pid buf len = ucall_int K SYS_mailwrite [Num pid, Str buf, Num len]"

definition u_fstat :: "ukernel \<Rightarrow> int \<Rightarrow> ulib \<Rightarrow> (int \<times> u8 list \<times> ulib) option" where
  "u_fstat K fd u = map_option (\<lambda>(r, bs, u). (to_int r, bs, u)) (usys K SYS_fstat [Num fd, Place] u)"

definition u_sys_linkat :: "ukernel \<Rightarrow> int \<Rightarrow> u8 list \<Rightarrow> int \<Rightarrow> u8 list \<Rightarrow> int \<Rightarrow> ulib \<Rightarrow> (int \<times> ulib) option" where
  "u_sys_linkat K olddirfd oldpath newdirfd newpath flags =
     ucall_int K SYS_linkat [Num olddirfd, Str oldpath, Num newdirfd, Str newpath, Num flags]"

definition u_sys_unlinkat :: "ukernel \<Rightarrow> int \<Rightarrow> u8 list \<Rightarrow> int \<Rightarrow> ulib \<Rightarrow> (int \<times> ulib) option" where
  "u_sys_unlinkat K dirfd path flags = ucall_int K SYS_unlinkat [Num dirfd, Str path, Num flags]"

definition u_link :: "ukernel \<Rightarrow> u8 list \<Rightarrow> u8 list \<Rightarrow> ulib \<Rightarrow> (int \<times> ulib) option" where
  "u_link K old_path new_path = u_sys_linkat K AT_FDCWD old_path AT_FDCWD new_path 0"

definition u_unlink :: "ukernel \<Rightarrow> u8 list \<Rightarrow> ulib \<Rightarrow> (int \<times> ulib) option" where
  "u_unlink K path = u_sys_unlinkat K AT_FDCWD path 0"

definition u_gettid :: "ukernel \<Rightarrow> ulib \<Rightarrow> (int \<times> ulib) option" where
  "u_gettid K = ucall_int K SYS_gettid []"

partial_function (option) u_waittid :: "ukernel \<Rightarrow> int \<Rightarrow> ulib \<Rightarrow> (int \<times> ulib) option" where
  "u_waittid K tid u = do {
     (r, u) \<leftarrow> ucall_int K SYS_waittid [Num tid] u;
     if r = - 2 then do { (_, u) \<leftarrow> u_sched_yield K u; u_waittid K tid u } else Some (r, u) }"

definition u_mutex_create :: "ukernel \<Rightarrow> ulib \<Rightarrow> (int \<times> ulib) option" where
  "u_mutex_create K = ucall_int K SYS_mutex_create [Num 0]"

definition u_mutex_blocking_create :: "ukernel \<Rightarrow> ulib \<Rightarrow> (int \<times> ulib) option" where
  "u_mutex_blocking_create K = ucall_int K SYS_mutex_create [Num 1]"

definition u_mutex_lock :: "ukernel \<Rightarrow> int \<Rightarrow> ulib \<Rightarrow> (int \<times> ulib) option" where
  "u_mutex_lock K mid = ucall_int K SYS_mutex_lock [Num mid]"

definition u_mutex_unlock :: "ukernel \<Rightarrow> int \<Rightarrow> ulib \<Rightarrow> (int \<times> ulib) option" where
  "u_mutex_unlock K mid = ucall_int K SYS_mutex_unlock [Num mid]"

definition u_semaphore_create :: "ukernel \<Rightarrow> int \<Rightarrow> ulib \<Rightarrow> (int \<times> ulib) option" where
  "u_semaphore_create K res_count = ucall_int K SYS_semaphore_create [Num res_count]"

definition u_semaphore_up :: "ukernel \<Rightarrow> int \<Rightarrow> ulib \<Rightarrow> (int \<times> ulib) option" where
  "u_semaphore_up K sid = ucall_int K SYS_semaphore_up [Num sid]"

definition u_semaphore_down :: "ukernel \<Rightarrow> int \<Rightarrow> ulib \<Rightarrow> (int \<times> ulib) option" where
  "u_semaphore_down K sid = ucall_int K SYS_semaphore_down [Num sid]"

definition u_condvar_create :: "ukernel \<Rightarrow> ulib \<Rightarrow> (int \<times> ulib) option" where
  "u_condvar_create K = ucall_int K SYS_condvar_create []"

definition u_condvar_signal :: "ukernel \<Rightarrow> int \<Rightarrow> ulib \<Rightarrow> (int \<times> ulib) option" where
  "u_condvar_signal K cid = ucall_int K SYS_condvar_signal [Num cid]"

definition u_condvar_wait :: "ukernel \<Rightarrow> int \<Rightarrow> int \<Rightarrow> ulib \<Rightarrow> (int \<times> ulib) option" where
  "u_condvar_wait K cid mid = ucall_int K SYS_condvar_wait [Num cid, Num mid]"

definition u_enable_deadlock_detect :: "ukernel \<Rightarrow> int \<Rightarrow> ulib \<Rightarrow> (int \<times> ulib) option" where
  "u_enable_deadlock_detect K enabled = ucall_int K SYS_enable_deadlock_detect [Num enabled]"

definition u_sbrk :: "ukernel \<Rightarrow> int \<Rightarrow> ulib \<Rightarrow> (int \<times> ulib) option" where
  "u_sbrk K n u = map_option (\<lambda>(r, _, u). (sint r, u)) (usys K SYS_sbrk [Num n] u)"

definition u_trace :: "ukernel \<Rightarrow> int \<Rightarrow> u64 \<Rightarrow> u8 \<Rightarrow> ulib \<Rightarrow> (int \<times> ulib) option" where
  "u_trace K req addr data = ucall_int K SYS_trace [Num req, Num (uint addr), Num (uint data)]"

definition u_trace_read :: "ukernel \<Rightarrow> u64 \<Rightarrow> ulib \<Rightarrow> (int \<times> ulib) option" where
  "u_trace_read K addr = u_trace K TRACE_READ addr 0"

definition u_trace_write :: "ukernel \<Rightarrow> u64 \<Rightarrow> u8 \<Rightarrow> ulib \<Rightarrow> (int \<times> ulib) option" where
  "u_trace_write K addr data = u_trace K TRACE_WRITE addr data"

definition u_count_syscall :: "ukernel \<Rightarrow> int \<Rightarrow> ulib \<Rightarrow> (int \<times> ulib) option" where
  "u_count_syscall K n = u_trace K TRACE_SYSCALL (word_of_int n) 0"

section \<open>Calls of the NPC kernel services\<close>

definition u_npc_register :: "ukernel \<Rightarrow> int \<Rightarrow> ulib \<Rightarrow> (int \<times> ulib) option" where
  "u_npc_register K npc_id = ucall_int K SYS_npc_register [Num npc_id]"

definition u_npc_get_status :: "ukernel \<Rightarrow> ulib \<Rightarrow> (int \<times> u8 list \<times> ulib) option" where
  "u_npc_get_status K u = map_option (\<lambda>(r, bs, u). (to_int r, bs, u)) (usys K SYS_npc_get_status [Place] u)"

definition u_npc_yield :: "ukernel \<Rightarrow> ulib \<Rightarrow> (int \<times> ulib) option" where
  "u_npc_yield K = ucall_int K SYS_npc_yield []"

definition u_npc_ipc_notify :: "ukernel \<Rightarrow> int \<Rightarrow> int \<Rightarrow> ulib \<Rightarrow> (int \<times> ulib) option" where
  "u_npc_ipc_notify K target_pid bytes = ucall_int K SYS_npc_ipc_notify [Num target_pid, Num bytes]"

definition u_npc_ai_chat :: "ukernel \<Rightarrow> u8 list \<Rightarrow> int \<Rightarrow> ulib \<Rightarrow> (int \<times> u8 list \<times> ulib) option" where
  "u_npc_ai_chat K prompt resp_maxlen u =
     map_option (\<lambda>(r, bs, u). (to_int r, bs, u)) (usys K SYS_npc_ai_chat [Str prompt, Place, Num resp_maxlen] u)"

definition u_npc_memory_save :: "ukernel \<Rightarrow> int \<Rightarrow> u8 list \<Rightarrow> int \<Rightarrow> ulib \<Rightarrow> (int \<times> ulib) option" where
  "u_npc_memory_save K npc_id content len = ucall_int K SYS_npc_memory_save [Num npc_id, Str content, Num len]"

definition u_npc_memory_load :: "ukernel \<Rightarrow> int \<Rightarrow> int \<Rightarrow> ulib \<Rightarrow> (int \<times> u8 list \<times> ulib) option" where
  "u_npc_memory_load K npc_id maxlen u =
     map_option (\<lambda>(r, bs, u). (to_int r, bs, u)) (usys K SYS_npc_memory_load [Num npc_id, Place, Num maxlen] u)"

section \<open>Output\<close>

definition LINE_WIDTH :: nat where "LINE_WIDTH = 256"
definition STDOUT_FD :: int where "STDOUT_FD = 1"

definition write_buffer :: "ukernel \<Rightarrow> ulib \<Rightarrow> (int \<times> ulib) option" where
  "write_buffer K u = (if ul_buffer u = [] then Some (0, u)
     else map_option (\<lambda>(r, u). (wrap32 r, u)) (u_write K STDOUT_FD (ul_buffer u) u))"

definition clear_buffer :: "ulib \<Rightarrow> ulib" where
  "clear_buffer u = u\<lparr>ul_buffer := []\<rparr>"

definition flush_buffer :: "ukernel \<Rightarrow> ulib \<Rightarrow> (int \<times> ulib) option" where
  "flush_buffer K u = do {
     (r, u) \<leftarrow> write_buffer K u;
     Some (if 0 \<le> r then 0 else r, clear_buffer u) }"

text \<open>An operation on the buffer, between the calls of the lock when several threads use it.\<close>

definition with_lock :: "ukernel \<Rightarrow> (ulib \<Rightarrow> (int \<times> ulib) option) \<Rightarrow> ulib \<Rightarrow> (int \<times> ulib) option" where
  "with_lock K f u =
     (if ul_buffer_lock_enabled u then do {
        (_, u) \<leftarrow> u_mutex_lock K (ul_buffer_lock u) u;
        (r, u) \<leftarrow> f u;
        (_, u) \<leftarrow> u_mutex_unlock K (ul_buffer_lock u) u;
        Some (r, u) }
      else f u)"

definition u_fflush :: "ukernel \<Rightarrow> int \<Rightarrow> ulib \<Rightarrow> (int \<times> ulib) option" where
  "u_fflush K fd u = (if fd = 1 then with_lock K (flush_buffer K) u else Some (0, u))"

definition enable_thread_io_buffer :: "ukernel \<Rightarrow> ulib \<Rightarrow> ulib option" where
  "enable_thread_io_buffer K u = do {
     (m, u) \<leftarrow> u_mutex_create K u;
     if 0 \<le> m then Some (u\<lparr>ul_buffer_lock := m, ul_buffer_lock_enabled := True\<rparr>) else None }"

text \<open>\<^verbatim>\<open>buffer_len\<close> is 0 when it is compared with the result, so a short write is not noticed.\<close>

fun out_from :: "ukernel \<Rightarrow> int \<Rightarrow> u8 list \<Rightarrow> ulib \<Rightarrow> (int \<times> ulib) option" where
  "out_from K acc [] u = Some (acc, u)"
| "out_from K acc (c # cs) u = (let u = u\<lparr>ul_buffer := ul_buffer u @ [c]\<rparr> in
     if LINE_WIDTH \<le> length (ul_buffer u) \<or> c = 10 then
       if LINE_WIDTH < length (ul_buffer u) then None
       else do {
         (r, u) \<leftarrow> write_buffer K u;
         let u = clear_buffer u;
         if r < 0 then Some (r, u)
         else if r < int (length (ul_buffer u)) then Some (wrap32 (acc + r), u)
         else out_from K (wrap32 (acc + r)) cs u }
     else out_from K acc cs u)"

definition out_unlocked :: "ukernel \<Rightarrow> u8 list \<Rightarrow> ulib \<Rightarrow> (int \<times> ulib) option" where
  "out_unlocked K s u = out_from K 0 s u"

definition out :: "ukernel \<Rightarrow> int \<Rightarrow> u8 list \<Rightarrow> ulib \<Rightarrow> (int \<times> ulib) option" where
  "out K f s u =
     (if f \<noteq> STDOUT_FD then map_option (\<lambda>(r, u). (wrap32 r, u)) (u_write K f s u)
      else with_lock K (out_unlocked K s) u)"

definition u_putchar :: "ukernel \<Rightarrow> int \<Rightarrow> ulib \<Rightarrow> (int \<times> ulib) option" where
  "u_putchar K c u = out K STDOUT_FD [word_of_int c] u"

definition u_puts :: "ukernel \<Rightarrow> u8 list \<Rightarrow> ulib \<Rightarrow> (int \<times> ulib) option" where
  "u_puts K s u = do {
     (r, u) \<leftarrow> out K STDOUT_FD s u;
     if r < 0 then Some (- 1, u)
     else do { (r, u) \<leftarrow> u_putchar K 10 u; Some (if r < 0 then - 1 else 0, u) } }"

definition u_getchar :: "ukernel \<Rightarrow> ulib \<Rightarrow> (int \<times> ulib) option" where
  "u_getchar K u = do {
     (r, bs, u) \<leftarrow> u_read K 0 1 u;
     Some (if r = 1 then (case bs of [] \<Rightarrow> 0 | c # _ \<Rightarrow> uint c) else - 1, u) }"

section \<open>Formatted output\<close>

text \<open>The table of digits and the kinds of arguments are those of the kernel. The bases are 10 and 16.\<close>

definition int_chars :: "int \<Rightarrow> nat \<Rightarrow> bool \<Rightarrow> u8 list" where
  "int_chars xx base sign = (let
     neg = (sign \<and> xx < 0);
     x = unat (word_of_int (if neg then - xx else xx) :: u32)
   in (if neg then [45] else []) @ rev (digits_rev base x))"

definition printint :: "ukernel \<Rightarrow> int \<Rightarrow> nat \<Rightarrow> bool \<Rightarrow> ulib \<Rightarrow> ulib option" where
  "printint K xx base sign u = map_option snd (out K STDOUT_FD (int_chars xx base sign) u)"

definition ptr_chars :: "u64 \<Rightarrow> u8 list" where
  "ptr_chars x = [48, 120] @ map (\<lambda>j. digits ! unat (drop_bit 60 (push_bit (4 * j) x))) [0..<16]"

definition printptr :: "ukernel \<Rightarrow> u64 \<Rightarrow> ulib \<Rightarrow> ulib option" where
  "printptr K x u = map_option snd (out K STDOUT_FD (ptr_chars x) u)"

fun percents :: "u8 list \<Rightarrow> nat \<times> u8 list" where
  "percents (a # b # s) = (if a = 37 \<and> b = 37 then (let (k, r) = percents s in (Suc k, r)) else (0, a # b # s))"
| "percents s = (0, s)"

lemma percents_length: "percents s = (k, r) \<Longrightarrow> length r + 2 * k = length s"
  by (induction s arbitrary: k r rule: percents.induct) (auto split: if_splits prod.splits)

definition print_arg :: "ukernel \<Rightarrow> u8 \<Rightarrow> parg list \<Rightarrow> ulib \<Rightarrow> (parg list \<times> ulib) option" where
  "print_arg K c args u =
     (if c = 100 then (case args of P_int x # args \<Rightarrow> map_option (Pair args) (printint K x 10 True u) | _ \<Rightarrow> None)
      else if c = 120 then (case args of P_int x # args \<Rightarrow> map_option (Pair args) (printint K x 16 True u) | _ \<Rightarrow> None)
      else if c = 112 then (case args of P_ptr x # args \<Rightarrow> map_option (Pair args) (printptr K x u) | _ \<Rightarrow> None)
      else if c = 115 then (case args of
          P_str a # args \<Rightarrow> (let a = (case a of None \<Rightarrow> null_text | Some a \<Rightarrow> a) in
            map_option (\<lambda>(_, u). (args, u)) (out K STDOUT_FD (take 200 a) u))
        | _ \<Rightarrow> None)
      else do {
        (_, u) \<leftarrow> u_putchar K 37 u;
        (_, u) \<leftarrow> u_putchar K (uint c) u;
        Some (args, u) })"

function u_printf :: "ukernel \<Rightarrow> u8 list \<Rightarrow> parg list \<Rightarrow> ulib \<Rightarrow> ulib option" where
  "u_printf K s args u =
     (if s = [] then Some u
      else let
        plain = takeWhile (\<lambda>c. c \<noteq> 37) s;
        (k, s) = percents (dropWhile (\<lambda>c. c \<noteq> 37) s);
        chars = plain @ replicate k 37
      in do {
        (_, u) \<leftarrow> out K STDOUT_FD chars u;
        if chars \<noteq> [] then u_printf K s args u
        else case s of
          _ # c # s \<Rightarrow> do { (args, u) \<leftarrow> print_arg K c args u; u_printf K s args u }
        | _ \<Rightarrow> Some u })"
  by pat_completeness auto
termination
proof (relation "measure (\<lambda>(K, s, args, u). length s)", goal_cases)
  case 1
  then show ?case by simp
next
  case (2 K s args u plain x k s' chars y r u')
  then have "length s' + 2 * k = length (dropWhile (\<lambda>c. c \<noteq> 37) s)" using percents_length by metis
  moreover have "length plain + length (dropWhile (\<lambda>c. c \<noteq> 37) s) = length s"
    using 2 by (metis length_append takeWhile_dropWhile_id)
  moreover have "0 < length plain + k" using 2 by (cases plain; cases k) auto
  ultimately have "length s' < length s" by linarith
  then show ?case by simp
next
  case (3 K s args u plain x k s' chars y r u' a l c t p args' u'')
  then have "length s' + 2 * k = length (dropWhile (\<lambda>c. c \<noteq> 37) s)" using percents_length by metis
  moreover have "length (dropWhile (\<lambda>c. c \<noteq> 37) s) \<le> length s" by (rule length_dropWhile_le)
  ultimately show ?case using 3 by simp
qed

declare u_printf.simps [simp del]

section \<open>Processes and threads\<close>

definition u_close :: "ukernel \<Rightarrow> int \<Rightarrow> ulib \<Rightarrow> (int \<times> ulib) option" where
  "u_close K fd u = do {
     u \<leftarrow> (if fd = 1 then do { (_, u) \<leftarrow> write_buffer K u; Some (clear_buffer u) } else Some u);
     ucall_int K SYS_close [Num fd] u }"

definition u_exit :: "ukernel \<Rightarrow> int \<Rightarrow> ulib \<Rightarrow> ulib option" where
  "u_exit K code u = do {
     (_, u) \<leftarrow> write_buffer K u;
     (_, _, u) \<leftarrow> usys K SYS_exit [Num code] (clear_buffer u);
     Some u }"

definition start_main :: "ukernel \<Rightarrow> (u8 list list \<Rightarrow> ulib \<Rightarrow> (int \<times> ulib) option) \<Rightarrow> u8 list list \<Rightarrow> ulib \<Rightarrow> (int \<times> ulib) option" where
  "start_main K main argv u = do {
     (r, u) \<leftarrow> main argv u;
     u \<leftarrow> u_exit K r u;
     Some (0, u) }"

definition u_thread_create :: "ukernel \<Rightarrow> u64 \<Rightarrow> u64 \<Rightarrow> ulib \<Rightarrow> (int \<times> ulib) option" where
  "u_thread_create K entry arg u = do {
     u \<leftarrow> (if ul_buffer_lock_enabled u then Some u else enable_thread_io_buffer K u);
     ucall_int K SYS_thread_create [Num (uint entry), Num (uint arg)] u }"

section \<open>Random numbers\<close>

definition hash_int :: "int \<Rightarrow> int" where
  "hash_int n = (let r = 6364136223846793005 * word_of_int n + (1 :: u64) in sint (ucast (drop_bit 33 r) :: u32))"

definition u_srand :: "int \<Rightarrow> ulib \<Rightarrow> ulib" where
  "u_srand s u = u\<lparr>ul_seed := word_of_int s\<rparr>"

definition u_rand :: "ulib \<Rightarrow> u32 \<times> ulib" where
  "u_rand u = (let seed = word_of_int (hash_int (sint (ul_seed u))) in (seed, u\<lparr>ul_seed := seed\<rparr>))"

end
