(* ===== verification/UserShell.thy ===== *)
theory UserShell
  imports UserLib
begin

text \<open>
  \<^verbatim>\<open>user/src/usershell.c\<close>: the shell. The state is the line typed so far, the first \<^verbatim>\<open>top\<close> bytes of
  \<^verbatim>\<open>line\<close>; the rest is the library's. \<open>None\<close> is a byte written behind the end of \<^verbatim>\<open>line\<close> or of \<^verbatim>\<open>argv\<close>,
  or a system call that never returns, but for \<^verbatim>\<open>exec\<close> and \<^verbatim>\<open>exit\<close>: with them the process ends as this
  program, and \<open>Ended\<close> has all the calls it made. The text of a \<^verbatim>\<open>panic\<close> is left out.
\<close>

definition MAX_ARGS :: nat where "MAX_ARGS = 32"
definition MAX_LINE :: nat where "MAX_LINE = 200"
definition LF :: u8 where "LF = 10"
definition CR :: u8 where "CR = 13"
definition DL :: u8 where "DL = 127"
definition BS :: u8 where "BS = 8"

datatype shell_next = Reads "u8 list" ulib | Ended ulib

definition shell_push :: "u8 \<Rightarrow> u8 list \<Rightarrow> u8 list option" where
  "shell_push c line = (if length line < MAX_LINE then Some (line @ [c]) else None)"

definition shell_pop :: "u8 list \<Rightarrow> u8 list" where
  "shell_pop line = butlast line"

text \<open>The arguments: the string is cut at its blanks, which become NUL bytes.\<close>

function split_args :: "u8 list \<Rightarrow> u8 list list" where
  "split_args s = (let s = dropWhile (\<lambda>c. c = 32) s in
     if s = [] then [] else takeWhile (\<lambda>c. c \<noteq> 32) s # split_args (dropWhile (\<lambda>c. c \<noteq> 32) s))"
  by pat_completeness auto
termination
proof (relation "measure length", goal_cases)
  case (2 s t)
  then have "t \<noteq> []" "hd t \<noteq> 32" using hd_dropWhile by blast+
  then have "length (dropWhile (\<lambda>c. c \<noteq> 32) t) < length t"
    by (cases t) (auto simp: le_imp_less_Suc length_dropWhile_le)
  moreover have "length t \<le> length s" using 2(1) length_dropWhile_le by metis
  ultimately show ?case by simp
qed simp

declare split_args.simps [simp del]

definition get_argv :: "u8 list \<Rightarrow> u8 list list option" where
  "get_argv line = (let args = split_args (takeWhile (\<lambda>c. c \<noteq> 0) line) in
     if length args < MAX_ARGS then Some args else None)"

definition quit_text :: "u8 list" where "quit_text = [113, 117, 105, 116]"

definition is_quit :: "u8 list \<Rightarrow> bool" where
  "is_quit line \<longleftrightarrow> takeWhile (\<lambda>c. c \<noteq> 0) line = quit_text"

text \<open>\<^verbatim>\<open>exit\<close>, as seen from outside.\<close>

definition leave :: "ukernel \<Rightarrow> int \<Rightarrow> ulib \<Rightarrow> shell_next option" where
  "leave K code u = do {
     (_, u) \<leftarrow> write_buffer K u;
     let u = clear_buffer u;
     Some (Ended (u\<lparr>ul_calls := ul_calls u @ [(SYS_exit, [Num code])]\<rparr>)) }"

definition t_no_program :: "u8 list" where
  "t_no_program = [110, 111, 32, 115, 117, 99, 104, 32, 112, 114, 111, 103, 114, 97, 109, 58, 32, 37, 115, 10]"

definition t_exited :: "u8 list" where
  "t_exited = [83, 104, 101, 108, 108, 58, 32, 80, 114, 111, 99, 101, 115, 115, 32, 37, 100, 32, 101, 120, 105, 116, 101, 100, 32,
     119, 105, 116, 104, 32, 99, 111, 100, 101, 32, 37, 100, 10]"

definition t_prompt :: "u8 list" where "t_prompt = [62, 62, 32]"

text \<open>The child: it becomes the program, unless there is none. Without arguments \<^verbatim>\<open>argv[0]\<close> is a null pointer.\<close>

definition run_child :: "ukernel \<Rightarrow> u8 list \<Rightarrow> u8 list list \<Rightarrow> ulib \<Rightarrow> shell_next option" where
  "run_child K line args u = (let call = (SYS_execve, [(case args of [] \<Rightarrow> Num 0 | a # _ \<Rightarrow> Str a), Strs args]) in
     case K (ul_calls u) call of
       None \<Rightarrow> Some (Ended (u\<lparr>ul_calls := ul_calls u @ [call]\<rparr>))
     | Some (r, _) \<Rightarrow> (let u = u\<lparr>ul_calls := ul_calls u @ [call]\<rparr> in
         if to_int r < 0 then do {
           u \<leftarrow> u_printf K t_no_program [P_str (Some (case args of [] \<Rightarrow> [] | _ \<Rightarrow>
             (if line \<noteq> [] \<and> hd line = 32 then [] else hd args)))] u;
           leave K 0 u }
         else leave K (- 1) u))"

text \<open>The parent: it waits for the child, whose exit status is four bytes.\<close>

definition wait_child :: "ukernel \<Rightarrow> int \<Rightarrow> ulib \<Rightarrow> shell_next option" where
  "wait_child K pid u = do {
     (exit_pid, bs, u) \<leftarrow> u_waitpid K pid u;
     let xstate = sint (le_word (take 4 bs) :: u32);
     if pid \<noteq> exit_pid then leave K (- 1) u
     else do { u \<leftarrow> u_printf K t_exited [P_int pid, P_int xstate] u; Some (Reads [] u) } }"

text \<open>A line is complete: the rest of the step, with the line ended by a NUL byte.\<close>

definition run_line :: "ukernel \<Rightarrow> u8 list \<Rightarrow> ulib \<Rightarrow> shell_next option" where
  "run_line K line u =
     (if is_quit line then leave K 0 u
      else do {
        args \<leftarrow> get_argv line;
        (pid, u) \<leftarrow> u_fork K u;
        if pid = 0 then run_child K line args u else wait_child K pid u })"

definition prompt :: "ukernel \<Rightarrow> ulib \<Rightarrow> ulib option" where
  "prompt K u = do {
     u \<leftarrow> u_printf K t_prompt [] u;
     (_, u) \<leftarrow> u_fflush K 1 u;
     Some u }"

definition shell_char :: "ukernel \<Rightarrow> u8 \<Rightarrow> u8 list \<Rightarrow> ulib \<Rightarrow> shell_next option" where
  "shell_char K c line u =
     (if c = LF \<or> c = CR then do {
        u \<leftarrow> u_printf K [10] [] u;
        next \<leftarrow> (if line \<noteq> [] then do { line \<leftarrow> shell_push 0 line; run_line K line u } else Some (Reads [] u));
        case next of Ended u \<Rightarrow> Some (Ended u) | Reads line u \<Rightarrow> map_option (Reads line) (prompt K u) }
      else if c = BS \<or> c = DL then
        if line = [] then Some (Reads line u)
        else do {
          (_, u) \<leftarrow> u_putchar K (uint BS) u;
          u \<leftarrow> u_printf K [32] [] u;
          (_, u) \<leftarrow> u_putchar K (uint BS) u;
          (_, u) \<leftarrow> u_fflush K 1 u;
          Some (Reads (shell_pop line) u) }
      else do {
        (_, u) \<leftarrow> u_putchar K (uint c) u;
        (_, u) \<leftarrow> u_fflush K 1 u;
        line \<leftarrow> shell_push c line;
        Some (Reads line u) })"

text \<open>The loop, for the characters that \<^verbatim>\<open>getchar\<close> delivers; the end of the input is the character 255.\<close>

fun shell_input :: "ukernel \<Rightarrow> u8 list \<Rightarrow> u8 list \<Rightarrow> ulib \<Rightarrow> shell_next option" where
  "shell_input K [] line u = Some (Reads line u)"
| "shell_input K (c # cs) line u = (case shell_char K c line u of
     Some (Reads line u) \<Rightarrow> shell_input K cs line u
   | r \<Rightarrow> r)"

definition t_welcome :: "u8 list" where
  "t_welcome = [67, 32, 117, 115, 101, 114, 32, 115, 104, 101, 108, 108, 10]"

definition shell_main :: "ukernel \<Rightarrow> u8 list \<Rightarrow> ulib \<Rightarrow> shell_next option" where
  "shell_main K cs u = do {
     u \<leftarrow> u_printf K t_welcome [] u;
     u \<leftarrow> prompt K u;
     shell_input K cs [] u }"

end
