(* ===== verification/UserString.thy ===== *)
theory UserString
  imports KAlloc
begin

unbundle bit_operations_syntax

text \<open>
  \<^verbatim>\<open>user/lib/string.c\<close>: the string functions of the user library. Most of them look at eight bytes at a
  time, at addresses that are multiples of eight.

  Memory and addresses are those of the kernel's \<^verbatim>\<open>string.c\<close>. A loop that stops only at a NUL byte is a
  partial function. \<open>u_atoi\<close>, which only reads a string, takes the list of its bytes; behind its end
  there is a NUL.
\<close>

section \<open>Characters and numbers\<close>

definition u_isspace :: "int \<Rightarrow> bool" where
  "u_isspace c \<longleftrightarrow> c = 32 \<or> word_of_int c - 9 < (5 :: u32)"

definition u_isdigit :: "int \<Rightarrow> bool" where
  "u_isdigit c \<longleftrightarrow> word_of_int c - 48 < (10 :: u32)"

fun atoi_digits :: "int \<Rightarrow> u8 list \<Rightarrow> int" where
  "atoi_digits n [] = n"
| "atoi_digits n (c # cs) = (if u_isdigit (uint c) then atoi_digits (10 * n - (uint c - 48)) cs else n)"

text \<open>The number is built negative, and is an \<^verbatim>\<open>int\<close> in the end.\<close>

definition u_atoi :: "u8 list \<Rightarrow> int" where
  "u_atoi s = (let s = dropWhile (\<lambda>c. u_isspace (uint c)) s;
     neg = (s \<noteq> [] \<and> hd s = 45);
     s = (if s \<noteq> [] \<and> (hd s = 45 \<or> hd s = 43) then tl s else s);
     n = atoi_digits 0 s
   in sint (word_of_int (if neg then n else - n) :: u32))"

section \<open>Comparison\<close>

definition u_memset :: "memory \<Rightarrow> u64 \<Rightarrow> int \<Rightarrow> nat \<Rightarrow> memory" where
  "u_memset m dest c n = memset m dest (word_of_int c) n"

partial_function (option) u_strcmp :: "(nat \<Rightarrow> u8) \<Rightarrow> (nat \<Rightarrow> u8) \<Rightarrow> int option" where
  "u_strcmp l r = (if l 0 = r 0 \<and> l 0 \<noteq> 0 then u_strcmp (\<lambda>i. l (Suc i)) (\<lambda>i. r (Suc i))
     else Some (uint (l 0) - uint (r 0)))"

text \<open>\<open>n\<close> counts what is left behind the first characters.\<close>

fun strncmp_from :: "(nat \<Rightarrow> u8) \<Rightarrow> (nat \<Rightarrow> u8) \<Rightarrow> nat \<Rightarrow> int" where
  "strncmp_from l r 0 = uint (l 0) - uint (r 0)"
| "strncmp_from l r (Suc n) =
     (if l 0 \<noteq> 0 \<and> r 0 \<noteq> 0 \<and> l 0 = r 0 then strncmp_from (\<lambda>i. l (Suc i)) (\<lambda>i. r (Suc i)) n
      else uint (l 0) - uint (r 0))"

definition u_strncmp :: "(nat \<Rightarrow> u8) \<Rightarrow> (nat \<Rightarrow> u8) \<Rightarrow> nat \<Rightarrow> int" where
  "u_strncmp l r n = (if n = 0 then 0 else strncmp_from l r (n - 1))"

section \<open>Eight bytes at a time\<close>

definition ONES :: u64 where "ONES = - 1 div 255"
definition HIGHS :: u64 where "HIGHS = ONES * (255 div 2 + 1)"

definition HASZERO :: "u64 \<Rightarrow> bool" where
  "HASZERO x \<longleftrightarrow> (x - ONES) AND NOT x AND HIGHS \<noteq> 0"

text \<open>Up to an aligned address or a NUL byte before it; whether it was a NUL.\<close>

partial_function (option) align_scan :: "memory \<Rightarrow> u64 \<Rightarrow> (bool \<times> u64) option" where
  "align_scan m s = (if s mod 8 = 0 then Some (False, s) else if m s = 0 then Some (True, s) else align_scan m (s + 1))"

partial_function (option) word_scan :: "memory \<Rightarrow> u64 \<Rightarrow> u64 option" where
  "word_scan m w = (if HASZERO (load64 m w) then Some w else word_scan m (w + 8))"

partial_function (option) byte_scan :: "memory \<Rightarrow> u64 \<Rightarrow> u64 option" where
  "byte_scan m s = (if m s = 0 then Some s else byte_scan m (s + 1))"

definition u_strlen :: "memory \<Rightarrow> u64 \<Rightarrow> u64 option" where
  "u_strlen m a = (case align_scan m a of
     None \<Rightarrow> None
   | Some (True, s) \<Rightarrow> Some (s - a)
   | Some (False, s) \<Rightarrow> (case word_scan m s of
       None \<Rightarrow> None
     | Some w \<Rightarrow> map_option (\<lambda>s. s - a) (byte_scan m w)))"

text \<open>The three loops of \<^verbatim>\<open>memchr\<close>, with the bytes still to look at.\<close>

fun memchr_align :: "memory \<Rightarrow> u8 \<Rightarrow> u64 \<Rightarrow> nat \<Rightarrow> u64 \<times> nat" where
  "memchr_align m c s 0 = (s, 0)"
| "memchr_align m c s (Suc n) = (if s AND 7 \<noteq> 0 \<and> m s \<noteq> c then memchr_align m c (s + 1) n else (s, Suc n))"

function memchr_words :: "memory \<Rightarrow> u64 \<Rightarrow> u64 \<Rightarrow> nat \<Rightarrow> u64 \<times> nat" where
  "memchr_words m k w n =
     (if 8 \<le> n \<and> \<not> HASZERO (load64 m w XOR k) then memchr_words m k (w + 8) (n - 8) else (w, n))"
  by pat_completeness auto
termination
  by (relation "measure (\<lambda>(m, k, w, n). n)") auto

declare memchr_words.simps [simp del]

fun memchr_bytes :: "memory \<Rightarrow> u8 \<Rightarrow> u64 \<Rightarrow> nat \<Rightarrow> u64 \<times> nat" where
  "memchr_bytes m c s 0 = (s, 0)"
| "memchr_bytes m c s (Suc n) = (if m s \<noteq> c then memchr_bytes m c (s + 1) n else (s, Suc n))"

definition u_memchr :: "memory \<Rightarrow> u64 \<Rightarrow> int \<Rightarrow> nat \<Rightarrow> u64 option" where
  "u_memchr m src c n = (let c = word_of_int c :: u8;
     (s, n) = memchr_align m c src n;
     (s, n) = (if n \<noteq> 0 \<and> m s \<noteq> c then memchr_words m (ONES * ucast c) s n else (s, n));
     (s, n) = memchr_bytes m c s n
   in if n \<noteq> 0 then Some s else None)"

definition u_strnlen :: "memory \<Rightarrow> u64 \<Rightarrow> nat \<Rightarrow> u64" where
  "u_strnlen m s n = (case u_memchr m s 0 n of Some p \<Rightarrow> p - s | None \<Rightarrow> of_nat n)"

section \<open>Copies\<close>

text \<open>Each loop gives the two pointers and the memory; the first one, whether it copied the NUL.\<close>

partial_function (option) copy_align :: "u64 \<Rightarrow> u64 \<Rightarrow> memory \<Rightarrow> (bool \<times> u64 \<times> u64 \<times> memory) option" where
  "copy_align d s m =
     (if s mod 8 = 0 then Some (False, d, s, m)
      else let m' = m(d := m s) in
        if m s = 0 then Some (True, d, s, m') else copy_align (d + 1) (s + 1) m')"

partial_function (option) copy_words :: "u64 \<Rightarrow> u64 \<Rightarrow> memory \<Rightarrow> (u64 \<times> u64 \<times> memory) option" where
  "copy_words d s m =
     (if HASZERO (load64 m s) then Some (d, s, m) else copy_words (d + 8) (s + 8) (store64 m d (load64 m s)))"

partial_function (option) copy_bytes :: "u64 \<Rightarrow> u64 \<Rightarrow> memory \<Rightarrow> (u64 \<times> memory) option" where
  "copy_bytes d s m =
     (let m' = m(d := m s) in if m s = 0 then Some (d, m') else copy_bytes (d + 1) (s + 1) m')"

definition u_stpcpy :: "u64 \<Rightarrow> u64 \<Rightarrow> memory \<Rightarrow> (u64 \<times> memory) option" where
  "u_stpcpy d s m =
     (if s mod 8 = d mod 8 then (case copy_align d s m of
        None \<Rightarrow> None
      | Some (True, d, s, m) \<Rightarrow> Some (d, m)
      | Some (False, d, s, m) \<Rightarrow> (case copy_words d s m of None \<Rightarrow> None | Some (d, s, m) \<Rightarrow> copy_bytes d s m))
      else copy_bytes d s m)"

fun ncopy_align :: "u64 \<Rightarrow> u64 \<Rightarrow> nat \<Rightarrow> memory \<Rightarrow> u64 \<times> u64 \<times> nat \<times> memory" where
  "ncopy_align d s 0 m = (d, s, 0, m)"
| "ncopy_align d s (Suc n) m =
     (if s AND 7 \<noteq> 0 then (let m' = m(d := m s) in if m s = 0 then (d, s, Suc n, m') else ncopy_align (d + 1) (s + 1) n m')
      else (d, s, Suc n, m))"

function ncopy_words :: "u64 \<Rightarrow> u64 \<Rightarrow> nat \<Rightarrow> memory \<Rightarrow> u64 \<times> u64 \<times> nat \<times> memory" where
  "ncopy_words d s n m =
     (if 8 \<le> n \<and> \<not> HASZERO (load64 m s) then ncopy_words (d + 8) (s + 8) (n - 8) (store64 m d (load64 m s)) else (d, s, n, m))"
  by pat_completeness auto
termination
  by (relation "measure (\<lambda>(d, s, n, m). n)") auto

declare ncopy_words.simps [simp del]

fun ncopy_bytes :: "u64 \<Rightarrow> u64 \<Rightarrow> nat \<Rightarrow> memory \<Rightarrow> u64 \<times> nat \<times> memory" where
  "ncopy_bytes d s 0 m = (d, 0, m)"
| "ncopy_bytes d s (Suc n) m = (let m' = m(d := m s) in if m s = 0 then (d, Suc n, m') else ncopy_bytes (d + 1) (s + 1) n m')"

definition u_stpncpy :: "u64 \<Rightarrow> u64 \<Rightarrow> nat \<Rightarrow> memory \<Rightarrow> u64 \<times> memory" where
  "u_stpncpy d s n m =
     (let tail = (\<lambda>d n m. (d, u_memset m d 0 n));
          rest = (\<lambda>d s n m. let (d, n, m) = ncopy_bytes d s n m in tail d n m)
      in if s AND 7 = d AND 7 then
        (let (d, s, n, m) = ncopy_align d s n m in
         if n = 0 \<or> m s = 0 then tail d n m
         else let (d, s, n, m) = ncopy_words d s n m in rest d s n m)
      else rest d s n m)"

section \<open>Paths\<close>

text \<open>The slashes (47) at the end go, but not the first character; then what is behind the last slash.\<close>

definition u_basename :: "u8 list \<Rightarrow> u8 list" where
  "u_basename s = (case s of
     [] \<Rightarrow> [46]
   | c # cs \<Rightarrow> (let t = rev (c # rev (dropWhile (\<lambda>c. c = 47) (rev cs))) in
       rev (hd t # takeWhile (\<lambda>c. c \<noteq> 47) (tl t))))"

end
