(* ===== verification/UserStringProps.thy ===== *)
theory UserStringProps
  imports UserString
begin

text \<open>
  The word loops of the user library against the plain ones: a word is recognised by \<open>HASZERO\<close> exactly
  when one of its bytes is zero; \<open>u_strlen\<close>, \<open>u_memchr\<close> and \<open>u_strnlen\<close> find what a byte loop finds;
  \<open>u_strncmp\<close> is the comparison of the kernel.
\<close>

section \<open>A zero byte in a word\<close>

text \<open>The value of a list of bytes, and of as many ones.\<close>

primrec byte_val :: "u8 list \<Rightarrow> int" where
  "byte_val [] = 0"
| "byte_val (b # bs) = uint b + 256 * byte_val bs"

primrec ones_val :: "nat \<Rightarrow> int" where
  "ones_val 0 = 0"
| "ones_val (Suc n) = 1 + 256 * ones_val n"

lemma bit_low_byte: "0 \<le> a \<Longrightarrow> a < 256 \<Longrightarrow> n < 8 \<Longrightarrow> bit (a + 256 * b) n = bit (a :: int) n"
proof -
  assume "0 \<le> a" "a < 256" and n: "n < 8"
  then have "take_bit 8 (a + 256 * b) = take_bit 8 a" by (simp add: take_bit_eq_mod)
  then have "bit (take_bit 8 (a + 256 * b)) n = bit (take_bit 8 a) n" by simp
  with n show ?thesis by (simp add: bit_take_bit_iff)
qed

lemma bit_high_byte: "0 \<le> a \<Longrightarrow> a < 256 \<Longrightarrow> bit (a + 256 * b) (8 + n) = bit (b :: int) n"
proof -
  assume "0 \<le> a" "a < 256"
  then have "drop_bit 8 (a + 256 * b) = b" by (simp add: drop_bit_eq_div)
  then show ?thesis by (metis bit_drop_bit_eq comp_apply)
qed

lemma uint_byte_range: "0 \<le> uint (b :: u8)" "uint (b :: u8) < 256"
  using uint_bounded [of b] by simp_all

lemma bit_byte_val: "bit (byte_val bs) (8 * i + k) \<longleftrightarrow> i < length bs \<and> bit (bs ! i) k" if "k < 8"
proof (induction bs arbitrary: i)
  case (Cons b bs)
  show ?case
  proof (cases i)
    case 0
    then show ?thesis using that bit_low_byte [OF uint_byte_range, of k b] by (simp add: bit_uint_iff bit_imp_le_length)
  next
    case (Suc j)
    then show ?thesis using Cons [of j] bit_high_byte [OF uint_byte_range, of b "byte_val bs" "8 * j + k"]
      by (simp add: algebra_simps)
  qed
qed simp

text \<open>The bit that the test looks at, at the top of each byte.\<close>

lemma top_bits:
  "(\<exists>i < length bs. bit (byte_val bs - ones_val (length bs)) (8 * i + 7) \<and> \<not> bit (byte_val bs) (8 * i + 7)) \<longleftrightarrow> 0 \<in> set bs"
proof (induction bs)
  case (Cons b bs)
  let ?D = "byte_val bs - ones_val (length bs)"
  have split: "(\<exists>i < length (b # bs). P i) \<longleftrightarrow> P 0 \<or> (\<exists>i < length bs. P (Suc i))" for P
    by (auto simp: less_Suc_eq_0_disj)
  have high: "bit (byte_val (b # bs)) (15 + 8 * i) = bit (byte_val bs) (8 * i + 7)" for i
    using bit_high_byte [OF uint_byte_range, of b "byte_val bs" "8 * i + 7"] by (simp add: algebra_simps)
  show ?case
  proof (cases "b = 0")
    case True
    have "byte_val (b # bs) - ones_val (length (b # bs)) = 255 + 256 * (?D - 1)" by (simp add: True algebra_simps)
    moreover have "bit (255 :: int) 7" by (simp add: bit_iff_odd)
    ultimately have "bit (byte_val (b # bs) - ones_val (length (b # bs))) 7"
      using bit_low_byte [of 255 7 "?D - 1"] by (simp only:)
    moreover have "\<not> bit (byte_val (b # bs)) 7"
      using bit_low_byte [of 0 7 "byte_val bs"] by (simp add: True)
    ultimately show ?thesis unfolding split using True by simp
  next
    case False
    then have pos: "0 < uint b" using uint_byte_range (1) [of b] by (metis uint_0_iff order_le_less)
    then have range: "0 \<le> uint b - 1" "uint b - 1 < 256" using uint_byte_range (2) [of b] by linarith+
    have D: "byte_val (b # bs) - ones_val (length (b # bs)) = (uint b - 1) + 256 * ?D" by (simp add: algebra_simps)
    have "bit (byte_val (b # bs) - ones_val (length (b # bs))) (8 * Suc i + 7) = bit ?D (8 * i + 7)" for i
      unfolding D using bit_high_byte [OF range, of ?D "8 * i + 7"] by (simp add: algebra_simps)
    moreover have "\<not> (bit (byte_val (b # bs) - ones_val (length (b # bs))) 7 \<and> \<not> bit (byte_val (b # bs)) 7)"
    proof -
      have top: "bit a 7 \<longleftrightarrow> 128 \<le> a" if "0 \<le> a" "a < 256" for a :: int
        using that by (simp add: bit_iff_odd) presburger
      have t1: "bit ((uint b - 1) + 256 * ?D) 7 \<longleftrightarrow> 128 \<le> uint b - 1"
        using bit_low_byte [OF range, of 7 ?D] top [OF range] by (simp only:)
      have t2: "bit (byte_val (b # bs)) 7 \<longleftrightarrow> 128 \<le> uint b"
        using bit_low_byte [OF uint_byte_range, of 7 b "byte_val bs"] top [OF uint_byte_range, of b] by simp
      show ?thesis unfolding D t1 t2 by arith
    qed
    ultimately show ?thesis
      unfolding split using Cons False by (auto simp: high simp del: byte_val.simps ones_val.simps)
  qed
qed simp

text \<open>The bytes of the word at an address.\<close>

definition eight_bytes :: "memory \<Rightarrow> u64 \<Rightarrow> u8 list" where
  "eight_bytes m a = map (\<lambda>i. m (a + of_nat i)) [0..<8]"

lemma length_eight_bytes [simp]: "length (eight_bytes m a) = 8"
  by (simp add: eight_bytes_def)

lemma bit_load64: "k < 8 \<Longrightarrow> i < 8 \<Longrightarrow> bit (load64 m a) (8 * i + k) \<longleftrightarrow> bit (m (a + of_nat i)) k"
proof -
  assume k: "k < 8" and i: "i < 8"
  have "bit (load64 m a) (8 * i + k) \<longleftrightarrow> (\<exists>j \<in> set [0..<8]. 8 * j \<le> 8 * i + k \<and> bit (m (a + of_nat j)) (8 * i + k - 8 * j))"
    unfolding load64_def bit_le_bytes using k i by auto
  also have "\<dots> \<longleftrightarrow> bit (m (a + of_nat i)) k"
  proof
    assume "\<exists>j \<in> set [0..<8]. 8 * j \<le> 8 * i + k \<and> bit (m (a + of_nat j)) (8 * i + k - 8 * j)"
    then obtain j where j: "8 * j \<le> 8 * i + k" "bit (m (a + of_nat j)) (8 * i + k - 8 * j)" by blast
    have "8 * i + k - 8 * j < 8" using bit_imp_le_length [OF j(2)] by simp
    then have "j = i" using j(1) k by arith
    then show "bit (m (a + of_nat i)) k" using j(2) by simp
  qed (use i in \<open>auto intro!: bexI [of _ i]\<close>)
  finally show ?thesis .
qed

lemma byte_pos: "n < 64 \<Longrightarrow> \<exists>i k. n = 8 * i + k \<and> i < 8 \<and> k < (8 :: nat)"
  by (rule exI [of _ "n div 8"], rule exI [of _ "n mod 8"]) auto

lemma uint_load64: "uint (load64 m a) = byte_val (eight_bytes m a)"
proof (rule bit_eqI)
  fix n
  show "bit (uint (load64 m a)) n = bit (byte_val (eight_bytes m a)) n"
  proof (cases "n < 64")
    case True
    then obtain i k where n: "n = 8 * i + k" "i < 8" "k < 8" using byte_pos by blast
    then show ?thesis using bit_load64 [of k i m a] bit_byte_val [of k "eight_bytes m a" i]
      by (simp add: bit_uint_iff eight_bytes_def)
  next
    case False
    have "n = 8 * (n div 8) + n mod 8" "n mod 8 < 8" "\<not> n div 8 < 8" using False by auto
    then show ?thesis using False bit_byte_val [of "n mod 8" "eight_bytes m a" "n div 8"]
      by (auto simp: bit_uint_iff dest: bit_imp_le_length)
  qed
qed

lemma ONES_value: "ONES = 0x0101010101010101"
  by (simp add: ONES_def)

lemma ones_val_8: "ones_val 8 = 0x0101010101010101"
  by (simp add: eval_nat_numeral)

lemma HIGHS_bit: "n < 64 \<Longrightarrow> bit HIGHS n \<longleftrightarrow> n mod 8 = 7"
proof -
  assume "n < 64"
  then have n: "n = 8 * (n div 8) + n mod 8" "n div 8 < 8" "n mod 8 < 8" by auto
  have "HIGHS = load64 (\<lambda>_. 0x80) 0" by (simp add: HIGHS_def ONES_value load64_def upt_rec)
  then have "bit HIGHS n \<longleftrightarrow> bit (0x80 :: u8) (n mod 8)"
    using bit_load64 [OF n(3,2), of "\<lambda>_. 0x80" 0] n(1) by simp
  also have "(0x80 :: u8) = 2 ^ 7" by simp
  also have "bit (2 ^ 7 :: u8) (n mod 8) \<longleftrightarrow> n mod 8 = 7" unfolding bit_exp_iff by auto
  finally show ?thesis .
qed

lemma HASZERO_load64: "HASZERO (load64 m a) \<longleftrightarrow> (\<exists>i < 8. m (a + of_nat i) = 0)"
proof -
  let ?x = "load64 m a" let ?bs = "eight_bytes m a"
  have ones: "uint ONES = ones_val 8" by (simp add: ONES_value ones_val_8)
  have diff: "bit (?x - ONES) n \<longleftrightarrow> bit (byte_val ?bs - ones_val 8) n" if "n < 64" for n
  proof -
    have "?x - ONES = word_of_int (uint ?x - uint ONES)" by (simp add: wi_hom_sub [symmetric])
    then have "?x - ONES = word_of_int (byte_val ?bs - ones_val 8)" by (simp only: uint_load64 ones)
    then show ?thesis using that by (simp only: bit_word_of_int_iff) simp
  qed
  have orig: "bit ?x n \<longleftrightarrow> bit (byte_val ?bs) n" if "n < 64" for n
    using that by (simp add: uint_load64 [symmetric] bit_uint_iff)
  have "HASZERO ?x \<longleftrightarrow> (\<exists>n < 64. bit (?x - ONES) n \<and> \<not> bit ?x n \<and> n mod 8 = 7)"
    unfolding HASZERO_def by (auto simp: bit_eq_iff bit_simps HIGHS_bit dest: bit_imp_le_length)
  also have "\<dots> \<longleftrightarrow> (\<exists>n < 64. bit (byte_val ?bs - ones_val 8) n \<and> \<not> bit (byte_val ?bs) n \<and> n mod 8 = 7)"
    using diff orig by blast
  also have "\<dots> \<longleftrightarrow> (\<exists>i < 8. bit (byte_val ?bs - ones_val 8) (8 * i + 7) \<and> \<not> bit (byte_val ?bs) (8 * i + 7))"
  proof
    assume "\<exists>n < 64. bit (byte_val ?bs - ones_val 8) n \<and> \<not> bit (byte_val ?bs) n \<and> n mod 8 = 7"
    then obtain n where n: "n < 64" "bit (byte_val ?bs - ones_val 8) n" "\<not> bit (byte_val ?bs) n" "n mod 8 = 7" by blast
    have "n = 8 * (n div 8) + 7" using n(4) by presburger
    moreover have "n div 8 < 8" using n(1) by simp
    moreover note n
    ultimately show "\<exists>i < 8. bit (byte_val ?bs - ones_val 8) (8 * i + 7) \<and> \<not> bit (byte_val ?bs) (8 * i + 7)" by metis
  next
    assume "\<exists>i < 8. bit (byte_val ?bs - ones_val 8) (8 * i + 7) \<and> \<not> bit (byte_val ?bs) (8 * i + 7)"
    then obtain i where "i < 8" "bit (byte_val ?bs - ones_val 8) (8 * i + 7)" "\<not> bit (byte_val ?bs) (8 * i + 7)" by blast
    then show "\<exists>n < 64. bit (byte_val ?bs - ones_val 8) n \<and> \<not> bit (byte_val ?bs) n \<and> n mod 8 = 7"
      by (intro exI [of _ "8 * i + 7"]) auto
  qed
  also have "\<dots> \<longleftrightarrow> 0 \<in> set ?bs" using top_bits [of ?bs] by simp
  also have "\<dots> \<longleftrightarrow> (\<exists>i < 8. m (a + of_nat i) = 0)" by (auto simp: eight_bytes_def)
  finally show ?thesis .
qed

section \<open>The length of a string\<close>

definition str_at :: "memory \<Rightarrow> u64 \<Rightarrow> nat \<Rightarrow> bool" where
  "str_at m a n \<longleftrightarrow> (\<forall>i < n. m (a + of_nat i) \<noteq> 0) \<and> m (a + of_nat n) = 0"

lemma str_at_0: "str_at m a 0 \<longleftrightarrow> m a = 0"
  by (simp add: str_at_def)

lemma str_at_shift: "str_at m a n \<Longrightarrow> j \<le> n \<Longrightarrow> str_at m (a + of_nat j) (n - j)"
proof -
  assume s: "str_at m a n" and j: "j \<le> n"
  have "m (a + of_nat j + of_nat i) \<noteq> 0" if "i < n - j" for i
  proof -
    have "m (a + of_nat (j + i)) \<noteq> 0" using s that by (simp add: str_at_def del: of_nat_add)
    then show ?thesis by (simp add: add.assoc)
  qed
  moreover have "of_nat j + of_nat (n - j) = (of_nat n :: u64)" using j by (metis of_nat_add le_add_diff_inverse)
  then have "m (a + of_nat j + of_nat (n - j)) = 0" using s by (simp add: str_at_def add.assoc)
  ultimately show ?thesis by (simp add: str_at_def)
qed

lemma str_at_Suc: "str_at m a (Suc n) \<Longrightarrow> m a \<noteq> 0 \<and> str_at m (a + 1) n"
  using str_at_shift [of m a "Suc n" 1] by (auto simp: str_at_def dest: spec [of _ 0])

lemma byte_scan_str: "str_at m a n \<Longrightarrow> byte_scan m a = Some (a + of_nat n)"
proof (induction n arbitrary: a)
  case 0
  then show ?case by (subst byte_scan.simps) (simp add: str_at_0)
next
  case (Suc n)
  then show ?case using str_at_Suc [OF Suc.prems] by (subst byte_scan.simps) (simp add: add.assoc)
qed

lemma align_scan_str:
  "str_at m a n \<Longrightarrow> align_scan m a = Some (True, a + of_nat n) \<or> (\<exists>j \<le> n. align_scan m a = Some (False, a + of_nat j))"
proof (induction n arbitrary: a)
  case 0
  then show ?case by (subst (1 2) align_scan.simps) (simp add: str_at_0)
next
  case (Suc n)
  show ?case
  proof (cases "a mod 8 = 0")
    case True
    then have "align_scan m a = Some (False, a + of_nat 0)" by (subst align_scan.simps) simp
    then show ?thesis by blast
  next
    case False
    with str_at_Suc [OF Suc.prems] have step: "align_scan m a = align_scan m (a + 1)"
      by (subst align_scan.simps) simp
    have shift: "a + 1 + of_nat j = a + of_nat (Suc j)" for j by simp
    from Suc.IH [of "a + 1"] str_at_Suc [OF Suc.prems] show ?thesis
      unfolding step shift by (blast intro: Suc_leI le_imp_less_Suc)
  qed
qed

lemma word_scan_str: "str_at m a n \<Longrightarrow> \<exists>j \<le> n. word_scan m a = Some (a + of_nat j)"
proof (induction n arbitrary: a rule: less_induct)
  case (less n)
  show ?case
  proof (cases "HASZERO (load64 m a)")
    case True
    then have "word_scan m a = Some (a + of_nat 0)" by (subst word_scan.simps) simp
    then show ?thesis by blast
  next
    case False
    then have step: "word_scan m a = word_scan m (a + of_nat 8)" by (subst word_scan.simps) simp
    have n: "8 \<le> n" using False less.prems unfolding HASZERO_load64 str_at_def by (meson not_less)
    then obtain j where j: "j \<le> n - 8" "word_scan m (a + of_nat 8) = Some (a + of_nat 8 + of_nat j)"
      using less.IH [OF _ str_at_shift [OF less.prems, of 8]] by auto
    then have "word_scan m a = Some (a + of_nat (8 + j))" unfolding step by (simp add: add.assoc)
    then show ?thesis using j n by (intro exI [of _ "8 + j"]) auto
  qed
qed

lemma u_strlen_str:
  assumes s: "str_at m a n"
  shows "u_strlen m a = Some (of_nat n)"
  using align_scan_str [OF s]
proof
  assume "align_scan m a = Some (True, a + of_nat n)"
  then show ?thesis by (simp add: u_strlen_def)
next
  assume "\<exists>j \<le> n. align_scan m a = Some (False, a + of_nat j)"
  then obtain j where j: "j \<le> n" "align_scan m a = Some (False, a + of_nat j)" by blast
  obtain k where k: "k \<le> n - j" "word_scan m (a + of_nat j) = Some (a + of_nat j + of_nat k)"
    using word_scan_str [OF str_at_shift [OF s j(1)]] by blast
  have "byte_scan m (a + of_nat j + of_nat k) = Some (a + of_nat j + of_nat k + of_nat (n - j - k))"
    by (rule byte_scan_str [OF str_at_shift [OF str_at_shift [OF s j(1)] k(1)]])
  moreover have "a + of_nat j + of_nat k + of_nat (n - j - k) - a = of_nat n"
    using j(1) k(1) by (simp add: of_nat_diff)
  ultimately show ?thesis using j(2) k(2) by (simp add: u_strlen_def)
qed

section \<open>Finding a byte\<close>

primrec find_byte :: "memory \<Rightarrow> u8 \<Rightarrow> u64 \<Rightarrow> nat \<Rightarrow> u64 option" where
  "find_byte m c s 0 = None"
| "find_byte m c s (Suc n) = (if m s = c then Some s else find_byte m c (s + 1) n)"

lemma find_byte_skip: "\<forall>i < k. m (s + of_nat i) \<noteq> c \<Longrightarrow> find_byte m c s (k + n) = find_byte m c (s + of_nat k) n"
proof (induction k arbitrary: s)
  case (Suc k)
  have "\<forall>i < k. m (s + 1 + of_nat i) \<noteq> c"
  proof (intro allI impI)
    fix i
    assume "i < k"
    then show "m (s + 1 + of_nat i) \<noteq> c" using Suc.prems [rule_format, of "Suc i"] by (simp add: add.assoc)
  qed
  moreover have "m s \<noteq> c" using Suc.prems [rule_format, of 0] by simp
  ultimately show ?case using Suc.IH [of "s + 1"] by (simp add: add.assoc)
qed simp

lemma load64_xor: "load64 m w XOR load64 m' w' = load64 (\<lambda>a. m a XOR m' (a - w + w')) w"
proof (rule bit_word_eqI)
  fix n
  assume "n < LENGTH(64)"
  then obtain i k where n: "n = 8 * i + k" "i < 8" "k < 8" using byte_pos [of n] by auto
  then show "bit (load64 m w XOR load64 m' w') n = bit (load64 (\<lambda>a. m a XOR m' (a - w + w')) w) n"
    using bit_load64 [OF n(3,2)] by (simp add: bit_xor_iff add.commute)
qed

lemma ONES_times: "ONES * ucast c = load64 (\<lambda>_. c) 0"
proof -
  have "byte_val (eight_bytes (\<lambda>_. c) 0) = uint c * 0x0101010101010101"
    by (simp add: eight_bytes_def upt_rec)
  then have "load64 (\<lambda>_. c) 0 = word_of_int (uint c * 0x0101010101010101)"
    by (metis uint_load64 word_of_int_uint)
  also have "\<dots> = ucast c * 0x0101010101010101" by (simp add: wi_hom_mult [symmetric] unsigned_ucast_eq)
  finally show ?thesis by (simp add: ONES_value)
qed

lemma byte_xor_0: "x XOR c = 0 \<longleftrightarrow> x = (c :: u8)"
  by (auto simp: bit_eq_iff bit_simps)

lemma HASZERO_xor: "HASZERO (load64 m w XOR ONES * ucast c) \<longleftrightarrow> (\<exists>i < 8. m (w + of_nat i) = c)"
  unfolding ONES_times load64_xor HASZERO_load64 by (simp add: byte_xor_0)

lemma memchr_align_find: "memchr_align m c s n = (s', n') \<Longrightarrow> find_byte m c s n = find_byte m c s' n'"
  by (induction m c s n rule: memchr_align.induct) (auto split: if_splits)

lemma memchr_words_find:
  "memchr_words m (ONES * ucast c) s n = (s', n') \<Longrightarrow> find_byte m c s n = find_byte m c s' n'"
proof (induction m "ONES * ucast c" s n rule: memchr_words.induct)
  case (1 m s n)
  show ?case
  proof (cases "8 \<le> n \<and> \<not> HASZERO (load64 m s XOR ONES * ucast c)")
    case True
    then have "find_byte m c s n = find_byte m c (s + 8) (n - 8)"
      using find_byte_skip [of 8 m s c "n - 8"] HASZERO_xor [of m s c] by auto
    with 1 True show ?thesis by (simp add: memchr_words.simps [of m "ONES * ucast c" s])
  next
    case False
    with 1(2) show ?thesis by (subst (asm) memchr_words.simps) (simp split: if_splits)
  qed
qed

lemma memchr_bytes_find: "memchr_bytes m c s n = (s', n') \<Longrightarrow> find_byte m c s n = (if n' \<noteq> 0 then Some s' else None)"
  by (induction m c s n rule: memchr_bytes.induct) (auto split: if_splits)

lemma u_memchr_find: "u_memchr m s c n = find_byte m (word_of_int c) s n"
proof -
  let ?c = "word_of_int c :: u8"
  obtain s1 n1 where a: "memchr_align m ?c s n = (s1, n1)" by fastforce
  obtain s2 n2 where w: "(if n1 \<noteq> 0 \<and> m s1 \<noteq> ?c then memchr_words m (ONES * ucast ?c) s1 n1 else (s1, n1)) = (s2, n2)"
    by fastforce
  obtain s3 n3 where b: "memchr_bytes m ?c s2 n2 = (s3, n3)" by fastforce
  have "find_byte m ?c s1 n1 = find_byte m ?c s2 n2"
    using w memchr_words_find [of m ?c s1 n1 s2 n2] by (auto split: if_splits)
  then show ?thesis
    using a w b memchr_align_find [OF a] memchr_bytes_find [OF b] by (simp add: u_memchr_def Let_def)
qed

lemma find_byte_first_idx:
  "find_byte m c s n = map_option (\<lambda>i. s + of_nat i) (first_idx (\<lambda>x. x = c) (map (\<lambda>i. m (s + of_nat i)) [0..<n]))"
proof (induction n arbitrary: s)
  case (Suc n)
  have "map (\<lambda>i. m (s + of_nat i)) [0..<Suc n] = m s # map (\<lambda>i. m (s + 1 + of_nat i)) [0..<n]"
    by (simp add: upt_conv_Cons map_Suc_upt [symmetric] comp_def add.assoc del: upt_Suc)
  then show ?case using Suc [of "s + 1"] by (simp add: option.map_comp comp_def add.assoc del: upt_Suc)
qed simp

text \<open>The comparison is that of the kernel.\<close>

lemma u_strncmp_kernel: "u_strncmp l r n = strncmp l r n"
proof -
  have "strncmp_from l r n = strncmp l r (Suc n)" for n
  proof (induction l r n rule: strncmp_from.induct)
    case (2 l r n)
    then show ?case by simp
  qed simp
  then show ?thesis by (cases n) (simp_all add: u_strncmp_def)
qed

text \<open>
  Property C21: the string functions that read eight bytes at a time find what a loop over the single
  bytes finds. For a string of the length that the kernel's \<^verbatim>\<open>strlen\<close> counts, at any address, the
  user's \<^verbatim>\<open>strlen\<close> returns this length; \<^verbatim>\<open>memchr\<close> returns the first place among the \<open>n\<close> bytes that
  holds the character, or nothing.
\<close>

theorem user_string_scans:
  "(strlen (bytes_at m a) = Some n \<longrightarrow> u_strlen m a = Some (of_nat n)) \<and>
   u_memchr m s c k =
     map_option (\<lambda>i. s + of_nat i) (first_idx (\<lambda>x. x = word_of_int c) (map (\<lambda>i. m (s + of_nat i)) [0..<k]))"
proof
  show "strlen (bytes_at m a) = Some n \<longrightarrow> u_strlen m a = Some (of_nat n)"
    using u_strlen_str [of m a n] by (simp add: strlen_Some_iff str_at_def)
qed (simp only: u_memchr_find find_byte_first_idx)

definition demo_text :: memory where
  "demo_text = (\<lambda>x. if x < 1005 then 65 else 0)"

theorem user_string_scans_witness: "strlen (bytes_at demo_text 1001) = Some 4 \<and> u_strlen demo_text 1001 = Some 4"
proof -
  have "strlen (bytes_at demo_text 1001) = Some 4"
    unfolding strlen_Some_iff
  proof (intro conjI allI impI)
    show "demo_text (1001 + of_nat i) \<noteq> 0" if "i < 4" for i
    proof -
      have "i = 0 \<or> i = 1 \<or> i = 2 \<or> i = 3" using that by arith
      then show ?thesis by (elim disjE) (simp_all add: demo_text_def)
    qed
  qed (simp add: demo_text_def)
  then show ?thesis using user_string_scans [of demo_text 1001 4] by simp
qed

end
