(* ===== verification/UserLibProps.thy ===== *)
theory UserLibProps
  imports UserLib UserStringProps
begin

text \<open>
  What a user program prints: the buffered output of the library shows the characters that the
  kernel's own \<^verbatim>\<open>printf\<close> would print, none lost, doubled or out of order; and a number that is
  printed is read back by \<^verbatim>\<open>atoi\<close>.
\<close>

section \<open>Buffered output\<close>

text \<open>The bytes that calls of \<^verbatim>\<open>write\<close> have given to the standard output, and those in the buffer.\<close>

definition call_text :: "ucall \<Rightarrow> u8 list" where
  "call_text c = (case snd c of
     [Num fd, Str s, Num len] \<Rightarrow> if fst c = SYS_write \<and> fd = STDOUT_FD then s else [] | _ \<Rightarrow> [])"

definition shown :: "ulib \<Rightarrow> u8 list" where
  "shown u = concat (map call_text (ul_calls u)) @ ul_buffer u"

text \<open>A kernel that takes every byte written to the standard output, and whose mutexes return.\<close>

definition takes_all :: "ukernel \<Rightarrow> bool" where
  "takes_all K \<longleftrightarrow>
     (\<forall>h s. K h (SYS_write, [Num STDOUT_FD, Str s, Num (int (length s))]) = Some (of_nat (length s), [])) \<and>
     (\<forall>h m. K h (SYS_mutex_lock, [Num m]) \<noteq> None \<and> K h (SYS_mutex_unlock, [Num m]) \<noteq> None)"

text \<open>The buffer between two operations: not full, and without a line end.\<close>

definition buffer_ok :: "ulib \<Rightarrow> bool" where
  "buffer_ok u \<longleftrightarrow> length (ul_buffer u) < LINE_WIDTH \<and> 10 \<notin> set (ul_buffer u)"

definition prints :: "ulib \<Rightarrow> u8 list \<Rightarrow> ulib \<Rightarrow> bool" where
  "prints u s u' \<longleftrightarrow> buffer_ok u' \<and> shown u' = shown u @ s"

lemma prints_trans: "prints u s u' \<Longrightarrow> prints u' t u'' \<Longrightarrow> prints u (s @ t) u''"
  by (simp add: prints_def)

lemma prints_refl: "buffer_ok u \<Longrightarrow> prints u [] u"
  by (simp add: prints_def)

lemma write_buffer_full:
  assumes "takes_all K" "length (ul_buffer u) \<le> LINE_WIDTH"
  shows "\<exists>u'. write_buffer K u = Some (int (length (ul_buffer u)), u') \<and> shown (clear_buffer u') = shown u \<and>
    buffer_ok (clear_buffer u')"
proof (cases "ul_buffer u = []")
  case True
  then show ?thesis by (simp add: write_buffer_def clear_buffer_def shown_def buffer_ok_def LINE_WIDTH_def)
next
  case False
  have "sint (of_nat (length (ul_buffer u)) :: u64) = int (length (ul_buffer u))"
    using assms(2) by (simp add: LINE_WIDTH_def signed_of_nat signed_take_bit_int_eq_self)
  moreover have "wrap32 (int (length (ul_buffer u))) = int (length (ul_buffer u))"
    using assms(2) by (simp add: wrap32_def LINE_WIDTH_def signed_of_nat signed_take_bit_int_eq_self)
  ultimately show ?thesis
    using False assms(1)
    by (simp add: write_buffer_def u_write_def usys_def takes_all_def clear_buffer_def shown_def buffer_ok_def LINE_WIDTH_def call_text_def)
qed

lemma out_from_prints: "takes_all K \<Longrightarrow> buffer_ok u \<Longrightarrow> \<exists>r u'. out_from K acc s u = Some (r, u') \<and> prints u s u'"
proof (induction s arbitrary: acc u)
  case Nil
  then show ?case by (simp add: prints_refl)
next
  case (Cons c cs)
  let ?u = "u\<lparr>ul_buffer := ul_buffer u @ [c]\<rparr>"
  have len: "length (ul_buffer ?u) \<le> LINE_WIDTH" using Cons.prems(2) by (simp add: buffer_ok_def)
  have sh: "shown ?u = shown u @ [c]" by (simp add: shown_def)
  show ?case
  proof (cases "LINE_WIDTH \<le> length (ul_buffer ?u) \<or> c = 10")
    case True
    obtain u1 where w: "write_buffer K ?u = Some (int (length (ul_buffer ?u)), u1)" "shown (clear_buffer u1) = shown ?u"
      "buffer_ok (clear_buffer u1)"
      using write_buffer_full [OF Cons.prems(1) len] by blast
    obtain r u2 where r: "out_from K (wrap32 (acc + int (length (ul_buffer ?u)))) cs (clear_buffer u1) = Some (r, u2)"
      "prints (clear_buffer u1) cs u2"
      using Cons.IH [OF Cons.prems(1) w(3)] by blast
    have "out_from K acc (c # cs) u = Some (r, u2)"
      using True len w(1) r(1) by (simp add: Let_def clear_buffer_def)
    moreover have "prints u (c # cs) u2" using r(2) w(2) sh by (simp add: prints_def)
    ultimately show ?thesis by blast
  next
    case False
    then have "buffer_ok ?u" using Cons.prems(2) by (simp add: buffer_ok_def)
    then obtain r u2 where r: "out_from K acc cs ?u = Some (r, u2)" "prints ?u cs u2"
      using Cons.IH [OF Cons.prems(1)] by blast
    have "out_from K acc (c # cs) u = Some (r, u2)" using False r(1) by (auto simp: Let_def)
    moreover have "prints u (c # cs) u2" using r(2) sh by (simp add: prints_def)
    ultimately show ?thesis by blast
  qed
qed

lemma mutex_call:
  assumes "takes_all K" "n = SYS_mutex_lock \<or> n = SYS_mutex_unlock" "buffer_ok u"
  shows "\<exists>r u'. ucall_int K n [Num m] u = Some (r, u') \<and> prints u [] u'"
proof -
  obtain r bs where "K (ul_calls u) (n, [Num m]) = Some (r, bs)"
    using assms(1,2) unfolding takes_all_def by (metis not_None_eq old.prod.exhaust)
  then show ?thesis
    using assms(3) by (simp add: ucall_int_def usys_def prints_def shown_def buffer_ok_def call_text_def)
qed

lemma out_prints:
  assumes "takes_all K" "buffer_ok u"
  shows "\<exists>r u'. out K STDOUT_FD s u = Some (r, u') \<and> prints u s u'"
proof (cases "ul_buffer_lock_enabled u")
  case True
  obtain r1 u1 where 1: "u_mutex_lock K (ul_buffer_lock u) u = Some (r1, u1)" "prints u [] u1"
    using mutex_call [OF assms(1) _ assms(2)] unfolding u_mutex_lock_def by blast
  then have ok: "buffer_ok u1" by (simp add: prints_def)
  obtain r2 u2 where 2: "out_unlocked K s u1 = Some (r2, u2)" "prints u1 s u2"
    using out_from_prints [OF assms(1) ok] unfolding out_unlocked_def by blast
  then have ok: "buffer_ok u2" by (simp add: prints_def)
  obtain r3 u3 where 3: "u_mutex_unlock K (ul_buffer_lock u2) u2 = Some (r3, u3)" "prints u2 [] u3"
    using mutex_call [OF assms(1) _ ok] unfolding u_mutex_unlock_def by blast
  have "prints u s u3" using prints_trans [OF prints_trans [OF 1(2) 2(2)] 3(2)] by simp
  then show ?thesis using True 1(1) 2(1) 3(1) by (simp add: out_def with_lock_def)
next
  case False
  then show ?thesis using out_from_prints [OF assms] by (simp add: out_def with_lock_def out_unlocked_def)
qed

section \<open>Formatted output\<close>

lemma int_chars_kernel: "int_chars x base sign = k_printint x base sign"
  by (simp add: int_chars_def k_printint_def Let_def)

lemma ptr_chars_kernel: "ptr_chars x = k_printptr x"
  by (simp add: ptr_chars_def k_printptr_def)

lemma kprintf_plain: "37 \<notin> set xs \<Longrightarrow> kprintf (xs @ s) args = map_option ((@) xs) (kprintf s args)"
proof (induction xs)
  case Nil
  then show ?case by (simp add: option.map_ident comp_def)
next
  case (Cons c xs)
  then have "kprintf (c # xs @ s) args = map_option (Cons c) (kprintf (xs @ s) args)"
    by (cases "xs @ s") auto
  with Cons show ?case by (simp add: option.map_comp comp_def)
qed

lemma map_append_Nil [simp]: "map_option ((@) []) x = x"
  by (cases x) auto

lemma kprintf_percents: "percents s = (k, r) \<Longrightarrow> kprintf s args = map_option ((@) (replicate k 37)) (kprintf r args)"
proof (induction s arbitrary: k r rule: percents.induct)
  case (1 a b s)
  show ?case
  proof (cases "a = 37 \<and> b = 37")
    case True
    obtain k' r' where p: "percents s = (k', r')" by fastforce
    then have "k = Suc k'" "r = r'" using 1 True by simp_all
    moreover have "kprintf (a # b # s) args = map_option (Cons 37) (kprintf s args)"
      using True by (cases "kprintf s args") (simp_all add: k_conversion_def)
    ultimately show ?thesis using 1(1) [OF True p] by (simp add: option.map_comp comp_def)
  next
    case False
    then have "k = 0" "r = a # b # s" using 1(2) by auto
    then show ?thesis by (simp only: replicate_0 map_append_Nil)
  qed
qed simp_all

lemma percents_stop: "percents s = (k, a # b # r) \<Longrightarrow> a = 37 \<Longrightarrow> b \<noteq> 37"
  by (induction s arbitrary: k rule: percents.induct) (auto split: if_splits prod.splits)

lemma print_arg_prints:
  assumes K: "takes_all K" "buffer_ok u" and c: "k_conversion c args = Some (t, args')" "c \<noteq> 37"
    and short: "\<forall>a. P_str (Some a) \<in> set args \<longrightarrow> length a \<le> 200"
  shows "\<exists>u'. print_arg K c args u = Some (args', u') \<and> prints u t u'"
proof -
  have one: "\<exists>r u'. out K STDOUT_FD s u = Some (r, u') \<and> prints u s u'" for s using out_prints [OF K] .
  consider x where "c = 100" "args = P_int x # args'" "t = k_printint x 10 True"
    | x where "c = 120" "args = P_int x # args'" "t = k_printint x 16 True"
    | x where "c = 112" "args = P_ptr x # args'" "t = k_printptr x"
    | a where "c = 115" "args = P_str a # args'" "t = (case a of None \<Rightarrow> null_text | Some a \<Rightarrow> a)"
    | "c \<notin> {100, 120, 112, 115}" "args' = args" "t = [37, c]"
    using c by (auto simp: k_conversion_def split: if_splits list.splits parg.splits)
  then show ?thesis
  proof cases
    case (1 x)
    then show ?thesis using one [of "k_printint x 10 True"] by (auto simp: print_arg_def printint_def int_chars_kernel)
  next
    case (2 x)
    then show ?thesis using one [of "k_printint x 16 True"] by (auto simp: print_arg_def printint_def int_chars_kernel)
  next
    case (3 x)
    then show ?thesis using one [of "k_printptr x"] by (auto simp: print_arg_def printptr_def ptr_chars_kernel)
  next
    case (4 a)
    then have "take 200 t = t" using short by (cases a) (auto simp: null_text_def)
    with 4 show ?thesis using one [of t] by (auto simp: print_arg_def Let_def)
  next
    case 5
    obtain r1 u1 where 1: "out K STDOUT_FD [37] u = Some (r1, u1)" "prints u [37] u1" using one by blast
    then have "buffer_ok u1" by (simp add: prints_def)
    then obtain r2 u2 where 2: "out K STDOUT_FD [c] u1 = Some (r2, u2)" "prints u1 [c] u2"
      using out_prints [OF K(1)] by blast
    have "prints u [37, c] u2" using prints_trans [OF 1(2) 2(2)] by simp
    with 5 1 2 show ?thesis by (simp add: print_arg_def u_putchar_def)
  qed
qed

lemma conversion_args: "k_conversion c args = Some (t, args') \<Longrightarrow> set args' \<subseteq> set args"
  by (auto simp: k_conversion_def split: if_splits list.splits parg.splits)

lemma u_printf_prints:
  assumes "takes_all K" "buffer_ok u" "kprintf s args = Some t"
    and "\<forall>a. P_str (Some a) \<in> set args \<longrightarrow> length a \<le> 200"
  shows "\<exists>u'. u_printf K s args u = Some u' \<and> prints u t u'"
  using assms(2-)
proof (induction "length s" arbitrary: s args u t rule: less_induct)
  case less
  show ?case
  proof (cases "s = []")
    case True
    with less.prems show ?thesis by (simp add: u_printf.simps prints_refl)
  next
    case False
    define plain where "plain = takeWhile (\<lambda>c. c \<noteq> 37) s"
    obtain k s' where p: "percents (dropWhile (\<lambda>c. c \<noteq> 37) s) = (k, s')" by fastforce
    define chars where "chars = plain @ replicate k 37"
    have app: "(@) chars = (\<lambda>x. plain @ replicate k 37 @ x)" by (simp add: chars_def fun_eq_iff)
    have split: "s = plain @ dropWhile (\<lambda>c. c \<noteq> 37) s" by (simp add: plain_def)
    have "37 \<notin> set plain" by (auto simp: plain_def dest: set_takeWhileD)
    then have "kprintf s args = map_option ((@) chars) (kprintf s' args)"
      using kprintf_plain [of plain "dropWhile (\<lambda>c. c \<noteq> 37) s" args] kprintf_percents [OF p, of args] split
      by (simp add: app option.map_comp comp_def)
    then obtain t' where t': "kprintf s' args = Some t'" "t = chars @ t'"
      using less.prems(2) by (cases "kprintf s' args") auto
    obtain r1 u1 where o: "out K STDOUT_FD chars u = Some (r1, u1)" "prints u chars u1"
      using out_prints [OF assms(1) less.prems(1)] by blast
    have ok: "buffer_ok u1" using o(2) by (simp add: prints_def)
    have len: "length s = length plain + (length s' + 2 * k)"
      using percents_length [OF p] split by (metis length_append)
    have step: "u_printf K s args u = (if chars \<noteq> [] then u_printf K s' args u1
        else case s' of _ # c # s \<Rightarrow> do { (args, u) \<leftarrow> print_arg K c args u1; u_printf K s args u } | _ \<Rightarrow> Some u1)"
      using False o(1) p by (subst u_printf.simps) (simp add: Let_def plain_def chars_def split: list.splits)
    show ?thesis
    proof (cases "chars = []")
      case False
      then have "length s' < length s" using len by (cases plain; cases k) (simp_all add: chars_def)
      from less.hyps [OF this ok t'(1) less.prems(3)] obtain u2 where "u_printf K s' args u1 = Some u2" "prints u1 t' u2"
        by blast
      then show ?thesis using False step prints_trans [OF o(2)] t'(2) by auto
    next
      case True
      then have pn: "plain = []" "k = 0" by (simp_all add: chars_def)
      have s': "s' = s" using p pn split False by (cases s rule: percents.cases) (auto split: if_splits prod.splits)
      have hd: "hd s = 37" using pn False by (cases s) (auto simp: plain_def split: if_splits)
      show ?thesis
      proof (cases s)
        case (Cons a rest)
        show ?thesis
        proof (cases rest)
          case Nil
          then show ?thesis using Cons hd s' step True t' o(2) by simp
        next
          case (Cons c s'')
          have sc: "s = 37 # c # s''" using \<open>s = a # rest\<close> Cons hd by simp
          have c: "c \<noteq> 37" using p sc pn by (auto split: prod.splits)
          obtain v args' r where v: "k_conversion c args = Some (v, args')" "kprintf s'' args' = Some r" "t' = v @ r"
            using t'(1) unfolding s' sc by (auto simp: bind_eq_Some_conv)
          obtain u2 where a: "print_arg K c args u1 = Some (args', u2)" "prints u1 v u2"
            using print_arg_prints [OF assms(1) ok v(1) c less.prems(3)] by blast
          have ok2: "buffer_ok u2" using a(2) by (simp add: prints_def)
          have "length s'' < length s" using sc by simp
          moreover have "\<forall>a. P_str (Some a) \<in> set args' \<longrightarrow> length a \<le> 200"
            using conversion_args [OF v(1)] less.prems(3) by blast
          ultimately obtain u3 where "u_printf K s'' args' u2 = Some u3" "prints u2 r u3"
            using less.hyps [OF _ ok2 v(2)] by blast
          then show ?thesis
            using step True s' sc a(1) prints_trans [OF o(2) prints_trans [OF a(2)]] t'(2) v(3) by auto
        qed
      qed (use \<open>s \<noteq> []\<close> in simp)
    qed
  qed
qed

text \<open>
  Property C20: \<^verbatim>\<open>printf\<close> of the user library prints what the kernel's \<^verbatim>\<open>printf\<close> prints for the same
  format and arguments, when no string is longer than 200 bytes and the kernel takes what is written
  to the standard output. The characters appear behind those printed before, in the calls of \<^verbatim>\<open>write\<close>
  and then in the buffer; the buffer is never full, holds no line end, and is empty after a text
  that ends with one.
\<close>

theorem user_printf_prints:
  assumes "takes_all K" "buffer_ok u" "kprintf s args = Some t"
    and "\<forall>a. P_str (Some a) \<in> set args \<longrightarrow> length a \<le> 200"
  shows "\<exists>u'. u_printf K s args u = Some u' \<and> shown u' = shown u @ t \<and> buffer_ok u' \<and>
    (t \<noteq> [] \<and> last t = 10 \<longrightarrow> ul_buffer u' = [])"
proof -
  obtain u' where u': "u_printf K s args u = Some u'" "buffer_ok u'" "shown u' = shown u @ t"
    using u_printf_prints [OF assms] unfolding prints_def by blast
  have "ul_buffer u' = []" if "t \<noteq> []" "last t = 10"
  proof (rule ccontr)
    assume b: "ul_buffer u' \<noteq> []"
    then have "last (shown u') = last (ul_buffer u')" by (simp add: shown_def)
    moreover have "last (shown u') = 10" using u'(3) that by simp
    ultimately have "10 \<in> set (ul_buffer u')" using b last_in_set by metis
    then show False using u'(2) by (simp add: buffer_ok_def)
  qed
  with u' show ?thesis by blast
qed

definition demo_kernel :: ukernel where
  "demo_kernel h c = (case snd c of [Num fd, Str s, Num len] \<Rightarrow> Some (of_nat (length s), []) | _ \<Rightarrow> Some (0, []))"

definition demo_lib :: ulib where
  "demo_lib = \<lparr>ul_calls = [], ul_buffer = [62], ul_buffer_lock = 0, ul_buffer_lock_enabled = True, ul_seed = 0\<rparr>"

theorem user_printf_prints_witness:
  "\<exists>u'. u_printf demo_kernel [37, 100, 33, 10] [P_int (- 7)] demo_lib = Some u' \<and> shown u' = [62, 45, 55, 33, 10] \<and>
     ul_buffer u' = []"
proof -
  have "takes_all demo_kernel" by (simp add: takes_all_def demo_kernel_def)
  moreover have "buffer_ok demo_lib" by (simp add: buffer_ok_def demo_lib_def LINE_WIDTH_def)
  moreover have "kprintf [37, 100, 33, 10] [P_int (- 7)] = Some [45, 55, 33, 10]"
    by (simp add: k_conversion_def k_printint_def Let_def digits_rev.simps digits_def)
  ultimately show ?thesis
    using user_printf_prints [of demo_kernel demo_lib "[37, 100, 33, 10]" "[P_int (- 7)]" "[45, 55, 33, 10]"]
    by (auto simp: shown_def demo_lib_def)
qed

section \<open>Numbers\<close>

lemma digits_decimal: "k < 10 \<Longrightarrow> digits ! k = of_nat (48 + k)"
proof -
  assume "k < 10"
  then have "k = 0 \<or> k = 1 \<or> k = 2 \<or> k = 3 \<or> k = 4 \<or> k = 5 \<or> k = 6 \<or> k = 7 \<or> k = 8 \<or> k = 9" by arith
  then show ?thesis by (elim disjE) (simp_all add: digits_def)
qed

text \<open>The character of a digit.\<close>

lemma decimal_char:
  assumes "k < 10"
  shows "uint (digits ! k) = 48 + int k" "u_isdigit (48 + int k)" "\<not> u_isspace (48 + int k)"
proof -
  have "k = 0 \<or> k = 1 \<or> k = 2 \<or> k = 3 \<or> k = 4 \<or> k = 5 \<or> k = 6 \<or> k = 7 \<or> k = 8 \<or> k = 9" using assms by arith
  then show "uint (digits ! k) = 48 + int k" "u_isdigit (48 + int k)" "\<not> u_isspace (48 + int k)"
    by (elim disjE; simp add: digits_def u_isdigit_def u_isspace_def)+
qed

lemma digits_rev_range: "c \<in> set (digits_rev 10 x) \<Longrightarrow> \<exists>k < 10. c = digits ! k"
proof (induction x rule: less_induct)
  case (less x)
  show ?case
  proof (cases "c = digits ! (x mod 10)")
    case False
    then have "x div 10 \<noteq> 0" "c \<in> set (digits_rev 10 (x div 10))"
      using less.prems digits_rev.simps [of 10 x] by (auto split: if_splits)
    moreover have "x div 10 < x" using calculation(1) by (cases x) auto
    ultimately show ?thesis using less.IH by blast
  qed (auto intro: exI [of _ "x mod 10"])
qed

lemma atoi_digits_append:
  "\<forall>c \<in> set xs. u_isdigit (uint c) \<Longrightarrow> atoi_digits n (xs @ ys) = atoi_digits (atoi_digits n xs) ys"
  by (induction xs arbitrary: n) auto

lemma digits_rev_isdigit: "\<forall>c \<in> set (digits_rev 10 x). u_isdigit (uint c) \<and> \<not> u_isspace (uint c)"
  using digits_rev_range decimal_char by metis

lemma atoi_digits_rev: "atoi_digits 0 (rev (digits_rev 10 x)) = - int x"
proof (induction x rule: less_induct)
  case (less x)
  have last: "atoi_digits n [digits ! (x mod 10)] = 10 * n - int (x mod 10)" for n
    using decimal_char [of "x mod 10"] by simp
  show ?case
  proof (cases "x div 10 = 0")
    case True
    then have "rev (digits_rev 10 x) = [digits ! (x mod 10)]" by (simp add: digits_rev.simps [of 10 x])
    with True show ?thesis using last [of 0] by simp
  next
    case False
    then have "x div 10 < x" by (cases x) auto
    then have IH: "atoi_digits 0 (rev (digits_rev 10 (x div 10))) = - int (x div 10)" by (rule less.IH)
    have "rev (digits_rev 10 x) = rev (digits_rev 10 (x div 10)) @ [digits ! (x mod 10)]"
      using False by (simp add: digits_rev.simps [of 10 x])
    then have "atoi_digits 0 (rev (digits_rev 10 x)) = 10 * - int (x div 10) - int (x mod 10)"
      using atoi_digits_append [of "rev (digits_rev 10 (x div 10))" 0 "[digits ! (x mod 10)]"] digits_rev_isdigit
      by (simp only: set_rev IH last) blast
    then show ?thesis by presburger
  qed
qed

lemma atoi_int_chars:
  assumes x: "- (2 ^ 31) \<le> x" "x < 2 ^ 31" and rest: "rest = [] \<or> \<not> u_isdigit (uint (hd rest))"
  shows "u_atoi (int_chars x 10 True @ rest) = x"
proof -
  let ?ds = "rev (digits_rev 10 (nat \<bar>x\<bar>))"
  have abs: "unat (word_of_int (if x < 0 then - x else x) :: u32) = nat \<bar>x\<bar>"
  proof -
    have "uint (word_of_int (if x < 0 then - x else x) :: u32) = \<bar>x\<bar>"
      using x by (simp add: uint_word_of_int_eq take_bit_int_eq_self abs_if)
    then show ?thesis by (simp add: unat_eq_nat_uint)
  qed
  then have chars: "int_chars x 10 True = (if x < 0 then [45] else []) @ ?ds" by (simp add: int_chars_def Let_def)
  have ne: "?ds \<noteq> []" by (simp add: digits_rev.simps)
  have d: "\<forall>c \<in> set ?ds. u_isdigit (uint c)" "\<not> u_isspace (uint (hd ?ds))"
    using digits_rev_isdigit ne hd_in_set [OF ne] by auto
  have "atoi_digits n rest = n" for n using rest by (cases rest) auto
  then have val: "atoi_digits 0 (?ds @ rest) = - \<bar>x\<bar>"
    using atoi_digits_append [OF d(1), of 0 rest] atoi_digits_rev [of "nat \<bar>x\<bar>"] by simp
  have minus: "\<not> u_isspace 45" "\<not> u_isdigit 45" "\<not> u_isdigit 43" by (simp_all add: u_isspace_def u_isdigit_def)
  have sint: "sint (word_of_int x :: u32) = x" using x by (simp add: signed_of_int signed_take_bit_int_eq_self)
  show ?thesis
  proof (cases "x < 0")
    case True
    have "u_atoi (int_chars x 10 True @ rest) = sint (word_of_int (atoi_digits 0 (?ds @ rest)) :: u32)"
      unfolding chars using True minus by (simp add: u_atoi_def)
    then show ?thesis using True val sint by simp
  next
    case False
    obtain c cs where c: "?ds = c # cs" using ne by (cases ?ds) auto
    have "\<not> u_isspace (uint c)" "c \<noteq> 45" "c \<noteq> 43" using d c minus by (auto simp: c)
    then have "u_atoi (c # cs @ rest) = sint (word_of_int (- atoi_digits 0 (c # cs @ rest)) :: u32)"
      by (simp add: u_atoi_def Let_def)
    moreover have "int_chars x 10 True @ rest = c # cs @ rest" "?ds @ rest = c # cs @ rest"
      unfolding chars c using False by simp_all
    ultimately have "u_atoi (int_chars x 10 True @ rest) = sint (word_of_int (- atoi_digits 0 (?ds @ rest)) :: u32)"
      by (simp only:)
    then show ?thesis using False val sint by simp
  qed
qed

text \<open>
  Property C38: a number that \<^verbatim>\<open>printf\<close> prints with \<^verbatim>\<open>%d\<close> is read back by \<^verbatim>\<open>atoi\<close>, whatever follows it
  but a digit; this holds for every \<^verbatim>\<open>int\<close>, the least one included.
\<close>

theorem printint_atoi:
  assumes "- (2 ^ 31) \<le> x" "x < 2 ^ 31" "rest = [] \<or> \<not> u_isdigit (uint (hd rest))"
  shows "u_atoi (int_chars x 10 True @ rest) = x"
  using assms by (rule atoi_int_chars)

theorem printint_atoi_witness: "u_atoi (int_chars (- (2 ^ 31)) 10 True @ [32]) = - (2 ^ 31)"
  by (rule printint_atoi) (simp_all add: u_isdigit_def)

end
