(* ===== verification/UserShellProps.thy ===== *)
theory UserShellProps
  imports UserShell UserLibProps
begin

text \<open>
  What the shell does with a line that is typed: the words between the blanks are the arguments of
  the program that the child process becomes.
\<close>

section \<open>Words\<close>

text \<open>A line from words and the numbers of blanks before them.\<close>

definition blank_line :: "(nat \<times> u8 list) list \<Rightarrow> u8 list" where
  "blank_line xs = concat (map (\<lambda>(n, w). replicate n 32 @ w) xs)"

definition words_ok :: "(nat \<times> u8 list) list \<Rightarrow> bool" where
  "words_ok xs \<longleftrightarrow> (\<forall>x \<in> set xs. snd x \<noteq> [] \<and> 32 \<notin> set (snd x) \<and> 0 \<notin> set (snd x)) \<and> (\<forall>x \<in> set (tl xs). 0 < fst x)"

lemma split_args_Nil [simp]: "split_args [] = []"
  by (simp add: split_args.simps)

lemma split_args_blanks: "split_args (replicate n 32 @ s) = split_args s"
proof -
  have "dropWhile (\<lambda>c. c = 32) (replicate n 32 @ s) = dropWhile (\<lambda>c. c = 32) s" by (induction n) simp_all
  then show ?thesis by (subst (1 2) split_args.simps) simp
qed

lemma split_args_word:
  assumes w: "w \<noteq> []" "32 \<notin> set w" and s: "s = [] \<or> hd s = 32"
  shows "split_args (w @ s) = w # split_args s"
proof -
  have hd: "dropWhile (\<lambda>c. c = 32) (w @ s) = w @ s" using w by (cases w) auto
  have take: "takeWhile (\<lambda>c. c \<noteq> 32) (w @ s) = w" and drop: "dropWhile (\<lambda>c. c \<noteq> 32) (w @ s) = s"
  proof -
    have all: "\<forall>c \<in> set w. c \<noteq> 32" using w(2) by auto
    show "takeWhile (\<lambda>c. c \<noteq> 32) (w @ s) = w" using all s by (cases s) (simp_all add: takeWhile_append2 takeWhile_tail)
    show "dropWhile (\<lambda>c. c \<noteq> 32) (w @ s) = s" using all s by (cases s) (simp_all add: dropWhile_append2)
  qed
  show ?thesis using w by (subst split_args.simps) (simp add: Let_def hd take drop)
qed

lemma split_args_line: "words_ok xs \<Longrightarrow> split_args (blank_line xs) = map snd xs"
proof (induction xs)
  case Nil
  then show ?case by (simp add: blank_line_def)
next
  case (Cons x xs)
  obtain n w where x: "x = (n, w)" by fastforce
  have rest: "words_ok xs" using Cons.prems by (cases xs) (auto simp: words_ok_def)
  have start: "blank_line xs = [] \<or> hd (blank_line xs) = 32"
  proof (cases xs)
    case (Cons y ys)
    then have "0 < fst y" using Cons.prems by (simp add: words_ok_def)
    obtain k v where "y = (Suc k, v)" using \<open>0 < fst y\<close> by (cases y; cases "fst y") auto
    with Cons show ?thesis by (simp add: blank_line_def)
  qed (simp add: blank_line_def)
  have "blank_line (x # xs) = replicate n 32 @ w @ blank_line xs" by (simp add: blank_line_def x)
  then show ?case
    using split_args_blanks split_args_word [OF _ _ start, of w] Cons.IH [OF rest] Cons.prems
    by (simp add: words_ok_def x)
qed

section \<open>Typing\<close>

text \<open>What is left of the characters that were typed, where \<^verbatim>\<open>BS\<close> and \<^verbatim>\<open>DL\<close> take one back.\<close>

definition typed :: "u8 list \<Rightarrow> u8 list \<Rightarrow> u8 list" where
  "typed line cs = foldl (\<lambda>line c. if c = BS \<or> c = DL then butlast line else line @ [c]) line cs"

lemma typed_Cons: "typed line (c # cs) = typed (if c = BS \<or> c = DL then butlast line else line @ [c]) cs"
  by (simp add: typed_def)

lemma fflush_prints:
  assumes K: "takes_all K" "buffer_ok u"
  shows "\<exists>r u'. u_fflush K 1 u = Some (r, u') \<and> prints u [] u'"
proof -
  have flush: "\<exists>r v'. flush_buffer K v = Some (r, v') \<and> prints v [] v'" if "buffer_ok v" for v
  proof -
    have "length (ul_buffer v) \<le> LINE_WIDTH" using that by (simp add: buffer_ok_def)
    from write_buffer_full [OF K(1) this] show ?thesis by (auto simp: flush_buffer_def prints_def)
  qed
  show ?thesis
  proof (cases "ul_buffer_lock_enabled u")
    case True
    obtain r1 u1 where 1: "u_mutex_lock K (ul_buffer_lock u) u = Some (r1, u1)" "prints u [] u1"
      using mutex_call [OF K(1) _ K(2)] unfolding u_mutex_lock_def by blast
    then have ok: "buffer_ok u1" by (simp add: prints_def)
    obtain r2 u2 where 2: "flush_buffer K u1 = Some (r2, u2)" "prints u1 [] u2" using flush [OF ok] by blast
    then have ok: "buffer_ok u2" by (simp add: prints_def)
    obtain r3 u3 where 3: "u_mutex_unlock K (ul_buffer_lock u2) u2 = Some (r3, u3)" "prints u2 [] u3"
      using mutex_call [OF K(1) _ ok] unfolding u_mutex_unlock_def by blast
    have "prints u [] u3" using prints_trans [OF prints_trans [OF 1(2) 2(2)] 3(2)] by simp
    then show ?thesis using True 1(1) 2(1) 3(1) by (simp add: u_fflush_def with_lock_def)
  next
    case False
    then show ?thesis using flush [OF K(2)] by (simp add: u_fflush_def with_lock_def)
  qed
qed

lemma char_prints:
  fixes c :: u8
  assumes K: "takes_all K" "buffer_ok u"
  shows "\<exists>r u'. u_putchar K (uint c) u = Some (r, u') \<and> buffer_ok u'"
proof -
  obtain r u' where "out K STDOUT_FD [c] u = Some (r, u')" "prints u [c] u'" using out_prints [OF K] by blast
  then show ?thesis by (simp add: u_putchar_def prints_def)
qed

lemma text_prints:
  assumes K: "takes_all K" "buffer_ok u" and s: "kprintf s [] = Some t"
  shows "\<exists>u'. u_printf K s [] u = Some u' \<and> buffer_ok u'"
proof -
  obtain u' where "u_printf K s [] u = Some u'" "prints u t u'" using u_printf_prints [OF K s] by auto
  then show ?thesis by (auto simp: prints_def)
qed

lemma shell_char_edit:
  assumes K: "takes_all K" "buffer_ok u" and c: "c \<noteq> LF" "c \<noteq> CR" and room: "length line < MAX_LINE"
  shows "\<exists>u'. shell_char K c line u = Some (Reads (typed line [c]) u') \<and> buffer_ok u'"
proof (cases "c = BS \<or> c = DL")
  case True
  show ?thesis
  proof (cases "line = []")
    case True
    with K c \<open>c = BS \<or> c = DL\<close> show ?thesis by (simp add: shell_char_def typed_def)
  next
    case False
    obtain r1 u1 where 1: "u_putchar K (uint BS) u = Some (r1, u1)" "buffer_ok u1" using char_prints [OF K] by blast
    obtain u2 where 2: "u_printf K [32] [] u1 = Some u2" "buffer_ok u2" using text_prints [OF K(1) 1(2), of "[32]"] by auto
    obtain r3 u3 where 3: "u_putchar K (uint BS) u2 = Some (r3, u3)" "buffer_ok u3" using char_prints [OF K(1) 2(2)] by blast
    obtain r4 u4 where 4: "u_fflush K 1 u3 = Some (r4, u4)" "prints u3 [] u4" using fflush_prints [OF K(1) 3(2)] by blast
    have "shell_char K c line u = Some (Reads (butlast line) u4)"
      using True False c 1 2 3 4 by (simp add: shell_char_def shell_pop_def)
    then show ?thesis using True 4(2) by (auto simp: typed_def prints_def)
  qed
next
  case False
  obtain r1 u1 where 1: "u_putchar K (uint c) u = Some (r1, u1)" "buffer_ok u1" using char_prints [OF K] by blast
  obtain r2 u2 where 2: "u_fflush K 1 u1 = Some (r2, u2)" "prints u1 [] u2" using fflush_prints [OF K(1) 1(2)] by blast
  have "shell_char K c line u = Some (Reads (line @ [c]) u2)"
    using False c 1 2 room by (simp add: shell_char_def shell_push_def)
  then show ?thesis using False 2(2) by (auto simp: typed_def prints_def)
qed

lemma shell_input_edit:
  assumes K: "takes_all K"
  shows "buffer_ok u \<Longrightarrow> LF \<notin> set cs \<Longrightarrow> CR \<notin> set cs \<Longrightarrow> length line + length cs < MAX_LINE \<Longrightarrow>
    \<exists>u'. buffer_ok u' \<and> (\<forall>ds. shell_input K (cs @ ds) line u = shell_input K ds (typed line cs) u')"
proof (induction cs arbitrary: line u)
  case Nil
  then show ?case by (auto simp: typed_def)
next
  case (Cons c cs)
  obtain u1 where 1: "shell_char K c line u = Some (Reads (typed line [c]) u1)" "buffer_ok u1"
    using shell_char_edit [OF K Cons.prems(1), of c line] Cons.prems by auto
  have "length (typed line [c]) + length cs < MAX_LINE" using Cons.prems(4) by (auto simp: typed_def)
  then obtain u2 where 2: "buffer_ok u2" "\<forall>ds. shell_input K (cs @ ds) (typed line [c]) u1 = shell_input K ds (typed (typed line [c]) cs) u2"
    using Cons.IH [OF 1(2)] Cons.prems by auto
  have "typed (typed line [c]) cs = typed line (c # cs)" by (simp add: typed_def)
  with 1 2 show ?case by (intro exI [of _ u2]) simp
qed

lemma typed_length: "length (typed line cs) \<le> length line + length cs"
proof (induction cs arbitrary: line)
  case Nil
  then show ?case by (simp add: typed_def)
next
  case (Cons c cs)
  let ?line = "if c = BS \<or> c = DL then butlast line else line @ [c]"
  have "length ?line \<le> Suc (length line)" by auto
  then show ?case using Cons.IH [of ?line] unfolding typed_Cons by simp
qed

text \<open>
  Property C36: a line of words separated by blanks, typed with corrections and ended with a line end,
  runs the program named by its first word: in the child process the last call is \<^verbatim>\<open>exec\<close> of this
  word with exactly the words of the line as arguments. This holds for fewer than 200 keystrokes
  and fewer than 32 words, unless the line is \<^verbatim>\<open>quit\<close>.
\<close>

theorem shell_runs_words:
  assumes K: "takes_all K" "buffer_ok u"
    and child: "\<forall>h. K h (SYS_clone, []) = Some (0, [])" and found: "\<forall>h args. K h (SYS_execve, args) = None"
    and keys: "LF \<notin> set cs" "CR \<notin> set cs" "length cs < MAX_LINE - 1"
    and line: "typed [] cs = blank_line xs" "words_ok xs" "xs \<noteq> []" "length xs < MAX_ARGS" "blank_line xs \<noteq> quit_text"
  shows "\<exists>u'. shell_input K (cs @ [LF]) [] u = Some (Ended u') \<and>
    last (ul_calls u') = (SYS_execve, [Str (snd (hd xs)), Strs (map snd xs)])"
proof -
  obtain u1 where u1: "buffer_ok u1" "shell_input K (cs @ [LF]) [] u = shell_input K [LF] (blank_line xs) u1"
  proof -
    have "length ([] :: u8 list) + length cs < MAX_LINE" using keys(3) by simp
    from shell_input_edit [OF K keys(1,2) this] show ?thesis using that line(1) by auto
  qed
  obtain u2 where u2: "u_printf K [10] [] u1 = Some u2" "buffer_ok u2" using text_prints [OF K(1) u1(1), of "[10]"] by auto
  have "length (blank_line xs) < MAX_LINE" using typed_length [of "[]" cs] keys(3) line(1) by simp
  then have push: "shell_push 0 (blank_line xs) = Some (blank_line xs @ [0])" by (simp add: shell_push_def)
  obtain n w ys where xs: "xs = (n, w) # ys" using line(3) by (cases xs) auto
  have ne: "blank_line xs \<noteq> []" using line(2) by (simp add: xs blank_line_def words_ok_def)
  have "\<forall>c \<in> set (blank_line xs). c \<noteq> 0" using line(2) by (auto simp: blank_line_def words_ok_def)
  then have string: "takeWhile (\<lambda>c. c \<noteq> 0) (blank_line xs @ [0]) = blank_line xs"
    by (simp add: takeWhile_append2)
  have args: "get_argv (blank_line xs @ [0]) = Some (map snd xs)"
    using line(4) by (simp add: get_argv_def string split_args_line [OF line(2)] Let_def)
  define u3 where "u3 = u2\<lparr>ul_calls := ul_calls u2 @ [(SYS_clone, [])]\<rparr>"
  have fork: "u_fork K u2 = Some (0, u3)" using child by (simp add: u_fork_def ucall_int_def usys_def to_int_def u3_def)
  have "run_line K (blank_line xs @ [0]) u2 = run_child K (blank_line xs @ [0]) (map snd xs) u3"
    using line(5) by (simp add: run_line_def is_quit_def string args fork)
  moreover have "\<exists>u'. run_child K (blank_line xs @ [0]) (map snd xs) u3 = Some (Ended u') \<and>
      last (ul_calls u') = (SYS_execve, [Str (snd (hd xs)), Strs (map snd xs)])"
    using found by (simp add: run_child_def Let_def xs)
  ultimately show ?thesis
    using u1(2) u2(1) push ne by (auto simp: shell_char_def)
qed

definition demo_shell_kernel :: ukernel where
  "demo_shell_kernel h c = (if fst c = SYS_execve then None else demo_kernel h c)"

text \<open>The keys \<^verbatim>\<open>l\<close>, \<^verbatim>\<open>q\<close>, delete, \<^verbatim>\<open>s\<close>, blank, \<^verbatim>\<open>a\<close>, return.\<close>

theorem shell_runs_words_witness:
  "\<exists>u'. shell_input demo_shell_kernel [108, 113, 127, 115, 32, 97, 10] [] demo_lib = Some (Ended u') \<and>
    last (ul_calls u') = (SYS_execve, [Str [108, 115], Strs [[108, 115], [97]]])"
proof -
  have "takes_all demo_shell_kernel"
    by (simp add: takes_all_def demo_shell_kernel_def demo_kernel_def SYS_execve_def SYS_write_def SYS_mutex_lock_def
        SYS_mutex_unlock_def)
  moreover have "buffer_ok demo_lib" by (simp add: buffer_ok_def demo_lib_def LINE_WIDTH_def)
  moreover have "\<forall>h. demo_shell_kernel h (SYS_clone, []) = Some (0, [])"
    by (simp add: demo_shell_kernel_def demo_kernel_def SYS_clone_def SYS_execve_def)
  moreover have "\<forall>h args. demo_shell_kernel h (SYS_execve, args) = None" by (simp add: demo_shell_kernel_def)
  ultimately show ?thesis
    using shell_runs_words [of demo_shell_kernel demo_lib "[108, 113, 127, 115, 32, 97]" "[(0, [108, 115]), (1, [97])]"]
    by (simp add: LF_def CR_def BS_def DL_def typed_def blank_line_def words_ok_def quit_text_def MAX_LINE_def MAX_ARGS_def)
qed

end
