(* ===== verification/NpcProgram.thy ===== *)
theory NpcProgram
  imports NpcSched
begin

text \<open>
  \<^verbatim>\<open>user/src/ch11_npc.c\<close>: the user program of one NPC, with its perception, thinking, communication
  and memory threads.

  A \<^verbatim>\<open>char\<close> array that holds a C string is the list of its characters; a copy that runs over the end
  of the array is \<open>None\<close>. The answer of the AI service is the array itself, with what is behind the
  end of the string. The four threads work on one \<^verbatim>\<open>struct npc_shared\<close>; the code between
  \<^verbatim>\<open>mutex_lock\<close> and \<^verbatim>\<open>mutex_unlock\<close> is one operation on it, with the results of the system calls it
  makes, which the kernel decides, as arguments, and the calls it makes as a list of requests.
  The messages on the console are left out.
\<close>

definition NPC_COUNT :: nat where "NPC_COUNT = 3"
definition L2_MEMORY_SIZE :: nat where "L2_MEMORY_SIZE = 1024"
definition L3_HISTORY_SIZE :: nat where "L3_HISTORY_SIZE = 512"
definition AI_RESPONSE_SIZE :: nat where "AI_RESPONSE_SIZE = 512"
definition PROMPT_SIZE :: nat where "PROMPT_SIZE = 1024"

section \<open>Texts\<close>

text \<open>The string literals of the program, in UTF-8.\<close>

definition persona_1 :: "u8 list" where
  "persona_1 = [228, 189, 160, 230, 152, 175, 78, 80, 67, 49, 239, 188, 140, 230, 128, 167, 230, 160, 188, 229, 164, 150, 229,
     144, 145, 231, 131, 173, 230, 131, 133, 239, 188, 140, 229, 150, 156, 230, 172, 162, 228, 184, 187, 229, 138,
     168, 229, 146, 140, 229, 136, 171, 228, 186, 186, 228, 186, 164, 230, 181, 129, 227, 128, 130, 232, 175, 180,
     232, 175, 157, 231, 174, 128, 231, 159, 173, 229, 143, 139, 229, 165, 189, 40, 50, 48, 229, 173, 151, 228, 187,
     165, 229, 134, 133, 41, 227, 128, 130]"

definition persona_2 :: "u8 list" where
  "persona_2 = [228, 189, 160, 230, 152, 175, 78, 80, 67, 50, 239, 188, 140, 230, 128, 167, 230, 160, 188, 229, 134, 133, 229,
     144, 145, 230, 178, 137, 231, 168, 179, 239, 188, 140, 229, 150, 156, 230, 172, 162, 230, 128, 157, 232, 128,
     131, 233, 151, 174, 233, 162, 152, 227, 128, 130, 232, 175, 180, 232, 175, 157, 231, 174, 128, 231, 159, 173,
     230, 156, 137, 230, 183, 177, 229, 186, 166, 40, 50, 48, 229, 173, 151, 228, 187, 165, 229, 134, 133, 41, 227,
     128, 130]"

definition persona_3 :: "u8 list" where
  "persona_3 = [228, 189, 160, 230, 152, 175, 78, 80, 67, 51, 239, 188, 140, 230, 128, 167, 230, 160, 188, 229, 185, 189, 233,
     187, 152, 233, 163, 142, 232, 182, 163, 239, 188, 140, 229, 150, 156, 230, 172, 162, 229, 188, 128, 231, 142,
     169, 231, 172, 145, 227, 128, 130, 232, 175, 180, 232, 175, 157, 231, 174, 128, 231, 159, 173, 230, 156, 137,
     232, 182, 163, 40, 50, 48, 229, 173, 151, 228, 187, 165, 229, 134, 133, 41, 227, 128, 130]"

definition t_memory :: "u8 list" where
  "t_memory = [228, 189, 160, 231, 154, 132, 232, 174, 176, 229, 191, 134, 58, 32]"

definition t_recent :: "u8 list" where
  "t_recent = [230, 156, 128, 232, 191, 145, 229, 175, 185, 232, 175, 157, 58, 32]"

definition t_now :: "u8 list" where
  "t_now = [231, 142, 176, 229, 156, 168, 230, 131, 133, 229, 134, 181, 58, 32]"

definition t_must_reply :: "u8 list" where
  "t_must_reply = [228, 189, 160, 229, 191, 133, 233, 161, 187, 229, 155, 158, 229, 164, 141, 78, 80, 67]"

definition t_format :: "u8 list" where
  "t_format = [239, 188, 140, 230, 160, 188, 229, 188, 143, 58, 10]"

definition t_to_npc :: "u8 list" where
  "t_to_npc = [91, 116, 111, 32, 110, 112, 99]"

definition t_your_reply :: "u8 list" where
  "t_your_reply = [93, 58, 32, 228, 189, 160, 231, 154, 132, 229, 155, 158, 229, 164, 141, 10]"

definition t_or_none :: "u8 list" where
  "t_or_none = [230, 136, 150, 232, 128, 133, 32, 91, 116, 111, 32, 110, 111, 110, 101, 93, 58, 32, 228, 184, 141, 229, 155,
     158, 229, 164, 141, 10]"

definition t_please :: "u8 list" where
  "t_please = [232, 175, 183, 231, 148, 168, 228, 187, 165, 228, 184, 139, 230, 160, 188, 229, 188, 143, 229, 155, 158, 229,
     164, 141, 40, 229, 143, 170, 229, 155, 158, 229, 164, 141, 228, 184, 128, 232, 161, 140, 41, 58, 10]"

definition t_to_number :: "u8 list" where
  "t_to_number = [91, 116, 111, 32, 110, 112, 99, 230, 149, 176, 229, 173, 151, 93, 58, 32, 228, 189, 160, 232, 166, 129, 232,
     175, 180, 231, 154, 132, 232, 175, 157, 10]"

definition t_or_silent :: "u8 list" where
  "t_or_silent = [230, 136, 150, 232, 128, 133, 32, 91, 116, 111, 32, 110, 111, 110, 101, 93, 58, 32, 228, 184, 141, 232, 175,
     180, 232, 175, 157, 10]"

definition t_optional :: "u8 list" where
  "t_optional = [229, 143, 175, 233, 128, 137, 58, 32, 91, 109, 101, 109, 111, 114, 121, 93, 58, 32, 228, 189, 160, 230, 131,
     179, 232, 174, 176, 228, 189, 143, 231, 154, 132, 228, 186, 139, 10]"

definition t_says :: "u8 list" where
  "t_says = [229, 175, 185, 228, 189, 160, 232, 175, 180, 58, 32]"

definition t_want :: "u8 list" where
  "t_want = [228, 189, 160, 230, 131, 179, 228, 184, 187, 229, 138, 168, 230, 137, 190, 228, 186, 186, 232, 129, 138, 229,
     164, 169, 227, 128, 130, 229, 143, 175, 233, 128, 137, 231, 155, 174, 230, 160, 135, 58, 32]"

definition t_me :: "u8 list" where
  "t_me = [230, 136, 145, 45, 62, 78, 80, 67]"

definition t_received :: "u8 list" where
  "t_received = [230, 148, 182, 229, 136, 176, 33]"

definition t_npc :: "u8 list" where
  "t_npc = [78, 80, 67]"

definition t_memory_tag :: "u8 list" where
  "t_memory_tag = [91, 109, 101, 109, 111, 114, 121, 93, 58]"

definition t_memory_tag2 :: "u8 list" where
  "t_memory_tag2 = [91, 109, 101, 109, 111, 114, 121, 93, 32]"

definition t_to :: "u8 list" where
  "t_to = [91, 116, 111, 32]"

definition L1_PERSONAS :: "u8 list list" where
  "L1_PERSONAS = [persona_1, persona_2, persona_3]"

section \<open>Strings\<close>

definition str_copy :: "u8 list \<Rightarrow> nat \<Rightarrow> u8 list" where
  "str_copy src maxlen = take (maxlen - 1) (takeWhile (\<lambda>c. c \<noteq> 0) src)"

text \<open>\<open>str_append cap dst src\<close> appends to a string in an array of \<open>cap\<close> characters.\<close>

definition str_append :: "nat \<Rightarrow> u8 list \<Rightarrow> u8 list \<Rightarrow> u8 list option" where
  "str_append cap dst src = (if length dst + length src < cap then Some (dst @ src) else None)"

text \<open>The digits of a positive number from the last one on, as the loop collects them in \<^verbatim>\<open>tmp\<close>.\<close>

fun int_digits :: "nat \<Rightarrow> u8 list" where
  "int_digits n = (if n = 0 then [] else of_nat (48 + n mod 10) # int_digits (n div 10))"

declare int_digits.simps [simp del]

definition int_text :: "int \<Rightarrow> u8 list" where
  "int_text n = (if n = 0 then [48] else rev (int_digits (nat n)))"

definition append_int :: "nat \<Rightarrow> u8 list \<Rightarrow> int \<Rightarrow> u8 list option" where
  "append_int cap buf n = str_append cap buf (int_text n)"

definition is_digit :: "u8 \<Rightarrow> bool" where
  "is_digit c \<longleftrightarrow> 48 \<le> c \<and> c \<le> 57"

text \<open>The number that the digits at the start of a string continue.\<close>

fun digits_from :: "int \<Rightarrow> u8 list \<Rightarrow> int" where
  "digits_from n [] = n"
| "digits_from n (c # cs) = (if is_digit c then digits_from (wrap32 (n * 10 + (uint c - 48))) cs else n)"

definition str_to_int :: "u8 list \<Rightarrow> int" where
  "str_to_int s = digits_from 0 s"

definition to_lower :: "u8 \<Rightarrow> u8" where
  "to_lower c = (if 65 \<le> c \<and> c \<le> 90 then c + (97 - 65) else c)"

text \<open>The character at position \<open>i\<close> of an array; behind its end there is none.\<close>

definition ch_at :: "u8 list \<Rightarrow> nat \<Rightarrow> u8" where
  "ch_at p i = (if i < length p then p ! i else 0)"

fun starts_i :: "u8 list \<Rightarrow> u8 list \<Rightarrow> bool" where
  "starts_i [] h = True"
| "starts_i (n # ns) [] = False"
| "starts_i (n # ns) (h # hs) = (h \<noteq> 0 \<and> to_lower h = to_lower n \<and> starts_i ns hs)"

text \<open>\<^verbatim>\<open>str_find_i\<close> for a needle that is not empty: the array from the first match on.\<close>

fun str_find_i :: "u8 list \<Rightarrow> u8 list \<Rightarrow> u8 list option" where
  "str_find_i needle [] = None"
| "str_find_i needle (h # hs) =
     (if h = 0 then None else if starts_i needle (h # hs) then Some (h # hs) else str_find_i needle hs)"

section \<open>The answer of the AI\<close>

fun take_message :: "nat \<Rightarrow> u8 list \<Rightarrow> u8 list" where
  "take_message 0 p = []"
| "take_message (Suc n) [] = []"
| "take_message (Suc n) (c # p) =
     (if c = 0 then []
      else if c = 91 \<and> (to_lower (ch_at p 0) = 109 \<or> to_lower (ch_at p 0) = 116) then []
      else c # take_message n p)"

fun take_memory :: "nat \<Rightarrow> u8 list \<Rightarrow> u8 list" where
  "take_memory 0 p = []"
| "take_memory (Suc n) [] = []"
| "take_memory (Suc n) (c # p) = (if c = 0 \<or> c = 91 then [] else c # take_memory n p)"

text \<open>Blanks and line ends at the end are dropped.\<close>

definition trim_end :: "u8 list \<Rightarrow> u8 list" where
  "trim_end s = rev (dropWhile (\<lambda>c. c = 32 \<or> c = 10) (rev s))"

text \<open>\<^verbatim>\<open>p += n\<close>, which must stay in the array.\<close>

definition advance :: "nat \<Rightarrow> u8 list \<Rightarrow> u8 list option" where
  "advance n p = (if n < length p then Some (drop n p) else None)"

text \<open>The target behind \<^verbatim>\<open>[to \<close>, and the rest of the array: -1 for none, 0 for neither.\<close>

definition parse_target :: "u8 list \<Rightarrow> (int \<times> u8 list) option" where
  "parse_target p =
     (if to_lower (ch_at p 0) = 110 \<and> to_lower (ch_at p 1) = 111 \<and> to_lower (ch_at p 2) = 110 \<and> to_lower (ch_at p 3) = 101
      then map_option (\<lambda>p. (- 1, p)) (advance 5 p)
      else if to_lower (ch_at p 0) = 110 \<and> to_lower (ch_at p 1) = 112 \<and> to_lower (ch_at p 2) = 99
      then (let p = drop 3 p; target = str_to_int p; p = dropWhile is_digit p
            in Some (target, if ch_at p 0 = 93 then drop 1 p else p))
      else Some (0, p))"

text \<open>The target, the message and the memory; \<open>None\<close> is a read behind the array.\<close>

definition parse_ai_response :: "u8 list \<Rightarrow> nat \<Rightarrow> nat \<Rightarrow> (int \<times> u8 list \<times> u8 list) option" where
  "parse_ai_response response msg_maxlen mem_maxlen = do {
     (target, message) \<leftarrow> (case str_find_i t_to response of
         None \<Rightarrow> Some (0, [])
       | Some p \<Rightarrow> do {
           (target, p) \<leftarrow> parse_target (drop 4 p);
           let p = dropWhile (\<lambda>c. c = 58 \<or> c = 32) p;
           Some (target, trim_end (take_message (msg_maxlen - 1) p)) });
     let memory = (case (case str_find_i t_memory_tag response of
           None \<Rightarrow> str_find_i t_memory_tag2 response | Some p \<Rightarrow> Some p) of
         None \<Rightarrow> []
       | Some p \<Rightarrow> trim_end (take_memory (mem_maxlen - 1) (dropWhile (\<lambda>c. c = 32) (drop 9 p))));
     Some (target, message, memory) }"

section \<open>The shared data\<close>

text \<open>\<^verbatim>\<open>l3_len\<close> is the length of \<open>sh_l3\<close>, as \<^verbatim>\<open>l3_history\<close> always ends at it.\<close>

record npc_shared =
  sh_mutex_id :: int
  sh_cond_id :: int
  sh_npc_id :: int
  sh_running :: bool
  sh_read_fds :: "int list"
  sh_write_fds :: "int list"
  sh_read_from :: "int list"
  sh_write_to :: "int list"
  sh_inbox :: "u8 list"
  sh_inbox_len :: int
  sh_inbox_from :: int
  sh_outbox :: "u8 list"
  sh_outbox_len :: int
  sh_outbox_to :: int
  sh_has_new_msg :: bool
  sh_has_pending_send :: bool
  sh_msg_sent :: int
  sh_msg_recv :: int
  sh_think_count :: int
  sh_ai_call_count :: int
  sh_target_pids :: "int list"
  sh_l3 :: "u8 list"
  sh_pending_memory :: "u8 list"
  sh_pending_memory_len :: int
  sh_has_pending_memory :: bool

datatype npc_call = Lock int | Unlock int | Signal int | Write int "u8 list" | Ipc_notify int int |
  Ai_chat "u8 list" | Memory_load int | Memory_save int "u8 list" int | Yield_cpu | Close int

definition find_write_fd_idx :: "npc_shared \<Rightarrow> int \<Rightarrow> nat option" where
  "find_write_fd_idx sh target = first_idx (\<lambda>n. n = target) (sh_write_to sh)"

definition append_to_l3 :: "u8 list \<Rightarrow> npc_shared \<Rightarrow> npc_shared" where
  "append_to_l3 entry sh = (let
     entry_len = int (length entry);
     remain = int L3_HISTORY_SIZE - int (length (sh_l3 sh)) - 2;
     (history, remain) = (if remain < entry_len then ([], int L3_HISTORY_SIZE - 2) else (sh_l3 sh, remain));
     history = (if history \<noteq> [] then history @ [59] else history);
     copy_len = (if entry_len < remain then entry_len else remain)
   in sh\<lparr>sh_l3 := history @ take (nat copy_len) entry\<rparr>)"

section \<open>The perception thread\<close>

text \<open>The rest of a round of the loop over the pipes, with the bytes that \<^verbatim>\<open>read\<close> gave from pipe \<open>i\<close>.\<close>

definition perceive :: "nat \<Rightarrow> u8 list \<Rightarrow> npc_shared \<Rightarrow> npc_call list \<times> npc_shared" where
  "perceive i buf sh =
     (if sh_has_new_msg sh then ([Lock (sh_mutex_id sh), Unlock (sh_mutex_id sh)], sh)
      else ([Lock (sh_mutex_id sh), Signal (sh_cond_id sh), Unlock (sh_mutex_id sh)],
        sh\<lparr>sh_inbox := str_copy buf 256, sh_inbox_len := int (length buf), sh_inbox_from := sh_read_from sh ! i,
          sh_has_new_msg := True, sh_msg_recv := wrap32 (sh_msg_recv sh + 1)\<rparr>))"

text \<open>The loop over the pipes: \<open>rs\<close> are the results of \<^verbatim>\<open>read\<close>, its value and the bytes.\<close>

fun perception_pipes :: "nat list \<Rightarrow> (int \<times> u8 list) list \<Rightarrow> npc_shared \<Rightarrow> npc_call list \<times> npc_shared" where
  "perception_pipes [] rs sh = ([], sh)"
| "perception_pipes (i # is) rs sh =
     (if \<not> sh_running sh then ([], sh)
      else if sh_read_fds sh ! i < 0 then perception_pipes is rs sh
      else case rs of
        [] \<Rightarrow> ([], sh)
      | (n, buf) # rs \<Rightarrow>
          if n < 0 then ([], sh)
          else if n = 0 then perception_pipes is rs sh
          else let (cs, sh) = perceive i (take (nat n) buf) sh; (cs', sh) = perception_pipes is rs sh in (cs @ cs', sh))"

text \<open>One round of a thread: its calls, the next value of \<^verbatim>\<open>loop\<close>, and the shared data. Each of the loops
  ends after 101 rounds, by \<^verbatim>\<open>loop > 100\<close>; then the thread calls \<^verbatim>\<open>exit(0)\<close>.\<close>

definition next_round :: "npc_call list \<Rightarrow> nat \<Rightarrow> npc_shared \<Rightarrow> npc_call list \<times> nat option \<times> npc_shared" where
  "next_round cs loop sh = (cs @ [Yield_cpu], if 100 < loop + 1 then None else Some (loop + 1), sh)"

definition perception_round :: "nat \<Rightarrow> (int \<times> u8 list) list \<Rightarrow> npc_shared \<Rightarrow> npc_call list \<times> nat option \<times> npc_shared" where
  "perception_round loop rs sh =
     (if \<not> sh_running sh then ([], None, sh)
      else let (cs, sh) = perception_pipes [0..<NPC_COUNT - 1] rs sh in
        if \<not> sh_running sh then (cs, None, sh) else next_round cs loop sh)"

section \<open>The thinking thread\<close>

text \<open>\<open>l2\<close> is the result of \<^verbatim>\<open>npc_memory_load\<close>: its value and the text.\<close>

definition build_ai_prompt :: "int \<times> u8 list \<Rightarrow> u8 list \<Rightarrow> int \<Rightarrow> npc_shared \<Rightarrow> u8 list option" where
  "build_ai_prompt l2 situation reply_to sh = (let add = (\<lambda>t p. str_append PROMPT_SIZE p t) in do {
     persona \<leftarrow> (if 1 \<le> sh_npc_id sh \<and> sh_npc_id sh \<le> int NPC_COUNT then Some (L1_PERSONAS ! nat (sh_npc_id sh - 1)) else None);
     p \<leftarrow> add persona [];
     p \<leftarrow> add [10] p;
     p \<leftarrow> (if 0 < fst l2 then do { p \<leftarrow> add t_memory p; p \<leftarrow> add (snd l2) p; add [10] p } else Some p);
     p \<leftarrow> (if sh_l3 sh \<noteq> [] then do { p \<leftarrow> add t_recent p; p \<leftarrow> add (sh_l3 sh) p; add [10] p } else Some p);
     p \<leftarrow> add t_now p;
     p \<leftarrow> add situation p;
     p \<leftarrow> add [10] p;
     p \<leftarrow> (if 0 < reply_to then do {
           p \<leftarrow> add t_must_reply p; p \<leftarrow> append_int PROMPT_SIZE p reply_to; p \<leftarrow> add t_format p;
           p \<leftarrow> add t_to_npc p; p \<leftarrow> append_int PROMPT_SIZE p reply_to; p \<leftarrow> add t_your_reply p; add t_or_none p }
         else do { p \<leftarrow> add t_please p; p \<leftarrow> add t_to_number p; add t_or_silent p });
     add t_optional p })"

definition should_think :: "u32 \<Rightarrow> npc_shared \<Rightarrow> bool" where
  "should_think rnd sh \<longleftrightarrow> sh_has_new_msg sh \<or> rnd mod 100 < 20"

text \<open>The situation of a received message, and its entry in the history.\<close>

definition received_texts :: "npc_shared \<Rightarrow> (u8 list \<times> u8 list) option" where
  "received_texts sh = do {
     s \<leftarrow> str_append 128 [] t_npc;
     s \<leftarrow> append_int 128 s (sh_inbox_from sh);
     s \<leftarrow> str_append 128 s t_says;
     s \<leftarrow> str_append 128 s (sh_inbox sh);
     e \<leftarrow> str_append 128 [] t_npc;
     e \<leftarrow> append_int 128 e (sh_inbox_from sh);
     e \<leftarrow> str_append 128 e [58];
     e \<leftarrow> str_append 128 e (sh_inbox sh);
     Some (s, e) }"

fun append_others :: "int list \<Rightarrow> bool \<Rightarrow> u8 list \<Rightarrow> npc_shared \<Rightarrow> u8 list option" where
  "append_others [] first s sh = Some s"
| "append_others (j # js) first s sh =
     (if j = sh_npc_id sh then append_others js first s sh
      else do {
        s \<leftarrow> (if first then Some s else str_append 128 s [44]);
        s \<leftarrow> str_append 128 s t_npc;
        s \<leftarrow> append_int 128 s j;
        append_others js False s sh })"

text \<open>The first critical section of a round: the prompt for the AI, if the thread is to think.\<close>

definition think_begin :: "u32 \<Rightarrow> int \<times> u8 list \<Rightarrow> npc_shared \<Rightarrow> (u8 list option \<times> npc_shared) option" where
  "think_begin rnd l2 sh =
     (if \<not> (should_think rnd sh \<and> \<not> sh_has_pending_send sh) then Some (None, sh)
      else let sh = sh\<lparr>sh_think_count := wrap32 (sh_think_count sh + 1)\<rparr> in do {
        (situation, reply_to, sh) \<leftarrow>
          (if sh_has_new_msg sh \<and> 0 < sh_inbox_from sh then do {
             (s, e) \<leftarrow> received_texts sh;
             Some (s, sh_inbox_from sh, append_to_l3 e sh) }
           else do {
             s \<leftarrow> str_append 128 [] t_want;
             s \<leftarrow> append_others (map int [1..<NPC_COUNT + 1]) True s sh;
             Some (s, 0, sh) });
        prompt \<leftarrow> build_ai_prompt l2 situation reply_to sh;
        Some (Some prompt, sh) })"

text \<open>What a parsed answer does.\<close>

definition decide :: "int \<Rightarrow> u8 list \<Rightarrow> u8 list \<Rightarrow> npc_shared \<Rightarrow> npc_shared option" where
  "decide target message memory sh =
     (if target = 0 then Some sh
      else do {
        let sh = sh\<lparr>sh_outbox_to := target\<rparr>;
        sh \<leftarrow> (if 0 < target \<and> message \<noteq> [] then do {
             let sh = sh\<lparr>sh_outbox := str_copy message 256,
               sh_outbox_len := int (length (str_copy message 256)), sh_has_pending_send := True\<rparr>;
             e \<leftarrow> str_append 128 [] t_me;
             e \<leftarrow> append_int 128 e target;
             e \<leftarrow> str_append 128 e [58];
             e \<leftarrow> str_append 128 e message;
             Some (append_to_l3 e sh) }
           else Some sh);
        Some (if memory \<noteq> [] then sh\<lparr>sh_pending_memory := str_copy memory 256,
            sh_pending_memory_len := int (length memory), sh_has_pending_memory := True\<rparr> else sh) })"

text \<open>The second one, with the result of \<^verbatim>\<open>npc_ai_chat\<close> and the array it filled.\<close>

definition think_end :: "int \<Rightarrow> u8 list \<Rightarrow> npc_shared \<Rightarrow> npc_shared option" where
  "think_end ai_ret response sh = do {
     sh \<leftarrow> (if 0 < ai_ret then do {
         let sh = sh\<lparr>sh_ai_call_count := wrap32 (sh_ai_call_count sh + 1)\<rparr>;
         (target, message, memory) \<leftarrow> parse_ai_response response 256 256;
         decide target message memory sh }
       else Some (if sh_has_new_msg sh \<and> 0 < sh_inbox_from sh
         then sh\<lparr>sh_outbox_to := sh_inbox_from sh, sh_outbox := t_received,
           sh_outbox_len := int (length t_received), sh_has_pending_send := True\<rparr>
         else sh));
     Some (sh\<lparr>sh_has_new_msg := False, sh_inbox_from := - 1\<rparr>) }"

text \<open>A round of the loop: up to the call of the AI, which no lock covers, or to its end; and from the
  answer on.\<close>

definition thinking_round :: "nat \<Rightarrow> u32 \<Rightarrow> int \<times> u8 list \<Rightarrow> npc_shared \<Rightarrow>
    ((npc_call list \<times> nat option \<times> npc_shared) \<times> u8 list option) option" where
  "thinking_round loop rnd l2 sh =
     (if \<not> sh_running sh then Some (([], None, sh), None)
      else do {
        (prompt, sh') \<leftarrow> think_begin rnd l2 sh;
        case prompt of
          None \<Rightarrow> Some (next_round [Lock (sh_mutex_id sh), Unlock (sh_mutex_id sh)] loop sh', None)
        | Some p \<Rightarrow> Some (([Lock (sh_mutex_id sh), Memory_load (sh_npc_id sh), Unlock (sh_mutex_id sh), Ai_chat p], Some loop, sh'),
            prompt) })"

definition answer_round :: "nat \<Rightarrow> int \<Rightarrow> u8 list \<Rightarrow> npc_shared \<Rightarrow> (npc_call list \<times> nat option \<times> npc_shared) option" where
  "answer_round loop ai_ret response sh =
     map_option (next_round [Lock (sh_mutex_id sh), Unlock (sh_mutex_id sh)] loop) (think_end ai_ret response sh)"

section \<open>The communication thread\<close>

text \<open>\<open>n\<close> is the result of \<^verbatim>\<open>write\<close>; the target is read from the table of process identifiers.\<close>

definition communicate :: "int \<Rightarrow> npc_shared \<Rightarrow> (npc_call list \<times> npc_shared) option" where
  "communicate n sh =
     (if sh_has_pending_send sh \<and> 0 < sh_outbox_to sh then do {
        (cs, sh) \<leftarrow> (case find_write_fd_idx sh (sh_outbox_to sh) of
            None \<Rightarrow> Some ([], sh)
          | Some idx \<Rightarrow>
              if sh_write_fds sh ! idx < 0 then Some ([], sh)
              else let w = Write (sh_write_fds sh ! idx) (take (nat (sh_outbox_len sh)) (sh_outbox sh)) in
                if n \<le> 0 then Some ([w], sh)
                else if length (sh_target_pids sh) \<le> nat (sh_outbox_to sh - 1) then None
                else let pid = sh_target_pids sh ! nat (sh_outbox_to sh - 1) in
                  Some (w # (if 0 < pid then [Ipc_notify pid n] else []),
                    sh\<lparr>sh_msg_sent := wrap32 (sh_msg_sent sh + 1)\<rparr>));
        Some (cs, sh\<lparr>sh_has_pending_send := False, sh_outbox_to := - 1, sh_outbox_len := 0\<rparr>) }
      else if sh_has_pending_send sh \<and> sh_outbox_to sh < 0 then Some ([], sh\<lparr>sh_has_pending_send := False\<rparr>)
      else Some ([], sh))"

definition communication_round :: "nat \<Rightarrow> int \<Rightarrow> npc_shared \<Rightarrow> (npc_call list \<times> nat option \<times> npc_shared) option" where
  "communication_round loop n sh =
     (if \<not> sh_running sh then Some ([], None, sh)
      else do {
        (cs, sh) \<leftarrow> communicate n sh;
        Some (next_round (Lock (sh_mutex_id sh) # cs @ [Unlock (sh_mutex_id sh)]) loop sh) })"

section \<open>The memory thread\<close>

definition memorise :: "npc_shared \<Rightarrow> npc_call list \<times> npc_shared" where
  "memorise sh =
     (if sh_has_pending_memory sh \<and> 0 < sh_pending_memory_len sh
      then ([Memory_save (sh_npc_id sh) (sh_pending_memory sh) (sh_pending_memory_len sh)],
        sh\<lparr>sh_has_pending_memory := False, sh_pending_memory_len := 0\<rparr>)
      else ([], sh))"

definition memory_round :: "nat \<Rightarrow> npc_shared \<Rightarrow> npc_call list \<times> nat option \<times> npc_shared" where
  "memory_round loop sh =
     (if \<not> sh_running sh then ([], None, sh)
      else let (cs, sh) = memorise sh in
        next_round (Lock (sh_mutex_id sh) # cs @ [Unlock (sh_mutex_id sh)]) loop sh)"

section \<open>The main thread\<close>

text \<open>The loops over the arguments: descriptor \<open>k\<close> belongs to the \<open>k\<close>-th of the other NPCs.\<close>

definition other_npcs :: "int \<Rightarrow> int list" where
  "other_npcs npc_id = filter (\<lambda>i. i \<noteq> npc_id) (map int [1..<NPC_COUNT + 1])"

definition zero_shared :: npc_shared where
  "zero_shared = \<lparr>sh_mutex_id = 0, sh_cond_id = 0, sh_npc_id = 0, sh_running = False,
     sh_read_fds = [0, 0], sh_write_fds = [0, 0], sh_read_from = [0, 0], sh_write_to = [0, 0],
     sh_inbox = [], sh_inbox_len = 0, sh_inbox_from = 0, sh_outbox = [], sh_outbox_len = 0, sh_outbox_to = 0,
     sh_has_new_msg = False, sh_has_pending_send = False, sh_msg_sent = 0, sh_msg_recv = 0, sh_think_count = 0,
     sh_ai_call_count = 0, sh_target_pids = [0, 0, 0], sh_l3 = [], sh_pending_memory = [], sh_pending_memory_len = 0,
     sh_has_pending_memory = False\<rparr>"

text \<open>The shared data when the threads start, from the arguments and the locks the kernel gave; \<open>None\<close>
  when there is no identifier, or when the descriptors do not fit because the identifier is of no NPC.\<close>

definition npc_init :: "u8 list list \<Rightarrow> int \<Rightarrow> int \<Rightarrow> npc_shared option" where
  "npc_init argv mutex_id cond_id =
     (if length argv < 2 then None
      else let
        npc_id = str_to_int (argv ! 1);
        sh = zero_shared\<lparr>sh_npc_id := npc_id, sh_running := True, sh_inbox_from := - 1, sh_outbox_to := - 1\<rparr>;
        others = other_npcs npc_id
      in if length argv < 2 + 2 * (NPC_COUNT - 1) then
          Some (sh\<lparr>sh_read_fds := [- 1, - 1], sh_write_fds := [- 1, - 1], sh_target_pids := [3, 4, 5],
            sh_mutex_id := mutex_id, sh_cond_id := cond_id\<rparr>)
        else if length others \<noteq> NPC_COUNT - 1 then None
        else Some (sh\<lparr>
          sh_read_fds := map (\<lambda>k. str_to_int (argv ! (2 + k))) [0..<length others], sh_read_from := others,
          sh_write_fds := map (\<lambda>k. str_to_int (argv ! (2 + length others + k))) [0..<length others], sh_write_to := others,
          sh_target_pids := [3, 4, 5], sh_mutex_id := mutex_id, sh_cond_id := cond_id\<rparr>))"

text \<open>The end of the NPC: no more rounds, and the pipes are closed.\<close>

definition npc_stop :: "npc_shared \<Rightarrow> npc_call list \<times> npc_shared" where
  "npc_stop sh =
     (concat (map (\<lambda>(r, w). (if 0 \<le> r then [Close r] else []) @ (if 0 \<le> w then [Close w] else []))
        (zip (sh_read_fds sh) (sh_write_fds sh))),
      sh\<lparr>sh_running := False, sh_read_fds := map (\<lambda>fd. if 0 \<le> fd then - 1 else fd) (sh_read_fds sh),
        sh_write_fds := map (\<lambda>fd. if 0 \<le> fd then - 1 else fd) (sh_write_fds sh)\<rparr>)"

text \<open>One round of the monitor: \<open>ret\<close> and \<open>prio\<close> come from \<^verbatim>\<open>npc_get_status\<close>.\<close>

definition main_round :: "nat \<Rightarrow> int \<Rightarrow> int \<Rightarrow> npc_shared \<Rightarrow> npc_call list \<times> nat option \<times> npc_shared" where
  "main_round loop_count ret prio sh =
     (if ret < 0 then ([], None, sh)
      else if prio \<le> 0 then (let (cs, sh) = npc_stop sh in (cs, None, sh))
      else if 120 < loop_count + 1 then (let (cs, sh) = npc_stop sh in (Yield_cpu # cs, None, sh))
      else ([Yield_cpu], Some (loop_count + 1), sh))"

end
