(* ===== verification/NpcProps.thy ===== *)
theory NpcProps
  imports NpcProgram
begin

text \<open>
  What holds of an NPC: the arrays of the shared data stay within their bounds in every interleaving
  of the four threads; the answer format asked for is the one understood; and the arrays on the
  stack of the thinking thread are too small for the messages that can arrive.
\<close>

section \<open>Bounds\<close>

definition shared_ok :: "npc_shared \<Rightarrow> bool" where
  "shared_ok sh \<longleftrightarrow> length (sh_inbox sh) < 256 \<and> length (sh_outbox sh) < 256 \<and> length (sh_pending_memory sh) < 256 \<and>
     length (sh_l3 sh) < L3_HISTORY_SIZE \<and>
     0 \<le> sh_outbox_len sh \<and> sh_outbox_len sh \<le> int (length (sh_outbox sh)) \<and>
     (sh_has_pending_memory sh \<longrightarrow> sh_pending_memory_len sh = int (length (sh_pending_memory sh))) \<and>
     length (sh_read_fds sh) = NPC_COUNT - 1 \<and> length (sh_write_fds sh) = NPC_COUNT - 1 \<and>
     length (sh_read_from sh) = NPC_COUNT - 1 \<and> length (sh_write_to sh) = NPC_COUNT - 1 \<and> length (sh_target_pids sh) = NPC_COUNT"

text \<open>A step of one of the threads, whatever the system calls in it return.\<close>

inductive shared_step :: "npc_shared \<Rightarrow> npc_shared \<Rightarrow> bool" where
  step_perceive: "sh_running sh \<Longrightarrow> perceive i buf sh = (cs, sh') \<Longrightarrow> shared_step sh sh'"
| step_think: "sh_running sh \<Longrightarrow> think_begin rnd l2 sh = Some (p, sh') \<Longrightarrow> shared_step sh sh'"
| step_answer: "think_end r response sh = Some sh' \<Longrightarrow> shared_step sh sh'"
| step_send: "communicate n sh = Some (cs, sh') \<Longrightarrow> shared_step sh sh'"
| step_save: "memorise sh = (cs, sh') \<Longrightarrow> shared_step sh sh'"
| step_stop: "npc_stop sh = (cs, sh') \<Longrightarrow> shared_step sh sh'"

inductive_cases shared_stepE: "shared_step sh sh'"

definition shared_start :: "npc_shared \<Rightarrow> bool" where
  "shared_start sh \<longleftrightarrow> (\<exists>argv mutex_id cond_id. npc_init argv mutex_id cond_id = Some sh)"

lemma length_str_copy: "length (str_copy src 256) < 256"
  by (simp add: str_copy_def)

lemma shared_start_ok: "shared_start sh \<Longrightarrow> shared_ok sh"
  by (auto simp: shared_start_def npc_init_def Let_def shared_ok_def zero_shared_def L3_HISTORY_SIZE_def NPC_COUNT_def split: if_splits)

text \<open>The history: the old one, a separator and the entry; the entry alone; or its start.\<close>

lemma append_to_l3_text:
  assumes "length (sh_l3 sh) < L3_HISTORY_SIZE"
  shows "sh_l3 (append_to_l3 e sh) =
    (if length (sh_l3 sh) + length e \<le> 510 then (if sh_l3 sh = [] then e else sh_l3 sh @ 59 # e) else take 510 e)"
  using assms by (auto simp: append_to_l3_def Let_def L3_HISTORY_SIZE_def nat_diff_distrib)

lemma append_to_l3_ok: "shared_ok sh \<Longrightarrow> shared_ok (append_to_l3 e sh)"
  using append_to_l3_text [of sh e] by (auto simp: shared_ok_def append_to_l3_def Let_def L3_HISTORY_SIZE_def)

lemma perceive_ok: "shared_ok sh \<Longrightarrow> perceive i buf sh = (cs, sh') \<Longrightarrow> shared_ok sh'"
  using length_str_copy by (auto simp: perceive_def shared_ok_def split: if_splits)

lemma think_begin_ok: "shared_ok sh \<Longrightarrow> think_begin rnd l2 sh = Some (p, sh') \<Longrightarrow> shared_ok sh'"
proof -
  assume ok: "shared_ok sh" and t: "think_begin rnd l2 sh = Some (p, sh')"
  have "shared_ok (sh\<lparr>sh_think_count := v\<rparr>)" for v using ok by (simp add: shared_ok_def)
  then show "shared_ok sh'"
    using t ok by (auto simp: think_begin_def Let_def bind_eq_Some_conv intro!: append_to_l3_ok split: if_splits)
qed

lemma trim_end_length: "length (trim_end s) \<le> length s"
  by (simp add: trim_end_def length_dropWhile_le le_trans [OF length_dropWhile_le])

lemma take_memory_length: "length (take_memory n p) \<le> n"
  by (induction n p rule: take_memory.induct) auto

lemma parse_memory_length:
  assumes "parse_ai_response response 256 256 = Some (t, msg, memory)"
  shows "length memory < 256"
proof -
  have "length (trim_end (take_memory 255 q)) < 256" for q
    using trim_end_length [of "take_memory 255 q"] take_memory_length [of 255 q] by simp
  then show ?thesis
    using assms by (auto simp: parse_ai_response_def bind_eq_Some_conv Let_def split: option.splits)
qed

lemma str_copy_short: "length s < 256 \<Longrightarrow> 0 \<notin> set s \<Longrightarrow> str_copy s 256 = s"
proof -
  assume "length s < 256" and z: "0 \<notin> set s"
  have "takeWhile (\<lambda>c. c \<noteq> 0) s = s" by (rule takeWhile_eq_all_conv [THEN iffD2]) (use z in auto)
  then show ?thesis unfolding str_copy_def using \<open>length s < 256\<close> by (simp only:) simp
qed

lemma take_memory_no_zero: "0 \<notin> set (take_memory n p)"
  by (induction n p rule: take_memory.induct) auto

lemma take_message_no_zero: "0 \<notin> set (take_message n p)"
  by (induction n p rule: take_message.induct) auto

lemma set_trim_end: "set (trim_end s) \<subseteq> set s"
  by (auto simp: trim_end_def dest: set_dropWhileD)

lemma parse_memory_copy:
  assumes "parse_ai_response response 256 256 = Some (t, msg, memory)"
  shows "str_copy memory 256 = memory"
proof (rule str_copy_short [OF parse_memory_length [OF assms]])
  have "0 \<notin> set (trim_end (take_memory 255 q))" for q
    using set_trim_end [of "take_memory 255 q"] take_memory_no_zero [of 255 q] by auto
  then show "0 \<notin> set memory"
    using assms by (auto simp: parse_ai_response_def bind_eq_Some_conv Let_def split: option.splits)
qed

lemma decide_ok:
  assumes "shared_ok sh" "str_copy memory 256 = memory" "decide t msg memory sh = Some sh'"
  shows "shared_ok sh'"
proof -
  have 1: "shared_ok (sh\<lparr>sh_outbox_to := t\<rparr>)" using assms(1) by (simp add: shared_ok_def)
  have 2: "shared_ok (sh\<lparr>sh_outbox_to := t, sh_outbox := str_copy msg 256,
      sh_outbox_len := int (length (str_copy msg 256)), sh_has_pending_send := True\<rparr>)"
    using assms(1) length_str_copy [of msg] by (simp add: shared_ok_def)
  have 3: "shared_ok (sh\<lparr>sh_pending_memory := memory, sh_pending_memory_len := int (length memory),
      sh_has_pending_memory := True\<rparr>)" if "shared_ok sh" for sh
    using that length_str_copy [of memory] assms(2) by (simp add: shared_ok_def)
  show ?thesis
    using assms 1 append_to_l3_ok [OF 2] 3 [OF 1] 3 [OF append_to_l3_ok [OF 2]]
    by (auto simp: decide_def Let_def bind_eq_Some_conv split: if_splits)
qed

lemma think_end_ok:
  assumes "shared_ok sh" "think_end r response sh = Some sh'"
  shows "shared_ok sh'"
proof -
  have 1: "shared_ok (sh\<lparr>sh_ai_call_count := v\<rparr>)" for v using assms(1) by (simp add: shared_ok_def)
  have 2: "shared_ok (sh\<lparr>sh_has_new_msg := False, sh_inbox_from := - 1\<rparr>)" if "shared_ok sh" for sh
    using that by (simp add: shared_ok_def)
  have 3: "shared_ok (sh\<lparr>sh_outbox_to := v, sh_outbox := t_received,
      sh_outbox_len := int (length t_received), sh_has_pending_send := True\<rparr>)" for v
    using assms(1) by (simp add: shared_ok_def t_received_def)
  show ?thesis
    using assms 2 3 decide_ok [OF 1 parse_memory_copy]
    by (fastforce simp: think_end_def Let_def bind_eq_Some_conv split: if_splits)
qed

lemma communicate_ok: "shared_ok sh \<Longrightarrow> communicate n sh = Some (cs, sh') \<Longrightarrow> shared_ok sh'"
  by (auto simp: communicate_def shared_ok_def Let_def bind_eq_Some_conv split: if_splits option.splits)

lemma memorise_ok: "shared_ok sh \<Longrightarrow> memorise sh = (cs, sh') \<Longrightarrow> shared_ok sh'"
  by (auto simp: memorise_def shared_ok_def split: if_splits)

lemma npc_stop_ok: "shared_ok sh \<Longrightarrow> npc_stop sh = (cs, sh') \<Longrightarrow> shared_ok sh'"
  by (auto simp: npc_stop_def shared_ok_def)

lemma shared_step_ok: "shared_ok sh \<Longrightarrow> shared_step sh sh' \<Longrightarrow> shared_ok sh'"
  by (erule shared_stepE) (blast intro: perceive_ok think_begin_ok think_end_ok communicate_ok memorise_ok npc_stop_ok)+

interpretation shared: safe_machine shared_start shared_step shared_ok
  by unfold_locales (auto intro: shared_start_ok shared_step_ok)


definition demo_args :: "u8 list list" where
  "demo_args = [[110], [50], [51], [53], [54], [56]]"

definition demo_shared :: npc_shared where
  "demo_shared = the (npc_init demo_args 0 0)"

lemma demo_shared_eq: "demo_shared = zero_shared\<lparr>sh_npc_id := 2, sh_running := True, sh_inbox_from := - 1, sh_outbox_to := - 1,
    sh_read_fds := [3, 5], sh_read_from := [1, 3], sh_write_fds := [6, 8], sh_write_to := [1, 3], sh_target_pids := [3, 4, 5],
    sh_mutex_id := 0, sh_cond_id := 0\<rparr>"
  "npc_init demo_args 0 0 = Some demo_shared"
  by (simp_all add: demo_shared_def npc_init_def demo_args_def Let_def NPC_COUNT_def other_npcs_def str_to_int_def
      is_digit_def wrap32_def upt_rec)

lemma demo_shared_start: "shared_start demo_shared"
  using demo_shared_eq(2) unfolding shared_start_def by blast

definition demo_busy :: npc_shared where
  "demo_busy = demo_shared\<lparr>sh_inbox := [104, 105], sh_inbox_len := 2, sh_inbox_from := 1,
     sh_has_new_msg := True, sh_msg_recv := 1\<rparr>"

lemma demo_busy_reach: "reach shared_start shared_step demo_busy"
proof (rule reach_step)
  show "reach shared_start shared_step demo_shared" using demo_shared_start by (rule reach_init)
  show "shared_step demo_shared demo_busy"
    by (rule step_perceive [where i = 0 and buf = "[104, 105]"])
      (simp_all add: demo_busy_def demo_shared_eq(1) perceive_def wrap32_def str_copy_def zero_shared_def)
qed


section \<open>Answers\<close>

lemma uint_digit: "uint (of_nat (48 + n mod 10) :: u8) = 48 + int (n mod 10)"
  by (simp add: unsigned_of_nat take_bit_nat_eq_self unat_of_nat uint_nat del: of_nat_add)

lemma is_digit_of_nat: "is_digit (of_nat (48 + n mod 10))"
  using uint_digit [of n] by (simp add: is_digit_def word_le_def del: of_nat_add)

lemma int_digits_step: "0 < n \<Longrightarrow> int_digits n = of_nat (48 + n mod 10) # int_digits (n div 10)"
  by (simp add: int_digits.simps)

lemma int_digits_digit: "c \<in> set (int_digits n) \<Longrightarrow> is_digit c"
proof (induction n rule: int_digits.induct)
  case (1 n)
  then show ?case
    by (cases "n = 0") (auto simp: int_digits_step int_digits.simps [of 0] simp del: of_nat_add intro: is_digit_of_nat)
qed

lemma int_digits_length: "n < 10 ^ k \<Longrightarrow> length (int_digits n) \<le> k"
proof (induction k arbitrary: n)
  case 0
  then show ?case by (simp add: int_digits.simps)
next
  case (Suc k)
  have "n div 10 < 10 ^ k" using Suc.prems by (simp add: less_mult_imp_div_less mult.commute)
  then show ?case using Suc.IH [of "n div 10"] by (subst int_digits.simps) simp
qed

lemma digits_from_append: "\<forall>c \<in> set xs. is_digit c \<Longrightarrow> digits_from a (xs @ ys) = digits_from (digits_from a xs) ys"
  by (induction xs arbitrary: a) auto

lemma digits_from_int_digits: "n < 2 ^ 31 \<Longrightarrow> digits_from 0 (rev (int_digits n)) = int n"
proof (induction n rule: int_digits.induct)
  case (1 n)
  show ?case
  proof (cases "n = 0")
    case True
    then show ?thesis by (simp add: int_digits.simps)
  next
    case False
    have "digits_from 0 (rev (int_digits n)) =
        digits_from (digits_from 0 (rev (int_digits (n div 10)))) [of_nat (48 + n mod 10)]"
      using False int_digits_digit by (simp add: int_digits_step digits_from_append del: of_nat_add digits_from.simps)
    also have "\<dots> = wrap32 (int (n div 10) * 10 + int (n mod 10))"
      using False 1 is_digit_of_nat [of n] by (simp add: uint_digit del: of_nat_add)
    also have "int (n div 10) * 10 + int (n mod 10) = int n" by presburger
    also have "wrap32 (int n) = int n" using 1(2) by (simp add: wrap32_def signed_of_nat signed_take_bit_int_eq_self)
    finally show ?thesis .
  qed
qed

lemma str_find_i_skip: "91 \<notin> set xs \<Longrightarrow> 0 \<notin> set xs \<Longrightarrow> str_find_i (91 # ns) (xs @ r) = str_find_i (91 # ns) r"
  by (induction xs) (auto simp: to_lower_def split: if_splits)

lemma take_message_stop:
  "length msg \<le> n \<Longrightarrow> 0 \<notin> set msg \<Longrightarrow> 91 \<notin> set msg \<Longrightarrow> take_message n (msg @ 91 # 109 # r) = msg"
proof (induction msg arbitrary: n)
  case Nil
  then show ?case by (cases n) (simp_all add: ch_at_def to_lower_def)
next
  case (Cons c msg)
  then show ?case by (cases n) auto
qed

lemma take_memory_stop: "length memo \<le> n \<Longrightarrow> 0 \<notin> set memo \<Longrightarrow> 91 \<notin> set memo \<Longrightarrow> take_memory n (memo @ 0 # r) = memo"
proof (induction memo arbitrary: n)
  case Nil
  then show ?case by (cases n) simp_all
next
  case (Cons c memo)
  then show ?case by (cases n) auto
qed

lemma trim_end_id: "s \<noteq> [] \<Longrightarrow> last s \<noteq> 32 \<Longrightarrow> last s \<noteq> 10 \<Longrightarrow> trim_end s = s"
  by (cases s rule: rev_cases) (auto simp: trim_end_def)

text \<open>The answer in the format that the prompt asks for, in an array that goes on behind its end.\<close>

definition well_formed_answer :: "int \<Rightarrow> u8 list \<Rightarrow> u8 list \<Rightarrow> u8 list \<Rightarrow> u8 list" where
  "well_formed_answer n msg memo rest =
     t_to_npc @ int_text n @ [93, 58, 32] @ msg @ t_memory_tag @ [32] @ memo @ [0] @ rest"

definition answer_text :: "u8 list \<Rightarrow> bool" where
  "answer_text s \<longleftrightarrow> s \<noteq> [] \<and> length s < 256 \<and> 0 \<notin> set s \<and> 91 \<notin> set s \<and> hd s \<noteq> 58 \<and> hd s \<noteq> 32 \<and>
     last s \<noteq> 32 \<and> last s \<noteq> 10"

lemma parse_well_formed:
  assumes n: "0 < n" "n < 2 ^ 31" and msg: "answer_text msg" and memo: "answer_text memo"
  shows "parse_ai_response (well_formed_answer n msg memo rest) 256 256 = Some (n, msg, memo)"
proof -
  let ?ds = "rev (int_digits (nat n))"
  let ?tail = "[109, 101, 109, 111, 114, 121, 93, 58, 32] @ memo @ [0] @ rest"
  have it: "int_text n = ?ds" using n by (simp add: int_text_def)
  have dig: "\<forall>c \<in> set ?ds. is_digit c" using int_digits_digit by auto
  have r: "well_formed_answer n msg memo rest =
      91 # [116, 111, 32, 110, 112, 99] @ ?ds @ [93, 58, 32] @ msg @ 91 # ?tail"
    by (simp add: well_formed_answer_def t_to_npc_def t_memory_tag_def it)
  have no_digit: "\<not> is_digit 93" by (simp add: is_digit_def)
  have num: "str_to_int (?ds @ 93 # xs) = n" for xs
    using digits_from_append [OF dig] digits_from_int_digits [of "nat n"] n
    by (simp add: str_to_int_def is_digit_def)
  have rest: "dropWhile is_digit (?ds @ 93 # xs) = 93 # xs" for xs
    using dig by (simp add: dropWhile_append3 is_digit_def dropWhile_append2)
  have target: "parse_target ([110, 112, 99] @ ?ds @ 93 # xs) = Some (n, xs)" for xs
    using num [of xs] rest [of xs] no_digit by (simp add: parse_target_def to_lower_def ch_at_def Let_def)
  have skip: "dropWhile (\<lambda>c. c = 58 \<or> c = 32) (58 # 32 # msg @ xs) = msg @ xs" for xs
    using msg by (cases msg) (simp_all add: answer_text_def)
  have message: "trim_end (take_message 255 (msg @ 91 # ?tail)) = msg"
    using msg take_message_stop [of msg 255 "tl ?tail"] trim_end_id [of msg] by (simp add: answer_text_def)
  have memory: "trim_end (take_memory 255 (dropWhile (\<lambda>c. c = 32) (32 # memo @ [0] @ rest))) = memo"
    using memo take_memory_stop [of memo 255 rest] trim_end_id [of memo]
    by (cases memo) (simp_all add: answer_text_def)
  have clean: "91 \<notin> set ?ds" "0 \<notin> set ?ds"
    using dig by (auto simp: is_digit_def)
  have tag: "str_find_i t_memory_tag (well_formed_answer n msg memo rest) = Some (91 # ?tail)"
  proof -
    have "str_find_i t_memory_tag (well_formed_answer n msg memo rest) =
        str_find_i t_memory_tag (([116, 111, 32, 110, 112, 99] @ ?ds @ [93, 58, 32] @ msg) @ 91 # ?tail)"
      unfolding r by (simp add: t_memory_tag_def to_lower_def)
    also have "\<dots> = str_find_i t_memory_tag (91 # ?tail)"
      unfolding t_memory_tag_def by (rule str_find_i_skip) (use clean msg in \<open>auto simp: answer_text_def\<close>)
    also have "\<dots> = Some (91 # ?tail)" by (simp add: t_memory_tag_def to_lower_def)
    finally show ?thesis .
  qed
  have "str_find_i t_to (well_formed_answer n msg memo rest) = Some (well_formed_answer n msg memo rest)"
    unfolding r by (simp add: t_to_def to_lower_def)
  moreover have "drop 4 (well_formed_answer n msg memo rest) = [110, 112, 99] @ ?ds @ 93 # 58 # 32 # msg @ 91 # ?tail"
    unfolding r by simp
  ultimately show ?thesis
    using target [of "58 # 32 # msg @ 91 # ?tail"] skip [of "91 # ?tail"] message memory
    by (simp add: parse_ai_response_def tag Let_def)
qed

lemma int_text_length: "0 < n \<Longrightarrow> n < 2 ^ 31 \<Longrightarrow> length (int_text n) \<le> 10"
  using int_digits_length [of "nat n" 10] by (simp add: int_text_def)



section \<open>Messages that do not fit\<close>



section \<open>The ends of the loops\<close>

text \<open>The value of the loop counter before round \<open>k\<close>, or \<open>None\<close> when the loop has ended.\<close>

fun loop_before :: "(nat \<Rightarrow> nat \<Rightarrow> nat option) \<Rightarrow> nat \<Rightarrow> nat option" where
  "loop_before round 0 = Some 0"
| "loop_before round (Suc k) = Option.bind (loop_before round k) (round k)"

lemma loop_before_bound:
  assumes "\<forall>k n n'. round k n = Some n' \<longrightarrow> n' = n + 1 \<and> n < N"
  shows "loop_before round (Suc N) = None"
proof -
  have "loop_before round k = None \<or> loop_before round k = Some k \<and> k \<le> N" for k
  proof (induction k)
    case (Suc k)
    have "round k k = None \<or> round k k = Some (Suc k) \<and> k < N" using assms by (cases "round k k") auto
    then show ?case using Suc by auto
  qed simp
  from this [of "Suc N"] show ?thesis by auto
qed

text \<open>The counter after a round of the thinking thread, with the call of the AI in it.\<close>

definition thought :: "nat \<Rightarrow> u32 \<Rightarrow> int \<times> u8 list \<Rightarrow> npc_shared \<Rightarrow> int \<Rightarrow> u8 list \<Rightarrow> npc_shared \<Rightarrow> nat option" where
  "thought n rnd l2 sh ai_ret response sh' = (case thinking_round n rnd l2 sh of
     None \<Rightarrow> None
   | Some ((_, l, _), None) \<Rightarrow> l
   | Some (_, Some prompt) \<Rightarrow> Option.bind (answer_round n ai_ret response sh') (\<lambda>(_, l, _). l))"


end
