(* ===== verification/NpcWorld.thy ===== *)
theory NpcWorld
  imports NpcProps UserLib
begin

text \<open>
  \<^verbatim>\<open>user/src/ch11_world.c\<close>: the program that creates the pipes between the NPCs, starts them and waits
  for their ends; and its forerunner without pipes, \<^verbatim>\<open>ch10_world.c\<close> and \<^verbatim>\<open>ch10_npc.c\<close>.

  The matrix of pipes gives the two descriptors of the pipe from one NPC to another, counted from 0.
  A process that calls \<^verbatim>\<open>exec\<close> or \<^verbatim>\<open>exit\<close> goes on no further: \<open>Child\<close> has all its calls. \<open>None\<close> is a
  text that does not fit its array, or a system call that never returns. The messages on the
  console are left out.
\<close>

type_synonym pipes = "nat \<times> nat \<Rightarrow> int \<times> int"

datatype world_next = World "int list" ulib | Child ulib

definition int_to_str :: "int \<Rightarrow> u8 list" where
  "int_to_str n = (if n = 0 then [48] else rev (int_digits (nat n)))"

section \<open>Pipes\<close>

definition make_pipe :: "ukernel \<Rightarrow> nat \<times> nat \<Rightarrow> pipes \<Rightarrow> ulib \<Rightarrow> (pipes \<times> ulib) option" where
  "make_pipe K ij P u =
     (if fst ij \<noteq> snd ij then do {
        (r, bs, u) \<leftarrow> u_pipe K u;
        Some (if r < 0 then P(ij := (- 1, - 1))
          else P(ij := (sint (le_word (slice 0 4 bs) :: u32), sint (le_word (slice 4 4 bs) :: u32))), u) }
      else Some (P(ij := (- 1, - 1)), u))"

fun make_pipes :: "ukernel \<Rightarrow> (nat \<times> nat) list \<Rightarrow> pipes \<Rightarrow> ulib \<Rightarrow> (pipes \<times> ulib) option" where
  "make_pipes K [] P u = Some (P, u)"
| "make_pipes K (ij # ijs) P u = do { (P, u) \<leftarrow> make_pipe K ij P u; make_pipes K ijs P u }"

definition all_pairs :: "(nat \<times> nat) list" where
  "all_pairs = List.product [0..<NPC_COUNT] [0..<NPC_COUNT]"

fun close_fds :: "ukernel \<Rightarrow> int list \<Rightarrow> ulib \<Rightarrow> ulib option" where
  "close_fds K [] u = Some u"
| "close_fds K (fd # fds) u = (if fd < 0 then close_fds K fds u else do { (_, u) \<leftarrow> u_close K fd u; close_fds K fds u })"

definition close_pipes :: "ukernel \<Rightarrow> pipes \<Rightarrow> ulib \<Rightarrow> ulib option" where
  "close_pipes K P u = close_fds K (concat (map (\<lambda>ij. [fst (P ij), snd (P ij)]) all_pairs)) u"

section \<open>Arguments\<close>

definition t_ch11_npc :: "u8 list" where "t_ch11_npc = [99, 104, 49, 49, 95, 110, 112, 99]"
definition t_ch10_npc :: "u8 list" where "t_ch10_npc = [99, 104, 49, 48, 95, 110, 112, 99]"

text \<open>A number in an array of 8 characters.\<close>

definition fd_text :: "int \<Rightarrow> u8 list option" where
  "fd_text n = (let s = int_to_str n in if length s < 8 then Some s else None)"

fun fd_texts :: "int list \<Rightarrow> u8 list list option" where
  "fd_texts [] = Some []"
| "fd_texts (n # ns) = do { s \<leftarrow> fd_text n; ss \<leftarrow> fd_texts ns; Some (s # ss) }"

definition others_of :: "nat \<Rightarrow> nat list" where
  "others_of i = filter (\<lambda>j. j \<noteq> i) [0..<NPC_COUNT]"

text \<open>The name, the number of the NPC, the read ends of the pipes to it, and the write ends of those from it.\<close>

definition npc_argv :: "pipes \<Rightarrow> nat \<Rightarrow> u8 list list option" where
  "npc_argv P i = do {
     id_str \<leftarrow> fd_text (int i + 1);
     reads \<leftarrow> fd_texts (map (\<lambda>j. fst (P (j, i))) (others_of i));
     writes \<leftarrow> fd_texts (map (\<lambda>j. snd (P (i, j))) (others_of i));
     Some ([t_ch11_npc, id_str] @ reads @ writes) }"

definition npc10_argv :: "nat \<Rightarrow> u8 list list option" where
  "npc10_argv i = do { id_str \<leftarrow> fd_text (int i + 1); Some [t_ch10_npc, id_str] }"

section \<open>The world\<close>

definition world_child :: "ukernel \<Rightarrow> u8 list \<Rightarrow> u8 list list \<Rightarrow> ulib \<Rightarrow> world_next option" where
  "world_child K name argv u = (case u_exec K name (Some argv) u of
     None \<Rightarrow> Some (Child (u\<lparr>ul_calls := ul_calls u @ [(SYS_execve, [Str name, Strs argv])]\<rparr>))
   | Some (_, u) \<Rightarrow> do {
       (_, u) \<leftarrow> write_buffer K u;
       let u = clear_buffer u;
       Some (Child (u\<lparr>ul_calls := ul_calls u @ [(SYS_exit, [Num (- 1)])]\<rparr>)) })"

text \<open>The loop that starts the processes; \<open>pids\<close> starts with what is on the stack.\<close>

fun spawn_npcs :: "ukernel \<Rightarrow> u8 list \<Rightarrow> (nat \<Rightarrow> u8 list list option) \<Rightarrow> nat list \<Rightarrow> int list \<Rightarrow> ulib \<Rightarrow> world_next option" where
  "spawn_npcs K name argv_of [] pids u = Some (World pids u)"
| "spawn_npcs K name argv_of (i # is) pids u = do {
     (pid, u) \<leftarrow> u_fork K u;
     if pid < 0 then spawn_npcs K name argv_of is pids u
     else if pid = 0 then do { argv \<leftarrow> argv_of i; world_child K name argv u }
     else spawn_npcs K name argv_of is (pids[i := pid]) u }"

partial_function (option) wait_npcs :: "ukernel \<Rightarrow> int list \<Rightarrow> int \<Rightarrow> ulib \<Rightarrow> (int list \<times> ulib) option" where
  "wait_npcs K pids alive u =
     (if alive \<le> 0 then Some (pids, u)
      else do {
        (pid, code, u) \<leftarrow> u_waitpid K (- 1) u;
        let (pids, alive) = (if 0 < pid then (case first_idx (\<lambda>p. p = pid) pids of
            Some i \<Rightarrow> (pids[i := - 1], alive - 1) | None \<Rightarrow> (pids, alive)) else (pids, alive));
        (_, u) \<leftarrow> u_sched_yield K u;
        wait_npcs K pids alive u })"

definition world_main :: "ukernel \<Rightarrow> pipes \<Rightarrow> int list \<Rightarrow> ulib \<Rightarrow> world_next option" where
  "world_main K P pids u = do {
     (P, u) \<leftarrow> make_pipes K all_pairs P u;
     next \<leftarrow> spawn_npcs K t_ch11_npc (npc_argv P) [0..<NPC_COUNT] pids u;
     case next of
       Child u \<Rightarrow> Some (Child u)
     | World pids u \<Rightarrow> do {
         (pids, u) \<leftarrow> wait_npcs K pids (int NPC_COUNT) u;
         u \<leftarrow> close_pipes K P u;
         Some (World pids u) } }"

definition world10_main :: "ukernel \<Rightarrow> int list \<Rightarrow> ulib \<Rightarrow> world_next option" where
  "world10_main K pids u = do {
     next \<leftarrow> spawn_npcs K t_ch10_npc npc10_argv [0..<NPC_COUNT] pids u;
     case next of
       Child u \<Rightarrow> Some (Child u)
     | World pids u \<Rightarrow> do { (pids, u) \<leftarrow> wait_npcs K pids (int NPC_COUNT) u; Some (World pids u) } }"

section \<open>The NPC without threads\<close>

text \<open>The loop; the second word of the status is the priority.\<close>

function npc10_loop :: "ukernel \<Rightarrow> nat \<Rightarrow> ulib \<Rightarrow> (nat \<times> ulib) option" where
  "npc10_loop K loop_count u = do {
     (r, st, u) \<leftarrow> u_npc_get_status K u;
     if r < 0 then Some (loop_count, u)
     else if sint (le_word (slice 4 4 st) :: u32) \<le> 0 then Some (loop_count, u)
     else do {
       (_, u) \<leftarrow> u_npc_yield K u;
       if 100 < loop_count + 1 then Some (loop_count + 1, u) else npc10_loop K (loop_count + 1) u } }"
  by pat_completeness auto
termination
  by (relation "measure (\<lambda>(K, loop_count, u). 101 - loop_count)") auto

declare npc10_loop.simps [simp del]

definition npc10_main :: "ukernel \<Rightarrow> u8 list list \<Rightarrow> ulib \<Rightarrow> (int \<times> ulib) option" where
  "npc10_main K argv u =
     (if length argv < 2 then Some (- 1, u)
      else do {
        (r, u) \<leftarrow> u_npc_register K (str_to_int (argv ! 1)) u;
        if r < 0 then Some (- 1, u)
        else do { (_, u) \<leftarrow> npc10_loop K 0 u; Some (0, u) } })"

section \<open>The pipes are connected\<close>

lemma str_to_int_text: "0 \<le> n \<Longrightarrow> n < 2 ^ 31 \<Longrightarrow> str_to_int (int_to_str n) = n"
  using digits_from_int_digits [of "nat n"]
  by (cases "n = 0") (simp_all add: int_to_str_def str_to_int_def is_digit_def wrap32_def)

lemma fd_text_small:
  assumes "0 \<le> n" "n < 10 ^ 7"
  shows "\<exists>s. fd_text n = Some s \<and> str_to_int s = n"
proof -
  have "nat n < 10 ^ 7" using assms by simp
  then have "length (int_digits (nat n)) \<le> 7" by (rule int_digits_length)
  then have "length (int_to_str n) < 8" by (cases "n = 0") (simp_all add: int_to_str_def)
  then show ?thesis using str_to_int_text [of n] assms by (simp add: fd_text_def Let_def)
qed

text \<open>
  Property C37: the pipes connect the NPCs. When all pipes could be created, NPC \<open>i\<close> starts with
  arguments from which it takes its own number, and for each other NPC \<open>j\<close> the descriptors at one
  index: it writes messages to \<open>j\<close> into the pipe from \<open>i\<close> to \<open>j\<close>, and what it reads from the pipe from \<open>j\<close>
  to \<open>i\<close> it takes for messages of \<open>j\<close>.
\<close>

theorem world_connects_npcs:
  assumes P: "\<forall>a < NPC_COUNT. \<forall>b < NPC_COUNT. a \<noteq> b \<longrightarrow>
      0 \<le> fst (P (a, b)) \<and> fst (P (a, b)) < 10 ^ 7 \<and> 0 \<le> snd (P (a, b)) \<and> snd (P (a, b)) < 10 ^ 7"
    and i: "i < NPC_COUNT"
  shows "\<exists>argv sh. npc_argv P i = Some argv \<and> npc_init argv mutex_id cond_id = Some sh \<and> sh_npc_id sh = int i + 1 \<and>
    (\<forall>j < NPC_COUNT. j \<noteq> i \<longrightarrow> (\<exists>k. find_write_fd_idx sh (int j + 1) = Some k \<and>
       sh_write_fds sh ! k = snd (P (i, j)) \<and> sh_read_from sh ! k = int j + 1 \<and> sh_read_fds sh ! k = fst (P (j, i))))"
proof -
  define rs where "rs ij = the (fd_text (fst (P ij)))" for ij
  define ws where "ws ij = the (fd_text (snd (P ij)))" for ij
  have rs: "fd_text (fst (P (a, b))) = Some (rs (a, b))" "str_to_int (rs (a, b)) = fst (P (a, b))"
    and ws: "fd_text (snd (P (a, b))) = Some (ws (a, b))" "str_to_int (ws (a, b)) = snd (P (a, b))"
    if "a < 3" "b < 3" "a \<noteq> b" for a b
    using fd_text_small [of "fst (P (a, b))"] fd_text_small [of "snd (P (a, b))"] P that
    by (auto simp: rs_def ws_def NPC_COUNT_def)
  obtain d where d: "fd_text (int i + 1) = Some d" "str_to_int d = int i + 1"
    using fd_text_small [of "int i + 1"] i by (auto simp: NPC_COUNT_def)
  have "i = 0 \<or> i = 1 \<or> i = 2" using i by (simp add: NPC_COUNT_def) arith
  then show ?thesis
    by (elim disjE; use d in \<open>simp add: npc_argv_def others_of_def NPC_COUNT_def upt_rec rs ws npc_init_def
        other_npcs_def Let_def find_write_fd_idx_def All_less_Suc numeral_eq_Suc\<close>)
qed

definition demo_pipes :: pipes where
  "demo_pipes ij = (if fst ij = snd ij then (- 1, - 1) else (int (3 + (3 * fst ij + snd ij) mod 9), int (20 + (3 * fst ij + snd ij) mod 9)))"

text \<open>The second NPC writes to the third into the pipe between them.\<close>

theorem world_connects_npcs_witness:
  "\<exists>argv sh k. npc_argv demo_pipes 1 = Some argv \<and> npc_init argv 0 0 = Some sh \<and> sh_npc_id sh = 2 \<and>
     find_write_fd_idx sh 3 = Some k \<and> sh_write_fds sh ! k = 25 \<and> sh_read_fds sh ! k = 10"
  using world_connects_npcs [of demo_pipes 1 0 0] by (auto simp: demo_pipes_def NPC_COUNT_def dest!: spec [of _ 2])

end
