(* ===== verification/Spec2Isabelle.thy ===== *)
theory Spec2Isabelle
  imports SemSpec SchedFair NpcSched VMSpec Syscall FileProps PipeProps AiApi TrapProps MkfsProps UserShellProps NpcWorld
begin

text \<open>
  A model of a teaching operating system for RISC-V: its kernel (\<^verbatim>\<open>os/\<close>), its network stack (\<^verbatim>\<open>net/\<close>), the
  builder of its file system image (\<^verbatim>\<open>nfs/\<close>), and its user library and main user programs
  (\<^verbatim>\<open>user/\<close>), in which "NPC" processes live on points that the kernel gives for messages between them,
  and think by asking an AI service over the network.

  \<^bold>\<open>Conventions\<close>

  A C structure is a record with the names of its fields, an enumeration a datatype, an array a list,
  a pointer into a table the index in it; the kernel's memory is a function from 64-bit addresses to
  bytes. Machine integers are words of their width (\<open>u8\<close> to \<open>u64\<close>); a signed \<^verbatim>\<open>int\<close> is an \<open>int\<close>, wrapped
  by \<open>wrap32\<close> where it can overflow. The global state is passed along and returned. A C function that returns
  an error code returns the same code here; \<open>None\<close> is a \<^verbatim>\<open>panic\<close>, an access outside an array, or a
  call that never returns, as the text of each theory says. A function that gives the CPU
  away in its middle returns a resume point, and a second function is the rest of its body. Loops are structural
  recursion or have a termination proof; where the code may loop for ever, they are partial functions,
  \<open>None\<close> where they run on.

  \<^bold>\<open>Parts of the kernel and their theories\<close>

  \<^item> \<open>Prelude\<close>, \<open>Bytes\<close>: integer types, first matching slot of a table, reachable states and the locale
    \<open>safe_machine\<close>, the queue contract \<open>fifo\<close>, words as bytes, ranges of buffers.
  \<^item> \<open>RingQueue\<close> (\<^verbatim>\<open>os/queue.c\<close>), \<open>KString\<close> (\<^verbatim>\<open>os/string.c\<close>), \<open>Console\<close> (\<^verbatim>\<open>os/printf.c\<close>), \<open>KAlloc\<close> (\<^verbatim>\<open>os/kalloc.c\<close>; locale
    \<open>page_allocator\<close>).
  \<^item> \<open>ProcDefs\<close>, \<open>Sched\<close>, \<open>SchedFair\<close>, \<open>Process\<close> (\<^verbatim>\<open>os/proc.c\<close>, \<^verbatim>\<open>os/loader.c\<close>): the process and thread tables, the stride
    scheduler, \<^verbatim>\<open>fork\<close>, \<^verbatim>\<open>exec\<close>, \<^verbatim>\<open>wait\<close>, \<^verbatim>\<open>exit\<close> and threads. \<^verbatim>\<open>swtch\<close> is the change of the current thread.
  \<^item> \<open>Sync\<close>, \<open>Deadlock\<close> (\<^verbatim>\<open>os/sync.c\<close>, parts of \<^verbatim>\<open>os/syscall.c\<close>): mutexes, semaphores, condition variables and the
    banker check; \<open>MutexSafety\<close> and \<open>SemSpec\<close> hold what they guarantee over all interleavings.
  \<^item> \<open>NpcSched\<close>, \<open>NpcMemory\<close> (\<^verbatim>\<open>os/ai_sched.c\<close>, \<^verbatim>\<open>os/npc_memory.c\<close>): life points and stored texts of the NPCs.
  \<^item> \<open>VM\<close> (\<^verbatim>\<open>os/vm.c\<close>) with \<open>VMSpec\<close>: Sv39 page tables as a finite map (locale \<open>address_space\<close>).
  \<^item> \<open>VirtioDisk\<close> with \<open>DiskProps\<close> (\<^verbatim>\<open>os/virtio_disk.c\<close>), \<open>BlockIO\<close> with \<open>CacheSpec\<close> (\<^verbatim>\<open>os/bio.c\<close>, locale
    \<open>block_store\<close>), \<open>FileSys\<close> with \<open>FileSpec\<close>, \<open>FileData\<close> and \<open>FileProps\<close> (\<^verbatim>\<open>os/fs.c\<close>), \<open>Files\<close> (\<^verbatim>\<open>os/file.c\<close>),
    \<open>Pipe\<close> with \<open>PipeSpec\<close> and \<open>PipeProps\<close> (\<^verbatim>\<open>os/pipe.c\<close>).
  \<^item> \<open>Syscalls\<close>, \<open>Syscall\<close> (\<^verbatim>\<open>os/syscall.c\<close>): every system call, and the dispatcher over the trap frame.
  \<^item> \<open>Trap\<close> with \<open>TrapProps\<close> (\<^verbatim>\<open>os/trap.c\<close>, \<^verbatim>\<open>os/timer.c\<close>, \<^verbatim>\<open>os/plic.c\<close>): traps, interrupts and the return to
    user space, on a \<open>machine\<close> that puts the hart beside kernel, network stack and disk driver.

  \<^bold>\<open>Network stack\<close>

  \<^item> \<open>NetUtil\<close>, \<open>Checksum\<close> (\<^verbatim>\<open>net/util.c\<close>, \<^verbatim>\<open>net/platform.c\<close>), \<open>NetState\<close> (the record \<open>net\<close> with all tables).
  \<^item> \<open>VirtioNet\<close>, \<open>NetDev\<close>, \<open>NetStack\<close> (\<^verbatim>\<open>net/virtio_net.c\<close>, \<^verbatim>\<open>net/ether.c\<close>, \<^verbatim>\<open>net/net.c\<close>): the rings of the card,
    frames, the queues of packets and the software interrupt that empties them.
  \<^item> \<open>IpAddr\<close>, \<open>Arp\<close>, \<open>Ip\<close> (\<^verbatim>\<open>net/ip.c\<close>, \<^verbatim>\<open>net/arp.c\<close>, \<^verbatim>\<open>net/icmp.c\<close>), \<open>Udp\<close>, \<open>Tcp\<close>, \<open>TcpInput\<close>, \<open>NetUser\<close> (\<^verbatim>\<open>net/udp.c\<close>,
    \<^verbatim>\<open>net/tcp.c\<close>): protocols and user commands.
  \<^item> \<open>Http\<close>, \<open>AiApi\<close> (\<^verbatim>\<open>net/http.c\<close>, \<^verbatim>\<open>net/ai_api.c\<close>): the chat with the AI service.
  \<^item> \<open>NetPackets\<close>, \<open>NetFrame\<close>, \<open>NetProps\<close>, \<open>TcpProps\<close>: what these layers promise.

  \<^bold>\<open>User programs and the image builder\<close>

  \<^item> \<open>Mkfs\<close> with \<open>MkfsSpec\<close> and \<open>MkfsProps\<close> (\<^verbatim>\<open>nfs/fs.c\<close>): the builder, and the kernel's file system on its image.
  \<^item> \<open>UserLib\<close>, \<open>UserString\<close> (\<^verbatim>\<open>user/lib/\<close>) with \<open>UserLibProps\<close> and \<open>UserStringProps\<close>; \<open>UserShell\<close> with \<open>UserShellProps\<close>
    (\<^verbatim>\<open>user/src/usershell.c\<close>).
  \<^item> \<open>NpcProgram\<close> with \<open>NpcProps\<close> (\<^verbatim>\<open>user/src/ch11_npc.c\<close>), \<open>NpcWorld\<close> (\<^verbatim>\<open>user/src/ch11_world.c\<close>, \<^verbatim>\<open>ch10_world.c\<close>,
    \<^verbatim>\<open>ch10_npc.c\<close>).

  \<^bold>\<open>What is shown\<close>

  \<^item> Refinement of abstract specifications: \<^verbatim>\<open>mappages\<close> and \<^verbatim>\<open>uvmunmap\<close> update a finite map; a pipe is a bounded
    byte queue in spite of its wrapping counters; \<^verbatim>\<open>readi\<close> reads the byte sequence of a file through
    cache and block map; an image of \<^verbatim>\<open>mkfs\<close> holds, as the kernel reads it, the files given; a
    disk request over the virtio ring is a transfer of one block; TCP text is appended to the stream.
  \<^item> Safety over all interleavings or inputs: at most one thread holds a blocking mutex; life points stay in
    range; the TCP table stays well typed and only certain state changes happen; every way from a
    trap to user space leaves the hart in the state that \<^verbatim>\<open>sret\<close> needs; an interrupt of the kernel is
    invisible to it; the texts of an NPC stay within their arrays.
  \<^item> Equivalence with reference definitions: the Internet checksum; word-at-a-time string functions;
    the two \<^verbatim>\<open>printf\<close>. Decision: the deadlock check refuses exactly the requests after which the
    threads have no order of completion; the scheduler runs the least stride.
  \<^item> Liveness: no thread starves under the stride scheduler (locale \<open>measured_progress\<close>), and the
    loops of an NPC come to their ends.
  \<^item> Round trips, termination, and errors: text of addresses and numbers, answers of the AI,
    user memory; release of TCP control blocks; overruns that a
    peer or a long message can cause.

  \<^bold>\<open>Schedules and bounds\<close>

  \<^verbatim>\<open>sched_sleep\<close> and the user commands of the stack take a schedule of polls (what the card and the clock do
  between two looks) and end with \<open>None\<close> when it runs out before the command returns. The loops of
  an NPC need no fuel: each counts its rounds, and the bounds 101 and 121 are proved. All other
  recursions are total by a measure, or partial where the C loop may run for ever.

  \<^bold>\<open>Assumptions of the model\<close>

  One hart runs the kernel, as the code does. An interrupt is a trap of its own or an event at a poll, never in
  the middle of another operation; the spin locks of the network stack are therefore no state. The clock stands still within one operation. Devices, firmware, the AI service and the contents of uninitialised
  memory are inputs. In the network stack an allocation succeeds while its count of free pages lasts;
  the allocator itself is in \<open>KAlloc\<close>. Messages on the kernel's console are left out of the operations.

  \<^bold>\<open>Not modelled\<close>

  Assembly (\<^verbatim>\<open>entry.S\<close>, \<^verbatim>\<open>trampoline.S\<close>, \<^verbatim>\<open>switch.S\<close>, \<^verbatim>\<open>kernelvec.S\<close>) and link scripts: what the C code relies on them
  for is stated where it is used. The firmware calls of \<^verbatim>\<open>os/sbi.c\<close>: single \<^verbatim>\<open>ecall\<close> instructions. The order of
  initialisation in \<^verbatim>\<open>os/main.c\<close>, whose steps are modelled one by one. The other programs of \<^verbatim>\<open>user/src/\<close>: exercises that print
  the results of a few system calls. Build files, documentation and the boot loader binary.
\<close>

end
